(* ===== verification/Prelude.thy ===== *)
theory Prelude
  imports Main "HOL-Library.Word" "HOL-Library.Sublist" "HOL-Library.Char_ord"
    "HOL-Library.List_Lexorder"
begin

text \<open>
  Shared vocabulary of the development: the machine integers, Rust's \<open>str\<close> as the list of its
  UTF-8 bytes, the string routines of the standard library the sources call (\<open>trim\<close>, \<open>find\<close>,
  \<open>starts_with\<close>, \<open>parse::<uN>\<close>, \<open>to_string\<close>), and the list updates behind
  \<open>iter_mut().find(..)\<close>. A \<open>string\<close> is always the byte sequence of a Rust \<open>str\<close>, so \<open>length\<close>
  is Rust's \<open>len()\<close> and a slice is \<open>take\<close>/\<open>drop\<close> at a byte offset.
\<close>

named_theorems frame \<open>what an operation leaves unchanged\<close>
named_theorems splits_intro \<open>introduction rules for executable predicates\<close>

section \<open>Machine integers\<close>

type_synonym u8 = "8 word"
type_synonym u32 = "32 word"
type_synonym u64 = "64 word"
type_synonym i32 = "32 word"

definition u64_checked_add :: "u64 \<Rightarrow> u64 \<Rightarrow> u64 option" where
  "u64_checked_add a b = (if unat a + unat b < 2 ^ 64 then Some (a + b) else None)"

definition u64_saturating_add :: "u64 \<Rightarrow> u64 \<Rightarrow> u64" where
  "u64_saturating_add a b = (if unat a + unat b < 2 ^ 64 then a + b else 18446744073709551615)"

definition u64_saturating_sub :: "u64 \<Rightarrow> u64 \<Rightarrow> u64" where
  "u64_saturating_sub a b = (if b \<le> a then a - b else 0)"

lemma u64_checked_add_Some:
  "u64_checked_add a b = Some c \<Longrightarrow> unat c = unat a + unat b"
  by (auto simp: u64_checked_add_def unat_word_ariths split: if_splits)

lemma unat_u64_saturating_sub: "unat (u64_saturating_sub a b) = unat a - unat b"
  by (auto simp: u64_saturating_sub_def unat_sub word_le_nat_alt)

section \<open>Lists\<close>

text \<open>\<open>iter_mut().find(p)\<close> followed by a write to the element found.\<close>

fun update_first :: "('a \<Rightarrow> bool) \<Rightarrow> ('a \<Rightarrow> 'a) \<Rightarrow> 'a list \<Rightarrow> 'a list" where
  "update_first p f [] = []"
| "update_first p f (x # xs) = (if p x then f x # xs else x # update_first p f xs)"

text \<open>\<open>iter().position(p)\<close> followed by \<open>remove(index)\<close>.\<close>

fun remove_first :: "('a \<Rightarrow> bool) \<Rightarrow> 'a list \<Rightarrow> ('a \<times> 'a list) option" where
  "remove_first p [] = None"
| "remove_first p (x # xs) =
     (if p x then Some (x, xs) else map_option (\<lambda>(y, ys). (y, x # ys)) (remove_first p xs))"

lemma length_update_first [simp]: "length (update_first p f xs) = length xs"
  by (induction xs) auto

lemma find_update_first_same:
  assumes "List.find p xs = Some x" and "p (f x)"
  shows "List.find p (update_first p f xs) = Some (f x)"
  using assms by (induction xs) (auto split: if_splits)

lemma find_update_first_other:
  assumes "\<And>y. p y \<Longrightarrow> \<not> q y" and "\<And>y. p y \<Longrightarrow> \<not> q (f y)"
  shows "List.find q (update_first p f xs) = List.find q xs"
  using assms by (induction xs) auto

lemma update_first_find_None: "List.find p xs = None \<Longrightarrow> update_first p f xs = xs"
  by (induction xs) (auto split: if_splits)

lemma update_first_same: "List.find p xs = Some x \<Longrightarrow> f x = x \<Longrightarrow> update_first p f xs = xs"
  by (induction xs) (auto split: if_splits)

lemma update_first_twice:
  "(\<And>x. p x \<Longrightarrow> p (f x)) \<Longrightarrow> update_first p g (update_first p f xs) = update_first p (\<lambda>x. g (f x)) xs"
  by (induction xs) auto

lemma map_update_first: "(\<And>x. p x \<Longrightarrow> g (f x) = g x) \<Longrightarrow> map g (update_first p f xs) = map g xs"
  by (induction xs) auto

lemma set_update_first:
  "y \<in> set (update_first p f xs) \<Longrightarrow> y \<in> set xs \<or> (\<exists>x. List.find p xs = Some x \<and> y = f x)"
  by (induction xs) (auto split: if_splits)

lemma find_SomeD: "List.find p xs = Some x \<Longrightarrow> x \<in> set xs \<and> p x"
  by (induction xs) (auto split: if_splits)

lemma find_append:
  "List.find p (xs @ ys) = (case List.find p xs of None \<Rightarrow> List.find p ys | Some x \<Rightarrow> Some x)"
  by (induction xs) auto

lemma find_append_None: "List.find p xs = None \<Longrightarrow> List.find p (xs @ ys) = List.find p ys"
  by (induction xs) (auto split: if_splits)

lemma find_append_Some: "List.find p xs = Some x \<Longrightarrow> List.find p (xs @ ys) = Some x"
  by (induction xs) (auto split: if_splits)

lemma remove_first_None: "remove_first p xs = None \<longleftrightarrow> (\<forall>x \<in> set xs. \<not> p x)"
  by (induction xs) (auto split: if_splits)

lemma remove_first_Some:
  "remove_first p xs = Some (y, ys) \<Longrightarrow>
     p y \<and> (\<exists>us vs. xs = us @ y # vs \<and> ys = us @ vs \<and> (\<forall>u \<in> set us. \<not> p u))"
proof (induction xs arbitrary: y ys)
  case Nil
  then show ?case by simp
next
  case (Cons x xs)
  show ?case
  proof (cases "p x")
    case True
    with Cons.prems have "y = x" "ys = xs" by auto
    with True show ?thesis by (intro conjI exI [of _ "[]"] exI [of _ xs]) auto
  next
    case False
    with Cons.prems obtain zs where z: "remove_first p xs = Some (y, zs)" and ys: "ys = x # zs"
      by (auto split: option.splits)
    from Cons.IH [OF z] obtain us vs where "p y" "xs = us @ y # vs" "zs = us @ vs"
        "\<forall>u \<in> set us. \<not> p u" by blast
    with False ys show ?thesis by (intro conjI exI [of _ "x # us"] exI [of _ vs]) auto
  qed
qed

lemma remove_first_length: "remove_first p xs = Some (y, ys) \<Longrightarrow> length xs = Suc (length ys)"
  by (induction xs arbitrary: ys) (auto split: if_splits option.splits)

text \<open>The first index of a range.\<close>

lemma find_upt_Some:
  assumes "List.find P [a..<b] = Some i"
  shows "a \<le> i" "i < b" "P i" "\<And>j. a \<le> j \<Longrightarrow> j < i \<Longrightarrow> \<not> P j"
proof -
  from assms obtain k where k: "k < b - a" "i = [a..<b] ! k" "P i" "\<forall>j<k. \<not> P ([a..<b] ! j)"
    by (auto simp: find_Some_iff)
  then have i: "i = a + k" by simp
  show "a \<le> i" "i < b" "P i" using i k by auto
  show "\<not> P j" if "a \<le> j" "j < i" for j
    using k(4)[rule_format, of "j - a"] that i k(1) by simp
qed

lemma find_upt_None: "List.find P [a..<b] = None \<longleftrightarrow> (\<forall>i. a \<le> i \<longrightarrow> i < b \<longrightarrow> \<not> P i)"
  by (auto simp: find_None_iff)

lemma find_upt_SomeI:
  assumes "a \<le> i" "i < b" "P i" "\<And>j. a \<le> j \<Longrightarrow> j < i \<Longrightarrow> \<not> P j"
  shows "List.find P [a..<b] = Some i"
proof (cases "List.find P [a..<b]")
  case None
  then show ?thesis using assms by (auto simp: find_upt_None)
next
  case (Some j)
  show ?thesis
    using find_upt_Some[OF Some] assms Some by (metis linorder_less_linear)
qed

end
