(* ===== verification/Rust_Str.thy ===== *)
theory Rust_Str
  imports Prelude
begin

text \<open>
  The routines of Rust's \<open>str\<close> the sources use, on UTF-8 byte lists: character boundaries,
  \<open>trim\<close> (Unicode \<open>White_Space\<close>), \<open>find\<close>, \<open>strip_prefix\<close>, \<open>rfind('\n')\<close>, decimal
  \<open>to_string\<close> and \<open>parse\<close> of unsigned integers. Whitespace is recognised by the UTF-8
  encodings of the code points with the property: U+0009-U+000D, U+0020, U+0085, U+00A0, U+1680,
  U+2000-U+200A, U+2028, U+2029, U+202F, U+205F, U+3000.
\<close>

abbreviation bval :: "char \<Rightarrow> nat" where "bval c \<equiv> of_char c"

section \<open>Character boundaries\<close>

definition is_cont_byte :: "char \<Rightarrow> bool" where
  "is_cont_byte c \<longleftrightarrow> 128 \<le> bval c \<and> bval c < 192"

definition is_char_boundary :: "string \<Rightarrow> nat \<Rightarrow> bool" where
  "is_char_boundary s i \<longleftrightarrow>
     i = 0 \<or> (if i < length s then \<not> is_cont_byte (s ! i) else i = length s)"

text \<open>\<open>while end > 0 && !s.is_char_boundary(end) { end -= 1 }\<close>\<close>

fun floor_boundary :: "string \<Rightarrow> nat \<Rightarrow> nat" where
  "floor_boundary s 0 = 0"
| "floor_boundary s (Suc i) =
     (if is_char_boundary s (Suc i) then Suc i else floor_boundary s i)"

lemma floor_boundary_le: "floor_boundary s i \<le> i"
  by (induction i) auto

lemma floor_boundary_is_boundary: "is_char_boundary s (floor_boundary s i)"
  by (induction i) (auto simp: is_char_boundary_def)

lemma floor_boundary_id: "is_char_boundary s i \<Longrightarrow> floor_boundary s i = i"
  by (cases i) auto

lemma floor_boundary_greatest:
  "j \<le> i \<Longrightarrow> is_char_boundary s j \<Longrightarrow> j \<le> floor_boundary s i"
  by (induction i) (auto simp: le_Suc_eq)

section \<open>Whitespace and trimming\<close>

definition ws1 :: "char \<Rightarrow> bool" where
  "ws1 c \<longleftrightarrow> (9 \<le> bval c \<and> bval c \<le> 13) \<or> bval c = 32"

definition ws2 :: "char \<Rightarrow> char \<Rightarrow> bool" where
  "ws2 a b \<longleftrightarrow> bval a = 0xC2 \<and> (bval b = 0x85 \<or> bval b = 0xA0)"

definition ws3 :: "char \<Rightarrow> char \<Rightarrow> char \<Rightarrow> bool" where
  "ws3 a b c \<longleftrightarrow>
     (bval a = 0xE1 \<and> bval b = 0x9A \<and> bval c = 0x80) \<or>
     (bval a = 0xE2 \<and> bval b = 0x80 \<and>
        ((0x80 \<le> bval c \<and> bval c \<le> 0x8A) \<or> bval c \<in> {0xA8, 0xA9, 0xAF})) \<or>
     (bval a = 0xE2 \<and> bval b = 0x81 \<and> bval c = 0x9F) \<or>
     (bval a = 0xE3 \<and> bval b = 0x80 \<and> bval c = 0x80)"

text \<open>Length in bytes of the whitespace character at the front (0: none), and at the back.\<close>

fun lead_ws :: "string \<Rightarrow> nat" where
  "lead_ws (a # b # c # s) = (if ws1 a then 1 else if ws2 a b then 2 else if ws3 a b c then 3 else 0)"
| "lead_ws [a, b] = (if ws1 a then 1 else if ws2 a b then 2 else 0)"
| "lead_ws [a] = (if ws1 a then 1 else 0)"
| "lead_ws [] = 0"

text \<open>The last whitespace character, on the reversed bytes.\<close>

fun rlead_ws :: "string \<Rightarrow> nat" where
  "rlead_ws (c # b # a # s) = (if ws1 c then 1 else if ws2 b c then 2 else if ws3 a b c then 3 else 0)"
| "rlead_ws [c, b] = (if ws1 c then 1 else if ws2 b c then 2 else 0)"
| "rlead_ws [c] = (if ws1 c then 1 else 0)"
| "rlead_ws [] = 0"

lemma lead_ws_le: "lead_ws s \<le> length s"
  by (induction s rule: lead_ws.induct) auto

lemma rlead_ws_le: "rlead_ws s \<le> length s"
  by (induction s rule: rlead_ws.induct) auto

function trim_start :: "string \<Rightarrow> string" where
  "trim_start s = (if lead_ws s = 0 then s else trim_start (drop (lead_ws s) s))"
  by pat_completeness auto
termination
proof (relation "measure length")
  show "wf (measure length)" by simp
next
  fix s :: string
  assume "lead_ws s \<noteq> 0"
  with lead_ws_le [of s] show "(drop (lead_ws s) s, s) \<in> measure length" by simp
qed

function rtrim_start :: "string \<Rightarrow> string" where
  "rtrim_start s = (if rlead_ws s = 0 then s else rtrim_start (drop (rlead_ws s) s))"
  by pat_completeness auto
termination
proof (relation "measure length")
  show "wf (measure length)" by simp
next
  fix s :: string
  assume "rlead_ws s \<noteq> 0"
  with rlead_ws_le [of s] show "(drop (rlead_ws s) s, s) \<in> measure length" by simp
qed

declare trim_start.simps [simp del] rtrim_start.simps [simp del]

definition trim_end :: "string \<Rightarrow> string" where
  "trim_end s = rev (rtrim_start (rev s))"

definition str_trim :: "string \<Rightarrow> string" where
  "str_trim s = trim_end (trim_start s)"

lemma lead_ws_trim_start [simp]: "lead_ws (trim_start s) = 0"
  by (induction s rule: trim_start.induct) (subst trim_start.simps, auto)

lemma rlead_ws_rtrim_start [simp]: "rlead_ws (rtrim_start s) = 0"
  by (induction s rule: rtrim_start.induct) (subst rtrim_start.simps, auto)

lemma trim_start_id: "lead_ws s = 0 \<Longrightarrow> trim_start s = s"
  by (subst trim_start.simps) simp

lemma rtrim_start_id: "rlead_ws s = 0 \<Longrightarrow> rtrim_start s = s"
  by (subst rtrim_start.simps) simp

lemma suffix_trim_start: "suffix (trim_start s) s"
proof (induction s rule: trim_start.induct)
  case (1 s)
  then show ?case
    by (subst trim_start.simps) (auto intro: suffix_order.trans suffix_drop)
qed

lemma suffix_rtrim_start: "suffix (rtrim_start s) s"
proof (induction s rule: rtrim_start.induct)
  case (1 s)
  then show ?case
    by (subst rtrim_start.simps) (auto intro: suffix_order.trans suffix_drop)
qed

lemma prefix_trim_end: "prefix (trim_end s) s"
  using suffix_rtrim_start [of "rev s"] by (simp add: trim_end_def suffix_to_prefix)

lemma lead_ws_prefix: "prefix t s \<Longrightarrow> lead_ws s = 0 \<Longrightarrow> lead_ws t = 0"
proof -
  assume "prefix t s" and s: "lead_ws s = 0"
  then obtain u where u: "s = t @ u" by (auto simp: prefix_def)
  show "lead_ws t = 0"
  proof (cases t rule: lead_ws.cases)
    case (2 a b)
    with s u show ?thesis by (cases u) (auto split: if_splits)
  next
    case (3 a)
    show ?thesis
    proof (cases u)
      case Nil
      with 3 s u show ?thesis by simp
    next
      case (Cons b u')
      with 3 s u show ?thesis by (cases u') (auto split: if_splits)
    qed
  qed (use s u in \<open>auto split: if_splits\<close>)
qed

lemma str_trim_idem [simp]: "str_trim (str_trim s) = str_trim s"
proof -
  have "lead_ws (str_trim s) = 0"
    unfolding str_trim_def using prefix_trim_end lead_ws_trim_start by (rule lead_ws_prefix)
  then have "trim_start (str_trim s) = str_trim s" by (rule trim_start_id)
  moreover have "trim_end (str_trim s) = str_trim s"
    by (simp add: str_trim_def trim_end_def rtrim_start_id)
  ultimately show ?thesis by (simp add: str_trim_def)
qed

lemma str_trim_Nil [simp]: "str_trim [] = []"
  by (simp add: str_trim_def trim_end_def trim_start_id rtrim_start_id)

text \<open>A string without whitespace bytes at its ends is left alone.\<close>

lemma str_trim_id: "lead_ws s = 0 \<Longrightarrow> rlead_ws (rev s) = 0 \<Longrightarrow> str_trim s = s"
  by (simp add: str_trim_def trim_end_def trim_start_id rtrim_start_id)

text \<open>\<open>split_whitespace\<close>, with the word read so far as an accumulator, and \<open>join\<close>.\<close>

function split_ws :: "string \<Rightarrow> string \<Rightarrow> string list" where
  "split_ws acc [] = (if acc = [] then [] else [acc])"
| "split_ws acc (c # s) =
     (if lead_ws (c # s) = 0 then split_ws (acc @ [c]) s
      else (if acc = [] then [] else [acc]) @ split_ws [] (drop (lead_ws (c # s)) (c # s)))"
  by pat_completeness auto
termination
proof (relation "measure (\<lambda>(acc, s). length s)")
  show "wf (measure (\<lambda>(acc, s). length s))" by simp
next
  fix acc c s
  show "((acc @ [c], s), acc, c # s) \<in> measure (\<lambda>(acc, s). length s)" by simp
next
  fix acc :: string and c s
  assume "lead_ws (c # s) \<noteq> 0"
  then show "(([], drop (lead_ws (c # s)) (c # s)), acc, c # s) \<in> measure (\<lambda>(acc, s). length s)"
    by simp
qed

definition split_whitespace :: "string \<Rightarrow> string list" where
  "split_whitespace s = split_ws [] s"

fun str_join :: "string \<Rightarrow> string list \<Rightarrow> string" where
  "str_join sep [] = []"
| "str_join sep [w] = w"
| "str_join sep (w # ws) = w @ sep @ str_join sep ws"

section \<open>Searching\<close>

text \<open>\<open>s.find(p)\<close>: the byte offset of the first occurrence.\<close>

fun str_find :: "string \<Rightarrow> string \<Rightarrow> nat option" where
  "str_find p [] = (if p = [] then Some 0 else None)"
| "str_find p (c # s) = (if prefix p (c # s) then Some 0 else map_option Suc (str_find p s))"

lemma str_find_SomeD:
  "str_find p s = Some i \<Longrightarrow>
     i + length p \<le> length s \<and> take (length p) (drop i s) = p"
proof (induction s arbitrary: i)
  case Nil
  then show ?case by (simp split: if_splits)
next
  case (Cons c s)
  show ?case
  proof (cases "prefix p (c # s)")
    case True
    with Cons.prems have "i = 0" by simp
    with True show ?thesis by (auto simp: prefix_def dest: arg_cong [of _ _ length])
  next
    case False
    with Cons.prems obtain j where "str_find p s = Some j" "i = Suc j" by auto
    with Cons.IH show ?thesis by simp
  qed
qed

lemma str_find_first:
  "str_find p s = Some i \<Longrightarrow> j < i \<Longrightarrow> \<not> prefix p (drop j s)"
proof (induction s arbitrary: i j)
  case Nil
  then show ?case by (simp split: if_splits)
next
  case (Cons c s)
  then show ?case by (cases j) (auto split: if_splits)
qed

lemma str_find_None_iff: "str_find p s = None \<longleftrightarrow> (\<forall>i \<le> length s. \<not> prefix p (drop i s))"
proof (induction s)
  case Nil
  then show ?case by auto
next
  case (Cons c s)
  show ?case
  proof
    assume "str_find p (c # s) = None"
    then have "\<not> prefix p (c # s)" "str_find p s = None" by (auto split: if_splits)
    with Cons.IH show "\<forall>i \<le> length (c # s). \<not> prefix p (drop i (c # s))"
      by (auto simp: le_Suc_eq less_Suc_eq_le drop_Cons split: nat.splits)
  next
    assume *: "\<forall>i \<le> length (c # s). \<not> prefix p (drop i (c # s))"
    from * [rule_format, of 0] have "\<not> prefix p (c # s)" by simp
    moreover have "\<forall>i \<le> length s. \<not> prefix p (drop i s)"
      using * [rule_format, of "Suc i" for i] by simp
    ultimately show "str_find p (c # s) = None" using Cons.IH by simp
  qed
qed

definition strip_prefix :: "string \<Rightarrow> string \<Rightarrow> string option" where
  "strip_prefix p s = (if prefix p s then Some (drop (length p) s) else None)"

lemma strip_prefix_Some: "strip_prefix p s = Some t \<longleftrightarrow> s = p @ t"
  by (auto simp: strip_prefix_def prefix_def)

text \<open>\<open>s.contains(c)\<close> for an ASCII character: membership of its byte.\<close>

abbreviation contains_byte :: "string \<Rightarrow> char \<Rightarrow> bool" where
  "contains_byte s c \<equiv> c \<in> set s"

section \<open>Unsigned integers in decimal\<close>

definition digit_char :: "nat \<Rightarrow> char" where
  "digit_char d = char_of (48 + d)"

definition is_digit :: "char \<Rightarrow> bool" where
  "is_digit c \<longleftrightarrow> 48 \<le> bval c \<and> bval c \<le> 57"

fun nat_str :: "nat \<Rightarrow> string" where
  "nat_str n = (if n < 10 then [digit_char n] else nat_str (n div 10) @ [digit_char (n mod 10)])"

declare nat_str.simps [simp del]

definition digits_val :: "string \<Rightarrow> nat" where
  "digits_val s = foldl (\<lambda>n c. 10 * n + (bval c - 48)) 0 s"

text \<open>
  \<open>parse::<uN>()\<close>: an optional single \<open>+\<close>, then one or more digits, and no overflow of the
  type. Everything else (the empty string, a sign alone, a minus sign, spaces) is an error.
\<close>

definition parse_uint :: "nat \<Rightarrow> string \<Rightarrow> nat option" where
  "parse_uint bits s =
     (let ds = (case s of c # r \<Rightarrow> if c = CHR ''+'' then r else s | [] \<Rightarrow> []) in
      if ds = [] \<or> \<not> list_all is_digit ds then None
      else if digits_val ds < 2 ^ bits then Some (digits_val ds) else None)"

lemma bval_digit_char: "d < 10 \<Longrightarrow> bval (digit_char d) = 48 + d"
  by (simp add: digit_char_def)

lemma nat_str_digits: "list_all is_digit (nat_str n)"
proof (induction n rule: nat_str.induct)
  case (1 n)
  then show ?case
    by (subst nat_str.simps) (auto simp: is_digit_def [of "digit_char _"] bval_digit_char)
qed

lemma nat_str_nonempty [simp]: "nat_str n \<noteq> []"
  by (subst nat_str.simps) simp

lemma digits_val_nat_str: "digits_val (nat_str n) = n"
proof (induction n rule: nat_str.induct)
  case (1 n)
  then show ?case
    by (subst nat_str.simps) (auto simp: digits_val_def bval_digit_char)
qed

lemma nat_str_inj: "nat_str m = nat_str n \<Longrightarrow> m = n"
  using digits_val_nat_str by metis

lemma parse_uint_nat_str: "n < 2 ^ bits \<Longrightarrow> parse_uint bits (nat_str n) = Some n"
proof -
  assume n: "n < 2 ^ bits"
  obtain c r where cr: "nat_str n = c # r" by (cases "nat_str n") auto
  have "is_digit c" using nat_str_digits [of n] cr by simp
  then have "c \<noteq> CHR ''+''" by (auto simp: is_digit_def)
  then show ?thesis
    using n nat_str_digits [of n] digits_val_nat_str [of n]
    by (simp add: parse_uint_def cr)
qed

lemma parse_uint_bound: "parse_uint bits s = Some n \<Longrightarrow> n < 2 ^ bits"
  by (auto simp: parse_uint_def Let_def split: if_splits)

lemma bval_less_ws1: "is_digit c \<Longrightarrow> \<not> ws1 c"
  by (auto simp: is_digit_def ws1_def)

lemma lead_ws_digits: "list_all is_digit s \<Longrightarrow> lead_ws s = 0"
  by (cases s rule: lead_ws.cases) (auto simp: is_digit_def ws1_def ws2_def ws3_def)

lemma rlead_ws_digits: "list_all is_digit s \<Longrightarrow> rlead_ws s = 0"
  by (cases s rule: rlead_ws.cases) (auto simp: is_digit_def ws1_def ws2_def ws3_def)

lemma str_trim_nat_str [simp]: "str_trim (nat_str n) = nat_str n"
  using nat_str_digits [of n]
  by (intro str_trim_id lead_ws_digits rlead_ws_digits) (auto simp: list_all_iff)

text \<open>Signed decimal, \<open>{code}\<close> of an \<open>i32\<close>.\<close>

definition int_str :: "int \<Rightarrow> string" where
  "int_str i = (if i < 0 then CHR ''-'' # nat_str (nat (- i)) else nat_str (nat i))"

section \<open>ASCII classes, lines and pieces\<close>

definition is_ascii_alphanumeric :: "char \<Rightarrow> bool" where
  "is_ascii_alphanumeric c \<longleftrightarrow>
     is_digit c \<or> (65 \<le> bval c \<and> bval c \<le> 90) \<or> (97 \<le> bval c \<and> bval c \<le> 122)"

definition to_ascii_lower :: "string \<Rightarrow> string" where
  "to_ascii_lower s = map (\<lambda>c. if 65 \<le> bval c \<and> bval c \<le> 90 then char_of (bval c + 32) else c) s"

definition str_contains :: "string \<Rightarrow> string \<Rightarrow> bool" where
  "str_contains s p \<longleftrightarrow> str_find p s \<noteq> None"

text \<open>The last occurrence of \<open>p\<close>: \<open>s.rfind(p)\<close>.\<close>

definition str_rfind :: "string \<Rightarrow> string \<Rightarrow> nat option" where
  "str_rfind p s = List.find (\<lambda>i. prefix p (drop i s)) (rev [0..<Suc (length s)])"

text \<open>\<open>s.split(p)\<close> for a nonempty \<open>p\<close>; \<open>acc\<close> is the current piece, reversed.\<close>

function split_on :: "string \<Rightarrow> string \<Rightarrow> string \<Rightarrow> string list" where
  "split_on p acc [] = [rev acc]"
| "split_on p acc (c # s) =
     (if prefix p (c # s) then rev acc # split_on p [] (drop (length p - 1) s)
      else split_on p (c # acc) s)"
  by pat_completeness auto
termination by (relation "measure (\<lambda>(p, acc, s). length s)") auto

definition str_split :: "string \<Rightarrow> string \<Rightarrow> string list" where
  "str_split p s = split_on p [] s"

text \<open>\<open>s.lines()\<close>: lines without their ending \<open>\n\<close> or \<open>\r\n\<close>; no empty last line.\<close>

definition strip_cr :: "string \<Rightarrow> string" where
  "strip_cr l = (if l \<noteq> [] \<and> last l = CHR 0x0D then butlast l else l)"

definition str_lines :: "string \<Rightarrow> string list" where
  "str_lines s =
     (let ps = str_split [CHR 0x0A] s;
          body = map strip_cr (butlast ps);
          rest = last ps
      in if rest = [] then body else body @ [rest])"

end
