(* ===== verification/Job_Ledger.thy ===== *)
theory Job_Ledger
  imports Rust_Str
begin

text \<open>
  The persistent job ledger of the mobile CLI runtime, \<open>cli/ledger.rs\<close>: job records, terminal
  intents, the operation cache behind \<open>operationId\<close> idempotence, restart reconciliation, the
  atomic save and the guarded state changes. JSON encoding (serde), UUIDs and the file system's
  answers are arguments; a JSON response is a value of the type parameter \<open>'v\<close>.
\<close>

section \<open>Data\<close>

datatype job_state = Queued | Starting | Running | Stopping | Completed | Failed | TimedOut
  | Cancelled | Interrupted | WaitingUser

datatype terminal_intent_target = TargetCancelled | TargetTimedOut | TargetFailed | TargetInterrupted

fun target_job_state :: "terminal_intent_target \<Rightarrow> job_state" where
  "target_job_state TargetCancelled = Cancelled"
| "target_job_state TargetTimedOut = TimedOut"
| "target_job_state TargetFailed = Failed"
| "target_job_state TargetInterrupted = Interrupted"

record terminal_intent_record =
  ti_target :: terminal_intent_target
  ti_operation_id :: string
  ti_requested_at_ms :: u64
  ti_reason :: string

datatype process_observation = ObsRunning | ObsExited "i32 option" | ObsMissing

record process_output_facts =
  pf_stdout_bytes :: u64
  pf_stderr_bytes :: u64
  pf_stdout_truncated :: bool
  pf_stderr_truncated :: bool

record mutation_operation_binding =
  mb_operation_id :: string
  mb_action_sha256 :: string

record job_record =
  job_id :: string
  attempt_id :: string
  job_generation :: u64
  job_session :: "string option"
  job_st :: job_state
  preview :: string
  description :: "string option"
  cwd :: string
  timeout_ms :: u64
  created_at_ms :: u64
  updated_at_ms :: u64
  deadline_at_ms :: u64
  stdout_path :: "string option"
  stderr_path :: "string option"
  river_projection_path :: "string option"
  stdout_bytes :: u64
  stderr_bytes :: u64
  stdout_truncated :: bool
  stderr_truncated :: bool
  artifact_sha256 :: "string option"
  artifact_size_bytes :: "u64 option"
  exit_code :: "i32 option"
  job_reason :: "string option"
  terminal_intent :: "terminal_intent_record option"
  mutation_operations :: "mutation_operation_binding list"

record runtime_paths_record =
  rp_rootfs :: string
  rp_workspace :: string
  rp_skills :: string
  rp_output :: string
  rp_projection_root :: string
  rp_proot_binary :: string

record 'v operation_record =
  op_operation_id :: string
  op_action_sha256 :: string
  op_response :: 'v
  op_created_at_ms :: u64

record 'v job_ledger =
  schema_version :: u32
  runtime_generation :: u64
  runtime_paths :: "runtime_paths_record option"
  jobs :: "job_record list"
  operations :: "'v operation_record list"

datatype 'v operation_lookup = OpMissing | OpReplay 'v | OpReplayJob string | OpConflict

definition MAX_LEDGER_BYTES :: nat where "MAX_LEDGER_BYTES = 40 * 1024 * 1024"
definition MAX_RETAINED_JOBS :: nat where "MAX_RETAINED_JOBS = 256"
definition MAX_RETAINED_OPERATIONS :: nat where "MAX_RETAINED_OPERATIONS = 32"
definition MAX_OPERATION_RESPONSE_BYTES :: nat where "MAX_OPERATION_RESPONSE_BYTES = 1024 * 1024"
definition MAX_COMMAND_PREVIEW_BYTES :: nat where "MAX_COMMAND_PREVIEW_BYTES = 160"
definition LEDGER_SCHEMA_VERSION :: u32 where "LEDGER_SCHEMA_VERSION = 4"

definition is_terminal_state :: "job_state \<Rightarrow> bool" where
  "is_terminal_state s \<longleftrightarrow>
     (case s of Completed \<Rightarrow> True | Failed \<Rightarrow> True | TimedOut \<Rightarrow> True | Cancelled \<Rightarrow> True
      | Interrupted \<Rightarrow> True | _ \<Rightarrow> False)"

definition is_terminal :: "job_record \<Rightarrow> bool" where
  "is_terminal j = is_terminal_state (job_st j)"

definition command_preview :: "string \<Rightarrow> string" where
  "command_preview command =
     (let normalized = str_join '' '' (split_whitespace command) in
      if length normalized \<le> MAX_COMMAND_PREVIEW_BYTES then normalized
      else
        let suffix_bytes = [CHR 0xE2, CHR 0x80, CHR 0xA6];
            limit = MAX_COMMAND_PREVIEW_BYTES - length suffix_bytes;
            end_pos = floor_boundary normalized (min limit (length normalized))
        in take end_pos normalized @ suffix_bytes)"

section \<open>Loading, reconciliation and recovery\<close>

definition ledger_empty :: "u64 \<Rightarrow> 'v job_ledger" where
  "ledger_empty gen = \<lparr>schema_version = LEDGER_SCHEMA_VERSION, runtime_generation = gen,
     runtime_paths = None, jobs = [], operations = []\<rparr>"

text \<open>What \<open>symlink_metadata\<close> and \<open>read\<close> answer for the ledger's path.\<close>

datatype ledger_file =
    FileNotFound
  | FileInspectError string
  | FileEntry (is_regular: bool) (file_len: nat) (read_result: "string + string")

definition interrupt_job :: "u64 \<Rightarrow> job_record \<Rightarrow> job_record" where
  "interrupt_job now j =
     (if is_terminal j then j
      else j\<lparr>job_st := Interrupted, updated_at_ms := now,
             job_reason := Some ''App restarted; the previous attempt was not rerun.'',
             terminal_intent := None\<rparr>)"

definition read_ledger_file :: "(string \<Rightarrow> string + 'v job_ledger) \<Rightarrow> ledger_file \<Rightarrow> string + 'v job_ledger" where
  "read_ledger_file from_slice file =
     (case file of
        FileEntry regular len content \<Rightarrow>
          if \<not> regular \<or> len > MAX_LEDGER_BYTES
          then Inl ''CLI ledger must be a bounded regular file''
          else (case content of
                  Inl e \<Rightarrow> Inl (''cannot read CLI ledger: '' @ e)
                | Inr bytes \<Rightarrow>
                    (case from_slice bytes of
                       Inl e \<Rightarrow> Inl (''invalid CLI ledger: '' @ e)
                     | Inr l \<Rightarrow> Inr l))
      | FileNotFound \<Rightarrow> Inr (ledger_empty 0)
      | FileInspectError e \<Rightarrow> Inl (''cannot inspect CLI ledger: '' @ e))"

definition load_and_reconcile ::
    "(string \<Rightarrow> string + 'v job_ledger) \<Rightarrow> ledger_file \<Rightarrow> u64 \<Rightarrow> string + 'v job_ledger" where
  "load_and_reconcile from_slice file now =
     (case read_ledger_file from_slice file of
        Inl e \<Rightarrow> Inl e
      | Inr l \<Rightarrow>
          if schema_version l \<notin> {1, 2, 3, LEDGER_SCHEMA_VERSION}
          then Inl ''unsupported CLI ledger schema''
          else (case u64_checked_add (runtime_generation l) 1 of
                  None \<Rightarrow> Inl ''CLI runtime generation overflow''
                | Some g \<Rightarrow>
                    Inr (l\<lparr>schema_version := LEDGER_SCHEMA_VERSION, runtime_generation := g,
                           jobs := map (interrupt_job now) (jobs l)\<rparr>)))"

section \<open>The operation cache\<close>

definition binding_of :: "string \<Rightarrow> job_record \<Rightarrow> mutation_operation_binding option" where
  "binding_of oid j = List.find (\<lambda>b. mb_operation_id b = oid) (mutation_operations j)"

fun find_binding :: "string \<Rightarrow> job_record list \<Rightarrow> (job_record \<times> mutation_operation_binding) option" where
  "find_binding oid [] = None"
| "find_binding oid (j # js) =
     (case binding_of oid j of Some b \<Rightarrow> Some (j, b) | None \<Rightarrow> find_binding oid js)"

definition operation :: "'v job_ledger \<Rightarrow> string \<Rightarrow> string \<Rightarrow> 'v operation_lookup" where
  "operation l oid sha =
     (case find_binding oid (jobs l) of
        Some (j, b) \<Rightarrow> if mb_action_sha256 b = sha then OpReplayJob (job_id j) else OpConflict
      | None \<Rightarrow>
          (case List.find (\<lambda>r. op_operation_id r = oid) (operations l) of
             Some r \<Rightarrow> if op_action_sha256 r = sha then OpReplay (op_response r) else OpConflict
           | None \<Rightarrow> OpMissing))"

text \<open>\<open>to_vec\<close> is serde's encoding of a response, or its error.\<close>

definition record_operation ::
    "('v \<Rightarrow> string + string) \<Rightarrow> 'v job_ledger \<Rightarrow> string \<Rightarrow> string \<Rightarrow> 'v \<Rightarrow> u64 \<Rightarrow>
     string + 'v job_ledger" where
  "record_operation to_vec l oid sha response now =
     (case to_vec response of
        Inl e \<Rightarrow> Inl (''cannot serialize operation response: '' @ e)
      | Inr encoded \<Rightarrow>
          if length encoded > MAX_OPERATION_RESPONSE_BYTES
          then Inl ''operation response exceeds idempotency cache limit''
          else
            let kept = (if length (operations l) \<ge> MAX_RETAINED_OPERATIONS
                        then tl (operations l) else operations l)
            in Inr (l\<lparr>operations := kept @ [\<lparr>op_operation_id = oid, op_action_sha256 = sha,
                       op_response = response, op_created_at_ms = now\<rparr>]\<rparr>))"

section \<open>Jobs\<close>

text \<open>The eviction loop of \<open>insert_job\<close>; \<open>Inl\<close> carries the jobs left when no terminal one remains.\<close>

function evict_loop :: "job_record list \<Rightarrow> job_record list \<Rightarrow>
    job_record list + (job_record list \<times> job_record list)" where
  "evict_loop js evicted =
     (if length js \<ge> MAX_RETAINED_JOBS then
        (case remove_first is_terminal js of
           None \<Rightarrow> Inl js
         | Some (j, js') \<Rightarrow> evict_loop js' (evicted @ [j]))
      else Inr (js, evicted))"
  by pat_completeness auto
termination
  by (relation "measure (\<lambda>(js, ev). length js)") (auto dest: remove_first_length)

declare evict_loop.simps [simp del]

text \<open>The ledger as \<open>insert_job\<close> leaves it, with its result.\<close>

definition insert_job :: "'v job_ledger \<Rightarrow> job_record \<Rightarrow> 'v job_ledger \<times> (string + job_record list)" where
  "insert_job l job =
     (case evict_loop (jobs l) [] of
        Inl js \<Rightarrow> (l\<lparr>jobs := js\<rparr>, Inl ''CLI job ledger is full of nonterminal attempts'')
      | Inr (js, evicted) \<Rightarrow> (l\<lparr>jobs := js @ [job]\<rparr>, Inr evicted))"

definition find_job :: "'v job_ledger \<Rightarrow> string \<Rightarrow> job_record option" where
  "find_job l jid = List.find (\<lambda>j. job_id j = jid) (jobs l)"

definition job_for_operation :: "'v job_ledger \<Rightarrow> string \<Rightarrow> job_record option" where
  "job_for_operation l oid =
     List.find (\<lambda>j. list_ex (\<lambda>b. mb_operation_id b = oid) (mutation_operations j)) (jobs l)"

text \<open>\<open>find_job_mut\<close> followed by a write: the first job with the id is replaced by \<open>f\<close> of it.\<close>

definition modify_job :: "string \<Rightarrow> (job_record \<Rightarrow> job_record) \<Rightarrow> 'v job_ledger \<Rightarrow> 'v job_ledger" where
  "modify_job jid f l = l\<lparr>jobs := update_first (\<lambda>j. job_id j = jid) f (jobs l)\<rparr>"

text \<open>The fence every guarded change starts with: same attempt, same generation, not terminal.\<close>

definition fenced :: "job_record \<Rightarrow> string \<Rightarrow> u64 \<Rightarrow> bool" where
  "fenced j att gen \<longleftrightarrow> attempt_id j = att \<and> job_generation j = gen \<and> \<not> is_terminal j"

definition claim_terminal ::
    "'v job_ledger \<Rightarrow> string \<Rightarrow> string \<Rightarrow> u64 \<Rightarrow> job_state \<Rightarrow> u64 \<Rightarrow> string \<Rightarrow>
     'v job_ledger \<times> job_record option" where
  "claim_terminal l jid att gen terminal now why =
     (if \<not> is_terminal_state terminal then (l, None)
      else (case find_job l jid of
              None \<Rightarrow> (l, None)
            | Some j \<Rightarrow>
                if \<not> fenced j att gen \<or> terminal_intent j \<noteq> None then (l, None)
                else
                  let upd = (\<lambda>j. j\<lparr>job_st := terminal, updated_at_ms := now,
                                   job_reason := Some why\<rparr>)
                  in (modify_job jid upd l, Some (upd j))))"

definition request_terminal_intent ::
    "'v job_ledger \<Rightarrow> string \<Rightarrow> string \<Rightarrow> u64 \<Rightarrow> terminal_intent_record \<Rightarrow> u64 \<Rightarrow>
     'v job_ledger \<times> terminal_intent_record option" where
  "request_terminal_intent l jid att gen requested now =
     (case find_job l jid of
        None \<Rightarrow> (l, None)
      | Some j \<Rightarrow>
          if \<not> fenced j att gen then (l, None)
          else (case terminal_intent j of
                  Some existing \<Rightarrow> (l, Some existing)
                | None \<Rightarrow>
                    (modify_job jid
                       (\<lambda>j. j\<lparr>terminal_intent := Some requested, updated_at_ms := now\<rparr>) l,
                     Some requested)))"

definition ledger_claim_terminal_intent ::
    "'v job_ledger \<Rightarrow> string \<Rightarrow> string \<Rightarrow> u64 \<Rightarrow> terminal_intent_record \<Rightarrow> u64 \<Rightarrow>
     'v job_ledger \<times> job_record option" where
  "ledger_claim_terminal_intent l jid att gen intent now =
     (case find_job l jid of
        None \<Rightarrow> (l, None)
      | Some j \<Rightarrow>
          if \<not> fenced j att gen \<or> terminal_intent j \<noteq> Some intent then (l, None)
          else
            let upd = (\<lambda>j. j\<lparr>job_st := target_job_state (ti_target intent),
                             updated_at_ms := now, job_reason := Some (ti_reason intent)\<rparr>)
            in (modify_job jid upd l, Some (upd j)))"

text \<open>The body of \<open>apply_process_observation\<close> once the fence has passed.\<close>

definition observe_output :: "process_observation \<Rightarrow> process_output_facts \<Rightarrow> job_record \<Rightarrow> job_record" where
  "observe_output obs out j =
     (if obs = ObsMissing then j
      else j\<lparr>stdout_bytes := max (stdout_bytes j) (pf_stdout_bytes out),
             stderr_bytes := max (stderr_bytes j) (pf_stderr_bytes out),
             stdout_truncated := (stdout_truncated j \<or> pf_stdout_truncated out),
             stderr_truncated := (stderr_truncated j \<or> pf_stderr_truncated out)\<rparr>)"

definition observe_state :: "process_observation \<Rightarrow> job_record \<Rightarrow> job_record" where
  "observe_state obs j =
     (case terminal_intent j of
        Some intent \<Rightarrow>
          (case obs of
             ObsRunning \<Rightarrow> j\<lparr>job_st := Stopping\<rparr>
           | ObsExited code \<Rightarrow>
               j\<lparr>exit_code := code, job_st := target_job_state (ti_target intent),
                 job_reason := Some (ti_reason intent)\<rparr>
           | ObsMissing \<Rightarrow> j)
      | None \<Rightarrow>
          (case obs of
             ObsRunning \<Rightarrow> j\<lparr>job_st := Running\<rparr>
           | ObsExited code \<Rightarrow>
               j\<lparr>exit_code := code,
                 job_st := (if code = Some 0 then Completed else Failed),
                 job_reason := (case code of
                    None \<Rightarrow> None
                  | Some c \<Rightarrow> if c \<noteq> 0
                      then Some (''Bash exited with status '' @ int_str (sint c) @ ''.'')
                      else None)\<rparr>
           | ObsMissing \<Rightarrow>
               j\<lparr>job_st := Interrupted,
                 job_reason := Some ''ProcessHost lost this attempt; it was not rerun.''\<rparr>))"

definition apply_process_observation ::
    "'v job_ledger \<Rightarrow> string \<Rightarrow> string \<Rightarrow> u64 \<Rightarrow> process_observation \<Rightarrow> process_output_facts \<Rightarrow>
     u64 \<Rightarrow> 'v job_ledger \<times> bool" where
  "apply_process_observation l jid att gen obs out now =
     (case find_job l jid of
        None \<Rightarrow> (l, False)
      | Some j \<Rightarrow>
          if \<not> fenced j att gen then (l, False)
          else (modify_job jid
                  (\<lambda>j. observe_state obs ((observe_output obs out j)\<lparr>updated_at_ms := now\<rparr>)) l,
                True))"

end
