(* ===== verification/Ledger_Store.thy ===== *)
theory Ledger_Store
  imports Job_Ledger
begin

text \<open>
  The durable side of the ledger: \<open>save_atomic\<close> (write a temporary file, sync it, rename it over
  the ledger, sync the directory) and \<open>load_with_scoped_recovery\<close>. The file system is a map
  from paths to documents; a file holds the whole encoding of a document or the torn remains of an
  interrupted write. Every answer of the operating system is part of the argument \<open>save_io\<close>. The
  contract the runtime relies on is the locale \<open>atomic_store\<close>, interpreted on \<open>save_atomic\<close>.
\<close>

datatype 'd content = Whole 'd | Torn

type_synonym 'd fs = "string \<Rightarrow> 'd content option"

record save_io =
  io_uuid :: string
  io_create_dir :: "string option"
  io_stat_parent :: "string + bool"
  io_create :: "string option"
  io_write :: "string option"
  io_sync_file :: "string option"
  io_rename :: "string option"
  io_sync_task :: "string option"
  io_sync_dir :: "string option"
  io_remove_ok :: bool

definition temporary_path :: "string \<Rightarrow> string \<Rightarrow> string" where
  "temporary_path parent uuid = parent @ ''/.job-ledger-'' @ uuid @ ''.tmp''"

text \<open>The inner \<open>async\<close> block, with the file system after each failure point.\<close>

definition write_and_rename ::
    "save_io \<Rightarrow> 'd fs \<Rightarrow> string \<Rightarrow> string \<Rightarrow> 'd \<Rightarrow> 'd fs \<times> (string + unit)" where
  "write_and_rename io fs tmp path doc =
     (case io_create io of
        Some e \<Rightarrow> (fs, Inl (''cannot create CLI ledger temporary file: '' @ e))
      | None \<Rightarrow>
        (case io_write io of
           Some e \<Rightarrow> (fs(tmp \<mapsto> Torn), Inl (''cannot write CLI ledger: '' @ e))
         | None \<Rightarrow>
           (case io_sync_file io of
              Some e \<Rightarrow> (fs(tmp \<mapsto> Whole doc), Inl (''cannot sync CLI ledger: '' @ e))
            | None \<Rightarrow>
              (case io_rename io of
                 Some e \<Rightarrow> (fs(tmp \<mapsto> Whole doc), Inl (''cannot atomically replace CLI ledger: '' @ e))
               | None \<Rightarrow>
                 let fs' = (fs(tmp := None))(path \<mapsto> Whole doc) in
                 (case io_sync_task io of
                    Some e \<Rightarrow> (fs', Inl (''CLI ledger directory sync task failed: '' @ e))
                  | None \<Rightarrow>
                    (case io_sync_dir io of
                       Some e \<Rightarrow> (fs', Inl (''cannot sync CLI ledger directory: '' @ e))
                     | None \<Rightarrow> (fs', Inr ())))))))"

text \<open>\<open>to_vec\<close> gives the length of the encoding; \<open>parent\<close> is \<open>path.parent()\<close>.\<close>

definition save_atomic ::
    "('d \<Rightarrow> string + nat) \<Rightarrow> string option \<Rightarrow> string \<Rightarrow> save_io \<Rightarrow> 'd \<Rightarrow> 'd fs \<Rightarrow>
     'd fs \<times> (string + unit)" where
  "save_atomic to_vec parent path io doc fs =
     (case parent of
        None \<Rightarrow> (fs, Inl ''CLI ledger path has no parent'')
      | Some dir \<Rightarrow>
        (case io_create_dir io of
           Some e \<Rightarrow> (fs, Inl (''cannot create CLI ledger directory: '' @ e))
         | None \<Rightarrow>
           (case io_stat_parent io of
              Inl e \<Rightarrow> (fs, Inl (''cannot inspect CLI ledger directory: '' @ e))
            | Inr is_dir \<Rightarrow>
              if \<not> is_dir then (fs, Inl ''CLI ledger parent must be a real directory'')
              else
                (case to_vec doc of
                   Inl e \<Rightarrow> (fs, Inl (''cannot serialize CLI ledger: '' @ e))
                 | Inr len \<Rightarrow>
                   if len > MAX_LEDGER_BYTES
                   then (fs, Inl ''CLI ledger exceeds its hard size limit'')
                   else
                     let tmp = temporary_path dir (io_uuid io);
                         (fs', r) = write_and_rename io fs tmp path doc
                     in (case r of
                           Inl e \<Rightarrow> (if io_remove_ok io then fs'(tmp := None) else fs', Inl e)
                         | Inr u \<Rightarrow> (fs', Inr u))))))"

section \<open>Recovery\<close>

record recovery_io =
  rio_metadata :: "string + (bool \<times> nat)"
  rio_uuid :: string
  rio_rename :: "string option"
  rio_save :: save_io

definition backup_path :: "string \<Rightarrow> string \<Rightarrow> string" where
  "backup_path parent uuid = parent @ ''/job-ledger.corrupt-'' @ uuid @ ''.json''"

definition load_with_scoped_recovery ::
    "(string \<Rightarrow> string + 'v job_ledger) \<Rightarrow> ('v job_ledger \<Rightarrow> string + nat) \<Rightarrow> string option \<Rightarrow>
     string \<Rightarrow> ledger_file \<Rightarrow> recovery_io \<Rightarrow> u64 \<Rightarrow> 'v job_ledger fs \<Rightarrow>
     'v job_ledger fs \<times> (string + ('v job_ledger \<times> string option))" where
  "load_with_scoped_recovery from_slice to_vec parent path file rio now fs =
     (case load_and_reconcile from_slice file now of
        Inr l \<Rightarrow> (fs, Inr (l, None))
      | Inl original \<Rightarrow>
        (case rio_metadata rio of
           Inl e \<Rightarrow> (fs, Inl (original @ ''; cannot inspect recovery target: '' @ e))
         | Inr (regular, len) \<Rightarrow>
           if \<not> regular \<or> len > MAX_LEDGER_BYTES then (fs, Inl original)
           else
             (case parent of
                None \<Rightarrow> (fs, Inl (original @ ''; ledger has no recovery parent''))
              | Some dir \<Rightarrow>
                (case rio_rename rio of
                   Some e \<Rightarrow> (fs, Inl (original @ ''; cannot quarantine ledger: '' @ e))
                 | None \<Rightarrow>
                   let backup = backup_path dir (rio_uuid rio);
                       fs1 = (fs(path := None))(backup := fs path);
                       l = ledger_empty (max now 1)
                   in (case save_atomic to_vec parent path (rio_save rio) l fs1 of
                         (fs2, Inl e) \<Rightarrow> (fs2, Inl e)
                       | (fs2, Inr u) \<Rightarrow>
                           (fs2, Inr (l, Some (''Recovered a corrupt CLI ledger; quarantined as job-ledger.corrupt-''
                                                @ rio_uuid rio @ ''.json''))))))))"

section \<open>What the runtime relies on\<close>

locale atomic_store =
  fixes put :: "'io \<Rightarrow> 'd \<Rightarrow> 's \<Rightarrow> 's \<times> (string + unit)"
    and current :: "'s \<Rightarrow> 'd content option"
    and ok_io :: "'io \<Rightarrow> bool"
  assumes put_done: "ok_io io \<Longrightarrow> put io d s = (s', Inr u) \<Longrightarrow> current s' = Some (Whole d)"
    and put_failed: "ok_io io \<Longrightarrow> put io d s = (s', Inl e) \<Longrightarrow>
      current s' = current s \<or> current s' = Some (Whole d)"
begin

text \<open>
  A relation between what is in memory and what is on disk survives the two ways the runtime
  saves: replacing (memory changes only when the save succeeded) and persisting (memory has
  already changed).
\<close>

definition covered :: "('d \<Rightarrow> 'd \<Rightarrow> bool) \<Rightarrow> 'd \<Rightarrow> 's \<Rightarrow> bool" where
  "covered W m s \<longleftrightarrow> (\<exists>d. current s = Some (Whole d) \<and> W m d)"

lemma covered_put_done:
  "ok_io io \<Longrightarrow> W d d \<Longrightarrow> put io d s = (s', Inr u) \<Longrightarrow> covered W d s'"
  by (auto simp: covered_def dest: put_done)

lemma covered_put_failed:
  assumes "ok_io io" "covered W m s" "W m d" "put io d s = (s', Inl e)"
  shows "covered W m s'"
  using put_failed [OF assms(1,4)] assms(2,3) by (auto simp: covered_def)

lemma covered_put_any:
  assumes "ok_io io" "covered W d s" "W d d" "put io d s = (s', r)"
  shows "covered W d s'"
proof (cases r)
  case (Inl e)
  with assms covered_put_failed show ?thesis by blast
next
  case (Inr u)
  with assms covered_put_done show ?thesis by blast
qed

lemma put_outcome:
  assumes "ok_io io" "put io d s = (s', r)"
  shows "current s' = current s \<or> current s' = Some (Whole d)"
proof (cases r)
  case (Inl e)
  with assms put_failed [OF assms(1)] show ?thesis by simp
next
  case (Inr u)
  with assms put_done [OF assms(1)] show ?thesis by simp
qed

lemma never_torn:
  assumes "ok_io io" "put io d s = (s', r)" "current s \<noteq> Some Torn"
  shows "current s' \<noteq> Some Torn"
  using put_outcome [OF assms(1,2)] assms(3) by auto

end

text \<open>The temporary name differs from the ledger's, as the source's name format makes it.\<close>

definition fresh_temp :: "string \<Rightarrow> string \<Rightarrow> save_io \<Rightarrow> bool" where
  "fresh_temp dir path io \<longleftrightarrow> temporary_path dir (io_uuid io) \<noteq> path"

lemma write_and_rename_cases:
  assumes "write_and_rename io fs tmp path doc = (fs', r)" "tmp \<noteq> path"
  shows "(r = Inr () \<and> fs' path = Some (Whole doc) \<and> fs' tmp = None) \<or>
         ((\<exists>e. r = Inl e) \<and> (fs' path = fs path \<or> fs' path = Some (Whole doc)))"
  using assms by (auto simp: write_and_rename_def Let_def split: option.splits)

lemma write_and_rename_frame:
  assumes "write_and_rename io fs tmp path doc = (fs', r)" "p \<noteq> tmp" "p \<noteq> path"
  shows "fs' p = fs p"
  using assms by (auto simp: write_and_rename_def Let_def split: option.splits)

text \<open>A save either gives up before touching the file system or runs the write-and-rename block.\<close>

definition save_stage :: "('d \<Rightarrow> string + nat) \<Rightarrow> save_io \<Rightarrow> 'd \<Rightarrow> string option" where
  "save_stage to_vec io doc =
     (case io_create_dir io of
        Some e \<Rightarrow> Some (''cannot create CLI ledger directory: '' @ e)
      | None \<Rightarrow>
        (case io_stat_parent io of
           Inl e \<Rightarrow> Some (''cannot inspect CLI ledger directory: '' @ e)
         | Inr is_dir \<Rightarrow>
           if \<not> is_dir then Some ''CLI ledger parent must be a real directory''
           else (case to_vec doc of
                   Inl e \<Rightarrow> Some (''cannot serialize CLI ledger: '' @ e)
                 | Inr len \<Rightarrow> if len > MAX_LEDGER_BYTES
                     then Some ''CLI ledger exceeds its hard size limit'' else None)))"

lemma save_atomic_unfold:
  "save_atomic to_vec (Some dir) path io doc fs =
     (case save_stage to_vec io doc of
        Some e \<Rightarrow> (fs, Inl e)
      | None \<Rightarrow>
          (case write_and_rename io fs (temporary_path dir (io_uuid io)) path doc of
             (fs', Inl e) \<Rightarrow>
               (if io_remove_ok io then fs'(temporary_path dir (io_uuid io) := None) else fs', Inl e)
           | (fs', Inr u) \<Rightarrow> (fs', Inr u)))"
proof (cases "io_create_dir io")
  case None
  show ?thesis
  proof (cases "io_stat_parent io")
    case (Inl e)
    with None show ?thesis by (simp add: save_atomic_def save_stage_def)
  next
    case (Inr d)
    with None show ?thesis
      by (cases "to_vec doc")
        (simp_all add: save_atomic_def save_stage_def Let_def split: prod.split sum.split)
  qed
qed (simp add: save_atomic_def save_stage_def)

lemma save_atomic_cases:
  assumes "save_atomic to_vec (Some dir) path io doc fs = (fs', r)"
  obtains (early) e where "r = Inl e" "fs' = fs"
  | (failed) e fs1 where "r = Inl e"
      "write_and_rename io fs (temporary_path dir (io_uuid io)) path doc = (fs1, Inl e)"
      "fs' = (if io_remove_ok io then fs1(temporary_path dir (io_uuid io) := None) else fs1)"
  | (written) "r = Inr ()"
      "write_and_rename io fs (temporary_path dir (io_uuid io)) path doc = (fs', Inr ())"
proof (cases "save_stage to_vec io doc")
  case (Some e)
  with assms show ?thesis by (intro early [of e]) (simp_all add: save_atomic_unfold)
next
  case None
  obtain fs1 q where w: "write_and_rename io fs (temporary_path dir (io_uuid io)) path doc = (fs1, q)"
    by (cases "write_and_rename io fs (temporary_path dir (io_uuid io)) path doc")
  show ?thesis
  proof (cases q)
    case (Inl e)
    with None w assms show ?thesis by (intro failed [of e fs1]) (simp_all add: save_atomic_unfold)
  next
    case (Inr u)
    with None w assms show ?thesis by (intro written) (simp_all add: save_atomic_unfold)
  qed
qed

lemma save_atomic_done:
  assumes "save_atomic to_vec (Some dir) path io doc fs = (fs', Inr u)" "fresh_temp dir path io"
  shows "fs' path = Some (Whole doc) \<and> fs' (temporary_path dir (io_uuid io)) = None"
  using assms(1)
proof (cases rule: save_atomic_cases)
  case written
  with assms(2) show ?thesis by (auto simp: fresh_temp_def dest: write_and_rename_cases)
qed auto

lemma save_atomic_failed:
  assumes "save_atomic to_vec (Some dir) path io doc fs = (fs', Inl e)" "fresh_temp dir path io"
  shows "fs' path = fs path \<or> fs' path = Some (Whole doc)"
  using assms(1)
proof (cases rule: save_atomic_cases)
  case (failed e fs1)
  with assms(2) write_and_rename_cases [of io fs _ path doc fs1 "Inl e"]
  show ?thesis by (auto simp: fresh_temp_def)
qed auto

lemma save_atomic_frame:
  assumes "save_atomic to_vec (Some dir) path io doc fs = (fs', r)"
    and "p \<noteq> path" "p \<noteq> temporary_path dir (io_uuid io)"
  shows "fs' p = fs p"
  using assms(1)
proof (cases rule: save_atomic_cases)
  case (failed e fs1)
  with assms(2,3) write_and_rename_frame [of io fs _ path doc fs1 "Inl e" p] show ?thesis by auto
next
  case written
  with assms(2,3) write_and_rename_frame [of io fs _ path doc fs' "Inr ()" p] show ?thesis by auto
qed auto

interpretation ledger_file_store: atomic_store
    "\<lambda>io d s. save_atomic to_vec (Some dir) path io d s"
    "\<lambda>s. s path"
    "fresh_temp dir path"
  for to_vec dir path
proof unfold_locales
  show "s' path = Some (Whole d)"
    if "fresh_temp dir path io" "save_atomic to_vec (Some dir) path io d s = (s', Inr u)"
    for io d s s' u
    using save_atomic_done [OF that(2,1)] by simp
  show "s' path = s path \<or> s' path = Some (Whole d)"
    if "fresh_temp dir path io" "save_atomic to_vec (Some dir) path io d s = (s', Inl e)"
    for io d s s' e
    using save_atomic_failed [OF that(2,1)] .
qed

text \<open>
  C38. Saving is atomic: whatever the operating system answers, afterwards the ledger's path holds
  either exactly what it held before or the complete new document, never a torn one; it holds the
  new document whenever the save reported success; no other file than the temporary one changes;
  and the temporary file is gone after a success.
\<close>

theorem save_atomic_atomic:
  assumes "save_atomic to_vec (Some dir) path io doc fs = (fs', r)" and "fresh_temp dir path io"
  shows "(fs' path = fs path \<or> fs' path = Some (Whole doc)) \<and>
    (r = Inr () \<longrightarrow> fs' path = Some (Whole doc) \<and> fs' (temporary_path dir (io_uuid io)) = None) \<and>
    (\<forall>p. p \<noteq> path \<and> p \<noteq> temporary_path dir (io_uuid io) \<longrightarrow> fs' p = fs p)"
proof (intro conjI)
  show "fs' path = fs path \<or> fs' path = Some (Whole doc)"
    by (rule ledger_file_store.put_outcome [OF assms(2,1)])
  show "r = Inr () \<longrightarrow> fs' path = Some (Whole doc) \<and> fs' (temporary_path dir (io_uuid io)) = None"
    using save_atomic_done [OF _ assms(2), of to_vec doc fs fs'] assms(1) by auto
  show "\<forall>p. p \<noteq> path \<and> p \<noteq> temporary_path dir (io_uuid io) \<longrightarrow> fs' p = fs p"
    using save_atomic_frame [OF assms(1)] by simp
qed

definition quiet_io :: "string \<Rightarrow> save_io" where
  "quiet_io uuid = \<lparr>io_uuid = uuid, io_create_dir = None, io_stat_parent = Inr True,
     io_create = None, io_write = None, io_sync_file = None, io_rename = None,
     io_sync_task = None, io_sync_dir = None, io_remove_ok = True\<rparr>"

lemma save_atomic_atomic_witness:
  "fst (save_atomic (\<lambda>d. Inr 5) (Some ''/d'') ''/d/l'' ((quiet_io ''u'')\<lparr>io_write := Some ''full''\<rparr>)
         (2::nat) (Map.empty(''/d/l'' \<mapsto> Whole 1))) ''/d/l'' = Some (Whole 1)"
proof -
  let ?io = "(quiet_io ''u'')\<lparr>io_write := Some ''full''\<rparr>"
  let ?fs = "Map.empty(''/d/l'' \<mapsto> Whole (1::nat))"
  let ?r = "save_atomic (\<lambda>d. Inr 5) (Some ''/d'') ''/d/l'' ?io 2 ?fs"
  have f: "fresh_temp ''/d'' ''/d/l'' ?io" by code_simp
  have d: "fst ?r ''/d/l'' \<noteq> Some (Whole 2)"
    by (simp add: save_atomic_unfold save_stage_def write_and_rename_def quiet_io_def
        MAX_LEDGER_BYTES_def temporary_path_def)
  from save_atomic_atomic [of "\<lambda>d. Inr 5" "''/d''" "''/d/l''" ?io 2 ?fs "fst ?r" "snd ?r", OF _ f] d
  show ?thesis by simp
qed

lemma backup_path_neq_temporary [simp]: "backup_path dir u \<noteq> temporary_path dir v"
  by (simp add: backup_path_def temporary_path_def)

text \<open>
  Scoped recovery never loses evidence: when an unreadable ledger is replaced, the caller gets
  the empty ledger of a fresh generation, that same ledger is durable at the ledger's path, and the
  bytes that could not be read are all still there under the quarantine name.
\<close>

theorem recovery_quarantines:
  assumes "load_with_scoped_recovery from_slice to_vec (Some dir) path file rio now fs =
      (fs', Inr (l, Some msg))"
    and "fresh_temp dir path (rio_save rio)" and "backup_path dir (rio_uuid rio) \<noteq> path"
  shows "l = ledger_empty (max now 1) \<and> fs' path = Some (Whole l) \<and>
    fs' (backup_path dir (rio_uuid rio)) = fs path \<and>
    (\<exists>e. load_and_reconcile from_slice file now = Inl e)"
proof -
  let ?b = "backup_path dir (rio_uuid rio)"
  let ?l = "ledger_empty (max now 1)"
  let ?fs1 = "(fs(path := None))(?b := fs path)"
  obtain e where e: "load_and_reconcile from_slice file now = Inl e"
    using assms(1) by (auto simp: load_with_scoped_recovery_def split: sum.splits)
  obtain reg len where m: "rio_metadata rio = Inr (reg, len)" "reg" "\<not> len > MAX_LEDGER_BYTES"
    using assms(1) e by (auto simp: load_with_scoped_recovery_def split: sum.splits if_splits)
  have rn: "rio_rename rio = None"
    using assms(1) e m by (simp add: load_with_scoped_recovery_def split: option.splits)
  obtain fs2 r where sv: "save_atomic to_vec (Some dir) path (rio_save rio) ?l ?fs1 = (fs2, r)"
    by (cases "save_atomic to_vec (Some dir) path (rio_save rio) ?l ?fs1")
  have fin: "r = Inr ()" "l = ?l" "fs' = fs2"
    using assms(1) e m rn sv
    by (simp_all add: load_with_scoped_recovery_def Let_def split: sum.splits)
  have "fs2 path = Some (Whole ?l)"
    using save_atomic_done [of to_vec dir path "rio_save rio" ?l ?fs1 fs2 "()"] sv fin(1) assms(2)
    by simp
  moreover have "fs2 ?b = ?fs1 ?b"
    by (rule save_atomic_frame [OF sv assms(3) backup_path_neq_temporary])
  ultimately show ?thesis using e fin by simp
qed

lemma recovery_quarantines_witness:
  "\<exists>fs' l msg. load_with_scoped_recovery (\<lambda>_. Inl ''eof'') (\<lambda>d. Inr 9) (Some ''/d'') ''/d/l''
       (FileEntry True 3 (Inr ''{x}''))
       \<lparr>rio_metadata = Inr (True, 3), rio_uuid = ''q'', rio_rename = None, rio_save = quiet_io ''u''\<rparr> 7
       (Map.empty(''/d/l'' \<mapsto> Torn)) = (fs', Inr (l :: nat job_ledger, Some msg)) \<and>
     fs' (backup_path ''/d'' ''q'') = Some Torn"
proof -
  let ?rio = "\<lparr>rio_metadata = Inr (True, 3), rio_uuid = ''q'', rio_rename = None,
    rio_save = quiet_io ''u''\<rparr>"
  let ?fs = "Map.empty(''/d/l'' \<mapsto> Torn) :: nat job_ledger fs"
  let ?r = "load_with_scoped_recovery (\<lambda>_. Inl ''eof'') (\<lambda>d. Inr 9) (Some ''/d'') ''/d/l''
       (FileEntry True 3 (Inr ''{x}'')) ?rio 7 ?fs"
  have "\<exists>l msg. snd ?r = Inr (l, Some msg)"
    by (simp add: load_with_scoped_recovery_def load_and_reconcile_def read_ledger_file_def
        save_atomic_unfold save_stage_def write_and_rename_def quiet_io_def Let_def
        MAX_LEDGER_BYTES_def)
  then obtain fs' l msg where r: "?r = (fs', Inr (l, Some msg))"
    by (metis prod.collapse)
  have f: "fresh_temp ''/d'' ''/d/l'' (rio_save ?rio)" by code_simp
  have b: "backup_path ''/d'' (rio_uuid ?rio) \<noteq> ''/d/l''" by code_simp
  have "fs' (backup_path ''/d'' ''q'') = Some Torn"
    using recovery_quarantines [OF r f b] by simp
  with r show ?thesis by blast
qed

end
