(* ===== verification/Ledger_Laws.thy ===== *)
theory Ledger_Laws
  imports Ledger_Store
begin

text \<open>
  Laws of the ledger's operations: how each of them may change one job (\<open>job_evolves\<close>) and the
  list of jobs (\<open>ledger_evolves\<close>), the eviction rule of \<open>insert_job\<close>, the operation cache, restart
  reconciliation, and the facts collected from process observations.
\<close>

section \<open>How a job may change\<close>

text \<open>A terminal job keeps everything but the bookkeeping around it.\<close>

definition outcome :: "job_record \<Rightarrow> job_record" where
  "outcome j = j\<lparr>river_projection_path := None, artifact_sha256 := None,
     artifact_size_bytes := None, mutation_operations := []\<rparr>"

definition frozen :: "job_record \<Rightarrow> job_record \<Rightarrow> bool" where
  "frozen j j' \<longleftrightarrow> outcome j' = outcome j"

definition settled :: "job_record \<Rightarrow> bool" where
  "settled j \<longleftrightarrow>
     (case terminal_intent j of None \<Rightarrow> True | Some i \<Rightarrow> job_st j = target_job_state (ti_target i))"

definition job_evolves :: "job_record \<Rightarrow> job_record \<Rightarrow> bool" where
  "job_evolves j j' \<longleftrightarrow>
     job_id j' = job_id j \<and> attempt_id j' = attempt_id j \<and> job_generation j' = job_generation j \<and>
     job_session j' = job_session j \<and> deadline_at_ms j' = deadline_at_ms j \<and>
     (is_terminal j \<longrightarrow> frozen j j') \<and>
     (terminal_intent j \<noteq> None \<longrightarrow> terminal_intent j' = terminal_intent j) \<and>
     (\<not> is_terminal j \<and> is_terminal j' \<longrightarrow> settled j')"

lemma frozen_refl [simp]: "frozen j j"
  by (simp add: frozen_def)

lemma outcome_fields:
  "job_st (outcome j) = job_st j" "terminal_intent (outcome j) = terminal_intent j"
  "exit_code (outcome j) = exit_code j" "job_reason (outcome j) = job_reason j"
  "stdout_bytes (outcome j) = stdout_bytes j" "stderr_bytes (outcome j) = stderr_bytes j"
  by (simp_all add: outcome_def)

lemma frozen_same:
  assumes "frozen j j'"
  shows "job_st j' = job_st j" "terminal_intent j' = terminal_intent j" "exit_code j' = exit_code j"
    "job_reason j' = job_reason j" "stdout_bytes j' = stdout_bytes j" "stderr_bytes j' = stderr_bytes j"
  using assms unfolding frozen_def by (metis outcome_fields)+

lemma frozen_terminal: "frozen j j' \<Longrightarrow> is_terminal j' = is_terminal j"
  by (simp add: is_terminal_def frozen_same)

lemma frozen_settled: "frozen j j' \<Longrightarrow> settled j' = settled j"
  by (cases "terminal_intent j") (simp_all add: settled_def frozen_same)

lemma frozen_trans: "frozen j j' \<Longrightarrow> frozen j' j'' \<Longrightarrow> frozen j j''"
  by (simp add: frozen_def)

lemma job_evolves_refl [simp]: "job_evolves j j"
  by (simp add: job_evolves_def)

lemma job_evolves_trans: "job_evolves j j' \<Longrightarrow> job_evolves j' j'' \<Longrightarrow> job_evolves j j''"
  unfolding job_evolves_def by (metis frozen_trans frozen_same(2) frozen_terminal frozen_settled)

lemma job_evolves_terminal: "job_evolves j j' \<Longrightarrow> is_terminal j \<Longrightarrow> is_terminal j'"
  unfolding job_evolves_def using frozen_terminal by blast

text \<open>A change of a nonterminal job that keeps its identity and its intent.\<close>

lemma job_evolvesI:
  assumes "\<not> is_terminal j" "job_id j' = job_id j" "attempt_id j' = attempt_id j"
    "job_generation j' = job_generation j" "job_session j' = job_session j"
    "deadline_at_ms j' = deadline_at_ms j"
    "terminal_intent j \<noteq> None \<Longrightarrow> terminal_intent j' = terminal_intent j"
    "is_terminal j' \<Longrightarrow> settled j'"
  shows "job_evolves j j'"
  using assms by (simp add: job_evolves_def)

section \<open>How the list of jobs may change\<close>

text \<open>
  Every job of the new list continues a job of the old one or has an id outside \<open>used\<close>, the ids
  handed out so far.
\<close>

definition ledger_evolves :: "string set \<Rightarrow> 'v job_ledger \<Rightarrow> 'v job_ledger \<Rightarrow> bool" where
  "ledger_evolves used l l' \<longleftrightarrow>
     runtime_generation l' = runtime_generation l \<and>
     (\<forall>j' \<in> set (jobs l'). (\<exists>j \<in> set (jobs l). job_evolves j j') \<or> job_id j' \<notin> used)"

lemma ledger_evolves_refl [simp]: "ledger_evolves used l l"
  unfolding ledger_evolves_def using job_evolves_refl by blast

lemma ledger_evolves_trans:
  assumes "ledger_evolves used l l'" "ledger_evolves used' l' l''" "used \<subseteq> used'"
  shows "ledger_evolves used l l''"
  unfolding ledger_evolves_def
proof (intro conjI ballI)
  show "runtime_generation l'' = runtime_generation l"
    using assms(1,2) by (simp add: ledger_evolves_def)
  fix j'' assume "j'' \<in> set (jobs l'')"
  with assms(2) consider j' where "j' \<in> set (jobs l')" "job_evolves j' j''" | "job_id j'' \<notin> used'"
    unfolding ledger_evolves_def by blast
  then show "(\<exists>j \<in> set (jobs l). job_evolves j j'') \<or> job_id j'' \<notin> used"
  proof cases
    case 1
    with assms(1) consider j where "j \<in> set (jobs l)" "job_evolves j j'" | "job_id j' \<notin> used"
      unfolding ledger_evolves_def by blast
    then show ?thesis
    proof cases
      case 1
      with \<open>job_evolves j' j''\<close> show ?thesis using job_evolves_trans by blast
    next
      case 2
      with \<open>job_evolves j' j''\<close> show ?thesis by (simp add: job_evolves_def)
    qed
  next
    case 2
    with assms(3) show ?thesis by blast
  qed
qed

lemma jobs_modify_job: "jobs (modify_job jid f l) = update_first (\<lambda>j. job_id j = jid) f (jobs l)"
  by (simp add: modify_job_def)

lemma modify_job_fields [simp]:
  "schema_version (modify_job jid f l) = schema_version l"
  "runtime_generation (modify_job jid f l) = runtime_generation l"
  "runtime_paths (modify_job jid f l) = runtime_paths l"
  "operations (modify_job jid f l) = operations l"
  "length (jobs (modify_job jid f l)) = length (jobs l)"
  by (simp_all add: modify_job_def)

lemma find_job_modify_same:
  "find_job l jid = Some j \<Longrightarrow> job_id (f j) = jid \<Longrightarrow> find_job (modify_job jid f l) jid = Some (f j)"
  unfolding find_job_def jobs_modify_job by (rule find_update_first_same)

lemma find_job_modify_other:
  assumes "jid' \<noteq> jid" "\<And>j. job_id j = jid \<Longrightarrow> job_id (f j) = jid"
  shows "find_job (modify_job jid f l) jid' = find_job l jid'"
  unfolding find_job_def jobs_modify_job using assms by (intro find_update_first_other) auto

lemma find_job_SomeD: "find_job l jid = Some j \<Longrightarrow> j \<in> set (jobs l) \<and> job_id j = jid"
  unfolding find_job_def by (rule find_SomeD)

lemma modify_job_id:
  "find_job l jid = Some j \<Longrightarrow> f j = j \<Longrightarrow> modify_job jid f l = l"
  by (simp add: modify_job_def find_job_def update_first_same)

lemma modify_job_evolves:
  assumes "\<And>j. find_job l jid = Some j \<Longrightarrow> job_evolves j (f j)"
  shows "ledger_evolves used l (modify_job jid f l)"
  unfolding ledger_evolves_def
proof (intro conjI ballI)
  fix j' assume "j' \<in> set (jobs (modify_job jid f l))"
  then consider "j' \<in> set (jobs l)" | j where "find_job l jid = Some j" "j' = f j"
    unfolding jobs_modify_job find_job_def using set_update_first by fast
  then show "(\<exists>j \<in> set (jobs l). job_evolves j j') \<or> job_id j' \<notin> used"
  proof cases
    case 1
    then show ?thesis using job_evolves_refl by blast
  next
    case 2
    with assms find_job_SomeD show ?thesis by blast
  qed
qed simp

text \<open>The number of nonterminal jobs, and of those of one session.\<close>

definition active_count :: "(job_record \<Rightarrow> bool) \<Rightarrow> 'v job_ledger \<Rightarrow> nat" where
  "active_count q l = length (filter (\<lambda>j. \<not> is_terminal j \<and> q j) (jobs l))"

lemma active_count_modify:
  assumes "\<And>j. find_job l jid = Some j \<Longrightarrow> job_evolves j (f j)" "\<And>j. q (f j) = q j"
  shows "active_count q (modify_job jid f l) \<le> active_count q l"
proof -
  have "length (filter (\<lambda>j. \<not> is_terminal j \<and> q j) (update_first p f js)) \<le>
      length (filter (\<lambda>j. \<not> is_terminal j \<and> q j) js)"
    if "\<And>j. List.find p js = Some j \<Longrightarrow> is_terminal j \<Longrightarrow> is_terminal (f j)" for p js
    using that
  proof (induction js)
    case (Cons j js)
    then show ?case using assms(2) by (cases "p j") auto
  qed simp
  then show ?thesis
    unfolding active_count_def jobs_modify_job
    using assms(1) job_evolves_terminal unfolding find_job_def by blast
qed

section \<open>The guarded changes follow these rules\<close>

lemma fenced_not_terminal: "fenced j att gen \<Longrightarrow> \<not> is_terminal j"
  by (simp add: fenced_def)

lemma terminal_simps [simp]:
  "is_terminal_state Completed" "is_terminal_state Failed" "is_terminal_state TimedOut"
  "is_terminal_state Cancelled" "is_terminal_state Interrupted" "\<not> is_terminal_state Queued"
  "\<not> is_terminal_state Starting" "\<not> is_terminal_state Running" "\<not> is_terminal_state Stopping"
  "\<not> is_terminal_state WaitingUser" "is_terminal_state (target_job_state t)"
  by (cases t; simp add: is_terminal_state_def)+

text \<open>What a guarded change returns: the ledger untouched, or one fenced job changed by \<open>f\<close>.\<close>

lemma request_terminal_intent_cases:
  obtains "request_terminal_intent l jid att gen req now = (l, None)"
  | j i where "find_job l jid = Some j" "fenced j att gen" "terminal_intent j = Some i"
      "request_terminal_intent l jid att gen req now = (l, Some i)"
  | j where "find_job l jid = Some j" "fenced j att gen" "terminal_intent j = None"
      "request_terminal_intent l jid att gen req now =
        (modify_job jid (\<lambda>j. j\<lparr>terminal_intent := Some req, updated_at_ms := now\<rparr>) l, Some req)"
proof (cases "find_job l jid")
  case None
  then show ?thesis using that(1) by (simp add: request_terminal_intent_def)
next
  case (Some j)
  show ?thesis
  proof (cases "fenced j att gen")
    case False
    with Some that(1) show ?thesis by (simp add: request_terminal_intent_def)
  next
    case True
    with Some that(2,3) show ?thesis
      by (cases "terminal_intent j") (simp_all add: request_terminal_intent_def)
  qed
qed

lemma ledger_claim_terminal_intent_cases:
  obtains "ledger_claim_terminal_intent l jid att gen intent now = (l, None)"
  | j where "find_job l jid = Some j" "fenced j att gen" "terminal_intent j = Some intent"
      "ledger_claim_terminal_intent l jid att gen intent now =
        (modify_job jid (\<lambda>j. j\<lparr>job_st := target_job_state (ti_target intent),
            updated_at_ms := now, job_reason := Some (ti_reason intent)\<rparr>) l,
         Some (j\<lparr>job_st := target_job_state (ti_target intent),
            updated_at_ms := now, job_reason := Some (ti_reason intent)\<rparr>))"
proof (cases "find_job l jid")
  case None
  then show ?thesis using that(1) by (simp add: ledger_claim_terminal_intent_def)
next
  case (Some j)
  show ?thesis
  proof (cases "fenced j att gen \<and> terminal_intent j = Some intent")
    case False
    with Some that(1) show ?thesis by (auto simp: ledger_claim_terminal_intent_def)
  next
    case True
    with Some that(2) show ?thesis by (simp add: ledger_claim_terminal_intent_def Let_def)
  qed
qed

lemma apply_process_observation_cases:
  obtains "apply_process_observation l jid att gen obs out now = (l, False)"
  | j where "find_job l jid = Some j" "fenced j att gen"
      "apply_process_observation l jid att gen obs out now =
        (modify_job jid (\<lambda>j. observe_state obs ((observe_output obs out j)\<lparr>updated_at_ms := now\<rparr>)) l,
         True)"
proof (cases "find_job l jid")
  case None
  then show ?thesis using that(1) by (simp add: apply_process_observation_def)
next
  case (Some j)
  then show ?thesis using that by (cases "fenced j att gen") (simp_all add: apply_process_observation_def)
qed

lemma observe_output_fields [simp]:
  "job_id (observe_output obs out j) = job_id j" "attempt_id (observe_output obs out j) = attempt_id j"
  "job_generation (observe_output obs out j) = job_generation j"
  "job_session (observe_output obs out j) = job_session j" "job_st (observe_output obs out j) = job_st j"
  "deadline_at_ms (observe_output obs out j) = deadline_at_ms j"
  "terminal_intent (observe_output obs out j) = terminal_intent j"
  by (simp_all add: observe_output_def)

lemma observe_state_fields [simp]:
  "job_id (observe_state obs j) = job_id j" "attempt_id (observe_state obs j) = attempt_id j"
  "job_generation (observe_state obs j) = job_generation j"
  "job_session (observe_state obs j) = job_session j"
  "deadline_at_ms (observe_state obs j) = deadline_at_ms j"
  "terminal_intent (observe_state obs j) = terminal_intent j"
  "stdout_bytes (observe_state obs j) = stdout_bytes j" "stderr_bytes (observe_state obs j) = stderr_bytes j"
  "stdout_truncated (observe_state obs j) = stdout_truncated j"
  "stderr_truncated (observe_state obs j) = stderr_truncated j"
  by (simp_all add: observe_state_def split: option.split process_observation.split)

lemma observe_state_settled: "is_terminal (observe_state obs j) \<Longrightarrow> \<not> is_terminal j \<Longrightarrow> settled (observe_state obs j)"
  by (cases obs; cases "terminal_intent j") (auto simp: observe_state_def is_terminal_def settled_def)

lemma observe_evolves:
  "\<not> is_terminal j \<Longrightarrow>
   job_evolves j (observe_state obs ((observe_output obs out j)\<lparr>updated_at_ms := now\<rparr>))"
  by (rule job_evolvesI) (auto intro!: observe_state_settled simp: is_terminal_def)

lemma claim_evolves:
  "\<not> is_terminal j \<Longrightarrow> terminal_intent j = Some intent \<Longrightarrow>
   job_evolves j (j\<lparr>job_st := target_job_state (ti_target intent), updated_at_ms := now,
     job_reason := r, exit_code := c\<rparr>)"
  by (rule job_evolvesI) (auto simp: settled_def)

lemma request_terminal_intent_evolves:
  "ledger_evolves used l (fst (request_terminal_intent l jid att gen req now))"
  by (rule request_terminal_intent_cases [of l jid att gen req now])
    (auto intro!: modify_job_evolves job_evolvesI dest: fenced_not_terminal simp: is_terminal_def)

lemma ledger_claim_terminal_intent_evolves:
  "ledger_evolves used l (fst (ledger_claim_terminal_intent l jid att gen intent now))"
  by (rule ledger_claim_terminal_intent_cases [of l jid att gen intent now])
    (auto intro!: modify_job_evolves job_evolvesI dest: fenced_not_terminal simp: settled_def)

lemma apply_process_observation_evolves:
  "ledger_evolves used l (fst (apply_process_observation l jid att gen obs out now))"
  by (rule apply_process_observation_cases [of l jid att gen obs out now])
    (auto intro!: modify_job_evolves observe_evolves dest: fenced_not_terminal)

section \<open>Eviction\<close>

lemma remove_first_filter:
  "remove_first p xs = Some (y, ys) \<Longrightarrow>
     filter p xs = y # filter p ys \<and> filter (\<lambda>x. \<not> p x) ys = filter (\<lambda>x. \<not> p x) xs"
  by (frule remove_first_Some) auto

lemma evict_loop_spec:
  "case evict_loop js ev of
     Inl js' \<Rightarrow> length (filter is_terminal js) < length js - 255 \<and> js' = filter (\<lambda>j. \<not> is_terminal j) js
   | Inr (js', ev') \<Rightarrow> length js' \<le> 255 \<and> length js - 255 \<le> length (filter is_terminal js) \<and>
       ev' = ev @ take (length js - 255) (filter is_terminal js) \<and>
       filter is_terminal js' = drop (length js - 255) (filter is_terminal js) \<and>
       filter (\<lambda>j. \<not> is_terminal j) js' = filter (\<lambda>j. \<not> is_terminal j) js"
proof (induction js ev rule: evict_loop.induct)
  case (1 js ev)
  show ?case
  proof (cases "length js \<ge> MAX_RETAINED_JOBS")
    case False
    then show ?thesis by (subst evict_loop.simps) (simp add: MAX_RETAINED_JOBS_def)
  next
    case True
    show ?thesis
    proof (cases "remove_first is_terminal js")
      case None
      then have "\<forall>j \<in> set js. \<not> is_terminal j" by (simp add: remove_first_None)
      with None True show ?thesis
        by (subst evict_loop.simps) (auto simp: MAX_RETAINED_JOBS_def filter_id_conv filter_empty_conv)
    next
      case (Some p)
      obtain j js' where p: "p = (j, js')" by (cases p)
      have len: "length js - 255 = Suc (length js' - 255)"
        using True remove_first_length [OF Some [unfolded p]] by (simp add: MAX_RETAINED_JOBS_def)
      have eq: "evict_loop js ev = evict_loop js' (ev @ [j])"
        by (subst evict_loop.simps) (simp add: True Some p)
      from 1 [OF True Some p [symmetric]] remove_first_filter [OF Some [unfolded p]] show ?thesis
        unfolding eq len by (auto split: sum.splits)
    qed
  qed
qed

lemma evict_loop_subseq:
  "case evict_loop js ev of Inl js' \<Rightarrow> subseq js' js | Inr (js', ev') \<Rightarrow> subseq js' js"
proof (induction js ev rule: evict_loop.induct)
  case (1 js ev)
  show ?case
  proof (cases "length js \<ge> MAX_RETAINED_JOBS \<and> remove_first is_terminal js \<noteq> None")
    case False
    then show ?thesis
      by (cases "remove_first is_terminal js") (subst evict_loop.simps, simp)+
  next
    case True
    then obtain j js' where r: "remove_first is_terminal js = Some (j, js')" by auto
    then obtain us vs where "js = us @ j # vs" "js' = us @ vs" by (auto dest!: remove_first_Some)
    then have "subseq js' js" by (simp add: list_emb_append_mono list_emb_Cons)
    with 1 [of "(j, js')" j js'] True r show ?thesis
      by (subst evict_loop.simps) (auto split: sum.splits intro: subseq_order.trans)
  qed
qed

lemma subseq_set: "subseq xs ys \<Longrightarrow> set xs \<subseteq> set ys"
  by (induction rule: list_emb.induct) auto

lemma insert_job_spec:
  "case insert_job l job of
     (l', Inr evicted) \<Rightarrow>
       length (jobs l') \<le> MAX_RETAINED_JOBS \<and> (\<exists>kept. jobs l' = kept @ [job] \<and>
         filter is_terminal kept = drop (length (jobs l) - 255) (filter is_terminal (jobs l)) \<and>
         filter (\<lambda>j. \<not> is_terminal j) kept = filter (\<lambda>j. \<not> is_terminal j) (jobs l)) \<and>
       evicted = take (length (jobs l) - 255) (filter is_terminal (jobs l)) \<and>
       length (jobs l) - 255 \<le> length (filter is_terminal (jobs l))
   | (l', Inl e) \<Rightarrow>
       length (filter is_terminal (jobs l)) < length (jobs l) - 255 \<and>
       jobs l' = filter (\<lambda>j. \<not> is_terminal j) (jobs l)"
proof (cases "evict_loop (jobs l) []")
  case (Inl js)
  with evict_loop_spec [of "jobs l" "[]"] show ?thesis by (simp add: insert_job_def)
next
  case (Inr p)
  obtain js ev where p: "p = (js, ev)" by (cases p)
  from Inr p evict_loop_spec [of "jobs l" "[]"] show ?thesis
    by (simp add: insert_job_def MAX_RETAINED_JOBS_def)
qed

text \<open>
  Inserting a job keeps the ledger bounded without ever forgetting live work: on success at
  most 256 jobs are kept, the new one is last, exactly the oldest terminal jobs needed to make room
  are evicted, and every nonterminal job survives in order; insertion fails exactly when there are
  not enough terminal jobs to evict, and then, too, every nonterminal job is still there.
\<close>

theorem insert_job_eviction:
  "case insert_job l job of
     (l', Inr evicted) \<Rightarrow>
       length (jobs l') \<le> MAX_RETAINED_JOBS \<and> (\<exists>kept. jobs l' = kept @ [job] \<and>
         filter is_terminal kept = drop (length (jobs l) - 255) (filter is_terminal (jobs l)) \<and>
         filter (\<lambda>j. \<not> is_terminal j) kept = filter (\<lambda>j. \<not> is_terminal j) (jobs l)) \<and>
       evicted = take (length (jobs l) - 255) (filter is_terminal (jobs l)) \<and>
       length (jobs l) - 255 \<le> length (filter is_terminal (jobs l))
   | (l', Inl e) \<Rightarrow>
       length (filter is_terminal (jobs l)) < length (jobs l) - 255 \<and>
       jobs l' = filter (\<lambda>j. \<not> is_terminal j) (jobs l)"
  by (rule insert_job_spec)

lemma insert_job_jobs:
  "case insert_job l job of
     (l', Inl e) \<Rightarrow> subseq (jobs l') (jobs l)
   | (l', Inr ev) \<Rightarrow> (\<exists>kept. jobs l' = kept @ [job] \<and> subseq kept (jobs l))"
  using evict_loop_subseq [of "jobs l" "[]"]
  by (auto simp: insert_job_def split: sum.splits)

lemma insert_job_set: "set (jobs (fst (insert_job l job))) \<subseteq> insert job (set (jobs l))"
  using insert_job_jobs [of l job] subseq_set by (fastforce split: prod.splits sum.splits)

lemma insert_job_evolves:
  assumes "job_id job \<notin> used"
  shows "ledger_evolves used l (fst (insert_job l job))"
  unfolding ledger_evolves_def
proof (intro conjI ballI)
  show "runtime_generation (fst (insert_job l job)) = runtime_generation l"
    by (simp add: insert_job_def split: sum.split prod.split)
  fix j' assume "j' \<in> set (jobs (fst (insert_job l job)))"
  then have "j' = job \<or> j' \<in> set (jobs l)" using insert_job_set by blast
  with assms show "(\<exists>j \<in> set (jobs l). job_evolves j j') \<or> job_id j' \<notin> used"
    using job_evolves_refl by blast
qed

section \<open>The operation cache\<close>

lemma operation_cong:
  "jobs l' = jobs l \<Longrightarrow>
   List.find (\<lambda>r. op_operation_id r = oid) (operations l') =
     List.find (\<lambda>r. op_operation_id r = oid) (operations l) \<Longrightarrow> operation l' oid sha = operation l oid sha"
  by (cases "find_binding oid (jobs l)") (simp_all add: operation_def)

lemma operation_Missing:
  "operation l oid sha = OpMissing \<longleftrightarrow>
     find_binding oid (jobs l) = None \<and> List.find (\<lambda>r. op_operation_id r = oid) (operations l) = None"
  by (auto simp: operation_def split: option.splits prod.splits if_splits)

text \<open>
  The operation cache makes an operation id idempotent: once the response of a new id is
  recorded, the same id with the same action digest replays exactly that response and with any
  other digest is a conflict; the cache never grows past 32 entries once it is within them; and
  the answer for every other id is unchanged, except for the single oldest entry that may be
  dropped to make room.
\<close>

theorem record_operation_replay:
  assumes "record_operation to_vec l oid sha response now = Inr l'"
    and "operation l oid sha = OpMissing"
  shows "operation l' oid sha = OpReplay response \<and>
    (\<forall>sha'. sha' \<noteq> sha \<longrightarrow> operation l' oid sha' = OpConflict) \<and>
    length (operations l') \<le> max MAX_RETAINED_OPERATIONS (length (operations l)) \<and> jobs l' = jobs l \<and>
    (\<forall>oid' sha'. oid' \<noteq> oid \<and> \<not> (length (operations l) \<ge> MAX_RETAINED_OPERATIONS \<and>
       op_operation_id (hd (operations l)) = oid') \<longrightarrow> operation l' oid' sha' = operation l oid' sha')"
proof -
  define kept where "kept = (if length (operations l) \<ge> MAX_RETAINED_OPERATIONS
    then tl (operations l) else operations l)"
  define r where "r = \<lparr>op_operation_id = oid, op_action_sha256 = sha, op_response = response,
    op_created_at_ms = now\<rparr>"
  have l': "l' = l\<lparr>operations := kept @ [r]\<rparr>"
    using assms(1) unfolding record_operation_def kept_def r_def
    by (auto simp: Let_def split: sum.splits if_splits)
  have none: "find_binding oid (jobs l) = None" "List.find (\<lambda>r. op_operation_id r = oid) (operations l) = None"
    using assms(2) operation_Missing [of l oid sha] by auto
  have k: "List.find (\<lambda>r. op_operation_id r = oid) kept = None"
    using none(2) by (cases "operations l") (auto simp: kept_def split: if_splits)
  have f: "List.find (\<lambda>r. op_operation_id r = oid) (operations l') = Some r"
    using k by (simp add: l' find_append_None r_def)
  have other: "operation l' oid' sha' = operation l oid' sha'"
    if "oid' \<noteq> oid" and "\<not> (length (operations l) \<ge> MAX_RETAINED_OPERATIONS \<and>
       op_operation_id (hd (operations l)) = oid')" for oid' sha'
  proof (rule operation_cong)
    let ?p = "\<lambda>r. op_operation_id r = oid'"
    have "List.find ?p kept = List.find ?p (operations l)"
      using that(2) by (cases "operations l") (auto simp: kept_def)
    then show "List.find ?p (operations l') = List.find ?p (operations l)"
      using that(1) by (simp add: l' find_append r_def split: option.split)
  qed (simp add: l')
  have "length (operations l') \<le> max MAX_RETAINED_OPERATIONS (length (operations l))"
    by (auto simp: l' kept_def MAX_RETAINED_OPERATIONS_def)
  moreover have "operation l' oid sha = OpReplay response"
    and "\<forall>sha'. sha' \<noteq> sha \<longrightarrow> operation l' oid sha' = OpConflict"
    using f none(1) by (simp_all add: operation_def l') (simp_all add: r_def)
  ultimately show ?thesis using other by (simp add: l')
qed

lemma record_operation_replay_witness:
  "\<exists>l'. record_operation (\<lambda>v. Inr v) (ledger_empty 1) ''op-1'' ''aa'' ''ok'' 5 = Inr l' \<and>
     operation l' ''op-1'' ''aa'' = OpReplay ''ok'' \<and> operation l' ''op-1'' ''bb'' = OpConflict"
proof -
  let ?r = "record_operation (\<lambda>v. Inr v) (ledger_empty 1) ''op-1'' ''aa'' ''ok'' 5"
  have "\<exists>l'. ?r = Inr l'"
    by (simp add: record_operation_def MAX_OPERATION_RESPONSE_BYTES_def Let_def)
  then obtain l' where r: "?r = Inr l'" by blast
  have m: "operation (ledger_empty 1) ''op-1'' ''aa'' = OpMissing"
    by (simp add: operation_def ledger_empty_def)
  from record_operation_replay [OF r m] have "operation l' ''op-1'' ''aa'' = OpReplay ''ok''"
    and "operation l' ''op-1'' ''bb'' = OpConflict" by simp_all
  with r show ?thesis by blast
qed

section \<open>Restart\<close>

text \<open>
  Restart reconciliation: a ledger that loads has the current schema, the next generation and
  the same jobs and cached operations in order; every one of its jobs is terminal, those that
  already were are untouched, and every other one became Interrupted with its pending intent
  dropped. So nothing a previous process left unfinished is ever run again or still claimed.
\<close>

theorem load_and_reconcile_spec:
  assumes "load_and_reconcile from_slice file now = Inr l'"
  shows "\<exists>l. read_ledger_file from_slice file = Inr l \<and>
    schema_version l' = LEDGER_SCHEMA_VERSION \<and>
    unat (runtime_generation l') = unat (runtime_generation l) + 1 \<and> operations l' = operations l \<and>
    list_all2 (\<lambda>j j'. is_terminal j' \<and> job_id j' = job_id j \<and> mutation_operations j' = mutation_operations j \<and>
       (if is_terminal j then j' = j else job_st j' = Interrupted \<and> terminal_intent j' = None))
      (jobs l) (jobs l')"
proof -
  obtain l where l: "read_ledger_file from_slice file = Inr l"
    using assms by (auto simp: load_and_reconcile_def split: sum.splits)
  obtain g where g: "u64_checked_add (runtime_generation l) 1 = Some g"
    and l': "l' = l\<lparr>schema_version := LEDGER_SCHEMA_VERSION, runtime_generation := g,
       jobs := map (interrupt_job now) (jobs l)\<rparr>"
    using assms l by (auto simp: load_and_reconcile_def split: if_splits option.splits)
  show ?thesis
    using l u64_checked_add_Some [OF g]
    by (intro exI [of _ l] conjI)
      (simp_all add: l' list_all2_map2 list_all2_same interrupt_job_def is_terminal_def)
qed

definition sample_job :: "string \<Rightarrow> job_state \<Rightarrow> job_record" where
  "sample_job jid st = \<lparr>job_id = jid, attempt_id = ''a-'' @ jid, job_generation = 1, job_session = None,
     job_st = st, preview = ''ls'', description = None, cwd = ''/workspace'', timeout_ms = 1000,
     created_at_ms = 1, updated_at_ms = 1, deadline_at_ms = 1001, stdout_path = None,
     stderr_path = None, river_projection_path = None, stdout_bytes = 0, stderr_bytes = 0,
     stdout_truncated = False, stderr_truncated = False, artifact_sha256 = None,
     artifact_size_bytes = None, exit_code = None, job_reason = None, terminal_intent = None,
     mutation_operations = []\<rparr>"

lemma load_and_reconcile_spec_witness:
  "\<exists>l'. load_and_reconcile (\<lambda>_. Inr ((ledger_empty 1)\<lparr>jobs := [sample_job ''a'' Running, sample_job ''b'' Failed]\<rparr>))
       (FileEntry True 3 (Inr ''{x}'')) 9 = Inr (l' :: nat job_ledger) \<and>
     map job_st (jobs l') = [Interrupted, Failed] \<and> unat (runtime_generation l') = 2"
proof -
  let ?l = "(ledger_empty 1)\<lparr>jobs := [sample_job ''a'' Running, sample_job ''b'' Failed]\<rparr> :: nat job_ledger"
  let ?r = "load_and_reconcile (\<lambda>_. Inr ?l) (FileEntry True 3 (Inr ''{x}'')) 9"
  have rd: "read_ledger_file (\<lambda>_. Inr ?l) (FileEntry True 3 (Inr ''{x}'')) = Inr ?l"
    by (simp add: read_ledger_file_def MAX_LEDGER_BYTES_def)
  have "\<exists>l'. ?r = Inr l'"
    unfolding load_and_reconcile_def rd by (simp add: ledger_empty_def u64_checked_add_def)
  then obtain l' where r: "?r = Inr l'" by blast
  from load_and_reconcile_spec [OF r] rd
  have "unat (runtime_generation l') = 2" "map job_st (jobs l') = [Interrupted, Failed]"
    by (auto simp: ledger_empty_def list_all2_Cons1 sample_job_def is_terminal_def)
  with r show ?thesis by (intro exI [of _ l']) simp
qed

section \<open>Process observations\<close>

text \<open>A sequence of snapshots of a running process, applied in the order given.\<close>

fun observe_all :: "string \<Rightarrow> string \<Rightarrow> u64 \<Rightarrow> u64 \<Rightarrow> process_output_facts list \<Rightarrow> 'v job_ledger \<Rightarrow> 'v job_ledger" where
  "observe_all jid att gen now [] l = l"
| "observe_all jid att gen now (out # outs) l =
     observe_all jid att gen now outs (fst (apply_process_observation l jid att gen ObsRunning out now))"

definition output_facts :: "job_record \<Rightarrow> u64 \<times> u64 \<times> bool \<times> bool" where
  "output_facts j = (stdout_bytes j, stderr_bytes j, stdout_truncated j, stderr_truncated j)"

text \<open>What a list of snapshots amounts to: the largest counters, the disjunction of the flags.\<close>

definition max_facts :: "process_output_facts list \<Rightarrow> job_record \<Rightarrow> u64 \<times> u64 \<times> bool \<times> bool" where
  "max_facts outs j =
     (Max (insert (stdout_bytes j) (pf_stdout_bytes ` set outs)),
      Max (insert (stderr_bytes j) (pf_stderr_bytes ` set outs)),
      stdout_truncated j \<or> (\<exists>q \<in> set outs. pf_stdout_truncated q),
      stderr_truncated j \<or> (\<exists>q \<in> set outs. pf_stderr_truncated q))"

lemma fenced_observe_running:
  "fenced j att gen \<Longrightarrow> fenced (observe_state ObsRunning j') att gen"
  if "attempt_id j' = attempt_id j" "job_generation j' = job_generation j"
  using that by (auto simp: fenced_def is_terminal_def observe_state_def split: option.split)

lemma Max_insert_image:
  "finite A \<Longrightarrow> Max (insert (max x y) A) = Max (insert (x::'a::linorder) (insert y A))"
  by (cases "A = {}") (simp_all add: max.assoc)

lemma observe_all_facts:
  assumes "find_job l jid = Some j" "fenced j att gen"
  shows "\<exists>j'. find_job (observe_all jid att gen now outs l) jid = Some j' \<and> fenced j' att gen \<and>
    output_facts j' = max_facts outs j"
  using assms
proof (induction outs arbitrary: l j)
  case Nil
  then show ?case by (simp add: output_facts_def max_facts_def)
next
  case (Cons out outs)
  define f where "f = (\<lambda>j. observe_state ObsRunning ((observe_output ObsRunning out j)\<lparr>updated_at_ms := now\<rparr>))"
  have step: "fst (apply_process_observation l jid att gen ObsRunning out now) = modify_job jid f l"
    using Cons.prems by (simp add: apply_process_observation_def f_def)
  have id: "job_id j = jid" using Cons.prems(1) find_job_SomeD by blast
  have found: "find_job (modify_job jid f l) jid = Some (f j)"
    using Cons.prems(1) by (rule find_job_modify_same) (simp add: f_def id)
  have fen: "fenced (f j) att gen"
    using Cons.prems(2) unfolding f_def by (intro fenced_observe_running [of _ j]) simp_all
  have facts: "max_facts outs (f j) = max_facts (out # outs) j"
    by (auto simp: max_facts_def f_def observe_output_def Max_insert_image insert_commute)
  from Cons.IH [OF found fen] show ?case by (simp add: step facts)
qed

text \<open>
  Snapshots of a running process may arrive in any order, and more than once: the byte counters
  of a live attempt end up at the largest value ever reported (never below where they started) and
  a truncation flag stays set once any snapshot set it, so two arrival orders of the same snapshots
  leave the same facts.
\<close>

theorem running_snapshots_any_order:
  assumes "find_job l jid = Some j" "fenced j att gen" "set outs = set outs'"
  shows "\<exists>a b. find_job (observe_all jid att gen now outs l) jid = Some a \<and>
    find_job (observe_all jid att gen now outs' l) jid = Some b \<and>
    output_facts a = output_facts b \<and> output_facts a = max_facts outs j \<and>
    stdout_bytes j \<le> stdout_bytes a \<and> stderr_bytes j \<le> stderr_bytes a"
proof -
  obtain a where a: "find_job (observe_all jid att gen now outs l) jid = Some a"
      "output_facts a = max_facts outs j"
    using observe_all_facts [OF assms(1,2)] by blast
  obtain b where b: "find_job (observe_all jid att gen now outs' l) jid = Some b"
      "output_facts b = max_facts outs' j"
    using observe_all_facts [OF assms(1,2)] by blast
  have "max_facts outs' j = max_facts outs j" using assms(3) by (simp add: max_facts_def)
  moreover have "stdout_bytes j \<le> stdout_bytes a \<and> stderr_bytes j \<le> stderr_bytes a"
    using a(2) by (auto simp: output_facts_def max_facts_def)
  ultimately show ?thesis using a b by (intro exI [of _ a] exI [of _ b]) simp
qed

lemma running_snapshots_any_order_witness:
  "let l = (ledger_empty 1)\<lparr>jobs := [sample_job ''a'' Running]\<rparr> :: nat job_ledger;
       s1 = \<lparr>pf_stdout_bytes = 10, pf_stderr_bytes = 0, pf_stdout_truncated = False, pf_stderr_truncated = True\<rparr>;
       s2 = \<lparr>pf_stdout_bytes = 4, pf_stderr_bytes = 7, pf_stdout_truncated = False, pf_stderr_truncated = False\<rparr>
   in \<exists>a b. find_job (observe_all ''a'' ''a-a'' 1 5 [s1, s2] l) ''a'' = Some a \<and>
     find_job (observe_all ''a'' ''a-a'' 1 5 [s2, s1] l) ''a'' = Some b \<and>
     output_facts a = output_facts b \<and> output_facts a = (10, 7, False, True)"
proof -
  let ?l = "(ledger_empty 1)\<lparr>jobs := [sample_job ''a'' Running]\<rparr> :: nat job_ledger"
  let ?s1 = "\<lparr>pf_stdout_bytes = 10, pf_stderr_bytes = 0, pf_stdout_truncated = False, pf_stderr_truncated = True\<rparr>"
  let ?s2 = "\<lparr>pf_stdout_bytes = 4, pf_stderr_bytes = 7, pf_stdout_truncated = False, pf_stderr_truncated = False\<rparr>"
  have f: "find_job ?l ''a'' = Some (sample_job ''a'' Running)"
    by (simp add: find_job_def sample_job_def)
  have g: "fenced (sample_job ''a'' Running) ''a-a'' 1"
    by (simp add: fenced_def sample_job_def is_terminal_def)
  have e: "set [?s1, ?s2] = set [?s2, ?s1]" by auto
  have m: "max_facts [?s1, ?s2] (sample_job ''a'' Running) = (10, 7, False, True)"
    by (simp add: max_facts_def sample_job_def max_def)
  show ?thesis
    using running_snapshots_any_order [OF f g e, of 5] m by (auto simp: Let_def)
qed

text \<open>
  The command preview is bounded: it is the command with its whitespace runs collapsed when that
  fits in 160 bytes, and otherwise its longest prefix that ends on a character boundary within 157
  bytes, followed by an ellipsis; it is never longer than 160 bytes.
\<close>

theorem command_preview_bounded:
  "length (command_preview c) \<le> MAX_COMMAND_PREVIEW_BYTES \<and>
   (let n = str_join '' '' (split_whitespace c) in
    if length n \<le> 160 then command_preview c = n
    else (\<exists>k. is_char_boundary n k \<and> k \<le> 157 \<and> command_preview c = take k n @ [CHR 0xE2, CHR 0x80, CHR 0xA6] \<and>
      (\<forall>m. m \<le> 157 \<and> is_char_boundary n m \<longrightarrow> m \<le> k)))"
proof (cases "length (str_join '' '' (split_whitespace c)) \<le> 160")
  case True
  then show ?thesis by (simp add: command_preview_def Let_def MAX_COMMAND_PREVIEW_BYTES_def)
next
  case False
  define n where "n = str_join '' '' (split_whitespace c)"
  define k where "k = floor_boundary n 157"
  have p: "command_preview c = take k n @ [CHR 0xE2, CHR 0x80, CHR 0xA6]"
    using False by (simp add: command_preview_def Let_def MAX_COMMAND_PREVIEW_BYTES_def n_def k_def min_def)
  have k: "is_char_boundary n k" "k \<le> 157" "\<forall>m. m \<le> 157 \<and> is_char_boundary n m \<longrightarrow> m \<le> k"
    using floor_boundary_is_boundary floor_boundary_le floor_boundary_greatest by (auto simp: k_def)
  then show ?thesis
    using False p by (auto simp: Let_def n_def [symmetric] MAX_COMMAND_PREVIEW_BYTES_def)
qed

lemma command_preview_bounded_witness: "command_preview ''ls   -la'' = ''ls -la''"
proof -
  have "str_join '' '' (split_whitespace ''ls   -la'') = ''ls -la''" by code_simp
  with command_preview_bounded [of "''ls   -la''"] show ?thesis by (simp add: Let_def)
qed

end
