(* ===== verification/Cli_Runtime.thy ===== *)
theory Cli_Runtime
  imports Ledger_Laws
begin

text \<open>
  The runtime owner of CLI jobs, \<open>cli/runtime.rs\<close>: the state behind \<open>MobileCliRuntimeState\<close> and
  every operation that changes it. Each definition on \<open>world\<close> is one critical section of the
  \<open>inner\<close> mutex, so other tasks interleave only between them. A world is the owner record with
  the file system below it. The clock, UUIDs, the answers of the Android bridge and of the operating
  system are arguments, one per place where the code asks.
\<close>

section \<open>State\<close>

datatype mobile_cli_phase = PhaseUnavailable | PhaseUnprovisioned | PhasePreparing | PhaseReady | PhaseError

record profile_budgets =
  foreground_yield_ms :: u64
  default_timeout_ms :: u64
  max_timeout_ms :: u64
  default_poll_bytes :: nat
  max_poll_bytes :: nat
  artifact_bytes_per_job :: u64
  workspace_default_bytes :: u64
  default_concurrent_jobs :: nat
  max_concurrent_jobs :: nat

record provisioned_runtime =
  pr_profile_id :: string
  pr_budgets :: profile_budgets
  pr_rootfs :: string
  pr_workspace :: string
  pr_skills :: string
  pr_output :: string
  pr_projection_root :: string
  pr_proot_binary :: string

record 'v runtime_owner =
  ow_initialized :: bool
  ow_phase :: mobile_cli_phase
  ow_availability_reason :: "string option"
  ow_recovery_notice :: "string option"
  ow_ledger_path :: "string option"
  ow_ledger :: "'v job_ledger"
  ow_provisioned :: "provisioned_runtime option"
  ow_last_workspace_check_ms :: u64

type_synonym 'v world = "'v runtime_owner \<times> 'v job_ledger fs"
type_synonym clock = "string + u64"

definition owner_new :: "bool \<Rightarrow> 'v runtime_owner" where
  "owner_new android =
     \<lparr>ow_initialized = False,
      ow_phase = (if android then PhaseUnprovisioned else PhaseUnavailable),
      ow_availability_reason = (if android then None
        else Some ''VCPMobileCLI currently requires the Android foreground runtime.''),
      ow_recovery_notice = None, ow_ledger_path = None, ow_ledger = ledger_empty 0,
      ow_provisioned = None, ow_last_workspace_check_ms = 0\<rparr>"

datatype cli_process_state = ProcRunning | ProcExited | ProcMissing

record start_request =
  sq_operation_id :: string
  sq_job_id :: string
  sq_attempt_id :: string
  sq_generation :: u64
  sq_command :: string
  sq_rootfs_path :: string
  sq_cwd :: string
  sq_artifact_max_bytes :: u64
  sq_background_lease :: bool
  sq_timeout_ms :: u64
  sq_display_label :: string
  sq_session_id :: "string option"

record start_response =
  sr_operation_id :: string
  sr_job_id :: string
  sr_attempt_id :: string
  sr_generation :: u64
  sr_pid :: i32
  sr_pgid :: i32
  sr_session_id :: i32
  sr_start_time_ticks :: u64
  sr_stdout_path :: string
  sr_stderr_path :: string

record inspect_response =
  ir_operation_id :: string
  ir_job_id :: string
  ir_attempt_id :: string
  ir_generation :: u64
  ir_state :: cli_process_state
  ir_exit_code :: "i32 option"
  ir_stdout_bytes :: u64
  ir_stderr_bytes :: u64
  ir_stdout_truncated :: bool
  ir_stderr_truncated :: bool
  ir_background_lease_lost :: bool

record cancel_request =
  cq_operation_id :: string
  cq_job_id :: string
  cq_attempt_id :: string
  cq_generation :: u64
  cq_grace_ms :: u64

record cancel_response =
  cr_operation_id :: string
  cr_job_id :: string
  cr_attempt_id :: string
  cr_generation :: u64
  cr_found :: bool
  cr_term_sent :: bool
  cr_kill_sent :: bool
  cr_group_gone :: bool
  cr_exit_code :: "i32 option"

definition MAX_OPERATION_ID_BYTES :: nat where "MAX_OPERATION_ID_BYTES = 128"
definition MAX_CANCEL_GRACE_MS :: u64 where "MAX_CANCEL_GRACE_MS = 2000"
definition MONITOR_INTERVAL_MS :: u64 where "MONITOR_INTERVAL_MS = 250"
definition WORKSPACE_CHECK_INTERVAL_MS :: u64 where "WORKSPACE_CHECK_INTERVAL_MS = 5000"
definition MAX_TIMEOUT_CANCEL_RETRIES :: u8 where "MAX_TIMEOUT_CANCEL_RETRIES = 3"
definition TIMEOUT_CANCEL_RETRY_MS :: u64 where "TIMEOUT_CANCEL_RETRY_MS = 500"
definition FINAL_OUTPUT_REFRESH_ATTEMPTS :: nat where "FINAL_OUTPUT_REFRESH_ATTEMPTS = 3"

text \<open>\<open>duration_since(UNIX_EPOCH)\<close> as an error or a number of milliseconds.\<close>

definition now_ms :: "string + nat \<Rightarrow> clock" where
  "now_ms since_epoch =
     (case since_epoch of
        Inl e \<Rightarrow> Inl (''system clock is before Unix epoch: '' @ e)
      | Inr millis \<Rightarrow> if millis < 2 ^ 64 then Inr (of_nat millis)
          else Inl ''system clock millisecond value overflow'')"

section \<open>Validation and identities\<close>

definition stable_id_byte :: "char \<Rightarrow> bool" where
  "stable_id_byte c \<longleftrightarrow> is_ascii_alphanumeric c \<or> c \<in> {CHR ''-'', CHR ''_'', CHR ''.'', CHR '':''}"

definition validate_operation_id :: "string \<Rightarrow> string + unit" where
  "validate_operation_id v =
     (if v = [] \<or> length v > MAX_OPERATION_ID_BYTES \<or> \<not> list_all (\<lambda>c. bval c < 128) v \<or>
         list_ex (\<lambda>c. \<not> stable_id_byte c) v
      then Inl ''operation_id must be a stable ASCII identifier'' else Inr ())"

definition validate_session_id :: "string option \<Rightarrow> string + unit" where
  "validate_session_id sv =
     (case sv of
        None \<Rightarrow> Inr ()
      | Some v \<Rightarrow>
          if v = [] \<or> length v > 96 \<or> \<not> list_all (\<lambda>c. bval c < 128) v \<or>
             list_ex (\<lambda>c. \<not> stable_id_byte c) v
          then Inl ''session_id must be a bounded stable ASCII identifier'' else Inr ())"

definition inspect_identity_matches :: "job_record \<Rightarrow> string \<Rightarrow> inspect_response \<Rightarrow> bool" where
  "inspect_identity_matches job oid r \<longleftrightarrow>
     ir_operation_id r = oid \<and> ir_job_id r = job_id job \<and> ir_attempt_id r = attempt_id job \<and>
     ir_generation r = job_generation job"

definition start_identity_matches :: "start_request \<Rightarrow> start_response \<Rightarrow> bool" where
  "start_identity_matches q r \<longleftrightarrow>
     sr_operation_id r = sq_operation_id q \<and> sr_job_id r = sq_job_id q \<and>
     sr_attempt_id r = sq_attempt_id q \<and> sr_generation r = sq_generation q"

definition process_host_confirmed_containment :: "cancel_response \<Rightarrow> bool" where
  "process_host_confirmed_containment r \<longleftrightarrow> cr_found r \<and> cr_group_gone r"

definition inspect_lease_facts ::
    "cli_process_state \<Rightarrow> i32 option \<Rightarrow> bool \<Rightarrow> bool \<Rightarrow> process_observation \<times> bool" where
  "inspect_lease_facts st code lease_lost has_intent =
     (let observation = (case st of ProcRunning \<Rightarrow> ObsRunning | ProcExited \<Rightarrow> ObsExited code
                          | ProcMissing \<Rightarrow> ObsMissing)
      in (observation, lease_lost \<and> observation = ObsRunning \<and> \<not> has_intent))"

definition job_visible_to :: "job_record \<Rightarrow> string option \<Rightarrow> bool" where
  "job_visible_to j caller =
     (case caller of
        Some session \<Rightarrow> (case job_session j of None \<Rightarrow> True | Some owned \<Rightarrow> owned = session)
      | None \<Rightarrow> job_session j = None)"

datatype monitor_decision = MonitorTimeout | MonitorInspect u64

definition clamp :: "u64 \<Rightarrow> u64 \<Rightarrow> u64 \<Rightarrow> u64" where
  "clamp lo hi x = (if x < lo then lo else if x > hi then hi else x)"

definition monitor_decide :: "job_record \<Rightarrow> u64 \<Rightarrow> monitor_decision" where
  "monitor_decide j now =
     (if now \<ge> deadline_at_ms j then MonitorTimeout
      else MonitorInspect (clamp 1 MONITOR_INTERVAL_MS (u64_saturating_sub (deadline_at_ms j) now)))"

section \<open>Persistence\<close>

text \<open>\<open>Path::parent\<close> of a normalised path, and \<open>join\<close> of a relative one.\<close>

definition path_parent :: "string \<Rightarrow> string option" where
  "path_parent p =
     (if p = [] \<or> p = ''/'' then None
      else
        let r = dropWhile (\<lambda>c. c \<noteq> CHR ''/'') (rev p) in
        Some (if r = [] then [] else if tl r = [] then ''/'' else rev (tl r)))"

definition path_join :: "string \<Rightarrow> string \<Rightarrow> string" where
  "path_join d s = d @ CHR ''/'' # s"

definition persist_owner ::
    "('v job_ledger \<Rightarrow> string + nat) \<Rightarrow> save_io \<Rightarrow> 'v world \<Rightarrow> 'v world \<times> (string + unit)" where
  "persist_owner enc io w =
     (case w of (owner, fs) \<Rightarrow>
       (case ow_ledger_path owner of
          None \<Rightarrow> (w, Inl ''CLI ledger is not initialized'')
        | Some path \<Rightarrow>
            (case save_atomic enc (path_parent path) path io (ow_ledger owner) fs of
               (fs', r) \<Rightarrow> ((owner, fs'), r))))"

definition replace_ledger_atomically ::
    "('v job_ledger \<Rightarrow> string + nat) \<Rightarrow> save_io \<Rightarrow> 'v job_ledger \<Rightarrow> 'v world \<Rightarrow>
     'v world \<times> (string + unit)" where
  "replace_ledger_atomically enc io replacement w =
     (case w of (owner, fs) \<Rightarrow>
       (case ow_ledger_path owner of
          None \<Rightarrow> (w, Inl ''CLI ledger is not initialized'')
        | Some path \<Rightarrow>
            (case save_atomic enc (path_parent path) path io replacement fs of
               (fs', Inl e) \<Rightarrow> ((owner, fs'), Inl e)
             | (fs', Inr u) \<Rightarrow> ((owner\<lparr>ow_ledger := replacement\<rparr>, fs'), Inr ()))))"

definition LEDGER_RELATIVE_PATH :: string where "LEDGER_RELATIVE_PATH = ''vcp-cli/job-ledger.json''"

definition ensure_initialized ::
    "(string \<Rightarrow> string + 'v job_ledger) \<Rightarrow> ('v job_ledger \<Rightarrow> string + nat) \<Rightarrow> bool \<Rightarrow>
     string + string \<Rightarrow> clock \<Rightarrow> (string \<Rightarrow> ledger_file) \<Rightarrow> recovery_io \<Rightarrow> save_io \<Rightarrow> 'v world \<Rightarrow>
     'v world \<times> (string + unit)" where
  "ensure_initialized from_slice enc android config_dir clk probe rio io w =
     (case w of (owner, fs) \<Rightarrow>
       if ow_initialized owner then (w, Inr ())
       else
         (case config_dir of
            Inl e \<Rightarrow> (w, Inl (''cannot resolve CLI private state directory: '' @ e))
          | Inr dir \<Rightarrow>
            let path = path_join dir LEDGER_RELATIVE_PATH in
            (case clk of
               Inl e \<Rightarrow> (w, Inl e)
             | Inr now \<Rightarrow>
               (case load_with_scoped_recovery from_slice enc (path_parent path) path (probe path) rio now fs of
                  (fs1, Inl e) \<Rightarrow> ((owner, fs1), Inl e)
                | (fs1, Inr (ledger, notice)) \<Rightarrow>
                  (case save_atomic enc (path_parent path) path io ledger fs1 of
                     (fs2, Inl e) \<Rightarrow> ((owner, fs2), Inl e)
                   | (fs2, Inr u) \<Rightarrow>
                       ((owner\<lparr>ow_phase := (if android then PhaseUnprovisioned else PhaseUnavailable),
                               ow_recovery_notice := notice, ow_ledger_path := Some path,
                               ow_ledger := ledger, ow_provisioned := None,
                               ow_last_workspace_check_ms := 0, ow_initialized := True\<rparr>, fs2),
                        Inr ()))))))"

definition set_phase_error :: "string \<Rightarrow> 'v world \<Rightarrow> 'v world" where
  "set_phase_error e w =
     (case w of (owner, fs) \<Rightarrow>
       (owner\<lparr>ow_phase := PhaseError, ow_availability_reason := Some e\<rparr>, fs))"

definition runtime_paths_of :: "provisioned_runtime \<Rightarrow> runtime_paths_record" where
  "runtime_paths_of r =
     \<lparr>rp_rootfs = pr_rootfs r, rp_workspace = pr_workspace r, rp_skills = pr_skills r,
      rp_output = pr_output r, rp_projection_root = pr_projection_root r,
      rp_proot_binary = pr_proot_binary r\<rparr>"

text \<open>The two critical sections of \<open>provision_once\<close>.\<close>

definition begin_provision :: "'v world \<Rightarrow> 'v world \<times> u64" where
  "begin_provision w =
     (case w of (owner, fs) \<Rightarrow>
       ((owner\<lparr>ow_phase := PhasePreparing\<rparr>, fs), runtime_generation (ow_ledger owner)))"

definition finish_provision ::
    "('v job_ledger \<Rightarrow> string + nat) \<Rightarrow> save_io \<Rightarrow> u64 \<Rightarrow> provisioned_runtime \<Rightarrow> 'v world \<Rightarrow>
     'v world \<times> (string + provisioned_runtime)" where
  "finish_provision enc io gen runtime w =
     (case w of (owner, fs) \<Rightarrow>
       if runtime_generation (ow_ledger owner) \<noteq> gen
       then (w, Inl ''runtime generation changed during provision'')
       else
         let owner' = owner\<lparr>ow_ledger := (ow_ledger owner)\<lparr>runtime_paths := Some (runtime_paths_of runtime)\<rparr>,
               ow_provisioned := Some runtime, ow_phase := PhaseReady,
               ow_availability_reason := ow_recovery_notice owner\<rparr>
         in (case persist_owner enc io (owner', fs) of
               (w', Inl e) \<Rightarrow> (w', Inl e)
             | (w', Inr u) \<Rightarrow> (w', Inr runtime)))"

section \<open>Admission of a run\<close>

definition session_concurrency_reached :: "job_record list \<Rightarrow> string \<Rightarrow> nat \<Rightarrow> bool" where
  "session_concurrency_reached js session limit \<longleftrightarrow>
     length (filter (\<lambda>j. \<not> is_terminal j \<and> job_session j = Some session) js) \<ge> limit"

definition concurrent_limit_of :: "profile_budgets \<Rightarrow> nat" where
  "concurrent_limit_of b = min (min (default_concurrent_jobs b) (max_concurrent_jobs b)) 4"

definition admit_run_job ::
    "nat \<Rightarrow> job_record \<Rightarrow> 'v runtime_owner \<Rightarrow> 'v runtime_owner \<times> (string + job_record list)" where
  "admit_run_job limit job owner =
     (let l = ow_ledger owner in
      if runtime_generation l \<noteq> job_generation job
      then (owner, Inl ''runtime generation changed before CLI job admission'')
      else if length (filter (\<lambda>j. \<not> is_terminal j) (jobs l)) \<ge> limit
      then (owner, Inl (''CLI concurrency limit reached; at most '' @ nat_str limit @ '' jobs may run''))
      else if (case job_session job of None \<Rightarrow> False
               | Some session \<Rightarrow> session_concurrency_reached (jobs l) session (min limit 2))
      then (owner, Inl ''CLI session concurrency limit reached; at most 2 jobs may run in one chat session'')
      else (case insert_job l job of (l', r) \<Rightarrow> (owner\<lparr>ow_ledger := l'\<rparr>, r)))"

record run_parameters =
  rq_command :: string
  rq_description :: "string option"
  rq_cwd :: string
  rq_timeout_ms :: u64
  rq_session_id :: "string option"

definition new_run_job ::
    "string \<Rightarrow> string \<Rightarrow> u64 \<Rightarrow> u64 \<Rightarrow> string \<Rightarrow> string \<Rightarrow> run_parameters \<Rightarrow> job_record" where
  "new_run_job job_uuid attempt_uuid gen now oid sha q =
     \<lparr>job_id = ''job-'' @ job_uuid, attempt_id = ''attempt-'' @ attempt_uuid, job_generation = gen,
      job_session = rq_session_id q, job_st = Starting, preview = command_preview (rq_command q),
      description = rq_description q, cwd = rq_cwd q, timeout_ms = rq_timeout_ms q,
      created_at_ms = now, updated_at_ms = now,
      deadline_at_ms = u64_saturating_add now (rq_timeout_ms q),
      stdout_path = None, stderr_path = None, river_projection_path = None,
      stdout_bytes = 0, stderr_bytes = 0, stdout_truncated = False, stderr_truncated = False,
      artifact_sha256 = None, artifact_size_bytes = None, exit_code = None, job_reason = None,
      terminal_intent = None,
      mutation_operations = [\<lparr>mb_operation_id = oid, mb_action_sha256 = sha\<rparr>]\<rparr>"

text \<open>
  The insertion block of \<open>run_action\<close>: admit, collect the output files and projections of the
  evicted jobs for removal, persist.
\<close>

definition stale_output_paths :: "job_record list \<Rightarrow> string list" where
  "stale_output_paths evicted =
     concat (map (\<lambda>j. (case stdout_path j of None \<Rightarrow> [] | Some p \<Rightarrow> [p]) @
                      (case stderr_path j of None \<Rightarrow> [] | Some p \<Rightarrow> [p])) evicted)"

definition insert_run_job ::
    "('v job_ledger \<Rightarrow> string + nat) \<Rightarrow> save_io \<Rightarrow> nat \<Rightarrow> job_record \<Rightarrow> 'v world \<Rightarrow>
     'v world \<times> (string + string list)" where
  "insert_run_job enc io limit job w =
     (case w of (owner, fs) \<Rightarrow>
       (case admit_run_job limit job owner of
          (owner', Inl e) \<Rightarrow> ((owner', fs), Inl e)
        | (owner', Inr evicted) \<Rightarrow>
            (case persist_owner enc io (owner', fs) of
               (w', Inl e) \<Rightarrow> (w', Inl e)
             | (w', Inr u) \<Rightarrow> (w', Inr (stale_output_paths evicted)))))"

definition job_snapshot :: "string \<Rightarrow> 'v world \<Rightarrow> job_record option" where
  "job_snapshot jid w = find_job (ow_ledger (fst w)) jid"

definition start_request_of ::
    "provisioned_runtime \<Rightarrow> string \<Rightarrow> run_parameters \<Rightarrow> job_record \<Rightarrow> start_request" where
  "start_request_of runtime oid q job =
     \<lparr>sq_operation_id = oid, sq_job_id = job_id job, sq_attempt_id = attempt_id job,
      sq_generation = job_generation job, sq_command = rq_command q,
      sq_rootfs_path = pr_rootfs runtime, sq_cwd = rq_cwd q,
      sq_artifact_max_bytes = artifact_bytes_per_job (pr_budgets runtime),
      sq_background_lease = True, sq_timeout_ms = rq_timeout_ms q,
      sq_display_label = (case rq_description q of Some d \<Rightarrow> d | None \<Rightarrow> preview job),
      sq_session_id = rq_session_id q\<rparr>"

text \<open>\<open>start_or_adopt\<close>: the first start, the adoption probe and the reissued start are the
  bridge's three possible answers.\<close>

definition start_or_adopt ::
    "start_request \<Rightarrow> job_record \<Rightarrow> string \<Rightarrow> string + start_response \<Rightarrow> string + inspect_response \<Rightarrow>
     string + start_response \<Rightarrow> string + start_response" where
  "start_or_adopt q job probe_op first probe retry =
     (case first of
        Inr r \<Rightarrow> if start_identity_matches q r then Inr r
                 else Inl ''ProcessHost start response identity mismatch''
      | Inl start_error \<Rightarrow>
          (case probe of
             Inl probe_error \<Rightarrow>
               Inl (''start failed ('' @ start_error @ ''); adoption inspect failed ('' @ probe_error @ '')'')
           | Inr p \<Rightarrow>
               if \<not> inspect_identity_matches job probe_op p
               then Inl (''start failed ('' @ start_error @ ''); adoption inspect identity mismatch'')
               else if ir_state p = ProcMissing
               then Inl (''ProcessHost start failed and the expected attempt is missing: '' @ start_error)
               else
                 (case retry of
                    Inl retry_error \<Rightarrow>
                      Inl (''attempt exists after ambiguous start, but handle recovery failed: '' @ retry_error)
                  | Inr r \<Rightarrow> if start_identity_matches q r then Inr r
                             else Inl ''recovered start response identity mismatch'')))"

section \<open>Fenced writes\<close>

text \<open>
  The common shape of four operations: under the lock, if the job is still the same live attempt,
  change it (\<open>pre\<close> before the clock is read, \<open>post\<close> after), then persist in any case. A clock
  error leaves the first part of the change in memory, unpersisted.
\<close>

definition guarded_write ::
    "('v job_ledger \<Rightarrow> string + nat) \<Rightarrow> save_io \<Rightarrow> clock \<Rightarrow> job_record \<Rightarrow> (job_record \<Rightarrow> job_record) \<Rightarrow>
     (u64 \<Rightarrow> job_record \<Rightarrow> job_record) \<Rightarrow> 'v world \<Rightarrow> 'v world \<times> (string + unit)" where
  "guarded_write enc io clk job pre post w =
     (case w of (owner, fs) \<Rightarrow>
       (case find_job (ow_ledger owner) (job_id job) of
          None \<Rightarrow> persist_owner enc io w
        | Some current \<Rightarrow>
            if fenced current (attempt_id job) (job_generation job) then
              (case clk of
                 Inl e \<Rightarrow> ((owner\<lparr>ow_ledger := modify_job (job_id job) pre (ow_ledger owner)\<rparr>, fs), Inl e)
               | Inr now \<Rightarrow>
                   persist_owner enc io
                     (owner\<lparr>ow_ledger := modify_job (job_id job) (\<lambda>j. post now (pre j)) (ow_ledger owner)\<rparr>, fs))
            else persist_owner enc io w))"

definition adopt_start_response ::
    "('v job_ledger \<Rightarrow> string + nat) \<Rightarrow> save_io \<Rightarrow> clock \<Rightarrow> job_record \<Rightarrow> start_response \<Rightarrow> 'v world \<Rightarrow>
     'v world \<times> (string + unit)" where
  "adopt_start_response enc io clk job started =
     guarded_write enc io clk job (\<lambda>j. j\<lparr>job_st := Running\<rparr>)
       (\<lambda>now j. j\<lparr>updated_at_ms := now, stdout_path := Some (sr_stdout_path started),
                  stderr_path := Some (sr_stderr_path started), job_reason := None\<rparr>)"

definition set_job_reason ::
    "('v job_ledger \<Rightarrow> string + nat) \<Rightarrow> save_io \<Rightarrow> clock \<Rightarrow> job_record \<Rightarrow> string \<Rightarrow> 'v world \<Rightarrow>
     'v world \<times> (string + unit)" where
  "set_job_reason enc io clk job why =
     guarded_write enc io clk job (\<lambda>j. j\<lparr>job_reason := Some why\<rparr>) (\<lambda>now j. j\<lparr>updated_at_ms := now\<rparr>)"

definition mark_output_snapshot_incomplete ::
    "('v job_ledger \<Rightarrow> string + nat) \<Rightarrow> save_io \<Rightarrow> clock \<Rightarrow> job_record \<Rightarrow> string \<Rightarrow> 'v world \<Rightarrow>
     'v world \<times> (string + unit)" where
  "mark_output_snapshot_incomplete enc io clk job why =
     guarded_write enc io clk job
       (\<lambda>j. j\<lparr>stdout_truncated := True, stderr_truncated := True,
              job_reason := Some (why @ ''; final output may be incomplete.'')\<rparr>)
       (\<lambda>now j. j\<lparr>updated_at_ms := now\<rparr>)"

definition apply_output_snapshot ::
    "('v job_ledger \<Rightarrow> string + nat) \<Rightarrow> save_io \<Rightarrow> clock \<Rightarrow> job_record \<Rightarrow> inspect_response \<Rightarrow> 'v world \<Rightarrow>
     'v world \<times> (string + unit)" where
  "apply_output_snapshot enc io clk job r =
     guarded_write enc io clk job
       (\<lambda>j. j\<lparr>stdout_bytes := ir_stdout_bytes r, stderr_bytes := ir_stderr_bytes r,
              stdout_truncated := ir_stdout_truncated r, stderr_truncated := ir_stderr_truncated r,
              exit_code := ir_exit_code r\<rparr>)
       (\<lambda>now j. j\<lparr>updated_at_ms := now\<rparr>)"

section \<open>Terminal intents\<close>

definition persist_terminal_intent ::
    "('v job_ledger \<Rightarrow> string + nat) \<Rightarrow> save_io \<Rightarrow> clock \<Rightarrow> job_record \<Rightarrow> terminal_intent_record \<Rightarrow>
     'v world \<Rightarrow> 'v world \<times> (string + terminal_intent_record option)" where
  "persist_terminal_intent enc io clk job requested w =
     (let l = ow_ledger (fst w);
          existing = Option.bind (find_job l (job_id job)) terminal_intent
      in (case clk of
            Inl e \<Rightarrow> (w, Inl e)
          | Inr now \<Rightarrow>
              (case request_terminal_intent l (job_id job) (attempt_id job) (job_generation job) requested now of
                 (next_l, intent) \<Rightarrow>
                   if existing = None \<and> intent \<noteq> None then
                     (case replace_ledger_atomically enc io
                         (modify_job (job_id job)
                            (\<lambda>j. if is_terminal j then j else j\<lparr>job_st := Stopping\<rparr>) next_l) w of
                        (w', Inl e) \<Rightarrow> (w', Inl e)
                      | (w', Inr u) \<Rightarrow> (w', Inr intent))
                   else (w, Inr intent))))"

definition timeout_intent :: "string \<Rightarrow> u64 \<Rightarrow> terminal_intent_record" where
  "timeout_intent oid now =
     \<lparr>ti_target = TargetTimedOut, ti_operation_id = oid, ti_requested_at_ms = now,
      ti_reason = ''Command exceeded its absolute deadline and its owned process tree is gone.''\<rparr>"

text \<open>\<open>clk1\<close> is read by the deadline comparison, \<open>clk2\<close> for the request time, \<open>clk3\<close> inside
  \<open>persist_terminal_intent\<close>.\<close>

definition ensure_deadline_intent ::
    "('v job_ledger \<Rightarrow> string + nat) \<Rightarrow> save_io \<Rightarrow> clock \<Rightarrow> clock \<Rightarrow> clock \<Rightarrow> string \<Rightarrow> job_record \<Rightarrow>
     'v world \<Rightarrow> 'v world \<times> (string + job_record)" where
  "ensure_deadline_intent enc io clk1 clk2 clk3 uuid job w =
     (if is_terminal job \<or> terminal_intent job \<noteq> None then (w, Inr job)
      else
        (case clk1 of
           Inl e \<Rightarrow> (w, Inl e)
         | Inr now1 \<Rightarrow>
           if now1 < deadline_at_ms job then (w, Inr job)
           else
             (case clk2 of
                Inl e \<Rightarrow> (w, Inl e)
              | Inr now2 \<Rightarrow>
                (case persist_terminal_intent enc io clk3 job (timeout_intent (''timeout-'' @ uuid) now2) w of
                   (w', Inl e) \<Rightarrow> (w', Inl e)
                 | (w', Inr i) \<Rightarrow>
                     (w', Inr (case job_snapshot (job_id job) w' of Some j \<Rightarrow> j | None \<Rightarrow> job))))))"

definition lease_loss_intent :: "string \<Rightarrow> u64 \<Rightarrow> terminal_intent_record" where
  "lease_loss_intent uuid now =
     \<lparr>ti_target = TargetInterrupted, ti_operation_id = ''lease-loss-'' @ uuid, ti_requested_at_ms = now,
      ti_reason = ''CLI foreground lease was lost; the runtime will contain the process tree.''\<rparr>"

text \<open>
  \<open>inspect_job\<close> after the bridge answered with the attempt's identity: one critical section.
  The second value is the terminal job whose projection is cleaned up next, if the job ended.
\<close>

definition inspect_apply ::
    "('v job_ledger \<Rightarrow> string + nat) \<Rightarrow> save_io \<Rightarrow> clock \<Rightarrow> clock \<Rightarrow> clock \<Rightarrow> string \<Rightarrow> job_record \<Rightarrow>
     inspect_response \<Rightarrow> 'v world \<Rightarrow> 'v world \<times> (string + job_record option)" where
  "inspect_apply enc io clk1 clk2 clk3 uuid job r w =
     (case inspect_lease_facts (ir_state r) (ir_exit_code r) (ir_background_lease_lost r)
             (terminal_intent job = None) of
        (observation, request_interrupted) \<Rightarrow>
          (case clk1 of
             Inl e \<Rightarrow> (w, Inl e)
           | Inr now1 \<Rightarrow>
             (case apply_process_observation (ow_ledger (fst w)) (job_id job) (attempt_id job)
                     (job_generation job) observation
                     \<lparr>pf_stdout_bytes = ir_stdout_bytes r, pf_stderr_bytes = ir_stderr_bytes r,
                      pf_stdout_truncated = ir_stdout_truncated r,
                      pf_stderr_truncated = ir_stderr_truncated r\<rparr> now1 of
                (l1, False) \<Rightarrow> (w, Inr None)
              | (l1, True) \<Rightarrow>
                let commit = (\<lambda>l2. let terminal = (case find_job l2 (job_id job) of
                                 Some current \<Rightarrow> if is_terminal current then Some current else None
                               | None \<Rightarrow> None)
                       in (case replace_ledger_atomically enc io l2 w of
                             (w', Inl e) \<Rightarrow> (w', Inl e)
                           | (w', Inr u) \<Rightarrow> (w', Inr terminal)))
                in if request_interrupted then
                     (case clk2 of
                        Inl e \<Rightarrow> (w, Inl e)
                      | Inr now2 \<Rightarrow>
                        (case clk3 of
                           Inl e \<Rightarrow> (w, Inl e)
                         | Inr now3 \<Rightarrow>
                           commit (modify_job (job_id job)
                             (\<lambda>j. if is_terminal j then j else j\<lparr>job_st := Stopping\<rparr>)
                             (fst (request_terminal_intent l1 (job_id job) (attempt_id job)
                                (job_generation job) (lease_loss_intent uuid now2) now3)))))
                   else commit l1)))"

definition snapshot_reason_marker :: string where
  "snapshot_reason_marker = ''final output may be incomplete''"

text \<open>The exit code and the reason a claimed job ends with.\<close>

definition finish_claim ::
    "i32 option \<Rightarrow> string option \<Rightarrow> terminal_intent_record \<Rightarrow> job_record \<Rightarrow> job_record \<Rightarrow> job_record" where
  "finish_claim code snapshot_reason intent claimed j =
     j\<lparr>exit_code := (case code of Some c \<Rightarrow> Some c | None \<Rightarrow> exit_code claimed),
       job_reason := (case snapshot_reason of
           None \<Rightarrow> job_reason j
         | Some sr \<Rightarrow> Some ((case job_reason j of Some r \<Rightarrow> r | None \<Rightarrow> ti_reason intent) @ '' '' @ sr))\<rparr>"

text \<open>The critical section of the runtime's \<open>claim_terminal_intent\<close>.\<close>

definition claim_terminal_intent ::
    "('v job_ledger \<Rightarrow> string + nat) \<Rightarrow> save_io \<Rightarrow> clock \<Rightarrow> job_record \<Rightarrow> terminal_intent_record \<Rightarrow>
     i32 option \<Rightarrow> 'v world \<Rightarrow> 'v world \<times> (string + unit)" where
  "claim_terminal_intent enc io clk job intent code w =
     (let l = ow_ledger (fst w);
          snapshot_reason = (case Option.bind (find_job l (job_id job)) job_reason of
              Some why \<Rightarrow> if str_find snapshot_reason_marker why \<noteq> None then Some why else None
            | None \<Rightarrow> None)
      in (case clk of
            Inl e \<Rightarrow> (w, Inl e)
          | Inr now \<Rightarrow>
            (case ledger_claim_terminal_intent l (job_id job) (attempt_id job) (job_generation job) intent now of
               (next_l, None) \<Rightarrow> (w, Inr ())
             | (next_l, Some claimed) \<Rightarrow>
                 replace_ledger_atomically enc io
                   (modify_job (job_id job)
                      (finish_claim code snapshot_reason intent claimed) next_l) w)))"

datatype cancel_binding_outcome = BindBound | BindReplay | BindConflict

definition bind_cancel_operation ::
    "('v job_ledger \<Rightarrow> string + nat) \<Rightarrow> save_io \<Rightarrow> clock \<Rightarrow> string \<Rightarrow> string \<Rightarrow> string \<Rightarrow>
     terminal_intent_record \<Rightarrow> 'v world \<Rightarrow> 'v world \<times> (string + cancel_binding_outcome)" where
  "bind_cancel_operation enc io clk jid oid sha requested w =
     (if ti_operation_id requested \<noteq> oid
      then (w, Inl ''cancel binding and terminal intent identities differ'')
      else
        let l = ow_ledger (fst w) in
        (case operation l oid sha of
           OpConflict \<Rightarrow> (w, Inr BindConflict)
         | OpReplayJob existing \<Rightarrow> (w, Inr (if existing = jid then BindReplay else BindConflict))
         | OpReplay v \<Rightarrow> (w, Inr BindReplay)
         | OpMissing \<Rightarrow>
           (case find_job l jid of
              None \<Rightarrow> (w, Inr BindBound)
            | Some job \<Rightarrow>
              let bind = (\<lambda>j. j\<lparr>mutation_operations := mutation_operations j @
                            [\<lparr>mb_operation_id = oid, mb_action_sha256 = sha\<rparr>]\<rparr>);
                  commit = (\<lambda>next_l. (case replace_ledger_atomically enc io next_l w of
                       (w', Inl e) \<Rightarrow> (w', Inl e)
                     | (w', Inr u) \<Rightarrow> (w', Inr BindBound)))
              in if \<not> is_terminal job \<and> terminal_intent job = None then
                   (case clk of
                      Inl e \<Rightarrow> (w, Inl e)
                    | Inr now \<Rightarrow>
                        commit (modify_job jid
                          (\<lambda>j. (bind j)\<lparr>terminal_intent := Some requested, updated_at_ms := now\<rparr>) l))
                 else commit (modify_job jid bind l))))"

section \<open>Bookkeeping of finished jobs\<close>

text \<open>The last critical section of \<open>cleanup_river_projection\<close>, and of \<open>output_artifact_ref\<close>.\<close>

definition forget_river_projection ::
    "('v job_ledger \<Rightarrow> string + nat) \<Rightarrow> save_io \<Rightarrow> job_record \<Rightarrow> string \<Rightarrow> 'v world \<Rightarrow>
     'v world \<times> (string + unit)" where
  "forget_river_projection enc io job path w =
     (case w of (owner, fs) \<Rightarrow>
       (case find_job (ow_ledger owner) (job_id job) of
          None \<Rightarrow> (w, Inr ())
        | Some current \<Rightarrow>
            if attempt_id current = attempt_id job \<and> job_generation current = job_generation job \<and>
               is_terminal current \<and> river_projection_path current = Some path
            then persist_owner enc io
                   (owner\<lparr>ow_ledger := modify_job (job_id job) (\<lambda>j. j\<lparr>river_projection_path := None\<rparr>)
                            (ow_ledger owner)\<rparr>, fs)
            else (w, Inr ())))"

text \<open>\<open>removal\<close> is the answer of the blocking \<open>remove_river_projection\<close> task.\<close>

definition cleanup_river_projection ::
    "('v job_ledger \<Rightarrow> string + nat) \<Rightarrow> save_io \<Rightarrow> string + unit \<Rightarrow> job_record \<Rightarrow> 'v world \<Rightarrow>
     'v world \<times> (string + unit)" where
  "cleanup_river_projection enc io removal job w =
     (case river_projection_path job of
        None \<Rightarrow> (w, Inr ())
      | Some path \<Rightarrow>
          (case ow_provisioned (fst w) of
             None \<Rightarrow> (w, Inl ''river projection root is unavailable'')
           | Some runtime \<Rightarrow>
               (case removal of
                  Inl e \<Rightarrow> (w, Inl e)
                | Inr u \<Rightarrow> forget_river_projection enc io job path w)))"

definition record_artifact_digest ::
    "('v job_ledger \<Rightarrow> string + nat) \<Rightarrow> save_io \<Rightarrow> job_record \<Rightarrow> string \<Rightarrow> u64 \<Rightarrow> 'v world \<Rightarrow>
     'v world \<times> (string + unit)" where
  "record_artifact_digest enc io job sha bytes w =
     (case w of (owner, fs) \<Rightarrow>
       (case find_job (ow_ledger owner) (job_id job) of
          None \<Rightarrow> (w, Inr ())
        | Some current \<Rightarrow>
            if attempt_id current = attempt_id job \<and> job_generation current = job_generation job \<and>
               is_terminal current \<and> stdout_bytes current = stdout_bytes job \<and>
               stderr_bytes current = stderr_bytes job
            then persist_owner enc io
                   (owner\<lparr>ow_ledger := modify_job (job_id job)
                      (\<lambda>j. j\<lparr>artifact_sha256 := Some sha, artifact_size_bytes := Some bytes\<rparr>)
                      (ow_ledger owner)\<rparr>, fs)
            else (w, Inr ())))"

text \<open>The tail of \<open>execute_inner\<close>: cache the response under its operation id, persist.\<close>

definition cache_response ::
    "('v \<Rightarrow> string + string) \<Rightarrow> ('v job_ledger \<Rightarrow> string + nat) \<Rightarrow> save_io \<Rightarrow> clock \<Rightarrow> string \<Rightarrow>
     string \<Rightarrow> 'v \<Rightarrow> 'v world \<Rightarrow> 'v world \<times> (string + unit)" where
  "cache_response to_vec enc io clk oid sha response w =
     (case w of (owner, fs) \<Rightarrow>
       (case clk of
          Inl e \<Rightarrow> (w, Inl e)
        | Inr now \<Rightarrow>
            (case record_operation to_vec (ow_ledger owner) oid sha response now of
               Inl e \<Rightarrow> (w, Inl e)
             | Inr l \<Rightarrow> persist_owner enc io (owner\<lparr>ow_ledger := l\<rparr>, fs))))"

text \<open>The first critical section of \<open>enforce_workspace_budget\<close>; \<open>None\<close> means nothing is due.\<close>

definition workspace_check_due :: "u64 \<Rightarrow> 'v world \<Rightarrow> 'v world \<times> provisioned_runtime option" where
  "workspace_check_due now w =
     (case w of (owner, fs) \<Rightarrow>
       if u64_saturating_sub now (ow_last_workspace_check_ms owner) < WORKSPACE_CHECK_INTERVAL_MS
       then (w, None)
       else ((owner\<lparr>ow_last_workspace_check_ms := now\<rparr>, fs), ow_provisioned owner))"

end
