(* ===== verification/Cli_Safety.thy ===== *)
theory Cli_Safety
  imports Cli_Runtime
begin

text \<open>
  Safety of the job runtime. Every critical section of \<open>Cli_Runtime\<close> is shown to have one of five
  effects on the ledger in memory and the one on disk (\<open>effect\<close>); the step relation \<open>rt_step\<close>
  lets all of them interleave with arbitrary arguments, and the invariants are proved once over the
  effects: what may happen to a job between two reachable states, how many jobs are live, and that
  every terminal intent in memory is already on disk.
\<close>

section \<open>The ledger after a critical section\<close>

definition continues :: "'v job_ledger \<Rightarrow> 'v job_ledger \<Rightarrow> bool" where
  "continues l l' \<longleftrightarrow>
     runtime_generation l' = runtime_generation l \<and> list_all2 job_evolves (jobs l) (jobs l')"

definition same_intents :: "'v job_ledger \<Rightarrow> 'v job_ledger \<Rightarrow> bool" where
  "same_intents l l' \<longleftrightarrow> map terminal_intent (jobs l') = map terminal_intent (jobs l)"

lemma continues_refl [simp]: "continues l l"
  by (simp add: continues_def list_all2_refl)

lemma continues_same_jobs:
  "jobs l' = jobs l \<Longrightarrow> runtime_generation l' = runtime_generation l \<Longrightarrow> continues l l'"
  by (simp add: continues_def list_all2_refl)

lemma continues_trans: "continues l l' \<Longrightarrow> continues l' l'' \<Longrightarrow> continues l l''"
  unfolding continues_def using list_all2_trans [of job_evolves job_evolves job_evolves]
    job_evolves_trans by fastforce

lemma continues_ledger_evolves: "continues l l' \<Longrightarrow> ledger_evolves used l l'"
  by (fastforce simp: continues_def ledger_evolves_def list_all2_conv_all_nth in_set_conv_nth)

lemma continues_ids: "continues l l' \<Longrightarrow> map job_id (jobs l') = map job_id (jobs l)"
  by (auto simp: continues_def list_all2_conv_all_nth job_evolves_def intro!: nth_equalityI)

lemma continues_length: "continues l l' \<Longrightarrow> length (jobs l') = length (jobs l)"
  by (auto simp: continues_def dest: list_all2_lengthD)

lemma list_all2_update_first:
  "(\<And>x. List.find p xs = Some x \<Longrightarrow> R x (f x)) \<Longrightarrow> (\<And>x. R x x) \<Longrightarrow> list_all2 R xs (update_first p f xs)"
  by (induction xs) (auto simp: list_all2_refl)

lemma modify_job_continues:
  "(\<And>j. find_job l jid = Some j \<Longrightarrow> job_evolves j (f j)) \<Longrightarrow> continues l (modify_job jid f l)"
  unfolding continues_def jobs_modify_job
  by (intro conjI list_all2_update_first) (simp_all add: find_job_def)

lemma modify_job_same_intents:
  assumes "\<And>j. terminal_intent (f j) = terminal_intent j"
  shows "same_intents l (modify_job jid f l)"
  unfolding same_intents_def jobs_modify_job by (rule map_update_first) (rule assms)

lemma continues_active_count:
  assumes "continues l l'" "\<And>j j'. job_evolves j j' \<Longrightarrow> q j' = q j"
  shows "active_count q l' \<le> active_count q l"
proof -
  have "list_all2 job_evolves js js' \<Longrightarrow>
      length (filter (\<lambda>j. \<not> is_terminal j \<and> q j) js') \<le> length (filter (\<lambda>j. \<not> is_terminal j \<and> q j) js)"
    for js js'
    by (induction rule: list_all2_induct) (use assms(2) job_evolves_terminal in auto)
  with assms(1) show ?thesis by (simp add: continues_def active_count_def)
qed

text \<open>
  The five effects of a critical section on (ledger in memory, file system): nothing; a change in
  memory only (the clock failed before the save); a change in memory with an attempt to save it;
  and, for a replacement, success and failure. Only a replacement may add a terminal intent.
\<close>

inductive effect ::
    "('v job_ledger \<Rightarrow> string + nat) \<Rightarrow> string \<Rightarrow> string \<Rightarrow> 'v job_ledger \<times> 'v job_ledger fs \<Rightarrow>
     'v job_ledger \<times> 'v job_ledger fs \<Rightarrow> bool"
  for enc dir p
where
  eff_none: "effect enc dir p (l, fs) (l, fs)"
| eff_memory: "continues l l' \<Longrightarrow> same_intents l l' \<Longrightarrow> effect enc dir p (l, fs) (l', fs)"
| eff_persist: "continues l l' \<Longrightarrow> same_intents l l' \<Longrightarrow> fresh_temp dir p io \<Longrightarrow>
    save_atomic enc (Some dir) p io l' fs = (fs', r) \<Longrightarrow> effect enc dir p (l, fs) (l', fs')"
| eff_replaced: "continues l l' \<Longrightarrow> fresh_temp dir p io \<Longrightarrow>
    save_atomic enc (Some dir) p io l' fs = (fs', Inr ()) \<Longrightarrow> effect enc dir p (l, fs) (l', fs')"
| eff_not_replaced: "continues l l' \<Longrightarrow> fresh_temp dir p io \<Longrightarrow>
    save_atomic enc (Some dir) p io l' fs = (fs', Inl e) \<Longrightarrow> effect enc dir p (l, fs) (l, fs')"

definition view :: "'v world \<Rightarrow> 'v job_ledger \<times> 'v job_ledger fs" where
  "view w = (ow_ledger (fst w), snd w)"

text \<open>The owner is initialised on path \<open>p\<close> in directory \<open>dir\<close>.\<close>

definition stored_at :: "string \<Rightarrow> string \<Rightarrow> 'v world \<Rightarrow> bool" where
  "stored_at dir p w \<longleftrightarrow> ow_ledger_path (fst w) = Some p \<and> path_parent p = Some dir"

definition acts :: "('v job_ledger \<Rightarrow> string + nat) \<Rightarrow> string \<Rightarrow> string \<Rightarrow> 'v world \<Rightarrow> 'v world \<Rightarrow> bool" where
  "acts enc dir p w w' \<longleftrightarrow> effect enc dir p (view w) (view w') \<and> stored_at dir p w'"

lemma acts_refl: "stored_at dir p w \<Longrightarrow> acts enc dir p w w"
  by (cases "view w") (simp add: acts_def eff_none)

lemma persist_acts:
  assumes "stored_at dir p (owner, fs)" "fresh_temp dir p io"
    and "continues (ow_ledger owner) l'" "same_intents (ow_ledger owner) l'"
    and "ow_ledger owner' = l'" "ow_ledger_path owner' = ow_ledger_path owner"
  shows "acts enc dir p (owner, fs) (fst (persist_owner enc io (owner', fs)))"
proof -
  obtain fs' r where s: "save_atomic enc (Some dir) p io l' fs = (fs', r)"
    by (cases "save_atomic enc (Some dir) p io l' fs")
  have "effect enc dir p (ow_ledger owner, fs) (l', fs')"
    using assms(3,4,2) s by (rule eff_persist)
  then show ?thesis
    using assms(1,5,6) s by (simp add: acts_def persist_owner_def stored_at_def view_def)
qed

lemma replace_acts:
  assumes "stored_at dir p w" "fresh_temp dir p io" "continues (ow_ledger (fst w)) l'"
  shows "acts enc dir p w (fst (replace_ledger_atomically enc io l' w))"
proof -
  obtain owner fs where w: "w = (owner, fs)" by (cases w)
  obtain fs' r where s: "save_atomic enc (Some dir) p io l' fs = (fs', r)"
    by (cases "save_atomic enc (Some dir) p io l' fs")
  show ?thesis
  proof (cases r)
    case (Inl e)
    then have "effect enc dir p (ow_ledger owner, fs) (ow_ledger owner, fs')"
      using eff_not_replaced [of "ow_ledger owner" l' dir p io enc fs fs' e] assms s w by simp
    then show ?thesis
      using assms(1) s Inl w by (simp add: acts_def replace_ledger_atomically_def stored_at_def view_def)
  next
    case (Inr u)
    then have "effect enc dir p (ow_ledger owner, fs) (l', fs')"
      using eff_replaced [of "ow_ledger owner" l' dir p io enc fs fs'] assms s w by simp
    then show ?thesis
      using assms(1) s Inr w by (simp add: acts_def replace_ledger_atomically_def stored_at_def view_def)
  qed
qed

lemma memory_acts:
  assumes "stored_at dir p (owner, fs)" "continues (ow_ledger owner) l'" "same_intents (ow_ledger owner) l'"
    and "ow_ledger owner' = l'" "ow_ledger_path owner' = ow_ledger_path owner"
  shows "acts enc dir p (owner, fs) (owner', fs)"
  using assms by (simp add: acts_def view_def stored_at_def eff_memory)

section \<open>Each operation acts\<close>

lemma guarded_write_acts:
  assumes "stored_at dir p w" "fresh_temp dir p io"
    and pre: "\<And>j. \<not> is_terminal j \<Longrightarrow> job_evolves j (pre j)"
      "\<And>j. terminal_intent (pre j) = terminal_intent j"
    and post: "\<And>now j. \<not> is_terminal j \<Longrightarrow> job_evolves j (post now (pre j))"
      "\<And>now j. terminal_intent (post now (pre j)) = terminal_intent j"
  shows "acts enc dir p w (fst (guarded_write enc io clk job pre post w))"
proof -
  obtain owner fs where w: "w = (owner, fs)" by (cases w)
  let ?l = "ow_ledger owner"
  have keep: "acts enc dir p w (fst (persist_owner enc io w))"
    unfolding w by (rule persist_acts) (use assms(1,2) w in \<open>simp_all add: same_intents_def\<close>)
  show ?thesis
  proof (cases "find_job ?l (job_id job)")
    case None
    with keep show ?thesis by (simp add: guarded_write_def w)
  next
    case (Some current)
    show ?thesis
    proof (cases "fenced current (attempt_id job) (job_generation job)")
      case False
      with Some keep show ?thesis by (simp add: guarded_write_def w)
    next
      case True
      then have nt: "\<not> is_terminal current" by (rule fenced_not_terminal)
      have c1: "continues ?l (modify_job (job_id job) pre ?l)"
        using Some nt pre(1) by (intro modify_job_continues) simp
      have c2: "continues ?l (modify_job (job_id job) (\<lambda>j. post now (pre j)) ?l)" for now
        using Some nt post(1) by (intro modify_job_continues) simp
      have s1: "same_intents ?l (modify_job (job_id job) pre ?l)"
        using pre(2) by (rule modify_job_same_intents)
      have s2: "same_intents ?l (modify_job (job_id job) (\<lambda>j. post now (pre j)) ?l)" for now
        using post(2) by (rule modify_job_same_intents)
      show ?thesis
      proof (cases clk)
        case (Inl e)
        with Some True have "fst (guarded_write enc io clk job pre post w) =
            (owner\<lparr>ow_ledger := modify_job (job_id job) pre ?l\<rparr>, fs)"
          by (simp add: guarded_write_def w)
        with c1 s1 assms(1) w show ?thesis by (simp add: memory_acts)
      next
        case (Inr now)
        with Some True have "fst (guarded_write enc io clk job pre post w) =
            fst (persist_owner enc io
              (owner\<lparr>ow_ledger := modify_job (job_id job) (\<lambda>j. post now (pre j)) ?l\<rparr>, fs))"
          by (simp add: guarded_write_def w)
        moreover have "acts enc dir p (owner, fs) (fst (persist_owner enc io
              (owner\<lparr>ow_ledger := modify_job (job_id job) (\<lambda>j. post now (pre j)) ?l\<rparr>, fs)))"
          by (rule persist_acts [OF _ assms(2) c2 s2]) (use assms(1) w in simp_all)
        ultimately show ?thesis by (simp add: w)
      qed
    qed
  qed
qed

lemma adopt_start_response_acts:
  "stored_at dir p w \<Longrightarrow> fresh_temp dir p io \<Longrightarrow>
   acts enc dir p w (fst (adopt_start_response enc io clk job started w))"
  unfolding adopt_start_response_def
  by (rule guarded_write_acts) (auto intro!: job_evolvesI simp: is_terminal_def)

lemma set_job_reason_acts:
  "stored_at dir p w \<Longrightarrow> fresh_temp dir p io \<Longrightarrow>
   acts enc dir p w (fst (set_job_reason enc io clk job why w))"
  unfolding set_job_reason_def
  by (rule guarded_write_acts) (auto intro!: job_evolvesI simp: is_terminal_def)

lemma mark_output_snapshot_incomplete_acts:
  "stored_at dir p w \<Longrightarrow> fresh_temp dir p io \<Longrightarrow>
   acts enc dir p w (fst (mark_output_snapshot_incomplete enc io clk job why w))"
  unfolding mark_output_snapshot_incomplete_def
  by (rule guarded_write_acts) (auto intro!: job_evolvesI simp: is_terminal_def)

lemma apply_output_snapshot_acts:
  "stored_at dir p w \<Longrightarrow> fresh_temp dir p io \<Longrightarrow>
   acts enc dir p w (fst (apply_output_snapshot enc io clk job r w))"
  unfolding apply_output_snapshot_def
  by (rule guarded_write_acts) (auto intro!: job_evolvesI simp: is_terminal_def)

lemma request_terminal_intent_continues:
  "continues l (fst (request_terminal_intent l jid att gen req now))"
  by (rule request_terminal_intent_cases [of l jid att gen req now])
    (auto intro!: modify_job_continues job_evolvesI dest: fenced_not_terminal simp: is_terminal_def)

lemma ledger_claim_terminal_intent_continues:
  "continues l (fst (ledger_claim_terminal_intent l jid att gen intent now))"
  by (rule ledger_claim_terminal_intent_cases [of l jid att gen intent now])
    (auto intro!: modify_job_continues job_evolvesI dest: fenced_not_terminal simp: settled_def)

lemma apply_process_observation_continues:
  "continues l (fst (apply_process_observation l jid att gen obs out now))"
  by (rule apply_process_observation_cases [of l jid att gen obs out now])
    (auto intro!: modify_job_continues observe_evolves dest: fenced_not_terminal)

lemma stopping_continues:
  "continues l (modify_job jid (\<lambda>j. if is_terminal j then j else j\<lparr>job_st := Stopping\<rparr>) l)"
  by (rule modify_job_continues) (auto intro!: job_evolvesI simp: is_terminal_def)

text \<open>A replacement that continues the ledger, with its result turned into something else.\<close>

lemma replace_result_acts:
  assumes "stored_at dir p w" "fresh_temp dir p io" "continues (ow_ledger (fst w)) l'"
  shows "acts enc dir p w (fst (case replace_ledger_atomically enc io l' w of
      (w', Inl e) \<Rightarrow> (w', f e) | (w', Inr u) \<Rightarrow> (w', g)))"
  using replace_acts [OF assms, of enc] by (auto split: prod.splits sum.splits)

lemma persist_terminal_intent_acts:
  assumes "stored_at dir p w" "fresh_temp dir p io"
  shows "acts enc dir p w (fst (persist_terminal_intent enc io clk job req w))"
proof (cases clk)
  case (Inl e)
  with acts_refl [OF assms(1)] show ?thesis by (simp add: persist_terminal_intent_def Let_def)
next
  case (Inr now)
  let ?l = "ow_ledger (fst w)"
  obtain next_l intent where r:
      "request_terminal_intent ?l (job_id job) (attempt_id job) (job_generation job) req now = (next_l, intent)"
    by (cases "request_terminal_intent ?l (job_id job) (attempt_id job) (job_generation job) req now")
  have c: "continues ?l (modify_job (job_id job) (\<lambda>j. if is_terminal j then j else j\<lparr>job_st := Stopping\<rparr>) next_l)"
    using continues_trans [OF request_terminal_intent_continues stopping_continues]
    by (metis r fst_conv)
  show ?thesis
    using replace_result_acts [OF assms c, of enc Inl "Inr intent"] acts_refl [OF assms(1)]
    by (simp add: persist_terminal_intent_def Let_def Inr r)
qed

lemma ensure_deadline_intent_acts:
  assumes "stored_at dir p w" "fresh_temp dir p io"
  shows "acts enc dir p w (fst (ensure_deadline_intent enc io clk1 clk2 clk3 uuid job w))"
proof -
  have "acts enc dir p w (fst (case persist_terminal_intent enc io clk3 job req w of
      (w', Inl e) \<Rightarrow> (w', Inl e) | (w', Inr i) \<Rightarrow> (w', h w')))" for req and h :: "_ \<Rightarrow> string + job_record"
    using persist_terminal_intent_acts [OF assms, of enc clk3 job req]
    by (auto split: prod.splits sum.splits)
  with acts_refl [OF assms(1)] show ?thesis
    by (auto simp: ensure_deadline_intent_def split: sum.split)
qed

lemma inspect_apply_acts:
  assumes "stored_at dir p w" "fresh_temp dir p io"
  shows "acts enc dir p w (fst (inspect_apply enc io clk1 clk2 clk3 uuid job r w))"
proof -
  let ?l = "ow_ledger (fst w)"
  obtain obs ri where f: "inspect_lease_facts (ir_state r) (ir_exit_code r) (ir_background_lease_lost r)
      (terminal_intent job = None) = (obs, ri)" by (cases "inspect_lease_facts (ir_state r) (ir_exit_code r)
        (ir_background_lease_lost r) (terminal_intent job = None)")
  let ?out = "\<lparr>pf_stdout_bytes = ir_stdout_bytes r, pf_stderr_bytes = ir_stderr_bytes r,
     pf_stdout_truncated = ir_stdout_truncated r, pf_stderr_truncated = ir_stderr_truncated r\<rparr>"
  note refl = acts_refl [OF assms(1), of enc]
  show ?thesis
  proof (cases clk1)
    case (Inl e)
    with refl show ?thesis by (simp add: inspect_apply_def f)
  next
    case (Inr now1)
    obtain l1 b where a: "apply_process_observation ?l (job_id job) (attempt_id job) (job_generation job)
        obs ?out now1 = (l1, b)"
      by (cases "apply_process_observation ?l (job_id job) (attempt_id job) (job_generation job) obs ?out now1")
    have c1: "continues ?l l1" using apply_process_observation_continues by (metis a fst_conv)
    have c2: "continues ?l (modify_job (job_id job)
        (\<lambda>j. if is_terminal j then j else j\<lparr>job_st := Stopping\<rparr>)
        (fst (request_terminal_intent l1 (job_id job) (attempt_id job) (job_generation job) req now)))" for req now
      by (rule continues_trans [OF continues_trans [OF c1 request_terminal_intent_continues] stopping_continues])
    show ?thesis
      using refl replace_result_acts [OF assms c1] replace_result_acts [OF assms c2]
      by (auto simp: inspect_apply_def f Inr a Let_def split: bool.split sum.split)
  qed
qed

lemma claim_terminal_intent_acts:
  assumes "stored_at dir p w" "fresh_temp dir p io"
  shows "acts enc dir p w (fst (claim_terminal_intent enc io clk job intent code w))"
proof -
  let ?l = "ow_ledger (fst w)"
  show ?thesis
  proof (cases clk)
    case (Inl e)
    with acts_refl [OF assms(1)] show ?thesis by (simp add: claim_terminal_intent_def Let_def)
  next
    case (Inr now)
    show ?thesis
    proof (cases rule: ledger_claim_terminal_intent_cases
        [of ?l "job_id job" "attempt_id job" "job_generation job" intent now])
      case 1
      with Inr acts_refl [OF assms(1)] show ?thesis by (simp add: claim_terminal_intent_def Let_def)
    next
      case (2 j)
      define f :: "job_record \<Rightarrow> job_record" where "f = (\<lambda>j. j\<lparr>job_st := target_job_state (ti_target intent),
            updated_at_ms := now, job_reason := Some (ti_reason intent)\<rparr>)"
      have l1: "ledger_claim_terminal_intent ?l (job_id job) (attempt_id job) (job_generation job) intent now
          = (modify_job (job_id job) f ?l, Some (f j))"
        using 2(4) by (simp add: f_def)
      have "continues ?l (modify_job (job_id job) (finish_claim code sr intent (f j))
          (modify_job (job_id job) f ?l))" (is "continues _ (modify_job _ ?h _)") for sr
      proof -
        have "modify_job (job_id job) ?h (modify_job (job_id job) f ?l) = modify_job (job_id job) (\<lambda>j. ?h (f j)) ?l"
          by (simp add: modify_job_def update_first_twice f_def)
        moreover have "continues ?l (modify_job (job_id job) (\<lambda>j. ?h (f j)) ?l)"
          using 2(1,3) fenced_not_terminal [OF 2(2)]
          by (intro modify_job_continues job_evolvesI) (auto simp: f_def finish_claim_def settled_def)
        ultimately show ?thesis by simp
      qed
      then show ?thesis
        using replace_acts [OF assms, of _ enc] by (simp add: claim_terminal_intent_def Let_def Inr l1)
    qed
  qed
qed

lemma frozen_bookkeeping [simp]:
  "frozen j (j\<lparr>mutation_operations := m\<rparr>)" "frozen j (j\<lparr>river_projection_path := r\<rparr>)"
  "frozen j (j\<lparr>artifact_sha256 := a, artifact_size_bytes := b\<rparr>)"
  by (simp_all add: frozen_def outcome_def)

lemma bookkeeping_evolves:
  "job_evolves j (j\<lparr>mutation_operations := m\<rparr>)" "job_evolves j (j\<lparr>river_projection_path := r\<rparr>)"
  "job_evolves j (j\<lparr>artifact_sha256 := a, artifact_size_bytes := b\<rparr>)"
  by (simp_all add: job_evolves_def is_terminal_def)

lemma bind_cancel_operation_acts:
  assumes "stored_at dir p w" "fresh_temp dir p io"
  shows "acts enc dir p w (fst (bind_cancel_operation enc io clk jid oid sha req w))"
proof -
  let ?l = "ow_ledger (fst w)"
  let ?bind = "\<lambda>j. j\<lparr>mutation_operations := mutation_operations j @
                      [\<lparr>mb_operation_id = oid, mb_action_sha256 = sha\<rparr>]\<rparr>"
  note refl = acts_refl [OF assms(1), of enc]
  have c1: "continues ?l (modify_job jid ?bind ?l)"
    by (intro modify_job_continues bookkeeping_evolves)
  have c2: "continues ?l (modify_job jid (\<lambda>j. (?bind j)\<lparr>terminal_intent := Some req, updated_at_ms := now\<rparr>) ?l)"
    if "find_job ?l jid = Some job" "\<not> is_terminal job" "terminal_intent job = None" for now job
    using that by (intro modify_job_continues job_evolvesI) (auto simp: is_terminal_def)
  show ?thesis
  proof (cases "ti_operation_id req = oid \<and> operation ?l oid sha = OpMissing")
    case False
    with refl show ?thesis
      by (auto simp: bind_cancel_operation_def Let_def split: operation_lookup.split)
  next
    case True
    show ?thesis
    proof (cases "find_job ?l jid")
      case None
      with True refl show ?thesis by (simp add: bind_cancel_operation_def Let_def)
    next
      case (Some job)
      show ?thesis
      proof (cases "\<not> is_terminal job \<and> terminal_intent job = None")
        case False
        with True Some replace_result_acts [OF assms c1] show ?thesis
          by (auto simp: bind_cancel_operation_def Let_def)
      next
        case ready: True
        show ?thesis
        proof (cases clk)
          case (Inl e)
          with True Some ready refl show ?thesis by (simp add: bind_cancel_operation_def Let_def)
        next
          case (Inr now)
          from ready have "\<not> is_terminal job" "terminal_intent job = None" by auto
          from replace_result_acts [OF assms c2 [OF Some this]] True Some ready Inr show ?thesis
            by (simp add: bind_cancel_operation_def Let_def)
        qed
      qed
    qed
  qed
qed

text \<open>A change of one job that keeps its intent, followed by \<open>persist_owner\<close>.\<close>

lemma persist_job_acts:
  assumes "stored_at dir p (owner, fs)" "fresh_temp dir p io"
    and "\<And>j. job_evolves j (f j)" "\<And>j. terminal_intent (f j) = terminal_intent j"
  shows "acts enc dir p (owner, fs)
    (fst (persist_owner enc io (owner\<lparr>ow_ledger := modify_job jid f (ow_ledger owner)\<rparr>, fs)))"
proof (rule persist_acts [OF assms(1,2)])
  show "continues (ow_ledger owner) (modify_job jid f (ow_ledger owner))"
    using assms(3) by (rule modify_job_continues)
  show "same_intents (ow_ledger owner) (modify_job jid f (ow_ledger owner))"
    using assms(4) by (rule modify_job_same_intents)
qed simp_all

lemma forget_river_projection_acts:
  assumes "stored_at dir p w" "fresh_temp dir p io"
  shows "acts enc dir p w (fst (forget_river_projection enc io job path w))"
proof -
  obtain owner fs where w: "w = (owner, fs)" by (cases w)
  show ?thesis
    using persist_job_acts [OF assms(1) [unfolded w] assms(2), of "\<lambda>j. j\<lparr>river_projection_path := None\<rparr>" enc "job_id job"]
      acts_refl [OF assms(1), of enc] bookkeeping_evolves
    by (auto simp: forget_river_projection_def w split: option.split)
qed

lemma cleanup_river_projection_acts:
  assumes "stored_at dir p w" "fresh_temp dir p io"
  shows "acts enc dir p w (fst (cleanup_river_projection enc io removal job w))"
  using forget_river_projection_acts [OF assms] acts_refl [OF assms(1)]
  by (auto simp: cleanup_river_projection_def split: option.split sum.split)

lemma record_artifact_digest_acts:
  assumes "stored_at dir p w" "fresh_temp dir p io"
  shows "acts enc dir p w (fst (record_artifact_digest enc io job sha bytes w))"
proof -
  obtain owner fs where w: "w = (owner, fs)" by (cases w)
  show ?thesis
    using persist_job_acts [OF assms(1) [unfolded w] assms(2),
        of "\<lambda>j. j\<lparr>artifact_sha256 := Some sha, artifact_size_bytes := Some bytes\<rparr>" enc "job_id job"]
      acts_refl [OF assms(1), of enc] bookkeeping_evolves
    by (auto simp: record_artifact_digest_def w split: option.split)
qed

lemma record_operation_same_jobs:
  "record_operation to_vec l oid sha v now = Inr l' \<Longrightarrow>
   jobs l' = jobs l \<and> runtime_generation l' = runtime_generation l"
  by (auto simp: record_operation_def Let_def split: sum.splits if_splits)

lemma cache_response_acts:
  assumes "stored_at dir p w" "fresh_temp dir p io"
  shows "acts enc dir p w (fst (cache_response to_vec enc io clk oid sha v w))"
proof -
  obtain owner fs where w: "w = (owner, fs)" by (cases w)
  note refl = acts_refl [OF assms(1), of enc]
  show ?thesis
  proof (cases clk)
    case (Inl e)
    with refl show ?thesis by (simp add: cache_response_def w)
  next
    case (Inr now)
    show ?thesis
    proof (cases "record_operation to_vec (ow_ledger owner) oid sha v now")
      case (Inl e)
      with refl \<open>clk = Inr now\<close> show ?thesis by (simp add: cache_response_def w)
    next
      case r: (Inr l)
      have "acts enc dir p (owner, fs) (fst (persist_owner enc io (owner\<lparr>ow_ledger := l\<rparr>, fs)))"
        using record_operation_same_jobs [OF r] assms w
        by (intro persist_acts continues_same_jobs) (simp_all add: same_intents_def)
      with Inr r show ?thesis by (simp add: cache_response_def w)
    qed
  qed
qed

lemma finish_provision_acts:
  assumes "stored_at dir p w" "fresh_temp dir p io"
  shows "acts enc dir p w (fst (finish_provision enc io gen runtime w))"
proof -
  obtain owner fs where w: "w = (owner, fs)" by (cases w)
  have "acts enc dir p (owner, fs) (fst (persist_owner enc io
     (owner\<lparr>ow_ledger := (ow_ledger owner)\<lparr>runtime_paths := Some (runtime_paths_of runtime)\<rparr>,
        ow_provisioned := Some runtime, ow_phase := PhaseReady,
        ow_availability_reason := ow_recovery_notice owner\<rparr>, fs)))"
    using assms w by (intro persist_acts continues_same_jobs) (simp_all add: same_intents_def)
  with acts_refl [OF assms(1), of enc] show ?thesis
    by (auto simp: finish_provision_def w Let_def split: prod.splits sum.splits)
qed

text \<open>Sections that leave ledger and disk alone.\<close>

lemma quiet_acts:
  assumes "stored_at dir p w" "view w' = view w" "ow_ledger_path (fst w') = ow_ledger_path (fst w)"
  shows "acts enc dir p w w'"
  using assms acts_refl [OF assms(1), of enc] by (simp add: acts_def stored_at_def)

lemma begin_provision_acts: "stored_at dir p w \<Longrightarrow> acts enc dir p w (fst (begin_provision w))"
  by (erule quiet_acts) (simp_all add: begin_provision_def view_def split: prod.split)

lemma set_phase_error_acts: "stored_at dir p w \<Longrightarrow> acts enc dir p w (set_phase_error e w)"
  by (erule quiet_acts) (simp_all add: set_phase_error_def view_def split: prod.split)

lemma workspace_check_due_acts: "stored_at dir p w \<Longrightarrow> acts enc dir p w (fst (workspace_check_due now w))"
  by (erule quiet_acts) (simp_all add: workspace_check_due_def view_def split: prod.split)

lemmas section_acts =
  adopt_start_response_acts set_job_reason_acts mark_output_snapshot_incomplete_acts
  apply_output_snapshot_acts persist_terminal_intent_acts ensure_deadline_intent_acts
  inspect_apply_acts claim_terminal_intent_acts bind_cancel_operation_acts
  forget_river_projection_acts cleanup_river_projection_acts record_artifact_digest_acts
  cache_response_acts finish_provision_acts

section \<open>Interleavings\<close>

text \<open>
  One critical section after another, in any order and with any arguments. \<open>used\<close> collects the job
  ids handed out; a new job's id is not among them, which is what \<open>Uuid::new_v4\<close> promises. The
  temporary name of a save differs from the ledger's own.
\<close>

inductive rt_step ::
    "('v \<Rightarrow> string + string) \<Rightarrow> ('v job_ledger \<Rightarrow> string + nat) \<Rightarrow> string \<Rightarrow> string \<Rightarrow>
     string set \<times> 'v world \<Rightarrow> string set \<times> 'v world \<Rightarrow> bool"
  for to_vec enc dir p
where
  st_run: "job = new_run_job ju au gen now oid sha q \<Longrightarrow> job_id job \<notin> used \<Longrightarrow> fresh_temp dir p io \<Longrightarrow>
     rt_step to_vec enc dir p (used, w)
       (insert (job_id job) used, fst (insert_run_job enc io (concurrent_limit_of b) job w))"
| st_adopt: "fresh_temp dir p io \<Longrightarrow>
     rt_step to_vec enc dir p (used, w) (used, fst (adopt_start_response enc io clk job started w))"
| st_reason: "fresh_temp dir p io \<Longrightarrow>
     rt_step to_vec enc dir p (used, w) (used, fst (set_job_reason enc io clk job why w))"
| st_incomplete: "fresh_temp dir p io \<Longrightarrow>
     rt_step to_vec enc dir p (used, w) (used, fst (mark_output_snapshot_incomplete enc io clk job why w))"
| st_snapshot: "fresh_temp dir p io \<Longrightarrow>
     rt_step to_vec enc dir p (used, w) (used, fst (apply_output_snapshot enc io clk job r w))"
| st_intent: "fresh_temp dir p io \<Longrightarrow>
     rt_step to_vec enc dir p (used, w) (used, fst (persist_terminal_intent enc io clk job req w))"
| st_deadline: "fresh_temp dir p io \<Longrightarrow>
     rt_step to_vec enc dir p (used, w) (used, fst (ensure_deadline_intent enc io c1 c2 c3 uuid job w))"
| st_inspect: "fresh_temp dir p io \<Longrightarrow>
     rt_step to_vec enc dir p (used, w) (used, fst (inspect_apply enc io c1 c2 c3 uuid job r w))"
| st_claim: "fresh_temp dir p io \<Longrightarrow>
     rt_step to_vec enc dir p (used, w) (used, fst (claim_terminal_intent enc io clk job intent code w))"
| st_bind: "fresh_temp dir p io \<Longrightarrow>
     rt_step to_vec enc dir p (used, w) (used, fst (bind_cancel_operation enc io clk jid oid sha req w))"
| st_cleanup: "fresh_temp dir p io \<Longrightarrow>
     rt_step to_vec enc dir p (used, w) (used, fst (cleanup_river_projection enc io removal job w))"
| st_artifact: "fresh_temp dir p io \<Longrightarrow>
     rt_step to_vec enc dir p (used, w) (used, fst (record_artifact_digest enc io job sha bytes w))"
| st_cache: "fresh_temp dir p io \<Longrightarrow>
     rt_step to_vec enc dir p (used, w) (used, fst (cache_response to_vec enc io clk oid sha v w))"
| st_provision: "rt_step to_vec enc dir p (used, w) (used, fst (begin_provision w))"
| st_provisioned: "fresh_temp dir p io \<Longrightarrow>
     rt_step to_vec enc dir p (used, w) (used, fst (finish_provision enc io gen runtime w))"
| st_phase_error: "rt_step to_vec enc dir p (used, w) (used, set_phase_error e w)"
| st_workspace: "rt_step to_vec enc dir p (used, w) (used, fst (workspace_check_due now w))"

text \<open>A step either admits a new job or is one of the five effects.\<close>

lemma rt_step_cases:
  assumes "rt_step to_vec enc dir p (used, w) (used', w')" "stored_at dir p w"
  obtains (acts) "used' = used" "acts enc dir p w w'"
  | (run) job io b where "job_id job \<notin> used" "job_st job = Starting" "terminal_intent job = None"
      "fresh_temp dir p io" "used' = insert (job_id job) used"
      "w' = fst (insert_run_job enc io (concurrent_limit_of b) job w)"
  using assms(1)
proof (cases rule: rt_step.cases)
  case (st_run job ju au gen now oid sha q io b)
  then show ?thesis by (intro run [of job io b]) (simp_all add: new_run_job_def)
qed (rule acts, simp, simp add: section_acts begin_provision_acts set_phase_error_acts
    workspace_check_due_acts assms(2))+

section \<open>Invariant\<close>

definition rt_inv :: "string set \<Rightarrow> 'v job_ledger \<Rightarrow> bool" where
  "rt_inv used l \<longleftrightarrow>
     distinct (map job_id (jobs l)) \<and> job_id ` set (jobs l) \<subseteq> used \<and>
     list_all (\<lambda>j. is_terminal j \<longrightarrow> settled j) (jobs l) \<and>
     active_count (\<lambda>_. True) l \<le> 4 \<and> (\<forall>s. active_count (\<lambda>j. job_session j = Some s) l \<le> 2) \<and>
     length (jobs l) \<le> MAX_RETAINED_JOBS"

lemma continues_settled:
  assumes "continues l l'" "list_all (\<lambda>j. is_terminal j \<longrightarrow> settled j) (jobs l)"
  shows "list_all (\<lambda>j. is_terminal j \<longrightarrow> settled j) (jobs l')"
proof -
  have s: "is_terminal j' \<longrightarrow> settled j'" if "job_evolves j j'" "is_terminal j \<longrightarrow> settled j" for j j'
    using that by (cases "is_terminal j") (auto simp: job_evolves_def frozen_settled)
  have "list_all2 job_evolves js js' \<Longrightarrow> list_all (\<lambda>j. is_terminal j \<longrightarrow> settled j) js \<Longrightarrow>
      list_all (\<lambda>j. is_terminal j \<longrightarrow> settled j) js'" for js js'
    by (induction rule: list_all2_induct) (use s in auto)
  with assms show ?thesis unfolding continues_def by blast
qed

lemma continues_rt_inv:
  assumes "continues l l'" "rt_inv used l"
  shows "rt_inv used l'"
proof -
  have "active_count (\<lambda>_. True) l' \<le> active_count (\<lambda>_. True) l"
    by (rule continues_active_count [OF assms(1)]) simp
  moreover have "active_count (\<lambda>j. job_session j = Some s) l' \<le> active_count (\<lambda>j. job_session j = Some s) l" for s
    by (rule continues_active_count [OF assms(1)]) (simp add: job_evolves_def)
  moreover have "job_id ` set (jobs l') = job_id ` set (jobs l)"
    using continues_ids [OF assms(1)] by (metis list.set_map)
  ultimately show ?thesis
    using assms(2) continues_ids [OF assms(1)] continues_length [OF assms(1)]
      continues_settled [OF assms(1)] order_trans
    unfolding rt_inv_def by (metis (no_types, lifting))
qed

lemma acts_continues:
  assumes "acts enc dir p w w'"
  shows "continues (ow_ledger (fst w)) (ow_ledger (fst w'))"
proof -
  have "continues (fst v) (fst v')" if "effect enc dir p v v'" for v v'
    using that by cases simp_all
  from this [of "view w" "view w'"] assms show ?thesis by (simp add: acts_def view_def)
qed

text \<open>What an admission does to the ledger in memory.\<close>

inductive admits :: "job_record \<Rightarrow> nat \<Rightarrow> 'v job_ledger \<Rightarrow> 'v job_ledger \<Rightarrow> bool" for job limit l where
  ad_rejected: "admits job limit l l"
| ad_full: "subseq (jobs l') (jobs l) \<Longrightarrow> runtime_generation l' = runtime_generation l \<Longrightarrow>
    length (jobs l') \<le> length (jobs l) \<Longrightarrow> admits job limit l l'"
| ad_admitted: "jobs l' = kept @ [job] \<Longrightarrow> subseq kept (jobs l) \<Longrightarrow>
    runtime_generation l' = runtime_generation l \<Longrightarrow> length (jobs l') \<le> MAX_RETAINED_JOBS \<Longrightarrow>
    active_count (\<lambda>_. True) l < limit \<Longrightarrow>
    (\<And>s. job_session job = Some s \<Longrightarrow> active_count (\<lambda>j. job_session j = Some s) l < min limit 2) \<Longrightarrow>
    admits job limit l l'"

lemma insert_job_generation: "runtime_generation (fst (insert_job l job)) = runtime_generation l"
  by (simp add: insert_job_def split: sum.split prod.split)

lemma admit_run_job_admits:
  "admits job limit (ow_ledger owner) (ow_ledger (fst (admit_run_job limit job owner)))"
proof -
  let ?l = "ow_ledger owner"
  let ?rejected = "runtime_generation ?l \<noteq> job_generation job \<or>
    length (filter (\<lambda>j. \<not> is_terminal j) (jobs ?l)) \<ge> limit \<or>
    (case job_session job of None \<Rightarrow> False
     | Some session \<Rightarrow> session_concurrency_reached (jobs ?l) session (min limit 2))"
  show ?thesis
  proof (cases ?rejected)
    case True
    then have "fst (admit_run_job limit job owner) = owner" by (auto simp: admit_run_job_def Let_def)
    then show ?thesis by (simp add: ad_rejected)
  next
    case False
    obtain l' r where i: "insert_job ?l job = (l', r)" by (cases "insert_job ?l job")
    have a: "ow_ledger (fst (admit_run_job limit job owner)) = l'"
      using False by (simp add: admit_run_job_def Let_def i)
    have g: "runtime_generation l' = runtime_generation ?l"
      using insert_job_generation [of ?l job] i by simp
    show ?thesis
    proof (cases r)
      case (Inl e)
      with i insert_job_jobs [of ?l job] have "subseq (jobs l') (jobs ?l)" by simp
      with a g show ?thesis by (simp add: ad_full list_emb_length)
    next
      case (Inr ev)
      with i insert_job_jobs [of ?l job] obtain kept where k: "jobs l' = kept @ [job]" "subseq kept (jobs ?l)"
        by auto
      have "length (jobs l') \<le> MAX_RETAINED_JOBS"
        using insert_job_spec [of ?l job] i Inr by simp
      moreover have "active_count (\<lambda>_. True) ?l < limit"
        using False by (simp add: active_count_def)
      moreover have "active_count (\<lambda>j. job_session j = Some s) ?l < min limit 2" if "job_session job = Some s" for s
        using False that by (simp add: active_count_def session_concurrency_reached_def not_le)
      ultimately show ?thesis unfolding a using k g by (intro ad_admitted)
    qed
  qed
qed

lemma insert_run_job_ledger:
  "ow_ledger (fst (fst (insert_run_job enc io limit job (owner, fs)))) =
   ow_ledger (fst (admit_run_job limit job owner))"
  by (simp add: insert_run_job_def persist_owner_def split: prod.split sum.split option.split)

lemma concurrent_limit_le: "concurrent_limit_of b \<le> 4"
  by (simp add: concurrent_limit_of_def)

lemma subseq_filter_length: "subseq xs ys \<Longrightarrow> length (filter q xs) \<le> length (filter q ys)"
  by (rule list_emb_length [OF subseq_filter])

lemma subseq_active_count:
  "subseq (jobs l') (jobs l) \<Longrightarrow> active_count q l' \<le> active_count q l"
  unfolding active_count_def by (rule subseq_filter_length)

lemma subseq_distinct: "subseq xs ys \<Longrightarrow> distinct ys \<Longrightarrow> distinct xs"
  by (induction rule: list_emb.induct) (auto dest: subseq_set)

lemma subseq_rt_inv:
  assumes "subseq (jobs l') (jobs l)" "rt_inv used l"
  shows "rt_inv used l'"
proof -
  have sub: "set (jobs l') \<subseteq> set (jobs l)" by (rule subseq_set [OF assms(1)])
  have "job_id ` set (jobs l') \<subseteq> used" using sub assms(2) by (auto simp: rt_inv_def)
  moreover have "list_all (\<lambda>j. is_terminal j \<longrightarrow> settled j) (jobs l')"
    using sub assms(2) by (auto simp: rt_inv_def list_all_iff)
  moreover have "distinct (map job_id (jobs l'))"
    using subseq_distinct [OF subseq_map [OF assms(1), of job_id]] assms(2) by (simp add: rt_inv_def)
  moreover have "active_count q l' \<le> n" if "active_count q l \<le> n" for q n
    using subseq_active_count [OF assms(1)] that order_trans by blast
  ultimately show ?thesis
    using assms(2) list_emb_length [OF assms(1)] by (simp add: rt_inv_def)
qed

lemma active_count_append:
  "jobs l' = kept @ [job] \<Longrightarrow> active_count q l' =
     active_count q (l\<lparr>jobs := kept\<rparr>) + (if \<not> is_terminal job \<and> q job then 1 else 0)"
  by (simp add: active_count_def)

lemma admits_rt_inv:
  assumes "admits job limit l l'" "rt_inv used l" "job_id job \<notin> used" "limit \<le> 4"
    and "\<not> is_terminal job"
  shows "rt_inv (insert (job_id job) used) l'"
  using assms(1)
proof cases
  case ad_rejected
  with assms(2) show ?thesis by (auto simp: rt_inv_def)
next
  case ad_full
  then have "rt_inv used l'" using assms(2) subseq_rt_inv by blast
  then show ?thesis by (auto simp: rt_inv_def)
next
  case (ad_admitted kept)
  let ?k = "l\<lparr>jobs := kept\<rparr>"
  have k: "rt_inv used ?k" by (rule subseq_rt_inv [OF _ assms(2)]) (simp add: ad_admitted(2))
  have le: "active_count q ?k \<le> active_count q l" for q
    by (rule subseq_active_count) (simp add: ad_admitted(2))
  have total: "active_count (\<lambda>_. True) l' \<le> 4"
    using active_count_append [OF ad_admitted(1), of "\<lambda>_. True" l] le [of "\<lambda>_. True"] ad_admitted(5) assms(4,5)
    by simp
  have session: "active_count (\<lambda>j. job_session j = Some s) l' \<le> 2" for s
  proof (cases "job_session job = Some s")
    case True
    with active_count_append [OF ad_admitted(1), of "\<lambda>j. job_session j = Some s" l]
      le [of "\<lambda>j. job_session j = Some s"] ad_admitted(6) [OF True] assms(5)
    show ?thesis by simp
  next
    case False
    with active_count_append [OF ad_admitted(1), of "\<lambda>j. job_session j = Some s" l] k
    show ?thesis by (simp add: rt_inv_def)
  qed
  have "job_id ` set kept \<subseteq> used" "distinct (map job_id kept)"
    using k by (simp_all add: rt_inv_def)
  with assms(3) have d: "distinct (map job_id (jobs l'))" "job_id ` set (jobs l') \<subseteq> insert (job_id job) used"
    by (auto simp: ad_admitted(1))
  have "list_all (\<lambda>j. is_terminal j \<longrightarrow> settled j) (jobs l')"
    using k assms(5) by (simp add: rt_inv_def ad_admitted(1))
  with total session d ad_admitted(4) show ?thesis by (simp add: rt_inv_def)
qed

lemma admits_evolves:
  assumes "admits job limit l l'" "job_id job \<notin> used"
  shows "ledger_evolves used l l'"
proof -
  have "runtime_generation l' = runtime_generation l" "set (jobs l') \<subseteq> insert job (set (jobs l))"
    using assms(1) by (cases; auto dest: subseq_set)+
  with assms(2) show ?thesis
    unfolding ledger_evolves_def using job_evolves_refl by (metis insertE subsetD)
qed

lemma admit_run_job_path: "ow_ledger_path (fst (admit_run_job limit job owner)) = ow_ledger_path owner"
  by (simp add: admit_run_job_def Let_def split: prod.split)

lemma insert_run_job_stored:
  "stored_at dir p w \<Longrightarrow> stored_at dir p (fst (insert_run_job enc io limit job w))"
proof -
  assume s: "stored_at dir p w"
  obtain owner fs where w: "w = (owner, fs)" by (cases w)
  from s admit_run_job_path [of limit job owner] show ?thesis
    by (auto simp: w insert_run_job_def persist_owner_def stored_at_def
        split: prod.split sum.split option.split)
qed

lemma rt_step_preserves:
  assumes "rt_step to_vec enc dir p (used, w) (used', w')" "stored_at dir p w"
    and "rt_inv used (ow_ledger (fst w))"
  shows "stored_at dir p w' \<and> used \<subseteq> used' \<and> rt_inv used' (ow_ledger (fst w')) \<and>
    ledger_evolves used (ow_ledger (fst w)) (ow_ledger (fst w'))"
  using assms(1,2)
proof (cases rule: rt_step_cases)
  case acts
  then have "continues (ow_ledger (fst w)) (ow_ledger (fst w'))" by (blast dest: acts_continues)
  with acts assms(3) show ?thesis
    using continues_rt_inv continues_ledger_evolves by (metis acts_def order_refl)
next
  case (run job io b)
  obtain owner fs where w: "w = (owner, fs)" by (cases w)
  have a: "admits job (concurrent_limit_of b) (ow_ledger owner) (ow_ledger (fst w'))"
    using admit_run_job_admits insert_run_job_ledger [of enc io _ job owner fs] by (simp add: run(6) w)
  have "\<not> is_terminal job" using run(2) by (simp add: is_terminal_def)
  then have "rt_inv (insert (job_id job) used) (ow_ledger (fst w'))"
    using admits_rt_inv [OF a _ run(1) concurrent_limit_le] assms(3) w by simp
  moreover have "ledger_evolves used (ow_ledger owner) (ow_ledger (fst w'))"
    by (rule admits_evolves [OF a run(1)])
  moreover have "stored_at dir p w'"
    using insert_run_job_stored [OF assms(2), of enc io "concurrent_limit_of b" job] run(6) by simp
  ultimately show ?thesis using run(5) w by auto
qed

lemma rt_steps_preserve:
  assumes "(rt_step to_vec enc dir p)\<^sup>*\<^sup>* (used, w) (used', w')" "stored_at dir p w"
    and "rt_inv used (ow_ledger (fst w))"
  shows "stored_at dir p w' \<and> used \<subseteq> used' \<and> rt_inv used' (ow_ledger (fst w')) \<and>
    ledger_evolves used (ow_ledger (fst w)) (ow_ledger (fst w'))"
  using assms(1)
proof (induction rule: rtranclp_induct2)
  case refl
  with assms(2,3) show ?case by simp
next
  case (step used1 w1 used2 w2)
  with rt_step_preserves [OF step.hyps(2)] show ?case
    using ledger_evolves_trans by (metis (no_types, lifting) order_trans)
qed

section \<open>Properties of every interleaving\<close>

text \<open>What a restart leaves: distinct ids, everything terminal and settled, within the bound.\<close>

definition restart_ok :: "'v job_ledger \<Rightarrow> bool" where
  "restart_ok l \<longleftrightarrow> distinct (map job_id (jobs l)) \<and>
     list_all (\<lambda>j. is_terminal j \<and> settled j) (jobs l) \<and> length (jobs l) \<le> MAX_RETAINED_JOBS"

lemma restart_rt_inv:
  assumes "restart_ok l" "job_id ` set (jobs l) \<subseteq> used"
  shows "rt_inv used l"
proof -
  have "active_count q l = 0" for q
    using assms(1) by (auto simp: restart_ok_def active_count_def list_all_iff filter_empty_conv)
  with assms show ?thesis by (simp add: rt_inv_def restart_ok_def list_all_iff)
qed

lemma rt_steps_evolves:
  assumes "(rt_step to_vec enc dir p)\<^sup>*\<^sup>* (used, w) (used', w')"
    and "stored_at dir p w" "rt_inv used (ow_ledger (fst w))"
    and "job_snapshot jid w = Some j" "job_snapshot jid w' = Some j'"
  shows "job_evolves j j' \<and> (is_terminal j' \<longrightarrow> settled j')"
proof -
  have pres: "rt_inv used' (ow_ledger (fst w'))"
      "ledger_evolves used (ow_ledger (fst w)) (ow_ledger (fst w'))"
    using rt_steps_preserve [OF assms(1-3)] by simp_all
  have j: "j \<in> set (jobs (ow_ledger (fst w)))" "job_id j = jid"
    and j': "j' \<in> set (jobs (ow_ledger (fst w')))" "job_id j' = jid"
    using assms(4,5) find_job_SomeD unfolding job_snapshot_def by blast+
  have "job_id j' \<in> used" using j j' assms(3) by (auto simp: rt_inv_def)
  then obtain j0 where j0: "j0 \<in> set (jobs (ow_ledger (fst w)))" "job_evolves j0 j'"
    using pres(2) j'(1) unfolding ledger_evolves_def by blast
  have "j0 = j"
    using j0 j j'(2) assms(3) by (auto simp: rt_inv_def distinct_map job_evolves_def dest: inj_onD)
  with j0(2) pres(1) j'(1) show ?thesis by (simp add: rt_inv_def list_all_iff)
qed

text \<open>
  C5. A job's history, under every interleaving of the runtime's critical sections and whatever the
  bridge, the clock and the disk answer: its identity never changes; once it is terminal its state,
  reason, exit code and output facts never change again; the first terminal intent it gets stays
  its intent for good; and if it ends with an intent, it ends in exactly the state that intent asks
  for.
\<close>

theorem job_history:
  assumes "(rt_step to_vec enc dir p)\<^sup>*\<^sup>* (used, w) (used', w')"
    and "stored_at dir p w" "rt_inv used (ow_ledger (fst w))"
    and "job_snapshot jid w = Some j" "job_snapshot jid w' = Some j'"
  shows "attempt_id j' = attempt_id j \<and> job_generation j' = job_generation j \<and>
    job_session j' = job_session j \<and> deadline_at_ms j' = deadline_at_ms j \<and>
    (is_terminal j \<longrightarrow> outcome j' = outcome j) \<and>
    (\<forall>i. terminal_intent j = Some i \<longrightarrow> terminal_intent j' = Some i) \<and>
    (\<forall>i. is_terminal j' \<and> terminal_intent j' = Some i \<longrightarrow> job_st j' = target_job_state (ti_target i))"
  using rt_steps_evolves [OF assms] by (auto simp: job_evolves_def frozen_def settled_def)

text \<open>
  Admission control holds in every reachable state: after a restart, however runs, cancels,
  timeouts, observations and failed saves interleave, there are never more than four live jobs, never
  more than two live jobs of one chat session, and never more than 256 jobs in the ledger.
\<close>

theorem live_jobs_bounded:
  assumes "(rt_step to_vec enc dir p)\<^sup>*\<^sup>* (used, w) (used', w')"
    and "stored_at dir p w" "restart_ok (ow_ledger (fst w))"
    and "job_id ` set (jobs (ow_ledger (fst w))) \<subseteq> used"
  shows "length (filter (\<lambda>j. \<not> is_terminal j) (jobs (ow_ledger (fst w')))) \<le> 4 \<and>
    (\<forall>s. length (filter (\<lambda>j. \<not> is_terminal j \<and> job_session j = Some s) (jobs (ow_ledger (fst w')))) \<le> 2) \<and>
    length (jobs (ow_ledger (fst w'))) \<le> MAX_RETAINED_JOBS"
  using rt_steps_preserve [OF assms(1,2) restart_rt_inv [OF assms(3,4)]]
  by (simp add: rt_inv_def active_count_def)

section \<open>Intents are durable before they are visible\<close>

definition intents_covered :: "'v job_ledger \<Rightarrow> 'v job_ledger \<Rightarrow> bool" where
  "intents_covered m d \<longleftrightarrow>
     (\<forall>j \<in> set (jobs m). terminal_intent j \<noteq> None \<longrightarrow>
        (\<exists>j' \<in> set (jobs d). job_id j' = job_id j \<and> attempt_id j' = attempt_id j \<and>
           terminal_intent j' = terminal_intent j))"

lemma intents_covered_refl: "intents_covered m m"
  unfolding intents_covered_def by blast

lemma continues_intents_covered: "continues l l' \<Longrightarrow> intents_covered l l'"
  by (fastforce simp: continues_def intents_covered_def list_all2_conv_all_nth in_set_conv_nth
      job_evolves_def)

lemma continues_same_intents_covered:
  assumes "continues l l'" "same_intents l l'" "intents_covered l d"
  shows "intents_covered l' d"
  unfolding intents_covered_def
proof (intro ballI impI)
  fix j' assume "j' \<in> set (jobs l')" "terminal_intent j' \<noteq> None"
  then obtain n where n: "n < length (jobs l')" "j' = jobs l' ! n" by (auto simp: in_set_conv_nth)
  let ?j = "jobs l ! n"
  have len: "n < length (jobs l)" using n continues_length [OF assms(1)] by simp
  have "job_evolves ?j j'" using assms(1) n len by (simp add: continues_def list_all2_conv_all_nth)
  moreover have "terminal_intent j' = terminal_intent ?j"
    using assms(2) n len unfolding same_intents_def by (metis nth_map)
  ultimately show "\<exists>j'' \<in> set (jobs d). job_id j'' = job_id j' \<and> attempt_id j'' = attempt_id j' \<and>
      terminal_intent j'' = terminal_intent j'"
    using assms(3) len \<open>terminal_intent j' \<noteq> None\<close> unfolding intents_covered_def job_evolves_def
    by (metis nth_mem)
qed

abbreviation write_ahead :: "string \<Rightarrow> 'v job_ledger \<times> 'v job_ledger fs \<Rightarrow> bool" where
  "write_ahead p v \<equiv> ledger_file_store.covered p intents_covered (fst v) (snd v)"

lemma covered_weaken:
  "ledger_file_store.covered p W l fs \<Longrightarrow> (\<And>d. W l d \<Longrightarrow> W l' d) \<Longrightarrow> ledger_file_store.covered p W l' fs"
  by (auto simp: ledger_file_store.covered_def)

lemma effect_write_ahead:
  assumes "effect enc dir p v v'" "write_ahead p v"
  shows "write_ahead p v'"
  using assms(1)
proof cases
  case (eff_none l fs)
  with assms(2) show ?thesis by simp
next
  case (eff_memory l l' fs)
  with assms(2) show ?thesis
    using covered_weaken continues_same_intents_covered by (metis fst_conv snd_conv)
next
  case (eff_persist l l' io fs fs' r)
  then have "ledger_file_store.covered p intents_covered l' fs"
    using assms(2) covered_weaken continues_same_intents_covered by (metis fst_conv snd_conv)
  then have "ledger_file_store.covered p intents_covered l' fs'"
    by (rule ledger_file_store.covered_put_any [OF eff_persist(5) _ intents_covered_refl eff_persist(6)])
  with eff_persist(2) show ?thesis by simp
next
  case (eff_replaced l l' io fs fs')
  have "ledger_file_store.covered p intents_covered l' fs'"
    by (rule ledger_file_store.covered_put_done [OF eff_replaced(4) intents_covered_refl eff_replaced(5)])
  with eff_replaced(2) show ?thesis by simp
next
  case (eff_not_replaced l l' io fs fs' e)
  have "ledger_file_store.covered p intents_covered l fs'"
    by (rule ledger_file_store.covered_put_failed [where W = intents_covered, OF eff_not_replaced(4) _
        continues_intents_covered [OF eff_not_replaced(3)] eff_not_replaced(5)])
      (use assms(2) eff_not_replaced(1) in simp)
  with eff_not_replaced(2) show ?thesis by simp
qed

lemma insert_run_job_write_ahead:
  assumes "stored_at dir p w" "fresh_temp dir p io" "terminal_intent job = None"
    and "write_ahead p (view w)"
  shows "write_ahead p (view (fst (insert_run_job enc io limit job w)))"
proof -
  obtain owner fs where w: "w = (owner, fs)" by (cases w)
  obtain owner' r where a: "admit_run_job limit job owner = (owner', r)"
    by (cases "admit_run_job limit job owner")
  have path: "ow_ledger_path owner' = ow_ledger_path owner"
    using admit_run_job_path [of limit job owner] a by simp
  have "admits job limit (ow_ledger owner) (ow_ledger owner')"
    using admit_run_job_admits [of job limit owner] a by simp
  then have "set (jobs (ow_ledger owner')) \<subseteq> insert job (set (jobs (ow_ledger owner)))"
    by (cases; auto dest: subseq_set)+
  then have sub: "x \<in> set (jobs (ow_ledger owner))"
    if "x \<in> set (jobs (ow_ledger owner'))" "terminal_intent x \<noteq> None" for x
    using that assms(3) by auto
  have "intents_covered (ow_ledger owner') d" if "intents_covered (ow_ledger owner) d" for d
    using that sub by (simp add: intents_covered_def)
  then have cov: "ledger_file_store.covered p intents_covered (ow_ledger owner') fs"
    using covered_weaken assms(4) w unfolding view_def by (metis fst_conv snd_conv)
  show ?thesis
  proof (cases r)
    case (Inl e)
    with cov a show ?thesis by (simp add: insert_run_job_def w view_def)
  next
    case (Inr ev)
    obtain fs' q where s: "save_atomic enc (Some dir) p io (ow_ledger owner') fs = (fs', q)"
      by (cases "save_atomic enc (Some dir) p io (ow_ledger owner') fs")
    have "ledger_file_store.covered p intents_covered (ow_ledger owner') fs'"
      by (rule ledger_file_store.covered_put_any [OF assms(2) cov intents_covered_refl s])
    with Inr a s path assms(1) show ?thesis
      by (simp add: insert_run_job_def w view_def persist_owner_def stored_at_def split: sum.split)
  qed
qed

lemma rt_step_write_ahead:
  assumes "rt_step to_vec enc dir p (used, w) (used', w')" "stored_at dir p w" "write_ahead p (view w)"
  shows "write_ahead p (view w') \<and> stored_at dir p w'"
  using assms(1,2)
proof (cases rule: rt_step_cases)
  case acts
  with effect_write_ahead assms(3) show ?thesis unfolding acts_def by blast
next
  case (run job io b)
  then show ?thesis
    using insert_run_job_write_ahead [OF assms(2) run(4,3) assms(3)] insert_run_job_stored [OF assms(2)]
    by blast
qed

lemma rt_steps_write_ahead:
  assumes "(rt_step to_vec enc dir p)\<^sup>*\<^sup>* (used, w) (used', w')" "stored_at dir p w" "write_ahead p (view w)"
  shows "write_ahead p (view w') \<and> stored_at dir p w'"
  using assms(1)
proof (induction rule: rtranclp_induct2)
  case refl
  with assms(2,3) show ?case by simp
next
  case (step used1 w1 used2 w2)
  with rt_step_write_ahead [OF step.hyps(2)] show ?case by blast
qed

lemma intents_are_durable_lemma:
  assumes "(rt_step to_vec enc dir p)\<^sup>*\<^sup>* (used, w) (used', w')"
    and "stored_at dir p w" "snd w p = Some (Whole (ow_ledger (fst w)))"
    and "j \<in> set (jobs (ow_ledger (fst w')))" "terminal_intent j = Some i"
  shows "\<exists>d j'. snd w' p = Some (Whole d) \<and> j' \<in> set (jobs d) \<and> job_id j' = job_id j \<and>
    attempt_id j' = attempt_id j \<and> terminal_intent j' = Some i"
proof -
  have "write_ahead p (view w)"
    using assms(3) intents_covered_refl by (auto simp: view_def ledger_file_store.covered_def)
  then have "write_ahead p (view w')" using rt_steps_write_ahead [OF assms(1,2)] by blast
  then obtain d where "snd w' p = Some (Whole d)" "intents_covered (ow_ledger (fst w')) d"
    by (auto simp: view_def ledger_file_store.covered_def)
  with assms(4,5) show ?thesis unfolding intents_covered_def by force
qed

text \<open>
  C6. Write-ahead of terminal intents: in every state reachable from one whose ledger is on disk,
  the ledger file is a complete document, and every job that carries a terminal intent in memory
  carries the same intent, for the same attempt, in the file - although saves may fail at any point
  and other changes of the ledger are persisted after the fact. So no intent is ever acted on that
  a crash could forget.
\<close>

theorem intents_are_durable:
  assumes "(rt_step to_vec enc dir p)\<^sup>*\<^sup>* (used, w) (used', w')"
    and "stored_at dir p w" "snd w p = Some (Whole (ow_ledger (fst w)))"
    and "j \<in> set (jobs (ow_ledger (fst w')))" "terminal_intent j = Some i"
  shows "\<exists>d j'. snd w' p = Some (Whole d) \<and> j' \<in> set (jobs d) \<and> job_id j' = job_id j \<and>
    attempt_id j' = attempt_id j \<and> terminal_intent j' = Some i"
  by (rule intents_are_durable_lemma [OF assms])

text \<open>
  Start-up: when the runtime reports that it is initialised, the ledger it works with is the one
  that is durable at the configured path, no job of it is live, and its generation is new; and
  initialising again changes nothing.
\<close>

theorem ensure_initialized_establishes:
  assumes "ensure_initialized from_slice enc android (Inr cfg) clk probe rio io w = (w', Inr ())"
    and "\<not> ow_initialized (fst w)" "path_parent (path_join cfg LEDGER_RELATIVE_PATH) = Some dir"
    and "fresh_temp dir (path_join cfg LEDGER_RELATIVE_PATH) io"
  shows "stored_at dir (path_join cfg LEDGER_RELATIVE_PATH) w' \<and>
    snd w' (path_join cfg LEDGER_RELATIVE_PATH) = Some (Whole (ow_ledger (fst w'))) \<and>
    list_all is_terminal (jobs (ow_ledger (fst w'))) \<and>
    ensure_initialized from_slice enc android (Inr cfg) clk' probe' rio' io' w' = (w', Inr ())"
proof -
  obtain owner fs where w: "w = (owner, fs)" by (cases w)
  let ?p = "path_join cfg LEDGER_RELATIVE_PATH"
  obtain now where clk: "clk = Inr now"
    using assms(1,2) by (cases clk) (simp_all add: ensure_initialized_def w Let_def)
  obtain fs1 r where ld: "load_with_scoped_recovery from_slice enc (Some dir) ?p (probe ?p) rio now fs = (fs1, r)"
    by (cases "load_with_scoped_recovery from_slice enc (Some dir) ?p (probe ?p) rio now fs")
  obtain ledger notice where r: "r = Inr (ledger, notice)"
    using assms(1,2) ld by (cases r) (auto simp: ensure_initialized_def w Let_def clk assms(3))
  obtain fs2 q where sv: "save_atomic enc (Some dir) ?p io ledger fs1 = (fs2, q)"
    by (cases "save_atomic enc (Some dir) ?p io ledger fs1")
  have q: "q = Inr ()"
    using assms(1,2) ld r sv by (cases q) (auto simp: ensure_initialized_def w Let_def clk assms(3))
  have tm: "list_all is_terminal (jobs ledger)"
  proof (cases "load_and_reconcile from_slice (probe ?p) now")
    case (Inl e)
    with ld r have "jobs ledger = []"
      by (auto simp: load_with_scoped_recovery_def ledger_empty_def Let_def
          split: sum.splits if_splits option.splits prod.splits)
    then show ?thesis by simp
  next
    case (Inr l)
    with ld r have "ledger = l" by (simp add: load_with_scoped_recovery_def)
    with Inr show ?thesis
      by (auto simp: load_and_reconcile_def interrupt_job_def is_terminal_def list_all_iff
          split: sum.splits if_splits option.splits)
  qed
  have w': "w' = (owner\<lparr>ow_phase := (if android then PhaseUnprovisioned else PhaseUnavailable),
       ow_recovery_notice := notice, ow_ledger_path := Some ?p, ow_ledger := ledger,
       ow_provisioned := None, ow_last_workspace_check_ms := 0, ow_initialized := True\<rparr>, fs2)"
    using assms(1,2) ld r sv q by (simp add: ensure_initialized_def w Let_def clk assms(3))
  have "fs2 ?p = Some (Whole ledger)"
    using save_atomic_done [of enc dir ?p io ledger fs1 fs2 "()"] sv q assms(4) by simp
  with tm show ?thesis
    by (simp add: w' stored_at_def assms(3) ensure_initialized_def)
qed

section \<open>Concrete runs\<close>

definition demo_intent :: terminal_intent_record where
  "demo_intent = \<lparr>ti_target = TargetCancelled, ti_operation_id = ''op-2'', ti_requested_at_ms = 5,
     ti_reason = ''Cancelled; the owned process tree is gone.''\<rparr>"

definition demo_enc :: "nat job_ledger \<Rightarrow> string + nat" where
  "demo_enc l = Inr 5"

definition demo_world :: "job_record list \<Rightarrow> nat world" where
  "demo_world js =
     (let l = (ledger_empty 1)\<lparr>jobs := js\<rparr> in
      ((owner_new True)\<lparr>ow_initialized := True, ow_ledger_path := Some ''/d/l'', ow_ledger := l\<rparr>,
       Map.empty(''/d/l'' \<mapsto> Whole l)))"

definition stopping_job :: job_record where
  "stopping_job = (sample_job ''a'' Stopping)\<lparr>terminal_intent := Some demo_intent\<rparr>"

lemma demo_stored: "stored_at ''/d'' ''/d/l'' (demo_world js)"
  by (simp add: stored_at_def demo_world_def Let_def path_parent_def owner_new_def)

lemma demo_fresh: "fresh_temp ''/d'' ''/d/l'' (quiet_io ''u'')"
  by code_simp

lemma demo_on_disk: "snd (demo_world js) ''/d/l'' = Some (Whole (ow_ledger (fst (demo_world js))))"
  by (simp add: demo_world_def Let_def)

lemma demo_ledger [simp]: "ow_ledger (fst (demo_world js)) = (ledger_empty 1)\<lparr>jobs := js\<rparr>"
  by (simp add: demo_world_def Let_def)

lemma demo_saves: "save_atomic demo_enc (Some dir) path (quiet_io u) l fs =
    ((fs(temporary_path dir u := None))(path \<mapsto> Whole l), Inr ())"
  by (simp add: save_atomic_unfold save_stage_def write_and_rename_def quiet_io_def demo_enc_def
      MAX_LEDGER_BYTES_def)

lemma demo_persist_owner: "ow_ledger_path ow = Some ''/d/l'' \<Longrightarrow>
    persist_owner demo_enc (quiet_io u) (ow, fs) =
      ((ow, (fs(temporary_path ''/d'' u := None))(''/d/l'' \<mapsto> Whole (ow_ledger ow))), Inr ())"
  by (simp add: persist_owner_def path_parent_def demo_saves)

lemma demo_replace_owner: "ow_ledger_path ow = Some ''/d/l'' \<Longrightarrow>
    replace_ledger_atomically demo_enc (quiet_io u) l (ow, fs) =
      ((ow\<lparr>ow_ledger := l\<rparr>, (fs(temporary_path ''/d'' u := None))(''/d/l'' \<mapsto> Whole l)), Inr ())"
  by (simp add: replace_ledger_atomically_def path_parent_def demo_saves)

lemma demo_replaces: "replace_ledger_atomically demo_enc (quiet_io ''u'') l (demo_world js) =
    (((fst (demo_world js))\<lparr>ow_ledger := l\<rparr>,
      (snd (demo_world js))(temporary_path ''/d'' ''u'' := None, ''/d/l'' \<mapsto> Whole l)), Inr ())"
  using demo_stored [of js] demo_saves
  by (cases "demo_world js") (simp add: replace_ledger_atomically_def stored_at_def)

lemma rt_single: "rt_step v e d p x y \<Longrightarrow> (rt_step v e d p)\<^sup>*\<^sup>* x y"
  by (rule r_into_rtranclp)

lemma job_history_witness:
  "\<exists>j'. job_snapshot ''a'' (fst (claim_terminal_intent demo_enc (quiet_io ''u'') (Inr 9) stopping_job demo_intent
       (Some 143) (demo_world [stopping_job]))) = Some j' \<and>
     job_st j' = Cancelled \<and> terminal_intent j' = Some demo_intent"
proof -
  let ?w = "demo_world [stopping_job]"
  let ?w' = "fst (claim_terminal_intent demo_enc (quiet_io ''u'') (Inr 9) stopping_job demo_intent (Some 143) ?w)"
  have st: "(rt_step (\<lambda>v. Inr []) demo_enc ''/d'' ''/d/l'')\<^sup>*\<^sup>* ({''a''}, ?w) ({''a''}, ?w')"
    by (intro rt_single rt_step.st_claim demo_fresh)
  have inv: "rt_inv {''a''} (ow_ledger (fst ?w))"
    by (simp add: rt_inv_def ledger_empty_def stopping_job_def settled_def demo_intent_def sample_job_def
        active_count_def is_terminal_def MAX_RETAINED_JOBS_def)
  have j: "job_snapshot ''a'' ?w = Some stopping_job"
    by (simp add: job_snapshot_def find_job_def stopping_job_def sample_job_def)
  have "map_option is_terminal (job_snapshot ''a'' ?w') = Some True"
    by (simp add: claim_terminal_intent_def demo_replaces Let_def ledger_claim_terminal_intent_def
        find_job_def stopping_job_def sample_job_def fenced_def is_terminal_def modify_job_def
        finish_claim_def job_snapshot_def)
  then obtain j' where j': "job_snapshot ''a'' ?w' = Some j'" "is_terminal j'" by auto
  from job_history [OF st demo_stored inv j j'(1)] j'(2)
  have "terminal_intent j' = Some demo_intent" "job_st j' = Cancelled"
    by (simp_all add: stopping_job_def demo_intent_def)
  with j'(1) show ?thesis by blast
qed

definition demo_run :: job_record where
  "demo_run = new_run_job ''1'' ''1'' 1 9 ''op-1'' ''aa''
     \<lparr>rq_command = ''ls'', rq_description = None, rq_cwd = ''/workspace'', rq_timeout_ms = 1000,
      rq_session_id = Some ''s''\<rparr>"

definition demo_budgets :: profile_budgets where
  "demo_budgets = \<lparr>foreground_yield_ms = 8000, default_timeout_ms = 1000, max_timeout_ms = 1000,
     default_poll_bytes = 10, max_poll_bytes = 10, artifact_bytes_per_job = 10,
     workspace_default_bytes = 10, default_concurrent_jobs = 2, max_concurrent_jobs = 4\<rparr>"

lemma live_jobs_bounded_witness:
  "let w' = fst (insert_run_job demo_enc (quiet_io ''u'') (concurrent_limit_of demo_budgets) demo_run (demo_world []))
   in length (filter (\<lambda>j. \<not> is_terminal j) (jobs (ow_ledger (fst w')))) = 1 \<and>
      length (jobs (ow_ledger (fst w'))) \<le> MAX_RETAINED_JOBS"
proof -
  let ?w = "demo_world []"
  let ?w' = "fst (insert_run_job demo_enc (quiet_io ''u'') (concurrent_limit_of demo_budgets) demo_run ?w)"
  have st: "(rt_step (\<lambda>v. Inr []) demo_enc ''/d'' ''/d/l'')\<^sup>*\<^sup>* ({}, ?w) (insert (job_id demo_run) {}, ?w')"
    unfolding demo_run_def by (intro rt_single rt_step.st_run demo_fresh) (rule refl, simp)
  have r: "restart_ok (ow_ledger (fst ?w))"
    by (simp add: restart_ok_def ledger_empty_def)
  have e: "job_id ` set (jobs (ow_ledger (fst ?w))) \<subseteq> {}"
    by (simp add: ledger_empty_def)
  have "ow_ledger (fst (admit_run_job 2 demo_run (fst ?w))) = (ow_ledger (fst ?w))\<lparr>jobs := [demo_run]\<rparr>"
    by (simp add: admit_run_job_def Let_def ledger_empty_def demo_run_def new_run_job_def
        session_concurrency_reached_def insert_job_def evict_loop.simps MAX_RETAINED_JOBS_def)
  then have "jobs (ow_ledger (fst ?w')) = [demo_run]"
    using insert_run_job_ledger [of demo_enc "quiet_io ''u''" 2 demo_run "fst ?w" "snd ?w"]
    by (simp add: concurrent_limit_of_def demo_budgets_def)
  then have "length (filter (\<lambda>j. \<not> is_terminal j) (jobs (ow_ledger (fst ?w')))) = 1"
    by (simp add: demo_run_def new_run_job_def is_terminal_def)
  with live_jobs_bounded [OF st demo_stored r e] show ?thesis by (simp add: Let_def)
qed

lemma intents_are_durable_witness:
  "\<exists>d j'. snd (fst (bind_cancel_operation demo_enc (quiet_io ''u'') (Inr 9) ''a'' ''op-2'' ''bb'' demo_intent
       (demo_world [sample_job ''a'' Running]))) ''/d/l'' = Some (Whole d) \<and> j' \<in> set (jobs d) \<and>
     job_id j' = ''a'' \<and> terminal_intent j' = Some demo_intent"
proof -
  let ?w = "demo_world [sample_job ''a'' Running]"
  let ?w' = "fst (bind_cancel_operation demo_enc (quiet_io ''u'') (Inr 9) ''a'' ''op-2'' ''bb'' demo_intent ?w)"
  have st: "(rt_step (\<lambda>v. Inr []) demo_enc ''/d'' ''/d/l'')\<^sup>*\<^sup>* ({''a''}, ?w) ({''a''}, ?w')"
    by (intro rt_single rt_step.st_bind demo_fresh)
  let ?j = "(sample_job ''a'' Running)\<lparr>mutation_operations := [\<lparr>mb_operation_id = ''op-2'',
    mb_action_sha256 = ''bb''\<rparr>], terminal_intent := Some demo_intent, updated_at_ms := 9\<rparr>"
  have "jobs (ow_ledger (fst ?w')) = [?j]"
    by (simp add: bind_cancel_operation_def demo_replaces Let_def operation_def find_job_def
        binding_of_def sample_job_def is_terminal_def demo_intent_def modify_job_def ledger_empty_def)
  then have "?j \<in> set (jobs (ow_ledger (fst ?w')))" "terminal_intent ?j = Some demo_intent" "job_id ?j = ''a''"
    by (simp_all add: sample_job_def)
  from intents_are_durable [OF st demo_stored demo_on_disk this(1,2)] this(3) show ?thesis by auto
qed

definition demo_recovery :: recovery_io where
  "demo_recovery = \<lparr>rio_metadata = Inl ''none'', rio_uuid = ''q'', rio_rename = None, rio_save = quiet_io ''v''\<rparr>"

lemma ensure_initialized_establishes_witness:
  "let w' = fst (ensure_initialized (\<lambda>_. Inl ''bad'') demo_enc True (Inr ''/c'') (Inr 9) (\<lambda>_. FileNotFound)
       demo_recovery (quiet_io ''u'') (owner_new True, Map.empty))
   in snd w' ''/c/vcp-cli/job-ledger.json'' = Some (Whole (ow_ledger (fst w'))) \<and> ow_initialized (fst w')"
proof -
  let ?r = "ensure_initialized (\<lambda>_. Inl ''bad'') demo_enc True (Inr ''/c'') (Inr 9) (\<lambda>_. FileNotFound)
       demo_recovery (quiet_io ''u'') (owner_new True, Map.empty)"
  have "path_parent (path_join ''/c'' LEDGER_RELATIVE_PATH) = Some ''/c/vcp-cli''" by code_simp
  moreover have "load_with_scoped_recovery (\<lambda>_. Inl ''bad'') demo_enc d q FileNotFound demo_recovery 9 fs =
      (fs, Inr ((ledger_empty 1), None))" for d q and fs :: "nat job_ledger fs"
    by (simp add: load_with_scoped_recovery_def load_and_reconcile_def read_ledger_file_def
        ledger_empty_def u64_checked_add_def LEDGER_SCHEMA_VERSION_def)
  ultimately have "snd ?r = Inr () \<and> ow_initialized (fst (fst ?r))"
    by (simp add: ensure_initialized_def owner_new_def Let_def demo_saves)
  then have "snd ?r = Inr ()" "ow_initialized (fst (fst ?r))" by simp_all
  then have r: "?r = (fst ?r, Inr ())" by (metis prod.collapse)
  have n: "\<not> ow_initialized (fst (owner_new True :: nat runtime_owner, Map.empty :: nat job_ledger fs))"
    by (simp add: owner_new_def)
  have pp: "path_parent (path_join ''/c'' LEDGER_RELATIVE_PATH) = Some ''/c/vcp-cli''" by code_simp
  have f: "fresh_temp ''/c/vcp-cli'' (path_join ''/c'' LEDGER_RELATIVE_PATH) (quiet_io ''u'')" by code_simp
  have p: "path_join ''/c'' LEDGER_RELATIVE_PATH = ''/c/vcp-cli/job-ledger.json''" by code_simp
  from ensure_initialized_establishes [OF r n pp f] p \<open>ow_initialized (fst (fst ?r))\<close>
  show ?thesis by (simp add: Let_def)
qed

end
