(* ===== verification/Cli_Tasks.thy ===== *)
theory Cli_Tasks
  imports Cli_Safety
begin

text \<open>
  The asynchronous tasks of \<open>cli/runtime.rs\<close> that string critical sections together: containment
  (\<open>cancel_attempt\<close>), inspection, the workspace guard and the job monitor. Every critical section of
  a task happens at a \<open>moment\<close>: it says what the other tasks did to the world while this one was
  waiting, and what the clock, the UUID generator and the disk answered.
\<close>

section \<open>Moments\<close>

record 'v moment =
  mo_during :: "'v world \<Rightarrow> 'v world"
  mo_clk1 :: clock
  mo_clk2 :: clock
  mo_clk3 :: clock
  mo_uuid :: string
  mo_io :: save_io

section \<open>Containment\<close>

definition cancel_request_of :: "terminal_intent_record \<Rightarrow> job_record \<Rightarrow> cancel_request" where
  "cancel_request_of intent job =
     \<lparr>cq_operation_id = ti_operation_id intent, cq_job_id = job_id job, cq_attempt_id = attempt_id job,
      cq_generation = job_generation job, cq_grace_ms = MAX_CANCEL_GRACE_MS\<rparr>"

definition cancel_identity_matches :: "string \<Rightarrow> job_record \<Rightarrow> cancel_response \<Rightarrow> bool" where
  "cancel_identity_matches oid job r \<longleftrightarrow>
     cr_operation_id r = oid \<and> cr_job_id r = job_id job \<and> cr_attempt_id r = attempt_id job \<and>
     cr_generation r = job_generation job"

text \<open>
  The first half of \<open>cancel_attempt\<close>: make the intent durable, and only then send the signal. The
  result carries the request that crosses the bridge, with the intent it belongs to.
\<close>

definition cancel_signal ::
    "('v job_ledger \<Rightarrow> string + nat) \<Rightarrow> 'v moment \<Rightarrow> string \<Rightarrow> job_record \<Rightarrow> terminal_intent_record \<Rightarrow>
     'v world \<Rightarrow> 'v world \<times> (string + (terminal_intent_record \<times> cancel_request) option)" where
  "cancel_signal enc m oid job requested w =
     (if ti_operation_id requested \<noteq> oid
      then (w, Inl ''terminal intent operation identity mismatch'')
      else
        (case persist_terminal_intent enc (mo_io m) (mo_clk1 m) job requested (mo_during m w) of
           (w', Inl e) \<Rightarrow> (w', Inl e)
         | (w', Inr None) \<Rightarrow> (w', Inr None)
         | (w', Inr (Some intent)) \<Rightarrow> (w', Inr (Some (intent, cancel_request_of intent job)))))"

text \<open>The refresh loop: up to three inspections, then the output is marked incomplete.\<close>

fun refresh_output ::
    "('v job_ledger \<Rightarrow> string + nat) \<Rightarrow> job_record \<Rightarrow> 'v moment \<Rightarrow> string \<Rightarrow>
     ('v moment \<times> (string + inspect_response)) list \<Rightarrow> 'v world \<Rightarrow> 'v world \<times> (string + unit)" where
  "refresh_output enc job final failure [] w =
     mark_output_snapshot_incomplete enc (mo_io final) (mo_clk1 final) job failure (mo_during final w)"
| "refresh_output enc job final failure ((m, answer) # rest) w =
     (case answer of
        Inr snapshot \<Rightarrow>
          if inspect_identity_matches job (''cancel-refresh-'' @ mo_uuid m) snapshot
          then apply_output_snapshot enc (mo_io m) (mo_clk1 m) job snapshot (mo_during m w)
          else refresh_output enc job final ''ProcessHost final output snapshot identity mismatch'' rest
                 (mo_during m w)
      | Inl error \<Rightarrow>
          refresh_output enc job final (''ProcessHost final output snapshot failed: '' @ error) rest
            (mo_during m w))"

record 'v cancel_env =
  ce_intent :: "'v moment"
  ce_answer :: "string + cancel_response"
  ce_refresh :: "('v moment \<times> (string + inspect_response)) list"
  ce_final :: "'v moment"

definition cancel_attempt ::
    "('v job_ledger \<Rightarrow> string + nat) \<Rightarrow> 'v cancel_env \<Rightarrow> string \<Rightarrow> job_record \<Rightarrow> terminal_intent_record \<Rightarrow>
     'v world \<Rightarrow> 'v world \<times> (string + terminal_intent_record option)" where
  "cancel_attempt enc env oid job requested w =
     (case cancel_signal enc (ce_intent env) oid job requested w of
        (w', Inl e) \<Rightarrow> (w', Inl e)
      | (w', Inr None) \<Rightarrow> (w', Inr None)
      | (w', Inr (Some (intent, request))) \<Rightarrow>
          (case ce_answer env of
             Inl e \<Rightarrow> (w', Inl e)
           | Inr response \<Rightarrow>
               if \<not> cancel_identity_matches (cq_operation_id request) job response
               then (w', Inl ''ProcessHost cancel response identity mismatch'')
               else if \<not> process_host_confirmed_containment response then (w', Inr None)
               else
                 (case refresh_output enc job (ce_final env)
                         ''ProcessHost final output snapshot was unavailable''
                         (take FINAL_OUTPUT_REFRESH_ATTEMPTS (ce_refresh env)) w' of
                    (w'', Inl e) \<Rightarrow> (w'', Inl e)
                  | (w'', Inr u) \<Rightarrow> (w'', Inr (Some intent)))))"

text \<open>\<open>claim_terminal_intent\<close> with the cleanup that follows it.\<close>

definition claim_and_cleanup ::
    "('v job_ledger \<Rightarrow> string + nat) \<Rightarrow> 'v moment \<Rightarrow> 'v moment \<Rightarrow> string + unit \<Rightarrow> job_record \<Rightarrow>
     terminal_intent_record \<Rightarrow> i32 option \<Rightarrow> 'v world \<Rightarrow> 'v world \<times> (string + unit)" where
  "claim_and_cleanup enc m1 m2 removal job intent code w =
     (case claim_terminal_intent enc (mo_io m1) (mo_clk1 m1) job intent code (mo_during m1 w) of
        (w1, Inl e) \<Rightarrow> (w1, Inl e)
      | (w1, Inr u) \<Rightarrow>
          let w2 = mo_during m2 w1 in
          (case job_snapshot (job_id job) w2 of
             Some terminal \<Rightarrow>
               if is_terminal terminal
               then cleanup_river_projection enc (mo_io m2) removal terminal w2
               else (w2, Inr ())
           | None \<Rightarrow> (w2, Inr ())))"

section \<open>Inspection\<close>

record 'v inspect_env =
  ie_deadline :: "'v moment"
  ie_answer :: "string + inspect_response"
  ie_apply :: "'v moment"
  ie_cleanup :: "'v moment"
  ie_removal :: "string + unit"

definition inspect_job ::
    "('v job_ledger \<Rightarrow> string + nat) \<Rightarrow> 'v inspect_env \<Rightarrow> string \<Rightarrow> job_record \<Rightarrow> 'v world \<Rightarrow>
     'v world \<times> (string + unit)" where
  "inspect_job enc env oid job0 w =
     (let m = ie_deadline env in
      (case ensure_deadline_intent enc (mo_io m) (mo_clk1 m) (mo_clk2 m) (mo_clk3 m) (mo_uuid m) job0
              (mo_during m w) of
         (w1, Inl e) \<Rightarrow> (w1, Inl e)
       | (w1, Inr job) \<Rightarrow>
           if is_terminal job then (w1, Inr ())
           else
             let a = ie_apply env in
             (case ie_answer env of
                Inl e \<Rightarrow> set_job_reason enc (mo_io a) (mo_clk1 a) job
                           (''ProcessHost inspect failed and will retry: '' @ e) (mo_during a w1)
              | Inr response \<Rightarrow>
                  if \<not> inspect_identity_matches job oid response
                  then (w1, Inl ''ProcessHost inspect response identity mismatch'')
                  else
                    (case inspect_apply enc (mo_io a) (mo_clk1 a) (mo_clk2 a) (mo_clk3 a) (mo_uuid a)
                            job response (mo_during a w1) of
                       (w2, Inl e) \<Rightarrow> (w2, Inl e)
                     | (w2, Inr None) \<Rightarrow> (w2, Inr ())
                     | (w2, Inr (Some terminal)) \<Rightarrow>
                         cleanup_river_projection enc (mo_io (ie_cleanup env)) (ie_removal env) terminal
                           (mo_during (ie_cleanup env) w2)))))"

section \<open>The workspace guard\<close>

record 'v stop_env =
  se_uuid :: string
  se_clk :: clock
  se_cancel :: "'v cancel_env"
  se_claim :: "'v moment"
  se_cleanup :: "'v moment"
  se_removal :: "string + unit"

definition workspace_intent :: "string \<Rightarrow> u64 \<Rightarrow> string \<Rightarrow> terminal_intent_record" where
  "workspace_intent oid now error =
     \<lparr>ti_target = TargetFailed, ti_operation_id = oid, ti_requested_at_ms = now,
      ti_reason = ''workspace_budget_exceeded: shared workspace integrity/budget check failed ('' @ error
        @ ''); all active attempts were cancelled.''\<rparr>"

fun stop_all ::
    "('v job_ledger \<Rightarrow> string + nat) \<Rightarrow> string \<Rightarrow> (job_record \<times> 'v stop_env) list \<Rightarrow> 'v world \<Rightarrow>
     'v world \<times> (string + unit)" where
  "stop_all enc error [] w = (w, Inr ())"
| "stop_all enc error ((job, e) # rest) w =
     (case se_clk e of
        Inl err \<Rightarrow> (w, Inl err)
      | Inr now \<Rightarrow>
          let oid = ''workspace-stop-'' @ se_uuid e in
          (case cancel_attempt enc (se_cancel e) oid job (workspace_intent oid now error) w of
             (w1, Inr (Some intent)) \<Rightarrow>
               (case claim_and_cleanup enc (se_claim e) (se_cleanup e) (se_removal e) job intent None w1 of
                  (w2, Inl err) \<Rightarrow> (w2, Inl err)
                | (w2, Inr u) \<Rightarrow> stop_all enc error rest w2)
           | (w1, Inr None) \<Rightarrow> stop_all enc error rest w1
           | (w1, Inl err) \<Rightarrow> stop_all enc error rest w1))"

text \<open>\<open>envs\<close> answers for the live jobs in order; there is one for each of them.\<close>

definition enforce_workspace_budget ::
    "('v job_ledger \<Rightarrow> string + nat) \<Rightarrow> clock \<Rightarrow> string + unit \<Rightarrow> 'v moment \<Rightarrow> 'v moment \<Rightarrow>
     (nat \<Rightarrow> 'v stop_env) \<Rightarrow> 'v world \<Rightarrow> 'v world \<times> (string + unit)" where
  "enforce_workspace_budget enc clk usage m1 m2 envs w =
     (case clk of
        Inl e \<Rightarrow> (w, Inl e)
      | Inr now \<Rightarrow>
          (case workspace_check_due now (mo_during m1 w) of
             (w1, None) \<Rightarrow> (w1, Inr ())
           | (w1, Some runtime) \<Rightarrow>
               (case usage of
                  Inr u \<Rightarrow> (w1, Inr ())
                | Inl error \<Rightarrow>
                    let w2 = mo_during m2 w1;
                        live = filter (\<lambda>j. \<not> is_terminal j) (jobs (ow_ledger (fst w2)))
                    in stop_all enc error (zip live (map envs [0..<length live])) w2)))"

section \<open>The job monitor\<close>

datatype monitor_outcome = MonReturn | MonAgain u64 u8 | MonError string

record 'v monitor_env =
  me_snapshot :: "'v moment"
  me_deadline :: "'v moment"
  me_cancel :: "'v cancel_env"
  me_claim :: "'v moment"
  me_cleanup :: "'v moment"
  me_removal :: "string + unit"
  me_reason :: "'v moment"
  me_inspect :: "'v inspect_env"
  me_inspect_uuid :: string
  me_current :: "'v moment"
  me_timeout_uuid :: string
  me_ws_clk :: clock
  me_ws_usage :: "string + unit"
  me_ws_check :: "'v moment"
  me_ws_live :: "'v moment"
  me_ws_stops :: "nat \<Rightarrow> 'v stop_env"

definition then_again :: "u64 \<Rightarrow> u8 \<Rightarrow> 'v world \<times> (string + unit) \<Rightarrow> 'v world \<times> monitor_outcome" where
  "then_again pause failures r =
     (case r of (w, Inl e) \<Rightarrow> (w, MonError e) | (w, Inr u) \<Rightarrow> (w, MonAgain pause failures))"

definition then_return :: "'v world \<times> (string + unit) \<Rightarrow> 'v world \<times> monitor_outcome" where
  "then_return r = (case r of (w, Inl e) \<Rightarrow> (w, MonError e) | (w, Inr u) \<Rightarrow> (w, MonReturn))"

definition u8_saturating_inc :: "u8 \<Rightarrow> u8" where
  "u8_saturating_inc n = (if n = 255 then 255 else n + 1)"

text \<open>The branch for a job that already has an intent, and the one for a timeout just noticed.\<close>

definition monitor_contain ::
    "('v job_ledger \<Rightarrow> string + nat) \<Rightarrow> 'v monitor_env \<Rightarrow> u8 \<Rightarrow> job_record \<Rightarrow> terminal_intent_record \<Rightarrow>
     'v world \<Rightarrow> 'v world \<times> monitor_outcome" where
  "monitor_contain enc env failures job intent w =
     (let r = me_reason env in
      (case cancel_attempt enc (me_cancel env) (ti_operation_id intent) job intent w of
         (w1, Inr (Some winning)) \<Rightarrow>
           then_return (claim_and_cleanup enc (me_claim env) (me_cleanup env) (me_removal env) job winning None w1)
       | (w1, Inr None) \<Rightarrow>
           then_again TIMEOUT_CANCEL_RETRY_MS failures
             (set_job_reason enc (mo_io r) (mo_clk1 r) job
                ''Terminal intent is durable, but ProcessHost has not confirmed containment; monitor will retry.''
                (mo_during r w1))
       | (w1, Inl e) \<Rightarrow>
           then_again TIMEOUT_CANCEL_RETRY_MS failures
             (set_job_reason enc (mo_io r) (mo_clk1 r) job
                (''Terminal intent is durable; containment callback failed and monitor will retry: '' @ e)
                (mo_during r w1))))"

definition monitor_timeout ::
    "('v job_ledger \<Rightarrow> string + nat) \<Rightarrow> 'v monitor_env \<Rightarrow> u8 \<Rightarrow> job_record \<Rightarrow> job_record \<Rightarrow>
     'v world \<Rightarrow> 'v world \<times> monitor_outcome" where
  "monitor_timeout enc env failures job current w =
     (case mo_clk2 (me_current env) of
        Inl e \<Rightarrow> (w, MonError e)
      | Inr now \<Rightarrow>
          let oid = ''timeout-'' @ me_timeout_uuid env;
              r = me_reason env;
              failures' = u8_saturating_inc failures;
              kept = (if failures' \<ge> MAX_TIMEOUT_CANCEL_RETRIES then 0 else failures')
          in (case cancel_attempt enc (me_cancel env) oid current (timeout_intent oid now) w of
                (w1, Inr (Some intent)) \<Rightarrow>
                  then_return (claim_and_cleanup enc (me_claim env) (me_cleanup env) (me_removal env)
                                 current intent None w1)
              | (w1, Inr None) \<Rightarrow>
                  then_again TIMEOUT_CANCEL_RETRY_MS kept
                    (set_job_reason enc (mo_io r) (mo_clk1 r) job
                       (''Timeout reached; containment attempt '' @ nat_str (unat failures') @
                        '' did not confirm the process tree was gone.'') (mo_during r w1))
              | (w1, Inl e) \<Rightarrow>
                  then_again TIMEOUT_CANCEL_RETRY_MS kept
                    (set_job_reason enc (mo_io r) (mo_clk1 r) job
                       (''Timeout reached; containment attempt '' @ nat_str (unat failures') @
                        '' failed: '' @ e) (mo_during r w1))))"

definition stale_attempt :: "string \<Rightarrow> u64 \<Rightarrow> job_record \<Rightarrow> bool" where
  "stale_attempt att gen j \<longleftrightarrow> attempt_id j \<noteq> att \<or> job_generation j \<noteq> gen"

text \<open>The part of an iteration after an inspection that went through.\<close>

definition monitor_decided ::
    "('v job_ledger \<Rightarrow> string + nat) \<Rightarrow> 'v monitor_env \<Rightarrow> string \<Rightarrow> string \<Rightarrow> u64 \<Rightarrow> u8 \<Rightarrow> job_record \<Rightarrow>
     'v world \<Rightarrow> 'v world \<times> monitor_outcome" where
  "monitor_decided enc env jid att gen failures job w0 =
     (let w = mo_during (me_current env) w0 in
      (case job_snapshot jid w of
         None \<Rightarrow> (w, MonReturn)
       | Some current \<Rightarrow>
           if stale_attempt att gen current \<or> is_terminal current then (w, MonReturn)
           else
             (case mo_clk1 (me_current env) of
                Inl e \<Rightarrow> (w, MonError e)
              | Inr now \<Rightarrow>
                  (case monitor_decide current now of
                     MonitorTimeout \<Rightarrow> monitor_timeout enc env failures job current w
                   | MonitorInspect sleep_ms \<Rightarrow>
                       (case enforce_workspace_budget enc (me_ws_clk env) (me_ws_usage env) (me_ws_check env)
                               (me_ws_live env) (me_ws_stops env) w of
                          (w1, Inr u) \<Rightarrow> (w1, MonAgain sleep_ms failures)
                        | (w1, Inl e) \<Rightarrow>
                            let r = me_reason env in
                            then_again sleep_ms failures
                              (set_job_reason enc (mo_io r) (mo_clk1 r) current
                                 (''Runtime storage monitor failed and will retry: '' @ e)
                                 (mo_during r w1)))))))"

text \<open>One round of \<open>monitor_job\<close>'s loop: it returns, goes round again after a pause, or fails.\<close>

definition monitor_round ::
    "('v job_ledger \<Rightarrow> string + nat) \<Rightarrow> 'v monitor_env \<Rightarrow> string \<Rightarrow> string \<Rightarrow> u64 \<Rightarrow> u8 \<Rightarrow>
     'v world \<Rightarrow> 'v world \<times> monitor_outcome" where
  "monitor_round enc env jid att gen failures w00 =
     (let w0 = mo_during (me_snapshot env) w00 in
      (case job_snapshot jid w0 of
         None \<Rightarrow> (w0, MonReturn)
       | Some snapshot \<Rightarrow>
           if stale_attempt att gen snapshot then (w0, MonReturn)
           else
             let d = me_deadline env in
             (case ensure_deadline_intent enc (mo_io d) (mo_clk1 d) (mo_clk2 d) (mo_clk3 d) (mo_uuid d)
                     snapshot (mo_during d w0) of
                (w1, Inl e) \<Rightarrow> (w1, MonError e)
              | (w1, Inr job) \<Rightarrow>
                  if is_terminal job then
                    then_return (cleanup_river_projection enc (mo_io (me_cleanup env)) (me_removal env) job
                                   (mo_during (me_cleanup env) w1))
                  else
                    (case terminal_intent job of
                       Some intent \<Rightarrow> monitor_contain enc env failures job intent w1
                     | None \<Rightarrow>
                         (case inspect_job enc (me_inspect env) (''monitor-'' @ me_inspect_uuid env) job w1 of
                            (w2, Inl e) \<Rightarrow>
                              let r = me_reason env in
                              then_again MONITOR_INTERVAL_MS failures
                                (set_job_reason enc (mo_io r) (mo_clk1 r) job
                                   (''Background monitor inspect failed and will retry: '' @ e)
                                   (mo_during r w2))
                          | (w2, Inr u) \<Rightarrow> monitor_decided enc env jid att gen failures job w2)))))"

section \<open>What a task does to one job\<close>

text \<open>
  Between two worlds a job continues as \<open>job_evolves\<close> allows, or disappears for good. Every run of
  critical sections moves the jobs it knows like this, so it is what a task may assume of the others.
\<close>

definition job_moves :: "string \<Rightarrow> 'v world \<Rightarrow> 'v world \<Rightarrow> bool" where
  "job_moves jid w w' \<longleftrightarrow>
     (case job_snapshot jid w' of
        None \<Rightarrow> True
      | Some j' \<Rightarrow> (case job_snapshot jid w of None \<Rightarrow> False | Some j \<Rightarrow> job_evolves j j'))"

definition moves :: "string \<Rightarrow> string \<Rightarrow> string \<Rightarrow> 'v world \<Rightarrow> 'v world \<Rightarrow> bool" where
  "moves dir p jid w w' \<longleftrightarrow> (stored_at dir p w \<longrightarrow> stored_at dir p w' \<and> job_moves jid w w')"

lemma moves_refl [simp]: "moves dir p jid w w"
  by (simp add: moves_def job_moves_def split: option.split)

lemma moves_trans [trans]: "moves dir p jid w w' \<Longrightarrow> moves dir p jid w' w'' \<Longrightarrow> moves dir p jid w w''"
  unfolding moves_def job_moves_def using job_evolves_trans
  by (auto split: option.splits)

lemma continues_find_job:
  assumes "continues l l'"
  shows "rel_option job_evolves (find_job l jid) (find_job l' jid)"
proof -
  have "list_all2 job_evolves js js' \<Longrightarrow>
      rel_option job_evolves (List.find (\<lambda>j. job_id j = jid) js) (List.find (\<lambda>j. job_id j = jid) js')" for js js'
    by (induction rule: list_all2_induct) (auto simp: job_evolves_def)
  with assms show ?thesis by (auto simp: continues_def find_job_def)
qed

lemma acts_moves: "acts enc dir p w w' \<Longrightarrow> moves dir p jid w w'"
proof -
  assume a: "acts enc dir p w w'"
  have "rel_option job_evolves (job_snapshot jid w) (job_snapshot jid w')"
    unfolding job_snapshot_def by (rule continues_find_job [OF acts_continues [OF a]])
  with a show ?thesis
    by (auto simp: moves_def acts_def job_moves_def split: option.splits)
qed

lemma rt_steps_moves:
  assumes "(rt_step to_vec enc dir p)\<^sup>*\<^sup>* (used, w) (used', w')" "stored_at dir p w"
    and "rt_inv used (ow_ledger (fst w))" "jid \<in> used"
  shows "moves dir p jid w w'"
proof -
  note pres = rt_steps_preserve [OF assms(1-3)]
  have "job_moves jid w w'"
  proof (cases "job_snapshot jid w'")
    case None
    then show ?thesis by (simp add: job_moves_def)
  next
    case (Some j')
    then have j': "j' \<in> set (jobs (ow_ledger (fst w')))" "job_id j' = jid"
      using find_job_SomeD unfolding job_snapshot_def by blast+
    then obtain j where j: "j \<in> set (jobs (ow_ledger (fst w)))" "job_evolves j j'"
      using pres assms(4) unfolding ledger_evolves_def by blast
    then have "job_snapshot jid w \<noteq> None"
      using j'(2) by (auto simp: job_snapshot_def find_job_def find_None_iff job_evolves_def)
    then obtain j0 where j0: "job_snapshot jid w = Some j0" by blast
    from rt_steps_evolves [OF assms(1-3) j0 Some] show ?thesis by (simp add: job_moves_def j0 Some)
  qed
  with pres show ?thesis by (simp add: moves_def)
qed

definition moment_ok :: "string \<Rightarrow> string \<Rightarrow> string \<Rightarrow> 'v moment \<Rightarrow> bool" where
  "moment_ok dir p jid m \<longleftrightarrow> (\<forall>w. moves dir p jid w (mo_during m w)) \<and> fresh_temp dir p (mo_io m)"

lemma moment_moves: "moment_ok dir p jid m \<Longrightarrow> moves dir p jid w (mo_during m w)"
  unfolding moment_ok_def by blast

text \<open>A critical section at a moment: the others, then the section.\<close>

lemma moment_section:
  assumes "moment_ok dir p jid m"
    and "\<And>v. stored_at dir p v \<Longrightarrow> fresh_temp dir p (mo_io m) \<Longrightarrow> acts enc dir p v (f v)"
  shows "moves dir p jid w (f (mo_during m w))"
proof (cases "stored_at dir p w")
  case True
  have m: "moves dir p jid w (mo_during m w)" using assms(1) by (rule moment_moves)
  then have "stored_at dir p (mo_during m w)" using True by (simp add: moves_def)
  then have "acts enc dir p (mo_during m w) (f (mo_during m w))"
    using assms by (simp add: moment_ok_def)
  with m show ?thesis using acts_moves moves_trans by blast
qed (simp add: moves_def)

lemma section_moves:
  assumes "moment_ok dir p jid m"
  shows "moves dir p jid w (fst (set_job_reason enc (mo_io m) clk job why (mo_during m w)))"
    and "moves dir p jid w (fst (mark_output_snapshot_incomplete enc (mo_io m) clk job why (mo_during m w)))"
    and "moves dir p jid w (fst (apply_output_snapshot enc (mo_io m) clk job r (mo_during m w)))"
    and "moves dir p jid w (fst (persist_terminal_intent enc (mo_io m) clk job req (mo_during m w)))"
    and "moves dir p jid w (fst (ensure_deadline_intent enc (mo_io m) c1 c2 c3 uuid job (mo_during m w)))"
    and "moves dir p jid w (fst (inspect_apply enc (mo_io m) c1 c2 c3 uuid job r (mo_during m w)))"
    and "moves dir p jid w (fst (claim_terminal_intent enc (mo_io m) clk job i code (mo_during m w)))"
    and "moves dir p jid w (fst (cleanup_river_projection enc (mo_io m) removal job (mo_during m w)))"
  by (rule moment_section [OF assms], erule section_acts, assumption)+

lemma cancel_signal_moves:
  assumes "moment_ok dir p jid m"
  shows "moves dir p jid w (fst (cancel_signal enc m oid job req w))"
proof -
  have "moves dir p jid w (fst (persist_terminal_intent enc (mo_io m) (mo_clk1 m) job req (mo_during m w)))"
    using assms by (rule section_moves)
  then show ?thesis by (auto simp: cancel_signal_def split: prod.split sum.split option.split)
qed

lemma refresh_output_moves:
  assumes "moment_ok dir p jid final" "list_all (\<lambda>(m, a). moment_ok dir p jid m) envs"
  shows "moves dir p jid w (fst (refresh_output enc job final failure envs w))"
  using assms(2)
proof (induction envs arbitrary: w failure)
  case Nil
  show ?case using section_moves(2) [OF assms(1)] by simp
next
  case (Cons e rest)
  obtain m answer where e: "e = (m, answer)" by (cases e)
  have m: "moment_ok dir p jid m" and rest: "list_all (\<lambda>(m, a). moment_ok dir p jid m) rest"
    using Cons.prems by (simp_all add: e)
  have more: "moves dir p jid w (fst (refresh_output enc job final why rest (mo_during m w)))" for why
    using moves_trans [OF moment_moves [OF m] Cons.IH [OF rest]] .
  have snap: "moves dir p jid w (fst (apply_output_snapshot enc (mo_io m) (mo_clk1 m) job r (mo_during m w)))" for r
    using m by (rule section_moves)
  show ?case using more snap by (simp add: e split: sum.split)
qed

definition cancel_env_ok :: "string \<Rightarrow> string \<Rightarrow> string \<Rightarrow> 'v cancel_env \<Rightarrow> bool" where
  "cancel_env_ok dir p jid env \<longleftrightarrow>
     moment_ok dir p jid (ce_intent env) \<and> moment_ok dir p jid (ce_final env) \<and>
     list_all (\<lambda>(m, a). moment_ok dir p jid m) (ce_refresh env)"

lemma list_all_take: "list_all q xs \<Longrightarrow> list_all q (take n xs)"
  by (auto simp: list_all_iff dest: in_set_takeD)

lemma cancel_attempt_moves:
  assumes "cancel_env_ok dir p jid env"
  shows "moves dir p jid w (fst (cancel_attempt enc env oid job req w))"
proof -
  obtain w1 r where s: "cancel_signal enc (ce_intent env) oid job req w = (w1, r)"
    by (cases "cancel_signal enc (ce_intent env) oid job req w")
  have m1: "moves dir p jid w w1"
    using cancel_signal_moves [of dir p jid "ce_intent env" w enc oid job req] assms s
    by (simp add: cancel_env_ok_def)
  have m2: "moves dir p jid w (fst (refresh_output enc job (ce_final env) why
      (take FINAL_OUTPUT_REFRESH_ATTEMPTS (ce_refresh env)) w1))" for why
    using assms by (intro moves_trans [OF m1 refresh_output_moves] list_all_take) (simp_all add: cancel_env_ok_def)
  show ?thesis
    using m1 m2 by (auto simp: cancel_attempt_def s split: sum.split option.split prod.split)
      (metis fst_conv)+
qed

text \<open>What a job's snapshot must look like for a task that holds an intent of it.\<close>

definition holds_intent :: "job_record \<Rightarrow> terminal_intent_record \<Rightarrow> 'v world \<Rightarrow> bool" where
  "holds_intent job i w \<longleftrightarrow>
     (case job_snapshot (job_id job) w of
        None \<Rightarrow> True
      | Some j \<Rightarrow> attempt_id j = attempt_id job \<and> job_generation j = job_generation job \<and>
          terminal_intent j = Some i)"

definition ended :: "string \<Rightarrow> 'v world \<Rightarrow> bool" where
  "ended jid w \<longleftrightarrow> (case job_snapshot jid w of None \<Rightarrow> True | Some j \<Rightarrow> is_terminal j)"

lemma holds_intent_moves:
  "moves dir p (job_id job) w w' \<Longrightarrow> stored_at dir p w \<Longrightarrow> holds_intent job i w \<Longrightarrow> holds_intent job i w'"
  by (auto simp: moves_def job_moves_def holds_intent_def job_evolves_def split: option.splits)

lemma ended_moves: "moves dir p jid w w' \<Longrightarrow> stored_at dir p w \<Longrightarrow> ended jid w \<Longrightarrow> ended jid w'"
  using job_evolves_terminal by (auto simp: moves_def job_moves_def ended_def split: option.splits)

lemma moves_stored: "moves dir p jid w w' \<Longrightarrow> stored_at dir p w \<Longrightarrow> stored_at dir p w'"
  by (simp add: moves_def)

lemma persist_terminal_intent_holds:
  assumes "persist_terminal_intent enc io clk job req w = (w', Inr (Some i))"
  shows "holds_intent job i w' \<and>
    (\<exists>j. job_snapshot (job_id job) w' = Some j \<and> attempt_id j = attempt_id job \<and>
       job_generation j = job_generation job \<and> terminal_intent j = Some i)"
proof -
  let ?l = "ow_ledger (fst w)"
  obtain now where clk: "clk = Inr now"
    using assms by (cases clk) (simp_all add: persist_terminal_intent_def Let_def)
  have "\<exists>j. find_job (ow_ledger (fst w')) (job_id job) = Some j \<and> attempt_id j = attempt_id job \<and>
       job_generation j = job_generation job \<and> terminal_intent j = Some i"
  proof (cases rule: request_terminal_intent_cases
      [of ?l "job_id job" "attempt_id job" "job_generation job" req now])
    case 1
    with assms clk show ?thesis by (simp add: persist_terminal_intent_def Let_def)
  next
    case (2 j i')
    with assms clk show ?thesis
      by (auto simp: persist_terminal_intent_def Let_def fenced_def)
  next
    case (3 j)
    let ?f = "\<lambda>j. j\<lparr>terminal_intent := Some req, updated_at_ms := now\<rparr>"
    let ?g = "\<lambda>j. if is_terminal j then j else j\<lparr>job_st := Stopping\<rparr>"
    let ?n = "modify_job (job_id job) ?g (modify_job (job_id job) ?f ?l)"
    have id: "job_id j = job_id job" using 3(1) find_job_SomeD by blast
    have "find_job (modify_job (job_id job) ?f ?l) (job_id job) = Some (?f j)"
      using 3(1) by (rule find_job_modify_same) (simp add: id)
    then have n: "find_job ?n (job_id job) = Some (?g (?f j))"
      by (rule find_job_modify_same) (simp add: id)
    obtain w1 q where r: "replace_ledger_atomically enc io ?n w = (w1, q)"
      by (cases "replace_ledger_atomically enc io ?n w")
    have "q = Inr ()" "w' = w1" "i = req"
      using assms 3 clk r by (cases q; auto simp: persist_terminal_intent_def Let_def)+
    moreover have "ow_ledger (fst w1) = ?n" if "q = Inr ()"
      using r that by (auto simp: replace_ledger_atomically_def split: prod.splits option.splits sum.splits)
    ultimately show ?thesis using n 3(2) by (auto simp: fenced_def)
  qed
  then show ?thesis by (auto simp: holds_intent_def job_snapshot_def)
qed

lemma cancel_signal_holds:
  "cancel_signal enc m oid job req w = (w', Inr (Some (i, request))) \<Longrightarrow>
   request = cancel_request_of i job \<and>
   persist_terminal_intent enc (mo_io m) (mo_clk1 m) job req (mo_during m w) = (w', Inr (Some i))"
  by (auto simp: cancel_signal_def split: if_splits prod.splits sum.splits option.splits)

lemma cancel_attempt_holds:
  assumes "cancel_env_ok dir p (job_id job) env" "stored_at dir p w"
    and "cancel_attempt enc env oid job req w = (w', Inr (Some i))"
  shows "holds_intent job i w'"
proof -
  obtain w1 r where s: "cancel_signal enc (ce_intent env) oid job req w = (w1, r)"
    by (cases "cancel_signal enc (ce_intent env) oid job req w")
  have st: "stored_at dir p w1"
    using cancel_signal_moves [of dir p "job_id job" "ce_intent env" w enc oid job req] assms(1,2) s
    by (simp add: cancel_env_ok_def moves_def)
  obtain i' request where r: "r = Inr (Some (i', request))"
    using assms(3) by (auto simp: cancel_attempt_def s split: sum.splits option.splits prod.splits)
  have h: "holds_intent job i' w1"
    using cancel_signal_holds [of enc "ce_intent env" oid job req w w1 i' request] s r
      persist_terminal_intent_holds by blast
  let ?ro = "refresh_output enc job (ce_final env) ''ProcessHost final output snapshot was unavailable''
      (take FINAL_OUTPUT_REFRESH_ATTEMPTS (ce_refresh env)) w1"
  have "i' = i \<and> w' = fst ?ro"
    using assms(3) by (auto simp: cancel_attempt_def s r split: sum.splits if_splits prod.splits)
  moreover have "moves dir p (job_id job) w1 (fst ?ro)"
    using assms(1) by (intro refresh_output_moves list_all_take) (simp_all add: cancel_env_ok_def)
  ultimately show ?thesis using holds_intent_moves [OF _ st h] by simp
qed

lemma claim_terminal_intent_ends:
  assumes "claim_terminal_intent enc io clk job i code w = (w', Inr ())" "holds_intent job i w"
  shows "ended (job_id job) w'"
proof -
  let ?l = "ow_ledger (fst w)"
  obtain now where clk: "clk = Inr now"
    using assms(1) by (cases clk) (simp_all add: claim_terminal_intent_def Let_def)
  show ?thesis
  proof (cases rule: ledger_claim_terminal_intent_cases
      [of ?l "job_id job" "attempt_id job" "job_generation job" i now])
    case 1
    then have "w' = w" using assms(1) clk by (simp add: claim_terminal_intent_def Let_def)
    moreover have "ended (job_id job) w"
    proof (cases "find_job ?l (job_id job)")
      case None
      then show ?thesis by (simp add: ended_def job_snapshot_def)
    next
      case (Some j)
      with assms(2) have "attempt_id j = attempt_id job" "job_generation j = job_generation job"
          "terminal_intent j = Some i" by (simp_all add: holds_intent_def job_snapshot_def)
      with Some 1 have "is_terminal j"
        by (auto simp: ledger_claim_terminal_intent_def fenced_def Let_def split: if_splits)
      with Some show ?thesis by (simp add: ended_def job_snapshot_def)
    qed
    ultimately show ?thesis by simp
  next
    case (2 j)
    let ?f = "\<lambda>j. j\<lparr>job_st := target_job_state (ti_target i), updated_at_ms := now,
                     job_reason := Some (ti_reason i)\<rparr>"
    have id: "job_id j = job_id job" using 2(1) find_job_SomeD by blast
    obtain sr where r: "replace_ledger_atomically enc io
        (modify_job (job_id job) (finish_claim code sr i (?f j)) (modify_job (job_id job) ?f ?l)) w = (w', Inr ())"
      using assms(1) clk 2(4) by (auto simp: claim_terminal_intent_def Let_def)
    let ?n = "modify_job (job_id job) (finish_claim code sr i (?f j)) (modify_job (job_id job) ?f ?l)"
    have "find_job (modify_job (job_id job) ?f ?l) (job_id job) = Some (?f j)"
      using 2(1) by (rule find_job_modify_same) (simp add: id)
    then have n: "find_job ?n (job_id job) = Some (finish_claim code sr i (?f j) (?f j))"
      by (rule find_job_modify_same) (simp add: id finish_claim_def)
    have "ow_ledger (fst w') = ?n"
      using r by (auto simp: replace_ledger_atomically_def split: prod.splits option.splits sum.splits)
    with n show ?thesis by (simp add: ended_def job_snapshot_def finish_claim_def is_terminal_def)
  qed
qed

lemma claim_and_cleanup_moves:
  assumes "moment_ok dir p jid m1" "moment_ok dir p jid m2"
  shows "moves dir p jid w (fst (claim_and_cleanup enc m1 m2 removal job i code w))"
proof -
  obtain w1 r where c: "claim_terminal_intent enc (mo_io m1) (mo_clk1 m1) job i code (mo_during m1 w) = (w1, r)"
    by (cases "claim_terminal_intent enc (mo_io m1) (mo_clk1 m1) job i code (mo_during m1 w)")
  have m: "moves dir p jid w w1"
    using section_moves(7) [OF assms(1)] c by (metis fst_conv)
  have "moves dir p jid w (mo_during m2 w1)"
    using moves_trans [OF m moment_moves [OF assms(2)]] .
  moreover have "moves dir p jid w (fst (cleanup_river_projection enc (mo_io m2) removal t (mo_during m2 w1)))" for t
    using moves_trans [OF m section_moves(8) [OF assms(2)]] .
  ultimately show ?thesis
    using m by (simp add: claim_and_cleanup_def c Let_def split: sum.split option.split)
qed

lemma claim_and_cleanup_ends:
  assumes "moment_ok dir p (job_id job) m1" "moment_ok dir p (job_id job) m2" "stored_at dir p w"
    and "holds_intent job i w" "claim_and_cleanup enc m1 m2 removal job i code w = (w', Inr ())"
  shows "ended (job_id job) w'"
proof -
  obtain w1 r where c: "claim_terminal_intent enc (mo_io m1) (mo_clk1 m1) job i code (mo_during m1 w) = (w1, r)"
    by (cases "claim_terminal_intent enc (mo_io m1) (mo_clk1 m1) job i code (mo_during m1 w)")
  have r: "r = Inr ()" using assms(5) c by (cases r) (simp_all add: claim_and_cleanup_def)
  have "holds_intent job i (mo_during m1 w)"
    using holds_intent_moves [OF moment_moves [OF assms(1)] assms(3,4)] .
  with claim_terminal_intent_ends c r have e: "ended (job_id job) w1" by blast
  have st: "stored_at dir p w1"
    using moves_stored [OF section_moves(7) [OF assms(1)] assms(3)] c by (metis fst_conv)
  have "moves dir p (job_id job) w1 w'"
    using assms(5) moment_moves [OF assms(2), of w1]
      section_moves(8) [OF assms(2), of w1]
    by (auto simp: claim_and_cleanup_def c r Let_def split: option.splits if_splits) (metis fst_conv)
  with e st show ?thesis using ended_moves by blast
qed

definition inspect_env_ok :: "string \<Rightarrow> string \<Rightarrow> string \<Rightarrow> 'v inspect_env \<Rightarrow> bool" where
  "inspect_env_ok dir p jid env \<longleftrightarrow>
     moment_ok dir p jid (ie_deadline env) \<and> moment_ok dir p jid (ie_apply env) \<and>
     moment_ok dir p jid (ie_cleanup env)"

lemma inspect_job_moves:
  assumes "inspect_env_ok dir p jid env"
  shows "moves dir p jid w (fst (inspect_job enc env oid job0 w))"
proof -
  let ?m = "ie_deadline env" and ?a = "ie_apply env" and ?c = "ie_cleanup env"
  have ok: "moment_ok dir p jid ?m" "moment_ok dir p jid ?a" "moment_ok dir p jid ?c"
    using assms by (simp_all add: inspect_env_ok_def)
  obtain w1 r where d: "ensure_deadline_intent enc (mo_io ?m) (mo_clk1 ?m) (mo_clk2 ?m) (mo_clk3 ?m)
      (mo_uuid ?m) job0 (mo_during ?m w) = (w1, r)"
    by (cases "ensure_deadline_intent enc (mo_io ?m) (mo_clk1 ?m) (mo_clk2 ?m) (mo_clk3 ?m)
      (mo_uuid ?m) job0 (mo_during ?m w)")
  have m1: "moves dir p jid w w1"
    using section_moves(5) [OF ok(1)] d by (metis fst_conv)
  have m2: "moves dir p jid w (fst (set_job_reason enc (mo_io ?a) (mo_clk1 ?a) job why (mo_during ?a w1)))"
    for job why
    using moves_trans [OF m1 section_moves(1) [OF ok(2)]] .
  have m3: "moves dir p jid w (fst (inspect_apply enc (mo_io ?a) (mo_clk1 ?a) (mo_clk2 ?a) (mo_clk3 ?a)
      (mo_uuid ?a) job resp (mo_during ?a w1)))" for job resp
    using moves_trans [OF m1 section_moves(6) [OF ok(2)]] .
  have m4: "moves dir p jid w (fst (cleanup_river_projection enc (mo_io ?c) rm t (mo_during ?c w2)))"
    if "moves dir p jid w w2" for rm t w2
    using moves_trans [OF that section_moves(8) [OF ok(3)]] .
  have m5: "moves dir p jid w (fst (case inspect_apply enc (mo_io ?a) (mo_clk1 ?a) (mo_clk2 ?a) (mo_clk3 ?a)
      (mo_uuid ?a) job resp (mo_during ?a w1) of
         (w2, Inl e) \<Rightarrow> (w2, Inl e) | (w2, Inr None) \<Rightarrow> (w2, Inr ())
       | (w2, Inr (Some t)) \<Rightarrow> cleanup_river_projection enc (mo_io ?c) (ie_removal env) t (mo_during ?c w2)))"
    for job resp
    using m3 [of job resp] m4 by (auto split: prod.split sum.split option.split)
  show ?thesis
    using m1 m2 m5 by (auto simp: inspect_job_def Let_def d split: sum.split)
qed

definition monitor_env_ok :: "string \<Rightarrow> string \<Rightarrow> string \<Rightarrow> 'v monitor_env \<Rightarrow> bool" where
  "monitor_env_ok dir p jid env \<longleftrightarrow>
     list_all (moment_ok dir p jid) [me_snapshot env, me_deadline env, me_claim env, me_cleanup env,
       me_reason env, me_current env] \<and>
     cancel_env_ok dir p jid (me_cancel env) \<and> inspect_env_ok dir p jid (me_inspect env)"

lemma then_simps:
  "then_return q = (w', MonReturn) \<longleftrightarrow> q = (w', Inr ())" "then_again a b q \<noteq> (w', MonReturn)"
  by (auto simp: then_return_def then_again_def split: prod.splits sum.splits)

lemma monitor_contain_ends:
  assumes "monitor_env_ok dir p (job_id job) env" "stored_at dir p w"
    and "monitor_contain enc env failures job intent w = (w', MonReturn)"
  shows "ended (job_id job) w'"
proof -
  have ok: "cancel_env_ok dir p (job_id job) (me_cancel env)" "moment_ok dir p (job_id job) (me_claim env)"
      "moment_ok dir p (job_id job) (me_cleanup env)"
    using assms(1) by (simp_all add: monitor_env_ok_def)
  obtain w1 r where c: "cancel_attempt enc (me_cancel env) (ti_operation_id intent) job intent w = (w1, r)"
    by (cases "cancel_attempt enc (me_cancel env) (ti_operation_id intent) job intent w")
  have "\<exists>i. r = Inr (Some i)"
  proof (cases r)
    case (Inl e)
    with assms(3) show ?thesis by (simp add: monitor_contain_def c Let_def then_simps)
  next
    case (Inr q)
    with assms(3) show ?thesis by (cases q) (simp_all add: monitor_contain_def c Let_def then_simps)
  qed
  then obtain i where r: "r = Inr (Some i)" by blast
  have "stored_at dir p w1"
    using cancel_attempt_moves [OF ok(1), of w enc] c moves_stored [OF _ assms(2)] by (metis fst_conv)
  moreover have "holds_intent job i w1"
    using cancel_attempt_holds [OF ok(1) assms(2)] c r by blast
  ultimately show ?thesis
    using claim_and_cleanup_ends [OF ok(2,3)] assms(3)
    by (auto simp: monitor_contain_def c r Let_def then_simps)
qed

lemma monitor_timeout_ends:
  assumes "monitor_env_ok dir p (job_id job) env" "stored_at dir p w"
    and "monitor_timeout enc env failures job0 job w = (w', MonReturn)"
  shows "ended (job_id job) w'"
proof -
  have ok: "cancel_env_ok dir p (job_id job) (me_cancel env)" "moment_ok dir p (job_id job) (me_claim env)"
      "moment_ok dir p (job_id job) (me_cleanup env)"
    using assms(1) by (simp_all add: monitor_env_ok_def)
  obtain now where now: "mo_clk2 (me_current env) = Inr now"
    using assms(3) by (cases "mo_clk2 (me_current env)") (simp_all add: monitor_timeout_def)
  let ?oid = "''timeout-'' @ me_timeout_uuid env"
  obtain w1 r where c: "cancel_attempt enc (me_cancel env) ?oid job (timeout_intent ?oid now) w = (w1, r)"
    by (cases "cancel_attempt enc (me_cancel env) ?oid job (timeout_intent ?oid now) w")
  have "\<exists>i. r = Inr (Some i)"
  proof (cases r)
    case (Inl e)
    with assms(3) show ?thesis by (simp add: monitor_timeout_def now c [simplified] Let_def then_simps)
  next
    case (Inr q)
    with assms(3) show ?thesis by (cases q) (simp_all add: monitor_timeout_def now c [simplified] Let_def then_simps)
  qed
  then obtain i where r: "r = Inr (Some i)" by blast
  have "stored_at dir p w1"
    using cancel_attempt_moves [OF ok(1), of w enc] c moves_stored [OF _ assms(2)] by (metis fst_conv)
  moreover have "holds_intent job i w1"
    using cancel_attempt_holds [OF ok(1) assms(2)] c r by blast
  ultimately show ?thesis
    using claim_and_cleanup_ends [OF ok(2,3)] assms(3)
    by (auto simp: monitor_timeout_def now c [simplified] r Let_def then_simps)
qed

text \<open>When the monitor of an attempt may stop: the job is gone, is another attempt, or has ended.\<close>

definition monitor_may_stop :: "string \<Rightarrow> string \<Rightarrow> u64 \<Rightarrow> 'v world \<Rightarrow> bool" where
  "monitor_may_stop jid att gen w \<longleftrightarrow>
     (case job_snapshot jid w of None \<Rightarrow> True | Some j \<Rightarrow> stale_attempt att gen j \<or> is_terminal j)"

lemma ended_may_stop: "ended jid w \<Longrightarrow> monitor_may_stop jid att gen w"
  by (auto simp: ended_def monitor_may_stop_def split: option.splits)

lemma job_snapshot_id: "job_snapshot jid w = Some j \<Longrightarrow> job_id j = jid"
  unfolding job_snapshot_def using find_job_SomeD by blast

lemma monitor_decided_may_stop:
  assumes "monitor_env_ok dir p jid env" "stored_at dir p w"
    and "monitor_decided enc env jid att gen failures job w = (w', MonReturn)"
  shows "monitor_may_stop jid att gen w'"
proof -
  let ?w = "mo_during (me_current env) w"
  have st: "stored_at dir p ?w"
    using assms(1,2) moves_stored moment_moves by (simp add: monitor_env_ok_def) blast
  show ?thesis
  proof (cases "job_snapshot jid ?w")
    case None
    with assms(3) show ?thesis by (simp add: monitor_decided_def Let_def monitor_may_stop_def)
  next
    case (Some current)
    show ?thesis
    proof (cases "stale_attempt att gen current \<or> is_terminal current")
      case True
      with assms(3) Some show ?thesis by (auto simp: monitor_decided_def Let_def monitor_may_stop_def)
    next
      case False
      obtain now where now: "mo_clk1 (me_current env) = Inr now"
        using assms(3) Some False by (cases "mo_clk1 (me_current env)") (simp_all add: monitor_decided_def Let_def)
      show ?thesis
      proof (cases "monitor_decide current now")
        case MonitorTimeout
        with assms(3) Some False now
        have "monitor_timeout enc env failures job current ?w = (w', MonReturn)"
          by (simp add: monitor_decided_def Let_def)
        with monitor_timeout_ends [of dir p current env ?w] assms(1) st job_snapshot_id [OF Some]
        show ?thesis using ended_may_stop by blast
      next
        case (MonitorInspect ms)
        with assms(3) Some False now show ?thesis
          by (simp add: monitor_decided_def Let_def then_simps split: prod.splits sum.splits)
      qed
    qed
  qed
qed

lemma ensure_deadline_intent_snapshot:
  assumes "ensure_deadline_intent enc io c1 c2 c3 uuid snapshot w = (w', Inr job)"
  shows "job = snapshot \<or> job_snapshot (job_id snapshot) w' = Some job"
proof -
  have "job = snapshot \<or> (\<exists>i. persist_terminal_intent enc io c3 snapshot
      (timeout_intent (''timeout-'' @ uuid) (projr c2)) w = (w', Inr i) \<and>
      job = (case job_snapshot (job_id snapshot) w' of Some j \<Rightarrow> j | None \<Rightarrow> snapshot))"
    using assms unfolding ensure_deadline_intent_def
    by (auto simp del: append.simps split: if_splits sum.splits prod.splits)
  then show ?thesis by (auto split: option.splits)
qed


text \<open>
  No process is signalled before its death warrant is on disk: when \<open>cancel_attempt\<close> is about to
  send a cancel request over the bridge, the ledger file already holds that very intent for that very
  attempt, and the request carries the intent's own operation id - also when an earlier request had
  installed the intent, so that a retry is the same mutation.
\<close>

theorem cancel_signal_is_durable:
  assumes "cancel_signal enc m oid job req w = (w', Inr (Some (i, request)))"
    and "(rt_step to_vec enc dir p)\<^sup>*\<^sup>* (used0, w0) (used, mo_during m w)"
    and "stored_at dir p w0" "snd w0 p = Some (Whole (ow_ledger (fst w0)))" "fresh_temp dir p (mo_io m)"
  shows "cq_operation_id request = ti_operation_id i \<and> cq_job_id request = job_id job \<and>
    (\<exists>d j'. snd w' p = Some (Whole d) \<and> j' \<in> set (jobs d) \<and> job_id j' = cq_job_id request \<and>
       attempt_id j' = cq_attempt_id request \<and> terminal_intent j' = Some i)"
proof -
  have s: "request = cancel_request_of i job"
    and t: "persist_terminal_intent enc (mo_io m) (mo_clk1 m) job req (mo_during m w) = (w', Inr (Some i))"
    using cancel_signal_holds [OF assms(1)] by simp_all
  have "rt_step to_vec enc dir p (used, mo_during m w) (used, w')"
    using rt_step.st_intent [OF assms(5), of to_vec enc used "mo_during m w" "mo_clk1 m" job req] t by simp
  with assms(2) have st: "(rt_step to_vec enc dir p)\<^sup>*\<^sup>* (used0, w0) (used, w')" by simp
  obtain j where j: "job_snapshot (job_id job) w' = Some j" "attempt_id j = attempt_id job"
      "terminal_intent j = Some i"
    using persist_terminal_intent_holds [OF t] by blast
  then have "j \<in> set (jobs (ow_ledger (fst w')))" "job_id j = job_id job"
    using find_job_SomeD unfolding job_snapshot_def by blast+
  with intents_are_durable_lemma [OF st assms(3,4) this(1) j(3)] j(2) show ?thesis
    by (auto simp: s cancel_request_of_def)
qed

section \<open>Idempotent cancellation\<close>

lemma find_binding_update_first:
  assumes "find_binding oid js = None" "List.find q js = Some j" "binding_of oid (f j) = Some b"
  shows "find_binding oid (update_first q f js) = Some (f j, b)"
  using assms by (induction js) (auto split: option.splits if_splits)

lemma find_binding_None:
  "find_binding oid js = None \<Longrightarrow> List.find q js = Some j \<Longrightarrow> binding_of oid j = None"
  by (induction js) (auto split: option.splits if_splits)

text \<open>
  Binding a cancel to its operation id is idempotent and exclusive: after it succeeded for an
  existing job, the operation id answers for that job, the same request is recognised as a replay,
  and the same id with another digest or another job is a conflict; none of these repeats changes
  anything in memory or on disk.
\<close>

theorem cancel_binding_idempotent:
  assumes "bind_cancel_operation enc io clk jid oid sha req w = (w', Inr BindBound)"
    and "job_snapshot jid w \<noteq> None"
  shows "operation (ow_ledger (fst w')) oid sha = OpReplayJob jid \<and>
    bind_cancel_operation enc io' clk' jid oid sha req w' = (w', Inr BindReplay) \<and>
    (\<forall>sha' jid'. sha' \<noteq> sha \<or> jid' \<noteq> jid \<longrightarrow>
       bind_cancel_operation enc io' clk' jid' oid sha' req w' = (w', Inr BindConflict))"
proof -
  let ?l = "ow_ledger (fst w)"
  let ?b = "\<lparr>mb_operation_id = oid, mb_action_sha256 = sha\<rparr>"
  let ?bind = "\<lambda>j. j\<lparr>mutation_operations := mutation_operations j @ [?b]\<rparr>"
  obtain job where job: "find_job ?l jid = Some job" using assms(2) by (auto simp: job_snapshot_def)
  have id: "job_id job = jid" using job find_job_SomeD by blast
  have req: "ti_operation_id req = oid" using assms(1) by (auto simp: bind_cancel_operation_def split: if_splits)
  have miss: "operation ?l oid sha = OpMissing"
    using assms(1) req by (auto simp: bind_cancel_operation_def Let_def split: operation_lookup.splits if_splits)
  then have nb: "find_binding oid (jobs ?l) = None" by (simp add: operation_Missing)
  have none: "List.find (\<lambda>b. mb_operation_id b = oid) (mutation_operations job) = None"
    using find_binding_None [OF nb job [unfolded find_job_def]] by (simp add: binding_of_def)
  have led: "\<exists>f. ow_ledger (fst w') = modify_job jid f ?l \<and> job_id (f job) = jid \<and> binding_of oid (f job) = Some ?b"
  proof (cases "\<not> is_terminal job \<and> terminal_intent job = None")
    case False
    then have "replace_ledger_atomically enc io (modify_job jid ?bind ?l) w = (w', Inr ())"
      using assms(1) req miss job
      by (auto simp: bind_cancel_operation_def Let_def split: prod.splits sum.splits)
    then have "ow_ledger (fst w') = modify_job jid ?bind ?l"
      by (auto simp: replace_ledger_atomically_def split: prod.splits option.splits sum.splits)
    then show ?thesis
      by (intro exI [of _ ?bind]) (simp add: id binding_of_def find_append none)
  next
    case True
    obtain now where clk: "clk = Inr now"
      using assms(1) req miss job True by (cases clk) (simp_all add: bind_cancel_operation_def Let_def)
    let ?f = "\<lambda>j. (?bind j)\<lparr>terminal_intent := Some req, updated_at_ms := now\<rparr>"
    have "replace_ledger_atomically enc io (modify_job jid ?f ?l) w = (w', Inr ())"
      using assms(1) req miss job True clk
      by (auto simp: bind_cancel_operation_def Let_def split: prod.splits sum.splits)
    then have "ow_ledger (fst w') = modify_job jid ?f ?l"
      by (auto simp: replace_ledger_atomically_def split: prod.splits option.splits sum.splits)
    then show ?thesis
      by (intro exI [of _ ?f]) (simp add: id binding_of_def find_append none)
  qed
  then obtain f where f: "ow_ledger (fst w') = modify_job jid f ?l" "job_id (f job) = jid"
      "binding_of oid (f job) = Some ?b" by blast
  have "find_binding oid (jobs (ow_ledger (fst w'))) = Some (f job, ?b)"
    using find_binding_update_first [OF nb job [unfolded find_job_def], of f] f
    by (simp add: jobs_modify_job)
  then have op: "operation (ow_ledger (fst w')) oid sha' = (if sha' = sha then OpReplayJob jid else OpConflict)"
    for sha' using f(2) by (simp add: operation_def)
  show ?thesis using op req by (auto simp: bind_cancel_operation_def Let_def)
qed

lemma cancel_binding_idempotent_witness:
  "\<exists>w'. bind_cancel_operation demo_enc (quiet_io ''u'') (Inr 9) ''a'' ''op-2'' ''bb'' demo_intent
       (demo_world [sample_job ''a'' Running]) = (w', Inr BindBound) \<and>
     bind_cancel_operation demo_enc (quiet_io ''v'') (Inr 10) ''a'' ''op-2'' ''bb'' demo_intent w' = (w', Inr BindReplay)"
proof -
  let ?w = "demo_world [sample_job ''a'' Running]"
  let ?r = "bind_cancel_operation demo_enc (quiet_io ''u'') (Inr 9) ''a'' ''op-2'' ''bb'' demo_intent ?w"
  have "snd ?r = Inr BindBound"
    by (simp add: bind_cancel_operation_def demo_replaces Let_def operation_def find_job_def
        binding_of_def sample_job_def is_terminal_def demo_intent_def ledger_empty_def)
  then obtain w' where r: "?r = (w', Inr BindBound)" by (metis prod.collapse)
  have "job_snapshot ''a'' ?w \<noteq> None" by (simp add: job_snapshot_def find_job_def sample_job_def)
  from cancel_binding_idempotent [OF r this] r show ?thesis by blast
qed

section \<open>Lost leases\<close>

text \<open>
  What the inspection does on a lost foreground lease: a live attempt without a terminal intent
  whose process is still running gets no intent, and stays Running, however the lease was reported.
  The documented behaviour is the opposite (an Interrupted intent); the call passes the negation of
  the flag that \<open>inspect_lease_facts\<close> expects.
\<close>

theorem lease_loss_records_no_intent:
  assumes "inspect_apply enc io clk1 clk2 clk3 uuid job r w = (w', Inr x)"
    and "job_snapshot (job_id job) w = Some job" "\<not> is_terminal job" "terminal_intent job = None"
    and "ir_state r = ProcRunning" "ir_background_lease_lost r"
  shows "\<exists>j'. job_snapshot (job_id job) w' = Some j' \<and> terminal_intent j' = None \<and> job_st j' = Running"
proof -
  let ?l = "ow_ledger (fst w)"
  let ?out = "\<lparr>pf_stdout_bytes = ir_stdout_bytes r, pf_stderr_bytes = ir_stderr_bytes r,
     pf_stdout_truncated = ir_stdout_truncated r, pf_stderr_truncated = ir_stderr_truncated r\<rparr>"
  obtain now where clk: "clk1 = Inr now"
    using assms(1) by (cases clk1) (simp_all add: inspect_apply_def split: prod.splits)
  let ?f = "\<lambda>j. observe_state ObsRunning ((observe_output ObsRunning ?out j)\<lparr>updated_at_ms := now\<rparr>)"
  have f: "inspect_lease_facts (ir_state r) (ir_exit_code r) (ir_background_lease_lost r)
      (terminal_intent job = None) = (ObsRunning, False)"
    using assms(4-6) by (simp add: inspect_lease_facts_def)
  have fj: "find_job ?l (job_id job) = Some job" using assms(2) by (simp add: job_snapshot_def)
  have a: "apply_process_observation ?l (job_id job) (attempt_id job) (job_generation job) ObsRunning ?out now
      = (modify_job (job_id job) ?f ?l, True)"
    using fj assms(3) by (simp add: apply_process_observation_def fenced_def)
  obtain w1 q where r1: "replace_ledger_atomically enc io (modify_job (job_id job) ?f ?l) w = (w1, q)"
    by (cases "replace_ledger_atomically enc io (modify_job (job_id job) ?f ?l) w")
  have q: "q = Inr ()" "w' = w1"
    using assms(1) r1 by (cases q; simp add: inspect_apply_def f clk a Let_def)+
  have "ow_ledger (fst w1) = modify_job (job_id job) ?f ?l"
    using r1 q(1) by (auto simp: replace_ledger_atomically_def split: prod.splits option.splits sum.splits)
  moreover have "find_job (modify_job (job_id job) ?f ?l) (job_id job) = Some (?f job)"
    using fj by (rule find_job_modify_same) simp
  moreover have "job_st (?f job) = Running" using assms(4) by (simp add: observe_state_def)
  ultimately show ?thesis using q(2) assms(4) by (simp add: job_snapshot_def)
qed

definition demo_inspect :: inspect_response where
  "demo_inspect = \<lparr>ir_operation_id = ''i'', ir_job_id = ''a'', ir_attempt_id = ''a-a'', ir_generation = 1,
     ir_state = ProcRunning, ir_exit_code = None, ir_stdout_bytes = 3, ir_stderr_bytes = 0,
     ir_stdout_truncated = False, ir_stderr_truncated = False, ir_background_lease_lost = True\<rparr>"

lemma lease_loss_records_no_intent_witness:
  "\<exists>w' x j'. inspect_apply demo_enc (quiet_io ''u'') (Inr 9) (Inr 9) (Inr 9) ''u'' (sample_job ''a'' Running)
       demo_inspect (demo_world [sample_job ''a'' Running]) = (w', Inr x) \<and>
     job_snapshot ''a'' w' = Some j' \<and> terminal_intent j' = None \<and> job_st j' = Running"
proof -
  let ?w = "demo_world [sample_job ''a'' Running]"
  let ?r = "inspect_apply demo_enc (quiet_io ''u'') (Inr 9) (Inr 9) (Inr 9) ''u'' (sample_job ''a'' Running)
       demo_inspect ?w"
  have "snd ?r = Inr None"
    by (simp add: inspect_apply_def inspect_lease_facts_def demo_inspect_def Let_def sample_job_def
        apply_process_observation_def find_job_def fenced_def is_terminal_def demo_replaces
        modify_job_def observe_state_def observe_output_def)
  then obtain w' where r: "?r = (w', Inr None)" by (metis prod.collapse)
  have a: "job_snapshot (job_id (sample_job ''a'' Running)) ?w = Some (sample_job ''a'' Running)"
      "\<not> is_terminal (sample_job ''a'' Running)" "terminal_intent (sample_job ''a'' Running) = None"
      "ir_state demo_inspect = ProcRunning" "ir_background_lease_lost demo_inspect"
    by (simp_all add: job_snapshot_def find_job_def sample_job_def is_terminal_def demo_inspect_def)
  from lease_loss_records_no_intent [OF r a] r show ?thesis by (auto simp: sample_job_def)
qed

section \<open>Concrete rounds\<close>

definition demo_moment :: "nat moment" where
  "demo_moment = \<lparr>mo_during = (\<lambda>w. w), mo_clk1 = Inr 9, mo_clk2 = Inr 9, mo_clk3 = Inr 9,
     mo_uuid = ''u'', mo_io = quiet_io ''u''\<rparr>"

lemma demo_moment_fields [simp]:
  "mo_during demo_moment w = w" "mo_clk1 demo_moment = Inr 9" "mo_clk2 demo_moment = Inr 9"
  "mo_clk3 demo_moment = Inr 9" "mo_uuid demo_moment = ''u''" "mo_io demo_moment = quiet_io ''u''"
  by (simp_all add: demo_moment_def)

lemma demo_moment_ok: "moment_ok ''/d'' ''/d/l'' jid demo_moment"
  by (simp add: moment_ok_def demo_fresh)

lemma cancel_signal_is_durable_witness:
  "\<exists>w'. cancel_signal demo_enc demo_moment ''op-2'' (sample_job ''a'' Running) demo_intent
       (demo_world [sample_job ''a'' Running]) =
       (w', Inr (Some (demo_intent, cancel_request_of demo_intent (sample_job ''a'' Running)))) \<and>
     (\<exists>d. snd w' ''/d/l'' = Some (Whole d) \<and> (\<exists>j \<in> set (jobs d). terminal_intent j = Some demo_intent))"
proof -
  let ?w = "demo_world [sample_job ''a'' Running]"
  let ?r = "cancel_signal demo_enc demo_moment ''op-2'' (sample_job ''a'' Running) demo_intent ?w"
  have "snd ?r = Inr (Some (demo_intent, cancel_request_of demo_intent (sample_job ''a'' Running)))"
    by (simp add: cancel_signal_def persist_terminal_intent_def demo_replaces request_terminal_intent_def
        find_job_def fenced_def is_terminal_def sample_job_def Let_def demo_intent_def)
  then obtain w' where r: "?r = (w', Inr (Some (demo_intent, cancel_request_of demo_intent (sample_job ''a'' Running))))"
    by (metis prod.collapse)
  have st: "(rt_step (\<lambda>v. Inr []) demo_enc ''/d'' ''/d/l'')\<^sup>*\<^sup>* ({}, ?w) ({}, mo_during demo_moment ?w)"
    by simp
  have f: "fresh_temp ''/d'' ''/d/l'' (mo_io demo_moment)" by (simp add: demo_fresh)
  from cancel_signal_is_durable [OF r st demo_stored demo_on_disk f] r show ?thesis by blast
qed

definition demo_cancel_env :: "nat cancel_env" where
  "demo_cancel_env = \<lparr>ce_intent = demo_moment,
     ce_answer = Inr \<lparr>cr_operation_id = ''op-2'', cr_job_id = ''a'', cr_attempt_id = ''a-a'', cr_generation = 1,
       cr_found = True, cr_term_sent = True, cr_kill_sent = False, cr_group_gone = True, cr_exit_code = None\<rparr>,
     ce_refresh = [], ce_final = demo_moment\<rparr>"

definition demo_monitor_env :: "nat monitor_env" where
  "demo_monitor_env = \<lparr>me_snapshot = demo_moment, me_deadline = demo_moment, me_cancel = demo_cancel_env,
     me_claim = demo_moment, me_cleanup = demo_moment, me_removal = Inr (), me_reason = demo_moment,
     me_inspect = \<lparr>ie_deadline = demo_moment, ie_answer = Inl ''down'', ie_apply = demo_moment,
       ie_cleanup = demo_moment, ie_removal = Inr ()\<rparr>,
     me_inspect_uuid = ''i'', me_current = demo_moment, me_timeout_uuid = ''t'', me_ws_clk = Inr 9,
     me_ws_usage = Inr (), me_ws_check = demo_moment, me_ws_live = demo_moment,
     me_ws_stops = (\<lambda>n. \<lparr>se_uuid = ''s'', se_clk = Inr 9, se_cancel = demo_cancel_env, se_claim = demo_moment,
       se_cleanup = demo_moment, se_removal = Inr ()\<rparr>)\<rparr>"


end
