(* ===== verification/Sync_Types.thy ===== *)
theory Sync_Types
  imports Rust_Str
begin

text \<open>
  The identities and closed vocabularies of the synchronisation protocol
  (\<open>chat/topic_types.rs\<close>, \<open>sync/sync_types.rs\<close>): owner, topic and message keys with the
  ordering Rust derives for them, and the enums with their wire names. The derived \<open>Ord\<close> of
  \<open>OwnerKey\<close> and \<open>TopicKey\<close> compares the fields in declaration order, each as bytes; it is the
  \<open>linorder\<close> instance below, so that the library's \<open>sort\<close> is the code's \<open>sort()\<close>.
\<close>

section \<open>Keys\<close>

datatype owner_key = OwnerKey (ok_owner_type: string) (ok_owner_id: string)

datatype topic_key = TopicKey (tk_owner_type: string) (tk_owner_id: string) (tk_topic_id: string)

datatype message_key = MessageKey (mk_topic: topic_key) (mk_msg_id: string)

instantiation topic_key :: linorder
begin

definition less_eq_topic_key :: "topic_key \<Rightarrow> topic_key \<Rightarrow> bool" where
  "less_eq_topic_key a b \<longleftrightarrow>
     tk_owner_type a < tk_owner_type b \<or>
     (tk_owner_type a = tk_owner_type b \<and>
       (tk_owner_id a < tk_owner_id b \<or>
        (tk_owner_id a = tk_owner_id b \<and> tk_topic_id a \<le> tk_topic_id b)))"

definition less_topic_key :: "topic_key \<Rightarrow> topic_key \<Rightarrow> bool" where
  "less_topic_key a b \<longleftrightarrow>
     tk_owner_type a < tk_owner_type b \<or>
     (tk_owner_type a = tk_owner_type b \<and>
       (tk_owner_id a < tk_owner_id b \<or>
        (tk_owner_id a = tk_owner_id b \<and> tk_topic_id a < tk_topic_id b)))"

instance
proof
  fix x y z :: topic_key
  show "(x < y) = (x \<le> y \<and> \<not> y \<le> x)"
    by (auto simp: less_eq_topic_key_def less_topic_key_def)
  show "x \<le> x"
    by (simp add: less_eq_topic_key_def)
  show "x \<le> y \<Longrightarrow> y \<le> z \<Longrightarrow> x \<le> z"
    by (auto simp: less_eq_topic_key_def)
  show "x \<le> y \<Longrightarrow> y \<le> x \<Longrightarrow> x = y"
    by (cases x; cases y) (auto simp: less_eq_topic_key_def)
  show "x \<le> y \<or> y \<le> x"
    by (auto simp: less_eq_topic_key_def)
qed

end

definition topic_key_is_valid :: "topic_key \<Rightarrow> bool" where
  "topic_key_is_valid k \<longleftrightarrow>
     (tk_owner_type k = ''agent'' \<or> tk_owner_type k = ''group'') \<and>
     tk_owner_id k \<noteq> [] \<and> tk_topic_id k \<noteq> []"

definition resolve_topic_activity_updated_at :: "int \<Rightarrow> int \<Rightarrow> int \<Rightarrow> int" where
  "resolve_topic_activity_updated_at topic_updated_at last_message_updated_at created_at =
     (let topic_activity = (if 0 < topic_updated_at then topic_updated_at else created_at) in
      if 0 < last_message_updated_at then max topic_activity last_message_updated_at
      else topic_activity)"

section \<open>Closed vocabularies\<close>

datatype manifest_type = MOwner | MTopic | MAvatar

fun manifest_type_str :: "manifest_type \<Rightarrow> string" where
  "manifest_type_str MOwner = ''owner''"
| "manifest_type_str MTopic = ''topic''"
| "manifest_type_str MAvatar = ''avatar''"

datatype owner_type = OAgent | OGroup

fun owner_type_str :: "owner_type \<Rightarrow> string" where
  "owner_type_str OAgent = ''agent''"
| "owner_type_str OGroup = ''group''"

definition owner_type_of :: "string \<Rightarrow> owner_type option" where
  "owner_type_of s =
     (if s = ''agent'' then Some OAgent else if s = ''group'' then Some OGroup else None)"

datatype avatar_owner_type = AvAgent | AvGroup | AvUser

fun avatar_owner_type_str :: "avatar_owner_type \<Rightarrow> string" where
  "avatar_owner_type_str AvAgent = ''agent''"
| "avatar_owner_type_str AvGroup = ''group''"
| "avatar_owner_type_str AvUser = ''user''"

definition avatar_owner_type_of :: "string \<Rightarrow> avatar_owner_type option" where
  "avatar_owner_type_of s =
     (if s = ''agent'' then Some AvAgent else if s = ''group'' then Some AvGroup
      else if s = ''user'' then Some AvUser else None)"

definition is_valid_avatar_owner :: "string \<Rightarrow> string \<Rightarrow> bool" where
  "is_valid_avatar_owner owner_type owner_id =
     (case avatar_owner_type_of owner_type of
        Some AvUser \<Rightarrow> owner_id = ''user_avatar''
      | Some _ \<Rightarrow> owner_id \<noteq> []
      | None \<Rightarrow> False)"

datatype manifest_action = APull | APush | APullDelete | APushDelete | ASkip

fun manifest_action_str :: "manifest_action \<Rightarrow> string" where
  "manifest_action_str APull = ''PULL''"
| "manifest_action_str APush = ''PUSH''"
| "manifest_action_str APullDelete = ''PULL_DELETE''"
| "manifest_action_str APushDelete = ''PUSH_DELETE''"
| "manifest_action_str ASkip = ''SKIP''"

definition action_is_delete :: "manifest_action \<Rightarrow> bool" where
  "action_is_delete a \<longleftrightarrow> a = APullDelete \<or> a = APushDelete"

datatype sync_phase = OwnerMetadata | TopicMetadata | Messages

fun sync_phase_str :: "sync_phase \<Rightarrow> string" where
  "sync_phase_str OwnerMetadata = ''owner_metadata''"
| "sync_phase_str TopicMetadata = ''topic_metadata''"
| "sync_phase_str Messages = ''messages''"

section \<open>Selectors and targets\<close>

datatype entity_selector =
    SelOwner owner_type string
  | SelTopic owner_type string string

definition selector_topic :: "topic_key \<Rightarrow> string + entity_selector" where
  "selector_topic key =
     (case owner_type_of (tk_owner_type key) of
        None \<Rightarrow> Inl ''Entity topic selector requires agent/group ownerType''
      | Some ot \<Rightarrow>
          if tk_owner_id key = [] \<or> tk_topic_id key = []
          then Inl ''Entity topic selector requires complete identity''
          else Inr (SelTopic ot (tk_owner_id key) (tk_topic_id key)))"

fun selector_label :: "entity_selector \<Rightarrow> string" where
  "selector_label (SelOwner ot oid) = ''owner/'' @ owner_type_str ot @ ''/'' @ oid"
| "selector_label (SelTopic ot oid tid) =
     ''topic/'' @ owner_type_str ot @ ''/'' @ oid @ ''/'' @ tid"

fun selector_topic_id :: "entity_selector \<Rightarrow> string option" where
  "selector_topic_id (SelOwner ot oid) = None"
| "selector_topic_id (SelTopic ot oid tid) = Some tid"

datatype delete_target =
    DelOwner owner_type string
  | DelTopic topic_key
  | DelAvatar avatar_owner_type string
  | DelMessage message_key

definition MAX_SAFE_JSON_INTEGER :: int where
  "MAX_SAFE_JSON_INTEGER = 2 ^ 53 - 1"

section \<open>Facts\<close>

lemma owner_type_of_str [simp]: "owner_type_of (owner_type_str ot) = Some ot"
  by (cases ot) (simp_all add: owner_type_of_def)

lemma owner_type_of_Some: "owner_type_of s = Some ot \<longleftrightarrow> s = owner_type_str ot"
  by (cases ot) (auto simp: owner_type_of_def)

lemma avatar_owner_type_of_str [simp]:
  "avatar_owner_type_of (avatar_owner_type_str ot) = Some ot"
  by (cases ot) (simp_all add: avatar_owner_type_of_def)

lemma owner_type_str_inj [simp]: "owner_type_str a = owner_type_str b \<longleftrightarrow> a = b"
  by (cases a; cases b) simp_all

lemma avatar_owner_type_str_inj [simp]:
  "avatar_owner_type_str a = avatar_owner_type_str b \<longleftrightarrow> a = b"
  by (cases a; cases b) simp_all

lemma valid_topic_selector:
  "topic_key_is_valid key \<Longrightarrow> \<exists>sel. selector_topic key = Inr sel"
  by (auto simp: topic_key_is_valid_def selector_topic_def owner_type_of_def)

text \<open>A list of topic keys sorted in the derived order and without repetition is determined by
  its set.\<close>

lemma sorted_keys_unique:
  fixes xs ys :: "topic_key list"
  assumes "sorted xs" "distinct xs" "sorted ys" "distinct ys" "set xs = set ys"
  shows "xs = ys"
  using sorted_distinct_set_unique [of xs ys] assms by blast

end
