(* ===== verification/Sync_Hash.thy ===== *)
theory Sync_Hash
  imports Sync_Types "HOL-Library.Multiset"
begin

text \<open>
  The hashing side of the synchronisation: the canonical JSON writer and the Merkle aggregation of
  \<open>sync/sync_types.rs\<close>, the message fingerprint, the keyed leaves and the aggregates of
  \<open>sync/sync_hash.rs\<close>. SHA-256, the string escaping of \<open>serde_json::to_writer\<close> and the
  printing of floating-point numbers are third-party code: they are the parameters \<open>sha\<close>,
  \<open>esc\<close> and \<open>fmt\<close>. What the code relies on is named \<open>serde_text\<close> for the last
  two (documented: a JSON string literal is self-delimiting, a float is printed with a fraction or
  an exponent); the hash enters a theorem only through the inputs it is compared on.
\<close>

section \<open>JSON values and the canonical writer\<close>

text \<open>
  \<open>serde_json::Value\<close>; an object is the list of its entries in insertion order, a number an
  integer or a float.
\<close>

datatype 'f json =
    JNull
  | JBool bool
  | JInt int
  | JFloat 'f
  | JStr string
  | JArr "'f json list"
  | JObj "(string \<times> 'f json) list"

primrec write_stable_json :: "(string \<Rightarrow> string) \<Rightarrow> ('f \<Rightarrow> string) \<Rightarrow> 'f json \<Rightarrow> string" where
  "write_stable_json esc fmt JNull = ''null''"
| "write_stable_json esc fmt (JBool b) = (if b then ''true'' else ''false'')"
| "write_stable_json esc fmt (JInt i) = int_str i"
| "write_stable_json esc fmt (JFloat x) = fmt x"
| "write_stable_json esc fmt (JStr s) = esc s"
| "write_stable_json esc fmt (JArr xs) =
     ''['' @ str_join '','' (map (write_stable_json esc fmt) xs) @ '']''"
| "write_stable_json esc fmt (JObj kvs) =
     ''{'' @ str_join '','' (map (\<lambda>(k, t). esc k @ '':'' @ t)
        (sort_key fst (map (map_prod id (write_stable_json esc fmt)) kvs))) @ ''}''"

text \<open>The value with the entries of every object in byte order of their keys.\<close>

primrec canon :: "'f json \<Rightarrow> 'f json" where
  "canon JNull = JNull"
| "canon (JBool b) = JBool b"
| "canon (JInt i) = JInt i"
| "canon (JFloat x) = JFloat x"
| "canon (JStr s) = JStr s"
| "canon (JArr xs) = JArr (map canon xs)"
| "canon (JObj kvs) = JObj (sort_key fst (map (map_prod id canon) kvs))"

text \<open>The writer without the sorting.\<close>

primrec plain_json :: "(string \<Rightarrow> string) \<Rightarrow> ('f \<Rightarrow> string) \<Rightarrow> 'f json \<Rightarrow> string" where
  "plain_json esc fmt JNull = ''null''"
| "plain_json esc fmt (JBool b) = (if b then ''true'' else ''false'')"
| "plain_json esc fmt (JInt i) = int_str i"
| "plain_json esc fmt (JFloat x) = fmt x"
| "plain_json esc fmt (JStr s) = esc s"
| "plain_json esc fmt (JArr xs) =
     ''['' @ str_join '','' (map (plain_json esc fmt) xs) @ '']''"
| "plain_json esc fmt (JObj kvs) =
     ''{'' @ str_join '','' (map (\<lambda>(k, t). esc k @ '':'' @ t)
        (map (map_prod id (plain_json esc fmt)) kvs)) @ ''}''"

section \<open>Hashes\<close>

definition compute_deterministic_hash ::
  "(string \<Rightarrow> string) \<Rightarrow> (string \<Rightarrow> string) \<Rightarrow> ('f \<Rightarrow> string) \<Rightarrow> 'f json \<Rightarrow> string" where
  "compute_deterministic_hash sha esc fmt v = sha (write_stable_json esc fmt v)"

definition compute_merkle_root :: "(string \<Rightarrow> string) \<Rightarrow> string list \<Rightarrow> string" where
  "compute_merkle_root sha hashes = (if hashes = [] then [] else sha (concat (sort hashes)))"

record fingerprint_fields =
  fp_message_id :: string
  fp_role :: string
  fp_name :: "string option"
  fp_content :: string
  fp_timestamp :: u64
  fp_agent_id :: "string option"
  fp_attachment_hashes :: "string list"

definition fingerprint_map :: "fingerprint_fields \<Rightarrow> 'f json" where
  "fingerprint_map m =
     JObj ([(''id'', JStr (fp_message_id m)), (''role'', JStr (fp_role m))]
       @ (case fp_name m of None \<Rightarrow> [] | Some n \<Rightarrow> [(''name'', JStr n)])
       @ [(''content'', JStr (fp_content m)), (''timestamp'', JInt (uint (fp_timestamp m)))]
       @ (case fp_agent_id m of None \<Rightarrow> [] | Some a \<Rightarrow> [(''agentId'', JStr a)])
       @ (let hs = sort (fp_attachment_hashes m) in
          if hs = [] then [] else [(''attachmentHashes'', JArr (map JStr hs))]))"

definition compute_message_fingerprint ::
  "(string \<Rightarrow> string) \<Rightarrow> (string \<Rightarrow> string) \<Rightarrow> ('f \<Rightarrow> string) \<Rightarrow> fingerprint_fields \<Rightarrow> string" where
  "compute_message_fingerprint sha esc fmt m =
     compute_deterministic_hash sha esc fmt (fingerprint_map m)"

definition message_leaf :: "string \<Rightarrow> string \<Rightarrow> 'f json" where
  "message_leaf message_id message_hash =
     JObj [(''id'', JStr message_id), (''hash'', JStr message_hash)]"

definition compute_message_leaf_hash ::
  "(string \<Rightarrow> string) \<Rightarrow> (string \<Rightarrow> string) \<Rightarrow> ('f \<Rightarrow> string) \<Rightarrow> string \<Rightarrow> string \<Rightarrow> string" where
  "compute_message_leaf_hash sha esc fmt message_id message_hash =
     compute_deterministic_hash sha esc fmt (message_leaf message_id message_hash)"

definition topic_leaf :: "string \<Rightarrow> string \<Rightarrow> string \<Rightarrow> 'f json" where
  "topic_leaf topic_id config_hash content_hash =
     JObj [(''topicId'', JStr topic_id), (''configHash'', JStr config_hash),
           (''contentHash'', JStr content_hash)]"

definition compute_topic_leaf_hash ::
  "(string \<Rightarrow> string) \<Rightarrow> (string \<Rightarrow> string) \<Rightarrow> ('f \<Rightarrow> string) \<Rightarrow>
   string \<Rightarrow> string \<Rightarrow> string \<Rightarrow> string" where
  "compute_topic_leaf_hash sha esc fmt topic_id config_hash content_hash =
     compute_deterministic_hash sha esc fmt (topic_leaf topic_id config_hash content_hash)"

record agent_topic_dto =
  atd_id :: string
  atd_name :: string
  atd_created_at :: int
  atd_locked :: bool
  atd_unread :: bool
  atd_owner_id :: string
  atd_config_hash :: string
  atd_updated_at :: int

record group_topic_dto =
  gtd_id :: string
  gtd_name :: string
  gtd_created_at :: int
  gtd_owner_id :: string
  gtd_config_hash :: string
  gtd_updated_at :: int

definition compute_agent_topic_metadata_hash ::
  "(string \<Rightarrow> string) \<Rightarrow> (string \<Rightarrow> string) \<Rightarrow> ('f \<Rightarrow> string) \<Rightarrow> agent_topic_dto \<Rightarrow> string" where
  "compute_agent_topic_metadata_hash sha esc fmt dto =
     compute_deterministic_hash sha esc fmt
       (JObj [(''id'', JStr (atd_id dto)), (''name'', JStr (atd_name dto)),
              (''createdAt'', JInt (atd_created_at dto)), (''locked'', JBool (atd_locked dto)),
              (''unread'', JBool (atd_unread dto))])"

definition compute_group_topic_metadata_hash ::
  "(string \<Rightarrow> string) \<Rightarrow> (string \<Rightarrow> string) \<Rightarrow> ('f \<Rightarrow> string) \<Rightarrow> group_topic_dto \<Rightarrow> string" where
  "compute_group_topic_metadata_hash sha esc fmt dto =
     compute_deterministic_hash sha esc fmt
       (JObj [(''id'', JStr (gtd_id dto)), (''name'', JStr (gtd_name dto)),
              (''createdAt'', JInt (gtd_created_at dto))])"

text \<open>
  The rows the query of \<open>compute_topic_content_aggregate\<close> returns: message id, content hash,
  update time. The count must fit an \<open>i32\<close>.
\<close>

definition compute_topic_content_aggregate ::
  "(string \<Rightarrow> string) \<Rightarrow> (string \<Rightarrow> string) \<Rightarrow> ('f \<Rightarrow> string) \<Rightarrow> topic_key \<Rightarrow>
   (string \<times> string \<times> int) list \<Rightarrow> string + (string \<times> int \<times> int)" where
  "compute_topic_content_aggregate sha esc fmt key rows =
     (if 2 ^ 31 \<le> int (length rows)
      then Inl (''Topic '' @ tk_topic_id key @ '' message count exceeds i32'')
      else Inr (compute_merkle_root sha
                  (map (\<lambda>(mid, h, t). compute_message_leaf_hash sha esc fmt mid h) rows),
                int (length rows),
                fold (\<lambda>(mid, h, t) latest. max latest t) rows 0))"

text \<open>\<open>compute_agent_root_hash\<close> and \<open>compute_group_root_hash\<close> on the rows of their queries.\<close>

definition compute_owner_root_hash ::
  "(string \<Rightarrow> string) \<Rightarrow> (string \<Rightarrow> string) \<Rightarrow> ('f \<Rightarrow> string) \<Rightarrow>
   (string \<times> string \<times> string) list \<Rightarrow> string" where
  "compute_owner_root_hash sha esc fmt rows =
     compute_merkle_root sha
       (map (\<lambda>(tid, cfg, content). compute_topic_leaf_hash sha esc fmt tid cfg content) rows)"

section \<open>What the writer relies on\<close>

definition num_char :: "char \<Rightarrow> bool" where
  "num_char c \<longleftrightarrow> is_digit c \<or> c \<in> {CHR ''-'', CHR ''+'', CHR ''.'', CHR ''e'', CHR ''E''}"

definition serde_text :: "(string \<Rightarrow> string) \<Rightarrow> ('f \<Rightarrow> string) \<Rightarrow> bool" where
  "serde_text esc fmt \<longleftrightarrow>
     (\<forall>s. \<exists>t. esc s = CHR 0x22 # t) \<and>
     (\<forall>s t u v. esc s @ u = esc t @ v \<longrightarrow> s = t \<and> u = v) \<and>
     (\<forall>x. \<exists>c t. fmt x = c # t \<and> (is_digit c \<or> c = CHR ''-'')) \<and>
     (\<forall>x. list_all num_char (fmt x)) \<and>
     (\<forall>x. \<exists>c \<in> set (fmt x). \<not> is_digit c \<and> c \<noteq> CHR ''-'') \<and>
     (\<forall>x y. fmt x = fmt y \<longrightarrow> x = y)"


lemma serde_textD:
  assumes "serde_text esc fmt"
  shows "\<exists>t. esc s = CHR 0x22 # t"
    and "esc s @ u = esc s' @ v \<Longrightarrow> s = s' \<and> u = v"
    and "\<exists>c t. fmt x = c # t \<and> (is_digit c \<or> c = CHR ''-'')"
    and "list_all num_char (fmt x)"
    and "\<exists>c \<in> set (fmt x). \<not> is_digit c \<and> c \<noteq> CHR ''-''"
    and "fmt x = fmt y \<Longrightarrow> x = y"
  using assms unfolding serde_text_def by blast+

section \<open>The sorted writer is the plain writer on the canonical value\<close>

lemma insort_key_map_prod:
  "insort_key fst (map_prod id f x) (map (map_prod id f) xs) = map (map_prod id f) (insort_key fst x xs)"
  by (induction xs) auto

lemma sort_key_map_prod:
  "sort_key fst (map (map_prod id f) xs) = map (map_prod id f) (sort_key fst xs)"
proof (induction xs)
  case (Cons x xs)
  then show ?case by (simp only: list.map sort_key_simps insort_key_map_prod)
qed simp

lemma write_stable_json_canon: "write_stable_json esc fmt j = plain_json esc fmt (canon j)"
proof (induction j)
  case (JArr xs)
  then have "map (write_stable_json esc fmt) xs = map (plain_json esc fmt) (map canon xs)" by simp
  then show ?case by (simp only: write_stable_json.simps canon.simps plain_json.simps)
next
  case (JObj kvs)
  have e: "map (map_prod id (write_stable_json esc fmt)) kvs =
      map (map_prod id (plain_json esc fmt)) (map (map_prod id canon) kvs)"
    using JObj by (fastforce intro: map_cong)
  show ?case
    by (simp only: write_stable_json.simps canon.simps plain_json.simps e sort_key_map_prod)
qed simp_all

section \<open>The plain writer is self-delimiting\<close>

definition delim :: "string \<Rightarrow> bool" where
  "delim u \<longleftrightarrow> (case u of [] \<Rightarrow> True | c # _ \<Rightarrow> c \<in> {CHR '','', CHR '']'', CHR ''}''})"

lemma delim_simps [simp]:
  "delim []" "delim (CHR '','' # u)" "delim (CHR '']'' # u)" "delim (CHR ''}'' # u)"
  by (simp_all add: delim_def)

lemma num_prefix:
  assumes "list_all num_char a" "list_all num_char b" "delim u" "delim v" "a @ u = b @ v"
  shows "a = b \<and> u = v"
proof -
  have stop: "takeWhile num_char (t @ w) = t" if "list_all num_char t" "delim w" for t w
    using that by (cases w) (auto simp: list_all_iff delim_def num_char_def is_digit_def
        takeWhile_append2)
  have "a = b" using stop [of a u] stop [of b v] assms by simp
  with assms show ?thesis by simp
qed

lemma int_str_num_char: "list_all num_char (int_str i)"
  using nat_str_digits by (auto simp: int_str_def num_char_def list_all_iff)

lemma nat_str_hd_digit: "\<exists>c t. nat_str n = c # t \<and> is_digit c"
  using nat_str_digits [of n] by (cases "nat_str n") auto

lemma int_str_hd: "\<exists>c t. int_str i = c # t \<and> (is_digit c \<or> c = CHR ''-'')"
  using nat_str_hd_digit [of "nat i"] by (cases "i < 0") (auto simp: int_str_def)

lemma int_str_inj: "int_str i = int_str j \<Longrightarrow> i = j"
proof -
  assume e: "int_str i = int_str j"
  have nd: "nat_str n \<noteq> CHR ''-'' # t" for n t
    using nat_str_hd_digit [of n] by (auto simp: is_digit_def)
  show "i = j"
    using e nd nd [symmetric] by (auto simp: int_str_def split: if_splits dest!: nat_str_inj)
qed

lemma int_str_digits: "c \<in> set (int_str i) \<Longrightarrow> is_digit c \<or> c = CHR ''-''"
  using nat_str_digits by (auto simp: int_str_def list_all_iff split: if_splits)

text \<open>The first byte of a value tells its kind.\<close>

datatype json_kind = KNull | KBool bool | KNum | KStr | KArr | KObj

fun kind_of :: "'f json \<Rightarrow> json_kind" where
  "kind_of JNull = KNull"
| "kind_of (JBool b) = KBool b"
| "kind_of (JInt i) = KNum"
| "kind_of (JFloat x) = KNum"
| "kind_of (JStr s) = KStr"
| "kind_of (JArr xs) = KArr"
| "kind_of (JObj kvs) = KObj"

definition kind_char :: "char \<Rightarrow> json_kind option" where
  "kind_char c =
     (if c = CHR ''n'' then Some KNull else if c = CHR ''t'' then Some (KBool True)
      else if c = CHR ''f'' then Some (KBool False) else if c = CHR 0x22 then Some KStr
      else if c = CHR ''['' then Some KArr else if c = CHR ''{'' then Some KObj
      else if is_digit c \<or> c = CHR ''-'' then Some KNum else None)"

lemma kind_char_num: "is_digit c \<or> c = CHR ''-'' \<Longrightarrow> kind_char c = Some KNum"
  by (auto simp: kind_char_def is_digit_def)

lemma plain_json_hd:
  assumes "serde_text esc fmt"
  shows "\<exists>c t. plain_json esc fmt j = c # t \<and> kind_char c = Some (kind_of j)"
proof (cases j)
  case (JInt i)
  then show ?thesis using int_str_hd [of i] kind_char_num by auto
next
  case (JFloat x)
  obtain c t where "fmt x = c # t" "is_digit c \<or> c = CHR ''-''"
    using serde_textD(3) [OF assms] by blast
  then show ?thesis using JFloat kind_char_num by auto
next
  case (JStr s)
  obtain t where "esc s = CHR 0x22 # t" using serde_textD(1) [OF assms] by blast
  then show ?thesis using JStr by (simp add: kind_char_def)
qed (simp_all add: kind_char_def)

lemma plain_json_kind:
  assumes "serde_text esc fmt" "plain_json esc fmt j @ u = plain_json esc fmt k @ v"
  shows "kind_of j = kind_of k"
proof -
  obtain c t where j: "plain_json esc fmt j = c # t" "kind_char c = Some (kind_of j)"
    using plain_json_hd [OF assms(1)] by blast
  obtain d t' where k: "plain_json esc fmt k = d # t'" "kind_char d = Some (kind_of k)"
    using plain_json_hd [OF assms(1)] by blast
  from assms(2) j k show ?thesis by auto
qed

lemma number_text_inj:
  assumes st: "serde_text esc fmt" and kj: "kind_of j = KNum" and kk: "kind_of k = KNum"
    and d: "delim u" "delim v" and e: "plain_json esc fmt j @ u = plain_json esc fmt k @ v"
  shows "j = k \<and> u = v"
proof -
  have num: "list_all num_char (plain_json esc fmt j')" if "kind_of j' = KNum" for j'
    using that int_str_num_char serde_textD(4) [OF st] by (cases j') auto
  have same: "plain_json esc fmt j = plain_json esc fmt k" and uv: "u = v"
    using num_prefix [OF num [OF kj] num [OF kk] d e] by auto
  have mixed: "int_str i \<noteq> fmt x" for i x
  proof
    assume "int_str i = fmt x"
    moreover obtain c where "c \<in> set (fmt x)" "\<not> is_digit c" "c \<noteq> CHR ''-''"
      using serde_textD(5) [OF st] by blast
    ultimately show False using int_str_digits [of c i] by simp
  qed
  have inj: "fmt x = fmt y \<Longrightarrow> x = y" for x y by (rule serde_textD(6) [OF st])
  have "j = k"
  proof (cases j)
    case (JInt i)
    with kk same mixed [of i] int_str_inj show ?thesis by (cases k) auto
  next
    case (JFloat x)
    with kk same mixed [of _ x, symmetric] inj [of x] show ?thesis by (cases k) auto
  qed (use kj in simp_all)
  with uv show ?thesis by simp
qed

text \<open>Comma-separated elements up to a closing bracket, each self-delimiting on its own.\<close>

lemma elements_inj:
  assumes el: "\<And>x y p q. x \<in> set xs \<Longrightarrow> delim p \<Longrightarrow> delim q \<Longrightarrow> f x @ p = f y @ q \<Longrightarrow> x = y \<and> p = q"
    and hd: "\<And>x. \<exists>c t. f x = c # t \<and> c \<noteq> close"
    and cl: "delim (close # u)" "delim (close # v)" "close \<noteq> CHR '',''"
    and eq: "str_join '','' (map f xs) @ close # u = str_join '','' (map f ys) @ close # v"
  shows "xs = ys \<and> u = v"
  using el eq
proof (induction xs arbitrary: ys)
  case Nil
  show ?case
  proof (cases ys)
    case Nil
    then show ?thesis using Nil.prems by simp
  next
    case (Cons y ys')
    obtain c t where "f y = c # t" "c \<noteq> close" using hd by blast
    with Nil.prems Cons show ?thesis by (cases ys') auto
  qed
next
  case (Cons x xs)
  obtain c t where fx: "f x = c # t" "c \<noteq> close" using hd by blast
  obtain y ys' where ys: "ys = y # ys'"
    using Cons.prems(2) fx by (cases ys; cases xs) auto
  define tail where "tail = (\<lambda>zs w. (if zs = [] then close # w
      else CHR '','' # str_join '','' (map f zs) @ close # w))"
  have form: "str_join '','' (map f (z # zs)) @ close # w = f z @ tail zs w" for z zs w
    by (cases zs) (simp_all add: tail_def)
  have d: "delim (tail zs w)" for zs w
    using cl by (auto simp: tail_def delim_def)
  have "f x @ tail xs u = f y @ tail ys' v"
    using Cons.prems(2) by (simp only: ys form)
  with Cons.prems(1) [of x "tail xs u" "tail ys' v" y] d have xy: "x = y" and
    t: "tail xs u = tail ys' v" by auto
  have "xs = ys' \<and> u = v"
  proof (cases "xs = []")
    case True
    with t cl(3) show ?thesis by (auto simp: tail_def split: if_splits)
  next
    case False
    with t cl(3) have "ys' \<noteq> []" by (auto simp: tail_def split: if_splits)
    with False t have "str_join '','' (map f xs) @ close # u = str_join '','' (map f ys') @ close # v"
      by (simp add: tail_def)
    moreover have "\<And>x y p q. x \<in> set xs \<Longrightarrow> delim p \<Longrightarrow> delim q \<Longrightarrow> f x @ p = f y @ q \<Longrightarrow> x = y \<and> p = q"
      using Cons.prems(1) by (meson list.set_intros(2))
    ultimately show ?thesis using Cons.IH [of ys'] by blast
  qed
  with xy ys show ?case by simp
qed

end
