(* ===== verification/Sync_Hash_Laws.thy ===== *)
theory Sync_Hash_Laws
  imports Sync_Hash
begin

text \<open>
  What the canonical writer and the aggregates of \<open>Sync_Hash\<close> promise: the canonical text
  determines the value up to the order of object entries, a fingerprint binds every field of a
  message and ignores only the order of its attachments, and a topic's content hash binds the
  multiset of its (message id, message hash) pairs. A hash argument enters as injectivity of
  \<open>sha\<close> on the inputs it is applied to (collision resistance, for those inputs only).
\<close>

section \<open>Injectivity of the writer\<close>

lemma entry_text_inj:
  assumes st: "serde_text esc fmt"
    and val: "\<And>k' p q. delim p \<Longrightarrow> delim q \<Longrightarrow>
      plain_json esc fmt (snd kv) @ p = plain_json esc fmt k' @ q \<Longrightarrow> snd kv = k' \<and> p = q"
    and d: "delim p" "delim q"
    and e: "(esc (fst kv) @ '':'' @ plain_json esc fmt (snd kv)) @ p =
            (esc (fst kv') @ '':'' @ plain_json esc fmt (snd kv')) @ q"
  shows "kv = kv' \<and> p = q"
proof -
  from e have "esc (fst kv) @ ('':'' @ plain_json esc fmt (snd kv) @ p) =
      esc (fst kv') @ ('':'' @ plain_json esc fmt (snd kv') @ q)" by simp
  from serde_textD(2) [OF st this] have "fst kv = fst kv'"
    and "plain_json esc fmt (snd kv) @ p = plain_json esc fmt (snd kv') @ q" by auto
  with val [OF d] show ?thesis by (simp add: prod_eq_iff)
qed

lemma plain_json_inj:
  assumes st: "serde_text esc fmt"
  shows "delim u \<Longrightarrow> delim v \<Longrightarrow> plain_json esc fmt j @ u = plain_json esc fmt k @ v \<Longrightarrow>
         j = k \<and> u = v"
proof (induction j arbitrary: k u v)
  case JNull
  with plain_json_kind [OF st, of JNull u k v] show ?case by (cases k) auto
next
  case (JBool b)
  with plain_json_kind [OF st, of "JBool b" u k v] show ?case by (cases k) (auto split: if_splits)
next
  case (JInt i)
  from plain_json_kind [OF st JInt.prems(3)] have "kind_of k = KNum" by simp
  then show ?case using number_text_inj [OF st, of "JInt i" k u v] JInt.prems by simp
next
  case (JFloat x)
  from plain_json_kind [OF st JFloat.prems(3)] have "kind_of k = KNum" by simp
  then show ?case using number_text_inj [OF st, of "JFloat x" k u v] JFloat.prems by simp
next
  case (JStr s)
  from plain_json_kind [OF st JStr.prems(3)] obtain t where k: "k = JStr t" by (cases k) auto
  with serde_textD(2) [OF st, of s u t v] JStr.prems show ?case by simp
next
  case (JArr xs)
  from plain_json_kind [OF st JArr.prems(3)] obtain ys where k: "k = JArr ys" by (cases k) auto
  have none: "kind_char (CHR '']'') = None" by (simp add: kind_char_def is_digit_def)
  have hd: "\<exists>c t. plain_json esc fmt x = c # t \<and> c \<noteq> CHR '']''" for x
    using plain_json_hd [OF st, of x] none by (metis option.distinct(1))
  have "xs = ys \<and> u = v"
  proof (rule elements_inj [where f = "plain_json esc fmt" and close = "CHR '']''"])
    show "str_join '','' (map (plain_json esc fmt) xs) @ CHR '']'' # u =
        str_join '','' (map (plain_json esc fmt) ys) @ CHR '']'' # v"
      using JArr.prems(3) k by simp
  qed (use JArr.IH hd in simp_all)
  with k show ?case by simp
next
  case (JObj kvs)
  from plain_json_kind [OF st JObj.prems(3)] obtain kvs' where k: "k = JObj kvs'" by (cases k) auto
  define f where "f = (\<lambda>kv. esc (fst kv) @ '':'' @ plain_json esc fmt (snd kv))"
  have written: "map (\<lambda>(k, t). esc k @ '':'' @ t) (map (map_prod id (plain_json esc fmt)) zs) = map f zs"
    for zs by (simp add: f_def comp_def split_beta map_prod_def)
  have hd: "\<exists>c t. f x = c # t \<and> c \<noteq> CHR ''}''" for x
    using serde_textD(1) [OF st, of "fst x"] by (auto simp: f_def)
  have el: "x = y \<and> p = q"
    if "x \<in> set kvs" "delim p" "delim q" "f x @ p = f y @ q" for x y p q
  proof (rule entry_text_inj [OF st])
    show "delim p" "delim q" by (fact that)+
    show "(esc (fst x) @ '':'' @ plain_json esc fmt (snd x)) @ p =
        (esc (fst y) @ '':'' @ plain_json esc fmt (snd y)) @ q"
      using that(4) by (simp add: f_def)
    show "snd x = k' \<and> p' = q'" if "delim p'" "delim q'"
      "plain_json esc fmt (snd x) @ p' = plain_json esc fmt k' @ q'" for k' p' q'
      using JObj.IH [of x "snd x"] \<open>x \<in> set kvs\<close> that by (cases x) (auto simp: snds.simps)
  qed
  have "kvs = kvs' \<and> u = v"
  proof (rule elements_inj [where f = f and close = "CHR ''}''"])
    show "str_join '','' (map f kvs) @ CHR ''}'' # u = str_join '','' (map f kvs') @ CHR ''}'' # v"
      using JObj.prems(3) k by (simp only: plain_json.simps written) simp
  qed (use el hd in simp_all)
  with k show ?case by simp
qed

lemma write_stable_json_inj:
  assumes "serde_text esc fmt"
  shows "write_stable_json esc fmt j = write_stable_json esc fmt k \<longleftrightarrow> canon j = canon k"
proof
  assume "write_stable_json esc fmt j = write_stable_json esc fmt k"
  then have "plain_json esc fmt (canon j) @ [] = plain_json esc fmt (canon k) @ []"
    by (simp add: write_stable_json_canon)
  then show "canon j = canon k" using plain_json_inj [OF assms, of "[]" "[]"] by simp
qed (simp add: write_stable_json_canon)


section \<open>A concrete escaping, printing and digest\<close>

text \<open>
  Escapes the quote and the backslash with a backslash, prints a float given as a natural number
  with a fraction, and digests to 64 characters. They instantiate the parameters in the witnesses.
\<close>

definition demo_esc_char :: "char \<Rightarrow> string" where
  "demo_esc_char c = (if c = CHR 0x22 \<or> c = CHR 0x5C then [CHR 0x5C, c] else [c])"

definition demo_esc :: "string \<Rightarrow> string" where
  "demo_esc s = CHR 0x22 # concat (map demo_esc_char s) @ [CHR 0x22]"

definition demo_fmt :: "nat \<Rightarrow> string" where
  "demo_fmt n = nat_str n @ ''.0''"

definition demo_sha :: "string \<Rightarrow> string" where
  "demo_sha s = take 63 (s @ replicate 63 CHR ''x'') @ [char_of (length s mod 256)]"

lemma demo_esc_body:
  "concat (map demo_esc_char s) @ CHR 0x22 # u = concat (map demo_esc_char t) @ CHR 0x22 # v \<Longrightarrow>
     s = t \<and> u = v"
proof (induction s arbitrary: t)
  case Nil
  then show ?case by (cases t) (auto simp: demo_esc_char_def split: if_splits)
next
  case (Cons c s)
  show ?case
  proof (cases t)
    case Nil
    with Cons.prems show ?thesis by (auto simp: demo_esc_char_def split: if_splits)
  next
    case (Cons d t')
    with Cons.prems have "c = d"
      by (auto simp: demo_esc_char_def split: if_splits)
    with Cons.prems Cons have
      "concat (map demo_esc_char s) @ CHR 0x22 # u = concat (map demo_esc_char t') @ CHR 0x22 # v"
      by simp
    from Cons.IH [OF this] \<open>c = d\<close> Cons show ?thesis by simp
  qed
qed

lemma demo_serde_text: "serde_text demo_esc demo_fmt"
proof -
  have "\<exists>t. demo_esc s = CHR 0x22 # t" for s by (simp add: demo_esc_def)
  moreover have "demo_esc s @ u = demo_esc t @ v \<Longrightarrow> s = t \<and> u = v" for s t u v
    by (rule demo_esc_body) (simp add: demo_esc_def)
  moreover have "\<exists>c t. demo_fmt n = c # t \<and> (is_digit c \<or> c = CHR ''-'')" for n
    using nat_str_hd_digit [of n] by (auto simp: demo_fmt_def)
  moreover have "list_all num_char (demo_fmt n)" for n
    using nat_str_digits [of n] by (auto simp: demo_fmt_def num_char_def list_all_iff is_digit_def)
  moreover have "\<exists>c \<in> set (demo_fmt n). \<not> is_digit c \<and> c \<noteq> CHR ''-''" for n
    by (intro bexI [of _ "CHR ''.''"]) (simp_all add: demo_fmt_def is_digit_def)
  moreover have "demo_fmt n = demo_fmt m \<Longrightarrow> n = m" for n m
    by (simp add: demo_fmt_def nat_str_inj)
  ultimately show ?thesis unfolding serde_text_def by blast
qed

lemma length_demo_sha: "length (demo_sha s) = 64"
  by (simp add: demo_sha_def)

text \<open>
  C9. The canonical JSON text of a value determines it, up to the order of the entries of its
  objects: two values are written alike exactly when they are equal after sorting the entries of
  every object by key. No key or string can imitate the structure around it.
\<close>

theorem canonical_json_binds_value:
  assumes "serde_text esc fmt"
  shows "write_stable_json esc fmt j = write_stable_json esc fmt k \<longleftrightarrow> canon j = canon k"
  using assms by (rule write_stable_json_inj)

theorem canonical_json_binds_value_witness:
  "write_stable_json demo_esc demo_fmt (JObj [(''b'', JInt 1), (''a'', JStr ''x'')]) =
     write_stable_json demo_esc demo_fmt (JObj [(''a'', JStr ''x''), (''b'', JInt 1)]) \<and>
   write_stable_json demo_esc demo_fmt (JObj [(''a\":\"x'', JNull)]) \<noteq>
     write_stable_json demo_esc demo_fmt (JObj [(''a'', JStr ''x'')])"
  unfolding canonical_json_binds_value [OF demo_serde_text] by simp

section \<open>Aggregates\<close>

lemma concat_fixed_length:
  assumes "\<forall>x \<in> set xs. length x = n" "\<forall>y \<in> set ys. length y = n" "0 < n"
    and eq: "concat xs = concat ys"
  shows "xs = ys"
proof (rule concat_injective)
  have len: "length (concat zs) = n * length zs" if "\<forall>z \<in> set zs. length z = n" for zs :: "'a list list"
    using that by (induction zs) auto
  show "length xs = length ys" using len [OF assms(1)] len [OF assms(2)] eq assms(3) by simp
  show "\<forall>(x, y) \<in> set (zip xs ys). length x = length y"
  proof clarify
    fix a b
    assume "(a, b) \<in> set (zip xs ys)"
    then have "a \<in> set xs" "b \<in> set ys" by (rule set_zip_leftD, rule set_zip_rightD)
    with assms(1,2) show "length a = length b" by simp
  qed
qed (fact eq)

lemma mset_map_inj_on:
  assumes "inj_on f (set xs \<union> set ys)" "mset (map f xs) = mset (map f ys)"
  shows "mset xs = mset ys"
proof -
  let ?g = "the_inv_into (set xs \<union> set ys) f"
  have "map ?g (map f zs) = zs" if "set zs \<subseteq> set xs \<union> set ys" for zs
    using that assms(1) by (simp add: map_idI the_inv_into_f_f subset_iff)
  then have "map ?g (map f xs) = xs" "map ?g (map f ys) = ys" by auto
  moreover have "mset (map ?g (map f xs)) = mset (map ?g (map f ys))"
    using assms(2) by (metis mset_map)
  ultimately show ?thesis by simp
qed

text \<open>The inputs on which the digest is compared when two lists of leaves are aggregated.\<close>

definition digest_inputs :: "(string \<Rightarrow> string) \<Rightarrow> ('a \<Rightarrow> string) \<Rightarrow> 'a list \<Rightarrow> string set" where
  "digest_inputs sha leaf xs = insert (concat (sort (map (\<lambda>x. sha (leaf x)) xs))) (leaf ` set xs)"

lemma merkle_root_binds:
  assumes len: "\<And>s. length (sha s) = 64"
    and inj: "inj_on sha (digest_inputs sha leaf xs \<union> digest_inputs sha leaf ys)"
    and leaf: "inj_on leaf (set xs \<union> set ys)"
  shows "compute_merkle_root sha (map (\<lambda>x. sha (leaf x)) xs) =
         compute_merkle_root sha (map (\<lambda>x. sha (leaf x)) ys) \<longleftrightarrow> mset xs = mset ys"
proof
  let ?f = "\<lambda>x. sha (leaf x)"
  assume "mset xs = mset ys"
  then have "mset (map ?f xs) = mset (map ?f ys)" by (metis mset_map)
  then have "sort (map ?f xs) = sort (map ?f ys)" and "(map ?f xs = []) = (map ?f ys = [])"
    by (auto intro: properties_for_sort simp flip: mset_zero_iff)
  then show "compute_merkle_root sha (map ?f xs) = compute_merkle_root sha (map ?f ys)"
    by (simp add: compute_merkle_root_def)
next
  let ?f = "\<lambda>x. sha (leaf x)"
  assume eq: "compute_merkle_root sha (map ?f xs) = compute_merkle_root sha (map ?f ys)"
  have ne: "sha s \<noteq> []" for s using len [of s] by auto
  show "mset xs = mset ys"
  proof (cases "xs = [] \<or> ys = []")
    case True
    with eq ne ne [symmetric] show ?thesis by (auto simp: compute_merkle_root_def split: if_splits)
  next
    case False
    with eq have "sha (concat (sort (map ?f xs))) = sha (concat (sort (map ?f ys)))"
      by (simp add: compute_merkle_root_def)
    then have "concat (sort (map ?f xs)) = concat (sort (map ?f ys))"
      by (rule inj_onD [OF inj]) (simp_all add: digest_inputs_def)
    then have "sort (map ?f xs) = sort (map ?f ys)"
      by (rule concat_fixed_length [rotated 3]) (auto simp: len)
    then have m: "mset (map ?f xs) = mset (map ?f ys)" by (metis mset_sort)
    have "inj_on ?f (set xs \<union> set ys)"
    proof (rule inj_onI)
      fix x y
      assume x: "x \<in> set xs \<union> set ys" and y: "y \<in> set xs \<union> set ys" and e: "?f x = ?f y"
      have "leaf x = leaf y"
        by (rule inj_onD [OF inj e]) (use x y in \<open>auto simp: digest_inputs_def\<close>)
      then show "x = y" by (rule inj_onD [OF leaf _ x y])
    qed
    from mset_map_inj_on [OF this m] show ?thesis .
  qed
qed


definition message_leaf_text :: "(string \<Rightarrow> string) \<Rightarrow> ('f \<Rightarrow> string) \<Rightarrow> string \<times> string \<Rightarrow> string" where
  "message_leaf_text esc fmt m = write_stable_json esc fmt (message_leaf (fst m) (snd m))"

definition topic_leaf_text ::
  "(string \<Rightarrow> string) \<Rightarrow> ('f \<Rightarrow> string) \<Rightarrow> string \<times> string \<times> string \<Rightarrow> string" where
  "topic_leaf_text esc fmt t =
     write_stable_json esc fmt (topic_leaf (fst t) (fst (snd t)) (snd (snd t)))"

lemma message_leaf_text_inj:
  "serde_text esc fmt \<Longrightarrow> message_leaf_text esc fmt m = message_leaf_text esc fmt m' \<longleftrightarrow> m = m'"
  unfolding message_leaf_text_def write_stable_json_inj
  by (auto simp: message_leaf_def prod_eq_iff)

lemma topic_leaf_text_inj:
  "serde_text esc fmt \<Longrightarrow> topic_leaf_text esc fmt m = topic_leaf_text esc fmt m' \<longleftrightarrow> m = m'"
  unfolding topic_leaf_text_def write_stable_json_inj
  by (auto simp: topic_leaf_def prod_eq_iff)

text \<open>The message id and message hash of a row: what the content hash is to bind.\<close>

definition row_message :: "string \<times> string \<times> int \<Rightarrow> string \<times> string" where
  "row_message r = (fst r, fst (snd r))"

lemma aggregate_root:
  "compute_topic_content_aggregate sha esc fmt key rows = Inr (h, n, t) \<Longrightarrow>
     h = compute_merkle_root sha
           (map (\<lambda>m. sha (message_leaf_text esc fmt m)) (map row_message rows)) \<and>
     n = int (length rows)"
  by (auto simp: compute_topic_content_aggregate_def compute_message_leaf_hash_def
      compute_deterministic_hash_def message_leaf_text_def row_message_def case_prod_unfold comp_def
      split: if_splits)

text \<open>
  C26. The content hash of a topic binds its messages: two topics whose aggregates were computed
  have equal content hashes exactly when they hold the same (message id, message hash) pairs, in
  whatever order the database returned the rows, and so the same number of messages. The digest is
  assumed injective on the finitely many texts hashed for these two topics.
\<close>

theorem topic_content_hash_binds_messages:
  assumes "serde_text esc fmt" and "\<And>s. length (sha s) = 64"
    and "inj_on sha (digest_inputs sha (message_leaf_text esc fmt) (map row_message rows) \<union>
                     digest_inputs sha (message_leaf_text esc fmt) (map row_message rows'))"
    and "compute_topic_content_aggregate sha esc fmt key rows = Inr (h, n, t)"
    and "compute_topic_content_aggregate sha esc fmt key' rows' = Inr (h', n', t')"
  shows "(h = h' \<longleftrightarrow> mset (map row_message rows) = mset (map row_message rows')) \<and>
         (h = h' \<longrightarrow> n = n')"
proof -
  note r = aggregate_root [OF assms(4)] and r' = aggregate_root [OF assms(5)]
  have iff: "h = h' \<longleftrightarrow> mset (map row_message rows) = mset (map row_message rows')"
    unfolding conjunct1 [OF r] conjunct1 [OF r']
    by (rule merkle_root_binds [OF assms(2,3)])
      (simp add: inj_on_def message_leaf_text_inj [OF assms(1)])
  have "n = n'" if "h = h'"
  proof -
    from that iff have "length (map row_message rows) = length (map row_message rows')"
      by (metis size_mset)
    then show ?thesis using r r' by simp
  qed
  with iff show ?thesis by blast
qed

text \<open>
  C16. The root hash of an agent or a group binds its topics: the roots computed from two result
  sets are equal exactly when the (topic id, configuration hash, content hash) triples are the
  same, in any order.
\<close>

theorem owner_root_hash_binds_topics:
  assumes "serde_text esc fmt" and "\<And>s. length (sha s) = 64"
    and "inj_on sha (digest_inputs sha (topic_leaf_text esc fmt) rows \<union>
                     digest_inputs sha (topic_leaf_text esc fmt) rows')"
  shows "compute_owner_root_hash sha esc fmt rows = compute_owner_root_hash sha esc fmt rows' \<longleftrightarrow>
         mset rows = mset rows'"
proof -
  have root: "compute_owner_root_hash sha esc fmt rs =
      compute_merkle_root sha (map (\<lambda>r. sha (topic_leaf_text esc fmt r)) rs)" for rs
    by (simp add: compute_owner_root_hash_def compute_topic_leaf_hash_def
        compute_deterministic_hash_def topic_leaf_text_def case_prod_unfold comp_def)
  show ?thesis
    unfolding root
    by (rule merkle_root_binds [OF assms(2,3)])
      (simp add: inj_on_def topic_leaf_text_inj [OF assms(1)])
qed

section \<open>The message fingerprint\<close>

lemma canon_flat:
  "\<forall>kv \<in> set kvs. canon (snd kv) = snd kv \<Longrightarrow> canon (JObj kvs) = JObj (sort_key fst kvs)"
proof -
  assume "\<forall>kv \<in> set kvs. canon (snd kv) = snd kv"
  then have "map (map_prod id canon) kvs = kvs" by (intro map_idI) (auto simp: prod_eq_iff)
  then show ?thesis by simp
qed

definition fingerprint_entries :: "fingerprint_fields \<Rightarrow> (string \<times> 'f json) list" where
  "fingerprint_entries m = (case fingerprint_map m of JObj kvs \<Rightarrow> kvs | _ \<Rightarrow> [])"

lemma canon_fingerprint:
  "canon (fingerprint_map m) = JObj (sort_key fst (fingerprint_entries m))"
  unfolding fingerprint_entries_def fingerprint_map_def json.case
  by (rule canon_flat) (auto simp: Let_def comp_def split: option.splits if_splits)

lemma sort_eq_Nil: "sort xs = [] \<longleftrightarrow> xs = []"
  by (metis set_empty set_sort)

lemma fingerprint_entries_mem:
  fixes x :: "'f json"
  shows "(''id'', x) \<in> set (fingerprint_entries m) \<longleftrightarrow> x = JStr (fp_message_id m)"
    and "(''role'', x) \<in> set (fingerprint_entries m) \<longleftrightarrow> x = JStr (fp_role m)"
    and "(''name'', x) \<in> set (fingerprint_entries m) \<longleftrightarrow>
           (\<exists>n. fp_name m = Some n \<and> x = JStr n)"
    and "(''content'', x) \<in> set (fingerprint_entries m) \<longleftrightarrow> x = JStr (fp_content m)"
    and "(''timestamp'', x) \<in> set (fingerprint_entries m) \<longleftrightarrow> x = JInt (uint (fp_timestamp m))"
    and "(''agentId'', x) \<in> set (fingerprint_entries m) \<longleftrightarrow>
           (\<exists>n. fp_agent_id m = Some n \<and> x = JStr n)"
    and "(''attachmentHashes'', x) \<in> set (fingerprint_entries m) \<longleftrightarrow>
           fp_attachment_hashes m \<noteq> [] \<and> x = JArr (map JStr (sort (fp_attachment_hashes m)))"
  by (auto simp: fingerprint_entries_def fingerprint_map_def Let_def sort_eq_Nil
      split: option.splits if_splits)


definition same_fingerprint_fields :: "fingerprint_fields \<Rightarrow> fingerprint_fields \<Rightarrow> bool" where
  "same_fingerprint_fields m m' \<longleftrightarrow>
     fp_message_id m = fp_message_id m' \<and> fp_role m = fp_role m' \<and> fp_name m = fp_name m' \<and>
     fp_content m = fp_content m' \<and> fp_timestamp m = fp_timestamp m' \<and>
     fp_agent_id m = fp_agent_id m' \<and>
     mset (fp_attachment_hashes m) = mset (fp_attachment_hashes m')"

lemma option_eq_by_members:
  "(\<And>x. (\<exists>n. a = Some n \<and> x = g n) \<longleftrightarrow> (\<exists>n. b = Some n \<and> x = g n)) \<Longrightarrow>
   (\<And>x y. g x = g y \<Longrightarrow> x = y) \<Longrightarrow> a = b"
  by (cases a; cases b) auto

lemma canon_fingerprint_inj:
  fixes m m' :: fingerprint_fields
  shows "canon (fingerprint_map m :: 'f json) = canon (fingerprint_map m') \<longleftrightarrow>
         same_fingerprint_fields m m'"
proof
  assume "canon (fingerprint_map m :: 'f json) = canon (fingerprint_map m')"
  then have "set (sort_key fst (fingerprint_entries m :: (string \<times> 'f json) list)) =
      set (sort_key fst (fingerprint_entries m'))"
    unfolding canon_fingerprint by simp
  then have mem: "(k, x) \<in> set (fingerprint_entries m) \<longleftrightarrow> (k, x) \<in> set (fingerprint_entries m')"
    for k and x :: "'f json" by simp
  have "fp_message_id m = fp_message_id m'" "fp_role m = fp_role m'" "fp_content m = fp_content m'"
    "fp_timestamp m = fp_timestamp m'"
    using mem [of "''id''" "JStr (fp_message_id m)"] mem [of "''role''" "JStr (fp_role m)"]
      mem [of "''content''" "JStr (fp_content m)"]
      mem [of "''timestamp''" "JInt (uint (fp_timestamp m))"]
    by (simp_all add: fingerprint_entries_mem word_uint_eq_iff)
  moreover have "fp_name m = fp_name m'"
    by (rule option_eq_by_members [where g = "JStr :: string \<Rightarrow> 'f json"])
      (use mem [of "''name''"] in \<open>simp_all add: fingerprint_entries_mem\<close>)
  moreover have "fp_agent_id m = fp_agent_id m'"
    by (rule option_eq_by_members [where g = "JStr :: string \<Rightarrow> 'f json"])
      (use mem [of "''agentId''"] in \<open>simp_all add: fingerprint_entries_mem\<close>)
  moreover have "sort (fp_attachment_hashes m) = sort (fp_attachment_hashes m')"
  proof -
    have j: "map (JStr :: string \<Rightarrow> 'f json) xs = map JStr ys \<longleftrightarrow> xs = ys" for xs ys
      by (rule inj_map_eq_map) (simp add: inj_def)
    show ?thesis
      using mem [of "''attachmentHashes''" "JArr (map JStr (sort (fp_attachment_hashes m)))"]
        mem [of "''attachmentHashes''" "JArr (map JStr (sort (fp_attachment_hashes m')))"]
      unfolding fingerprint_entries_mem json.inject j by auto
  qed
  ultimately show "same_fingerprint_fields m m'"
    unfolding same_fingerprint_fields_def by (metis mset_sort)
next
  assume s: "same_fingerprint_fields m m'"
  then have "sort (fp_attachment_hashes m) = sort (fp_attachment_hashes m')"
    by (intro properties_for_sort) (simp_all add: same_fingerprint_fields_def)
  with s have "fingerprint_map m = (fingerprint_map m' :: 'f json)"
    by (simp add: fingerprint_map_def same_fingerprint_fields_def)
  then show "canon (fingerprint_map m :: 'f json) = canon (fingerprint_map m')" by simp
qed

text \<open>
  C7. A message fingerprint binds the message: two messages have the same fingerprint exactly when
  their id, role, name, content, timestamp and agent id are equal (an absent name or agent id
  differs from an empty one) and their attachment hashes are equal up to order. The digest is
  assumed injective on the two canonical texts compared.
\<close>

theorem message_fingerprint_binds_message:
  fixes fmt :: "'f \<Rightarrow> string"
  assumes "serde_text esc fmt"
    and "inj_on sha {write_stable_json esc fmt (fingerprint_map m),
                     write_stable_json esc fmt (fingerprint_map m')}"
  shows "compute_message_fingerprint sha esc fmt m = compute_message_fingerprint sha esc fmt m' \<longleftrightarrow>
         same_fingerprint_fields m m'"
proof -
  have "compute_message_fingerprint sha esc fmt m = compute_message_fingerprint sha esc fmt m' \<longleftrightarrow>
      write_stable_json esc fmt (fingerprint_map m) = write_stable_json esc fmt (fingerprint_map m')"
    unfolding compute_message_fingerprint_def compute_deterministic_hash_def
    by (rule inj_on_eq_iff [OF assms(2)]) simp_all
  also have "\<dots> \<longleftrightarrow> same_fingerprint_fields m m'"
    unfolding write_stable_json_inj [OF assms(1)] by (rule canon_fingerprint_inj)
  finally show ?thesis .
qed

section \<open>Witnesses\<close>

definition demo_message :: "string \<Rightarrow> string option \<Rightarrow> string list \<Rightarrow> fingerprint_fields" where
  "demo_message mid name hashes =
     \<lparr>fp_message_id = mid, fp_role = ''user'', fp_name = name, fp_content = ''hi'',
      fp_timestamp = 5, fp_agent_id = None, fp_attachment_hashes = hashes\<rparr>"

text \<open>Injectivity on a finite list of inputs, as a computation.\<close>

lemma inj_on_set_code:
  "list_all (\<lambda>a. list_all (\<lambda>b. f a = f b \<longrightarrow> a = b) xs) xs \<Longrightarrow> inj_on f (set xs)"
  by (auto simp: list_all_iff inj_on_def)

definition demo_text :: "fingerprint_fields \<Rightarrow> string" where
  "demo_text m = write_stable_json demo_esc demo_fmt (fingerprint_map m)"

lemma demo_fingerprint_inj:
  "inj_on demo_sha {demo_text (demo_message ''m1'' None [''b'', ''a'']),
                    demo_text (demo_message ''m1'' (Some []) [''a'', ''b''])}"
  using inj_on_set_code [of demo_sha "[demo_text (demo_message ''m1'' None [''b'', ''a'']),
    demo_text (demo_message ''m1'' (Some []) [''a'', ''b''])]"]
  by code_simp

theorem message_fingerprint_binds_message_witness:
  "compute_message_fingerprint demo_sha demo_esc demo_fmt (demo_message ''m1'' None [''b'', ''a'']) \<noteq>
   compute_message_fingerprint demo_sha demo_esc demo_fmt (demo_message ''m1'' (Some []) [''a'', ''b''])"
  using message_fingerprint_binds_message [OF demo_serde_text demo_fingerprint_inj [unfolded demo_text_def]]
  by (simp add: same_fingerprint_fields_def demo_message_def)


definition digest_input_list :: "(string \<Rightarrow> string) \<Rightarrow> ('a \<Rightarrow> string) \<Rightarrow> 'a list \<Rightarrow> string list" where
  "digest_input_list sha leaf xs = concat (sort (map (\<lambda>x. sha (leaf x)) xs)) # map leaf xs"

lemma digest_inputs_code:
  "digest_inputs sha leaf xs \<union> digest_inputs sha leaf ys =
     set (digest_input_list sha leaf xs @ digest_input_list sha leaf ys)"
  by (auto simp: digest_inputs_def digest_input_list_def)

definition demo_rows :: "(string \<times> string \<times> int) list" where
  "demo_rows = [(''m1'', ''h1'', 5), (''m2'', ''h2'', 7)]"

definition demo_key :: topic_key where
  "demo_key = TopicKey ''agent'' ''a'' ''t''"

lemma demo_content_inputs:
  "inj_on demo_sha (digest_inputs demo_sha (message_leaf_text demo_esc demo_fmt) (map row_message demo_rows) \<union>
     digest_inputs demo_sha (message_leaf_text demo_esc demo_fmt) (map row_message (rev demo_rows)))"
  unfolding digest_inputs_code by (rule inj_on_set_code) code_simp

theorem topic_content_hash_binds_messages_witness:
  "\<exists>h h'. compute_topic_content_aggregate demo_sha demo_esc demo_fmt demo_key demo_rows = Inr (h, 2, 7) \<and>
     compute_topic_content_aggregate demo_sha demo_esc demo_fmt demo_key (rev demo_rows) = Inr (h', 2, 7) \<and>
     h = h'"
proof -
  obtain h where h: "compute_topic_content_aggregate demo_sha demo_esc demo_fmt demo_key demo_rows = Inr (h, 2, 7)"
    by (simp add: compute_topic_content_aggregate_def demo_rows_def)
  obtain h' where h': "compute_topic_content_aggregate demo_sha demo_esc demo_fmt demo_key (rev demo_rows) = Inr (h', 2, 7)"
    by (simp add: compute_topic_content_aggregate_def demo_rows_def)
  have "h = h'"
    using topic_content_hash_binds_messages [OF demo_serde_text length_demo_sha demo_content_inputs h h']
    by (simp add: rev_map)
  with h h' show ?thesis by blast
qed

lemma demo_owner_inputs:
  "inj_on demo_sha (digest_inputs demo_sha (topic_leaf_text demo_esc demo_fmt) [(''t1'', ''c'', ''d'')] \<union>
     digest_inputs demo_sha (topic_leaf_text demo_esc demo_fmt) [(''t1'', ''d'', ''c'')])"
  unfolding digest_inputs_code by (rule inj_on_set_code) code_simp

theorem owner_root_hash_binds_topics_witness:
  "compute_owner_root_hash demo_sha demo_esc demo_fmt [(''t1'', ''c'', ''d'')] \<noteq>
   compute_owner_root_hash demo_sha demo_esc demo_fmt [(''t1'', ''d'', ''c'')]"
  using owner_root_hash_binds_topics [OF demo_serde_text length_demo_sha demo_owner_inputs] by simp

end
