(* ===== verification/Sync_Latches.thy ===== *)
theory Sync_Latches
  imports Sync_Types
begin

text \<open>
  The one-response latches of the synchronisation service (\<open>sync/sync_service.rs\<close>): the
  manifest tracker, the pending topic-hash request, the final acknowledgement, and the retry
  budget. What they share is the interface \<open>one_shot_latch\<close>: a key is armed, and a response
  is accepted at most once for each time its key was armed, in any order of arrivals. The mutexes
  are taken for the whole of each operation, so an operation is one function on the latch's state;
  a poisoned mutex is not modelled.
\<close>

section \<open>The interface\<close>

datatype 'k latch_event = Arm 'k | Consume 'k

locale one_shot_latch =
  fixes arm :: "'k \<Rightarrow> 's \<Rightarrow> 's option"
    and consume :: "'k \<Rightarrow> 's \<Rightarrow> 's option"
    and pending :: "'s \<Rightarrow> 'k option"
  assumes arm_pending: "arm k s = Some s' \<Longrightarrow> pending s' = Some k"
    and consume_pending: "consume k s = Some s' \<Longrightarrow> pending s = Some k \<and> pending s' = None"
    and consume_ready: "pending s = Some k \<Longrightarrow> \<exists>s'. consume k s = Some s'"
begin

text \<open>Runs a sequence of events; a refused event leaves the state alone. The second result lists
  the keys whose consumption was accepted.\<close>

fun latch_run :: "'k latch_event list \<Rightarrow> 's \<Rightarrow> 's \<times> 'k list" where
  "latch_run [] s = (s, [])"
| "latch_run (Arm k # es) s = (case arm k s of None \<Rightarrow> latch_run es s | Some s' \<Rightarrow> latch_run es s')"
| "latch_run (Consume k # es) s =
     (case consume k s of None \<Rightarrow> latch_run es s
      | Some s' \<Rightarrow> let (t, ks) = latch_run es s' in (t, k # ks))"

lemma consume_twice: "consume k s = Some s' \<Longrightarrow> consume k' s' = None"
  using consume_pending [of k s s'] consume_pending [of k' s'] by (cases "consume k' s'") auto

lemma accepted_le_armed:
  "count_list (snd (latch_run es s)) k \<le>
     count_list es (Arm k) + (if pending s = Some k then 1 else 0)"
proof (induction es arbitrary: s)
  case Nil
  then show ?case by simp
next
  case (Cons e es)
  show ?case
  proof (cases e)
    case (Arm k')
    show ?thesis
    proof (cases "arm k' s")
      case None
      with Arm Cons.IH [of s] show ?thesis by (auto split: if_splits)
    next
      case (Some s')
      with arm_pending have "pending s' = Some k'" by blast
      with Arm Some Cons.IH [of s'] show ?thesis by (auto split: if_splits)
    qed
  next
    case (Consume k')
    show ?thesis
    proof (cases "consume k' s")
      case None
      with Consume Cons.IH [of s] show ?thesis by (auto split: if_splits)
    next
      case (Some s')
      with consume_pending have "pending s = Some k'" "pending s' = None" by blast+
      with Consume Some Cons.IH [of s'] show ?thesis by (auto simp: split_beta split: if_splits)
    qed
  qed
qed

end

section \<open>The manifest response tracker\<close>

record pending_manifest =
  pm_phase :: u8
  pm_type :: manifest_type

type_synonym manifest_tracker = "pending_manifest option"

definition tracker_arm ::
  "manifest_tracker \<Rightarrow> u8 \<Rightarrow> manifest_type \<Rightarrow> manifest_tracker \<times> (string + unit)" where
  "tracker_arm tr phase mt =
     (case tr of
        Some existing \<Rightarrow>
          (tr, Inl (''Manifest response tracker already waits for '' @
                    manifest_type_str (pm_type existing) @ '' in wave '' @
                    nat_str (unat (pm_phase existing))))
      | None \<Rightarrow> (Some \<lparr>pm_phase = phase, pm_type = mt\<rparr>, Inr ()))"

definition tracker_consume ::
  "manifest_tracker \<Rightarrow> u8 \<Rightarrow> manifest_type \<Rightarrow> manifest_tracker \<times> (string + unit)" where
  "tracker_consume tr phase mt =
     (let refuse = (tr, Inl (''SYNC_MANIFEST_RESULT contains duplicate or unexpected manifestType ''
                      @ manifest_type_str mt @ '' for wave '' @ nat_str (unat phase))) in
      case tr of
        Some expected \<Rightarrow>
          if pm_phase expected = phase \<and> pm_type expected = mt then (None, Inr ()) else refuse
      | None \<Rightarrow> refuse)"

definition tracker_missing_type :: "manifest_tracker \<Rightarrow> u8 \<Rightarrow> string + manifest_type option" where
  "tracker_missing_type tr phase =
     (case tr of
        Some expected \<Rightarrow>
          if pm_phase expected = phase then Inr (Some (pm_type expected))
          else Inl (''Manifest response tracker waits for wave '' @
                    nat_str (unat (pm_phase expected)) @ '' while current wave is '' @
                    nat_str (unat phase))
      | None \<Rightarrow> Inr None)"

text \<open>A failure command a deadline sends: code and message.\<close>

type_synonym deadline_failure = "string \<times> string"

text \<open>\<open>enforce_manifest_response_deadline\<close> after its sleep. \<open>{missing:?}\<close> of a one-element
  list of plain words is the word quoted in brackets.\<close>

definition enforce_manifest_response_deadline ::
  "manifest_tracker \<Rightarrow> u8 \<Rightarrow> u8 \<Rightarrow> deadline_failure option" where
  "enforce_manifest_response_deadline tr manifest_phase expected_phase =
     (if manifest_phase \<noteq> expected_phase then None
      else case tracker_missing_type tr expected_phase of
             Inr None \<Rightarrow> None
           | Inr (Some missing) \<Rightarrow>
               Some (''MANIFEST_RESPONSE_TIMEOUT'',
                     ''Desktop manifest response timed out with missing data types ['' @ [CHR 0x22] @
                     manifest_type_str missing @ [CHR 0x22] @ '']'')
           | Inl message \<Rightarrow> Some (''SYNC_STATE_POISONED'', message))"

section \<open>The final acknowledgement\<close>

record final_ack_key =
  fa_session_id :: u64
  fa_attempt_id :: u64
  fa_nonce :: string

record phase_ack_frame =
  pa_frame_type :: string
  pa_phase :: sync_phase
  pa_session_id :: "u64 option"
  pa_attempt_id :: "u64 option"
  pa_nonce :: "string option"

definition matches_payload :: "final_ack_key \<Rightarrow> phase_ack_frame \<Rightarrow> bool" where
  "matches_payload k p \<longleftrightarrow>
     pa_frame_type p = ''PHASE_ACK'' \<and> pa_phase p = Messages \<and>
     pa_session_id p = Some (fa_session_id k) \<and> pa_attempt_id p = Some (fa_attempt_id k) \<and>
     pa_nonce p = Some (fa_nonce k)"

definition consume_final_ack ::
  "final_ack_key option \<Rightarrow> phase_ack_frame \<Rightarrow> final_ack_key option \<times> bool" where
  "consume_final_ack pend payload =
     (case pend of
        Some expected \<Rightarrow> if matches_payload expected payload then (None, True) else (pend, False)
      | None \<Rightarrow> (pend, False))"

text \<open>\<open>enforce_final_ack_deadline\<close> after its sleep: the slot, and whether \<open>FINAL_ACK_TIMEOUT\<close>
  is sent for the attempt.\<close>

definition enforce_final_ack_deadline ::
  "final_ack_key option \<Rightarrow> final_ack_key \<Rightarrow> final_ack_key option \<times> bool" where
  "enforce_final_ack_deadline pend expected =
     (if pend = Some expected then (None, True) else (pend, False))"

text \<open>The frame the desktop echoes for a key.\<close>

definition ack_of :: "final_ack_key \<Rightarrow> phase_ack_frame" where
  "ack_of k = \<lparr>pa_frame_type = ''PHASE_ACK'', pa_phase = Messages,
     pa_session_id = Some (fa_session_id k), pa_attempt_id = Some (fa_attempt_id k),
     pa_nonce = Some (fa_nonce k)\<rparr>"

lemma matches_payload_iff: "matches_payload k p \<longleftrightarrow> p = ack_of k"
  by (auto simp: matches_payload_def ack_of_def)

lemma ack_of_inj: "ack_of k = ack_of k' \<longleftrightarrow> k = k'"
  by (auto simp: ack_of_def)

section \<open>The topic-hash request\<close>

text \<open>\<open>stage_topic_diff_request\<close>; the request frame is the list of topic states it carries.\<close>

definition stage_topic_diff_request ::
  "topic_key set option \<Rightarrow> topic_key set \<Rightarrow> 'st list \<Rightarrow>
   topic_key set option \<times> (string + 'st list option)" where
  "stage_topic_diff_request pend expected_topics topic_states =
     (if pend \<noteq> None then (pend, Inl ''A topic hash response is already pending'')
      else if topic_states = [] then (pend, Inr None)
      else (Some expected_topics, Inr (Some topic_states)))"

fun validate_unique_topic_keys_from ::
  "topic_key list \<Rightarrow> topic_key list \<Rightarrow> string \<Rightarrow> string + topic_key list" where
  "validate_unique_topic_keys_from seen [] field = Inr []"
| "validate_unique_topic_keys_from seen (key # rest) field =
     (if \<not> topic_key_is_valid key
      then Inl (field @ '' contains an invalid topic identity'')
      else if key \<in> set seen
      then Inl (field @ '' contains a duplicate topic identity'')
      else map_sum id (\<lambda>r. key # r) (validate_unique_topic_keys_from (key # seen) rest field))"

definition validate_unique_topic_keys :: "topic_key list \<Rightarrow> string \<Rightarrow> string + topic_key list" where
  "validate_unique_topic_keys values field = validate_unique_topic_keys_from [] values field"

text \<open>The body of \<open>SYNC_TOPIC_DIFF_RESULT\<close>: the latch is taken whatever the frame holds.
  \<open>frame\<close> is the decoded frame or the decoder's message.\<close>

definition topic_diff_result ::
  "topic_key set option \<Rightarrow> string + topic_key list \<Rightarrow> topic_key set option \<times> (string + topic_key list)"
  where
  "topic_diff_result pend frame =
     (None,
      case pend of
        None \<Rightarrow> Inl ''Received an unexpected or duplicate SYNC_TOPIC_DIFF_RESULT frame''
      | Some expected \<Rightarrow>
          (case frame of
             Inl err \<Rightarrow> Inl (''Invalid SYNC_TOPIC_DIFF_RESULT: '' @ err)
           | Inr changed \<Rightarrow>
               (case validate_unique_topic_keys changed ''SYNC_TOPIC_DIFF_RESULT.changedTopics'' of
                  Inl err \<Rightarrow> Inl err
                | Inr topics \<Rightarrow>
                    (case List.find (\<lambda>t. t \<notin> expected) topics of
                       Some t \<Rightarrow>
                         Inl (''SYNC_TOPIC_DIFF_RESULT.changedTopics contains unexpected topic '' @
                              tk_owner_type t @ ''/'' @ tk_owner_id t @ ''/'' @ tk_topic_id t)
                     | None \<Rightarrow> Inr topics))))"

definition enforce_topic_hash_response_deadline ::
  "topic_key set option \<Rightarrow> u8 \<Rightarrow> u8 \<Rightarrow> deadline_failure option" where
  "enforce_topic_hash_response_deadline pend manifest_phase expected_phase =
     (if manifest_phase \<noteq> expected_phase then None
      else map_option (\<lambda>topics. (''TOPIC_HASH_RESPONSE_TIMEOUT'',
             ''Desktop topic hash response timed out for '' @ nat_str (card topics) @
             '' expected topics'')) pend)"

section \<open>The retry budget\<close>

definition MAX_SYNC_RETRIES :: u32 where "MAX_SYNC_RETRIES = 3"

text \<open>\<open>take_retry_slot\<close>; durations in milliseconds.\<close>

definition take_retry_slot :: "u32 \<Rightarrow> nat \<Rightarrow> (u32 \<times> nat) \<times> nat option" where
  "take_retry_slot retry_count retry_delay =
     (if MAX_SYNC_RETRIES \<le> retry_count then ((retry_count, retry_delay), None)
      else ((retry_count + 1, min (retry_delay * 2) 5000), Some retry_delay))"


section \<open>The manifest tracker is a one-shot latch\<close>

definition manifest_arm :: "u8 \<times> manifest_type \<Rightarrow> manifest_tracker \<Rightarrow> manifest_tracker option" where
  "manifest_arm k tr =
     (case tracker_arm tr (fst k) (snd k) of (tr', Inr _) \<Rightarrow> Some tr' | (_, Inl _) \<Rightarrow> None)"

definition manifest_consume :: "u8 \<times> manifest_type \<Rightarrow> manifest_tracker \<Rightarrow> manifest_tracker option"
  where
  "manifest_consume k tr =
     (case tracker_consume tr (fst k) (snd k) of (tr', Inr _) \<Rightarrow> Some tr' | (_, Inl _) \<Rightarrow> None)"

definition manifest_pending :: "manifest_tracker \<Rightarrow> (u8 \<times> manifest_type) option" where
  "manifest_pending tr = map_option (\<lambda>p. (pm_phase p, pm_type p)) tr"

interpretation manifest_latch: one_shot_latch manifest_arm manifest_consume manifest_pending
  by unfold_locales
    (auto simp: manifest_arm_def manifest_consume_def manifest_pending_def tracker_arm_def
      tracker_consume_def Let_def split: option.splits if_splits)

text \<open>Arms and responses in the order they reach the tracker; the accepted responses are
  returned.\<close>

fun manifest_run ::
  "(u8 \<times> manifest_type) latch_event list \<Rightarrow> manifest_tracker \<Rightarrow>
   manifest_tracker \<times> (u8 \<times> manifest_type) list" where
  "manifest_run [] tr = (tr, [])"
| "manifest_run (Arm k # es) tr = manifest_run es (fst (tracker_arm tr (fst k) (snd k)))"
| "manifest_run (Consume k # es) tr =
     (let (tr', r) = tracker_consume tr (fst k) (snd k); (t, ks) = manifest_run es tr' in
      (t, if isl r then ks else k # ks))"

lemma manifest_arm_eq:
  "manifest_arm k tr = (if isl (snd (tracker_arm tr (fst k) (snd k))) then None
     else Some (fst (tracker_arm tr (fst k) (snd k))))"
  by (simp add: manifest_arm_def split: prod.splits sum.splits)

lemma manifest_consume_eq:
  "manifest_consume k tr = (if isl (snd (tracker_consume tr (fst k) (snd k))) then None
     else Some (fst (tracker_consume tr (fst k) (snd k))))"
  by (simp add: manifest_consume_def split: prod.splits sum.splits)

lemma tracker_refusal:
  "isl (snd (tracker_arm tr p mt)) \<Longrightarrow> fst (tracker_arm tr p mt) = tr"
  "isl (snd (tracker_consume tr p mt)) \<Longrightarrow> fst (tracker_consume tr p mt) = tr"
  by (auto simp: tracker_arm_def tracker_consume_def Let_def split: option.splits if_splits)

lemma manifest_latch_run_Arm:
  "manifest_latch.latch_run (Arm k # es) tr =
     manifest_latch.latch_run es (fst (tracker_arm tr (fst k) (snd k)))"
  by (simp add: manifest_arm_eq [of k] tracker_refusal)

lemma manifest_latch_run_Consume:
  "manifest_latch.latch_run (Consume k # es) tr =
     (let (tr', r) = tracker_consume tr (fst k) (snd k);
          (t, ks) = manifest_latch.latch_run es tr' in (t, if isl r then ks else k # ks))"
  by (simp add: manifest_consume_eq [of k] tracker_refusal split_beta)

lemma manifest_run_latch: "manifest_run es tr = manifest_latch.latch_run es tr"
proof (induction es arbitrary: tr)
  case Nil
  then show ?case by simp
next
  case (Cons e es)
  then show ?case
    by (cases e) (simp_all only: manifest_run.simps manifest_latch_run_Arm manifest_latch_run_Consume)
qed

text \<open>
  Whatever the desktop sends and however it repeats itself, a manifest response is accepted at
  most as often as its wave was armed: for every sequence of arms and responses from the empty
  tracker, the accepted responses of a wave and type never outnumber the arms of that wave and
  type. A duplicate, late or unsolicited manifest is therefore always refused.
\<close>

theorem manifest_responses_once:
  "count_list (snd (manifest_run es None)) k \<le> count_list es (Arm k)"
  using manifest_latch.accepted_le_armed [of es None k]
  by (simp add: manifest_run_latch manifest_pending_def)

section \<open>The final acknowledgement is a one-shot latch\<close>

text \<open>The Finalize handler stores the new key over whatever the slot holds.\<close>

definition ack_arm :: "final_ack_key \<Rightarrow> final_ack_key option \<Rightarrow> final_ack_key option option" where
  "ack_arm k slot = Some (Some k)"

definition ack_consume :: "final_ack_key \<Rightarrow> final_ack_key option \<Rightarrow> final_ack_key option option" where
  "ack_consume k slot =
     (case consume_final_ack slot (ack_of k) of (slot', ok) \<Rightarrow> if ok then Some slot' else None)"

interpretation ack_latch: one_shot_latch ack_arm ack_consume "\<lambda>slot. slot"
  by unfold_locales
    (auto simp: ack_arm_def ack_consume_def consume_final_ack_def matches_payload_iff ack_of_inj
      split: option.splits if_splits)

datatype ack_event = ArmAck final_ack_key | AckFrame phase_ack_frame | AckDeadline final_ack_key

datatype ack_verdict = AckAccepted final_ack_key | AckTimedOut final_ack_key

text \<open>
  Events of one attempt in the order they reach the slot: a new key is stored, a frame arrives, a
  watchdog wakes up. Each verdict is the acceptance of a key or its timeout.
\<close>

fun ack_run :: "ack_event list \<Rightarrow> final_ack_key option \<Rightarrow> ack_verdict list" where
  "ack_run [] slot = []"
| "ack_run (ArmAck k # es) slot = ack_run es (Some k)"
| "ack_run (AckFrame p # es) slot =
     (let (slot', ok) = consume_final_ack slot p in
      (if ok then [AckAccepted (the slot)] else []) @ ack_run es slot')"
| "ack_run (AckDeadline k # es) slot =
     (let (slot', expired) = enforce_final_ack_deadline slot k in
      (if expired then [AckTimedOut k] else []) @ ack_run es slot')"

fun verdict_key :: "ack_verdict \<Rightarrow> final_ack_key" where
  "verdict_key (AckAccepted k) = k"
| "verdict_key (AckTimedOut k) = k"

definition payload_key :: "phase_ack_frame \<Rightarrow> final_ack_key option" where
  "payload_key p =
     (case (pa_session_id p, pa_attempt_id p, pa_nonce p) of
        (Some s, Some a, Some n) \<Rightarrow>
          (let k = \<lparr>fa_session_id = s, fa_attempt_id = a, fa_nonce = n\<rparr> in
           if p = ack_of k then Some k else None)
      | _ \<Rightarrow> None)"

lemma payload_key_iff: "payload_key p = Some k \<longleftrightarrow> p = ack_of k"
  by (auto simp: payload_key_def ack_of_def Let_def split: option.splits)

fun ack_latch_event :: "ack_event \<Rightarrow> final_ack_key latch_event list" where
  "ack_latch_event (ArmAck k) = [Arm k]"
| "ack_latch_event (AckFrame p) = (case payload_key p of None \<Rightarrow> [] | Some k \<Rightarrow> [Consume k])"
| "ack_latch_event (AckDeadline k) = [Consume k]"

lemma ack_latch_run_Arm: "ack_latch.latch_run (Arm k # es) slot = ack_latch.latch_run es (Some k)"
  by (subst ack_latch.latch_run.simps) (simp add: ack_arm_def)

lemma ack_latch_run_Consume:
  "ack_latch.latch_run (Consume k # es) slot =
     (if slot = Some k then (let (t, ks) = ack_latch.latch_run es None in (t, k # ks))
      else ack_latch.latch_run es slot)"
proof -
  have "ack_consume k slot = (if slot = Some k then Some None else None)"
    by (auto simp: ack_consume_def consume_final_ack_def matches_payload_iff ack_of_inj
        split: option.splits)
  then show ?thesis by (simp add: split_beta)
qed

lemma ack_run_latch:
  "map verdict_key (ack_run es slot) =
     snd (ack_latch.latch_run (concat (map ack_latch_event es)) slot)"
proof (induction es arbitrary: slot)
  case Nil
  then show ?case by simp
next
  case (Cons e es)
  show ?case
  proof (cases e)
    case (ArmAck k)
    with Cons show ?thesis by (simp add: ack_latch_run_Arm del: ack_latch.latch_run.simps)
  next
    case (AckFrame p)
    show ?thesis
    proof (cases "payload_key p")
      case None
      then have "\<not> matches_payload k p" for k
        by (metis matches_payload_iff option.distinct(1) payload_key_iff)
      with AckFrame None Cons show ?thesis
        by (auto simp: consume_final_ack_def split: option.splits)
    next
      case (Some k)
      then have "p = ack_of k" by (simp add: payload_key_iff)
      then have "consume_final_ack slot p = (if slot = Some k then (None, True) else (slot, False))"
        by (auto simp: consume_final_ack_def matches_payload_iff ack_of_inj split: option.splits)
      with AckFrame Some Cons show ?thesis
        by (simp add: ack_latch_run_Consume split_beta del: ack_latch.latch_run.simps)
    qed
  next
    case (AckDeadline k)
    with Cons show ?thesis
      by (simp add: enforce_final_ack_deadline_def ack_latch_run_Consume split_beta
          del: ack_latch.latch_run.simps)
  qed
qed

lemma count_list_concat_arms:
  "count_list (concat (map ack_latch_event es)) (Arm k) = count_list es (ArmAck k)"
proof (induction es)
  case (Cons e es)
  then show ?case by (cases e) (auto split: option.splits)
qed simp

text \<open>
  A final acknowledgement is settled at most once: for any interleaving of keys being stored,
  acknowledgement frames (stale, forged, repeated or correct) and watchdogs waking up, the number
  of times a key is accepted or timed out, together, is at most the number of times it was stored.
  With a fresh nonce per attempt, an attempt is confirmed once, or fails by timeout once, never
  both.
\<close>

theorem final_ack_settled_once:
  "count_list (map verdict_key (ack_run es None)) k \<le> count_list es (ArmAck k)"
  using ack_latch.accepted_le_armed [of "concat (map ack_latch_event es)" None k]
  by (simp add: ack_run_latch count_list_concat_arms)

section \<open>Topic-hash results\<close>

lemma validate_unique_from:
  "validate_unique_topic_keys_from seen vals field = Inr topics \<longleftrightarrow>
     topics = vals \<and> distinct vals \<and> set vals \<inter> set seen = {} \<and>
     (\<forall>k \<in> set vals. topic_key_is_valid k)"
proof (induction vals arbitrary: seen topics)
  case Nil
  then show ?case by auto
next
  case (Cons key rest)
  have "validate_unique_topic_keys_from seen (key # rest) field = Inr topics \<longleftrightarrow>
      topic_key_is_valid key \<and> key \<notin> set seen \<and>
      (\<exists>ts. topics = key # ts \<and> validate_unique_topic_keys_from (key # seen) rest field = Inr ts)"
    by (cases "validate_unique_topic_keys_from (key # seen) rest field") auto
  also have "\<dots> \<longleftrightarrow> topics = key # rest \<and> distinct (key # rest) \<and>
      set (key # rest) \<inter> set seen = {} \<and> (\<forall>k \<in> set (key # rest). topic_key_is_valid k)"
    unfolding Cons.IH by auto
  finally show ?case .
qed

lemma validate_unique_Inr:
  "validate_unique_topic_keys vals field = Inr topics \<longleftrightarrow>
     topics = vals \<and> distinct vals \<and> (\<forall>k \<in> set vals. topic_key_is_valid k)"
  by (auto simp: validate_unique_topic_keys_def validate_unique_from)

text \<open>
  The topics of a \<open>SYNC_TOPIC_DIFF_RESULT\<close> are accepted exactly when a request is pending,
  the frame decodes, and its topics are valid, pairwise different and all among those requested;
  they are then taken as they are. In every case the pending request is gone afterwards, so a
  second frame is refused.
\<close>

theorem topic_diff_result_accepts:
  "(snd (topic_diff_result pend frame) = Inr topics \<longleftrightarrow>
     (\<exists>expected. pend = Some expected \<and> frame = Inr topics \<and> distinct topics \<and>
        list_all (\<lambda>t. topic_key_is_valid t \<and> t \<in> expected) topics)) \<and>
   fst (topic_diff_result pend frame) = None \<and>
   isl (snd (topic_diff_result (fst (topic_diff_result pend frame)) frame'))"
proof (cases pend)
  case None
  then show ?thesis by (simp add: topic_diff_result_def)
next
  case (Some expected)
  show ?thesis
  proof (cases frame)
    case (Inl err)
    with Some show ?thesis by (simp add: topic_diff_result_def)
  next
    case (Inr changed)
    show ?thesis
    proof (cases "validate_unique_topic_keys changed ''SYNC_TOPIC_DIFF_RESULT.changedTopics''")
      case (Inl err)
      then have "\<not> (distinct changed \<and> (\<forall>k \<in> set changed. topic_key_is_valid k))"
        using validate_unique_Inr [of changed "''SYNC_TOPIC_DIFF_RESULT.changedTopics''" changed]
        by auto
      with Some Inr Inl show ?thesis by (auto simp: topic_diff_result_def list_all_iff)
    next
      case v: (Inr ts)
      then have ts: "ts = changed" "distinct changed" "\<forall>k \<in> set changed. topic_key_is_valid k"
        using validate_unique_Inr [of changed "''SYNC_TOPIC_DIFF_RESULT.changedTopics''" ts] by auto
      have "List.find (\<lambda>t. t \<notin> expected) changed = None \<longleftrightarrow> set changed \<subseteq> expected"
        by (auto simp: find_None_iff)
      with Some Inr v ts show ?thesis
        by (auto simp: topic_diff_result_def list_all_iff split: option.splits)
    qed
  qed
qed

section \<open>The retry budget\<close>

text \<open>The backoffs granted by \<open>n\<close> calls in a row.\<close>

fun retry_slots :: "nat \<Rightarrow> u32 \<times> nat \<Rightarrow> nat option list" where
  "retry_slots 0 st = []"
| "retry_slots (Suc n) st =
     (let (st', r) = take_retry_slot (fst st) (snd st) in r # retry_slots n st')"

lemma retry_slots_exhausted: "MAX_SYNC_RETRIES \<le> c \<Longrightarrow> retry_slots n (c, d) = replicate n None"
  by (induction n) (simp_all add: take_retry_slot_def)

lemma first_slots:
  "take_retry_slot 0 500 = ((1, 1000), Some 500)"
  "take_retry_slot 1 1000 = ((2, 2000), Some 1000)"
  "take_retry_slot 2 2000 = ((3, 4000), Some 2000)"
  by code_simp+

text \<open>
  A session retries at most three times: however many failures follow, the first three are
  granted backoffs of 500 ms, 1 s and 2 s, and every later one is refused.
\<close>

theorem retry_budget:
  "retry_slots n (0, 500) = take n [Some 500, Some 1000, Some 2000] @ replicate (n - 3) None"
proof -
  have "retry_slots (Suc (Suc (Suc m))) (0, 500) =
      [Some 500, Some 1000, Some 2000] @ retry_slots m (3, 4000)" for m
    by (simp add: first_slots)
  moreover have "retry_slots m (3, 4000) = replicate m None" for m
    by (rule retry_slots_exhausted) (simp add: MAX_SYNC_RETRIES_def)
  moreover have "n = 0 \<or> n = 1 \<or> n = 2 \<or> (\<exists>m. n = Suc (Suc (Suc m)))"
    by presburger
  moreover have "retry_slots 1 (0, 500) = [Some 500]" "retry_slots 2 (0, 500) = [Some 500, Some 1000]"
    by (simp_all add: first_slots numeral_2_eq_2)
  ultimately show ?thesis by (elim disjE exE) simp_all
qed

end
