(* ===== verification/Sync_Decisions.thy ===== *)
theory Sync_Decisions
  imports Sync_Latches "HOL-Library.Multiset"
begin

text \<open>
  The manifest decisions of the desktop (\<open>sync/sync_executor/diff_handler.rs\<close>): the typed
  frame, its validation, the owner scope, and the classification of the accepted decisions into the
  operations that are dispatched, with the counters that gate the next phase.
\<close>

section \<open>Decisions\<close>

record owner_decision =
  od_owner_type :: owner_type
  od_owner_id :: string
  od_action :: manifest_action
  od_deleted_at :: "int option"
  od_content_hash_mismatch :: bool

record topic_decision =
  td_owner_type :: owner_type
  td_owner_id :: string
  td_topic_id :: string
  td_action :: manifest_action
  td_deleted_at :: "int option"

record avatar_decision =
  ad_owner_type :: avatar_owner_type
  ad_owner_id :: string
  ad_action :: manifest_action
  ad_deleted_at :: "int option"

datatype manifest_frame =
    FrameOwner "owner_decision list"
  | FrameTopic "topic_decision list"
  | FrameAvatar "avatar_decision list"

fun frame_type :: "manifest_frame \<Rightarrow> manifest_type" where
  "frame_type (FrameOwner _) = MOwner"
| "frame_type (FrameTopic _) = MTopic"
| "frame_type (FrameAvatar _) = MAvatar"

datatype manifest_decision =
    DecOwner owner_decision
  | DecTopic topic_decision
  | DecAvatar avatar_decision

fun dec_action :: "manifest_decision \<Rightarrow> manifest_action" where
  "dec_action (DecOwner d) = od_action d"
| "dec_action (DecTopic d) = td_action d"
| "dec_action (DecAvatar d) = ad_action d"

fun dec_id :: "manifest_decision \<Rightarrow> string" where
  "dec_id (DecOwner d) = od_owner_id d"
| "dec_id (DecTopic d) = td_topic_id d"
| "dec_id (DecAvatar d) = ad_owner_id d"

fun dec_deleted_at :: "manifest_decision \<Rightarrow> int option" where
  "dec_deleted_at (DecOwner d) = od_deleted_at d"
| "dec_deleted_at (DecTopic d) = td_deleted_at d"
| "dec_deleted_at (DecAvatar d) = ad_deleted_at d"

fun dec_delete_target :: "manifest_decision \<Rightarrow> delete_target" where
  "dec_delete_target (DecOwner d) = DelOwner (od_owner_type d) (od_owner_id d)"
| "dec_delete_target (DecTopic d) =
     DelTopic (TopicKey (owner_type_str (td_owner_type d)) (td_owner_id d) (td_topic_id d))"
| "dec_delete_target (DecAvatar d) = DelAvatar (ad_owner_type d) (ad_owner_id d)"

section \<open>Validation\<close>

definition validate_decision_timestamp :: "manifest_decision \<Rightarrow> string option" where
  "validate_decision_timestamp item =
     (let who = ''SYNC_MANIFEST_RESULT '' @ manifest_action_str (dec_action item) @ '' '' @ dec_id item in
      if action_is_delete (dec_action item) then
        (case dec_deleted_at item of
           Some t \<Rightarrow>
             if 0 \<le> t \<and> t \<le> MAX_SAFE_JSON_INTEGER then None
             else Some (who @ '' requires a non-negative safe-integer deletedAt'')
         | None \<Rightarrow> Some (who @ '' requires a non-negative safe-integer deletedAt''))
      else if dec_deleted_at item \<noteq> None then Some (who @ '' must not carry deletedAt'')
      else None)"

text \<open>The checks of one decision after its timestamp, and the identity string compared.\<close>

definition nul :: string where "nul = [CHR 0x00]"

fun decision_identity :: "manifest_decision \<Rightarrow> string + string" where
  "decision_identity (DecOwner d) =
     (if od_content_hash_mismatch d \<and> action_is_delete (od_action d)
      then Inl (''Owner '' @ od_owner_id d @ '' delete decision must not report contentHashMismatch'')
      else if od_action d = ASkip \<and> \<not> od_content_hash_mismatch d
      then Inl (''Owner '' @ od_owner_id d @ '' SKIP decision requires contentHashMismatch'')
      else Inr (owner_type_str (od_owner_type d) @ nul @ od_owner_id d))"
| "decision_identity (DecTopic d) =
     (if td_owner_id d = [] \<or> td_topic_id d = []
      then Inl ''SYNC_MANIFEST_RESULT contains an invalid topic identity''
      else if td_action d = ASkip then Inl ''Topic manifest must not contain SKIP decisions''
      else Inr (owner_type_str (td_owner_type d) @ nul @ td_owner_id d @ nul @ td_topic_id d))"
| "decision_identity (DecAvatar d) =
     (if \<not> is_valid_avatar_owner (avatar_owner_type_str (ad_owner_type d)) (ad_owner_id d)
      then Inl ''SYNC_MANIFEST_RESULT contains an invalid avatar identity''
      else if ad_action d = ASkip then Inl ''Avatar manifest must not contain SKIP decisions''
      else Inr (avatar_owner_type_str (ad_owner_type d) @ nul @ ad_owner_id d))"

fun check_decisions ::
  "manifest_type \<Rightarrow> string list \<Rightarrow> manifest_decision list \<Rightarrow> string option" where
  "check_decisions mt seen [] = None"
| "check_decisions mt seen (d # ds) =
     (if dec_id d = [] then Some ''SYNC_MANIFEST_RESULT contains an empty identity''
      else case validate_decision_timestamp d of
        Some err \<Rightarrow> Some err
      | None \<Rightarrow>
          (case decision_identity d of
             Inl err \<Rightarrow> Some err
           | Inr identity \<Rightarrow>
               if identity \<in> set seen
               then Some (''SYNC_MANIFEST_RESULT contains a duplicate '' @
                          manifest_type_str mt @ '' identity'')
               else check_decisions mt (identity # seen) ds))"

fun frame_decisions :: "manifest_frame \<Rightarrow> manifest_decision list" where
  "frame_decisions (FrameOwner ds) = map DecOwner ds"
| "frame_decisions (FrameTopic ds) = map DecTopic ds"
| "frame_decisions (FrameAvatar ds) = map DecAvatar ds"

definition validate_manifest_result ::
  "manifest_frame \<Rightarrow> string + manifest_type \<times> manifest_decision list" where
  "validate_manifest_result frm =
     (case check_decisions (frame_type frm) [] (frame_decisions frm) of
        Some err \<Rightarrow> Inl err
      | None \<Rightarrow> Inr (frame_type frm, frame_decisions frm))"

fun validate_topic_owner_scope :: "manifest_decision list \<Rightarrow> owner_key set \<Rightarrow> string option" where
  "validate_topic_owner_scope [] owners = None"
| "validate_topic_owner_scope (DecTopic d # ds) owners =
     (if OwnerKey (owner_type_str (td_owner_type d)) (td_owner_id d) \<notin> owners
      then Some (''SYNC_MANIFEST_RESULT topic '' @ owner_type_str (td_owner_type d) @ ''/'' @
                 td_owner_id d @ ''/'' @ td_topic_id d @ '' is outside targeted owner scope'')
      else validate_topic_owner_scope ds owners)"
| "validate_topic_owner_scope (d # ds) owners = validate_topic_owner_scope ds owners"

section \<open>Classification and dispatch\<close>

datatype phase_command =
    StartAvatarMetadata | StartTopicMetadata | StartTopicValidation

definition next_manifest_command :: "u8 \<Rightarrow> phase_command option" where
  "next_manifest_command current_phase =
     (if current_phase = 1 then Some StartAvatarMetadata
      else if current_phase = 2 then Some StartTopicMetadata
      else if current_phase = 3 then Some StartTopicValidation
      else None)"

record dispatch =
  dp_pulls :: "entity_selector list"
  dp_push_topics :: "topic_key list"
  dp_others :: "manifest_decision list"

fun dec_topic_key :: "topic_decision \<Rightarrow> topic_key" where
  "dec_topic_key d = TopicKey (owner_type_str (td_owner_type d)) (td_owner_id d) (td_topic_id d)"

text \<open>The changed owners recorded for an owner decision.\<close>

fun changed_owner :: "manifest_decision \<Rightarrow> owner_key set" where
  "changed_owner (DecOwner d) =
     (if od_action d = APush \<or> od_action d = APull \<or> od_content_hash_mismatch d
      then {OwnerKey (owner_type_str (od_owner_type d)) (od_owner_id d)} else {})"
| "changed_owner _ = {}"

text \<open>The loop over the decisions; the first selector that fails ends it, with what was collected
  before lost to the caller (the function returns the error).\<close>

fun classify :: "manifest_decision list \<Rightarrow> dispatch \<Rightarrow> owner_key set \<Rightarrow>
  owner_key set \<times> (string + dispatch)" where
  "classify [] acc owners = (owners, Inr acc)"
| "classify (item # rest) acc owners =
     (let owners' = owners \<union> changed_owner item; action = dec_action item in
      if action = ASkip then classify rest acc owners'
      else case (action, item) of
        (APull, DecTopic d) \<Rightarrow>
          (case selector_topic (dec_topic_key d) of
             Inl err \<Rightarrow> (owners', Inl err)
           | Inr sel \<Rightarrow> classify rest (acc\<lparr>dp_pulls := dp_pulls acc @ [sel]\<rparr>) owners')
      | (APull, DecOwner d) \<Rightarrow>
          classify rest
            (acc\<lparr>dp_pulls := dp_pulls acc @ [SelOwner (od_owner_type d) (od_owner_id d)]\<rparr>) owners'
      | (APush, DecTopic d) \<Rightarrow>
          classify rest (acc\<lparr>dp_push_topics := dp_push_topics acc @ [dec_topic_key d]\<rparr>) owners'
      | _ \<Rightarrow> classify rest (acc\<lparr>dp_others := dp_others acc @ [item]\<rparr>) owners')"

text \<open>What the attempt shares between the main loop and the handlers.\<close>

record diff_shared =
  ds_pending :: u32
  ds_total :: u32
  ds_tracker :: manifest_tracker
  ds_phase :: u8
  ds_changed_owners :: "owner_key set"
  ds_commands :: "phase_command list"

definition count_action :: "manifest_decision list \<Rightarrow> manifest_action \<Rightarrow> u32" where
  "count_action ds a = of_nat (length (filter (\<lambda>d. dec_action d = a) ds))"

definition total_ops :: "manifest_decision list \<Rightarrow> u32" where
  "total_ops ds = count_action ds APull + count_action ds APush + count_action ds APullDelete +
     count_action ds APushDelete"

text \<open>\<open>handle_diff\<close> up to the spawning of the tasks.\<close>

definition handle_diff :: "manifest_frame \<Rightarrow> diff_shared \<Rightarrow> diff_shared \<times> (string + dispatch)" where
  "handle_diff frm sh =
     (case validate_manifest_result frm of
        Inl err \<Rightarrow> (sh, Inl err)
      | Inr (mt, ds) \<Rightarrow>
          (case (if mt = MTopic then validate_topic_owner_scope ds (ds_changed_owners sh) else None) of
             Some err \<Rightarrow> (sh, Inl err)
           | None \<Rightarrow>
               (let phase = ds_phase sh; (tr, r) = tracker_consume (ds_tracker sh) phase mt in
                case r of
                  Inl err \<Rightarrow> (sh, Inl err)
                | Inr _ \<Rightarrow>
                    (let pend = ds_pending sh + total_ops ds;
                         sh1 = sh\<lparr>ds_tracker := tr, ds_pending := pend,
                                  ds_total := ds_total sh + total_ops ds\<rparr>;
                         sh2 = (if pend = 0
                                then (case next_manifest_command phase of
                                        Some c \<Rightarrow> sh1\<lparr>ds_commands := ds_commands sh1 @ [c]\<rparr>
                                      | None \<Rightarrow> sh1)
                                else sh1);
                         (owners, d) = classify ds
                           \<lparr>dp_pulls = [], dp_push_topics = [], dp_others = []\<rparr>
                           (ds_changed_owners sh2) in
                     (sh2\<lparr>ds_changed_owners := owners\<rparr>, d)))))"

text \<open>The operation a remaining item runs; a soft deletion has its target, its time, and whether the
  desktop is notified.\<close>

datatype entity_op =
    OpPullAvatar avatar_owner_type string
  | OpPushAgent string
  | OpPushGroup string
  | OpPushAvatar avatar_owner_type string
  | OpSoftDelete delete_target int bool
  | OpError string

fun entity_operation :: "manifest_type \<Rightarrow> manifest_decision \<Rightarrow> entity_op" where
  "entity_operation mt item =
     (case (dec_action item, item) of
        (APull, DecAvatar d) \<Rightarrow> OpPullAvatar (ad_owner_type d) (ad_owner_id d)
      | (APush, DecOwner d) \<Rightarrow>
          (case od_owner_type d of OAgent \<Rightarrow> OpPushAgent (od_owner_id d)
           | OGroup \<Rightarrow> OpPushGroup (od_owner_id d))
      | (APush, DecAvatar d) \<Rightarrow> OpPushAvatar (ad_owner_type d) (ad_owner_id d)
      | (act, _) \<Rightarrow>
          if act = APullDelete \<or> act = APushDelete then
            (case dec_deleted_at item of
               None \<Rightarrow> OpError (manifest_action_str act @ '' action for '' @ dec_id item @
                         '' is missing a valid deletedAt'')
             | Some t \<Rightarrow> OpSoftDelete (dec_delete_target item) t (act = APushDelete))
          else OpError (''unsupported '' @ manifest_action_str act @ '' action for '' @
                        manifest_type_str mt))"

end
