(* ===== verification/Sync_Decision_Laws.thy ===== *)
theory Sync_Decision_Laws
  imports Sync_Decisions
begin

text \<open>
  What the manifest handler promises: which frames it accepts, that a refused frame changes
  nothing, and that an accepted one dispatches every decision exactly once and adds exactly that
  many operations to the counter that gates the next phase.
\<close>

section \<open>Accepted frames\<close>

fun identity_string :: "manifest_decision \<Rightarrow> string" where
  "identity_string (DecOwner d) = owner_type_str (od_owner_type d) @ nul @ od_owner_id d"
| "identity_string (DecTopic d) =
     owner_type_str (td_owner_type d) @ nul @ td_owner_id d @ nul @ td_topic_id d"
| "identity_string (DecAvatar d) = avatar_owner_type_str (ad_owner_type d) @ nul @ ad_owner_id d"

fun kind_ok :: "manifest_decision \<Rightarrow> bool" where
  "kind_ok (DecOwner d) \<longleftrightarrow>
     (if od_content_hash_mismatch d then \<not> action_is_delete (od_action d) else od_action d \<noteq> ASkip)"
| "kind_ok (DecTopic d) \<longleftrightarrow> td_owner_id d \<noteq> [] \<and> td_action d \<noteq> ASkip"
| "kind_ok (DecAvatar d) \<longleftrightarrow> (ad_owner_type d = AvUser \<longrightarrow> ad_owner_id d = ''user_avatar'') \<and>
     ad_action d \<noteq> ASkip"

text \<open>A decision that may be acted on: it names something, carries a deletion time in range exactly
  when it deletes, and has an action its kind allows.\<close>

definition well_formed_decision :: "manifest_decision \<Rightarrow> bool" where
  "well_formed_decision d \<longleftrightarrow>
     dec_id d \<noteq> [] \<and> kind_ok d \<and>
     (case dec_deleted_at d of
        None \<Rightarrow> \<not> action_is_delete (dec_action d)
      | Some t \<Rightarrow> action_is_delete (dec_action d) \<and> 0 \<le> t \<and> t \<le> MAX_SAFE_JSON_INTEGER)"

lemma timestamp_ok:
  "validate_decision_timestamp d = None \<longleftrightarrow>
     (case dec_deleted_at d of
        None \<Rightarrow> \<not> action_is_delete (dec_action d)
      | Some t \<Rightarrow> action_is_delete (dec_action d) \<and> 0 \<le> t \<and> t \<le> MAX_SAFE_JSON_INTEGER)"
  by (auto simp: validate_decision_timestamp_def Let_def split: option.splits)

lemma well_formed_iff:
  "well_formed_decision d \<longleftrightarrow>
     dec_id d \<noteq> [] \<and> kind_ok d \<and> validate_decision_timestamp d = None"
  by (simp add: well_formed_decision_def timestamp_ok)

lemma avatar_owner_valid:
  "is_valid_avatar_owner (avatar_owner_type_str ot) oid \<longleftrightarrow>
     (if ot = AvUser then oid = ''user_avatar'' else oid \<noteq> [])"
  by (cases ot) (simp_all add: is_valid_avatar_owner_def avatar_owner_type_of_def)

lemma decision_identity_ok:
  "dec_id d \<noteq> [] \<Longrightarrow> decision_identity d = Inr s \<longleftrightarrow> kind_ok d \<and> s = identity_string d"
  by (cases d) (auto simp: avatar_owner_valid)

lemma check_step:
  "check_decisions mt seen (d # ds) = None \<longleftrightarrow>
     well_formed_decision d \<and> identity_string d \<notin> set seen \<and>
     check_decisions mt (identity_string d # seen) ds = None"
proof (cases "dec_id d = [] \<or> validate_decision_timestamp d \<noteq> None")
  case True
  then show ?thesis by (auto simp: well_formed_iff)
next
  case False
  then have ts: "validate_decision_timestamp d = None" and d: "dec_id d \<noteq> []" by auto
  have wf: "well_formed_decision d \<longleftrightarrow> kind_ok d"
    using d ts by (simp add: well_formed_iff)
  show ?thesis
  proof (cases "decision_identity d")
    case (Inl e)
    with decision_identity_ok [OF d] have "\<not> kind_ok d" by auto
    with ts d wf Inl show ?thesis by simp
  next
    case (Inr s)
    with decision_identity_ok [OF d, of s] have "kind_ok d" "s = identity_string d" by simp_all
    with ts d wf Inr show ?thesis by simp
  qed
qed

lemma check_decisions_None:
  "check_decisions mt seen ds = None \<longleftrightarrow>
     (\<forall>d \<in> set ds. well_formed_decision d) \<and> distinct (map identity_string ds) \<and>
     identity_string ` set ds \<inter> set seen = {}"
proof (induction ds arbitrary: seen)
  case Nil
  then show ?case by simp
next
  case (Cons d ds)
  show ?case unfolding check_step Cons.IH by auto
qed

lemma validate_manifest_result_iff:
  "validate_manifest_result frm = Inr (mt, ds) \<longleftrightarrow>
     mt = frame_type frm \<and> ds = frame_decisions frm \<and>
     list_all well_formed_decision ds \<and> distinct (map identity_string ds)"
  using check_decisions_None [of "frame_type frm" "[]" "frame_decisions frm"]
  by (auto simp: validate_manifest_result_def list_all_iff split: option.splits)

text \<open>
  A manifest result is accepted exactly when every decision is well formed and no two have the
  same identity; it is then passed on unchanged, with the type of its frame.
\<close>

theorem validate_manifest_result_accepts:
  "validate_manifest_result frm = Inr (mt, ds) \<longleftrightarrow>
     mt = frame_type frm \<and> ds = frame_decisions frm \<and>
     list_all well_formed_decision ds \<and> distinct (map identity_string ds)"
  by (rule validate_manifest_result_iff)

text \<open>
  The identity of a topic joins its fields with NUL, so two different topics whose ids contain NUL
  can be taken for duplicates.
\<close>

lemma topic_identity_collision:
  "\<exists>a b. DecTopic a \<noteq> DecTopic b \<and> dec_topic_key a \<noteq> dec_topic_key b \<and>
     well_formed_decision (DecTopic a) \<and> well_formed_decision (DecTopic b) \<and>
     validate_manifest_result (FrameTopic [a, b]) =
       Inl ''SYNC_MANIFEST_RESULT contains a duplicate topic identity''"
proof (intro exI conjI)
  let ?d = "\<lambda>oid tid. \<lparr>td_owner_type = OAgent, td_owner_id = oid, td_topic_id = tid,
    td_action = APull, td_deleted_at = None\<rparr>"
  let ?a = "?d (''a'' @ nul @ ''b'') ''c''" and ?b = "?d ''a'' (''b'' @ nul @ ''c'')"
  show "DecTopic ?a \<noteq> DecTopic ?b" "dec_topic_key ?a \<noteq> dec_topic_key ?b"
    by (simp_all add: nul_def)
  show "well_formed_decision (DecTopic ?a)" "well_formed_decision (DecTopic ?b)"
    by (simp_all add: well_formed_decision_def action_is_delete_def)
  show "validate_manifest_result (FrameTopic [?a, ?b]) =
      Inl ''SYNC_MANIFEST_RESULT contains a duplicate topic identity''"
    by (simp add: validate_manifest_result_def validate_decision_timestamp_def action_is_delete_def
        nul_def)
qed

section \<open>Dispatch\<close>

text \<open>Where a decision goes.\<close>

fun pull_of :: "manifest_decision \<Rightarrow> entity_selector option" where
  "pull_of (DecOwner d) =
     (if od_action d = APull then Some (SelOwner (od_owner_type d) (od_owner_id d)) else None)"
| "pull_of (DecTopic d) =
     (if td_action d = APull then Some (SelTopic (td_owner_type d) (td_owner_id d) (td_topic_id d))
      else None)"
| "pull_of (DecAvatar d) = None"

fun push_topic_of :: "manifest_decision \<Rightarrow> topic_key option" where
  "push_topic_of (DecTopic d) = (if td_action d = APush then Some (dec_topic_key d) else None)"
| "push_topic_of _ = None"

fun is_other :: "manifest_decision \<Rightarrow> bool" where
  "is_other (DecOwner d) \<longleftrightarrow> od_action d \<noteq> ASkip \<and> od_action d \<noteq> APull"
| "is_other (DecTopic d) \<longleftrightarrow> td_action d = APullDelete \<or> td_action d = APushDelete"
| "is_other (DecAvatar d) \<longleftrightarrow> ad_action d \<noteq> ASkip"

abbreviation routed :: "manifest_decision list \<Rightarrow> dispatch" where
  "routed ds \<equiv> \<lparr>dp_pulls = List.map_filter pull_of ds,
     dp_push_topics = List.map_filter push_topic_of ds, dp_others = filter is_other ds\<rparr>"

definition dispatch_append :: "dispatch \<Rightarrow> dispatch \<Rightarrow> dispatch" where
  "dispatch_append a b = \<lparr>dp_pulls = dp_pulls a @ dp_pulls b,
     dp_push_topics = dp_push_topics a @ dp_push_topics b, dp_others = dp_others a @ dp_others b\<rparr>"

lemma classify_routes:
  "\<forall>d \<in> set ds. well_formed_decision d \<Longrightarrow>
   classify ds acc owners = (owners \<union> (\<Union>d \<in> set ds. changed_owner d), Inr (dispatch_append acc (routed ds)))"
proof (induction ds arbitrary: acc owners)
  case Nil
  then show ?case by (simp add: dispatch_append_def map_filter_simps)
next
  case (Cons d ds)
  then have wf: "well_formed_decision d" and ih: "\<And>acc owners. classify ds acc owners =
      (owners \<union> (\<Union>d \<in> set ds. changed_owner d), Inr (dispatch_append acc (routed ds)))" by auto
  show ?case
  proof (cases d)
    case (DecOwner x)
    then show ?thesis using ih
      by (cases "od_action x") (auto simp: Let_def dispatch_append_def map_filter_simps)
  next
    case (DecTopic x)
    have sel: "selector_topic (dec_topic_key x) =
        Inr (SelTopic (td_owner_type x) (td_owner_id x) (td_topic_id x))"
      using wf DecTopic by (simp add: selector_topic_def well_formed_decision_def)
    from DecTopic show ?thesis using ih sel
      by (cases "td_action x") (auto simp: Let_def dispatch_append_def map_filter_simps)
  next
    case (DecAvatar x)
    then show ?thesis using ih
      by (cases "ad_action x") (auto simp: Let_def dispatch_append_def map_filter_simps)
  qed
qed

lemma routed_count:
  "length (List.map_filter pull_of ds) + length (List.map_filter push_topic_of ds) +
     length (filter is_other ds) = length (filter (\<lambda>d. dec_action d \<noteq> ASkip) ds)"
proof (induction ds)
  case Nil
  then show ?case by (simp add: map_filter_simps)
next
  case (Cons d ds)
  have "(if pull_of d = None then 0 else 1) + (if push_topic_of d = None then 0 else 1) +
      (if is_other d then 1 else 0) = (if dec_action d = ASkip then 0 else (1 :: nat))"
    by (cases d) (auto intro: manifest_action.exhaust)
  with Cons.IH show ?case by (auto simp: map_filter_simps split: if_splits option.splits)
qed

lemma total_ops_eq:
  "total_ops ds = of_nat (length (filter (\<lambda>d. dec_action d \<noteq> ASkip) ds))"
proof (induction ds)
  case Nil
  then show ?case by (simp add: total_ops_def count_action_def)
next
  case (Cons d ds)
  then show ?case
    by (cases "dec_action d") (simp_all add: total_ops_def count_action_def algebra_simps)
qed

lemma others_run:
  "well_formed_decision d \<Longrightarrow> is_other d \<Longrightarrow> entity_operation mt d \<noteq> OpError msg"
  by (cases d) (auto simp: well_formed_decision_def action_is_delete_def
      split: manifest_action.splits owner_type.splits option.splits)

text \<open>
  The manifest handler is all or nothing. A frame it refuses (malformed, out of scope, not the
  response waited for) changes no shared state. A frame it accepts routes every decision that is
  not a SKIP to exactly one of the pulls, the topic pushes and the remaining operations, in order,
  adds exactly their number to both counters (modulo \<open>u32\<close>), records exactly the owners it found
  changed, and none of the remaining operations is one the dispatcher would reject.
\<close>

theorem handle_diff_all_or_nothing:
  "case handle_diff frm sh of
     (sh', Inl err) \<Rightarrow> sh' = sh
   | (sh', Inr d) \<Rightarrow>
       d = routed (frame_decisions frm) \<and>
       length (dp_pulls d) + length (dp_push_topics d) + length (dp_others d) =
         length (filter (\<lambda>x. dec_action x \<noteq> ASkip) (frame_decisions frm)) \<and>
       ds_pending sh' = ds_pending sh +
         of_nat (length (dp_pulls d) + length (dp_push_topics d) + length (dp_others d)) \<and>
       ds_total sh' = ds_total sh +
         of_nat (length (dp_pulls d) + length (dp_push_topics d) + length (dp_others d)) \<and>
       ds_changed_owners sh' = ds_changed_owners sh \<union>
         (\<Union>x \<in> set (frame_decisions frm). changed_owner x) \<and>
       list_all (\<lambda>x. case entity_operation (frame_type frm) x of OpError _ \<Rightarrow> False | _ \<Rightarrow> True)
         (dp_others d)"
proof (cases "validate_manifest_result frm")
  case (Inl err)
  then show ?thesis by (simp add: handle_diff_def)
next
  case (Inr r)
  obtain mt ds where r: "r = (mt, ds)" by (cases r)
  with Inr have mt: "mt = frame_type frm" and ds: "ds = frame_decisions frm"
    and wf: "\<forall>d \<in> set ds. well_formed_decision d"
    using validate_manifest_result_iff by (auto simp: list_all_iff)
  have cl: "classify ds \<lparr>dp_pulls = [], dp_push_topics = [], dp_others = []\<rparr> owners =
      (owners \<union> (\<Union>d \<in> set ds. changed_owner d), Inr (routed ds))" for owners
    using classify_routes [OF wf] by (simp add: dispatch_append_def)
  have ops: "list_all (\<lambda>x. case entity_operation (frame_type frm) x of OpError _ \<Rightarrow> False | _ \<Rightarrow> True)
      (filter is_other ds)"
    using wf others_run by (auto simp: list_all_iff simp del: entity_operation.simps
        split: entity_op.splits)
  let ?scope = "if mt = MTopic then validate_topic_owner_scope ds (ds_changed_owners sh) else None"
  show ?thesis
  proof (cases ?scope)
    case (Some err)
    with Inr r show ?thesis by (simp add: handle_diff_def)
  next
    case scope: None
    obtain tr q where t: "tracker_consume (ds_tracker sh) (ds_phase sh) mt = (tr, q)"
      by (cases "tracker_consume (ds_tracker sh) (ds_phase sh) mt")
    show ?thesis
    proof (cases q)
      case (Inl err)
      with Inr r scope t show ?thesis by (simp add: handle_diff_def)
    next
      case q: (Inr u)
      obtain sh2 where h: "handle_diff frm sh = (sh2\<lparr>ds_changed_owners := ds_changed_owners sh \<union>
            (\<Union>x \<in> set ds. changed_owner x)\<rparr>, Inr (routed ds))"
        and p: "ds_pending sh2 = ds_pending sh + total_ops ds"
          "ds_total sh2 = ds_total sh + total_ops ds"
      proof -
        let ?P = "ds_pending sh + total_ops ds"
        let ?sh1 = "sh\<lparr>ds_tracker := tr, ds_pending := ?P, ds_total := ds_total sh + total_ops ds\<rparr>"
        show ?thesis
        proof (cases "?P = 0")
          case False
          show ?thesis
            by (rule that [of ?sh1]) (simp_all add: handle_diff_def Inr r scope t q False cl Let_def)
        next
          case True
          show ?thesis
          proof (cases "next_manifest_command (ds_phase sh)")
            case None
            show ?thesis
              by (rule that [of ?sh1])
                (simp_all add: handle_diff_def Inr r scope t q True None cl Let_def)
          next
            case (Some c)
            show ?thesis
              by (rule that [of "?sh1\<lparr>ds_commands := ds_commands ?sh1 @ [c]\<rparr>"])
                (simp_all add: handle_diff_def Inr r scope t q True Some cl Let_def)
          qed
        qed
      qed
      have n: "total_ops ds = of_nat (length (List.map_filter pull_of ds) +
          length (List.map_filter push_topic_of ds) + length (filter is_other ds))"
        by (simp only: total_ops_eq routed_count)
      show ?thesis
        using ops by (simp add: h p n routed_count del: entity_operation.simps of_nat_add flip: mt ds)
    qed
  qed
qed

end
