(* ===== verification/Sync_Errors.thy ===== *)
theory Sync_Errors
  imports Rust_Str
begin

text \<open>
  The error vocabulary of the synchronisation wire (\<open>sync/sync_error.rs\<close>): the registry of
  codes, the validation and the private text encoding of a wire error, and the rule that lets an
  attempt restart (\<open>sync_service.rs\<close>). The operator texts of the registry (message and
  guidance, in Chinese) are the argument \<open>copy\<close>; JSON encoding and decoding of a wire error
  are serde's and are the arguments \<open>to_json\<close> and \<open>of_json\<close>, the latter returning the first
  value of a text.
\<close>

section \<open>Types\<close>

datatype sync_error_origin =
  OrgMobileUi | OrgMobileNative | OrgMobileSync | OrgDesktopPlugin | OrgDesktopCds

datatype sync_error_stage =
    StgPreflight | StgStartup | StgConnect | StgHandshake | StgOwnerMetadata | StgTopicMetadata
  | StgTopicValidation | StgMessages | StgFinalize | StgShutdown | StgHistory

datatype sync_error_category =
    CatDevice | CatConfiguration | CatConnection | CatCompatibility | CatProtocol | CatData
  | CatStorage | CatInternal

datatype sync_retry_action = RtyAutomatic | RtyAfterUserAction | RtyManual | RtyNever

record wire_error =
  we_code :: string
  we_origin :: sync_error_origin
  we_stage :: sync_error_stage
  we_kind :: sync_error_category
  we_retry :: sync_retry_action
  we_message :: string
  we_failed_topic_ids :: "string list"

record error_def =
  edf_category :: sync_error_category
  edf_origin :: sync_error_origin
  edf_stage :: sync_error_stage
  edf_retry :: sync_retry_action
  edf_message :: string
  edf_guidance :: string

section \<open>The registry\<close>

definition error_registry ::
  "(string list \<times> sync_error_category \<times> sync_error_origin \<times> sync_error_stage \<times> sync_retry_action) list"
  where
  "error_registry = [
     ([''POWER_SAVE_MODE''],
      (CatDevice, OrgMobileNative, StgPreflight, RtyAfterUserAction)),
     ([''BATTERY_TOO_LOW''],
      (CatDevice, OrgMobileNative, StgPreflight, RtyAfterUserAction)),
     ([''SYNC_ACTIVE_GENERATION''],
      (CatData, OrgMobileSync, StgPreflight, RtyAfterUserAction)),
     ([''CONFIG_LOOPBACK_ON_MOBILE''],
      (CatConfiguration, OrgMobileSync, StgStartup, RtyAfterUserAction)),
     ([''SYNC_TOKEN_MISSING''],
      (CatConfiguration, OrgMobileSync, StgStartup, RtyAfterUserAction)),
     ([''TOKEN_MISMATCH'', ''SYNC_AUTH_FAILED''],
      (CatConfiguration, OrgMobileSync, StgConnect, RtyAfterUserAction)),
     ([''SYNC_CONFIG_MISSING''],
      (CatConfiguration, OrgMobileSync, StgStartup, RtyAfterUserAction)),
     ([''SYNC_SETTINGS_READ_FAILED''],
      (CatStorage, OrgMobileSync, StgStartup, RtyManual)),
     ([''INVALID_CONFIGURATION''],
      (CatConfiguration, OrgDesktopCds, StgStartup, RtyAfterUserAction)),
     ([''UNAUTHORIZED''],
      (CatConfiguration, OrgDesktopCds, StgConnect, RtyAfterUserAction)),
     ([''SYNC_CONFIG_INVALID''],
      (CatConfiguration, OrgMobileSync, StgStartup, RtyAfterUserAction)),
     ([''WS_PATH_INVALID''],
      (CatConfiguration, OrgMobileSync, StgConnect, RtyAfterUserAction)),
     ([''SYNC_CHANGE_FEED_UNAVAILABLE''],
      (CatConfiguration, OrgDesktopPlugin, StgHistory, RtyAfterUserAction)),
     ([''WIRE_VERSION_MISMATCH''],
      (CatCompatibility, OrgMobileSync, StgHandshake, RtyAfterUserAction)),
     ([''CDS_BINARY_NOT_FOUND''],
      (CatConfiguration, OrgDesktopCds, StgStartup, RtyAfterUserAction)),
     ([''CDS_PROTOCOL_MISMATCH'', ''CDS_SCHEMA_MISMATCH''],
      (CatCompatibility, OrgDesktopCds, StgStartup, RtyAfterUserAction)),
     ([''VERSION_CHECK_TIMEOUT''],
      (CatConnection, OrgMobileSync, StgHandshake, RtyManual)),
     ([''WS_CONNECT_TIMEOUT''],
      (CatConnection, OrgMobileSync, StgConnect, RtyManual)),
     ([''MANIFEST_RESPONSE_TIMEOUT''],
      (CatConnection, OrgMobileSync, StgOwnerMetadata, RtyManual)),
     ([''TOPIC_HASH_RESPONSE_TIMEOUT''],
      (CatConnection, OrgMobileSync, StgTopicValidation, RtyManual)),
     ([''FINAL_ACK_TIMEOUT''],
      (CatConnection, OrgMobileSync, StgFinalize, RtyManual)),
     ([''CONNECTION_REFUSED''],
      (CatConnection, OrgMobileSync, StgConnect, RtyManual)),
     ([''WS_CLOSED'', ''WS_DISCONNECTED'', ''WS_RECEIVE_FAILED'', ''WS_SEND_FAILED'', ''HTTP_HANDSHAKE_REJECTED''],
      (CatConnection, OrgMobileSync, StgConnect, RtyManual)),
     ([''HTTP_TRANSPORT_FAILED''],
      (CatConnection, OrgMobileSync, StgConnect, RtyManual)),
     ([''TIMEOUT'', ''UNAVAILABLE'', ''HTTP_ERROR'', ''HEALTH_CHECK_FAILED''],
      (CatConnection, OrgDesktopCds, StgStartup, RtyManual)),
     ([''SYNC_STREAM_FAILED''],
      (CatConnection, OrgMobileSync, StgMessages, RtyManual)),
     ([''SERVICE_BUSY''],
      (CatConnection, OrgDesktopCds, StgStartup, RtyManual)),
     ([''PROTOCOL_INVALID'', ''PROTOCOL_DUPLICATE_KEY'', ''VERSION_CHECK_REQUIRED'', ''VERSION_CHECK_DUPLICATE'', ''VERSION_CHECK_INVALID'', ''VERSION_ACK_INVALID''],
      (CatProtocol, OrgMobileSync, StgHandshake, RtyAfterUserAction)),
     ([''INVALID_RESPONSE'', ''INVALID_REQUEST''],
      (CatProtocol, OrgDesktopCds, StgStartup, RtyAfterUserAction)),
     ([''SYNC_PROTOCOL_INVALID''],
      (CatProtocol, OrgMobileSync, StgOwnerMetadata, RtyAfterUserAction)),
     ([''SYNC_REQUEST_INVALID''],
      (CatProtocol, OrgMobileSync, StgConnect, RtyAfterUserAction)),
     ([''PROTOCOL_FRAME_INVALID''],
      (CatProtocol, OrgMobileSync, StgMessages, RtyAfterUserAction)),
     ([''TOPIC_HASH_RESPONSE_OVERLAP'', ''TOPIC_HASH_RESULTS_INVALID''],
      (CatProtocol, OrgMobileSync, StgTopicValidation, RtyAfterUserAction)),
     ([''PHASE3_BATCH_OVERLAP'', ''PHASE3_FRAME_INVALID'', ''PHASE3_DECISION_INVALID'', ''PHASE3_TOPIC_MISMATCH'', ''SYNC_DELETE_INVALID''],
      (CatProtocol, OrgMobileSync, StgMessages, RtyAfterUserAction)),
     ([''SYNC_LOG_PATH_INVALID''],
      (CatProtocol, OrgMobileSync, StgHistory, RtyNever)),
     ([''OWNER_MANIFEST_INVALID''],
      (CatData, OrgMobileSync, StgOwnerMetadata, RtyManual)),
     ([''TOPIC_MANIFEST_INVALID''],
      (CatData, OrgMobileSync, StgTopicMetadata, RtyManual)),
     ([''SYNC_BUDGET_EXCEEDED'', ''RESPONSE_TOO_LARGE''],
      (CatData, OrgMobileSync, StgMessages, RtyAfterUserAction)),
     ([''TOPIC_HASH_STATE_INVALID''],
      (CatData, OrgMobileSync, StgTopicValidation, RtyManual)),
     ([''SYNC_SNAPSHOT_STALE''],
      (CatData, OrgDesktopPlugin, StgMessages, RtyManual)),
     ([''SYNC_OWNER_CONFLICT''],
      (CatData, OrgDesktopPlugin, StgTopicMetadata, RtyManual)),
     ([''TOPIC_PUSH_OWNER_CONFLICT''],
      (CatData, OrgMobileSync, StgTopicMetadata, RtyManual)),
     ([''SYNC_ENTITY_NOT_FOUND'', ''SYNC_AVATAR_NOT_FOUND''],
      (CatData, OrgDesktopPlugin, StgOwnerMetadata, RtyManual)),
     ([''TOPIC_PUSH_SOURCE_MISSING''],
      (CatData, OrgMobileSync, StgTopicMetadata, RtyManual)),
     ([''HISTORY_SOURCE_INVALID'', ''MOBILE_ATTACHMENT_INVALID''],
      (CatData, OrgDesktopPlugin, StgMessages, RtyAfterUserAction)),
     ([''ATTACHMENT_PATH_INVALID''],
      (CatStorage, OrgDesktopPlugin, StgMessages, RtyAfterUserAction)),
     ([''TOPIC_NOT_FOUND'', ''PHASE3_DIFF_MISSING'', ''NOT_FOUND'', ''AMBIGUOUS_IDENTITY''],
      (CatData, OrgDesktopPlugin, StgMessages, RtyManual)),
     ([''SYNC_DB_UNAVAILABLE''],
      (CatStorage, OrgMobileSync, StgStartup, RtyManual)),
     ([''SYNC_ENTITY_READ_FAILED'', ''SYNC_ENTITY_WRITE_FAILED'', ''SYNC_AVATAR_READ_FAILED'', ''SYNC_AVATAR_WRITE_FAILED'', ''OWNER_MANIFEST_DB_FAILED'', ''AVATAR_MANIFEST_DB_FAILED'', ''OWNER_METADATA_DRAIN_FAILED'', ''ENTITY_PULL_FAILED''],
      (CatStorage, OrgMobileSync, StgOwnerMetadata, RtyManual)),
     ([''SYNC_ENTITY_BATCH_FAILED'', ''TOPIC_MANIFEST_DB_FAILED'', ''TOPIC_METADATA_DRAIN_FAILED'', ''TOPIC_PUSH_DB_DECODE_FAILED'', ''TOPIC_PUSH_DB_FAILED'', ''TOPIC_PUSH_FAILED''],
      (CatStorage, OrgMobileSync, StgTopicMetadata, RtyManual)),
     ([''SYNC_DB_QUERY_FAILED'', ''SYNC_INDEX_INVALID'', ''TOPIC_HASH_DB_FAILED''],
      (CatStorage, OrgMobileSync, StgTopicValidation, RtyManual)),
     ([''MESSAGE_DIFF_FAILED'', ''TOPIC_HASH_FAILED'', ''MESSAGE_MANIFEST_FAILED'', ''SYNC_MESSAGE_READ_FAILED'', ''SYNC_MESSAGE_WRITE_FAILED'', ''SYNC_DELETE_FAILED'', ''ENTITY_OPERATION_FAILED'', ''PHASE3_HASH_PREP_FAILED'', ''PHASE3_PUSH_FAILED'', ''PHASE3_PULL_FAILED''],
      (CatStorage, OrgMobileSync, StgMessages, RtyManual)),
     ([''FINAL_WRITE_DRAIN_FAILED'', ''RETRY_WRITE_DRAIN_FAILED'', ''SYNC_DB_DRAIN_FAILED'', ''SYNC_FINALIZATION_FAILED''],
      (CatStorage, OrgMobileSync, StgFinalize, RtyManual)),
     ([''SYNC_CHANGE_FEED_FAILED'', ''SYNC_LOG_LIST_FAILED'', ''SYNC_LOG_READ_FAILED'', ''SYNC_LOG_CLEAR_FAILED'', ''SEARCH_UNAVAILABLE''],
      (CatStorage, OrgMobileSync, StgHistory, RtyManual)),
     ([''CDS_UNAVAILABLE''],
      (CatConfiguration, OrgDesktopCds, StgStartup, RtyAfterUserAction)),
     ([''CDS_STARTUP_FAILED'', ''CDS_ERROR'', ''INTERNAL_ERROR''],
      (CatInternal, OrgDesktopCds, StgStartup, RtyManual)),
     ([''SYNC_ALREADY_RUNNING''],
      (CatInternal, OrgMobileSync, StgStartup, RtyNever)),
     ([''CANCELLED''],
      (CatInternal, OrgDesktopCds, StgShutdown, RtyNever)),
     ([''SYNC_BACKGROUND_STOPPED''],
      (CatDevice, OrgMobileSync, StgShutdown, RtyManual)),
     ([''SYNC_STOPPED''],
      (CatDevice, OrgMobileSync, StgShutdown, RtyManual)),
     ([''SYNC_STOP_PENDING''],
      (CatStorage, OrgMobileSync, StgShutdown, RtyManual)),
     ([''SYNC_STOP_FAILED'', ''SYNC_PREVIOUS_SESSION_EXIT_FAILED''],
      (CatInternal, OrgMobileSync, StgShutdown, RtyManual)),
     ([''MOBILE_SYNC_ERROR''],
      (CatInternal, OrgMobileSync, StgShutdown, RtyManual)),
     ([''REMOTE_SYNC_FAILED''],
      (CatInternal, OrgDesktopPlugin, StgConnect, RtyManual)),
     ([''SYNC_STATE_POISONED'', ''SYNC_DIFF_HANDLER_FAILED'', ''SYNC_ATTEMPT_FAILED'', ''HTTP_CLIENT_INIT_FAILED''],
      (CatInternal, OrgMobileSync, StgStartup, RtyManual))
   ]"

definition error_definition :: "(string \<Rightarrow> string \<times> string) \<Rightarrow> string \<Rightarrow> error_def option" where
  "error_definition copy code =
     map_option (\<lambda>(codes, c, o', s, r).
         \<lparr>edf_category = c, edf_origin = o', edf_stage = s, edf_retry = r,
          edf_message = fst (copy code), edf_guidance = snd (copy code)\<rparr>)
       (List.find (\<lambda>e. code \<in> set (fst e)) error_registry)"

section \<open>Codes and topic ids\<close>

definition platform_errors :: "string list" where
  "platform_errors =
     [''E2BIG'', ''EACCES'', ''EADDRINUSE'', ''EADDRNOTAVAIL'', ''EAGAIN'', ''EBADF'', ''EBUSY'',
      ''ECONNABORTED'', ''ECONNREFUSED'', ''ECONNRESET'', ''EEXIST'', ''EFAULT'', ''EHOSTUNREACH'',
      ''EINTR'', ''EINVAL'', ''EIO'', ''EISDIR'', ''ELOOP'', ''EMFILE'', ''EMSGSIZE'',
      ''ENAMETOOLONG'', ''ENETDOWN'', ''ENETUNREACH'', ''ENFILE'', ''ENOBUFS'', ''ENODEV'',
      ''ENOENT'', ''ENOMEM'', ''ENOSPC'', ''ENOTDIR'', ''ENOTEMPTY'', ''ENOTFOUND'', ''ENOTSUP'',
      ''EPERM'', ''EPIPE'', ''EROFS'', ''ETIMEDOUT'']"

definition is_ascii_uppercase :: "char \<Rightarrow> bool" where
  "is_ascii_uppercase c \<longleftrightarrow> 65 \<le> bval c \<and> bval c \<le> 90"

definition is_valid_wire_code :: "string \<Rightarrow> bool" where
  "is_valid_wire_code code \<longleftrightarrow>
     (case code of
        [] \<Rightarrow> False
      | c # cs \<Rightarrow>
          length code \<le> 64 \<and> is_ascii_uppercase c \<and>
          list_all (\<lambda>b. is_ascii_uppercase b \<or> is_digit b \<or> b = CHR ''_'') cs \<and>
          code \<notin> set platform_errors \<and> \<not> prefix ''EAI_'' code \<and> \<not> prefix ''ERR_'' code \<and>
          \<not> prefix ''SQLITE_'' code)"

definition MAX_TOPIC_ID_CHARS :: nat where "MAX_TOPIC_ID_CHARS = 512"

text \<open>\<open>chars().count()\<close> of a UTF-8 text: its bytes that start a character.\<close>

definition char_count :: "string \<Rightarrow> nat" where
  "char_count s = length (filter (\<lambda>c. \<not> is_cont_byte c) s)"

fun normalize_topic_ids_from :: "string list \<Rightarrow> string list \<Rightarrow> string list" where
  "normalize_topic_ids_from seen [] = []"
| "normalize_topic_ids_from seen (i # ids) =
     (if i \<noteq> [] \<and> char_count i \<le> MAX_TOPIC_ID_CHARS \<and> i \<notin> set seen
      then i # normalize_topic_ids_from (i # seen) ids
      else normalize_topic_ids_from seen ids)"

definition normalize_topic_ids :: "string list \<Rightarrow> string list" where
  "normalize_topic_ids ids = normalize_topic_ids_from [] ids"

section \<open>Validation and encoding\<close>

definition validate_wire_error ::
  "(string \<Rightarrow> string \<times> string) \<Rightarrow> wire_error \<Rightarrow> string + wire_error" where
  "validate_wire_error copy e =
     (if \<not> is_valid_wire_code (we_code e) then Inl ''error.code is invalid''
      else if str_trim (we_message e) = [] then Inl ''error.message is invalid''
      else if list_ex (\<lambda>i. i = [] \<or> MAX_TOPIC_ID_CHARS < char_count i) (we_failed_topic_ids e) \<or>
              length (remdups (we_failed_topic_ids e)) \<noteq> length (we_failed_topic_ids e)
      then Inl ''error.failedTopicIds is invalid''
      else case error_definition copy (we_code e) of
        Some registered \<Rightarrow>
          if we_kind e \<noteq> edf_category registered \<or> we_retry e \<noteq> edf_retry registered
          then Inl ''error.kind or error.retry conflicts with its registered code''
          else Inr e
      | None \<Rightarrow> Inr e)"

definition WIRE_ERROR_MARKER :: string where "WIRE_ERROR_MARKER = ''SYNC_WIRE_ERROR:''"

definition encode_wire_sync_error ::
  "(string \<Rightarrow> string \<times> string) \<Rightarrow> (wire_error \<Rightarrow> string) \<Rightarrow> wire_error \<Rightarrow> string + string" where
  "encode_wire_sync_error copy to_json e =
     (case validate_wire_error copy e of
        Inl err \<Rightarrow> Inl err
      | Inr v \<Rightarrow> Inr (WIRE_ERROR_MARKER @ to_json v))"

definition decode_wire_sync_error ::
  "(string \<Rightarrow> string \<times> string) \<Rightarrow> (string \<Rightarrow> wire_error option) \<Rightarrow> string \<Rightarrow> wire_error option" where
  "decode_wire_sync_error copy of_json s =
     (case str_find WIRE_ERROR_MARKER s of
        None \<Rightarrow> None
      | Some i \<Rightarrow>
          (case of_json (drop (i + length WIRE_ERROR_MARKER) s) of
             None \<Rightarrow> None
           | Some e \<Rightarrow> (case validate_wire_error copy e of Inl _ \<Rightarrow> None | Inr v \<Rightarrow> Some v)))"

definition attempt_failed_definition :: "(string \<Rightarrow> string \<times> string) \<Rightarrow> error_def" where
  "attempt_failed_definition copy = the (error_definition copy ''SYNC_ATTEMPT_FAILED'')"

definition local_wire_error ::
  "(string \<Rightarrow> string \<times> string) \<Rightarrow> string \<Rightarrow> sync_error_stage \<Rightarrow> string \<Rightarrow> string list \<Rightarrow> wire_error"
  where
  "local_wire_error copy code stage message failed_topic_ids =
     (let stable_code = (if is_valid_wire_code code then code else ''SYNC_ATTEMPT_FAILED'');
          selected = (case error_definition copy stable_code of
                        Some d \<Rightarrow> d | None \<Rightarrow> attempt_failed_definition copy);
          message = str_trim message in
      \<lparr>we_code = stable_code, we_origin = OrgMobileSync, we_stage = stage,
       we_kind = edf_category selected, we_retry = edf_retry selected,
       we_message = (if message = [] then edf_message selected else message),
       we_failed_topic_ids = normalize_topic_ids failed_topic_ids\<rparr>)"

text \<open>\<open>encode_local_sync_error\<close>; \<open>backstop\<close> is the literal of its last line.\<close>

definition encode_local_sync_error ::
  "(string \<Rightarrow> string \<times> string) \<Rightarrow> (wire_error \<Rightarrow> string) \<Rightarrow> string \<Rightarrow>
   string \<Rightarrow> sync_error_stage \<Rightarrow> string \<Rightarrow> string list \<Rightarrow> string" where
  "encode_local_sync_error copy to_json backstop code stage message failed_topic_ids =
     (case encode_wire_sync_error copy to_json
             (local_wire_error copy code stage message failed_topic_ids) of
        Inr t \<Rightarrow> t
      | Inl _ \<Rightarrow> backstop)"

definition is_attempt_restart_code :: "string \<Rightarrow> bool" where
  "is_attempt_restart_code code \<longleftrightarrow> code = ''HTTP_TRANSPORT_FAILED'' \<or> code = ''SYNC_SNAPSHOT_STALE''"

text \<open>\<open>attempt_restart_failure\<close> of the service: code and message of the restart.\<close>

definition attempt_restart_failure ::
  "(string \<Rightarrow> string \<times> string) \<Rightarrow> (string \<Rightarrow> wire_error option) \<Rightarrow> string \<Rightarrow> string \<Rightarrow>
   (string \<times> string) option" where
  "attempt_restart_failure copy of_json fallback_code message =
     (let code = (case decode_wire_sync_error copy of_json message of
                    Some e \<Rightarrow> we_code e | None \<Rightarrow> fallback_code) in
      if \<not> is_attempt_restart_code code then None else Some (code, message))"

record sync_error_payload =
  sp_code :: string
  sp_category :: sync_error_category
  sp_origin :: sync_error_origin
  sp_stage :: sync_error_stage
  sp_retry_action :: sync_retry_action
  sp_message :: string
  sp_guidance :: string
  sp_failed_topic_ids :: "string list"
  sp_log_file :: "string option"

definition build_local_error_payload ::
  "(string \<Rightarrow> string \<times> string) \<Rightarrow> string \<Rightarrow> string list \<Rightarrow> string option \<Rightarrow> sync_error_payload" where
  "build_local_error_payload copy code failed_topic_ids log_file =
     (let stable_code = (if is_valid_wire_code code then code else ''SYNC_ATTEMPT_FAILED'');
          selected = (case error_definition copy stable_code of
                        Some d \<Rightarrow> d | None \<Rightarrow> attempt_failed_definition copy) in
      \<lparr>sp_code = stable_code, sp_category = edf_category selected,
       sp_origin = edf_origin selected, sp_stage = edf_stage selected,
       sp_retry_action = edf_retry selected, sp_message = edf_message selected,
       sp_guidance = edf_guidance selected,
       sp_failed_topic_ids = normalize_topic_ids failed_topic_ids, sp_log_file = log_file\<rparr>)"

text \<open>\<open>fallback_guidance\<close> is the second text of \<open>fallback_copy\<close> for a category.\<close>

definition build_wire_error_payload ::
  "(string \<Rightarrow> string \<times> string) \<Rightarrow> (sync_error_category \<Rightarrow> string) \<Rightarrow> wire_error \<Rightarrow> string list \<Rightarrow>
   string option \<Rightarrow> sync_error_payload" where
  "build_wire_error_payload copy fallback_guidance wire extra_ids log_file =
     \<lparr>sp_code = we_code wire, sp_category = we_kind wire, sp_origin = we_origin wire,
      sp_stage = we_stage wire, sp_retry_action = we_retry wire,
      sp_message = str_trim (we_message wire),
      sp_guidance = (case error_definition copy (we_code wire) of
                       Some d \<Rightarrow> edf_guidance d | None \<Rightarrow> fallback_guidance (we_kind wire)),
      sp_failed_topic_ids = normalize_topic_ids (we_failed_topic_ids wire @ extra_ids),
      sp_log_file = log_file\<rparr>"

section \<open>Facts\<close>

lemma normalize_from:
  "distinct (normalize_topic_ids_from seen ids) \<and>
   set (normalize_topic_ids_from seen ids) \<inter> set seen = {} \<and>
   list_all (\<lambda>i. i \<noteq> [] \<and> char_count i \<le> MAX_TOPIC_ID_CHARS) (normalize_topic_ids_from seen ids)"
proof (induction ids arbitrary: seen)
  case (Cons i js)
  then show ?case using Cons.IH [of "i # seen"] Cons.IH [of seen] by auto
qed simp

lemma registered_attempt_failed: "error_definition copy ''SYNC_ATTEMPT_FAILED'' \<noteq> None"
proof -
  have "List.find (\<lambda>e. ''SYNC_ATTEMPT_FAILED'' \<in> set (fst e)) error_registry \<noteq> None"
    by code_simp
  then show ?thesis by (simp add: error_definition_def)
qed

lemma valid_attempt_failed: "is_valid_wire_code ''SYNC_ATTEMPT_FAILED''"
  by code_simp

lemma edf_message_copy: "error_definition copy code = Some d \<Longrightarrow> edf_message d = fst (copy code)"
  by (auto simp: error_definition_def)

lemma local_wire_error_valid:
  assumes "\<And>code. str_trim (fst (copy code)) \<noteq> []"
  shows "validate_wire_error copy (local_wire_error copy code stage message ids) =
         Inr (local_wire_error copy code stage message ids)"
proof -
  let ?w = "local_wire_error copy code stage message ids"
  have c: "is_valid_wire_code (we_code ?w)"
    by (simp add: local_wire_error_def Let_def valid_attempt_failed)
  obtain f where f: "error_definition copy ''SYNC_ATTEMPT_FAILED'' = Some f"
    using registered_attempt_failed by blast
  have m: "str_trim (we_message ?w) \<noteq> []"
    using assms f
    by (auto simp: local_wire_error_def Let_def attempt_failed_definition_def
        dest!: edf_message_copy split: option.splits)
  have i: "\<not> list_ex (\<lambda>i. i = [] \<or> MAX_TOPIC_ID_CHARS < char_count i) (we_failed_topic_ids ?w)"
    "remdups (we_failed_topic_ids ?w) = we_failed_topic_ids ?w"
    using normalize_from [of "[]" ids]
    by (auto simp: local_wire_error_def Let_def normalize_topic_ids_def list_ex_iff list_all_iff
        distinct_remdups_id)
  have r: "case error_definition copy (we_code ?w) of None \<Rightarrow> True
      | Some d \<Rightarrow> we_kind ?w = edf_category d \<and> we_retry ?w = edf_retry d"
    by (simp add: local_wire_error_def Let_def split: option.splits)
  show ?thesis
  proof (cases "error_definition copy (we_code ?w)")
    case None
    with c m i show ?thesis by (simp add: validate_wire_error_def)
  next
    case (Some d)
    with c m i r show ?thesis by (simp add: validate_wire_error_def)
  qed
qed

text \<open>
  A local failure always becomes a valid wire error: whatever code, stage, message and topic
  ids an executor reports, the encoded text is the marker followed by a wire error that passes its
  own validation, with the reported code when it is well formed and \<open>SYNC_ATTEMPT_FAILED\<close>
  otherwise, and the fallback literal is never used. The registered messages are assumed not
  blank.
\<close>

theorem encode_local_never_falls_back:
  assumes "\<And>code. str_trim (fst (copy code)) \<noteq> []"
  shows "\<exists>w. encode_local_sync_error copy to_json backstop code stage message ids =
              WIRE_ERROR_MARKER @ to_json w \<and>
            validate_wire_error copy w = Inr w \<and>
            we_code w = (if is_valid_wire_code code then code else ''SYNC_ATTEMPT_FAILED'') \<and>
            we_stage w = stage \<and> we_failed_topic_ids w = normalize_topic_ids ids"
proof (intro exI conjI)
  let ?w = "local_wire_error copy code stage message ids"
  show v: "validate_wire_error copy ?w = Inr ?w" by (rule local_wire_error_valid [OF assms])
  show "encode_local_sync_error copy to_json backstop code stage message ids =
      WIRE_ERROR_MARKER @ to_json ?w"
    by (simp add: encode_local_sync_error_def encode_wire_sync_error_def v)
qed (simp_all add: local_wire_error_def Let_def)

definition demo_copy :: "string \<Rightarrow> string \<times> string" where
  "demo_copy code = (''failed'', ''retry'')"

theorem encode_local_never_falls_back_witness:
  "\<exists>w. encode_local_sync_error demo_copy we_code ''{}'' ''ENOENT'' StgMessages ''  ''
         [''t'', [], ''t''] = WIRE_ERROR_MARKER @ we_code w \<and>
       validate_wire_error demo_copy w = Inr w \<and>
       we_code w = ''SYNC_ATTEMPT_FAILED'' \<and> we_failed_topic_ids w = [''t'']"
proof -
  have "str_trim (fst (demo_copy code)) \<noteq> []" for code
    by (simp add: demo_copy_def str_trim_id ws1_def ws2_def ws3_def)
  from encode_local_never_falls_back [of demo_copy we_code "''{}''" "''ENOENT''" StgMessages
      "''  ''" "[''t'', [], ''t'']", OF this]
  obtain w where "encode_local_sync_error demo_copy we_code ''{}'' ''ENOENT'' StgMessages ''  ''
         [''t'', [], ''t''] = WIRE_ERROR_MARKER @ we_code w" "validate_wire_error demo_copy w = Inr w"
    "we_code w = (if is_valid_wire_code ''ENOENT'' then ''ENOENT'' else ''SYNC_ATTEMPT_FAILED'')"
    "we_failed_topic_ids w = normalize_topic_ids [''t'', [], ''t'']"
    by blast
  moreover have "\<not> is_valid_wire_code ''ENOENT''" by code_simp
  moreover have "normalize_topic_ids [''t'', [], ''t''] = [''t'']" by code_simp
  ultimately show ?thesis by (intro exI [of _ w]) simp
qed

lemma find_marker_at:
  assumes "\<And>i. i < length p \<Longrightarrow> \<not> prefix m (drop i (p @ m @ s))"
  shows "str_find m (p @ m @ s) = Some (length p)"
proof -
  let ?t = "p @ m @ s"
  have "\<exists>i \<le> length ?t. prefix m (drop i ?t)"
    by (intro exI [of _ "length p"]) simp
  then have "str_find m ?t \<noteq> None" unfolding str_find_None_iff by blast
  then obtain i where i: "str_find m ?t = Some i" by blast
  have "prefix m (drop i ?t)"
    using str_find_SomeD [OF i] by (metis take_is_prefix)
  with assms(1) have "length p \<le> i" by (meson not_le)
  moreover have "\<not> length p < i"
    using str_find_first [OF i, of "length p"] by (auto simp: prefix_def)
  ultimately show ?thesis using i by simp
qed

text \<open>
  The private encoding round-trips through the texts it is embedded in: an error that encodes
  is decoded to itself from any text that contains the encoding, provided no earlier part of the
  text starts with the marker; what follows the encoding does not matter. \<open>of_json\<close> is assumed
  to read back what \<open>to_json\<close> wrote from the front of a text.
\<close>

theorem wire_error_roundtrip:
  assumes "\<And>rest. of_json (to_json e @ rest) = Some e"
    and "encode_wire_sync_error copy to_json e = Inr t"
    and "\<And>i. i < length p \<Longrightarrow> \<not> prefix WIRE_ERROR_MARKER (drop i (p @ t @ s))"
  shows "decode_wire_sync_error copy of_json (p @ t @ s) = Some e"
proof -
  from assms(2) obtain v where v: "validate_wire_error copy e = Inr v" "t = WIRE_ERROR_MARKER @ to_json v"
    by (auto simp: encode_wire_sync_error_def split: sum.splits)
  then have ve: "v = e" by (auto simp: validate_wire_error_def split: if_splits option.splits)
  have "str_find WIRE_ERROR_MARKER (p @ WIRE_ERROR_MARKER @ (to_json e @ s)) = Some (length p)"
    by (rule find_marker_at) (use assms(3) v ve in simp)
  then show ?thesis
    using v ve assms(1) by (simp add: decode_wire_sync_error_def)
qed

definition demo_wire_error :: wire_error where
  "demo_wire_error = \<lparr>we_code = ''SYNC_SNAPSHOT_STALE'', we_origin = OrgDesktopPlugin,
     we_stage = StgMessages, we_kind = CatData, we_retry = RtyManual, we_message = ''stale'',
     we_failed_topic_ids = [''t'']\<rparr>"

theorem wire_error_roundtrip_witness:
  "decode_wire_sync_error demo_copy (\<lambda>s. if prefix ''{}'' s then Some demo_wire_error else None)
     (''pull: '' @ (WIRE_ERROR_MARKER @ ''{}'') @ ''.'') = Some demo_wire_error"
proof (rule wire_error_roundtrip [where to_json = "\<lambda>e. ''{}''"])
  show "encode_wire_sync_error demo_copy (\<lambda>e. ''{}'') demo_wire_error = Inr (WIRE_ERROR_MARKER @ ''{}'')"
    by code_simp
  fix i :: nat
  assume "i < length ''pull: ''"
  then have "i \<in> set [0, 1, 2, 3, 4, 5]" by auto
  moreover have "list_all (\<lambda>i. \<not> prefix WIRE_ERROR_MARKER
      (drop i (''pull: '' @ (WIRE_ERROR_MARKER @ ''{}'') @ ''.''))) [0, 1, 2, 3, 4, 5]"
    by code_simp
  ultimately show "\<not> prefix WIRE_ERROR_MARKER
      (drop i (''pull: '' @ (WIRE_ERROR_MARKER @ ''{}'') @ ''.''))"
    unfolding list_all_iff by blast
qed simp

end
