(* ===== verification/Sync_Messages.thy ===== *)
theory Sync_Messages
  imports Sync_Latches Sync_Errors
begin

text \<open>
  Phase 3, the messages (\<open>sync/sync_executor/batch_diff_handler.rs\<close> and \<open>build_diff_batches\<close>
  of \<open>sync_service.rs\<close>): parsing of the desktop's decision for a topic, the check of the answered
  topics against the requested ones, the outcomes of a pull or push batch, the handler of one
  batch as the sequence of its effects, and the splitting of the topics into batches. The Debug
  text of a list of topic keys is the argument \<open>dbg\<close>, the iteration order of the hash set of
  finished topics the argument \<open>ord\<close>, and what the database, the pull and the push answer is the
  record \<open>batch_io\<close>.
\<close>

section \<open>Decisions of the desktop\<close>

record message_delete =
  mdl_msg_id :: string
  mdl_deleted_at :: int

record message_diff_decision =
  mdd_owner_type :: owner_type
  mdd_owner_id :: string
  mdd_topic_id :: string
  mdd_ok :: bool
  mdd_pull_message_ids :: "string list option"
  mdd_push_topic :: "bool option"
  mdd_delete_messages :: "message_delete list option"
  mdd_error :: "wire_error option"

record phase3_error =
  p3_code :: string
  p3_message :: string
  p3_failed_topic_ids :: "string list"

definition p3_for_topic :: "string \<Rightarrow> string \<Rightarrow> string \<Rightarrow> phase3_error" where
  "p3_for_topic code message topic_id =
     \<lparr>p3_code = code, p3_message = message, p3_failed_topic_ids = [topic_id]\<rparr>"

abbreviation p3_invalid :: "string \<Rightarrow> string \<Rightarrow> phase3_error" where
  "p3_invalid message topic_id \<equiv> p3_for_topic ''PHASE3_DECISION_INVALID'' message topic_id"

text \<open>\<open>Phase3ProtocolError::from_wire\<close>; both results are errors for the caller.\<close>

definition p3_from_wire ::
  "(string \<Rightarrow> string \<times> string) \<Rightarrow> (wire_error \<Rightarrow> string) \<Rightarrow> wire_error \<Rightarrow> string \<Rightarrow> phase3_error" where
  "p3_from_wire copy to_json wire topic_id =
     (let ids = we_failed_topic_ids wire;
          ids' = (if topic_id \<in> set ids then ids else ids @ [topic_id]) in
      case encode_wire_sync_error copy to_json wire of
        Inl err \<Rightarrow> p3_invalid (''Phase 3 rejection for '' @ topic_id @ '' has invalid error: '' @ err)
                     topic_id
      | Inr message \<Rightarrow>
          \<lparr>p3_code = we_code wire, p3_message = message, p3_failed_topic_ids = ids'\<rparr>)"

record topic_plan =
  tp_pull_message_ids :: "string list"
  tp_push_topic :: bool
  tp_delete_messages :: "message_delete list"

fun check_pull_ids :: "string \<Rightarrow> string list \<Rightarrow> string list \<Rightarrow> phase3_error option" where
  "check_pull_ids topic_id seen [] = None"
| "check_pull_ids topic_id seen (m # ms) =
     (if m = []
      then Some (p3_invalid (''Phase 3 pullMessageIds for '' @ topic_id @ '' contains an empty id'')
                   topic_id)
      else if m \<in> set seen
      then Some (p3_invalid (''Phase 3 pullMessageIds for '' @ topic_id @
                   '' contains duplicate id '' @ m) topic_id)
      else check_pull_ids topic_id (m # seen) ms)"

fun check_deletes ::
  "string \<Rightarrow> string list \<Rightarrow> string list \<Rightarrow> message_delete list \<Rightarrow> phase3_error option" where
  "check_deletes topic_id pulled seen [] = None"
| "check_deletes topic_id pulled seen (d # ds) =
     (if mdl_msg_id d = []
      then Some (p3_invalid (''Phase 3 deleteMessages for '' @ topic_id @
                   '' requires non-empty msgId'') topic_id)
      else if \<not> (0 \<le> mdl_deleted_at d \<and> mdl_deleted_at d \<le> MAX_SAFE_JSON_INTEGER)
      then Some (p3_invalid (''Phase 3 deleteMessages for '' @ topic_id @
                   '' requires a non-negative safe-integer deletedAt'') topic_id)
      else if mdl_msg_id d \<in> set pulled
      then Some (p3_invalid (''Phase 3 decision for '' @ topic_id @ '' contains '' @ mdl_msg_id d @
                   '' in both pullMessageIds and deleteMessages'') topic_id)
      else if mdl_msg_id d \<in> set seen
      then Some (p3_invalid (''Phase 3 deleteMessages for '' @ topic_id @
                   '' contains duplicate id '' @ mdl_msg_id d) topic_id)
      else check_deletes topic_id pulled (mdl_msg_id d # seen) ds)"

definition parse_topic_decision ::
  "(string \<Rightarrow> string \<times> string) \<Rightarrow> (wire_error \<Rightarrow> string) \<Rightarrow> topic_key \<Rightarrow> message_diff_decision \<Rightarrow>
   phase3_error + topic_plan" where
  "parse_topic_decision copy to_json topic decision =
     (let tid = tk_topic_id topic in
      if \<not> mdd_ok decision then
        (if mdd_pull_message_ids decision \<noteq> None \<or> mdd_push_topic decision \<noteq> None \<or>
            mdd_delete_messages decision \<noteq> None
         then Inl (p3_invalid (''Phase 3 rejection for '' @ tid @
                     '' must not contain decision fields'') tid)
         else case mdd_error decision of
           None \<Rightarrow> Inl (p3_invalid (''Phase 3 rejection for '' @ tid @ '' requires error object'') tid)
         | Some wire \<Rightarrow> Inl (p3_from_wire copy to_json wire tid))
      else if mdd_error decision \<noteq> None
      then Inl (p3_invalid (''Successful Phase 3 decision for '' @ tid @ '' must not contain error'') tid)
      else case mdd_pull_message_ids decision of
        None \<Rightarrow> Inl (p3_invalid (''Phase 3 decision for '' @ tid @ '' requires pullMessageIds'') tid)
      | Some pulls \<Rightarrow>
          (case check_pull_ids tid [] pulls of
             Some err \<Rightarrow> Inl err
           | None \<Rightarrow>
               (case mdd_push_topic decision of
                  None \<Rightarrow> Inl (p3_invalid (''Phase 3 decision for '' @ tid @
                                  '' requires boolean pushTopic'') tid)
                | Some push \<Rightarrow>
                    (case mdd_delete_messages decision of
                       None \<Rightarrow> Inl (p3_invalid (''Phase 3 decision for '' @ tid @
                                       '' requires deleteMessages'') tid)
                     | Some deletes \<Rightarrow>
                         (case check_deletes tid pulls [] deletes of
                            Some err \<Rightarrow> Inl err
                          | None \<Rightarrow> Inr \<lparr>tp_pull_message_ids = pulls, tp_push_topic = push,
                                         tp_delete_messages = deletes\<rparr>)))))"

section \<open>The answered topics\<close>

definition decision_key :: "message_diff_decision \<Rightarrow> topic_key" where
  "decision_key d = TopicKey (owner_type_str (mdd_owner_type d)) (mdd_owner_id d) (mdd_topic_id d)"

fun collect_result_keys ::
  "topic_key list \<Rightarrow> message_diff_decision list \<Rightarrow> string + topic_key list" where
  "collect_result_keys seen [] = Inr []"
| "collect_result_keys seen (d # ds) =
     (if \<not> topic_key_is_valid (decision_key d)
      then Inl ''SYNC_MESSAGE_DIFF_RESULT contains an invalid topic identity''
      else if decision_key d \<in> set seen
      then Inl ''Phase 3 response contains a duplicate topic identity''
      else map_sum id (\<lambda>ks. decision_key d # ks) (collect_result_keys (decision_key d # seen) ds))"

definition validate_phase3_result_topics ::
  "(topic_key list \<Rightarrow> string) \<Rightarrow> topic_key set \<Rightarrow> message_diff_decision list \<Rightarrow>
   string + (topic_key \<times> message_diff_decision) list" where
  "validate_phase3_result_topics dbg expected results =
     (case collect_result_keys [] results of
        Inl err \<Rightarrow> Inl err
      | Inr actual \<Rightarrow>
          if set actual = expected then Inr (zip actual results)
          else Inl (''Phase 3 response topic mismatch: missing='' @
                    dbg (sorted_list_of_set (expected - set actual)) @ '', unexpected='' @
                    dbg (sorted_list_of_set (set actual - expected))))"

section \<open>Outcomes of a pull or a push batch\<close>

record topic_outcome =
  to_topic :: topic_key
  to_success :: bool
  to_error :: "string option"

record batch_failure =
  bf_message :: string
  bf_restart_code :: "string option"
  bf_failed_topics :: "topic_key list"

definition restart_code_of ::
  "(string \<Rightarrow> string \<times> string) \<Rightarrow> (string \<Rightarrow> wire_error option) \<Rightarrow> string \<Rightarrow> string option" where
  "restart_code_of copy of_json detail =
     (case decode_wire_sync_error copy of_json detail of
        Some wire \<Rightarrow> if is_attempt_restart_code (we_code wire) then Some (we_code wire) else None
      | None \<Rightarrow> None)"

fun collect_outcomes ::
  "string \<Rightarrow> topic_key list \<Rightarrow> (topic_key \<rightharpoonup> topic_outcome) \<Rightarrow> topic_outcome list \<Rightarrow>
   batch_failure + (topic_key \<rightharpoonup> topic_outcome)" where
  "collect_outcomes operation expected m [] = Inr m"
| "collect_outcomes operation expected m (out # outs) =
     (if to_topic out \<notin> set expected
      then Inl \<lparr>bf_message = ''Phase 3 '' @ operation @ '' response contains unexpected topic '' @
                  tk_topic_id (to_topic out),
                bf_restart_code = None, bf_failed_topics = expected\<rparr>
      else if m (to_topic out) \<noteq> None
      then Inl \<lparr>bf_message = ''Phase 3 '' @ operation @ '' response contains duplicate topic'',
                bf_restart_code = None, bf_failed_topics = expected\<rparr>
      else collect_outcomes operation expected (m(to_topic out \<mapsto> out)) outs)"

text \<open>What the loop over the expected topics accumulates.\<close>

record outcome_acc =
  oa_successful :: "topic_key list"
  oa_failed :: "string list"
  oa_failed_topics :: "topic_key list"
  oa_restart_code :: "string option"
  oa_all_restartable :: bool

definition outcome_step ::
  "(string \<Rightarrow> string \<times> string) \<Rightarrow> (string \<Rightarrow> wire_error option) \<Rightarrow> (topic_key \<rightharpoonup> topic_outcome) \<Rightarrow>
   topic_key \<Rightarrow> outcome_acc \<Rightarrow> outcome_acc" where
  "outcome_step copy of_json m topic acc =
     (case m topic of
        Some out \<Rightarrow>
          if to_success out then acc\<lparr>oa_successful := oa_successful acc @ [topic]\<rparr>
          else
            (let detail = (case to_error out of Some e \<Rightarrow> e | None \<Rightarrow> ''unknown error'');
                 acc' = (case restart_code_of copy of_json detail of
                           Some code \<Rightarrow>
                             acc\<lparr>oa_restart_code :=
                               (case oa_restart_code acc of None \<Rightarrow> Some code | Some c \<Rightarrow> Some c)\<rparr>
                         | None \<Rightarrow> acc\<lparr>oa_all_restartable := False\<rparr>) in
             acc'\<lparr>oa_failed := oa_failed acc' @ [tk_topic_id topic @ '': '' @ detail],
                  oa_failed_topics := oa_failed_topics acc' @ [topic]\<rparr>)
      | None \<Rightarrow>
          acc\<lparr>oa_all_restartable := False,
              oa_failed := oa_failed acc @ [tk_topic_id topic @ '': missing from batch response''],
              oa_failed_topics := oa_failed_topics acc @ [topic]\<rparr>)"

definition validate_topic_batch_outcomes ::
  "(string \<Rightarrow> string \<times> string) \<Rightarrow> (string \<Rightarrow> wire_error option) \<Rightarrow> (topic_key list \<Rightarrow> string) \<Rightarrow>
   string \<Rightarrow> topic_key list \<Rightarrow> string + topic_outcome list \<Rightarrow> batch_failure + topic_key list" where
  "validate_topic_batch_outcomes copy of_json dbg operation expected batch_result =
     (case batch_result of
        Inl err \<Rightarrow>
          (let topics = sort expected in
           Inl \<lparr>bf_message = ''Phase 3 '' @ operation @ '' batch failed for topics '' @ dbg topics @
                  '': '' @ err,
                bf_restart_code = restart_code_of copy of_json err, bf_failed_topics = topics\<rparr>)
      | Inr outcomes \<Rightarrow>
          (case collect_outcomes operation expected Map.empty outcomes of
             Inl f \<Rightarrow> Inl f
           | Inr m \<Rightarrow>
               (let acc = fold (outcome_step copy of_json m) expected
                      \<lparr>oa_successful = [], oa_failed = [], oa_failed_topics = [],
                       oa_restart_code = None, oa_all_restartable = True\<rparr> in
                if oa_failed acc = [] then Inr (oa_successful acc)
                else Inl \<lparr>bf_message = ''Phase 3 '' @ operation @ '' failed topics: '' @
                            str_join '', '' (sort (oa_failed acc)),
                          bf_restart_code =
                            (if oa_all_restartable acc then oa_restart_code acc else None),
                          bf_failed_topics = sort (oa_failed_topics acc)\<rparr>)))"

section \<open>The handler of one batch\<close>

text \<open>
  The effects of a batch in the order they happen: marks in the tracker, calls of the executors,
  and the request of the next batch.
\<close>

datatype batch_effect =
    BModified topic_key
  | BFailed topic_key
  | BCompleted topic_key bool
  | BSoftDelete topic_key "message_delete list"
  | BPull "(topic_key \<times> string list) list"
  | BWarnings nat
  | BFlush
  | BPush "topic_key list"
  | BNextBatch

record batch_io =
  bio_delete :: "topic_key \<Rightarrow> string option"
  bio_pull :: "string + (topic_outcome \<times> nat) list"
  bio_flush :: "string option"
  bio_push :: "string + topic_outcome list"

record batch_work =
  bw_push :: "topic_key list"
  bw_pull :: "(topic_key \<times> string list) list"
  bw_delete :: "(topic_key \<times> message_delete list) list"

text \<open>The classification loop: the effects it has, and the work or the error.\<close>

fun classify_topics ::
  "(string \<Rightarrow> string \<times> string) \<Rightarrow> (wire_error \<Rightarrow> string) \<Rightarrow>
   (topic_key \<times> message_diff_decision) list \<Rightarrow> batch_work \<Rightarrow>
   batch_effect list \<times> (phase3_error + batch_work)" where
  "classify_topics copy to_json [] w = ([], Inr w)"
| "classify_topics copy to_json ((topic, result) # rest) w =
     (case parse_topic_decision copy to_json topic result of
        Inl err \<Rightarrow> ([BFailed topic], Inl err)
      | Inr plan \<Rightarrow>
          (let pulls = tp_pull_message_ids plan; push = tp_push_topic plan;
               deletes = tp_delete_messages plan in
           if \<not> push \<and> pulls = [] \<and> deletes = [] then
             (let (es, r) = classify_topics copy to_json rest w in
              (BModified topic # BCompleted topic True # es, r))
           else
             (let w' = w\<lparr>bw_push := (if push then bw_push w @ [topic] else bw_push w),
                         bw_pull := (if pulls \<noteq> [] then bw_pull w @ [(topic, pulls)] else bw_pull w),
                         bw_delete := (if deletes \<noteq> [] then bw_delete w @ [(topic, deletes)]
                                       else bw_delete w)\<rparr>;
                  (es, r) = classify_topics copy to_json rest w' in
              (BModified topic # es, r))))"

fun run_deletes ::
  "(topic_key \<Rightarrow> string option) \<Rightarrow> (topic_key \<times> message_delete list) list \<Rightarrow>
   batch_effect list \<times> phase3_error option" where
  "run_deletes del [] = ([], None)"
| "run_deletes del ((topic, tombstones) # rest) =
     (case del topic of
        Some err \<Rightarrow>
          ([BSoftDelete topic tombstones, BFailed topic],
           Some (p3_for_topic ''SYNC_DELETE_FAILED''
             (''Failed to apply '' @ nat_str (length tombstones) @ '' Desktop message tombstones for '' @
              tk_topic_id topic @ '': '' @ err) (tk_topic_id topic)))
      | None \<Rightarrow>
          (let (es, r) = run_deletes del rest in
           (BSoftDelete topic tombstones # BModified topic # es, r)))"

text \<open>The error of a failed pull or push; \<open>sort\<close> is on the topic ids.\<close>

definition batch_error :: "string \<Rightarrow> batch_failure \<Rightarrow> phase3_error" where
  "batch_error default_code f =
     \<lparr>p3_code = (case bf_restart_code f of Some c \<Rightarrow> c | None \<Rightarrow> default_code),
      p3_message = bf_message f,
      p3_failed_topic_ids = sort (map tk_topic_id (bf_failed_topics f))\<rparr>"

definition run_pulls ::
  "(string \<Rightarrow> string \<times> string) \<Rightarrow> (string \<Rightarrow> wire_error option) \<Rightarrow> (topic_key list \<Rightarrow> string) \<Rightarrow>
   batch_io \<Rightarrow> (topic_key \<times> string list) list \<Rightarrow> batch_effect list \<times> phase3_error option" where
  "run_pulls copy of_json dbg io pulls =
     (if pulls = [] then ([], None)
      else
        (let topics = map fst pulls;
             warnings = (case bio_pull io of
                           Inl _ \<Rightarrow> [] | Inr rs \<Rightarrow> [BWarnings (sum_list (map snd rs))]);
             result = map_sum id (map fst) (bio_pull io) in
         case validate_topic_batch_outcomes copy of_json dbg ''pull'' topics result of
           Inl f \<Rightarrow> (BPull pulls # warnings @ map BFailed (bf_failed_topics f),
                     Some (batch_error ''PHASE3_PULL_FAILED'' f))
         | Inr ok \<Rightarrow>
             (case bio_flush io of
                Some err \<Rightarrow>
                  (BPull pulls # warnings @ map BModified ok @ [BFlush] @ map BFailed topics,
                   Some \<lparr>p3_code = ''PHASE3_PULL_FAILED'',
                     p3_message = ''Phase 3 pull write drain failed before merged push: '' @ err,
                     p3_failed_topic_ids = sort (map tk_topic_id topics)\<rparr>)
              | None \<Rightarrow> (BPull pulls # warnings @ map BModified ok @ [BFlush], None))))"

definition run_pushes ::
  "(string \<Rightarrow> string \<times> string) \<Rightarrow> (string \<Rightarrow> wire_error option) \<Rightarrow> (topic_key list \<Rightarrow> string) \<Rightarrow>
   batch_io \<Rightarrow> topic_key list \<Rightarrow> batch_effect list \<times> phase3_error option" where
  "run_pushes copy of_json dbg io topics =
     (if topics = [] then ([], None)
      else case validate_topic_batch_outcomes copy of_json dbg ''push'' topics (bio_push io) of
        Inl f \<Rightarrow> (BPush topics # map BFailed (bf_failed_topics f),
                  Some (batch_error ''PHASE3_PUSH_FAILED'' f))
      | Inr ok \<Rightarrow> (BPush topics # map BModified ok, None))"

definition handle_diff_batch ::
  "(string \<Rightarrow> string \<times> string) \<Rightarrow> (wire_error \<Rightarrow> string) \<Rightarrow> (string \<Rightarrow> wire_error option) \<Rightarrow>
   (topic_key list \<Rightarrow> string) \<Rightarrow> (topic_key list \<Rightarrow> topic_key list) \<Rightarrow> batch_io \<Rightarrow>
   topic_key set \<Rightarrow> message_diff_decision list \<Rightarrow> batch_effect list \<times> phase3_error option" where
  "handle_diff_batch copy to_json of_json dbg ord io expected results =
     (case validate_phase3_result_topics dbg expected results of
        Inl message \<Rightarrow>
          ([], Some \<lparr>p3_code = ''PHASE3_TOPIC_MISMATCH'', p3_message = message,
             p3_failed_topic_ids = sort (map tk_topic_id (sorted_list_of_set expected))\<rparr>)
      | Inr keyed \<Rightarrow>
          (let (es, work) = classify_topics copy to_json keyed
                  \<lparr>bw_push = [], bw_pull = [], bw_delete = []\<rparr> in
           case work of
             Inl err \<Rightarrow> (es, Some err)
           | Inr w \<Rightarrow>
               (let (ds, derr) = run_deletes (bio_delete io) (bw_delete w) in
                case derr of
                  Some err \<Rightarrow> (es @ ds, Some err)
                | None \<Rightarrow>
                    (let (ps, perr) = run_pulls copy of_json dbg io (bw_pull w) in
                     case perr of
                       Some err \<Rightarrow> (es @ ds @ ps, Some err)
                     | None \<Rightarrow>
                         (let (us, uerr) = run_pushes copy of_json dbg io (bw_push w) in
                          case uerr of
                            Some err \<Rightarrow> (es @ ds @ ps @ us, Some err)
                          | None \<Rightarrow>
                              (let done = ord (remdups (bw_push w @ map fst (bw_pull w) @
                                                        map fst (bw_delete w))) in
                               (es @ ds @ ps @ us @ map (\<lambda>t. BCompleted t False) done @ [BNextBatch],
                                None)))))))"

section \<open>Splitting the topics into batches\<close>

definition TARGET_MESSAGE_STATES_PER_BATCH :: nat where
  "TARGET_MESSAGE_STATES_PER_BATCH = 10000"

text \<open>A topic's local state: its content hash and its message states, by id.\<close>

type_synonym 'm topic_local_state = "string \<times> (string \<times> 'm) list"

record 'm diff_topic_state =
  dts_owner_type :: owner_type
  dts_owner_id :: string
  dts_topic_id :: string
  dts_content_hash :: string
  dts_messages :: "(string \<times> 'm) list"

record 'm diff_batch =
  db_index :: nat
  db_total :: nat
  db_topics :: "'m diff_topic_state list"
  db_keys :: "topic_key list"

record 'm batch_builder =
  bb_batches :: "'m diff_batch list"
  bb_topics :: "'m diff_topic_state list"
  bb_keys :: "topic_key list"
  bb_count :: nat

definition push_batch :: "'m batch_builder \<Rightarrow> 'm diff_batch list" where
  "push_batch b = bb_batches b @
     [\<lparr>db_index = 0, db_total = 0, db_topics = bb_topics b, db_keys = bb_keys b\<rparr>]"

fun add_topics ::
  "(topic_key \<times> 'm topic_local_state) list \<Rightarrow> 'm batch_builder \<Rightarrow> string + 'm batch_builder" where
  "add_topics [] b = Inr b"
| "add_topics ((key, hash, messages) # rest) b =
     (case owner_type_of (tk_owner_type key) of
        None \<Rightarrow> Inl (''Phase 3 topic '' @ tk_topic_id key @ '' has invalid ownerType'')
      | Some ot \<Rightarrow>
          (let obj = \<lparr>dts_owner_type = ot, dts_owner_id = tk_owner_id key,
                      dts_topic_id = tk_topic_id key, dts_content_hash = hash,
                      dts_messages = messages\<rparr>;
               n = length messages;
               b' = (if bb_topics b \<noteq> [] \<and> TARGET_MESSAGE_STATES_PER_BATCH < bb_count b + n
                     then \<lparr>bb_batches = push_batch b, bb_topics = [], bb_keys = [], bb_count = 0\<rparr>
                     else b) in
           add_topics rest
             (b'\<lparr>bb_topics := bb_topics b' @ [obj], bb_keys := bb_keys b' @ [key],
                 bb_count := bb_count b' + n\<rparr>)))"

text \<open>\<open>topic_states\<close> are the entries of the hash map, in whatever order it yields them.\<close>

definition build_diff_batches ::
  "(topic_key \<times> 'm topic_local_state) list \<Rightarrow> string + 'm diff_batch list" where
  "build_diff_batches topic_states =
     (case add_topics (sort_key fst topic_states)
             \<lparr>bb_batches = [], bb_topics = [], bb_keys = [], bb_count = 0\<rparr> of
        Inl err \<Rightarrow> Inl err
      | Inr b \<Rightarrow>
          (let batches = (if bb_topics b \<noteq> [] then push_batch b else bb_batches b) in
           Inr (map (\<lambda>(i, x). x\<lparr>db_index := i + 1, db_total := length batches\<rparr>)
                  (enumerate 0 batches))))"

end
