(* ===== verification/Sync_Message_Laws.thy ===== *)
theory Sync_Message_Laws
  imports Sync_Messages "HOL-Library.Multiset"
begin

text \<open>
  What phase 3 promises: which decisions and answers are accepted, that a batch handled without
  error finishes exactly the topics it was asked about, in the order tombstones, pull, drain, push,
  and that splitting into batches loses, repeats and tears apart no topic.
\<close>

section \<open>Decisions\<close>

lemma check_pull_ids_None:
  "check_pull_ids tid seen ms = None \<longleftrightarrow>
     [] \<notin> set ms \<and> distinct ms \<and> set ms \<inter> set seen = {}"
  by (induction ms arbitrary: seen) auto

lemma check_deletes_None:
  "check_deletes tid pulled seen ds = None \<longleftrightarrow>
     (\<forall>d \<in> set ds. mdl_msg_id d \<noteq> [] \<and> 0 \<le> mdl_deleted_at d \<and>
        mdl_deleted_at d \<le> MAX_SAFE_JSON_INTEGER \<and> mdl_msg_id d \<notin> set pulled) \<and>
     distinct (map mdl_msg_id ds) \<and> mdl_msg_id ` set ds \<inter> set seen = {}"
proof (induction ds arbitrary: seen)
  case Nil
  then show ?case by simp
next
  case (Cons d ds)
  show ?case
    by (auto simp: Cons.IH)
qed

text \<open>
  A topic decision is accepted exactly when it reports success without an error, carries all
  three fields, names no message twice, pulls and deletes disjoint sets of non-empty ids, and every
  deletion time is a non-negative safe integer; the plan then holds the three fields unchanged.
\<close>

theorem parse_topic_decision_accepts:
  "parse_topic_decision copy to_json topic d = Inr plan \<longleftrightarrow>
     mdd_ok d \<and> mdd_error d = None \<and>
     mdd_pull_message_ids d = Some (tp_pull_message_ids plan) \<and>
     mdd_push_topic d = Some (tp_push_topic plan) \<and>
     mdd_delete_messages d = Some (tp_delete_messages plan) \<and>
     [] \<notin> set (tp_pull_message_ids plan) \<and>
     distinct (tp_pull_message_ids plan @ map mdl_msg_id (tp_delete_messages plan)) \<and>
     list_all (\<lambda>x. mdl_msg_id x \<noteq> [] \<and> 0 \<le> mdl_deleted_at x \<and>
                 mdl_deleted_at x \<le> MAX_SAFE_JSON_INTEGER) (tp_delete_messages plan)"
  (is "_ \<longleftrightarrow> ?ok plan")
proof (cases "mdd_ok d \<and> mdd_error d = None")
  case False
  then show ?thesis by (auto simp: parse_topic_decision_def Let_def split: option.splits)
next
  case True
  show ?thesis
  proof (cases "mdd_pull_message_ids d = None \<or> mdd_push_topic d = None \<or> mdd_delete_messages d = None")
    case True
    with \<open>mdd_ok d \<and> mdd_error d = None\<close> show ?thesis
      by (auto simp: parse_topic_decision_def Let_def split: option.splits)
  next
    case False
    then obtain ps b ds where f: "mdd_pull_message_ids d = Some ps" "mdd_push_topic d = Some b"
      "mdd_delete_messages d = Some ds" by auto
    have "parse_topic_decision copy to_json topic d = Inr plan \<longleftrightarrow>
        check_pull_ids (tk_topic_id topic) [] ps = None \<and>
        check_deletes (tk_topic_id topic) ps [] ds = None \<and>
        plan = \<lparr>tp_pull_message_ids = ps, tp_push_topic = b, tp_delete_messages = ds\<rparr>"
      using True f by (auto simp: parse_topic_decision_def Let_def split: option.splits)
    also have "\<dots> \<longleftrightarrow> ?ok plan"
      unfolding check_pull_ids_None check_deletes_None
      using True f by (cases plan) (auto simp: list_all_iff)
    finally show ?thesis .
  qed
qed

lemma fresh_cons:
  "P k \<and> k \<notin> set seen \<and>
     (\<exists>r. ks = k # r \<and> r = K \<and> distinct r \<and> set r \<inter> set (k # seen) = {} \<and> (\<forall>x \<in> set r. P x)) \<longleftrightarrow>
   ks = k # K \<and> distinct ks \<and> set ks \<inter> set seen = {} \<and> (\<forall>x \<in> set ks. P x)"
  by auto

lemma collect_result_keys_Inr:
  "collect_result_keys seen ds = Inr ks \<longleftrightarrow>
     ks = map decision_key ds \<and> distinct ks \<and> set ks \<inter> set seen = {} \<and>
     (\<forall>k \<in> set ks. topic_key_is_valid k)"
proof (induction ds arbitrary: seen ks)
  case Nil
  then show ?case by auto
next
  case (Cons d ds)
  have "collect_result_keys seen (d # ds) = Inr ks \<longleftrightarrow>
      topic_key_is_valid (decision_key d) \<and> decision_key d \<notin> set seen \<and>
      (\<exists>r. ks = decision_key d # r \<and> collect_result_keys (decision_key d # seen) ds = Inr r)"
    by (cases "collect_result_keys (decision_key d # seen) ds") auto
  also have "\<dots> \<longleftrightarrow> ks = map decision_key (d # ds) \<and> distinct ks \<and> set ks \<inter> set seen = {} \<and>
      (\<forall>k \<in> set ks. topic_key_is_valid k)"
    unfolding Cons.IH list.map by (rule fresh_cons)
  finally show ?case .
qed

lemma phase3_result_iff:
  "validate_phase3_result_topics dbg expected results = Inr keyed \<longleftrightarrow>
     keyed = zip (map decision_key results) results \<and>
     distinct (map decision_key results) \<and>
     list_all topic_key_is_valid (map decision_key results) \<and>
     set (map decision_key results) = expected"
proof (cases "collect_result_keys [] results")
  case (Inl e)
  with collect_result_keys_Inr [of "[]" results "map decision_key results"] show ?thesis
    by (auto simp: validate_phase3_result_topics_def list_all_iff)
next
  case (Inr ks)
  then have "ks = map decision_key results" "distinct ks" "\<forall>k \<in> set ks. topic_key_is_valid k"
    unfolding collect_result_keys_Inr by blast+
  moreover have "validate_phase3_result_topics dbg expected results = Inr keyed \<longleftrightarrow>
      set ks = expected \<and> keyed = zip ks results"
    using Inr by (auto simp: validate_phase3_result_topics_def)
  ultimately show ?thesis by (auto simp: list_all_iff)
qed

text \<open>
  A message diff result is accepted exactly when the topics it answers are valid, pairwise
  different and, as a set, the topics that were asked about: none missing, none added.
\<close>

theorem phase3_result_covers_request:
  "validate_phase3_result_topics dbg expected results = Inr keyed \<longleftrightarrow>
     keyed = zip (map decision_key results) results \<and>
     distinct (map decision_key results) \<and>
     list_all topic_key_is_valid (map decision_key results) \<and>
     set (map decision_key results) = expected"
  by (rule phase3_result_iff)

section \<open>Outcomes\<close>

lemma fresh_step:
  "t \<notin> set T \<Longrightarrow> F = F' \<Longrightarrow>
   (t \<in> E \<and> m t = None \<and> distinct T \<and> set T \<subseteq> E \<and> set T \<inter> insert t (dom m) = {} \<and> x = F) \<longleftrightarrow>
   (distinct (t # T) \<and> set (t # T) \<subseteq> E \<and> set (t # T) \<inter> dom m = {} \<and> x = F')"
  by auto

lemma collect_outcomes_Inr:
  "collect_outcomes op expected m outs = Inr m' \<longleftrightarrow>
     distinct (map to_topic outs) \<and> set (map to_topic outs) \<subseteq> set expected \<and>
     set (map to_topic outs) \<inter> dom m = {} \<and> m' = m ++ map_of (map (\<lambda>x. (to_topic x, x)) outs)"
proof (induction outs arbitrary: m)
  case Nil
  then show ?case by auto
next
  case (Cons out outs)
  let ?t = "to_topic out" and ?T = "map to_topic outs"
  let ?f = "map_of (map (\<lambda>x. (to_topic x, x)) outs)"
  have "collect_outcomes op expected m (out # outs) = Inr m' \<longleftrightarrow>
      ?t \<in> set expected \<and> m ?t = None \<and> collect_outcomes op expected (m(?t \<mapsto> out)) outs = Inr m'"
    by auto
  also have "\<dots> \<longleftrightarrow> ?t \<in> set expected \<and> m ?t = None \<and> distinct ?T \<and> set ?T \<subseteq> set expected \<and>
      set ?T \<inter> insert ?t (dom m) = {} \<and> m' = m(?t \<mapsto> out) ++ ?f"
    unfolding Cons.IH by simp
  also have "\<dots> \<longleftrightarrow> distinct (?t # ?T) \<and> set (?t # ?T) \<subseteq> set expected \<and>
      set (?t # ?T) \<inter> dom m = {} \<and> m' = m ++ ?f(?t \<mapsto> out)"
  proof (cases "?t \<in> set ?T")
    case True
    then show ?thesis by auto
  next
    case False
    then have "m(?t \<mapsto> out) ++ ?f = m ++ ?f(?t \<mapsto> out)"
      by (simp add: map_add_upd_left dom_map_of_conv_image_fst image_image)
    with False show ?thesis by (rule fresh_step)
  qed
  also have "?f(?t \<mapsto> out) = map_of (map (\<lambda>x. (to_topic x, x)) (out # outs))" by simp
  finally show ?case by (simp only: list.map)
qed

lemma outcome_step_failed:
  "oa_failed (outcome_step copy of_json m t a) = [] \<longleftrightarrow>
     oa_failed a = [] \<and> (\<exists>out. m t = Some out \<and> to_success out)"
  by (auto simp: outcome_step_def Let_def split: option.splits)

lemma outcome_step_good:
  "\<exists>out. m t = Some out \<and> to_success out \<Longrightarrow>
     outcome_step copy of_json m t a = a\<lparr>oa_successful := oa_successful a @ [t]\<rparr>"
  by (auto simp: outcome_step_def)

lemma outcome_fold_failed:
  "oa_failed (fold (outcome_step copy of_json m) ts a) = [] \<longleftrightarrow>
     oa_failed a = [] \<and> (\<forall>t \<in> set ts. \<exists>out. m t = Some out \<and> to_success out)"
  by (induction ts arbitrary: a) (auto simp: outcome_step_failed)

lemma outcome_fold_successful:
  "\<forall>t \<in> set ts. \<exists>out. m t = Some out \<and> to_success out \<Longrightarrow>
     oa_successful (fold (outcome_step copy of_json m) ts a) = oa_successful a @ ts"
  by (induction ts arbitrary: a) (simp_all add: outcome_step_good)

text \<open>
  A pull or push batch is taken as successful exactly when the executor answered, answered every
  expected topic once and no other topic, and every answer is a success; the successful topics are
  then all the expected ones.
\<close>

theorem batch_success_is_complete:
  "validate_topic_batch_outcomes copy of_json dbg op expected result = Inr ok \<longleftrightarrow>
     ok = expected \<and>
     (\<exists>outs. result = Inr outs \<and> distinct (map to_topic outs) \<and>
        set (map to_topic outs) = set expected \<and> list_all to_success outs)"
proof (cases result)
  case (Inl e)
  then show ?thesis by (simp add: validate_topic_batch_outcomes_def Let_def)
next
  case (Inr outs)
  let ?m = "map_of (map (\<lambda>x. (to_topic x, x)) outs)"
  let ?acc = "\<lparr>oa_successful = [], oa_failed = [], oa_failed_topics = [], oa_restart_code = None,
    oa_all_restartable = True\<rparr>"
  show ?thesis
  proof (cases "distinct (map to_topic outs) \<and> set (map to_topic outs) \<subseteq> set expected")
    case False
    then have "collect_outcomes op expected Map.empty outs \<noteq> Inr m" for m
      by (auto simp: collect_outcomes_Inr)
    then obtain f where "collect_outcomes op expected Map.empty outs = Inl f"
      by (metis sum.exhaust)
    with Inr False show ?thesis by (auto simp: validate_topic_batch_outcomes_def)
  next
    case True
    then have c: "collect_outcomes op expected Map.empty outs = Inr ?m"
      by (auto simp: collect_outcomes_Inr)
    have mem: "?m t = Some out \<longleftrightarrow> out \<in> set outs \<and> to_topic out = t" for t out
      using True by (auto simp: map_of_eq_Some_iff comp_def)
    have all: "(\<forall>t \<in> set expected. \<exists>out. ?m t = Some out \<and> to_success out) \<longleftrightarrow>
        set (map to_topic outs) = set expected \<and> list_all to_success outs"
    proof
      assume cover: "\<forall>t \<in> set expected. \<exists>out. ?m t = Some out \<and> to_success out"
      have inj: "inj_on to_topic (set outs)" using True by (simp add: distinct_map)
      have "to_success out" if out: "out \<in> set outs" for out
      proof -
        from out True have "to_topic out \<in> set expected" by auto
        with cover obtain out' where "out' \<in> set outs" "to_topic out' = to_topic out"
          "to_success out'" unfolding mem by blast
        with inj out show ?thesis by (metis inj_onD)
      qed
      moreover have "set expected \<subseteq> to_topic ` set outs" using cover unfolding mem by fastforce
      ultimately show "set (map to_topic outs) = set expected \<and> list_all to_success outs"
        using True by (simp add: list_all_iff subset_antisym)
    next
      assume "set (map to_topic outs) = set expected \<and> list_all to_success outs"
      then show "\<forall>t \<in> set expected. \<exists>out. ?m t = Some out \<and> to_success out"
        unfolding mem list_all_iff by (metis imageE list.set_map)
    qed
    have "validate_topic_batch_outcomes copy of_json dbg op expected result = Inr ok \<longleftrightarrow>
        oa_failed (fold (outcome_step copy of_json ?m) expected ?acc) = [] \<and>
        ok = oa_successful (fold (outcome_step copy of_json ?m) expected ?acc)"
      using Inr c by (auto simp: validate_topic_batch_outcomes_def Let_def)
    also have "\<dots> \<longleftrightarrow> ok = expected \<and>
        (\<forall>t \<in> set expected. \<exists>out. ?m t = Some out \<and> to_success out)"
      using outcome_fold_failed [of copy of_json ?m expected ?acc]
        outcome_fold_successful [of expected ?m copy of_json ?acc] by auto
    finally show ?thesis using Inr True all by auto
  qed
qed


section \<open>The handler of one batch\<close>

fun effect_stage :: "batch_effect \<Rightarrow> nat option" where
  "effect_stage (BSoftDelete _ _) = Some 0"
| "effect_stage (BPull _) = Some 1"
| "effect_stage BFlush = Some 2"
| "effect_stage (BPush _) = Some 3"
| "effect_stage (BCompleted _ quiet) = (if quiet then None else Some 4)"
| "effect_stage BNextBatch = Some 5"
| "effect_stage _ = None"

fun completed_topic :: "batch_effect \<Rightarrow> topic_key option" where
  "completed_topic (BCompleted t _) = Some t"
| "completed_topic _ = None"

abbreviation stages :: "batch_effect list \<Rightarrow> nat list" where
  "stages es \<equiv> List.map_filter effect_stage es"

abbreviation completions :: "batch_effect list \<Rightarrow> topic_key list" where
  "completions es \<equiv> List.map_filter completed_topic es"

lemma map_filter_append [simp]:
  "List.map_filter f (xs @ ys) = List.map_filter f xs @ List.map_filter f ys"
  by (simp add: List.map_filter_def)

lemma map_filter_empty: "\<forall>x \<in> set xs. f x = None \<Longrightarrow> List.map_filter f xs = []"
  by (induction xs) (auto simp: map_filter_simps)

lemma map_filter_map_Some: "(\<And>x. f (g x) = Some (h x)) \<Longrightarrow> List.map_filter f (map g xs) = map h xs"
  by (induction xs) (auto simp: map_filter_simps)

lemma marks_silent [simp]:
  "stages (map BModified ts) = []" "stages (map BFailed ts) = []"
  "completions (map BModified ts) = []" "completions (map BFailed ts) = []"
  "stages (map (BFailed \<circ> fst) ps) = []" "completions (map (BFailed \<circ> fst) ps) = []"
  by (rule map_filter_empty; simp)+

fun is_mark :: "batch_effect \<Rightarrow> bool" where
  "is_mark (BModified t) = True"
| "is_mark (BFailed t) = True"
| "is_mark (BCompleted t quiet) = quiet"
| "is_mark _ = False"

abbreviation silent :: "batch_effect list \<Rightarrow> bool" where
  "silent es \<equiv> list_all is_mark es"

lemma is_mark_silent: "is_mark e \<Longrightarrow> effect_stage e = None"
  by (cases e) auto

lemma silent_stages: "silent es \<Longrightarrow> stages es = []"
  by (rule map_filter_empty) (auto simp: list_all_iff is_mark_silent)

lemma classify_silent: "silent (fst (classify_topics copy to_json ks w))"
proof (induction ks arbitrary: w)
  case Nil
  then show ?case by simp
next
  case (Cons k ks)
  obtain topic result where k: "k = (topic, result)" by (cases k)
  show ?case
  proof (cases "parse_topic_decision copy to_json topic result")
    case (Inl err)
    with k show ?thesis by simp
  next
    case (Inr plan)
    show ?thesis
      by (cases "\<not> tp_push_topic plan \<and> tp_pull_message_ids plan = [] \<and> tp_delete_messages plan = []")
        (simp_all add: k Inr Let_def split_beta Cons.IH)
  qed
qed

definition work_topics :: "batch_work \<Rightarrow> topic_key set" where
  "work_topics w = set (bw_push w) \<union> fst ` set (bw_pull w) \<union> fst ` set (bw_delete w)"

lemma classify_covers:
  assumes "classify_topics copy to_json ks w = (es, Inr w')" and "distinct (map fst ks)"
    and "set (map fst ks) \<inter> work_topics w = {}"
  shows "set (completions es) \<union> work_topics w' = fst ` set ks \<union> work_topics w \<and>
         set (completions es) \<inter> work_topics w' = {} \<and> distinct (completions es) \<and>
         set (completions es) \<subseteq> fst ` set ks"
  using assms
proof (induction ks arbitrary: w es)
  case Nil
  then show ?case by (simp add: map_filter_simps)
next
  case (Cons k ks)
  obtain topic result where k: "k = (topic, result)" by (cases k)
  from Cons.prems(1) k obtain plan where plan: "parse_topic_decision copy to_json topic result = Inr plan"
    by (cases "parse_topic_decision copy to_json topic result") auto
  let ?idle = "\<not> tp_push_topic plan \<and> tp_pull_message_ids plan = [] \<and> tp_delete_messages plan = []"
  show ?case
  proof (cases ?idle)
    case True
    obtain es' where es': "classify_topics copy to_json ks w = (es', Inr w')"
      "es = BModified topic # BCompleted topic True # es'"
      using Cons.prems(1) k plan True
      by (cases "classify_topics copy to_json ks w") (auto simp: Let_def)
    have "set (map fst ks) \<inter> work_topics w = {}" "distinct (map fst ks)"
      and t: "topic \<notin> work_topics w" "topic \<notin> set (map fst ks)"
      using Cons.prems(2,3) k by auto
    with Cons.IH [OF es'(1)] have ih: "set (completions es') \<union> work_topics w' = fst ` set ks \<union> work_topics w"
      "set (completions es') \<inter> work_topics w' = {}" "distinct (completions es')"
      "set (completions es') \<subseteq> fst ` set ks" by auto
    have c: "completions es = topic # completions es'" by (simp add: es'(2) map_filter_simps)
    have "topic \<notin> set (completions es')" "topic \<notin> work_topics w'" using ih t by auto
    with ih c k show ?thesis by auto
  next
    case False
    define w1 where "w1 = w\<lparr>bw_push := (if tp_push_topic plan then bw_push w @ [topic] else bw_push w),
      bw_pull := (if tp_pull_message_ids plan \<noteq> []
                  then bw_pull w @ [(topic, tp_pull_message_ids plan)] else bw_pull w),
      bw_delete := (if tp_delete_messages plan \<noteq> []
                    then bw_delete w @ [(topic, tp_delete_messages plan)] else bw_delete w)\<rparr>"
    obtain es' where es': "classify_topics copy to_json ks w1 = (es', Inr w')"
      "es = BModified topic # es'"
      using Cons.prems(1) k plan False
      by (cases "classify_topics copy to_json ks w1") (auto simp: Let_def w1_def split_beta)
    have w1: "work_topics w1 = insert topic (work_topics w)"
      using False by (auto simp: w1_def work_topics_def)
    then have "set (map fst ks) \<inter> work_topics w1 = {}" "distinct (map fst ks)"
      using Cons.prems(2,3) k by auto
    with Cons.IH [OF es'(1)] have ih: "set (completions es') \<union> work_topics w' = fst ` set ks \<union> work_topics w1"
      "set (completions es') \<inter> work_topics w' = {}" "distinct (completions es')"
      "set (completions es') \<subseteq> fst ` set ks" by auto
    have c: "completions es = completions es'" by (simp add: es'(2) map_filter_simps)
    from ih w1 c k show ?thesis by auto
  qed
qed

lemma run_deletes_effects:
  "stages (fst (run_deletes del ds)) = replicate (length (stages (fst (run_deletes del ds)))) 0"
  "completions (fst (run_deletes del ds)) = []"
  by (induction del ds rule: run_deletes.induct)
    (auto simp: map_filter_simps Let_def split_beta split: option.splits)

lemma run_pulls_effects:
  "stages (fst (run_pulls copy of_json dbg io ps)) \<in> {[], [1], [1, 2]}"
  "completions (fst (run_pulls copy of_json dbg io ps)) = []"
  by (auto simp: run_pulls_def map_filter_simps Let_def split: sum.splits option.splits)

lemma run_pushes_effects:
  "stages (fst (run_pushes copy of_json dbg io ts)) \<in> {[], [3]}"
  "completions (fst (run_pushes copy of_json dbg io ts)) = []"
  by (auto simp: run_pushes_def map_filter_simps split: sum.splits)

lemma stage_order:
  assumes "xs = replicate n 0" "ys \<in> {[], [1], [1, 2]}" "zs \<in> {[], [3]}"
  shows "sorted (xs @ ys @ zs @ replicate m 4 @ [5 :: nat])" "sorted (xs @ ys @ zs)"
    "sorted (xs @ ys)" "sorted xs"
  using assms by (auto simp: sorted_append)

text \<open>The shape of a handled batch: classification, then tombstones, pull and push, each only after
  the one before succeeded, then the completions.\<close>

lemma handle_diff_batch_shape:
  obtains (refused) message where "validate_phase3_result_topics dbg expected results = Inl message"
      "fst (handle_diff_batch copy to_json of_json dbg ord io expected results) = []"
      "snd (handle_diff_batch copy to_json of_json dbg ord io expected results) \<noteq> None"
  | (stopped) es ds ps us n where "silent es" "stages ds = replicate n 0"
      "stages ps \<in> {[], [1], [1, 2]}" "stages us \<in> {[], [3]}"
      "fst (handle_diff_batch copy to_json of_json dbg ord io expected results) = es @ ds @ ps @ us"
      "snd (handle_diff_batch copy to_json of_json dbg ord io expected results) \<noteq> None"
  | (finished) keyed es w ds ps us n where
      "validate_phase3_result_topics dbg expected results = Inr keyed"
      "classify_topics copy to_json keyed \<lparr>bw_push = [], bw_pull = [], bw_delete = []\<rparr> = (es, Inr w)"
      "stages ds = replicate n 0" "stages ps \<in> {[], [1], [1, 2]}" "stages us \<in> {[], [3]}"
      "completions ds = []" "completions ps = []" "completions us = []"
      "fst (handle_diff_batch copy to_json of_json dbg ord io expected results) =
         es @ ds @ ps @ us @ map (\<lambda>t. BCompleted t False)
           (ord (remdups (bw_push w @ map fst (bw_pull w) @ map fst (bw_delete w)))) @ [BNextBatch]"
      "snd (handle_diff_batch copy to_json of_json dbg ord io expected results) = None"
proof (cases "validate_phase3_result_topics dbg expected results")
  case (Inl message)
  then show ?thesis by (intro refused) (simp_all add: handle_diff_batch_def)
next
  case v: (Inr keyed)
  let ?w0 = "\<lparr>bw_push = [], bw_pull = [], bw_delete = []\<rparr>"
  obtain es work where c: "classify_topics copy to_json keyed ?w0 = (es, work)"
    by (cases "classify_topics copy to_json keyed ?w0")
  have sil: "silent es" using classify_silent [of copy to_json keyed ?w0] c by simp
  show ?thesis
  proof (cases work)
    case (Inl err)
    show ?thesis
      by (rule stopped [of es "[]" 0 "[]" "[]"])
        (simp_all add: handle_diff_batch_def v c Inl sil map_filter_simps)
  next
    case w: (Inr w)
    obtain ds derr where d: "run_deletes (bio_delete io) (bw_delete w) = (ds, derr)"
      by (cases "run_deletes (bio_delete io) (bw_delete w)")
    have ds: "stages ds = replicate (length (stages ds)) 0" "completions ds = []"
      using run_deletes_effects [of "bio_delete io" "bw_delete w"] d by simp_all
    obtain ps perr where p: "run_pulls copy of_json dbg io (bw_pull w) = (ps, perr)"
      by (cases "run_pulls copy of_json dbg io (bw_pull w)")
    have ps: "stages ps \<in> {[], [1], [1, 2]}" "completions ps = []"
      using run_pulls_effects [of copy of_json dbg io "bw_pull w"] p by simp_all
    obtain us uerr where u: "run_pushes copy of_json dbg io (bw_push w) = (us, uerr)"
      by (cases "run_pushes copy of_json dbg io (bw_push w)")
    have us: "stages us \<in> {[], [3]}" "completions us = []"
      using run_pushes_effects [of copy of_json dbg io "bw_push w"] u by simp_all
    show ?thesis
    proof (cases derr)
      case (Some err)
      show ?thesis
        by (rule stopped [of es ds "length (stages ds)" "[]" "[]"])
          (simp_all add: handle_diff_batch_def v c w d Some sil ds(1) [symmetric] map_filter_simps)
    next
      case dn: None
      show ?thesis
      proof (cases perr)
        case (Some err)
        show ?thesis
          by (rule stopped [of es ds "length (stages ds)" ps "[]"])
            (use ps in \<open>simp_all add: handle_diff_batch_def v c w d dn p Some sil ds(1) [symmetric]
              map_filter_simps\<close>)
      next
        case pn: None
        show ?thesis
        proof (cases uerr)
          case (Some err)
          show ?thesis
            by (rule stopped [of es ds "length (stages ds)" ps us])
              (use ps us in \<open>simp_all add: handle_diff_batch_def v c w d dn p pn u Some sil
                ds(1) [symmetric]\<close>)
        next
          case un: None
          show ?thesis
            by (rule finished [of keyed es w ds "length (stages ds)" ps us])
              (use ps us in \<open>simp_all add: handle_diff_batch_def v c w d dn p pn u un
                ds(1) [symmetric] ds(2)\<close>)
        qed
      qed
    qed
  qed
qed



text \<open>
  C10. A batch that is handled without error completes exactly the topics it was asked about, each
  once, and then asks for the next batch; \<open>ord\<close>, the iteration order of the hash set, only
  permutes.
\<close>

theorem batch_completes_request:
  assumes ord: "\<And>xs. mset (ord xs) = mset xs"
    and ok: "snd (handle_diff_batch copy to_json of_json dbg ord io expected results) = None"
  shows "distinct (completions (fst (handle_diff_batch copy to_json of_json dbg ord io expected results))) \<and>
         set (completions (fst (handle_diff_batch copy to_json of_json dbg ord io expected results))) =
           expected \<and>
         last (fst (handle_diff_batch copy to_json of_json dbg ord io expected results)) = BNextBatch"
proof (rule handle_diff_batch_shape [of dbg expected results copy to_json of_json ord io],
    goal_cases refused stopped finished)
  case refused
  with ok show ?case by simp
next
  case stopped
  with ok show ?case by simp
next
  case (finished keyed es w ds ps us n)
  let ?work = "bw_push w @ map fst (bw_pull w) @ map fst (bw_delete w)"
  have keys: "map fst keyed = map decision_key results" "distinct (map fst keyed)"
    "set (map fst keyed) = expected"
    using finished(1) unfolding phase3_result_iff by auto
  have "set (completions es) \<union> work_topics w = expected"
    "set (completions es) \<inter> work_topics w = {}" "distinct (completions es)"
    using classify_covers [OF finished(2) keys(2)] keys(3) by (auto simp: work_topics_def)
  moreover have "work_topics w = set ?work" by (auto simp: work_topics_def)
  moreover have "completions (map (\<lambda>t. BCompleted t False) ts) = ts" for ts
    by (induction ts) (auto simp: map_filter_simps)
  moreover have "set (ord (remdups ?work)) = set ?work" "distinct (ord (remdups ?work))"
    using mset_eq_setD [OF ord [of "remdups ?work"]]
      mset_eq_imp_distinct_iff [OF ord [of "remdups ?work"]] by simp_all
  ultimately show ?case
    unfolding finished(9) using finished(6-8) by (simp add: map_filter_simps)
qed

definition demo_decision :: message_diff_decision where
  "demo_decision = \<lparr>mdd_owner_type = OAgent, mdd_owner_id = ''a'', mdd_topic_id = ''t'',
     mdd_ok = True, mdd_pull_message_ids = Some [''m1''], mdd_push_topic = Some True,
     mdd_delete_messages = Some [\<lparr>mdl_msg_id = ''m2'', mdl_deleted_at = 7\<rparr>], mdd_error = None\<rparr>"

definition demo_batch_io :: batch_io where
  "demo_batch_io =
     (let t = \<lparr>to_topic = TopicKey ''agent'' ''a'' ''t'', to_success = True, to_error = None\<rparr> in
      \<lparr>bio_delete = \<lambda>_. None, bio_pull = Inr [(t, 0)], bio_flush = None, bio_push = Inr [t]\<rparr>)"

lemma demo_batch_ok:
  "snd (handle_diff_batch demo_copy we_code (\<lambda>_. None) (\<lambda>_. []) (\<lambda>ts. ts) demo_batch_io
     {TopicKey ''agent'' ''a'' ''t''} [demo_decision]) = None"
  by code_simp

theorem batch_completes_request_witness:
  "set (completions (fst (handle_diff_batch demo_copy we_code (\<lambda>_. None) (\<lambda>_. []) (\<lambda>ts. ts)
     demo_batch_io {TopicKey ''agent'' ''a'' ''t''} [demo_decision]))) = {TopicKey ''agent'' ''a'' ''t''}"
  using batch_completes_request [OF _ demo_batch_ok] by simp

section \<open>Splitting into batches\<close>

definition batch_size :: "'m diff_batch \<Rightarrow> nat" where
  "batch_size b = sum_list (map (\<lambda>t. length (dts_messages t)) (db_topics b))"

text \<open>The request object of a topic.\<close>

definition topic_object :: "topic_key \<times> 'm topic_local_state \<Rightarrow> 'm diff_topic_state" where
  "topic_object t = \<lparr>dts_owner_type = the (owner_type_of (tk_owner_type (fst t))),
     dts_owner_id = tk_owner_id (fst t), dts_topic_id = tk_topic_id (fst t),
     dts_content_hash = fst (snd t), dts_messages = snd (snd t)\<rparr>"

definition batch_ok :: "'m diff_batch \<Rightarrow> bool" where
  "batch_ok b \<longleftrightarrow> db_topics b \<noteq> [] \<and>
     (batch_size b \<le> TARGET_MESSAGE_STATES_PER_BATCH \<or> length (db_topics b) = 1)"

definition builder_ok :: "'m batch_builder \<Rightarrow> (topic_key \<times> 'm topic_local_state) list \<Rightarrow> bool" where
  "builder_ok b earlier \<longleftrightarrow>
     concat (map db_topics (bb_batches b)) @ bb_topics b = map topic_object earlier \<and>
     concat (map db_keys (bb_batches b)) @ bb_keys b = map fst earlier \<and>
     list_all batch_ok (bb_batches b) \<and>
     list_all (\<lambda>x. length (db_keys x) = length (db_topics x)) (bb_batches b) \<and>
     length (bb_keys b) = length (bb_topics b) \<and>
     bb_count b = sum_list (map (\<lambda>t. length (dts_messages t)) (bb_topics b)) \<and>
     (bb_count b \<le> TARGET_MESSAGE_STATES_PER_BATCH \<or> length (bb_topics b) = 1)"

lemma add_topic_ok:
  assumes b: "builder_ok b earlier" and ot: "owner_type_of (tk_owner_type key) = Some ot"
    and b': "b' = (if bb_topics b \<noteq> [] \<and> TARGET_MESSAGE_STATES_PER_BATCH < bb_count b + length messages
                   then \<lparr>bb_batches = push_batch b, bb_topics = [], bb_keys = [], bb_count = 0\<rparr>
                   else b)"
  shows "builder_ok (b'\<lparr>bb_topics := bb_topics b' @ [topic_object (key, hash, messages)],
           bb_keys := bb_keys b' @ [key], bb_count := bb_count b' + length messages\<rparr>)
           (earlier @ [(key, hash, messages)])"
proof (cases "bb_topics b = []")
  case True
  with b b' show ?thesis
    by (auto simp: builder_ok_def topic_object_def)
next
  case False
  show ?thesis
  proof (cases "TARGET_MESSAGE_STATES_PER_BATCH < bb_count b + length messages")
    case True
    with False b b' show ?thesis
      by (auto simp: builder_ok_def push_batch_def batch_ok_def batch_size_def topic_object_def)
  next
    case small: False
    with False b b' show ?thesis
      by (auto simp: builder_ok_def topic_object_def)
  qed
qed

lemma add_topics_ok:
  "add_topics ts b = Inr b' \<Longrightarrow> builder_ok b earlier \<Longrightarrow> builder_ok b' (earlier @ ts)"
proof (induction ts arbitrary: b earlier)
  case Nil
  then show ?case by simp
next
  case (Cons t ts)
  obtain key hash messages where t: "t = (key, hash, messages)" by (cases t)
  from Cons.prems(1) t obtain ot where ot: "owner_type_of (tk_owner_type key) = Some ot"
    by (auto split: option.splits)
  define b1 where "b1 = (if bb_topics b \<noteq> [] \<and> TARGET_MESSAGE_STATES_PER_BATCH < bb_count b + length messages
                   then \<lparr>bb_batches = push_batch b, bb_topics = [], bb_keys = [], bb_count = 0\<rparr>
                   else b)"
  let ?b2 = "b1\<lparr>bb_topics := bb_topics b1 @ [topic_object (key, hash, messages)],
           bb_keys := bb_keys b1 @ [key], bb_count := bb_count b1 + length messages\<rparr>"
  have "add_topics ts ?b2 = Inr b'"
    using Cons.prems(1) by (simp add: t ot b1_def topic_object_def Let_def)
  from Cons.IH [OF this add_topic_ok [OF Cons.prems(2) ot b1_def]] show ?case by (simp add: t)
qed

lemma add_topics_Inl:
  "(\<exists>err. add_topics ts b = Inl err) \<longleftrightarrow>
     (\<exists>t \<in> set ts. owner_type_of (tk_owner_type (fst t)) = None)"
  by (induction ts b rule: add_topics.induct) (auto simp: Let_def split: option.splits)

lemma build_diff_batches_spec:
  "case build_diff_batches ts of
     Inl err \<Rightarrow> (\<exists>t \<in> set ts. owner_type_of (tk_owner_type (fst t)) = None)
   | Inr bs \<Rightarrow>
       concat (map db_topics bs) = map topic_object (sort_key fst ts) \<and>
       concat (map db_keys bs) = map fst (sort_key fst ts) \<and>
       list_all batch_ok bs \<and>
       list_all (\<lambda>b. length (db_keys b) = length (db_topics b) \<and> db_total b = length bs) bs \<and>
       map db_index bs = [1..<Suc (length bs)]"
proof -
  let ?b0 = "\<lparr>bb_batches = [], bb_topics = [], bb_keys = [], bb_count = 0\<rparr> :: 'a batch_builder"
  show ?thesis
  proof (cases "add_topics (sort_key fst ts) ?b0")
    case (Inl err)
    with add_topics_Inl [of "sort_key fst ts" ?b0] show ?thesis
      by (auto simp: build_diff_batches_def)
  next
    case (Inr b)
    have "builder_ok ?b0 []" by (simp add: builder_ok_def)
    from add_topics_ok [OF Inr this] have ok: "builder_ok b (sort_key fst ts)" by simp
    define bs where "bs = (if bb_topics b \<noteq> [] then push_batch b else bb_batches b)"
    have parts: "concat (map db_topics bs) = map topic_object (sort_key fst ts)"
      "concat (map db_keys bs) = map fst (sort_key fst ts)" "list_all batch_ok bs"
      "list_all (\<lambda>x. length (db_keys x) = length (db_topics x)) bs"
      using ok by (auto simp: bs_def builder_ok_def push_batch_def batch_ok_def batch_size_def)
    let ?number = "\<lambda>(i, x :: 'a diff_batch). x\<lparr>db_index := i + 1, db_total := length bs\<rparr>"
    have fields: "map db_topics (map ?number (enumerate n xs)) = map db_topics xs"
      "map db_keys (map ?number (enumerate n xs)) = map db_keys xs"
      "map db_index (map ?number (enumerate n xs)) = [Suc n..<Suc n + length xs]"
      "list_all batch_ok (map ?number (enumerate n xs)) = list_all batch_ok xs"
      "list_all (\<lambda>b. length (db_keys b) = length (db_topics b) \<and> db_total b = length bs)
         (map ?number (enumerate n xs)) = list_all (\<lambda>x. length (db_keys x) = length (db_topics x)) xs"
      for n xs
      by (induction xs arbitrary: n)
        (simp_all add: batch_ok_def batch_size_def upt_rec [of "Suc _"] del: upt_Suc)
    have "build_diff_batches ts = Inr (map ?number (enumerate 0 bs))"
      using Inr by (simp add: build_diff_batches_def bs_def Let_def)
    then show ?thesis
      using parts fields [of 0 bs] by simp
  qed
qed

text \<open>
  Splitting into batches is a partition: when every topic has a known owner type, the batches
  in sequence hold exactly the given topics in the order of their keys, none torn apart or
  repeated; every batch is non-empty and has at most 10000 message states unless it is a single
  larger topic; each carries the keys of its topics, its number from 1, and the number of batches.
  An unknown owner type is an error.
\<close>

theorem build_diff_batches_partition:
  "case build_diff_batches ts of
     Inl err \<Rightarrow> (\<exists>t \<in> set ts. owner_type_of (tk_owner_type (fst t)) = None)
   | Inr bs \<Rightarrow>
       concat (map db_topics bs) = map topic_object (sort_key fst ts) \<and>
       concat (map db_keys bs) = map fst (sort_key fst ts) \<and>
       list_all batch_ok bs \<and>
       list_all (\<lambda>b. length (db_keys b) = length (db_topics b) \<and> db_total b = length bs) bs \<and>
       map db_index bs = [1..<Suc (length bs)]"
  by (rule build_diff_batches_spec)

end
