(* ===== verification/Sync_Pipeline.thy ===== *)
theory Sync_Pipeline
  imports Sync_Types "HOL-Library.List_Lexorder" "HOL-Library.Char_ord"
begin

text \<open>
  The states this device sends to the desktop, built from the rows of its database
  (\<open>sync/sync_pipeline/phase1_metadata.rs\<close> and \<open>phase3_message.rs\<close>). SQL is outside the model: a
  query is a function from the keys it is bound to, chunk by chunk, to its rows or its error, and a
  column of a row is its value or the decoder's error, so a row may hold anything. What the code
  checks of the rows is what the laws show of the result.
\<close>

section \<open>Fallible steps\<close>

definition and_then :: "'e + 'a \<Rightarrow> ('a \<Rightarrow> 'e + 'b) \<Rightarrow> 'e + 'b" where
  "and_then x f = (case x of Inl e \<Rightarrow> Inl e | Inr a \<Rightarrow> f a)"

lemma and_then_simps [simp]: "and_then (Inl e) f = Inl e" "and_then (Inr a) f = f a"
  by (simp_all add: and_then_def)

lemma and_then_Inr: "and_then x f = Inr y \<longleftrightarrow> (\<exists>a. x = Inr a \<and> f a = Inr y)"
  by (cases x) auto

text \<open>\<open>map_err\<close>: the message of a failure is put before the error's text.\<close>

definition col :: "string \<Rightarrow> string + 'a \<Rightarrow> string + 'a" where
  "col message x = map_sum (\<lambda>e. message @ '': '' @ e) id x"

lemma col_Inr [simp]: "col message x = Inr a \<longleftrightarrow> x = Inr a"
  by (cases x) (simp_all add: col_def)

lemma col_of_Inr [simp]: "col message (Inr a) = Inr a"
  by simp

fun map_rows :: "('r \<Rightarrow> string + 'i) \<Rightarrow> 'r list \<Rightarrow> string + 'i list" where
  "map_rows f [] = Inr []"
| "map_rows f (r # rs) = and_then (f r) (\<lambda>i. and_then (map_rows f rs) (\<lambda>is. Inr (i # is)))"

fun fold_rows :: "('s \<Rightarrow> 'r \<Rightarrow> string + 's) \<Rightarrow> 's \<Rightarrow> 'r list \<Rightarrow> string + 's" where
  "fold_rows f s [] = Inr s"
| "fold_rows f s (r # rs) = and_then (f s r) (\<lambda>s. fold_rows f s rs)"

text \<open>\<open>xs.chunks(n)\<close>, the query of each chunk, and the loop over its rows.\<close>

function chunks :: "nat \<Rightarrow> 'a list \<Rightarrow> 'a list list" where
  "chunks n xs = (if n = 0 \<or> xs = [] then [] else take n xs # chunks n (drop n xs))"
  by pat_completeness auto
termination by (relation "measure (\<lambda>(n, xs). length xs)") auto

declare chunks.simps [simp del]

fun fold_chunks ::
  "('k list \<Rightarrow> string + 'r list) \<Rightarrow> ('s \<Rightarrow> 'r \<Rightarrow> string + 's) \<Rightarrow> 's \<Rightarrow> 'k list list \<Rightarrow> string + 's" where
  "fold_chunks query f s [] = Inr s"
| "fold_chunks query f s (c # cs) =
     and_then (query c) (\<lambda>rows. and_then (fold_rows f s rows) (\<lambda>s. fold_chunks query f s cs))"

definition SQLITE_BIND_CHUNK :: nat where "SQLITE_BIND_CHUNK = 400"

section \<open>Manifests\<close>

datatype owner_state =
    OwnerLive owner_type string string string int
  | OwnerDeleted owner_type string int

datatype topic_item =
    TopicLive owner_type string string string int
  | TopicDeleted owner_type string string int

datatype avatar_state =
    AvatarLive avatar_owner_type string string int
  | AvatarDeleted avatar_owner_type string int

datatype manifest_request =
    OwnerManifest "owner_state list"
  | TopicManifest "topic_item list" "owner_key list"
  | AvatarManifest "avatar_state list"

record owner_row =
  orow_owner_type :: "string + string"
  orow_owner_id :: "string + string"
  orow_deleted_at :: "string + int option"
  orow_config_hash :: "string + string"
  orow_content_hash :: "string + string"
  orow_updated_at :: "string + int"

definition owner_item :: "owner_row \<Rightarrow> string + owner_state" where
  "owner_item r =
     and_then (col ''Owner manifest type decode failed'' (orow_owner_type r)) (\<lambda>raw.
     case owner_type_of raw of
       None \<Rightarrow> Inl (''Owner manifest has unsupported owner type '' @ raw)
     | Some ot \<Rightarrow>
         and_then (col ''Owner manifest id decode failed'' (orow_owner_id r)) (\<lambda>oid.
         if oid = [] then Inl ''Owner manifest has an empty owner id''
         else and_then (col ''Owner manifest tombstone decode failed'' (orow_deleted_at r)) (\<lambda>deleted.
         let who = owner_type_str ot @ ''/'' @ oid in
         case deleted of
           Some t \<Rightarrow> Inr (OwnerDeleted ot oid t)
         | None \<Rightarrow>
             and_then (col (''Owner manifest config hash decode failed for '' @ who) (orow_config_hash r)) (\<lambda>ch.
             and_then (col (''Owner manifest content hash decode failed for '' @ who) (orow_content_hash r)) (\<lambda>cth.
             and_then (col ''Owner manifest timestamp decode failed'' (orow_updated_at r)) (\<lambda>t.
             Inr (OwnerLive ot oid ch cth t)))))))"

definition build_owner_manifest :: "string + owner_row list \<Rightarrow> string + manifest_request" where
  "build_owner_manifest query =
     and_then query (\<lambda>rows. and_then (map_rows owner_item rows) (\<lambda>items. Inr (OwnerManifest items)))"

record topic_row =
  trow_topic_id :: "string + string"
  trow_owner_type :: "string + string"
  trow_owner_id :: "string + string"
  trow_deleted_at :: "string + int option"
  trow_config_hash :: "string + string"
  trow_content_hash :: "string + string"
  trow_updated_at :: "string + int"

definition topic_item_step ::
  "owner_key list \<Rightarrow> topic_key list \<times> topic_item list \<Rightarrow> topic_row \<Rightarrow>
   string + topic_key list \<times> topic_item list" where
  "topic_item_step owners st r =
     and_then (col ''Topic manifest id decode failed'' (trow_topic_id r)) (\<lambda>tid.
     and_then (col (''Topic manifest owner type decode failed for '' @ tid) (trow_owner_type r)) (\<lambda>raw.
     case owner_type_of raw of
       None \<Rightarrow> Inl (''Topic manifest '' @ tid @ '' has unsupported owner type '' @ raw)
     | Some ot \<Rightarrow>
         and_then (col (''Topic manifest owner id decode failed for '' @ tid) (trow_owner_id r)) (\<lambda>oid.
         let key = TopicKey (owner_type_str ot) oid tid in
         if oid = [] \<or> OwnerKey (owner_type_str ot) oid \<notin> set owners
         then Inl (''Topic manifest '' @ tid @ '' returned unexpected owner '' @ owner_type_str ot @
                   ''/'' @ oid)
         else if key \<in> set (fst st)
         then Inl (''Targeted topic manifest returned duplicate topic '' @ owner_type_str ot @ ''/'' @
                   oid @ ''/'' @ tid)
         else and_then (col (''Topic manifest tombstone decode failed for '' @ tid) (trow_deleted_at r)) (\<lambda>deleted.
         case deleted of
           Some t \<Rightarrow> Inr (key # fst st, snd st @ [TopicDeleted ot oid tid t])
         | None \<Rightarrow>
             and_then (col (''Topic manifest config hash decode failed for '' @ tid) (trow_config_hash r)) (\<lambda>ch.
             and_then (col (''Topic manifest timestamp decode failed for '' @ tid) (trow_updated_at r)) (\<lambda>t.
             Inr (key # fst st, snd st @ [TopicLive ot oid tid ch t])))))))"

definition owner_key_ok :: "owner_key \<Rightarrow> bool" where
  "owner_key_ok k \<longleftrightarrow> (ok_owner_type k = ''agent'' \<or> ok_owner_type k = ''group'') \<and> ok_owner_id k \<noteq> []"

definition build_targeted_topic_manifest ::
  "(owner_key list \<Rightarrow> string + topic_row list) \<Rightarrow> owner_key list \<Rightarrow> string + manifest_request" where
  "build_targeted_topic_manifest query owners =
     (if owners = [] then Inr (TopicManifest [] [])
      else if \<not> distinct owners \<or> \<not> list_all owner_key_ok owners
      then Inl ''Targeted topic manifest contains invalid or duplicate owners''
      else and_then (fold_chunks query (topic_item_step owners) ([], []) (chunks SQLITE_BIND_CHUNK owners))
             (\<lambda>(seen, items). Inr (TopicManifest items owners)))"

record avatar_row =
  arow_owner_type :: "string + string"
  arow_owner_id :: "string + string"
  arow_deleted_at :: "string + int option"
  arow_parent_is_live :: "string + bool"
  arow_avatar_hash :: "string + string"
  arow_updated_at :: "string + int"

definition avatar_item :: "avatar_row \<Rightarrow> string + avatar_state" where
  "avatar_item r =
     and_then (col ''Avatar manifest owner type decode failed'' (arow_owner_type r)) (\<lambda>raw.
     and_then (col ''Avatar manifest owner id decode failed'' (arow_owner_id r)) (\<lambda>oid.
     let invalid = ''Avatar manifest has invalid owner '' @ raw @ ''/'' @ oid in
     if \<not> is_valid_avatar_owner raw oid then Inl invalid
     else case avatar_owner_type_of raw of
       None \<Rightarrow> Inl invalid
     | Some ot \<Rightarrow>
         let who = avatar_owner_type_str ot @ ''/'' @ oid in
         and_then (col ''Avatar manifest tombstone decode failed'' (arow_deleted_at r)) (\<lambda>deleted.
         and_then (col (''Avatar manifest parent state decode failed for '' @ who) (arow_parent_is_live r)) (\<lambda>live.
         if \<not> live then Inl (''Avatar manifest owner '' @ who @ '' is missing or deleted'')
         else case deleted of
           Some t \<Rightarrow> Inr (AvatarDeleted ot oid t)
         | None \<Rightarrow>
             and_then (col (''Avatar manifest hash decode failed for '' @ who) (arow_avatar_hash r)) (\<lambda>h.
             and_then (col ''Avatar manifest timestamp decode failed'' (arow_updated_at r)) (\<lambda>t.
             Inr (AvatarLive ot oid h t)))))))"

definition build_avatar_manifest :: "string + avatar_row list \<Rightarrow> string + manifest_request" where
  "build_avatar_manifest query =
     and_then query (\<lambda>rows. and_then (map_rows avatar_item rows) (\<lambda>items. Inr (AvatarManifest items)))"

section \<open>Hashes of the targeted topics\<close>

text \<open>The hash map is a list of its entries in the order of insertion; the order Rust iterates it in
  is not specified, and no caller depends on it but through the order of a frame's list.\<close>

definition targeted_hash_step ::
  "owner_key list \<Rightarrow> (topic_key \<times> string \<times> string) list \<Rightarrow> topic_row \<Rightarrow>
   string + (topic_key \<times> string \<times> string) list" where
  "targeted_hash_step owners st r =
     and_then (col ''Targeted topic id decode failed'' (trow_topic_id r)) (\<lambda>tid.
     and_then (col (''Targeted topic '' @ tid @ '' config hash decode failed'') (trow_config_hash r)) (\<lambda>ch.
     and_then (col (''Targeted topic '' @ tid @ '' content hash decode failed'') (trow_content_hash r)) (\<lambda>cth.
     and_then (col (''Targeted topic '' @ tid @ '' owner type decode failed'') (trow_owner_type r)) (\<lambda>raw.
     case owner_type_of raw of
       None \<Rightarrow> Inl (''Targeted topic '' @ tid @ '' has invalid owner identity'')
     | Some ot \<Rightarrow>
         and_then (col (''Targeted topic '' @ tid @ '' owner id decode failed'') (trow_owner_id r)) (\<lambda>oid.
         let key = TopicKey (owner_type_str ot) oid tid in
         if oid = [] \<or> OwnerKey (owner_type_str ot) oid \<notin> set owners
         then Inl (''Targeted topic '' @ tid @ '' has invalid owner identity'')
         else if key \<in> fst ` set st
         then Inl (''Targeted topic hash query returned duplicate topic identity for '' @ tid)
         else Inr (st @ [(key, ch, cth)]))))))"

definition get_targeted_topic_hashes ::
  "(owner_key list \<Rightarrow> string + topic_row list) \<Rightarrow> owner_key list \<Rightarrow>
   string + (topic_key \<times> string \<times> string) list" where
  "get_targeted_topic_hashes query owners =
     (if owners = [] then Inr []
      else fold_chunks query (targeted_hash_step owners) [] (chunks SQLITE_BIND_CHUNK owners))"

section \<open>Message states of the requested topics\<close>

datatype message_version_state = MvLive string int | MvDeleted int

text \<open>The entries of the hash map: a topic, its content hash and the ordered map of its message
  states.\<close>

type_synonym topic_states = "(topic_key \<times> string \<times> (string \<times> message_version_state) list) list"

record message_row =
  mrow_topic_id :: "string + string"
  mrow_msg_id :: "string + string"
  mrow_content_hash :: "string + string"
  mrow_deleted_at :: "string + int option"
  mrow_updated_at :: "string + int"
  mrow_owner_type :: "string + string"
  mrow_owner_id :: "string + string"

record message_db =
  mdb_begin :: "string option"
  mdb_topics :: "topic_key list \<Rightarrow> string + topic_row list"
  mdb_messages :: "topic_key list \<Rightarrow> (string + message_row) list"
  mdb_commit :: "string option"

definition topic_hash_step :: "topic_states \<Rightarrow> topic_row \<Rightarrow> string + topic_states" where
  "topic_hash_step st r =
     and_then (col ''Topic hash id decode failed'' (trow_topic_id r)) (\<lambda>tid.
     and_then (col (''Topic '' @ tid @ '' content hash decode failed'') (trow_content_hash r)) (\<lambda>cth.
     and_then (col (''Topic '' @ tid @ '' owner type decode failed'') (trow_owner_type r)) (\<lambda>raw.
     case owner_type_of raw of
       None \<Rightarrow> Inl (''Topic '' @ tid @ '' has invalid owner identity'')
     | Some ot \<Rightarrow>
         and_then (col (''Topic '' @ tid @ '' owner id decode failed'') (trow_owner_id r)) (\<lambda>oid.
         let key = TopicKey (owner_type_str ot) oid tid in
         if oid = [] then Inl (''Topic '' @ tid @ '' has invalid owner identity'')
         else if key \<in> fst ` set st
         then Inl (''Topic message hash query returned duplicate topic identity for '' @ tid)
         else Inr (st @ [(key, cth, [])])))))"

fun version_time :: "message_version_state \<Rightarrow> int" where
  "version_time (MvLive _ t) = t"
| "version_time (MvDeleted t) = t"

text \<open>The columns of a message row: its topic, its id and its version.\<close>

definition decode_message_row ::
  "message_row \<Rightarrow> string + topic_key \<times> string \<times> message_version_state" where
  "decode_message_row r =
     and_then (col ''Message hash topic id decode failed'' (mrow_topic_id r)) (\<lambda>tid.
     and_then (col (''Message id decode failed for '' @ tid) (mrow_msg_id r)) (\<lambda>mid.
     and_then (col (''Message hash decode failed for '' @ tid @ ''/'' @ mid) (mrow_content_hash r)) (\<lambda>hash.
     and_then (col (''Message tombstone decode failed for '' @ tid @ ''/'' @ mid) (mrow_deleted_at r)) (\<lambda>deleted.
     and_then (col (''Message update time decode failed for '' @ tid @ ''/'' @ mid) (mrow_updated_at r)) (\<lambda>updated.
     and_then (col (''Message hash owner type decode failed for '' @ tid) (mrow_owner_type r)) (\<lambda>otype.
     and_then (col (''Message hash owner id decode failed for '' @ tid) (mrow_owner_id r)) (\<lambda>oid.
     Inr (TopicKey otype oid tid, mid,
          case deleted of Some t \<Rightarrow> MvDeleted t | None \<Rightarrow> MvLive hash updated))))))))"

definition put_version ::
  "topic_key \<Rightarrow> string \<Rightarrow> message_version_state \<Rightarrow> topic_states \<Rightarrow> topic_states" where
  "put_version key mid v st =
     map (\<lambda>(k, hash, ms). if k = key then (k, hash, insort_key fst (mid, v) ms) else (k, hash, ms)) st"

definition message_step :: "topic_states \<Rightarrow> string + message_row \<Rightarrow> string + topic_states" where
  "message_step st item =
     and_then (col ''Phase 3 message hash query failed'' item) (\<lambda>r.
     and_then (decode_message_row r) (\<lambda>(key, mid, v).
     case map_of st key of
       None \<Rightarrow> Inl (''Message hash query returned an unknown topic '' @ tk_topic_id key)
     | Some (hash, ms) \<Rightarrow>
         if \<not> (0 \<le> version_time v \<and> version_time v \<le> MAX_SAFE_JSON_INTEGER)
         then Inl (''Message update time is invalid for '' @ tk_topic_id key @ ''/'' @ mid)
         else if mid \<in> fst ` set ms
         then Inl (''Message hash query returned duplicate message '' @ mid @ '' for '' @ tk_topic_id key)
         else Inr (put_version key mid v st)))"

definition get_topic_message_hashes ::
  "(topic_key list \<Rightarrow> string) \<Rightarrow> message_db \<Rightarrow> topic_key list \<Rightarrow> string + topic_states" where
  "get_topic_message_hashes dbg db keys =
     (if keys = [] then Inr []
      else if \<not> distinct keys \<or> \<not> list_all topic_key_is_valid keys
      then Inl ''Topic message hash request contains invalid or duplicate topics''
      else case mdb_begin db of
        Some err \<Rightarrow> Inl (''Phase 3 state snapshot failed: '' @ err)
      | None \<Rightarrow>
          (let cs = chunks (SQLITE_BIND_CHUNK div 3) keys in
           and_then (fold_chunks (mdb_topics db) topic_hash_step [] cs) (\<lambda>st.
           if set (map fst st) \<noteq> set keys
           then Inl (''Topic message hash query is missing live topics '' @
                     dbg (sorted_list_of_set (set keys - set (map fst st))))
           else and_then (fold_chunks (\<lambda>c. Inr (mdb_messages db c)) message_step st cs) (\<lambda>st.
             case mdb_commit db of
               Some err \<Rightarrow> Inl (''Phase 3 state snapshot close failed: '' @ err)
             | None \<Rightarrow> Inr st))))"

end
