(* ===== verification/Sync_Attempt.thy ===== *)
theory Sync_Attempt
  imports Sync_Decisions Sync_Messages Sync_Pipeline
begin

text \<open>
  One attempt of a synchronisation session: the main loop of \<open>run_sync_session\<close>
  (\<open>sync/sync_service.rs\<close>) with its phase gate, its command queue, the frames of the desktop,
  the tasks it spawns and their watchdogs. A handler is one function on the attempt's state; what
  the database, the socket and the finalizer answer during it is the record \<open>main_env\<close>. The tasks
  run concurrently with the loop: their atomic operations are separate steps, so every interleaving
  of the counters and of the phase marker is a run of the model. The socket's \<open>select!\<close> is
  biased: the kickoff precedes commands, commands precede frames.
\<close>

section \<open>Vocabulary\<close>

type_synonym topic_state = "message_version_state diff_topic_state"

type_synonym batch = "message_version_state diff_batch"

datatype sync_command =
    CmdPhase u64 phase_command
  | CmdStartMessages u64
  | CmdFinalize u64
  | CmdNotifyDelete delete_target int
  | CmdSendMessageDiff u64 nat nat "topic_state list"
  | CmdBatchFinished u64 "phase3_error option"
  | CmdFail u64 string string "string list"

datatype out_frame =
    FPhaseStart sync_phase
  | FPhaseCompleted sync_phase
  | FManifest manifest_type
  | FTopicDiff "(topic_key \<times> string \<times> string) list"
  | FMessageDiff "topic_state list"
  | FFinal final_ack_key
  | FDelete delete_target int

text \<open>How the loop of the attempt ended.\<close>

datatype attempt_end = EndSuccess | EndFatal string | EndRestart string | EndClosed

text \<open>
  A task that runs the operations of a manifest: \<open>IOp\<close> is the remote or database operation, which
  may fail with one of the codes given, then \<open>fetch_sub\<close>, \<open>load\<close>, and the read of the phase marker
  with the command it selects. The remaining operations share one task in the code and only
  interleave where they wait; here each is a task of its own, so the model has every interleaving
  of the code.
\<close>

datatype op_instr =
    IOp "string list" "string list"
  | INotify delete_target int
  | IDone u32
  | ILoad
  | ISendIfZero

record op_worker =
  wk_steps :: "op_instr list"
  wk_seen :: u32

datatype batch_task =
    BtNew "message_diff_decision list"
  | BtRun "batch_effect list" "phase3_error option"

datatype watcher = WManifest u8 | WTopicHash u8 | WAck final_ack_key

record attempt =
  at_id :: u64
  at_session :: u64
  at_kickoff :: bool
  at_gate :: "string list"
  at_shared :: diff_shared
  at_topic_pending :: "topic_key set option"
  at_changed_topics :: "topic_key list"
  at_completed :: "topic_key set"
  at_modified :: "topic_key set"
  at_failed :: "topic_key set"
  at_total :: nat
  at_requested :: "topic_key set"
  at_expected :: "topic_key set"
  at_batches :: "batch list"
  at_inflight :: bool
  at_ack :: "final_ack_key option"
  at_finalized :: "topic_key set option"
  at_queue :: "sync_command list"
  at_workers :: "op_worker list"
  at_tasks :: "batch_task list"
  at_watchers :: "watcher list"
  at_sent :: "out_frame list"
  at_end :: "attempt_end option"

text \<open>
  \<open>at_requested\<close> (the topics phase 3 asked about) and \<open>at_finalized\<close> (the set the finalizer ran
  on) are ghost: written, never read. The state of a fresh attempt; \<open>stale\<close> is what is left in
  the session's command channel.
\<close>

definition new_attempt :: "u64 \<Rightarrow> u64 \<Rightarrow> sync_command list \<Rightarrow> attempt" where
  "new_attempt session_id attempt_id stale =
     \<lparr>at_id = attempt_id, at_session = session_id, at_kickoff = True, at_gate = [],
      at_shared = \<lparr>ds_pending = 0, ds_total = 0, ds_tracker = None, ds_phase = 1,
                   ds_changed_owners = {}, ds_commands = []\<rparr>,
      at_topic_pending = None, at_changed_topics = [], at_completed = {}, at_modified = {},
      at_failed = {}, at_total = 0, at_requested = {}, at_expected = {}, at_batches = [],
      at_inflight = False, at_ack = None, at_finalized = None, at_queue = stale, at_workers = [],
      at_tasks = [], at_watchers = [], at_sent = [], at_end = None\<rparr>"

record sync_cfg =
  cfg_copy :: "string \<Rightarrow> string \<times> string"
  cfg_to_json :: "wire_error \<Rightarrow> string"
  cfg_of_json :: "string \<Rightarrow> wire_error option"
  cfg_dbg :: "topic_key list \<Rightarrow> string"
  cfg_ord :: "topic_key list \<Rightarrow> topic_key list"

record main_env =
  me_flush :: "string option"
  me_send :: "nat \<Rightarrow> bool"
  me_cancelled :: bool
  me_owner_manifest :: "string option"
  me_avatar_manifest :: "string option"
  me_topic_manifest :: "string + manifest_type"
  me_topic_hashes :: "string + (topic_key \<times> string \<times> string) list"
  me_db :: message_db
  me_finalize :: "string option"
  me_nonce :: string
  me_publish :: bool

section \<open>Helpers of the loop\<close>

definition enqueue :: "sync_command \<Rightarrow> attempt \<Rightarrow> attempt" where
  "enqueue c a = a\<lparr>at_queue := at_queue a @ [c]\<rparr>"

definition fail_attempt :: "string \<Rightarrow> string \<Rightarrow> string list \<Rightarrow> attempt \<Rightarrow> attempt" where
  "fail_attempt code message ids a = enqueue (CmdFail (at_id a) code message ids) a"

definition end_attempt :: "attempt_end \<Rightarrow> attempt \<Rightarrow> attempt" where
  "end_attempt e a = a\<lparr>at_end := Some e\<rparr>"

definition set_phase :: "u8 \<Rightarrow> attempt \<Rightarrow> attempt" where
  "set_phase p a = a\<lparr>at_shared := (at_shared a)\<lparr>ds_phase := p\<rparr>\<rparr>"

definition reset_counters :: "attempt \<Rightarrow> attempt" where
  "reset_counters a = a\<lparr>at_shared := (at_shared a)\<lparr>ds_pending := 0, ds_total := 0\<rparr>\<rparr>"

definition spawn_watcher :: "watcher \<Rightarrow> attempt \<Rightarrow> attempt" where
  "spawn_watcher w a = a\<lparr>at_watchers := at_watchers a @ [w]\<rparr>"

text \<open>\<open>phase_gate.insert(name)\<close>: \<open>None\<close> when the phase was opened before.\<close>

definition open_gate :: "string \<Rightarrow> attempt \<Rightarrow> attempt option" where
  "open_gate name a =
     (if name \<in> set (at_gate a) then None else Some (a\<lparr>at_gate := at_gate a @ [name]\<rparr>))"

text \<open>Sends frames in order; the first that fails closes the attempt, otherwise it goes on.\<close>

fun send_frames :: "main_env \<Rightarrow> nat \<Rightarrow> out_frame list \<Rightarrow> (attempt \<Rightarrow> attempt) \<Rightarrow> attempt \<Rightarrow> attempt" where
  "send_frames env i [] k a = k a"
| "send_frames env i (f # fs) k a =
     (if me_send env i then send_frames env (i + 1) fs k (a\<lparr>at_sent := at_sent a @ [f]\<rparr>)
      else end_attempt EndClosed a)"

text \<open>\<open>manifest_responses.arm\<close>, and what follows when it succeeds.\<close>

definition arm_manifest :: "u8 \<Rightarrow> manifest_type \<Rightarrow> (attempt \<Rightarrow> attempt) \<Rightarrow> attempt \<Rightarrow> attempt" where
  "arm_manifest p mt k a =
     (case tracker_arm (ds_tracker (at_shared a)) p mt of
        (_, Inl message) \<Rightarrow> fail_attempt ''SYNC_STATE_POISONED'' message [] a
      | (tr, Inr _) \<Rightarrow> k (a\<lparr>at_shared := (at_shared a)\<lparr>ds_tracker := tr\<rparr>\<rparr>))"

section \<open>Commands\<close>

definition kickoff :: "main_env \<Rightarrow> attempt \<Rightarrow> attempt" where
  "kickoff env a =
     (let a = set_phase 1 (a\<lparr>at_kickoff := False\<rparr>) in
      case me_owner_manifest env of
        Some err \<Rightarrow>
          fail_attempt ''OWNER_MANIFEST_DB_FAILED'' (''Failed to build Owner manifest: '' @ err) [] a
      | None \<Rightarrow>
          arm_manifest 1 MOwner
            (send_frames env 0 [FManifest MOwner] (spawn_watcher (WManifest 1))) a)"

definition start_avatar_metadata :: "main_env \<Rightarrow> attempt \<Rightarrow> attempt" where
  "start_avatar_metadata env a =
     (case open_gate ''avatar_metadata'' a of
        None \<Rightarrow> a
      | Some a \<Rightarrow>
          (case me_flush env of
             Some err \<Rightarrow> end_attempt (EndFatal ''OWNER_METADATA_DRAIN_FAILED'') a
           | None \<Rightarrow>
               (case me_avatar_manifest env of
                  Some err \<Rightarrow> fail_attempt ''AVATAR_MANIFEST_DB_FAILED''
                                (''Failed to build avatar manifest: '' @ err) [] a
                | None \<Rightarrow>
                    arm_manifest 2 MAvatar
                      (\<lambda>a. send_frames env 0 [FManifest MAvatar] (spawn_watcher (WManifest 2))
                        (reset_counters a))
                      (set_phase 2 a))))"

definition start_topic_metadata :: "main_env \<Rightarrow> attempt \<Rightarrow> attempt" where
  "start_topic_metadata env a =
     (case open_gate ''topic_metadata'' a of
        None \<Rightarrow> a
      | Some a \<Rightarrow>
          (case me_flush env of
             Some err \<Rightarrow> end_attempt (EndFatal ''OWNER_METADATA_DRAIN_FAILED'') a
           | None \<Rightarrow>
               send_frames env 0 [FPhaseCompleted OwnerMetadata]
                 (\<lambda>a. if me_cancelled env then end_attempt EndClosed a
                  else if ds_changed_owners (at_shared a) = {}
                  then enqueue (CmdPhase (at_id a) StartTopicValidation) a
                  else case me_topic_manifest env of
                    Inl err \<Rightarrow> fail_attempt ''TOPIC_MANIFEST_DB_FAILED''
                                 (''Failed to build targeted topic manifest: '' @ err) [] a
                  | Inr mt \<Rightarrow>
                      if mt \<noteq> MTopic
                      then fail_attempt ''TOPIC_MANIFEST_INVALID''
                             ''Targeted topic manifest returned an unexpected data type'' [] a
                      else arm_manifest 3 MTopic
                             (\<lambda>a. send_frames env 1 [FPhaseStart TopicMetadata, FManifest MTopic]
                               (spawn_watcher (WManifest 3)) (reset_counters a))
                             (set_phase 3 a))
                 a))"

definition start_topic_validation :: "main_env \<Rightarrow> attempt \<Rightarrow> attempt" where
  "start_topic_validation env a =
     (case open_gate ''topic_validation'' a of
        None \<Rightarrow> a
      | Some a \<Rightarrow>
          (case me_flush env of
             Some err \<Rightarrow> end_attempt (EndFatal ''TOPIC_METADATA_DRAIN_FAILED'') a
           | None \<Rightarrow>
               send_frames env 0 [FPhaseCompleted TopicMetadata]
                 (\<lambda>a. if me_cancelled env then end_attempt EndClosed a
                  else case me_topic_hashes env of
                    Inl err \<Rightarrow> fail_attempt ''TOPIC_HASH_DB_FAILED''
                                 (''Failed to get targeted topic hashes: '' @ err) [] a
                  | Inr hashes \<Rightarrow>
                      (case List.find (\<lambda>h. owner_type_of (tk_owner_type (fst h)) = None) hashes of
                         Some h \<Rightarrow> fail_attempt ''TOPIC_HASH_STATE_INVALID''
                                     (''Topic '' @ tk_topic_id (fst h) @ '' has invalid ownerType'')
                                     [tk_topic_id (fst h)] a
                       | None \<Rightarrow>
                           (case stage_topic_diff_request (at_topic_pending a)
                                   (set (map fst hashes)) hashes of
                              (_, Inl message) \<Rightarrow>
                                fail_attempt ''TOPIC_HASH_RESPONSE_OVERLAP'' message [] a
                            | (_, Inr None) \<Rightarrow>
                                enqueue (CmdStartMessages (at_id a)) (set_phase 4 a)
                            | (pend, Inr (Some states)) \<Rightarrow>
                                send_frames env 1 [FTopicDiff states] (spawn_watcher (WTopicHash 3))
                                  (a\<lparr>at_topic_pending := pend\<rparr>))))
                 a))"

definition start_messages :: "sync_cfg \<Rightarrow> main_env \<Rightarrow> attempt \<Rightarrow> attempt" where
  "start_messages cfg env a =
     (case open_gate ''messages'' a of
        None \<Rightarrow> a
      | Some a \<Rightarrow>
          if at_changed_topics a = [] then enqueue (CmdFinalize (at_id a)) a
          else send_frames env 0 [FPhaseStart Messages]
            (\<lambda>a. case get_topic_message_hashes (cfg_dbg cfg) (me_db env) (at_changed_topics a) of
               Inl err \<Rightarrow> fail_attempt ''PHASE3_HASH_PREP_FAILED''
                            (''Phase 3 hash preparation failed: '' @ err) [] a
             | Inr states \<Rightarrow>
                 (let a1 = a\<lparr>at_total := length states, at_completed := {}, at_modified := {},
                            at_failed := {}, at_batches := [],
                            at_requested := set (map fst states)\<rparr> in
                  case build_diff_batches states of
                    Inl err \<Rightarrow> fail_attempt ''PHASE3_HASH_PREP_FAILED'' err
                                 (map tk_topic_id (at_changed_topics a1)) a1
                  | Inr [] \<Rightarrow> fail_attempt ''PHASE3_DIFF_MISSING''
                                ''Phase 3 produced no request batch for changed topics'' [] a1
                  | Inr (b # rest) \<Rightarrow>
                      send_frames env 1 [FMessageDiff (db_topics b)] (\<lambda>a. a)
                        (a1\<lparr>at_batches := rest, at_expected := set (db_keys b)\<rparr>)))
            a)"

definition finalize_attempt :: "main_env \<Rightarrow> attempt \<Rightarrow> attempt" where
  "finalize_attempt env a =
     (case open_gate ''finalize'' a of
        None \<Rightarrow> a
      | Some a \<Rightarrow>
          (case me_finalize env of
             Some err \<Rightarrow> end_attempt (EndFatal ''SYNC_FINALIZATION_FAILED'') a
           | None \<Rightarrow>
               (let key = \<lparr>fa_session_id = at_session a, fa_attempt_id = at_id a,
                           fa_nonce = me_nonce env\<rparr> in
                send_frames env 0 [FFinal key]
                  (\<lambda>a. spawn_watcher (WAck key) (a\<lparr>at_ack := Some key\<rparr>))
                  (a\<lparr>at_finalized := Some (at_modified a)\<rparr>))))"

text \<open>\<open>FailAttempt\<close>, \<open>FailAttemptDetailed\<close> and a failed batch: restart when the failure is
  transient, fatal otherwise.\<close>

definition end_failed :: "sync_cfg \<Rightarrow> string \<Rightarrow> string \<Rightarrow> attempt \<Rightarrow> attempt" where
  "end_failed cfg code message a =
     (case attempt_restart_failure (cfg_copy cfg) (cfg_of_json cfg) code message of
        Some (restart_code, _) \<Rightarrow> end_attempt (EndRestart restart_code) a
      | None \<Rightarrow> end_attempt (EndFatal code) a)"

fun start_phase :: "main_env \<Rightarrow> phase_command \<Rightarrow> attempt \<Rightarrow> attempt" where
  "start_phase env StartAvatarMetadata a = start_avatar_metadata env a"
| "start_phase env StartTopicMetadata a = start_topic_metadata env a"
| "start_phase env StartTopicValidation a = start_topic_validation env a"

definition batch_finished :: "sync_cfg \<Rightarrow> phase3_error option \<Rightarrow> attempt \<Rightarrow> attempt" where
  "batch_finished cfg result a =
     (let a = a\<lparr>at_inflight := False\<rparr> in
      case result of
        None \<Rightarrow> a
      | Some err \<Rightarrow> end_failed cfg (p3_code err) (p3_message err) a)"

fun handle_command :: "sync_cfg \<Rightarrow> main_env \<Rightarrow> sync_command \<Rightarrow> attempt \<Rightarrow> attempt" where
  "handle_command cfg env (CmdPhase i p) a = (if i \<noteq> at_id a then a else start_phase env p a)"
| "handle_command cfg env (CmdStartMessages i) a = (if i \<noteq> at_id a then a else start_messages cfg env a)"
| "handle_command cfg env (CmdFinalize i) a = (if i \<noteq> at_id a then a else finalize_attempt env a)"
| "handle_command cfg env (CmdNotifyDelete target t) a =
     send_frames env 0 [FDelete target t] (\<lambda>a. a) a"
| "handle_command cfg env (CmdSendMessageDiff i n k topics) a =
     (if i \<noteq> at_id a then a else send_frames env 0 [FMessageDiff topics] (\<lambda>a. a) a)"
| "handle_command cfg env (CmdBatchFinished i result) a =
     (if i \<noteq> at_id a then a else batch_finished cfg result a)"
| "handle_command cfg env (CmdFail i code message ids) a =
     (if i \<noteq> at_id a then a else end_failed cfg code message a)"


section \<open>Frames of the desktop\<close>

text \<open>A received frame after serde: a decoding failure is the decoder's message. The last two are
  the socket closing (with the code of a close frame) and its failure or end.\<close>

datatype inbound =
    InMalformed
  | InSyncError "string + wire_error"
  | InManifest "string + manifest_frame"
  | InMessageDiff "string + message_diff_decision list"
  | InTopicDiff "string + topic_key list"
  | InPhaseAck "string + phase_ack_frame"
  | InNotice "string option"
  | InUnsupported string
  | InClose "nat option"
  | InLost

text \<open>The tasks of an accepted manifest. The chunk sizes of a list of \<open>n\<close> items.\<close>

fun chunk_sizes :: "nat \<Rightarrow> nat \<Rightarrow> nat list" where
  "chunk_sizes 0 n = (if n = 0 then [] else [n])"
| "chunk_sizes (Suc k) n =
     (if n = 0 then [] else if n \<le> Suc k then [n] else Suc k # chunk_sizes (Suc k) (n - Suc k))"

definition pull_chunk_size :: "manifest_type \<Rightarrow> nat" where
  "pull_chunk_size mt = (case mt of MOwner \<Rightarrow> 50 | MTopic \<Rightarrow> 1000 | _ \<Rightarrow> 100)"

definition worker_of :: "op_instr list \<Rightarrow> op_worker" where
  "worker_of steps = \<lparr>wk_steps = steps, wk_seen = 0\<rparr>"

definition pull_worker :: "manifest_type \<Rightarrow> nat \<Rightarrow> op_worker" where
  "pull_worker mt n = worker_of (concat (map
     (\<lambda>c. [IOp [''ENTITY_PULL_FAILED''] [], IDone (of_nat c), ILoad, ISendIfZero])
     (chunk_sizes (pull_chunk_size mt) n)))"

definition push_topics_worker :: "nat \<Rightarrow> op_worker" where
  "push_topics_worker n = worker_of (IOp [''TOPIC_PUSH_DB_FAILED'', ''TOPIC_PUSH_DB_DECODE_FAILED'',
       ''TOPIC_PUSH_OWNER_CONFLICT'', ''TOPIC_PUSH_SOURCE_MISSING''] [] #
     concat (map (\<lambda>c. [IOp [''TOPIC_PUSH_FAILED''] [], IDone (of_nat c), ILoad]) (chunk_sizes 1000 n)) @
     [ILoad, ISendIfZero])"

definition other_worker :: "manifest_type \<Rightarrow> manifest_decision \<Rightarrow> op_worker" where
  "other_worker mt item =
     (let ids = (if mt = MTopic then [dec_id item] else []);
          finish = [IDone 1, ILoad, ISendIfZero] in
      worker_of (IOp [''ENTITY_OPERATION_FAILED''] ids #
        (case entity_operation mt item of
           OpSoftDelete target t notify \<Rightarrow> if notify then INotify target t # finish else finish
         | _ \<Rightarrow> finish)))"

definition dispatch_workers :: "manifest_type \<Rightarrow> dispatch \<Rightarrow> op_worker list" where
  "dispatch_workers mt d =
     (if dp_pulls d = [] then [] else [pull_worker mt (length (dp_pulls d))]) @
     (if dp_push_topics d = [] then [] else [push_topics_worker (length (dp_push_topics d))]) @
     map (other_worker mt) (dp_others d)"

definition handle_manifest :: "manifest_frame \<Rightarrow> attempt \<Rightarrow> attempt" where
  "handle_manifest frm a =
     (let (sh, r) = handle_diff frm (at_shared a);
          a1 = a\<lparr>at_shared := sh\<lparr>ds_commands := []\<rparr>,
                 at_queue := at_queue a @ map (CmdPhase (at_id a)) (ds_commands sh)\<rparr> in
      case r of
        Inl err \<Rightarrow> fail_attempt ''SYNC_DIFF_HANDLER_FAILED'' (''DiffHandler failed: '' @ err) [] a1
      | Inr d \<Rightarrow> a1\<lparr>at_workers := at_workers a1 @ dispatch_workers (frame_type frm) d\<rparr>)"

definition handle_sync_error :: "sync_cfg \<Rightarrow> string + wire_error \<Rightarrow> attempt \<Rightarrow> attempt" where
  "handle_sync_error cfg r a =
     (case r of
        Inl _ \<Rightarrow> end_attempt (EndFatal ''PROTOCOL_FRAME_INVALID'') a
      | Inr e \<Rightarrow>
          (case encode_wire_sync_error (cfg_copy cfg) (cfg_to_json cfg) e of
             Inl _ \<Rightarrow> end_attempt (EndFatal ''PROTOCOL_FRAME_INVALID'') a
           | Inr encoded \<Rightarrow> end_failed cfg ''REMOTE_SYNC_FAILED'' encoded a))"

definition handle_message_diff :: "string + message_diff_decision list \<Rightarrow> attempt \<Rightarrow> attempt" where
  "handle_message_diff r a =
     (case r of
        Inl _ \<Rightarrow> end_attempt (EndFatal ''PHASE3_FRAME_INVALID'') a
      | Inr results \<Rightarrow>
          if at_inflight a then end_attempt (EndFatal ''PHASE3_BATCH_OVERLAP'') a
          else a\<lparr>at_inflight := True, at_tasks := at_tasks a @ [BtNew results]\<rparr>)"

definition handle_topic_diff :: "string + topic_key list \<Rightarrow> attempt \<Rightarrow> attempt" where
  "handle_topic_diff r a =
     (let (pend, parsed) = topic_diff_result (at_topic_pending a) r;
          a1 = (set_phase 4 a)\<lparr>at_topic_pending := pend\<rparr> in
      case parsed of
        Inl message \<Rightarrow> fail_attempt ''TOPIC_HASH_RESULTS_INVALID'' message [] a1
      | Inr changed \<Rightarrow> enqueue (CmdStartMessages (at_id a1)) (a1\<lparr>at_changed_topics := changed\<rparr>))"

definition handle_phase_ack :: "main_env \<Rightarrow> string + phase_ack_frame \<Rightarrow> attempt \<Rightarrow> attempt" where
  "handle_phase_ack env r a =
     (case r of
        Inl err \<Rightarrow> fail_attempt ''PROTOCOL_FRAME_INVALID'' (''Invalid PHASE_ACK: '' @ err) [] a
      | Inr ack \<Rightarrow>
          (let (slot, accepted) = consume_final_ack (at_ack a) ack;
               a1 = a\<lparr>at_ack := slot\<rparr> in
           if \<not> accepted then a1
           else let a2 = set_phase 0 a1 in
             case me_flush env of
               Some err \<Rightarrow> end_attempt (EndFatal ''FINAL_WRITE_DRAIN_FAILED'') a2
             | None \<Rightarrow> end_attempt (if me_publish env then EndSuccess else EndClosed) a2))"

definition handle_close :: "nat option \<Rightarrow> attempt \<Rightarrow> attempt" where
  "handle_close code a =
     end_attempt (if code = Some 4001 then EndFatal ''TOKEN_MISMATCH'' else EndClosed) a"

fun handle_frame :: "sync_cfg \<Rightarrow> main_env \<Rightarrow> inbound \<Rightarrow> attempt \<Rightarrow> attempt" where
  "handle_frame cfg env InMalformed a = end_attempt (EndFatal ''PROTOCOL_FRAME_INVALID'') a"
| "handle_frame cfg env (InSyncError r) a = handle_sync_error cfg r a"
| "handle_frame cfg env (InManifest r) a =
     (case r of
        Inl err \<Rightarrow> fail_attempt ''PROTOCOL_FRAME_INVALID'' (''Invalid SYNC_MANIFEST_RESULT: '' @ err) [] a
      | Inr frm \<Rightarrow> handle_manifest frm a)"
| "handle_frame cfg env (InMessageDiff r) a = handle_message_diff r a"
| "handle_frame cfg env (InTopicDiff r) a = handle_topic_diff r a"
| "handle_frame cfg env (InPhaseAck r) a = handle_phase_ack env r a"
| "handle_frame cfg env (InNotice r) a =
     (case r of
        Some err \<Rightarrow> fail_attempt ''PROTOCOL_FRAME_INVALID'' err [] a
      | None \<Rightarrow> a)"
| "handle_frame cfg env (InUnsupported t) a =
     fail_attempt ''PROTOCOL_FRAME_INVALID'' (''Unsupported sync response frame '' @ t) [] a"
| "handle_frame cfg env (InClose code) a = handle_close code a"
| "handle_frame cfg env InLost a = end_attempt EndClosed a"

section \<open>Tasks\<close>

text \<open>One instruction of an operation task, and the tasks that remain.\<close>

definition run_worker :: "nat \<Rightarrow> attempt \<Rightarrow> attempt" where
  "run_worker i a =
     (let w = at_workers a ! i in
      case wk_steps w of
        [] \<Rightarrow> a
      | s # rest \<Rightarrow>
          (let put = (\<lambda>w' a. a\<lparr>at_workers := (at_workers a)[i := w']\<rparr>);
               w1 = w\<lparr>wk_steps := rest\<rparr> in
           case s of
             IOp _ _ \<Rightarrow> put w1 a
           | INotify target t \<Rightarrow> put w1 (enqueue (CmdNotifyDelete target t) a)
           | IDone n \<Rightarrow>
               put w1 (a\<lparr>at_shared := (at_shared a)\<lparr>ds_pending := ds_pending (at_shared a) - n\<rparr>\<rparr>)
           | ILoad \<Rightarrow> put (w1\<lparr>wk_seen := ds_pending (at_shared a)\<rparr>) a
           | ISendIfZero \<Rightarrow>
               put w1
                 (if wk_seen w = 0
                  then (case next_manifest_command (ds_phase (at_shared a)) of
                          Some c \<Rightarrow> enqueue (CmdPhase (at_id a) c) a
                        | None \<Rightarrow> a)
                  else a)))"

text \<open>A failing operation reports one of its codes and ends its task. The topic ids of a failure are
  those of the item; a chunk's ids are not tracked.\<close>

definition fail_worker :: "nat \<Rightarrow> nat \<Rightarrow> string \<Rightarrow> attempt \<Rightarrow> attempt" where
  "fail_worker i k err a =
     (let w = at_workers a ! i in
      case wk_steps w of
        IOp codes ids # _ \<Rightarrow>
          if length codes \<le> k then a
          else fail_attempt (codes ! k) err ids (a\<lparr>at_workers := (at_workers a)[i := w\<lparr>wk_steps := []\<rparr>]\<rparr>)
      | _ \<Rightarrow> a)"

fun batch_effect_step :: "batch_effect \<Rightarrow> attempt \<Rightarrow> attempt" where
  "batch_effect_step (BModified t) a = a\<lparr>at_modified := insert t (at_modified a)\<rparr>"
| "batch_effect_step (BFailed t) a = a\<lparr>at_failed := insert t (at_failed a)\<rparr>"
| "batch_effect_step (BCompleted t quiet) a =
     (if t \<in> at_completed a then a
      else let a = a\<lparr>at_completed := insert t (at_completed a)\<rparr> in
        if card (at_completed a) = at_total a then enqueue (CmdFinalize (at_id a)) a else a)"
| "batch_effect_step BNextBatch a =
     (case at_batches a of
        [] \<Rightarrow> a
      | b # rest \<Rightarrow>
          enqueue (CmdSendMessageDiff (at_id a) (db_index b) (db_total b) (db_topics b))
            (a\<lparr>at_batches := rest, at_expected := set (db_keys b)\<rparr>))"
| "batch_effect_step _ a = a"

text \<open>A step of the batch task \<open>i\<close>: it reads the expected topics when it starts, then has its
  effects one by one, then reports its result and ends.\<close>

definition run_batch_task :: "sync_cfg \<Rightarrow> batch_io \<Rightarrow> nat \<Rightarrow> attempt \<Rightarrow> attempt" where
  "run_batch_task cfg io i a =
     (case at_tasks a ! i of
        BtNew results \<Rightarrow>
          (let (es, r) = handle_diff_batch (cfg_copy cfg) (cfg_to_json cfg) (cfg_of_json cfg)
                 (cfg_dbg cfg) (cfg_ord cfg) io (at_expected a) results in
           a\<lparr>at_tasks := (at_tasks a)[i := BtRun es r]\<rparr>)
      | BtRun (e # es) r \<Rightarrow>
          (let a1 = batch_effect_step e a in a1\<lparr>at_tasks := (at_tasks a1)[i := BtRun es r]\<rparr>)
      | BtRun [] r \<Rightarrow>
          enqueue (CmdBatchFinished (at_id a) r)
            (a\<lparr>at_tasks := take i (at_tasks a) @ drop (Suc i) (at_tasks a)\<rparr>))"

text \<open>A watchdog whose sleep is over.\<close>

definition fire_watcher :: "watcher \<Rightarrow> attempt \<Rightarrow> attempt" where
  "fire_watcher w a =
     (let sh = at_shared a in
      case w of
        WManifest p \<Rightarrow>
          (case enforce_manifest_response_deadline (ds_tracker sh) (ds_phase sh) p of
             Some (code, message) \<Rightarrow> fail_attempt code message [] a | None \<Rightarrow> a)
      | WTopicHash p \<Rightarrow>
          (case enforce_topic_hash_response_deadline (at_topic_pending a) (ds_phase sh) p of
             Some (code, message) \<Rightarrow> fail_attempt code message [] a | None \<Rightarrow> a)
      | WAck key \<Rightarrow>
          (let (slot, expired) = enforce_final_ack_deadline (at_ack a) key; a1 = a\<lparr>at_ack := slot\<rparr> in
           if expired
           then fail_attempt ''FINAL_ACK_TIMEOUT''
                  ''Desktop final sync acknowledgement timed out after 30 seconds'' [] a1
           else a1))"

section \<open>Runs\<close>

datatype attempt_label =
    LKickoff main_env
  | LCommand main_env
  | LFrame main_env inbound
  | LClosed
  | LWorker nat
  | LWorkerFails nat nat string
  | LBatch batch_io nat
  | LWatcher nat
  | LForeign sync_command

text \<open>Commands another part of the application, or an earlier attempt, may put into the channel.\<close>

fun foreign_command :: "u64 \<Rightarrow> sync_command \<Rightarrow> bool" where
  "foreign_command i (CmdNotifyDelete _ _) = True"
| "foreign_command i (CmdPhase j _) = (j \<noteq> i)"
| "foreign_command i (CmdStartMessages j) = (j \<noteq> i)"
| "foreign_command i (CmdFinalize j) = (j \<noteq> i)"
| "foreign_command i (CmdSendMessageDiff j _ _ _) = (j \<noteq> i)"
| "foreign_command i (CmdBatchFinished j _) = (j \<noteq> i)"
| "foreign_command i (CmdFail j _ _ _) = (j \<noteq> i)"

text \<open>The step of a label, when it can happen; nothing happens once the attempt has ended.\<close>

fun attempt_exec :: "sync_cfg \<Rightarrow> attempt_label \<Rightarrow> attempt \<Rightarrow> attempt option" where
  "attempt_exec cfg (LKickoff env) a =
     (if at_end a = None \<and> at_kickoff a then Some (kickoff env a) else None)"
| "attempt_exec cfg (LCommand env) a =
     (case at_queue a of
        c # rest \<Rightarrow>
          if at_end a = None \<and> \<not> at_kickoff a
          then Some (handle_command cfg env c (a\<lparr>at_queue := rest\<rparr>)) else None
      | [] \<Rightarrow> None)"
| "attempt_exec cfg (LFrame env f) a =
     (if at_end a = None \<and> \<not> at_kickoff a \<and> at_queue a = []
      then Some (handle_frame cfg env f a) else None)"
| "attempt_exec cfg LClosed a = (if at_end a = None then Some (end_attempt EndClosed a) else None)"
| "attempt_exec cfg (LWorker i) a =
     (if at_end a = None \<and> i < length (at_workers a) then Some (run_worker i a) else None)"
| "attempt_exec cfg (LWorkerFails i k err) a =
     (if at_end a = None \<and> i < length (at_workers a) then Some (fail_worker i k err a) else None)"
| "attempt_exec cfg (LBatch io i) a =
     (if at_end a = None \<and> i < length (at_tasks a) then Some (run_batch_task cfg io i a) else None)"
| "attempt_exec cfg (LWatcher i) a =
     (if at_end a = None \<and> i < length (at_watchers a)
      then Some (fire_watcher (at_watchers a ! i)
             (a\<lparr>at_watchers := take i (at_watchers a) @ drop (Suc i) (at_watchers a)\<rparr>))
      else None)"
| "attempt_exec cfg (LForeign c) a =
     (if at_end a = None \<and> foreign_command (at_id a) c then Some (enqueue c a) else None)"

inductive attempt_reach :: "sync_cfg \<Rightarrow> u64 \<Rightarrow> u64 \<Rightarrow> attempt \<Rightarrow> bool"
  for cfg session_id attempt_id where
  fresh: "list_all (foreign_command attempt_id) stale \<Longrightarrow>
     attempt_reach cfg session_id attempt_id (new_attempt session_id attempt_id stale)"
| step: "attempt_reach cfg session_id attempt_id a \<Longrightarrow> attempt_exec cfg l a = Some a' \<Longrightarrow> attempt_reach cfg session_id attempt_id a'"

end
