(* ===== verification/Sync_Pipeline_Laws.thy ===== *)
theory Sync_Pipeline_Laws
  imports Sync_Pipeline "HOL-Library.Multiset"
begin

text \<open>
  What the checks of the pipeline establish of the states it sends, for every answer of the
  database: the targeted manifest stays in its scope, and the message states cover exactly the
  requested topics with exactly the versions of the rows.
\<close>

section \<open>Folds over rows\<close>

lemma fold_rows_inv:
  "fold_rows f s rs = Inr s' \<Longrightarrow> P s \<Longrightarrow> (\<And>s r t. P s \<Longrightarrow> f s r = Inr t \<Longrightarrow> P t) \<Longrightarrow> P s'"
  by (induction f s rs rule: fold_rows.induct) (auto simp: and_then_Inr)

lemma fold_chunks_inv:
  assumes "fold_chunks query f s cs = Inr s'" "P s" "\<And>s r t. P s \<Longrightarrow> f s r = Inr t \<Longrightarrow> P t"
  shows "P s'"
  using assms(1,2)
proof (induction cs arbitrary: s)
  case Nil
  then show ?case by simp
next
  case (Cons c cs)
  then obtain rows t where "query c = Inr rows" "fold_rows f s rows = Inr t"
      "fold_chunks query f t cs = Inr s'"
    by (auto simp: and_then_Inr)
  with Cons.IH [of t] fold_rows_inv [of f s rows t P] Cons.prems(2) assms(3) show ?case by blast
qed

text \<open>The loop over the chunks is the loop over all their rows.\<close>

lemma fold_rows_append:
  "fold_rows f s (xs @ ys) = and_then (fold_rows f s xs) (\<lambda>t. fold_rows f t ys)"
proof (induction xs arbitrary: s)
  case Nil
  then show ?case by simp
next
  case (Cons x xs)
  then show ?case by (cases "f s x") simp_all
qed

lemma fold_chunks_total:
  "fold_chunks (\<lambda>c. Inr (rows c)) f s cs = fold_rows f s (concat (map rows cs))"
proof (induction cs arbitrary: s)
  case Nil
  then show ?case by simp
next
  case (Cons c cs)
  then show ?case by (cases "fold_rows f s (rows c)") (simp_all add: fold_rows_append)
qed

lemma concat_chunks: "0 < n \<Longrightarrow> concat (chunks n xs) = xs"
proof (induction n xs rule: chunks.induct)
  case (1 n xs)
  then show ?case by (subst chunks.simps) simp
qed

section \<open>The targeted manifest\<close>

fun topic_item_key :: "topic_item \<Rightarrow> topic_key" where
  "topic_item_key (TopicLive ot oid tid _ _) = TopicKey (owner_type_str ot) oid tid"
| "topic_item_key (TopicDeleted ot oid tid _) = TopicKey (owner_type_str ot) oid tid"

definition key_owner :: "topic_key \<Rightarrow> owner_key" where
  "key_owner k = OwnerKey (tk_owner_type k) (tk_owner_id k)"

definition manifest_state_ok :: "owner_key list \<Rightarrow> topic_key list \<times> topic_item list \<Rightarrow> bool" where
  "manifest_state_ok owners st \<longleftrightarrow> rev (fst st) = map topic_item_key (snd st) \<and> distinct (fst st) \<and>
     list_all (\<lambda>k. key_owner k \<in> set owners) (fst st)"

lemma topic_item_step_ok:
  assumes "manifest_state_ok owners st" and "topic_item_step owners st r = Inr st'"
  shows "manifest_state_ok owners st'"
proof -
  obtain seen items where st: "st = (seen, items)" by (cases st)
  from assms(2) show ?thesis
    using assms(1) unfolding st manifest_state_ok_def
    by (auto simp: topic_item_step_def and_then_Inr Let_def key_owner_def
        split: option.splits if_splits)
qed

text \<open>
  The targeted topic manifest stays in its scope whatever the database answers: when it is
  built, its declared owners are exactly the requested ones, each of its items belongs to one of
  them, and no topic occurs twice. Rows outside the scope or repeated are an error, never sent.
\<close>

theorem targeted_manifest_in_scope:
  "case build_targeted_topic_manifest query owners of
     Inr (TopicManifest items scope) \<Rightarrow> scope = owners \<and> distinct (map topic_item_key items) \<and>
       distinct owners \<and> key_owner ` set (map topic_item_key items) \<subseteq> set owners
   | Inr _ \<Rightarrow> False
   | Inl _ \<Rightarrow> owners \<noteq> []"
proof (cases "fold_chunks query (topic_item_step owners) ([], []) (chunks SQLITE_BIND_CHUNK owners)")
  case (Inl e)
  then show ?thesis by (simp add: build_targeted_topic_manifest_def)
next
  case (Inr st)
  obtain seen items where st: "st = (seen, items)" by (cases st)
  have "manifest_state_ok owners (seen, items)"
    by (rule fold_chunks_inv [OF Inr [unfolded st]])
      (simp add: manifest_state_ok_def, erule (1) topic_item_step_ok)
  then have "rev seen = map topic_item_key items" "distinct seen"
      "list_all (\<lambda>k. key_owner k \<in> set owners) seen"
    by (simp_all add: manifest_state_ok_def)
  then have "distinct (map topic_item_key items)"
      "key_owner ` set (map topic_item_key items) \<subseteq> set owners"
    by (metis distinct_rev, metis image_subset_iff list_all_iff set_rev)
  with Inr st show ?thesis
    by (simp add: build_targeted_topic_manifest_def)
qed

section \<open>The message states\<close>

text \<open>The versions of a topic in the rows that arrived.\<close>

definition versions_of ::
  "topic_key \<Rightarrow> (string + message_row) list \<Rightarrow> (string \<times> message_version_state) list" where
  "versions_of key items = List.map_filter
     (\<lambda>item. case item of Inl _ \<Rightarrow> None
      | Inr r \<Rightarrow> (case decode_message_row r of
          Inl _ \<Rightarrow> None
        | Inr (k, mid, v) \<Rightarrow> if k = key then Some (mid, v) else None)) items"

definition state_ok :: "(string + message_row) list \<Rightarrow>
  topic_key \<times> string \<times> (string \<times> message_version_state) list \<Rightarrow> bool" where
  "state_ok items e = (case e of (k, hash, ms) \<Rightarrow>
     sorted (map fst ms) \<and> distinct (map fst ms) \<and> mset ms = mset (versions_of k items) \<and>
     list_all (\<lambda>(mid, v). 0 \<le> version_time v \<and> version_time v \<le> MAX_SAFE_JSON_INTEGER) ms)"

lemma versions_of_snoc:
  "decode_message_row r = Inr (k, mid, v) \<Longrightarrow>
     versions_of key (items @ [Inr r]) = versions_of key items @ (if k = key then [(mid, v)] else [])"
  by (simp add: versions_of_def List.map_filter_def)

lemma state_ok_snoc:
  assumes e: "state_ok items (k, hash, ms)" and d: "decode_message_row r = Inr (key, mid, v)"
    and fresh: "k = key \<Longrightarrow> mid \<notin> fst ` set ms"
    and time: "0 \<le> version_time v" "version_time v \<le> MAX_SAFE_JSON_INTEGER"
  shows "state_ok (items @ [Inr r])
    (if k = key then (k, hash, insort_key fst (mid, v) ms) else (k, hash, ms))"
proof (cases "k = key")
  case True
  have "distinct (map fst (insort_key fst (mid, v) ms))"
  proof -
    have "mset (map fst (insort_key fst (mid, v) ms)) = mset (mid # map fst ms)" by simp
    moreover have "distinct (mid # map fst ms)" using e fresh True by (auto simp: state_ok_def)
    ultimately show ?thesis by (metis mset_eq_imp_distinct_iff)
  qed
  then show ?thesis
    using e True time by (auto simp: state_ok_def versions_of_snoc [OF d] sorted_insort_key
        list_all_iff set_insort_key)
next
  case False
  then show ?thesis using e by (simp add: state_ok_def versions_of_snoc [OF d])
qed

lemma put_version_keys: "map fst (put_version key mid v st) = map fst st"
  by (simp add: put_version_def case_prod_unfold comp_def if_distrib cong: if_cong)

lemma message_step_ok:
  assumes "message_step st item = Inr st'" "list_all (state_ok items) st" "distinct (map fst st)"
  shows "list_all (state_ok (items @ [item])) st' \<and> map fst st' = map fst st"
proof -
  from assms(1) obtain r key mid v hash ms where r: "item = Inr r"
      and d: "decode_message_row r = Inr (key, mid, v)" and m: "map_of st key = Some (hash, ms)"
      and time: "0 \<le> version_time v" "version_time v \<le> MAX_SAFE_JSON_INTEGER"
      and fresh: "mid \<notin> fst ` set ms" and st': "st' = put_version key mid v st"
  proof (cases item)
    case (Inr r)
    with assms(1) obtain key mid v where "decode_message_row r = Inr (key, mid, v)"
      by (cases "decode_message_row r") (auto simp: message_step_def)
    moreover from this Inr assms(1) obtain hash ms where "map_of st key = Some (hash, ms)"
      by (cases "map_of st key") (auto simp: message_step_def)
    ultimately show ?thesis
      using that Inr assms(1) by (simp add: message_step_def split: if_splits)
  qed (use assms(1) in \<open>simp add: message_step_def col_def\<close>)
  have "state_ok (items @ [item])
      (if k = key then (k, h, insort_key fst (mid, v) xs) else (k, h, xs))"
    if "(k, h, xs) \<in> set st" for k h xs
  proof (unfold r, rule state_ok_snoc [OF _ d _ time])
    show "state_ok items (k, h, xs)" using assms(2) that by (auto simp: list_all_iff)
    assume "k = key"
    with m map_of_is_SomeI [OF assms(3) that] show "mid \<notin> fst ` set xs" using fresh by simp
  qed
  then show ?thesis
    unfolding st' put_version_keys by (auto simp: put_version_def list_all_iff)
qed

lemma message_fold_ok:
  assumes "fold_rows message_step st items = Inr st'" "list_all (state_ok before) st"
    "distinct (map fst st)"
  shows "list_all (state_ok (before @ items)) st' \<and> map fst st' = map fst st"
  using assms
proof (induction items arbitrary: st before)
  case Nil
  then show ?case by simp
next
  case (Cons item items)
  from Cons.prems(1) obtain t where t: "message_step st item = Inr t" "fold_rows message_step t items = Inr st'"
    by (auto simp: and_then_Inr)
  from message_step_ok [OF t(1) Cons.prems(2,3)] Cons.IH [OF t(2), of "before @ [item]"] Cons.prems(3)
  show ?case by simp
qed

lemma topic_hash_step_ok:
  assumes "distinct (map fst st) \<and> list_all (\<lambda>(k, hash, ms). ms = []) st"
    and "topic_hash_step st r = Inr st'"
  shows "distinct (map fst st') \<and> list_all (\<lambda>(k, hash, ms). ms = []) st'"
  using assms
  by (auto simp: topic_hash_step_def and_then_Inr Let_def split: option.splits if_splits)

lemma topic_states_spec:
  assumes "get_topic_message_hashes dbg db keys = Inr states"
  shows "distinct (map fst states) \<and> set (map fst states) = set keys \<and>
    list_all topic_key_is_valid keys \<and> distinct keys \<and>
    list_all (state_ok (concat (map (mdb_messages db) (chunks (SQLITE_BIND_CHUNK div 3) keys)))) states"
proof (cases "keys = []")
  case True
  with assms show ?thesis by (simp add: get_topic_message_hashes_def)
next
  case False
  let ?cs = "chunks (SQLITE_BIND_CHUNK div 3) keys"
  from assms False obtain st where keys: "distinct keys" "list_all topic_key_is_valid keys"
      and topics: "fold_chunks (mdb_topics db) topic_hash_step [] ?cs = Inr st"
      and cover: "set (map fst st) = set keys"
      and messages: "fold_chunks (\<lambda>c. Inr (mdb_messages db c)) message_step st ?cs = Inr states"
    by (auto simp: get_topic_message_hashes_def and_then_Inr Let_def split: option.splits if_splits)
  have fresh: "distinct (map fst st) \<and> list_all (\<lambda>(k, hash, ms). ms = []) st"
    by (rule fold_chunks_inv [OF topics]) (simp, erule (1) topic_hash_step_ok)
  then have "list_all (state_ok []) st"
    by (auto simp: list_all_iff state_ok_def versions_of_def List.map_filter_def)
  from message_fold_ok [OF messages [unfolded fold_chunks_total] this] fresh keys cover
  show ?thesis by simp
qed

text \<open>
  C15. The message states sent for phase 3 are complete and exact: when they are built, every
  requested topic has exactly one entry and no other topic has one, its messages are ordered by id
  without repetition, they are exactly the versions of that topic in the database's rows, and each
  time is a non-negative JSON-safe integer. A missing or deleted topic, an unknown one, a repeated
  message or a time out of range is an error instead.
\<close>

theorem topic_states_cover_request:
  "case get_topic_message_hashes dbg db keys of
     Inl _ \<Rightarrow> keys \<noteq> []
   | Inr states \<Rightarrow> distinct (map fst states) \<and> set (map fst states) = set keys \<and>
       list_all (state_ok (concat (map (mdb_messages db) (chunks (SQLITE_BIND_CHUNK div 3) keys)))) states"
proof (cases "get_topic_message_hashes dbg db keys")
  case (Inl e)
  then have "keys \<noteq> []" by (auto simp: get_topic_message_hashes_def)
  with Inl show ?thesis by simp
next
  case (Inr states)
  with topic_states_spec [OF Inr] show ?thesis by simp
qed

end
