(* ===== verification/Sync_Attempt_Laws.thy ===== *)
theory Sync_Attempt_Laws
  imports Sync_Attempt Sync_Decision_Laws Sync_Message_Laws Sync_Pipeline_Laws "HOL-Library.Sublist"
begin

text \<open>
  What holds in every state an attempt can reach, whatever the desktop sends and however the loop,
  the tasks and the watchdogs interleave: the phases open in order and once each, and an attempt
  that ends in success has finalized every topic it asked about. Both follow from one invariant,
  \<open>attempt_inv\<close>, kept by each building block of the handlers and from there by every step.
\<close>

section \<open>Effects of a batch\<close>

text \<open>Every completion of an effect list is preceded by its mark, or marked already.\<close>

fun marked_first :: "topic_key set \<Rightarrow> batch_effect list \<Rightarrow> bool" where
  "marked_first M [] = True"
| "marked_first M (BModified t # es) = marked_first (insert t M) es"
| "marked_first M (BCompleted t quiet # es) = (t \<in> M \<and> marked_first M es)"
| "marked_first M (_ # es) = marked_first M es"

definition marks :: "batch_effect list \<Rightarrow> topic_key set" where
  "marks es = {t. BModified t \<in> set es}"

lemma marks_simps [simp]:
  "marks [] = {}" "marks (BModified t # es) = insert t (marks es)"
  "marks (BCompleted t q # es) = marks es" "marks (BFailed t # es) = marks es"
  "marks (BSoftDelete t ds # es) = marks es" "marks (BPull ps # es) = marks es"
  "marks (BWarnings n # es) = marks es" "marks (BFlush # es) = marks es"
  "marks (BPush ts # es) = marks es" "marks (BNextBatch # es) = marks es"
  "marks (es @ fs) = marks es \<union> marks fs"
  by (auto simp: marks_def)

lemma marked_first_append:
  "marked_first M (es @ fs) \<longleftrightarrow> marked_first M es \<and> marked_first (M \<union> marks es) fs"
  by (induction M es rule: marked_first.induct) simp_all

lemma marked_first_mono: "marked_first M es \<Longrightarrow> M \<subseteq> N \<Longrightarrow> marked_first N es"
  by (induction M es arbitrary: N rule: marked_first.induct) (auto intro: subset_insertI2)

lemma marked_first_no_completions: "completions es = [] \<Longrightarrow> marked_first M es"
  by (induction M es rule: marked_first.induct) (auto simp: map_filter_simps)

lemma completions_in: "t \<in> set (completions es) \<longleftrightarrow> (\<exists>q. BCompleted t q \<in> set es)"
proof (induction es)
  case Nil
  then show ?case by (simp add: map_filter_simps)
next
  case (Cons e es)
  then show ?case by (cases e) (auto simp: map_filter_simps)
qed

lemma classify_marks:
  "marked_first M (fst (classify_topics copy to_json ks w)) \<and>
   set (completions (fst (classify_topics copy to_json ks w))) \<subseteq> fst ` set ks \<and>
   (\<forall>w'. snd (classify_topics copy to_json ks w) = Inr w' \<longrightarrow>
      work_topics w' \<subseteq> work_topics w \<union> marks (fst (classify_topics copy to_json ks w))) \<and>
   marks (fst (classify_topics copy to_json ks w)) \<subseteq> fst ` set ks"
proof (induction ks arbitrary: M w)
  case Nil
  then show ?case by (simp add: map_filter_simps)
next
  case (Cons k ks)
  obtain topic result where k: "k = (topic, result)" by (cases k)
  show ?case
  proof (cases "parse_topic_decision copy to_json topic result")
    case (Inl err)
    with k show ?thesis by (simp add: map_filter_simps)
  next
    case (Inr plan)
    show ?thesis
    proof (cases "\<not> tp_push_topic plan \<and> tp_pull_message_ids plan = [] \<and> tp_delete_messages plan = []")
      case True
      with Cons.IH [of "insert topic M" w] k Inr show ?thesis
        by (auto simp: split_beta map_filter_simps)
    next
      case False
      define w1 where "w1 = w\<lparr>bw_push := (if tp_push_topic plan then bw_push w @ [topic] else bw_push w),
                  bw_pull := (if tp_pull_message_ids plan \<noteq> []
                    then bw_pull w @ [(topic, tp_pull_message_ids plan)] else bw_pull w),
                  bw_delete := (if tp_delete_messages plan \<noteq> []
                    then bw_delete w @ [(topic, tp_delete_messages plan)] else bw_delete w)\<rparr>"
      have "work_topics w1 \<subseteq> insert topic (work_topics w)" by (auto simp: w1_def work_topics_def)
      moreover have "classify_topics copy to_json (k # ks) w =
          (BModified topic # fst (classify_topics copy to_json ks w1), snd (classify_topics copy to_json ks w1))"
        unfolding w1_def using k Inr False
        by (simp only: classify_topics.simps sum.case Let_def if_False split_beta)
      ultimately show ?thesis
        using Cons.IH [of "insert topic M" w1] k by (auto simp: map_filter_simps)
    qed
  qed
qed

lemma batch_marked_first:
  assumes ord: "\<And>xs. mset (ord xs) = mset xs"
  shows "marked_first M (fst (handle_diff_batch copy to_json of_json dbg ord io expected results)) \<and>
    set (completions (fst (handle_diff_batch copy to_json of_json dbg ord io expected results))) \<subseteq> expected"
proof (cases "validate_phase3_result_topics dbg expected results")
  case (Inl message)
  then show ?thesis by (simp add: handle_diff_batch_def map_filter_simps)
next
  case v: (Inr keyed)
  then have keys: "fst ` set keyed = expected"
    unfolding phase3_result_iff by (metis list.set_map map_fst_zip length_map)
  let ?w0 = "\<lparr>bw_push = [], bw_pull = [], bw_delete = []\<rparr>"
  obtain es work where c: "classify_topics copy to_json keyed ?w0 = (es, work)"
    by (cases "classify_topics copy to_json keyed ?w0")
  have es: "marked_first M es" "set (completions es) \<subseteq> expected"
      "\<And>w. work = Inr w \<Longrightarrow> work_topics w \<subseteq> marks es \<and> work_topics w \<subseteq> expected" for M
    using classify_marks [of M copy to_json keyed ?w0] c keys by (auto simp: work_topics_def)
  have es': "marked_first M (es @ fs)" "set (completions (es @ fs)) \<subseteq> expected"
    if "completions fs = []" for fs
    using that es(1,2) by (simp_all add: marked_first_append marked_first_no_completions)
  show ?thesis
  proof (cases work)
    case (Inl err)
    then show ?thesis using es(1,2) by (simp add: handle_diff_batch_def v c)
  next
    case w: (Inr w)
    obtain ds derr where d: "run_deletes (bio_delete io) (bw_delete w) = (ds, derr)"
      by (cases "run_deletes (bio_delete io) (bw_delete w)")
    obtain ps perr where p: "run_pulls copy of_json dbg io (bw_pull w) = (ps, perr)"
      by (cases "run_pulls copy of_json dbg io (bw_pull w)")
    obtain us uerr where u: "run_pushes copy of_json dbg io (bw_push w) = (us, uerr)"
      by (cases "run_pushes copy of_json dbg io (bw_push w)")
    have quiet: "completions ds = []" "completions ps = []" "completions us = []"
      using run_deletes_effects(2) [of "bio_delete io" "bw_delete w"] d
        run_pulls_effects(2) [of copy of_json dbg io "bw_pull w"] p
        run_pushes_effects(2) [of copy of_json dbg io "bw_push w"] u by simp_all
    let ?work = "remdups (bw_push w @ map fst (bw_pull w) @ map fst (bw_delete w))"
    have work: "set (ord ?work) = work_topics w"
      using mset_eq_setD [OF ord [of ?work]] by (auto simp: work_topics_def)
    have fin: "marked_first N (map (\<lambda>t. BCompleted t False) ts) \<longleftrightarrow> set ts \<subseteq> N"
      "completions (map (\<lambda>t. BCompleted t False) ts) = ts" "completions [BNextBatch] = []" for N ts
      by (induction ts) (auto simp: map_filter_simps)
    show ?thesis
      by (cases derr; cases perr; cases uerr)
        (use es(1,2) es(3) [OF w] work in \<open>auto simp: handle_diff_batch_def v c w d p u quiet fin
          marked_first_append marked_first_no_completions simp del: set_remdups\<close>)
  qed
qed

section \<open>The invariant\<close>

definition gate_order :: "string list" where
  "gate_order = [''avatar_metadata'', ''topic_metadata'', ''topic_validation'', ''messages'', ''finalize'']"

text \<open>What a queued command of this attempt promises: the phase before its own was opened, no topic
  hashes are awaited any more when the messages start, and the finalizer is only asked for when every
  changed topic is requested and completed.\<close>

fun cmd_ok :: "u64 \<Rightarrow> string set \<Rightarrow> bool \<Rightarrow> bool \<Rightarrow> sync_command \<Rightarrow> bool" where
  "cmd_ok i gates settled complete (CmdPhase j p) = (j = i \<longrightarrow>
     (case p of StartAvatarMetadata \<Rightarrow> True
      | StartTopicMetadata \<Rightarrow> ''avatar_metadata'' \<in> gates
      | StartTopicValidation \<Rightarrow> ''topic_metadata'' \<in> gates))"
| "cmd_ok i gates settled complete (CmdStartMessages j) =
     (j = i \<longrightarrow> ''topic_validation'' \<in> gates \<and> settled)"
| "cmd_ok i gates settled complete (CmdFinalize j) = (j = i \<longrightarrow> ''messages'' \<in> gates \<and> complete)"
| "cmd_ok i gates settled complete _ = True"

definition complete :: "attempt \<Rightarrow> bool" where
  "complete a \<longleftrightarrow> at_completed a = at_requested a \<and> at_requested a = set (at_changed_topics a)"

definition cmds_ok :: "attempt \<Rightarrow> sync_command list \<Rightarrow> bool" where
  "cmds_ok a cs \<longleftrightarrow>
     list_all (cmd_ok (at_id a) (set (at_gate a)) (at_topic_pending a = None) (complete a)) cs"

definition phase_ok :: "string set \<Rightarrow> u8 \<Rightarrow> bool" where
  "phase_ok gates p \<longleftrightarrow> (p = 2 \<longrightarrow> ''avatar_metadata'' \<in> gates) \<and> (p = 3 \<longrightarrow> ''topic_metadata'' \<in> gates)"

fun task_ok :: "topic_key set \<Rightarrow> topic_key set \<Rightarrow> batch_task \<Rightarrow> bool" where
  "task_ok requested modified (BtNew _) = True"
| "task_ok requested modified (BtRun es _) =
     (marked_first modified es \<and> set (completions es) \<subseteq> requested)"

definition order_inv :: "attempt \<Rightarrow> bool" where
  "order_inv a \<longleftrightarrow> prefix (at_gate a) gate_order \<and>
     cmds_ok a (at_queue a) \<and>
     phase_ok (set (at_gate a)) (ds_phase (at_shared a)) \<and>
     (at_topic_pending a \<noteq> None \<longrightarrow> ''topic_validation'' \<in> set (at_gate a) \<and>
        ''messages'' \<notin> set (at_gate a)) \<and>
     ds_commands (at_shared a) = []"

definition topics_inv :: "attempt \<Rightarrow> bool" where
  "topics_inv a \<longleftrightarrow> (''messages'' \<notin> set (at_gate a) \<longrightarrow> at_requested a = {}) \<and>
     (at_requested a \<noteq> {} \<longrightarrow> at_requested a = set (at_changed_topics a)) \<and>
     finite (at_requested a) \<and> at_total a = card (at_requested a) \<and>
     at_completed a \<subseteq> at_requested a \<and> at_completed a \<subseteq> at_modified a \<and>
     at_expected a \<subseteq> at_requested a \<and>
     list_all (\<lambda>b. set (db_keys b) \<subseteq> at_requested a) (at_batches a) \<and>
     list_all (task_ok (at_requested a) (at_modified a)) (at_tasks a)"

definition end_inv :: "attempt \<Rightarrow> bool" where
  "end_inv a \<longleftrightarrow>
     (at_finalized a \<noteq> None \<longrightarrow> ''finalize'' \<in> set (at_gate a) \<and>
        complete a \<and> at_requested a \<subseteq> the (at_finalized a)) \<and>
     (at_ack a \<noteq> None \<longrightarrow> at_finalized a \<noteq> None) \<and>
     (at_end a = Some EndSuccess \<longrightarrow> at_finalized a \<noteq> None)"

definition attempt_inv :: "attempt \<Rightarrow> bool" where
  "attempt_inv a \<longleftrightarrow> order_inv a \<and> topics_inv a \<and> end_inv a"

lemmas attempt_inv_defs = attempt_inv_def order_inv_def topics_inv_def end_inv_def

section \<open>The building blocks keep it\<close>

lemma cmd_ok_mono:
  "cmd_ok i G s d c \<Longrightarrow> G \<subseteq> H \<Longrightarrow> (''topic_validation'' \<in> G \<Longrightarrow> s \<Longrightarrow> t) \<Longrightarrow>
   (''messages'' \<in> G \<Longrightarrow> d \<Longrightarrow> e) \<Longrightarrow> cmd_ok i H t e c"
  by (induction i G s d c rule: cmd_ok.induct) (auto split: phase_command.splits)

lemma cmds_ok_mono:
  "cmds_ok a cs \<Longrightarrow> at_id b = at_id a \<Longrightarrow> set (at_gate a) \<subseteq> set (at_gate b) \<Longrightarrow>
   (''topic_validation'' \<in> set (at_gate a) \<Longrightarrow> at_topic_pending a = None \<Longrightarrow> at_topic_pending b = None) \<Longrightarrow>
   (''messages'' \<in> set (at_gate a) \<Longrightarrow> complete a \<Longrightarrow> complete b) \<Longrightarrow> cmds_ok b cs"
proof (unfold cmds_ok_def list_all_iff, rule ballI)
  fix c
  assume "\<forall>c \<in> set cs. cmd_ok (at_id a) (set (at_gate a)) (at_topic_pending a = None) (complete a) c"
    and c: "c \<in> set cs" and b: "at_id b = at_id a" "set (at_gate a) \<subseteq> set (at_gate b)"
    "''topic_validation'' \<in> set (at_gate a) \<Longrightarrow> at_topic_pending a = None \<Longrightarrow> at_topic_pending b = None"
    "''messages'' \<in> set (at_gate a) \<Longrightarrow> complete a \<Longrightarrow> complete b"
  then have "cmd_ok (at_id a) (set (at_gate a)) (at_topic_pending a = None) (complete a) c" by blast
  with b show "cmd_ok (at_id b) (set (at_gate b)) (at_topic_pending b = None) (complete b) c"
    by (simp only: b(1)) (rule cmd_ok_mono)
qed

lemma cmds_ok_list [simp]:
  "cmds_ok a []"
  "cmds_ok a (c # cs) \<longleftrightarrow>
     cmd_ok (at_id a) (set (at_gate a)) (at_topic_pending a = None) (complete a) c \<and> cmds_ok a cs"
  by (simp_all add: cmds_ok_def)

lemma cmds_ok_append [simp]: "cmds_ok a (cs @ ds) \<longleftrightarrow> cmds_ok a cs \<and> cmds_ok a ds"
  by (simp add: cmds_ok_def)

lemma same_but_sent:
  fixes b c :: attempt
  assumes "c\<lparr>at_sent := []\<rparr> = b\<lparr>at_sent := []\<rparr>"
  obtains s where "c = b\<lparr>at_sent := s\<rparr>"
proof -
  have "c = c\<lparr>at_sent := []\<rparr>\<lparr>at_sent := at_sent c\<rparr>" by simp
  also have "\<dots> = b\<lparr>at_sent := at_sent c\<rparr>" unfolding assms by simp
  finally show ?thesis by (rule that)
qed

text \<open>Completeness and the promises of commands depend on few fields of the attempt.\<close>

lemma complete_updates [simp]:
  "complete (a\<lparr>at_sent := x0\<rparr>) \<longleftrightarrow> complete a" "complete (a\<lparr>at_queue := x1\<rparr>) \<longleftrightarrow> complete a"
  "complete (a\<lparr>at_shared := x2\<rparr>) \<longleftrightarrow> complete a" "complete (a\<lparr>at_ack := x3\<rparr>) \<longleftrightarrow> complete a"
  "complete (a\<lparr>at_end := x4\<rparr>) \<longleftrightarrow> complete a" "complete (a\<lparr>at_watchers := x5\<rparr>) \<longleftrightarrow> complete a"
  "complete (a\<lparr>at_workers := x6\<rparr>) \<longleftrightarrow> complete a" "complete (a\<lparr>at_kickoff := x7\<rparr>) \<longleftrightarrow> complete a"
  "complete (a\<lparr>at_inflight := x8\<rparr>) \<longleftrightarrow> complete a" "complete (a\<lparr>at_failed := x9\<rparr>) \<longleftrightarrow> complete a"
  "complete (a\<lparr>at_batches := x10\<rparr>) \<longleftrightarrow> complete a" "complete (a\<lparr>at_expected := x11\<rparr>) \<longleftrightarrow> complete a"
  "complete (a\<lparr>at_tasks := x12\<rparr>) \<longleftrightarrow> complete a" "complete (a\<lparr>at_finalized := x13\<rparr>) \<longleftrightarrow> complete a"
  "complete (a\<lparr>at_modified := x14\<rparr>) \<longleftrightarrow> complete a" "complete (a\<lparr>at_total := x15\<rparr>) \<longleftrightarrow> complete a"
  "complete (a\<lparr>at_topic_pending := x16\<rparr>) \<longleftrightarrow> complete a" "complete (a\<lparr>at_gate := x17\<rparr>) \<longleftrightarrow> complete a"
  by (simp_all add: complete_def)

lemma cmds_ok_updates [simp]:
  "cmds_ok (a\<lparr>at_sent := x0\<rparr>) cs \<longleftrightarrow> cmds_ok a cs" "cmds_ok (a\<lparr>at_queue := x1\<rparr>) cs \<longleftrightarrow> cmds_ok a cs"
  "cmds_ok (a\<lparr>at_shared := x2\<rparr>) cs \<longleftrightarrow> cmds_ok a cs" "cmds_ok (a\<lparr>at_ack := x3\<rparr>) cs \<longleftrightarrow> cmds_ok a cs"
  "cmds_ok (a\<lparr>at_end := x4\<rparr>) cs \<longleftrightarrow> cmds_ok a cs" "cmds_ok (a\<lparr>at_watchers := x5\<rparr>) cs \<longleftrightarrow> cmds_ok a cs"
  "cmds_ok (a\<lparr>at_workers := x6\<rparr>) cs \<longleftrightarrow> cmds_ok a cs" "cmds_ok (a\<lparr>at_kickoff := x7\<rparr>) cs \<longleftrightarrow> cmds_ok a cs"
  "cmds_ok (a\<lparr>at_inflight := x8\<rparr>) cs \<longleftrightarrow> cmds_ok a cs" "cmds_ok (a\<lparr>at_failed := x9\<rparr>) cs \<longleftrightarrow> cmds_ok a cs"
  "cmds_ok (a\<lparr>at_batches := x10\<rparr>) cs \<longleftrightarrow> cmds_ok a cs" "cmds_ok (a\<lparr>at_expected := x11\<rparr>) cs \<longleftrightarrow> cmds_ok a cs"
  "cmds_ok (a\<lparr>at_tasks := x12\<rparr>) cs \<longleftrightarrow> cmds_ok a cs" "cmds_ok (a\<lparr>at_finalized := x13\<rparr>) cs \<longleftrightarrow> cmds_ok a cs"
  "cmds_ok (a\<lparr>at_modified := x14\<rparr>) cs \<longleftrightarrow> cmds_ok a cs" "cmds_ok (a\<lparr>at_total := x15\<rparr>) cs \<longleftrightarrow> cmds_ok a cs"
  by (simp_all add: cmds_ok_def)

lemma cmd_ok_next_phase:
  "phase_ok G p \<Longrightarrow> next_manifest_command p = Some c \<Longrightarrow> cmd_ok i G s d (CmdPhase j c)"
  by (auto simp: phase_ok_def next_manifest_command_def split: if_splits)

lemma untouched [simp]:
  "at_gate (enqueue c a) = at_gate a" "at_gate (set_phase p a) = at_gate a"
  "at_requested (enqueue c a) = at_requested a" "at_modified (enqueue c a) = at_modified a"
  "at_finalized (set_phase p a) = at_finalized a" "at_tasks (enqueue c a) = at_tasks a"
  "at_topic_pending (set_phase p a) = at_topic_pending a"
  by (simp_all add: enqueue_def set_phase_def)

lemma inv_enqueue [simp]:
  "attempt_inv (enqueue c a) \<longleftrightarrow> attempt_inv a \<and> cmds_ok a [c]"
  unfolding attempt_inv_defs enqueue_def by simp blast

lemma inv_fail [simp]: "attempt_inv (fail_attempt code message ids a) \<longleftrightarrow> attempt_inv a"
  by (simp add: fail_attempt_def cmds_ok_def)

lemma inv_end: "attempt_inv a \<Longrightarrow> e \<noteq> EndSuccess \<or> at_finalized a \<noteq> None \<Longrightarrow> attempt_inv (end_attempt e a)"
  by (auto simp: attempt_inv_defs end_attempt_def)

lemma inv_phase: "attempt_inv a \<Longrightarrow> phase_ok (set (at_gate a)) p \<Longrightarrow> attempt_inv (set_phase p a)"
  by (auto simp: attempt_inv_defs set_phase_def)

lemma inv_irrelevant [simp]:
  "attempt_inv (reset_counters a) \<longleftrightarrow> attempt_inv a"
  "attempt_inv (spawn_watcher w a) \<longleftrightarrow> attempt_inv a"
  "attempt_inv (a\<lparr>at_sent := s\<rparr>) \<longleftrightarrow> attempt_inv a"
  "attempt_inv (a\<lparr>at_watchers := ws\<rparr>) \<longleftrightarrow> attempt_inv a"
  "attempt_inv (a\<lparr>at_workers := wks\<rparr>) \<longleftrightarrow> attempt_inv a"
  "attempt_inv (a\<lparr>at_kickoff := k\<rparr>) \<longleftrightarrow> attempt_inv a"
  "attempt_inv (a\<lparr>at_inflight := f\<rparr>) \<longleftrightarrow> attempt_inv a"
  "attempt_inv (a\<lparr>at_failed := fs\<rparr>) \<longleftrightarrow> attempt_inv a"
  by (simp_all add: attempt_inv_defs reset_counters_def spawn_watcher_def)

lemma inv_send_frames:
  "attempt_inv a \<Longrightarrow> (\<And>s. attempt_inv (k (a\<lparr>at_sent := s\<rparr>))) \<Longrightarrow> attempt_inv (send_frames env i fs k a)"
proof (induction env i fs k a rule: send_frames.induct)
  case (1 env i k a)
  from 1(2) [of "at_sent a"] show ?case by simp
next
  case (2 env i f fs k a)
  then show ?case by (simp add: inv_end)
qed

declare send_frames.simps [simp del]

lemma inv_arm_manifest:
  "attempt_inv a \<Longrightarrow> (\<And>tr. attempt_inv (k (a\<lparr>at_shared := (at_shared a)\<lparr>ds_tracker := tr\<rparr>\<rparr>))) \<Longrightarrow>
   attempt_inv (arm_manifest p mt k a)"
  by (simp add: arm_manifest_def split: prod.splits sum.splits)

lemma inv_tracker [simp]:
  "attempt_inv (a\<lparr>at_shared := (at_shared a)\<lparr>ds_tracker := tr\<rparr>\<rparr>) \<longleftrightarrow> attempt_inv a"
  by (simp add: attempt_inv_defs)

lemma inv_gate:
  assumes a: "attempt_inv a" and p: "prefix (at_gate a @ [g]) gate_order"
    and g: "g = ''messages'' \<Longrightarrow> at_topic_pending a = None"
  shows "attempt_inv (a\<lparr>at_gate := at_gate a @ [g]\<rparr>)"
proof -
  have "cmds_ok (a\<lparr>at_gate := at_gate a @ [g]\<rparr>) (at_queue a)"
    by (rule cmds_ok_mono [of a]) (use a in \<open>auto simp: attempt_inv_defs\<close>)
  with a p g show ?thesis
    by (auto simp: attempt_inv_defs phase_ok_def)
qed

lemma prefix_extend:
  assumes "prefix gs xs" "distinct xs" "i < length xs" "xs ! i \<notin> set gs"
    and "i = 0 \<or> xs ! (i - 1) \<in> set gs"
  shows "prefix (gs @ [xs ! i]) xs"
proof -
  let ?n = "length gs"
  from assms(1) have gs: "gs = take ?n xs" "?n \<le> length xs"
    by (auto simp: prefix_def)
  have "?n \<le> i"
  proof (rule ccontr)
    assume "\<not> ?n \<le> i"
    then have "xs ! i \<in> set (take ?n xs)" using assms(3) by (auto simp: in_set_conv_nth)
    with gs assms(4) show False by simp
  qed
  moreover have "i \<le> ?n"
  proof (rule ccontr)
    assume "\<not> i \<le> ?n"
    then have "xs ! (i - 1) \<in> set (take ?n xs)" "?n \<le> i - 1" "i - 1 < length xs"
      using assms(3,5) gs by auto
    with assms(2) show False by (auto simp: in_set_conv_nth nth_eq_iff_index_eq)
  qed
  ultimately have "gs @ [xs ! i] = take (Suc i) xs"
    using gs assms(3) by (simp add: take_Suc_conv_app_nth)
  then show ?thesis by (simp add: take_is_prefix)
qed

lemma gate_order_distinct: "distinct gate_order" "length gate_order = 5"
  by (simp_all add: gate_order_def)

lemma inv_open:
  assumes "attempt_inv a" and "open_gate (gate_order ! i) a = Some b" and "i < 5"
    and "i = 0 \<or> gate_order ! (i - 1) \<in> set (at_gate a)"
    and pend: "gate_order ! i = ''messages'' \<Longrightarrow> at_topic_pending a = None"
  shows "attempt_inv b" "b = a\<lparr>at_gate := at_gate a @ [gate_order ! i]\<rparr>"
    "gate_order ! i \<notin> set (at_gate a)"
proof -
  from assms(2) show b: "b = a\<lparr>at_gate := at_gate a @ [gate_order ! i]\<rparr>"
      and n: "gate_order ! i \<notin> set (at_gate a)"
    by (auto simp: open_gate_def split: if_splits)
  have "prefix (at_gate a) gate_order" using assms(1) by (simp add: attempt_inv_defs)
  from prefix_extend [OF this gate_order_distinct(1) _ n] assms(3,4)
  have "prefix (at_gate a @ [gate_order ! i]) gate_order" by (simp add: gate_order_distinct)
  from inv_gate [OF assms(1) this pend] b show "attempt_inv b" by simp
qed

lemma gate_before:
  assumes "prefix gs gate_order" "gate_order ! j \<in> set gs" "i < j" "j < 5"
  shows "gate_order ! i \<in> set gs"
proof -
  let ?n = "length gs"
  from prefix_length_le [OF assms(1)] assms(1) have gs: "gs = take ?n gate_order" "?n \<le> 5"
    by (simp_all add: gate_order_distinct) (metis append_eq_conv_conj prefixE)
  have nth: "gs ! k = gate_order ! k" if "k < ?n" for k
    using nth_take [OF that, of gate_order] gs(1) by simp
  with assms(2) obtain k where "k < ?n" "gate_order ! k = gate_order ! j"
    by (metis in_set_conv_nth)
  then have "j < ?n"
    using assms(4) gs(2) gate_order_distinct by (auto simp: nth_eq_iff_index_eq)
  then have "i < ?n" using assms(3) by simp
  with nth [OF this] nth_mem [OF this] show ?thesis by simp
qed

lemma gate_names:
  "gate_order ! 0 = ''avatar_metadata''" "gate_order ! 1 = ''topic_metadata''"
  "gate_order ! 2 = ''topic_validation''" "gate_order ! 3 = ''messages''"
  "gate_order ! 4 = ''finalize''"
  by (simp_all add: gate_order_def numeral_eq_Suc)

lemma opens:
  assumes "attempt_inv a" and "open_gate g a = Some b"
    and "g = ''avatar_metadata'' \<or> g = ''topic_metadata'' \<and> ''avatar_metadata'' \<in> set (at_gate a) \<or>
      g = ''topic_validation'' \<and> ''topic_metadata'' \<in> set (at_gate a) \<or>
      g = ''messages'' \<and> ''topic_validation'' \<in> set (at_gate a) \<and> at_topic_pending a = None \<or>
      g = ''finalize'' \<and> ''messages'' \<in> set (at_gate a)"
  shows "attempt_inv b \<and> b = a\<lparr>at_gate := at_gate a @ [g]\<rparr> \<and> g \<notin> set (at_gate a)"
proof -
  from assms(3) obtain i where "i < 5" "g = gate_order ! i" "i = 0 \<or> gate_order ! (i - 1) \<in> set (at_gate a)"
  proof (elim disjE conjE, goal_cases)
    case 1
    from 1(1) [of 0] 1(2) show ?case by (simp add: gate_names(1))
  next
    case 2
    from 2(1) [of 1] 2(2,3) show ?case by (simp add: gate_names(1) gate_names(2) [simplified])
  next
    case 3
    from 3(1) [of 2] 3(2,3) show ?case by (simp add: gate_names(2) [simplified] gate_names(3))
  next
    case 4
    from 4(1) [of 3] 4(2,3) show ?case by (simp add: gate_names(3,4))
  next
    case 5
    from 5(1) [of 4] 5(2,3) show ?case by (simp add: gate_names(4,5))
  qed
  moreover have "g = ''messages'' \<Longrightarrow> at_topic_pending a = None" using assms(3) by auto
  ultimately show ?thesis using inv_open [OF assms(1), of i b] assms(2) by simp
qed

section \<open>The handlers keep it\<close>

lemmas frame_handlers = batch_finished_def handle_sync_error_def handle_message_diff_def
  handle_topic_diff_def handle_phase_ack_def handle_close_def

declare frame_handlers [simp]

lemma inv_kickoff: "attempt_inv a \<Longrightarrow> attempt_inv (kickoff env a)"
  by (auto simp: kickoff_def Let_def phase_ok_def split: option.splits
      intro!: inv_arm_manifest inv_send_frames inv_phase)

lemma inv_start_avatar: 
  assumes "attempt_inv a" shows "attempt_inv (start_avatar_metadata env a)"
proof (cases "open_gate ''avatar_metadata'' a")
  case None
  with assms show ?thesis by (simp add: start_avatar_metadata_def)
next
  case (Some b)
  from opens [OF assms Some] have b: "attempt_inv b" "phase_ok (set (at_gate b)) 2"
    by (auto simp: phase_ok_def)
  then have "attempt_inv (set_phase 2 b)" by (rule inv_phase)
  with b show ?thesis
    by (auto simp: start_avatar_metadata_def Some inv_end split: option.splits
        intro!: inv_arm_manifest inv_send_frames)
qed

lemma inv_start_topic_metadata:
  assumes "attempt_inv a" and "''avatar_metadata'' \<in> set (at_gate a)"
  shows "attempt_inv (start_topic_metadata env a)"
proof (cases "open_gate ''topic_metadata'' a")
  case None
  with assms show ?thesis by (simp add: start_topic_metadata_def)
next
  case (Some b)
  from opens [OF assms(1) Some] assms(2)
  have b: "attempt_inv b" "phase_ok (set (at_gate b)) 3" "''topic_metadata'' \<in> set (at_gate b)"
    by (auto simp: phase_ok_def)
  then have "attempt_inv (set_phase 3 (b\<lparr>at_sent := s\<rparr>))" for s by (intro inv_phase) simp_all
  with b show ?thesis
    by (auto simp: start_topic_metadata_def Some inv_end split: option.splits sum.splits
        intro!: inv_arm_manifest inv_send_frames)
qed

lemma inv_settle: "attempt_inv a \<Longrightarrow> attempt_inv (a\<lparr>at_topic_pending := None\<rparr>)"
  using cmds_ok_mono [of a "at_queue a" "a\<lparr>at_topic_pending := None\<rparr>"]
  by (simp add: attempt_inv_defs)

lemma gates_after:
  assumes "attempt_inv a"
  shows "''messages'' \<in> set (at_gate a) \<Longrightarrow> ''topic_validation'' \<in> set (at_gate a)"
    "''finalize'' \<in> set (at_gate a) \<Longrightarrow> ''messages'' \<in> set (at_gate a)"
  using assms gate_before [of "at_gate a" 3 2] gate_before [of "at_gate a" 4 3]
  by (simp_all add: attempt_inv_defs gate_names)

lemma inv_stage:
  assumes a: "attempt_inv a" and new: "''topic_validation'' \<notin> set (at_gate a)"
    and b: "b = a\<lparr>at_gate := at_gate a @ [''topic_validation'']\<rparr>" "attempt_inv b"
    and c: "c\<lparr>at_sent := []\<rparr> = b\<lparr>at_sent := []\<rparr>"
  shows "attempt_inv (c\<lparr>at_topic_pending := pend\<rparr>)"
proof -
  from same_but_sent [OF c] obtain s where c: "c = b\<lparr>at_sent := s\<rparr>" .
  have "''messages'' \<notin> set (at_gate a)" using gates_after(1) [OF a] new by auto
  moreover have "cmds_ok (c\<lparr>at_topic_pending := pend\<rparr>) (at_queue a)"
    by (rule cmds_ok_mono [of a]) (use a b new c in \<open>auto simp: attempt_inv_defs\<close>)
  ultimately show ?thesis using b c by (auto simp: attempt_inv_defs)
qed

lemma inv_start_topic_validation:
  assumes "attempt_inv a" and "''topic_metadata'' \<in> set (at_gate a)"
  shows "attempt_inv (start_topic_validation env a)"
proof (cases "open_gate ''topic_validation'' a")
  case None
  with assms show ?thesis by (simp add: start_topic_validation_def)
next
  case (Some b)
  have "attempt_inv b \<and> b = a\<lparr>at_gate := at_gate a @ [''topic_validation'']\<rparr> \<and>
      ''topic_validation'' \<notin> set (at_gate a)"
    by (rule opens [OF assms(1) Some]) (simp add: assms(2))
  then have b: "attempt_inv b" "b = a\<lparr>at_gate := at_gate a @ [''topic_validation'']\<rparr>"
    "''topic_validation'' \<notin> set (at_gate a)" by blast+
  then have tv: "''topic_validation'' \<in> set (at_gate b)" by simp
  have phase: "attempt_inv (set_phase 4 c)" "''topic_validation'' \<in> set (at_gate c)"
    if "c\<lparr>at_sent := []\<rparr> = b\<lparr>at_sent := []\<rparr>" for c
    by (rule same_but_sent [OF that], use b(1) tv in \<open>auto intro!: inv_phase simp: phase_ok_def\<close>)+
  have staged: "at_topic_pending c = None" if "stage_topic_diff_request (at_topic_pending c) e h = (p, Inr r)"
    for c e h p r
    using that by (simp add: stage_topic_diff_request_def split: if_splits)
  show ?thesis
    using b(1) tv staged
    by (auto simp: start_topic_validation_def Some inv_end phase split: option.splits sum.splits prod.splits
        intro!: inv_send_frames inv_stage [OF assms(1) b(3,2,1)] phase)
qed

text \<open>Opening the messages phase: nothing was requested before, so no task, command or finalizer
  depends on the counters that are reset.\<close>

definition reset_topics :: "topic_key set \<Rightarrow> attempt \<Rightarrow> attempt" where
  "reset_topics R a = a\<lparr>at_total := card R, at_completed := {}, at_modified := {}, at_failed := {},
     at_batches := [], at_requested := R\<rparr>"

lemma inv_reset_topics:
  assumes a: "attempt_inv a" and new: "''messages'' \<notin> set (at_gate a)"
    and b: "b = a\<lparr>at_gate := at_gate a @ [''messages'']\<rparr>" "attempt_inv b"
    and R: "R = set (at_changed_topics a)"
  shows "attempt_inv (reset_topics R (b\<lparr>at_sent := s\<rparr>))"
proof -
  have none: "at_requested a = {}" "at_finalized a = None" "at_ack a = None" "at_end a \<noteq> Some EndSuccess"
      "at_expected a = {}"
    using a new gates_after [OF a] by (auto simp: attempt_inv_defs)
  have "cmds_ok (reset_topics R (b\<lparr>at_sent := s\<rparr>)) (at_queue a)"
    by (rule cmds_ok_mono [of a])
      (use a new b(1) in \<open>auto simp: attempt_inv_defs reset_topics_def\<close>)
  moreover have "list_all (task_ok R {}) (at_tasks b)"
  proof -
    have "task_ok {} M t \<Longrightarrow> task_ok R {} t" for M t
      by (cases t) (auto intro: marked_first_no_completions)
    moreover have "list_all (task_ok {} (at_modified a)) (at_tasks b)"
      using a none b(1) by (simp add: attempt_inv_defs)
    ultimately show ?thesis by (auto simp: list_all_iff)
  qed
  ultimately show ?thesis
    using b none R by (auto simp: attempt_inv_defs reset_topics_def)
qed

lemma inv_batches:
  "attempt_inv a \<Longrightarrow> list_all (\<lambda>b. set (db_keys b) \<subseteq> at_requested a) bs \<Longrightarrow> E \<subseteq> at_requested a \<Longrightarrow>
   attempt_inv (a\<lparr>at_batches := bs, at_expected := E\<rparr>)"
  by (simp add: attempt_inv_defs)

lemma batch_keys:
  assumes "build_diff_batches states = Inr bs"
  shows "list_all (\<lambda>b. set (db_keys b) \<subseteq> fst ` set states) bs"
proof -
  have "concat (map db_keys bs) = map fst (sort_key fst states)"
    using build_diff_batches_spec [of states] assms by simp
  then have "set (concat (map db_keys bs)) = fst ` set states" by simp
  then show ?thesis by (auto simp: list_all_iff)
qed

lemma inv_start_messages:
  assumes a: "attempt_inv a" and prev: "''topic_validation'' \<in> set (at_gate a)"
    and settled: "at_topic_pending a = None"
  shows "attempt_inv (start_messages cfg env a)"
proof (cases "open_gate ''messages'' a")
  case None
  with a show ?thesis by (simp add: start_messages_def)
next
  case (Some b)
  let ?get = "get_topic_message_hashes (cfg_dbg cfg) (me_db env) (at_changed_topics a)"
  from opens [OF a Some] prev settled
  have b: "attempt_inv b" "b = a\<lparr>at_gate := at_gate a @ [''messages'']\<rparr>"
    "''messages'' \<notin> set (at_gate a)" by auto
  have final: "cmds_ok b [CmdFinalize i]" if "at_changed_topics b = []" for i
    using a b that by (auto simp: attempt_inv_defs complete_def)
  have first: "attempt_inv (c\<lparr>at_total := length states, at_completed := {},
        at_modified := {}, at_failed := {}, at_batches := [], at_requested := fst ` set states\<rparr>)"
      if "?get = Inr states" "c\<lparr>at_sent := []\<rparr> = b\<lparr>at_sent := []\<rparr>" for c states
  proof -
    from same_but_sent [OF that(2)] obtain s where c: "c = b\<lparr>at_sent := s\<rparr>" .
    have keys: "distinct (map fst states)" "set (map fst states) = set (at_changed_topics a)"
      using topic_states_spec [OF that(1)] by simp_all
    show ?thesis
      using inv_reset_topics [OF a b(3,2,1), of "fst ` set states" s] keys distinct_card [OF keys(1)]
      by (simp add: reset_topics_def c)
  qed
  have batches: "attempt_inv (c\<lparr>at_total := length states, at_completed := {},
        at_modified := {}, at_failed := {}, at_requested := fst ` set states, at_batches := rest,
        at_expected := set (db_keys x)\<rparr>)"
      if "?get = Inr states" "c\<lparr>at_sent := []\<rparr> = b\<lparr>at_sent := []\<rparr>"
        "build_diff_batches states = Inr (x # rest)"
      for c states x rest
    using inv_batches [OF first [OF that(1,2)], where bs = rest and E = "set (db_keys x)"]
      batch_keys [OF that(3)] by simp
  have get: "get_topic_message_hashes (cfg_dbg cfg) (me_db env) (at_changed_topics b) = ?get"
    using b(2) by simp
  show ?thesis
    using b(1) final
    by (auto simp: start_messages_def Some Let_def get split: sum.splits list.splits
        intro!: inv_send_frames first batches)
qed

lemma inv_finalize:
  assumes a: "attempt_inv a" and prev: "''messages'' \<in> set (at_gate a)"
    and complete: "complete a"
  shows "attempt_inv (finalize_attempt env a)"
proof (cases "open_gate ''finalize'' a")
  case None
  with a show ?thesis by (simp add: finalize_attempt_def)
next
  case (Some b)
  have "attempt_inv b \<and> b = a\<lparr>at_gate := at_gate a @ [''finalize'']\<rparr> \<and> ''finalize'' \<notin> set (at_gate a)"
    by (rule opens [OF a Some]) (simp add: prev)
  then have inv: "attempt_inv b" and eq: "b = a\<lparr>at_gate := at_gate a @ [''finalize'']\<rparr>" by blast+
  have b: "attempt_inv b" "''finalize'' \<in> set (at_gate b)" "complete b"
    by (rule inv) (simp_all add: eq complete)
  have "at_requested b \<subseteq> at_modified b"
    using b(1,3) by (simp add: attempt_inv_def topics_inv_def complete_def)
  with b have "attempt_inv (b\<lparr>at_finalized := Some (at_modified b)\<rparr>)"
    "attempt_inv (b\<lparr>at_finalized := Some (at_modified b), at_sent := s, at_ack := k\<rparr>)" for s k
    by (simp_all add: attempt_inv_defs)
  with b show ?thesis
    by (auto simp: finalize_attempt_def Some Let_def inv_end split: option.splits
        intro!: inv_send_frames)
qed

lemma inv_end_failed: "attempt_inv a \<Longrightarrow> attempt_inv (end_failed cfg code message a)"
  by (auto simp: end_failed_def inv_end split: option.splits)

lemma inv_command:
  assumes "attempt_inv (a\<lparr>at_queue := c # rest\<rparr>)"
  shows "attempt_inv (handle_command cfg env c (a\<lparr>at_queue := rest\<rparr>))"
proof -
  let ?a = "a\<lparr>at_queue := rest\<rparr>"
  have a: "attempt_inv ?a" "cmds_ok ?a [c]"
    using assms by (simp_all add: attempt_inv_defs)
  show ?thesis
  proof (cases c)
    case (CmdPhase i p)
    with a show ?thesis
      by (cases p) (simp_all add: inv_start_avatar inv_start_topic_metadata inv_start_topic_validation)
  next
    case (CmdStartMessages i)
    with a show ?thesis by (simp add: inv_start_messages)
  next
    case (CmdFinalize i)
    with a show ?thesis by (simp add: inv_finalize)
  qed (use a in \<open>auto simp: Let_def inv_end_failed split: option.splits intro!: inv_send_frames\<close>)
qed

section \<open>Frames, tasks and watchdogs keep it\<close>

text \<open>The manifest handler leaves the phase alone and sends at most the command of the phase.\<close>

lemma handle_diff_commands:
  assumes "handle_diff frm sh = (sh', r)" and "ds_commands sh = []"
  shows "ds_phase sh' = ds_phase sh \<and>
    (ds_commands sh' = [] \<or> (\<exists>c. next_manifest_command (ds_phase sh) = Some c \<and> ds_commands sh' = [c]))"
  using assms
  by (auto simp: handle_diff_def Let_def split_beta split: sum.splits prod.splits option.splits if_splits)

lemma inv_handle_manifest:
  assumes "attempt_inv a"
  shows "attempt_inv (handle_manifest frm a)"
proof -
  obtain sh r where h: "handle_diff frm (at_shared a) = (sh, r)" by (cases "handle_diff frm (at_shared a)")
  have inv: "ds_commands (at_shared a) = []" "phase_ok (set (at_gate a)) (ds_phase (at_shared a))"
    using assms by (simp_all add: attempt_inv_defs)
  from handle_diff_commands [OF h inv(1)] cmd_ok_next_phase [OF inv(2)]
  have "cmds_ok a (map (CmdPhase (at_id a)) (ds_commands sh)) \<and> ds_phase sh = ds_phase (at_shared a)"
    unfolding cmds_ok_def by auto
  then have "attempt_inv (a\<lparr>at_shared := sh\<lparr>ds_commands := []\<rparr>,
      at_queue := at_queue a @ map (CmdPhase (at_id a)) (ds_commands sh)\<rparr>)"
    using assms by (simp add: attempt_inv_defs)
  then show ?thesis by (auto simp: handle_manifest_def h Let_def split: sum.splits)
qed

lemma inv_handle_frame:
  assumes a: "attempt_inv a"
  shows "attempt_inv (handle_frame cfg env f a)"
proof (cases f)
  case (InManifest r)
  with a show ?thesis by (auto simp: inv_handle_manifest split: sum.splits)
next
  case (InMessageDiff r)
  have "attempt_inv (a\<lparr>at_inflight := True, at_tasks := at_tasks a @ [BtNew results]\<rparr>)" for results
    using a by (simp add: attempt_inv_defs)
  with a InMessageDiff show ?thesis by (auto simp: inv_end split: sum.splits)
next
  case (InTopicDiff r)
  obtain pend parsed where t: "topic_diff_result (at_topic_pending a) r = (pend, parsed)"
    by (cases "topic_diff_result (at_topic_pending a) r")
  have idle: "attempt_inv ((set_phase 4 a)\<lparr>at_topic_pending := pend\<rparr>)"
    using inv_settle [OF inv_phase [OF a], of 4] t by (auto simp: phase_ok_def topic_diff_result_def)
  have "attempt_inv ((set_phase 4 a)\<lparr>at_topic_pending := pend, at_changed_topics := changed\<rparr>) \<and>
      ''topic_validation'' \<in> set (at_gate a) \<and> pend = None" if "parsed = Inr changed" for changed
  proof -
    have waiting: "at_topic_pending a \<noteq> None" "pend = None"
      using t that by (auto simp: topic_diff_result_def split: option.splits)
    then have gates: "''topic_validation'' \<in> set (at_gate a)" "''messages'' \<notin> set (at_gate a)"
      using a by (auto simp: attempt_inv_defs)
    let ?b = "(set_phase 4 a)\<lparr>at_topic_pending := None\<rparr>"
    have "cmds_ok (?b\<lparr>at_changed_topics := changed\<rparr>) (at_queue ?b)"
      by (rule cmds_ok_mono [of ?b]) (use idle gates in \<open>auto simp: attempt_inv_defs waiting\<close>)
    moreover have "at_requested ?b = {}" "at_finalized ?b = None"
      using idle gates gates_after [OF a] by (auto simp: attempt_inv_defs waiting)
    ultimately show ?thesis using idle gates waiting by (simp add: attempt_inv_defs)
  qed
  then show ?thesis
    using InTopicDiff t idle by (auto simp: Let_def split: sum.splits)
next
  case (InPhaseAck r)
  have acked: "attempt_inv (a\<lparr>at_ack := slot\<rparr>)" "acc \<Longrightarrow> at_finalized a \<noteq> None"
    if "consume_final_ack (at_ack a) ack = (slot, acc)" for ack slot acc
    using a that by (auto simp: consume_final_ack_def attempt_inv_defs split: option.splits if_splits)
  have "attempt_inv (end_attempt e (set_phase 0 (a\<lparr>at_ack := slot\<rparr>)))"
    if "consume_final_ack (at_ack a) ack = (slot, True)" for ack slot e
    using acked [OF that] by (auto intro!: inv_end inv_phase simp: phase_ok_def)
  with acked InPhaseAck a show ?thesis
    by (auto simp: Let_def split: sum.splits prod.splits option.splits)
qed (use a in \<open>auto simp: inv_end inv_end_failed split: sum.splits option.splits\<close>)

lemma inv_run_worker: "attempt_inv a \<Longrightarrow> attempt_inv (run_worker i a)"
proof -
  assume a: "attempt_inv a"
  then have "phase_ok (set (at_gate a)) (ds_phase (at_shared a))" by (simp add: attempt_inv_defs)
  note cmd = cmd_ok_next_phase [OF this]
  have pend: "attempt_inv (a\<lparr>at_shared := (at_shared a)\<lparr>ds_pending := n\<rparr>\<rparr>)" for n
    using a by (simp add: attempt_inv_defs)
  show ?thesis
    unfolding run_worker_def Let_def using a cmd pend
    by (auto split: list.splits op_instr.splits option.splits)
qed

lemma inv_fail_worker: "attempt_inv a \<Longrightarrow> attempt_inv (fail_worker i k err a)"
  by (auto simp: fail_worker_def Let_def split: list.splits op_instr.splits)

lemma inv_fire_watcher: "attempt_inv a \<Longrightarrow> attempt_inv (fire_watcher w a)"
proof (cases w)
  case (WAck key)
  assume a: "attempt_inv a"
  then have "attempt_inv (a\<lparr>at_ack := fst (enforce_final_ack_deadline (at_ack a) key)\<rparr>)"
    by (auto simp: enforce_final_ack_deadline_def attempt_inv_defs)
  with WAck show ?thesis by (simp add: fire_watcher_def Let_def split_beta)
qed (auto simp: fire_watcher_def Let_def split: option.splits)

section \<open>Batch tasks keep it\<close>

lemma task_ok_mono: "task_ok R M t \<Longrightarrow> M \<subseteq> N \<Longrightarrow> task_ok R N t"
  by (cases t) (auto intro: marked_first_mono)

lemma tasks_update:
  "list_all P ts \<Longrightarrow> P t \<Longrightarrow> list_all P (ts[i := t])"
  by (auto simp: list_all_iff dest: subsetD [OF set_update_subset_insert])

lemma inv_task:
  "attempt_inv a \<Longrightarrow> task_ok (at_requested a) (at_modified a) t \<Longrightarrow>
   attempt_inv (a\<lparr>at_tasks := (at_tasks a)[i := t]\<rparr>)"
  by (simp add: attempt_inv_defs tasks_update)

lemma inv_batch_effect:
  assumes a: "attempt_inv a" and t: "task_ok (at_requested a) (at_modified a) (BtRun (e # es) r)"
  shows "attempt_inv (batch_effect_step e a) \<and>
    task_ok (at_requested (batch_effect_step e a)) (at_modified (batch_effect_step e a)) (BtRun es r)"
proof (cases e)
  case (BModified x)
  have "list_all (task_ok (at_requested a) (insert x (at_modified a))) (at_tasks a)"
    using a by (auto simp: attempt_inv_defs list_all_iff intro: task_ok_mono)
  with a BModified t show ?thesis by (auto simp: attempt_inv_defs map_filter_simps)
next
  case (BCompleted x quiet)
  show ?thesis
  proof (cases "x \<in> at_completed a")
    case True
    with a t BCompleted show ?thesis by (simp add: map_filter_simps)
  next
    case False
    let ?b = "a\<lparr>at_completed := insert x (at_completed a)\<rparr>"
    have x: "x \<in> at_requested a" "x \<in> at_modified a"
      using t BCompleted by (auto simp: map_filter_simps)
    have parts: "finite (at_requested a)" "at_completed a \<subseteq> at_requested a"
        "at_total a = card (at_requested a)" "''messages'' \<in> set (at_gate a)"
      using a x by (auto simp: attempt_inv_defs)
    have req: "at_requested a = set (at_changed_topics a)"
      using a x by (auto simp: attempt_inv_defs)
    have ne: "\<not> complete a" using False x by (auto simp: complete_def)
    have "cmds_ok ?b (at_queue a)"
      by (rule cmds_ok_mono [of a]) (use a ne in \<open>auto simp: attempt_inv_defs\<close>)
    then have "attempt_inv ?b" using a x ne by (auto simp: attempt_inv_defs)
    moreover have "complete ?b" if "card (at_completed ?b) = at_total ?b"
      using card_subset_eq [of "at_requested a" "at_completed ?b"] that parts x req
      by (simp add: complete_def)
    moreover have "task_ok (at_requested a) (at_modified a) (BtRun es r)"
      using t BCompleted by (simp add: map_filter_simps)
    ultimately show ?thesis using BCompleted False parts by (simp add: Let_def)
  qed
next
  case BNextBatch
  have "attempt_inv (a\<lparr>at_batches := rest, at_expected := set (db_keys b)\<rparr>)"
    if "at_batches a = b # rest" for b rest
    using a that by (intro inv_batches) (simp_all add: attempt_inv_defs)
  with a t BNextBatch show ?thesis
    by (auto simp: map_filter_simps split: list.splits)
next
  case (BFailed x)
  have "attempt_inv (a\<lparr>at_failed := insert x (at_failed a)\<rparr>)" using a by simp
  with BFailed t show ?thesis by (simp add: map_filter_simps)
qed (use a t in \<open>simp_all add: map_filter_simps\<close>)

lemma inv_run_batch_task:
  assumes a: "attempt_inv a" and i: "i < length (at_tasks a)"
    and ord: "\<And>xs. mset (cfg_ord cfg xs) = mset xs"
  shows "attempt_inv (run_batch_task cfg io i a)"
proof -
  have ok: "task_ok (at_requested a) (at_modified a) (at_tasks a ! i)"
    using a i by (auto simp: attempt_inv_defs list_all_length)
  show ?thesis
  proof (cases "at_tasks a ! i")
    case (BtNew results)
    let ?h = "handle_diff_batch (cfg_copy cfg) (cfg_to_json cfg) (cfg_of_json cfg) (cfg_dbg cfg)
      (cfg_ord cfg) io (at_expected a) results"
    have "at_expected a \<subseteq> at_requested a" using a by (simp add: attempt_inv_defs)
    with batch_marked_first [OF ord]
    have "task_ok (at_requested a) (at_modified a) (BtRun (fst ?h) (snd ?h))"
      by (metis order_trans task_ok.simps(2))
    from inv_task [OF a this] BtNew show ?thesis
      by (simp add: run_batch_task_def split_beta)
  next
    case (BtRun effects r)
    show ?thesis
    proof (cases effects)
      case Nil
      have "attempt_inv (a\<lparr>at_tasks := take i (at_tasks a) @ drop (Suc i) (at_tasks a)\<rparr>)"
        using a by (auto simp: attempt_inv_defs list_all_iff dest: in_set_takeD in_set_dropD)
      with BtRun Nil show ?thesis by (simp add: run_batch_task_def)
    next
      case (Cons e es)
      from inv_batch_effect [OF a, of e es r] ok BtRun Cons inv_task
      show ?thesis by (simp add: run_batch_task_def Let_def)
    qed
  qed
qed

section \<open>Runs\<close>

lemma inv_fresh:
  assumes "list_all (foreign_command attempt_id) stale"
  shows "attempt_inv (new_attempt session_id attempt_id stale)"
proof -
  have "foreign_command i c \<Longrightarrow> cmd_ok i G s d c" for i c G s d by (cases c) auto
  with assms show ?thesis
    by (auto simp: attempt_inv_defs new_attempt_def cmds_ok_def phase_ok_def gate_order_def list_all_iff)
qed

lemma inv_exec:
  assumes a: "attempt_inv a" and e: "attempt_exec cfg l a = Some b"
    and ord: "\<And>xs. mset (cfg_ord cfg xs) = mset xs"
  shows "attempt_inv b"
proof (cases l)
  case (LCommand env)
  with e obtain c rest where q: "at_queue a = c # rest"
      and b: "b = handle_command cfg env c (a\<lparr>at_queue := rest\<rparr>)"
    by (auto split: list.splits if_splits)
  have "a\<lparr>at_queue := c # rest\<rparr> = a" using q by simp
  with a inv_command [where a = a and c = c and rest = rest] b show ?thesis by simp
next
  case (LForeign c)
  have "foreign_command i c \<Longrightarrow> cmd_ok i G s d c" for i G s d by (cases c) auto
  with LForeign e a show ?thesis by (auto split: if_splits)
qed (use a e ord in \<open>auto simp: inv_kickoff inv_handle_frame inv_end inv_run_worker inv_fail_worker
    inv_run_batch_task inv_fire_watcher split: if_splits\<close>)

lemma attempt_reach_inv:
  assumes "attempt_reach cfg session_id attempt_id a" and "\<And>xs. mset (cfg_ord cfg xs) = mset xs"
  shows "attempt_inv a"
  using assms by (induction rule: attempt_reach.induct) (auto intro: inv_fresh inv_exec)

fun run_labels :: "sync_cfg \<Rightarrow> attempt_label list \<Rightarrow> attempt \<Rightarrow> attempt option" where
  "run_labels cfg [] a = Some a"
| "run_labels cfg (l # ls) a =
     (case attempt_exec cfg l a of None \<Rightarrow> None | Some b \<Rightarrow> run_labels cfg ls b)"

lemma run_labels_reach:
  "run_labels cfg ls a = Some b \<Longrightarrow> attempt_reach cfg s i a \<Longrightarrow> attempt_reach cfg s i b"
  by (induction ls arbitrary: a) (auto split: option.splits intro: attempt_reach.step)

text \<open>
  C4. The phases of an attempt open in their order, each at most once, whatever the desktop sends,
  whichever stale commands are left in the channel and however the loop, the operation tasks, the
  batch tasks and the watchdogs interleave: the phases opened so far are always a prefix of avatar
  metadata, topic metadata, topic validation, messages, finalization. So messages are never
  compared before topics are validated, and the finalizer runs at most once and only after the
  messages phase was entered.
\<close>

theorem phases_open_in_order:
  assumes "attempt_reach cfg session_id attempt_id a" and "\<And>xs. mset (cfg_ord cfg xs) = mset xs"
  shows "prefix (at_gate a)
    [''avatar_metadata'', ''topic_metadata'', ''topic_validation'', ''messages'', ''finalize'']"
  using attempt_reach_inv [OF assms] by (simp add: attempt_inv_defs gate_order_def)

text \<open>
  C2. Success means that everything was synchronised: an attempt only ends in success when all five
  phases were opened, every topic the desktop reported changed was requested and completed, and each
  of them is in the set the finalizer rebuilt. No order of responses, no duplicate or late frame and
  no failing task leads to a success that skipped a topic.
\<close>

theorem success_means_everything_completed:
  assumes "attempt_reach cfg session_id attempt_id a" and "\<And>xs. mset (cfg_ord cfg xs) = mset xs"
    and "at_end a = Some EndSuccess"
  shows "at_gate a = [''avatar_metadata'', ''topic_metadata'', ''topic_validation'', ''messages'',
      ''finalize''] \<and> at_completed a = set (at_changed_topics a) \<and>
    (\<exists>F. at_finalized a = Some F \<and> set (at_changed_topics a) \<subseteq> F)"
proof -
  have a: "attempt_inv a" by (rule attempt_reach_inv [OF assms(1,2)])
  then obtain F where F: "at_finalized a = Some F" "complete a" "at_requested a \<subseteq> F"
      "''finalize'' \<in> set (at_gate a)"
    using assms(3) by (auto simp: attempt_inv_defs)
  have "gate_order ! 4 \<in> set (at_gate a)" using F(4) by (simp add: gate_names)
  then have all: "gate_order ! i \<in> set (at_gate a)" if "i < 5" for i
    using gate_before [of "at_gate a" 4 i] a that by (cases "i = 4") (auto simp: attempt_inv_defs)
  have p: "prefix (at_gate a) gate_order" using a by (simp add: attempt_inv_defs)
  have "set gate_order \<subseteq> set (at_gate a)"
    using all by (auto simp: in_set_conv_nth gate_order_distinct)
  then have "card (set gate_order) \<le> card (set (at_gate a))" by (intro card_mono) simp_all
  then have "length gate_order \<le> length (at_gate a)"
    using card_length [of "at_gate a"] gate_order_distinct(1) by (simp add: distinct_card)
  moreover from p obtain zs where "gate_order = at_gate a @ zs" by (elim prefixE)
  moreover from this have "length gate_order = length (at_gate a) + length zs"
    by (metis length_append)
  ultimately have "at_gate a = gate_order" by simp
  with F show ?thesis by (auto simp: complete_def gate_order_def)
qed

section \<open>A complete run\<close>

definition demo_cfg :: sync_cfg where
  "demo_cfg = \<lparr>cfg_copy = demo_copy, cfg_to_json = we_code, cfg_of_json = (\<lambda>_. None),
     cfg_dbg = (\<lambda>_. []), cfg_ord = (\<lambda>ts. ts)\<rparr>"

definition demo_topic :: topic_key where "demo_topic = TopicKey ''agent'' ''a'' ''t''"

definition demo_db :: message_db where
  "demo_db = \<lparr>mdb_begin = None,
     mdb_topics = (\<lambda>_. Inr [\<lparr>trow_topic_id = Inr ''t'', trow_owner_type = Inr ''agent'',
       trow_owner_id = Inr ''a'', trow_deleted_at = Inr None, trow_config_hash = Inr ''c'',
       trow_content_hash = Inr ''h'', trow_updated_at = Inr 1\<rparr>]),
     mdb_messages = (\<lambda>_. [Inr \<lparr>mrow_topic_id = Inr ''t'', mrow_msg_id = Inr ''m'',
       mrow_content_hash = Inr ''x'', mrow_deleted_at = Inr None, mrow_updated_at = Inr 5,
       mrow_owner_type = Inr ''agent'', mrow_owner_id = Inr ''a''\<rparr>]),
     mdb_commit = None\<rparr>"

definition demo_env :: main_env where
  "demo_env = \<lparr>me_flush = None, me_send = (\<lambda>_. True), me_cancelled = False,
     me_owner_manifest = None, me_avatar_manifest = None, me_topic_manifest = Inr MTopic,
     me_topic_hashes = Inr [(demo_topic, ''c'', ''h'')], me_db = demo_db, me_finalize = None,
     me_nonce = ''n'', me_publish = True\<rparr>"

definition demo_owner_frame :: inbound where
  "demo_owner_frame = InManifest (Inr (FrameOwner [\<lparr>od_owner_type = OAgent, od_owner_id = ''a'',
     od_action = ASkip, od_deleted_at = None, od_content_hash_mismatch = True\<rparr>]))"

text \<open>The desktop reports one changed topic, whose messages turn out to be equal.\<close>

definition demo_equal :: message_diff_decision where
  "demo_equal = \<lparr>mdd_owner_type = OAgent, mdd_owner_id = ''a'', mdd_topic_id = ''t'', mdd_ok = True,
     mdd_pull_message_ids = Some [], mdd_push_topic = Some False, mdd_delete_messages = Some [],
     mdd_error = None\<rparr>"

definition demo_labels :: "attempt_label list" where
  "demo_labels =
     [LKickoff demo_env, LFrame demo_env demo_owner_frame, LCommand demo_env,
      LFrame demo_env (InManifest (Inr (FrameAvatar []))), LCommand demo_env,
      LFrame demo_env (InManifest (Inr (FrameTopic []))), LCommand demo_env,
      LFrame demo_env (InTopicDiff (Inr [demo_topic])), LCommand demo_env,
      LFrame demo_env (InMessageDiff (Inr [demo_equal])),
      LBatch demo_batch_io 0, LBatch demo_batch_io 0, LBatch demo_batch_io 0, LBatch demo_batch_io 0,
      LBatch demo_batch_io 0, LCommand demo_env, LCommand demo_env,
      LFrame demo_env (InPhaseAck (Inr (ack_of \<lparr>fa_session_id = 7, fa_attempt_id = 1, fa_nonce = ''n''\<rparr>)))]"

lemma demo_run:
  "(case run_labels demo_cfg demo_labels (new_attempt 7 1 []) of
      None \<Rightarrow> False
    | Some a \<Rightarrow> at_end a = Some EndSuccess \<and> at_changed_topics a = [demo_topic])"
  by code_simp

lemma demo_reach:
  obtains a where "attempt_reach demo_cfg 7 1 a" "at_end a = Some EndSuccess"
    "at_changed_topics a = [demo_topic]"
proof -
  obtain a where a: "run_labels demo_cfg demo_labels (new_attempt 7 1 []) = Some a"
      "at_end a = Some EndSuccess" "at_changed_topics a = [demo_topic]"
    using demo_run by (auto split: option.splits)
  have "attempt_reach demo_cfg 7 1 (new_attempt 7 1 [])" by (rule attempt_reach.fresh) simp
  from run_labels_reach [OF a(1) this] a(2,3) show ?thesis by (rule that)
qed

lemma demo_cfg_ord: "mset (cfg_ord demo_cfg xs) = mset xs"
  by (simp add: demo_cfg_def)

theorem phases_open_in_order_witness:
  "\<exists>a. attempt_reach demo_cfg 7 1 a \<and> at_end a = Some EndSuccess \<and> prefix (at_gate a)
    [''avatar_metadata'', ''topic_metadata'', ''topic_validation'', ''messages'', ''finalize'']"
  by (rule demo_reach) (blast intro: phases_open_in_order [OF _ demo_cfg_ord])

theorem success_means_everything_completed_witness:
  "\<exists>a. attempt_reach demo_cfg 7 1 a \<and> at_end a = Some EndSuccess \<and> at_completed a = {demo_topic} \<and>
    (\<exists>F. at_finalized a = Some F \<and> demo_topic \<in> F)"
proof (rule demo_reach)
  fix a
  assume a: "attempt_reach demo_cfg 7 1 a" "at_end a = Some EndSuccess" "at_changed_topics a = [demo_topic]"
  with success_means_everything_completed [OF a(1) demo_cfg_ord a(2)] show ?thesis by auto
qed

section \<open>A late task overtakes the avatars\<close>

text \<open>
  The task that finishes the last operation of a manifest reads the counter and then the phase. When
  two tasks (the pulls, and the remaining operations) have both read zero, the first one's command may be handled before the second reads the
  phase: the second then asks for the phase after the next. Below, the topic metadata opens while
  the avatar response is still awaited, and the attempt dies although nothing failed.
\<close>

definition race_owner_frame :: inbound where
  "race_owner_frame = InManifest (Inr (FrameOwner (map (\<lambda>(i, act). \<lparr>od_owner_type = OAgent, od_owner_id = i,
     od_action = act, od_deleted_at = None, od_content_hash_mismatch = False\<rparr>)
     [(''a'', APull), (''b'', APush)])))"

definition race_labels :: "attempt_label list" where
  "race_labels =
     [LKickoff demo_env, LFrame demo_env race_owner_frame,
      LWorker 0, LWorker 1, LWorker 0, LWorker 1, LWorker 0, LWorker 1,
      LWorker 0, LCommand demo_env, LWorker 1, LCommand demo_env, LCommand demo_env]"

lemma late_worker_overtakes_avatars:
  "case run_labels demo_cfg race_labels (new_attempt 7 1 []) of
     None \<Rightarrow> False
   | Some a \<Rightarrow> at_gate a = [''avatar_metadata'', ''topic_metadata''] \<and>
       manifest_pending (ds_tracker (at_shared a)) = Some (2, MAvatar) \<and>
       at_end a = Some (EndFatal ''SYNC_STATE_POISONED'')"
  by code_simp

end
