(* ===== verification/Sync_Push.thy ===== *)
theory Sync_Push
  imports Sync_Hash Sync_Pipeline_Laws
begin

text \<open>
  The preparation of a topic push (\<open>sync/sync_executor/diff_handler.rs\<close>): the rows of the
  topics the desktop asked for are decoded, checked and brought into the requested order, or the
  attempt fails with the code of the first defect. The rows are arbitrary, as in
  \<open>Sync_Pipeline\<close>.
\<close>

section \<open>Rows\<close>

record push_row =
  prow_topic_id :: "string + string"
  prow_title :: "string + string"
  prow_created_at :: "string + int"
  prow_locked :: "string + int"
  prow_unread :: "string + int"
  prow_owner_id :: "string + string"
  prow_owner_type :: "string + string"
  prow_config_hash :: "string + string"
  prow_updated_at :: "string + int"

text \<open>\<open>is_valid_cas_hash\<close> (\<open>infra/utils.rs\<close>) and the lowercase test of the caller.\<close>

definition is_ascii_hexdigit :: "char \<Rightarrow> bool" where
  "is_ascii_hexdigit c \<longleftrightarrow> is_digit c \<or> (65 \<le> bval c \<and> bval c \<le> 70) \<or> (97 \<le> bval c \<and> bval c \<le> 102)"

definition is_valid_cas_hash :: "string \<Rightarrow> bool" where
  "is_valid_cas_hash hash \<longleftrightarrow> length hash = 64 \<and> list_all is_ascii_hexdigit hash"

record decoded_topic =
  dt_topic_id :: string
  dt_title :: string
  dt_created_at :: int
  dt_locked :: int
  dt_unread :: int
  dt_owner_id :: string
  dt_owner_type :: string
  dt_config_hash :: string
  dt_updated_at :: int

definition decode_push_row :: "push_row \<Rightarrow> string + decoded_topic" where
  "decode_push_row r =
     and_then (col ''config_hash'' (prow_config_hash r)) (\<lambda>ch.
     if \<not> is_valid_cas_hash ch \<or> to_ascii_lower ch \<noteq> ch
     then Inl ''config_hash must be lowercase SHA-256''
     else and_then (col ''updated_at'' (prow_updated_at r)) (\<lambda>updated.
     if \<not> (0 \<le> updated \<and> updated \<le> MAX_SAFE_JSON_INTEGER)
     then Inl ''updated_at must be a non-negative safe integer''
     else and_then (col ''topic id'' (prow_topic_id r)) (\<lambda>tid.
     and_then (col ''title'' (prow_title r)) (\<lambda>title.
     and_then (col ''created_at'' (prow_created_at r)) (\<lambda>created.
     and_then (col ''locked'' (prow_locked r)) (\<lambda>locked.
     and_then (col ''unread'' (prow_unread r)) (\<lambda>unread.
     and_then (col ''owner_id'' (prow_owner_id r)) (\<lambda>oid.
     and_then (col ''owner_type'' (prow_owner_type r)) (\<lambda>otype.
     Inr \<lparr>dt_topic_id = tid, dt_title = title, dt_created_at = created, dt_locked = locked,
          dt_unread = unread, dt_owner_id = oid, dt_owner_type = otype, dt_config_hash = ch,
          dt_updated_at = updated\<rparr>)))))))))"

section \<open>Items\<close>

datatype topic_push_data = PushAgentTopic agent_topic_dto | PushGroupTopic group_topic_dto

record topic_push_item =
  tpi_owner_type :: owner_type
  tpi_owner_id :: string
  tpi_topic_id :: string
  tpi_data :: topic_push_data

definition item_key :: "topic_push_item \<Rightarrow> topic_key" where
  "item_key i = TopicKey (owner_type_str (tpi_owner_type i)) (tpi_owner_id i) (tpi_topic_id i)"

definition push_item_of :: "decoded_topic \<Rightarrow> topic_push_item option" where
  "push_item_of d =
     (if dt_owner_type d = ''agent'' then
        Some \<lparr>tpi_owner_type = OAgent, tpi_owner_id = dt_owner_id d, tpi_topic_id = dt_topic_id d,
          tpi_data = PushAgentTopic \<lparr>atd_id = dt_topic_id d, atd_name = dt_title d,
            atd_created_at = dt_created_at d, atd_locked = (dt_locked d \<noteq> 0),
            atd_unread = (dt_unread d \<noteq> 0), atd_owner_id = dt_owner_id d,
            atd_config_hash = dt_config_hash d, atd_updated_at = dt_updated_at d\<rparr>\<rparr>
      else if dt_owner_type d = ''group'' then
        Some \<lparr>tpi_owner_type = OGroup, tpi_owner_id = dt_owner_id d, tpi_topic_id = dt_topic_id d,
          tpi_data = PushGroupTopic \<lparr>gtd_id = dt_topic_id d, gtd_name = dt_title d,
            gtd_created_at = dt_created_at d, gtd_owner_id = dt_owner_id d,
            gtd_config_hash = dt_config_hash d, gtd_updated_at = dt_updated_at d\<rparr>\<rparr>
      else None)"

text \<open>\<open>EntityPushItem::is_consistent\<close> on topic items.\<close>

definition is_consistent :: "topic_push_item \<Rightarrow> bool" where
  "is_consistent i \<longleftrightarrow>
     (case (tpi_owner_type i, tpi_data i) of
        (OAgent, PushAgentTopic _) \<Rightarrow> tpi_owner_id i \<noteq> [] \<and> tpi_topic_id i \<noteq> []
      | (OGroup, PushGroupTopic _) \<Rightarrow> tpi_owner_id i \<noteq> [] \<and> tpi_topic_id i \<noteq> []
      | _ \<Rightarrow> False)"

section \<open>Preparation\<close>

text \<open>A failure of the attempt: code, message, topic ids.\<close>

type_synonym push_failure = "string \<times> string \<times> string list"

type_synonym item_map = "(topic_key \<times> topic_push_item) list"

definition push_row_step :: "item_map \<Rightarrow> push_row \<Rightarrow> push_failure + item_map" where
  "push_row_step m r =
     (case decode_push_row r of
        Inl err \<Rightarrow> Inl (''TOPIC_PUSH_DB_DECODE_FAILED'', ''Failed to decode a topic for push: '' @ err, [])
      | Inr d \<Rightarrow>
          (let key = TopicKey (dt_owner_type d) (dt_owner_id d) (dt_topic_id d) in
           case push_item_of d of
             None \<Rightarrow> Inl (''TOPIC_PUSH_OWNER_CONFLICT'',
                          ''Topic selected for push has an invalid owner type'', [dt_topic_id d])
           | Some item \<Rightarrow>
               if key \<in> fst ` set m
               then Inl (''TOPIC_PUSH_DB_FAILED'',
                         ''Topic query returned duplicate identity '' @ dt_topic_id d, [dt_topic_id d])
               else Inr (m @ [(key, item)])))"

fun fold_push :: "item_map \<Rightarrow> push_row list \<Rightarrow> push_failure + item_map" where
  "fold_push m [] = Inr m"
| "fold_push m (r # rs) = and_then (push_row_step m r) (\<lambda>m. fold_push m rs)"

definition TOPIC_QUERY_CHUNK :: nat where "TOPIC_QUERY_CHUNK = 300"

fun load_push ::
  "(topic_key list \<Rightarrow> string + push_row list) \<Rightarrow> item_map \<Rightarrow> topic_key list list \<Rightarrow>
   push_failure + item_map" where
  "load_push query m [] = Inr m"
| "load_push query m (c # cs) =
     (case query c of
        Inl err \<Rightarrow> Inl (''TOPIC_PUSH_DB_FAILED'', ''Failed to load topics for push: '' @ err,
                        map tk_topic_id c)
      | Inr rows \<Rightarrow> and_then (fold_push m rows) (\<lambda>m. load_push query m cs))"

text \<open>The requested order: each key takes its item out of the map.\<close>

fun order_items :: "item_map \<Rightarrow> topic_key list \<Rightarrow> push_failure + topic_push_item list" where
  "order_items m [] = Inr []"
| "order_items m (k # ks) =
     (case map_of m k of
        None \<Rightarrow> Inl (''TOPIC_PUSH_SOURCE_MISSING'',
                     ''Topic selected for push is missing: '' @ tk_topic_id k, [tk_topic_id k])
      | Some item \<Rightarrow>
          and_then (order_items (filter (\<lambda>e. fst e \<noteq> k) m) ks) (\<lambda>items. Inr (item # items)))"

definition prepare_topic_push ::
  "(topic_key list \<Rightarrow> string + push_row list) \<Rightarrow> topic_key list \<Rightarrow> push_failure + topic_push_item list"
  where
  "prepare_topic_push query requested =
     and_then (load_push query [] (chunks TOPIC_QUERY_CHUNK requested))
       (\<lambda>m. order_items m requested)"

section \<open>Laws\<close>

definition data_ok :: "topic_push_item \<Rightarrow> bool" where
  "data_ok i \<longleftrightarrow>
     (case tpi_data i of
        PushAgentTopic d \<Rightarrow> tpi_owner_type i = OAgent \<and> atd_id d = tpi_topic_id i \<and>
          atd_owner_id d = tpi_owner_id i \<and> is_valid_cas_hash (atd_config_hash d) \<and>
          to_ascii_lower (atd_config_hash d) = atd_config_hash d \<and>
          0 \<le> atd_updated_at d \<and> atd_updated_at d \<le> MAX_SAFE_JSON_INTEGER
      | PushGroupTopic d \<Rightarrow> tpi_owner_type i = OGroup \<and> gtd_id d = tpi_topic_id i \<and>
          gtd_owner_id d = tpi_owner_id i \<and> is_valid_cas_hash (gtd_config_hash d) \<and>
          to_ascii_lower (gtd_config_hash d) = gtd_config_hash d \<and>
          0 \<le> gtd_updated_at d \<and> gtd_updated_at d \<le> MAX_SAFE_JSON_INTEGER)"

abbreviation entry_ok :: "topic_key \<times> topic_push_item \<Rightarrow> bool" where
  "entry_ok e \<equiv> item_key (snd e) = fst e \<and> data_ok (snd e)"

lemma decode_push_row_ok:
  "decode_push_row r = Inr d \<Longrightarrow> is_valid_cas_hash (dt_config_hash d) \<and>
     to_ascii_lower (dt_config_hash d) = dt_config_hash d \<and>
     0 \<le> dt_updated_at d \<and> dt_updated_at d \<le> MAX_SAFE_JSON_INTEGER"
  by (auto simp: decode_push_row_def and_then_Inr split: if_splits)

lemma push_item_of_ok:
  "push_item_of d = Some i \<Longrightarrow> is_valid_cas_hash (dt_config_hash d) \<and>
     to_ascii_lower (dt_config_hash d) = dt_config_hash d \<and>
     0 \<le> dt_updated_at d \<and> dt_updated_at d \<le> MAX_SAFE_JSON_INTEGER \<Longrightarrow>
   entry_ok (TopicKey (dt_owner_type d) (dt_owner_id d) (dt_topic_id d), i)"
  by (auto simp: push_item_of_def item_key_def data_ok_def split: if_splits)

lemma push_row_step_ok:
  "push_row_step m r = Inr m' \<Longrightarrow> list_all entry_ok m \<Longrightarrow> list_all entry_ok m'"
proof -
  assume s: "push_row_step m r = Inr m'" and m: "list_all entry_ok m"
  then obtain d where d: "decode_push_row r = Inr d"
    by (cases "decode_push_row r") (auto simp: push_row_step_def)
  with s obtain i where i: "push_item_of d = Some i"
    by (cases "push_item_of d") (auto simp: push_row_step_def)
  with s d m push_item_of_ok [OF i decode_push_row_ok [OF d]] show ?thesis
    by (auto simp: push_row_step_def Let_def split: if_splits)
qed

lemma fold_push_ok: "fold_push m rs = Inr m' \<Longrightarrow> list_all entry_ok m \<Longrightarrow> list_all entry_ok m'"
  by (induction m rs rule: fold_push.induct) (auto simp: and_then_Inr dest: push_row_step_ok)

lemma load_push_ok: "load_push query m cs = Inr m' \<Longrightarrow> list_all entry_ok m \<Longrightarrow> list_all entry_ok m'"
  by (induction query m cs rule: load_push.induct)
    (auto simp: and_then_Inr dest: fold_push_ok split: sum.splits)

lemma order_items_ok:
  "order_items m ks = Inr items \<Longrightarrow> list_all entry_ok m \<Longrightarrow>
     map item_key items = ks \<and> distinct ks \<and> set ks \<subseteq> fst ` set m \<and> list_all data_ok items"
proof (induction m ks arbitrary: items rule: order_items.induct)
  case (1 m)
  then show ?case by simp
next
  case (2 m k ks)
  from 2(2) obtain item rest where item: "map_of m k = Some item"
      and rest: "order_items (filter (\<lambda>e. fst e \<noteq> k) m) ks = Inr rest" "items = item # rest"
    by (auto simp: and_then_Inr split: option.splits)
  have "entry_ok (k, item)" using 2(3) map_of_SomeD [OF item] by (auto simp: list_all_iff)
  moreover have "map item_key rest = ks \<and> distinct ks \<and>
      set ks \<subseteq> fst ` set (filter (\<lambda>e. fst e \<noteq> k) m) \<and> list_all data_ok rest"
    by (rule 2(1) [OF item rest(1)]) (use 2(3) in \<open>auto simp: list_all_iff\<close>)
  moreover have "k \<in> fst ` set m" using map_of_SomeD [OF item] by force
  moreover have "fst ` set (filter (\<lambda>e. fst e \<noteq> k) m) \<subseteq> fst ` set m - {k}" by auto
  ultimately show ?case using rest(2) by auto
qed

text \<open>
  A topic push sends exactly what was asked for: when it is prepared, its items are the
  requested topics in the requested order, none missing, repeated or added, each of the kind its
  owner needs and naming its own topic and owner, with a lowercase SHA-256 configuration hash and a
  non-negative JSON-safe time. Otherwise the failure has one of the four codes of the preparation
  and nothing is sent.
\<close>

theorem topic_push_matches_request:
  "case prepare_topic_push query requested of
     Inl (code, _) \<Rightarrow> code \<in> {''TOPIC_PUSH_DB_FAILED'', ''TOPIC_PUSH_DB_DECODE_FAILED'',
       ''TOPIC_PUSH_OWNER_CONFLICT'', ''TOPIC_PUSH_SOURCE_MISSING''}
   | Inr items \<Rightarrow> map item_key items = requested \<and> distinct requested \<and> list_all data_ok items"
proof -
  let ?codes = "{''TOPIC_PUSH_DB_FAILED'', ''TOPIC_PUSH_DB_DECODE_FAILED'',
    ''TOPIC_PUSH_OWNER_CONFLICT'', ''TOPIC_PUSH_SOURCE_MISSING''}"
  have step: "push_row_step m r = Inl f \<Longrightarrow> fst f \<in> ?codes" for m r f
    by (auto simp: push_row_step_def Let_def split: sum.splits option.splits if_splits)
  have fold: "fold_push m rs = Inl f \<Longrightarrow> fst f \<in> ?codes" for m rs f
  proof (induction m rs rule: fold_push.induct)
    case (2 m r rs)
    then show ?case by (cases "push_row_step m r") (use step in auto)
  qed simp
  have load: "load_push query m cs = Inl f \<Longrightarrow> fst f \<in> ?codes" for m cs f
  proof (induction query m cs rule: load_push.induct)
    case (2 query m c cs)
    show ?case
    proof (cases "query c")
      case (Inr rows)
      with 2 show ?thesis by (cases "fold_push m rows") (use fold in auto)
    qed (use 2 in auto)
  qed simp
  have order: "order_items m ks = Inl f \<Longrightarrow> fst f \<in> ?codes" for m ks f
  proof (induction m ks rule: order_items.induct)
    case (2 m k ks)
    then show ?case
      by (cases "map_of m k"; cases "order_items (filter (\<lambda>e. fst e \<noteq> k) m) ks") auto
  qed simp
  show ?thesis
  proof (cases "load_push query [] (chunks TOPIC_QUERY_CHUNK requested)")
    case (Inl f)
    with load [OF Inl] show ?thesis by (auto simp: prepare_topic_push_def split_beta)
  next
    case (Inr m)
    show ?thesis
    proof (cases "order_items m requested")
      case (Inl f)
      with Inr order [OF Inl] show ?thesis by (auto simp: prepare_topic_push_def split_beta)
    next
      case ok: (Inr items)
      have "list_all entry_ok m" by (rule load_push_ok [OF Inr]) simp
      with order_items_ok [OF ok] Inr ok show ?thesis by (simp add: prepare_topic_push_def)
    qed
  qed
qed

end
