(* ===== verification/Sync_Version.thy ===== *)
theory Sync_Version
  imports Rust_Str
begin

text \<open>
  The version handshake (\<open>sync/sync_version.rs\<close>): the frame this device opens with and the
  acknowledgement it accepts. JSON is serde: a received acknowledgement is the decoded frame or the
  decoder's message. The hash map of validated claims is an association list.
\<close>

section \<open>Frames\<close>

definition WIRE_PROTOCOL_VERSION :: string where "WIRE_PROTOCOL_VERSION = ''1.5''"

definition MAX_VERSION_TOKEN_BYTES :: nat where "MAX_VERSION_TOKEN_BYTES = 64"

datatype version_component = MobileApp | DesktopPlugin | Wire

fun component_debug :: "version_component \<Rightarrow> string" where
  "component_debug MobileApp = ''MobileApp''"
| "component_debug DesktopPlugin = ''DesktopPlugin''"
| "component_debug Wire = ''Wire''"

type_synonym version_claim = "version_component \<times> string"

datatype backend_mode = BackendLegacy | BackendCds

record version_ack_frame =
  va_frame_type :: string
  va_versions :: "version_claim list"
  va_backend_mode :: backend_mode

record accepted_versions =
  av_package_version :: string
  av_wire_version :: string
  av_backend_mode :: backend_mode

datatype version_error =
    VersionInvalid string
  | VersionMismatch string string string

fun version_error_str :: "version_error \<Rightarrow> string" where
  "version_error_str (VersionInvalid message) = message"
| "version_error_str (VersionMismatch expected received package) =
     ''wire protocol mismatch: expected '' @ expected @ '', received '' @ received"

section \<open>Validation\<close>

definition validate_version_token :: "string \<Rightarrow> string \<Rightarrow> string option" where
  "validate_version_token value label =
     (if value = [] \<or> MAX_VERSION_TOKEN_BYTES < length value
      then Some (label @ '' version must contain 1 to '' @ nat_str MAX_VERSION_TOKEN_BYTES @ '' bytes'')
      else if \<not> is_ascii_alphanumeric (hd value) \<or>
        \<not> list_all (\<lambda>b. is_ascii_alphanumeric b \<or> b = CHR ''.'' \<or> b = CHR ''_'' \<or> b = CHR ''+'' \<or>
              b = CHR ''-'') (tl value)
      then Some (label @ '' version contains unsafe characters'')
      else None)"

fun collect_claims ::
  "version_component list \<Rightarrow> string \<Rightarrow> version_claim list \<Rightarrow> version_claim list \<Rightarrow>
   string + version_claim list" where
  "collect_claims expected label seen [] = Inr seen"
| "collect_claims expected label seen ((c, v) # rest) =
     (if c \<notin> set expected
      then Inl (label @ ''.versions contains unexpected component '' @ component_debug c)
      else case validate_version_token v ''version'' of
        Some err \<Rightarrow> Inl err
      | None \<Rightarrow>
          if c \<in> fst ` set seen
          then Inl (label @ ''.versions contains duplicate component '' @ component_debug c)
          else collect_claims expected label ((c, v) # seen) rest)"

definition validate_claims ::
  "version_claim list \<Rightarrow> version_component list \<Rightarrow> string \<Rightarrow> string + version_claim list" where
  "validate_claims claims expected label =
     (if length claims \<noteq> length expected
      then Inl (label @ ''.versions must contain exactly '' @ nat_str (length expected) @ '' entries'')
      else case collect_claims expected label [] claims of
        Inl err \<Rightarrow> Inl err
      | Inr versions \<Rightarrow>
          if list_ex (\<lambda>c. c \<notin> fst ` set versions) expected
          then Inl (label @ ''.versions is missing a required component'')
          else Inr versions)"

definition build_version_check :: "string \<Rightarrow> string + string \<times> version_claim list" where
  "build_version_check mobile_app_version =
     (case validate_version_token mobile_app_version ''mobile_app'' of
        Some err \<Rightarrow> Inl err
      | None \<Rightarrow>
          (case validate_version_token WIRE_PROTOCOL_VERSION ''wire'' of
             Some err \<Rightarrow> Inl err
           | None \<Rightarrow> Inr (''VERSION_CHECK'',
               [(MobileApp, mobile_app_version), (Wire, WIRE_PROTOCOL_VERSION)])))"

definition parse_version_ack :: "string + version_ack_frame \<Rightarrow> version_error + accepted_versions" where
  "parse_version_ack decoded =
     (case decoded of
        Inl err \<Rightarrow> Inl (VersionInvalid (''Invalid VERSION_ACK: '' @ err))
      | Inr ack \<Rightarrow>
          if va_frame_type ack \<noteq> ''VERSION_ACK'' then Inl (VersionInvalid ''expected VERSION_ACK'')
          else case validate_claims (va_versions ack) [DesktopPlugin, Wire] ''VERSION_ACK'' of
            Inl err \<Rightarrow> Inl (VersionInvalid err)
          | Inr versions \<Rightarrow>
              (case map_of versions DesktopPlugin of
                 None \<Rightarrow> Inl (VersionInvalid ''VERSION_ACK is missing desktop_plugin version'')
               | Some package_version \<Rightarrow>
                   (case map_of versions Wire of
                      None \<Rightarrow> Inl (VersionInvalid ''VERSION_ACK is missing wire version'')
                    | Some wire_version \<Rightarrow>
                        if wire_version \<noteq> WIRE_PROTOCOL_VERSION
                        then Inl (VersionMismatch WIRE_PROTOCOL_VERSION wire_version package_version)
                        else Inr \<lparr>av_package_version = package_version,
                                  av_wire_version = wire_version,
                                  av_backend_mode = va_backend_mode ack\<rparr>)))"

section \<open>Laws\<close>

definition token_ok :: "string \<Rightarrow> bool" where
  "token_ok v \<longleftrightarrow> validate_version_token v ''version'' = None"

lemma wire_token_ok: "token_ok WIRE_PROTOCOL_VERSION"
  by code_simp

lemma two_claims:
  "validate_claims claims [DesktopPlugin, Wire] label = Inr vs \<longleftrightarrow>
     (\<exists>p w. token_ok p \<and> token_ok w \<and>
        (claims = [(DesktopPlugin, p), (Wire, w)] \<and> vs = [(Wire, w), (DesktopPlugin, p)] \<or>
         claims = [(Wire, w), (DesktopPlugin, p)] \<and> vs = [(DesktopPlugin, p), (Wire, w)]))"
proof (cases "\<exists>c v d u. claims = [(c, v), (d, u)]")
  case True
  then obtain c v d u where cl: "claims = [(c, v), (d, u)]" by blast
  show ?thesis
    by (cases c; cases d)
      (auto simp: validate_claims_def cl token_ok_def split: option.splits)
next
  case False
  then have "length claims \<noteq> 2" by (auto simp: numeral_2_eq_2 length_Suc_conv)
  with False show ?thesis by (auto simp: validate_claims_def)
qed

text \<open>
  The handshake accepts exactly the compatible desktops: an acknowledgement is accepted if and
  only if it decodes, names itself \<open>VERSION_ACK\<close>, and carries, in either order, one safe plugin
  version and the wire version 1.5 and nothing else; the plugin version and the backend mode are
  then those of the frame. A missing, repeated, foreign or unsafe claim is never accepted.
\<close>

theorem version_ack_accepts:
  "parse_version_ack decoded = Inr accepted \<longleftrightarrow>
     (\<exists>ack p. decoded = Inr ack \<and> va_frame_type ack = ''VERSION_ACK'' \<and> token_ok p \<and>
        (va_versions ack = [(DesktopPlugin, p), (Wire, ''1.5'')] \<or>
         va_versions ack = [(Wire, ''1.5''), (DesktopPlugin, p)]) \<and>
        accepted = \<lparr>av_package_version = p, av_wire_version = ''1.5'',
                    av_backend_mode = va_backend_mode ack\<rparr>)"
proof (cases decoded)
  case (Inl err)
  then show ?thesis by (simp add: parse_version_ack_def)
next
  case (Inr ack)
  show ?thesis
  proof (cases "validate_claims (va_versions ack) [DesktopPlugin, Wire] ''VERSION_ACK''")
    case invalid: (Inl err)
    have no: "\<not> (va_versions ack = [(DesktopPlugin, p), (Wire, ''1.5'')] \<or>
        va_versions ack = [(Wire, ''1.5''), (DesktopPlugin, p)])" if "token_ok p" for p
    proof
      assume v: "va_versions ack = [(DesktopPlugin, p), (Wire, ''1.5'')] \<or>
        va_versions ack = [(Wire, ''1.5''), (DesktopPlugin, p)]"
      have "token_ok ''1.5''" using wire_token_ok by (simp add: WIRE_PROTOCOL_VERSION_def)
      with v that have "\<exists>vs. validate_claims (va_versions ack) [DesktopPlugin, Wire] ''VERSION_ACK'' = Inr vs"
        unfolding two_claims by blast
      with invalid show False by simp
    qed
    with Inr invalid show ?thesis by (auto simp: parse_version_ack_def)
  next
    case valid: (Inr vs)
    then obtain p w where "token_ok p" and
        "va_versions ack = [(DesktopPlugin, p), (Wire, w)] \<and> vs = [(Wire, w), (DesktopPlugin, p)] \<or>
         va_versions ack = [(Wire, w), (DesktopPlugin, p)] \<and> vs = [(DesktopPlugin, p), (Wire, w)]"
      unfolding two_claims by blast
    with Inr valid show ?thesis
      by (auto simp: parse_version_ack_def WIRE_PROTOCOL_VERSION_def split: if_splits)
  qed
qed

end
