(* ===== verification/Ast_Diff.thy ===== *)
theory Ast_Diff
  imports Prelude Rust_Str
begin

text \<open>
  The incremental rendering of a chat message: the syntax tree and its hashes
  (\<open>chat/pre_renderer/markdown_ast.rs\<close>) and the difference of two trees as mutations
  (\<open>chat/ast_diff.rs\<close>), in the form without a code highlighter (\<open>diff_ast\<close>). The ids of the
  mutations are paths whose text is the id string. What the front end does with the mutations is
  the reference interpreter \<open>apply_mutations\<close> on the rendered tree, whose edges carry the ids of
  its registry. \<open>FxHasher\<close> is third-party: a function \<open>fx\<close> of the writes it receives.
\<close>

section \<open>The syntax tree\<close>

datatype inline_node =
    IText string
  | IStrong "inline_node list" "u64 option"
  | IEmphasis "inline_node list" "u64 option"
  | ICode string
  | ILink string "string option" "inline_node list" bool "u64 option"
  | IImage string string "string option" bool "u64 option"
  | IBreak
  | IMath string bool "u64 option"
  | IVcp string "string option" "inline_node list option" "u64 option"
  | IStrike "inline_node list" "u64 option"
  | IRaw string "u64 option"

datatype md_node =
    MParagraph "inline_node list" "u64 option"
  | MHeading nat "inline_node list" "u64 option"
  | MCode "string option" string "string option" "string option" "u64 option"
  | MQuote "md_node list" "u64 option"
  | MList bool "md_node list list" "u64 option"
  | MTable "inline_node list list" "inline_node list list list" "string option" "u64 option"
  | MRule
  | MRaw string "u64 option"

fun inline_hash :: "inline_node \<Rightarrow> u64 option" where
  "inline_hash (IText _) = None"
| "inline_hash (IStrong _ h) = h"
| "inline_hash (IEmphasis _ h) = h"
| "inline_hash (ICode _) = None"
| "inline_hash (ILink _ _ _ _ h) = h"
| "inline_hash (IImage _ _ _ _ h) = h"
| "inline_hash IBreak = None"
| "inline_hash (IMath _ _ h) = h"
| "inline_hash (IVcp _ _ _ h) = h"
| "inline_hash (IStrike _ h) = h"
| "inline_hash (IRaw _ h) = h"

fun md_hash :: "md_node \<Rightarrow> u64 option" where
  "md_hash (MParagraph _ h) = h"
| "md_hash (MHeading _ _ h) = h"
| "md_hash (MCode _ _ _ _ h) = h"
| "md_hash (MQuote _ h) = h"
| "md_hash (MList _ _ h) = h"
| "md_hash (MTable _ _ _ h) = h"
| "md_hash MRule = None"
| "md_hash (MRaw _ h) = h"

section \<open>Hashes\<close>

text \<open>The writes into the hasher: bytes, words, strings, booleans and option tags.\<close>

datatype hash_write = W8 nat | W64 u64 | WStr string | WBool bool | WTag nat

fun write_opt :: "string option \<Rightarrow> hash_write list" where
  "write_opt None = [WTag 0]"
| "write_opt (Some s) = [WTag 1, WStr s]"

fun write_inline :: "inline_node \<Rightarrow> hash_write list" where
  "write_inline (IText v) = [W8 0, WStr v]"
| "write_inline (IStrong ch h) =
     W8 1 # (case h of Some h \<Rightarrow> [W64 h] | None \<Rightarrow> concat (map write_inline ch))"
| "write_inline (IEmphasis ch h) =
     W8 2 # (case h of Some h \<Rightarrow> [W64 h] | None \<Rightarrow> concat (map write_inline ch))"
| "write_inline (ICode v) = [W8 3, WStr v]"
| "write_inline (ILink href title ch nac h) =
     [W8 4, WStr href] @ write_opt title @ [WBool nac] @
     (case h of Some h \<Rightarrow> [W64 h] | None \<Rightarrow> concat (map write_inline ch))"
| "write_inline (IImage src alt title nac h) =
     [W8 5, WStr src, WStr alt] @ write_opt title @ [WBool nac]"
| "write_inline IBreak = [W8 6]"
| "write_inline (IMath content display h) = [W8 8, WStr content, WBool display]"
| "write_inline (IVcp kind v ch h) =
     [W8 14, WStr kind] @ write_opt v @
     (case h of Some h \<Rightarrow> [W64 h]
      | None \<Rightarrow> (case ch of None \<Rightarrow> [] | Some cs \<Rightarrow> concat (map write_inline cs)))"
| "write_inline (IStrike ch h) =
     W8 10 # (case h of Some h \<Rightarrow> [W64 h] | None \<Rightarrow> concat (map write_inline ch))"
| "write_inline (IRaw content h) = [W8 13, WStr content]"

fun write_md :: "md_node \<Rightarrow> hash_write list" where
  "write_md (MParagraph ch h) =
     W8 0 # (case h of Some h \<Rightarrow> [W64 h] | None \<Rightarrow> concat (map write_inline ch))"
| "write_md (MHeading level ch h) =
     [W8 1, W8 level] @ (case h of Some h \<Rightarrow> [W64 h] | None \<Rightarrow> concat (map write_inline ch))"
| "write_md (MCode lang code html theme h) =
     [W8 2] @ write_opt lang @ [WStr code] @ write_opt html @ write_opt theme"
| "write_md (MQuote ch h) =
     W8 3 # (case h of Some h \<Rightarrow> [W64 h] | None \<Rightarrow> concat (map write_md ch))"
| "write_md (MList ordered items h) =
     [W8 4, WBool ordered] @
     (case h of Some h \<Rightarrow> [W64 h]
      | None \<Rightarrow> concat (map (\<lambda>item. concat (map write_md item)) items))"
| "write_md (MTable header rows wrapper h) =
     [W8 5] @ write_opt wrapper @
     (case h of Some h \<Rightarrow> [W64 h]
      | None \<Rightarrow> concat (map (\<lambda>cell. concat (map write_inline cell)) header) @
               concat (map (\<lambda>row. concat (map (\<lambda>cell. concat (map write_inline cell)) row)) rows))"
| "write_md MRule = [W8 6]"
| "write_md (MRaw content h) = [W8 7, WStr content]"

fun set_inline_hash :: "u64 \<Rightarrow> inline_node \<Rightarrow> inline_node" where
  "set_inline_hash x (IStrong ch _) = IStrong ch (Some x)"
| "set_inline_hash x (IEmphasis ch _) = IEmphasis ch (Some x)"
| "set_inline_hash x (ILink href title ch nac _) = ILink href title ch nac (Some x)"
| "set_inline_hash x (IImage src alt title nac _) = IImage src alt title nac (Some x)"
| "set_inline_hash x (IMath content display _) = IMath content display (Some x)"
| "set_inline_hash x (IVcp kind v ch _) = IVcp kind v ch (Some x)"
| "set_inline_hash x (IStrike ch _) = IStrike ch (Some x)"
| "set_inline_hash x (IRaw content _) = IRaw content (Some x)"
| "set_inline_hash x n = n"

fun set_md_hash :: "u64 \<Rightarrow> md_node \<Rightarrow> md_node" where
  "set_md_hash x (MParagraph ch _) = MParagraph ch (Some x)"
| "set_md_hash x (MHeading level ch _) = MHeading level ch (Some x)"
| "set_md_hash x (MCode lang code html theme _) = MCode lang code html theme (Some x)"
| "set_md_hash x (MQuote ch _) = MQuote ch (Some x)"
| "set_md_hash x (MList ordered items _) = MList ordered items (Some x)"
| "set_md_hash x (MTable header rows wrapper _) = MTable header rows wrapper (Some x)"
| "set_md_hash x MRule = MRule"
| "set_md_hash x (MRaw content _) = MRaw content (Some x)"

definition rehash_inline :: "(hash_write list \<Rightarrow> u64) \<Rightarrow> inline_node \<Rightarrow> inline_node" where
  "rehash_inline fx n = set_inline_hash (fx (write_inline n)) n"

definition rehash_md :: "(hash_write list \<Rightarrow> u64) \<Rightarrow> md_node \<Rightarrow> md_node" where
  "rehash_md fx n = set_md_hash (fx (write_md n)) n"

fun compute_inline_hashes :: "(hash_write list \<Rightarrow> u64) \<Rightarrow> inline_node \<Rightarrow> inline_node" where
  "compute_inline_hashes fx (IStrong ch h) = rehash_inline fx (IStrong (map (compute_inline_hashes fx) ch) h)"
| "compute_inline_hashes fx (IEmphasis ch h) =
     rehash_inline fx (IEmphasis (map (compute_inline_hashes fx) ch) h)"
| "compute_inline_hashes fx (ILink href title ch nac h) =
     rehash_inline fx (ILink href title (map (compute_inline_hashes fx) ch) nac h)"
| "compute_inline_hashes fx (IStrike ch h) = rehash_inline fx (IStrike (map (compute_inline_hashes fx) ch) h)"
| "compute_inline_hashes fx (IVcp kind v (Some ch) h) =
     rehash_inline fx (IVcp kind v (Some (map (compute_inline_hashes fx) ch)) h)"
| "compute_inline_hashes fx n = rehash_inline fx n"

fun compute_md_hashes :: "(hash_write list \<Rightarrow> u64) \<Rightarrow> md_node \<Rightarrow> md_node" where
  "compute_md_hashes fx (MParagraph ch h) =
     rehash_md fx (MParagraph (map (compute_inline_hashes fx) ch) h)"
| "compute_md_hashes fx (MHeading level ch h) =
     rehash_md fx (MHeading level (map (compute_inline_hashes fx) ch) h)"
| "compute_md_hashes fx (MQuote ch h) = rehash_md fx (MQuote (map (compute_md_hashes fx) ch) h)"
| "compute_md_hashes fx (MList ordered items h) =
     rehash_md fx (MList ordered (map (map (compute_md_hashes fx)) items) h)"
| "compute_md_hashes fx (MTable header rows wrapper h) =
     rehash_md fx (MTable (map (map (compute_inline_hashes fx)) header)
       (map (map (map (compute_inline_hashes fx))) rows) wrapper h)"
| "compute_md_hashes fx n = rehash_md fx n"

section \<open>Ids and mutations\<close>

datatype step = SRoot nat | SInline nat | SBlock nat | SItem nat | SHead nat | SCell nat nat

type_synonym path = "step list"

fun step_text :: "string \<Rightarrow> step \<Rightarrow> string" where
  "step_text pre (SRoot n) = pre @ nat_str n"
| "step_text pre (SInline n) = ''.i'' @ nat_str n"
| "step_text pre (SBlock n) = ''.b'' @ nat_str n"
| "step_text pre (SItem n) = ''.li'' @ nat_str n"
| "step_text pre (SHead n) = ''.th'' @ nat_str n"
| "step_text pre (SCell r n) = ''.tr'' @ nat_str r @ ''.td'' @ nat_str n"

text \<open>The id string of a path; the container of the message itself is \<open>root\<close>.\<close>

definition id_text :: "string \<Rightarrow> path \<Rightarrow> string" where
  "id_text pre p = (if p = [] then ''root'' else concat (map (step_text pre) p))"

datatype ast_mutation =
    MutAdd path path md_node
  | MutAddInline path path inline_node
  | MutAddItem path path "md_node list"
  | MutText path string
  | MutAppend path string
  | MutLevel path nat
  | MutReplace path md_node
  | MutReplaceInline path inline_node
  | MutRemove path
  | MutPatchCode path string string
  | MutPatchHtml path string string nat bool

section \<open>The difference\<close>

definition diff_text_node :: "path \<Rightarrow> string \<Rightarrow> string \<Rightarrow> ast_mutation list" where
  "diff_text_node p old new =
     (case strip_prefix old new of
        Some chunk \<Rightarrow> if chunk = [] then [] else [MutAppend p chunk]
      | None \<Rightarrow> [MutText p new])"

text \<open>\<open>continue\<close> on a hash hit.\<close>

definition hash_hit :: "u64 option \<Rightarrow> u64 option \<Rightarrow> bool" where
  "hash_hit a b \<longleftrightarrow> a = b \<and> a \<noteq> None"

fun diff_inline_from :: "path \<Rightarrow> nat \<Rightarrow> inline_node list \<Rightarrow> inline_node list \<Rightarrow> ast_mutation list"
  and diff_inline :: "path \<Rightarrow> inline_node \<Rightarrow> inline_node \<Rightarrow> ast_mutation list" where
  "diff_inline_from p i (old # olds) (new # news) =
     (if hash_hit (inline_hash old) (inline_hash new) then []
      else diff_inline (p @ [SInline i]) old new) @ diff_inline_from p (Suc i) olds news"
| "diff_inline_from p i [] (new # news) =
     MutAddInline (p @ [SInline i]) p new # diff_inline_from p (Suc i) [] news"
| "diff_inline_from p i (old # olds) [] =
     MutRemove (p @ [SInline i]) # diff_inline_from p (Suc i) olds []"
| "diff_inline_from p i [] [] = []"
| "diff_inline p (IText old) n =
     (case n of IText new \<Rightarrow> diff_text_node p old new | _ \<Rightarrow> [MutReplaceInline p n])"
| "diff_inline p (IStrong old _) n =
     (case n of IStrong new _ \<Rightarrow> diff_inline_from p 0 old new | _ \<Rightarrow> [MutReplaceInline p n])"
| "diff_inline p (IEmphasis old _) n =
     (case n of IEmphasis new _ \<Rightarrow> diff_inline_from p 0 old new | _ \<Rightarrow> [MutReplaceInline p n])"
| "diff_inline p (ILink oh ot old _ _) n =
     (case n of
        ILink nh nt new _ _ \<Rightarrow>
          if oh \<noteq> nh \<or> ot \<noteq> nt then [MutReplaceInline p n] else diff_inline_from p 0 old new
      | _ \<Rightarrow> [MutReplaceInline p n])"
| "diff_inline p (IVcp ok ov old _) n =
     (case n of
        IVcp nk nv new _ \<Rightarrow>
          if ok \<noteq> nk \<or> ov \<noteq> nv then [MutReplaceInline p n]
          else (case old of
              Some oc \<Rightarrow> (case new of Some nc \<Rightarrow> diff_inline_from p 0 oc nc | None \<Rightarrow> [MutReplaceInline p n])
            | None \<Rightarrow> if new = None then [] else [MutReplaceInline p n])
      | _ \<Rightarrow> [MutReplaceInline p n])"
| "diff_inline p (IStrike old _) n =
     (case n of IStrike new _ \<Rightarrow> diff_inline_from p 0 old new | _ \<Rightarrow> [MutReplaceInline p n])"
| "diff_inline p (ICode old) n =
     (case n of ICode new \<Rightarrow> if old \<noteq> new then [MutReplaceInline p n] else [] | _ \<Rightarrow> [MutReplaceInline p n])"
| "diff_inline p IBreak n = (if n = IBreak then [] else [MutReplaceInline p n])"
| "diff_inline p (IImage _ _ _ _ _) n = [MutReplaceInline p n]"
| "diff_inline p (IMath _ _ _) n = [MutReplaceInline p n]"
| "diff_inline p (IRaw _ _) n = [MutReplaceInline p n]"

fun diff_md_from :: "path \<Rightarrow> (nat \<Rightarrow> step) \<Rightarrow> nat \<Rightarrow> md_node list \<Rightarrow> md_node list \<Rightarrow> ast_mutation list"
  and diff_items :: "path \<Rightarrow> nat \<Rightarrow> md_node list list \<Rightarrow> md_node list list \<Rightarrow> ast_mutation list"
  and diff_md :: "path \<Rightarrow> md_node \<Rightarrow> md_node \<Rightarrow> ast_mutation list" where
  "diff_md_from p st i (old # olds) (new # news) =
     (if hash_hit (md_hash old) (md_hash new) then [] else diff_md (p @ [st i]) old new) @
     diff_md_from p st (Suc i) olds news"
| "diff_md_from p st i [] (new # news) =
     MutAdd (p @ [st i]) p new # diff_md_from p st (Suc i) [] news"
| "diff_md_from p st i (old # olds) [] =
     MutRemove (p @ [st i]) # diff_md_from p st (Suc i) olds []"
| "diff_md_from p st i [] [] = []"
| "diff_items p i (old # olds) (new # news) =
     diff_md_from (p @ [SItem i]) SBlock 0 old new @ diff_items p (Suc i) olds news"
| "diff_items p i [] (new # news) = MutAddItem (p @ [SItem i]) p new # diff_items p (Suc i) [] news"
| "diff_items p i (old # olds) [] = MutRemove (p @ [SItem i]) # diff_items p (Suc i) olds []"
| "diff_items p i [] [] = []"
| "diff_md p (MParagraph old _) n =
     (case n of MParagraph new _ \<Rightarrow> diff_inline_from p 0 old new | _ \<Rightarrow> [MutReplace p n])"
| "diff_md p (MHeading ol old _) n =
     (case n of
        MHeading nl new _ \<Rightarrow> (if ol \<noteq> nl then [MutLevel p nl] else []) @ diff_inline_from p 0 old new
      | _ \<Rightarrow> [MutReplace p n])"
| "diff_md p (MQuote old _) n =
     (case n of MQuote new _ \<Rightarrow> diff_md_from p SBlock 0 old new | _ \<Rightarrow> [MutReplace p n])"
| "diff_md p (MList oo old _) n =
     (case n of
        MList no new _ \<Rightarrow> if oo \<noteq> no then [MutReplace p n] else diff_items p 0 old new
      | _ \<Rightarrow> [MutReplace p n])"
| "diff_md p (MCode _ _ _ _ _) n = [MutReplace p n]"
| "diff_md p (MTable _ _ _ _) n = [MutReplace p n]"
| "diff_md p MRule n = [MutReplace p n]"
| "diff_md p (MRaw _ _) n = [MutReplace p n]"

definition diff_ast :: "md_node list \<Rightarrow> md_node list \<Rightarrow> ast_mutation list" where
  "diff_ast old new = diff_md_from [] SRoot 0 old new"

end
