(* ===== verification/Ast_Diff_Laws.thy ===== *)
theory Ast_Diff_Laws
  imports Ast_Diff
begin

text \<open>
  What the mutations of the difference mean: the document tree of a message, whose edges carry the
  steps of the ids, the execution of mutations on it, and the theorem that executing the
  difference of two syntax trees on the document of the old one gives the document of the new one.
\<close>

section \<open>The document of a tree\<close>

datatype dkind =
    KRoot | KPara | KHead nat | KCode "string option" string "string option" "string option"
  | KQuote | KList bool | KItem | KTable "string option" "nat list" | KCell | KRule | KHtml string
  | KText string | KStrong | KEm | KCodeSpan string | KLink string "string option" bool
  | KImage string string "string option" bool | KBreak | KMath string bool
  | KVcp string "string option" bool | KStrike | KSpanHtml string

datatype dnode = DNode dkind "(step \<times> dnode) list"

fun keyed :: "(nat \<Rightarrow> step) \<Rightarrow> nat \<Rightarrow> dnode list \<Rightarrow> (step \<times> dnode) list" where
  "keyed st i [] = []"
| "keyed st i (n # ns) = (st i, n) # keyed st (Suc i) ns"

fun render_inline :: "inline_node \<Rightarrow> dnode" where
  "render_inline (IText v) = DNode (KText v) []"
| "render_inline (IStrong ch _) = DNode KStrong (keyed SInline 0 (map render_inline ch))"
| "render_inline (IEmphasis ch _) = DNode KEm (keyed SInline 0 (map render_inline ch))"
| "render_inline (ICode v) = DNode (KCodeSpan v) []"
| "render_inline (ILink href title ch nac _) =
     DNode (KLink href title nac) (keyed SInline 0 (map render_inline ch))"
| "render_inline (IImage src alt title nac _) = DNode (KImage src alt title nac) []"
| "render_inline IBreak = DNode KBreak []"
| "render_inline (IMath content display _) = DNode (KMath content display) []"
| "render_inline (IVcp kind v None _) = DNode (KVcp kind v False) []"
| "render_inline (IVcp kind v (Some ch) _) =
     DNode (KVcp kind v True) (keyed SInline 0 (map render_inline ch))"
| "render_inline (IStrike ch _) = DNode KStrike (keyed SInline 0 (map render_inline ch))"
| "render_inline (IRaw content _) = DNode (KSpanHtml content) []"

definition render_cell :: "inline_node list \<Rightarrow> dnode" where
  "render_cell cell = DNode KCell (keyed SInline 0 (map render_inline cell))"

fun render_md :: "md_node \<Rightarrow> dnode" where
  "render_md (MParagraph ch _) = DNode KPara (keyed SInline 0 (map render_inline ch))"
| "render_md (MHeading level ch _) = DNode (KHead level) (keyed SInline 0 (map render_inline ch))"
| "render_md (MCode lang code html theme _) = DNode (KCode lang code html theme) []"
| "render_md (MQuote ch _) = DNode KQuote (keyed SBlock 0 (map render_md ch))"
| "render_md (MList ordered items _) =
     DNode (KList ordered)
       (keyed SItem 0 (map (\<lambda>item. DNode KItem (keyed SBlock 0 (map render_md item))) items))"
| "render_md (MTable header rows wrapper _) =
     DNode (KTable wrapper (map length rows))
       (keyed SHead 0 (map render_cell header) @
        concat (map (\<lambda>(r, row). keyed (SCell r) 0 (map render_cell row)) (enumerate 0 rows)))"
| "render_md MRule = DNode KRule []"
| "render_md (MRaw content _) = DNode (KHtml content) []"

definition render_item :: "md_node list \<Rightarrow> dnode" where
  "render_item item = DNode KItem (keyed SBlock 0 (map render_md item))"

definition render_doc :: "md_node list \<Rightarrow> dnode" where
  "render_doc nodes = DNode KRoot (keyed SRoot 0 (map render_md nodes))"

section \<open>Executing mutations\<close>

fun update_child :: "step \<Rightarrow> (dnode \<Rightarrow> dnode option) \<Rightarrow> (step \<times> dnode) list
    \<Rightarrow> (step \<times> dnode) list option" where
  "update_child s f [] = None"
| "update_child s f ((k, n) # cs) =
     (if k = s then map_option (\<lambda>n'. (k, n') # cs) (f n)
      else map_option (Cons (k, n)) (update_child s f cs))"

fun at_path :: "path \<Rightarrow> (dnode \<Rightarrow> dnode option) \<Rightarrow> dnode \<Rightarrow> dnode option" where
  "at_path [] f n = f n"
| "at_path (s # p) f (DNode k cs) = map_option (DNode k) (update_child s (at_path p f) cs)"

fun add_child :: "step \<Rightarrow> dnode \<Rightarrow> dnode \<Rightarrow> dnode option" where
  "add_child s c (DNode k cs) = Some (DNode k (cs @ [(s, c)]))"

fun remove_child :: "step \<Rightarrow> dnode \<Rightarrow> dnode option" where
  "remove_child s (DNode k cs) =
     (if s \<in> set (map fst cs) then Some (DNode k (filter (\<lambda>(k, n). k \<noteq> s) cs)) else None)"

fun set_text :: "(string \<Rightarrow> string) \<Rightarrow> dnode \<Rightarrow> dnode option" where
  "set_text f (DNode (KText v) cs) = Some (DNode (KText (f v)) cs)"
| "set_text f n = None"

fun set_level :: "nat \<Rightarrow> dnode \<Rightarrow> dnode option" where
  "set_level l (DNode (KHead _) cs) = Some (DNode (KHead l) cs)"
| "set_level l n = None"

definition add_at :: "path \<Rightarrow> path \<Rightarrow> dnode \<Rightarrow> dnode \<Rightarrow> dnode option" where
  "add_at p parent c t =
     (if p \<noteq> [] \<and> butlast p = parent then at_path parent (add_child (last p) c) t else None)"

text \<open>The two patches act inside a code or HTML node, below the nodes of the document; they come from
  the streaming variant only.\<close>

fun apply_mutation :: "ast_mutation \<Rightarrow> dnode \<Rightarrow> dnode option" where
  "apply_mutation (MutAdd p parent node) t = add_at p parent (render_md node) t"
| "apply_mutation (MutAddInline p parent node) t = add_at p parent (render_inline node) t"
| "apply_mutation (MutAddItem p parent ch) t = add_at p parent (render_item ch) t"
| "apply_mutation (MutText p v) t = at_path p (set_text (\<lambda>_. v)) t"
| "apply_mutation (MutAppend p chunk) t = at_path p (set_text (\<lambda>v. v @ chunk)) t"
| "apply_mutation (MutLevel p l) t = at_path p (set_level l) t"
| "apply_mutation (MutReplace p node) t = at_path p (\<lambda>_. Some (render_md node)) t"
| "apply_mutation (MutReplaceInline p node) t = at_path p (\<lambda>_. Some (render_inline node)) t"
| "apply_mutation (MutRemove p) t =
     (if p = [] then None else at_path (butlast p) (remove_child (last p)) t)"
| "apply_mutation (MutPatchCode _ _ _) t = None"
| "apply_mutation (MutPatchHtml _ _ _ _ _) t = None"

fun apply_mutations :: "ast_mutation list \<Rightarrow> dnode \<Rightarrow> dnode option" where
  "apply_mutations [] t = Some t"
| "apply_mutations (m # ms) t = (case apply_mutation m t of None \<Rightarrow> None | Some t' \<Rightarrow> apply_mutations ms t')"

section \<open>When a hash may be trusted\<close>

fun inline_subs :: "inline_node \<Rightarrow> inline_node list" where
  "inline_subs (IStrong ch h) = IStrong ch h # concat (map inline_subs ch)"
| "inline_subs (IEmphasis ch h) = IEmphasis ch h # concat (map inline_subs ch)"
| "inline_subs (ILink href title ch nac h) = ILink href title ch nac h # concat (map inline_subs ch)"
| "inline_subs (IVcp kind v (Some ch) h) = IVcp kind v (Some ch) h # concat (map inline_subs ch)"
| "inline_subs (IStrike ch h) = IStrike ch h # concat (map inline_subs ch)"
| "inline_subs n = [n]"

fun md_subs :: "md_node \<Rightarrow> md_node list" where
  "md_subs (MQuote ch h) = MQuote ch h # concat (map md_subs ch)"
| "md_subs (MList ordered items h) =
     MList ordered items h # concat (map (\<lambda>item. concat (map md_subs item)) items)"
| "md_subs n = [n]"

fun own_inlines :: "md_node \<Rightarrow> inline_node list" where
  "own_inlines (MParagraph ch _) = concat (map inline_subs ch)"
| "own_inlines (MHeading _ ch _) = concat (map inline_subs ch)"
| "own_inlines _ = []"

fun same_asset_flag :: "inline_node \<Rightarrow> inline_node \<Rightarrow> bool" where
  "same_asset_flag (ILink href _ _ nac _) (ILink href' _ _ nac' _) \<longleftrightarrow> (href = href' \<longrightarrow> nac = nac')"
| "same_asset_flag _ _ \<longleftrightarrow> True"

definition inline_agrees :: "inline_node list \<Rightarrow> inline_node list \<Rightarrow> bool" where
  "inline_agrees as bs \<longleftrightarrow>
     (\<forall>a\<in>set as. \<forall>b\<in>set bs. same_asset_flag a b \<and>
       (hash_hit (inline_hash a) (inline_hash b) \<longrightarrow> render_inline a = render_inline b))"

definition md_agrees :: "md_node list \<Rightarrow> md_node list \<Rightarrow> bool" where
  "md_agrees as bs \<longleftrightarrow>
     (\<forall>a\<in>set as. \<forall>b\<in>set bs. inline_agrees (own_inlines a) (own_inlines b) \<and>
       (hash_hit (md_hash a) (md_hash b) \<longrightarrow> render_md a = render_md b))"

text \<open>Equal hashes of nodes of the two trees mean equal renderings.\<close>

definition hashes_agree :: "md_node list \<Rightarrow> md_node list \<Rightarrow> bool" where
  "hashes_agree olds news \<longleftrightarrow>
     md_agrees (concat (map md_subs olds)) (concat (map md_subs news))"

section \<open>Subtrees of the document\<close>

fun find_child :: "step \<Rightarrow> (step \<times> dnode) list \<Rightarrow> dnode option" where
  "find_child s [] = None"
| "find_child s ((k, n) # cs) = (if k = s then Some n else find_child s cs)"

fun get_at :: "path \<Rightarrow> dnode \<Rightarrow> dnode option" where
  "get_at [] n = Some n"
| "get_at (s # p) (DNode k cs) = (case find_child s cs of None \<Rightarrow> None | Some n \<Rightarrow> get_at p n)"

fun set_child :: "step \<Rightarrow> dnode \<Rightarrow> (step \<times> dnode) list \<Rightarrow> (step \<times> dnode) list" where
  "set_child s c [] = []"
| "set_child s c ((k, n) # cs) = (if k = s then (k, c) # cs else (k, n) # set_child s c cs)"

fun put_at :: "path \<Rightarrow> dnode \<Rightarrow> dnode \<Rightarrow> dnode" where
  "put_at [] c n = c"
| "put_at (s # p) c (DNode k cs) =
     DNode k (case find_child s cs of None \<Rightarrow> cs | Some n \<Rightarrow> set_child s (put_at p c n) cs)"

lemma update_child_find:
  "update_child s f cs =
     (case find_child s cs of None \<Rightarrow> None | Some n \<Rightarrow> map_option (\<lambda>n'. set_child s n' cs) (f n))"
  by (induction s f cs rule: update_child.induct)
    (auto simp: option.map_comp comp_def split: option.splits)

lemma at_path_get:
  "at_path p f t = (case get_at p t of None \<Rightarrow> None | Some n \<Rightarrow> map_option (\<lambda>n'. put_at p n' t) (f n))"
proof (induction p arbitrary: t)
  case (Cons s p)
  show ?case
    by (cases t) (auto simp: update_child_find Cons.IH option.map_comp comp_def split: option.splits)
qed (simp add: option.map_ident)

lemma find_set_child:
  "find_child s' (set_child s c cs) =
     (if s' = s then map_option (\<lambda>_. c) (find_child s cs) else find_child s' cs)"
  by (induction cs) auto

lemma set_set_child: "set_child s d (set_child s c cs) = set_child s d cs"
  by (induction cs) auto

lemma set_find_child: "find_child s cs = Some c \<Longrightarrow> set_child s c cs = cs"
  by (induction cs) auto

lemma get_put: "get_at p t = Some n \<Longrightarrow> get_at p (put_at p c t) = Some c"
proof (induction p arbitrary: t)
  case (Cons s p)
  then show ?case by (cases t) (auto simp: find_set_child split: option.splits)
qed simp

lemma put_put: "put_at p d (put_at p c t) = put_at p d t"
proof (induction p arbitrary: t)
  case (Cons s p)
  then show ?case by (cases t) (auto simp: find_set_child set_set_child split: option.splits)
qed simp

lemma put_get: "get_at p t = Some c \<Longrightarrow> put_at p c t = t"
proof (induction p arbitrary: t)
  case (Cons s p)
  then show ?case by (cases t) (auto simp: set_find_child split: option.splits)
qed simp

lemma get_append: "get_at (p @ q) t = (case get_at p t of None \<Rightarrow> None | Some n \<Rightarrow> get_at q n)"
proof (induction p arbitrary: t)
  case (Cons s p)
  then show ?case by (cases t) (auto split: option.splits)
qed simp

lemma put_append:
  "get_at p t = Some n \<Longrightarrow> put_at (p @ q) c t = put_at p (put_at q c n) t"
proof (induction p arbitrary: t)
  case (Cons s p)
  then show ?case by (cases t) (auto split: option.splits)
qed simp

section \<open>Running mutations at a subtree\<close>

definition runs :: "path \<Rightarrow> ast_mutation list \<Rightarrow> dnode \<Rightarrow> dnode \<Rightarrow> bool" where
  "runs p ms n n' \<longleftrightarrow>
     (\<forall>t. get_at p t = Some n \<longrightarrow> apply_mutations ms t = Some (put_at p n' t))"

lemma runsI: "(\<And>t. get_at p t = Some n \<Longrightarrow> apply_mutations ms t = Some (put_at p n' t)) \<Longrightarrow> runs p ms n n'"
  by (simp add: runs_def)

lemma apply_mutations_append:
  "apply_mutations (ms @ ms') t =
     (case apply_mutations ms t of None \<Rightarrow> None | Some t' \<Rightarrow> apply_mutations ms' t')"
  by (induction ms arbitrary: t) (auto split: option.splits)

lemma runs_Nil [intro, simp]: "runs p [] n n"
  by (simp add: runs_def put_get)

lemma runs_append: "runs p ms n n' \<Longrightarrow> runs p ms' n' n'' \<Longrightarrow> runs p (ms @ ms') n n''"
  by (simp add: runs_def apply_mutations_append get_put put_put)

lemma runs_Cons: "runs p [m] n n' \<Longrightarrow> runs p ms n' n'' \<Longrightarrow> runs p (m # ms) n n''"
  using runs_append[of p "[m]"] by simp

lemma runs_child:
  assumes "runs (p @ [s]) ms c c'" "find_child s cs = Some c"
  shows "runs p ms (DNode k cs) (DNode k (set_child s c' cs))"
  using assms by (auto simp: runs_def get_append put_append)

lemma runs_at:
  assumes "f n = Some n'" "\<And>t. apply_mutation m t = at_path p f t"
  shows "runs p [m] n n'"
  using assms by (simp add: runs_def at_path_get)

lemma runs_add:
  assumes "\<And>t. apply_mutation m t = add_at (p @ [s]) p c t"
  shows "runs p [m] (DNode k cs) (DNode k (cs @ [(s, c)]))"
  using assms by (simp add: runs_def add_at_def at_path_get)

lemma filter_absent: "s \<notin> set (map fst cs) \<Longrightarrow> filter (\<lambda>(k, n). k \<noteq> s) cs = cs"
  by (induction cs) auto

lemma runs_remove:
  assumes "s \<notin> set (map fst pre)" "s \<notin> set (map fst post)"
  shows "runs p [MutRemove (p @ [s])] (DNode k (pre @ (s, c) # post)) (DNode k (pre @ post))"
  using assms by (simp add: runs_def at_path_get filter_absent)

text \<open>The keys of a container are its indices.\<close>

lemma keyed_keys: "map fst (keyed st i ns) = map st [i..<i + length ns]"
proof (induction ns arbitrary: i)
  case (Cons n ns)
  have "[i..<i + length (n # ns)] = i # [Suc i..<Suc i + length ns]" by (simp add: upt_rec)
  then show ?case using Cons.IH[of "Suc i"] by simp
qed simp

lemma keyed_fresh: "inj st \<Longrightarrow> st i \<notin> set (map fst (keyed st (Suc i) ns))"
  by (simp only: keyed_keys set_map set_upt) (auto dest: injD)

lemma find_child_append:
  "s \<notin> set (map fst pre) \<Longrightarrow> find_child s (pre @ cs) = find_child s cs"
  by (induction pre) auto

lemma set_child_append:
  "s \<notin> set (map fst pre) \<Longrightarrow> set_child s c (pre @ cs) = pre @ set_child s c cs"
  by (induction pre) auto

text \<open>One position of a container: a child that changes, a new last child, a child that goes.\<close>

lemma runs_keep:
  assumes "runs (p @ [s]) ms c c'" "s \<notin> set (map fst pre)"
    and "runs p ms' (DNode k (pre @ (s, c') # rest)) N"
  shows "runs p (ms @ ms') (DNode k (pre @ (s, c) # rest)) N"
proof (rule runs_append)
  show "runs p ms (DNode k (pre @ (s, c) # rest)) (DNode k (pre @ (s, c') # rest))"
    using runs_child[OF assms(1), of "pre @ (s, c) # rest" k] assms(2)
    by (simp add: find_child_append set_child_append)
qed (rule assms(3))

lemma runs_new:
  assumes "\<And>t. apply_mutation m t = add_at (p @ [s]) p c t"
    and "runs p ms (DNode k (pre @ [(s, c)])) N"
  shows "runs p (m # ms) (DNode k pre) N"
  using runs_Cons[OF runs_add[OF assms(1)] assms(2)] .

lemma runs_drop:
  assumes "s \<notin> set (map fst pre)" "s \<notin> set (map fst rest)"
    and "runs p ms (DNode k (pre @ rest)) N"
  shows "runs p (MutRemove (p @ [s]) # ms) (DNode k (pre @ (s, c) # rest)) N"
  using runs_Cons[OF runs_remove[OF assms(1,2)] assms(3)] .

lemma inj_steps [simp]: "inj SInline" "inj SBlock" "inj SItem" "inj SRoot"
  by (auto intro: injI)

lemma runs_replace: "runs p [MutReplace p n] x (render_md n)"
  by (simp add: runs_def at_path_get)

lemma runs_replace_inline: "runs p [MutReplaceInline p n] x (render_inline n)"
  by (simp add: runs_def at_path_get)

lemma runs_text: "runs p (diff_text_node p old new) (DNode (KText old) []) (DNode (KText new) [])"
proof (cases "strip_prefix old new")
  case None
  then show ?thesis by (simp add: diff_text_node_def runs_def at_path_get)
next
  case (Some chunk)
  then have "new = old @ chunk" by (simp add: strip_prefix_Some)
  then show ?thesis using Some by (simp add: diff_text_node_def runs_def at_path_get put_get)
qed

lemma runs_level: "runs p [MutLevel p l] (DNode (KHead m) cs) (DNode (KHead l) cs)"
  by (simp add: runs_def at_path_get)

section \<open>The difference of inline nodes\<close>

lemma inline_agrees_Cons:
  assumes "inline_agrees (concat (map inline_subs (a # as))) (concat (map inline_subs (b # bs)))"
  shows "inline_agrees (inline_subs a) (inline_subs b)"
    "inline_agrees (concat (map inline_subs as)) (concat (map inline_subs bs))"
  using assms by (auto simp: inline_agrees_def)

lemma inline_subs_self: "n \<in> set (inline_subs n)"
  by (induction n rule: inline_subs.induct) auto

lemma inline_agrees_hit:
  "inline_agrees (inline_subs a) (inline_subs b) \<Longrightarrow> hash_hit (inline_hash a) (inline_hash b) \<Longrightarrow>
     render_inline a = render_inline b"
  using inline_subs_self by (auto simp: inline_agrees_def)

lemma inline_agrees_flag: "inline_agrees (inline_subs a) (inline_subs b) \<Longrightarrow> same_asset_flag a b"
  using inline_subs_self by (auto simp: inline_agrees_def)

lemma inline_agrees_sub:
  "inline_agrees as bs \<Longrightarrow> set as' \<subseteq> set as \<Longrightarrow> set bs' \<subseteq> set bs \<Longrightarrow> inline_agrees as' bs'"
  by (auto simp: inline_agrees_def)

lemma inline_agrees_tl: "inline_agrees (a # as) (b # bs) \<Longrightarrow> inline_agrees as bs"
  by (rule inline_agrees_sub) auto

lemma inline_agrees_Nil [simp]: "inline_agrees [] bs" "inline_agrees as []"
  by (auto simp: inline_agrees_def)

definition keys_from :: "(nat \<Rightarrow> step) \<Rightarrow> nat \<Rightarrow> (step \<times> dnode) list \<Rightarrow> bool" where
  "keys_from st i pre \<longleftrightarrow> (\<forall>j\<ge>i. st j \<notin> set (map fst pre))"

lemma keys_from_Nil [simp]: "keys_from st i []"
  by (simp add: keys_from_def)

lemma keys_from_fresh: "keys_from st i pre \<Longrightarrow> st i \<notin> set (map fst pre)"
  by (simp add: keys_from_def)

lemma keys_from_Suc: "keys_from st i pre \<Longrightarrow> keys_from st (Suc i) pre"
  by (simp add: keys_from_def)

lemma keys_from_snoc: "inj st \<Longrightarrow> keys_from st i pre \<Longrightarrow> keys_from st (Suc i) (pre @ [(st i, c)])"
  by (auto simp: keys_from_def dest: injD)

lemma runs_inline_nodes:
  shows "inline_agrees (concat (map inline_subs olds)) (concat (map inline_subs news)) \<Longrightarrow>
      keys_from SInline i pre \<Longrightarrow>
      runs p (diff_inline_from p i olds news)
        (DNode k (pre @ keyed SInline i (map render_inline olds)))
        (DNode k (pre @ keyed SInline i (map render_inline news)))"
    and "inline_agrees (inline_subs old) (inline_subs new) \<Longrightarrow>
      runs p (diff_inline p old new) (render_inline old) (render_inline new)"
proof (induction p i olds news and p old new arbitrary: pre k and rule: diff_inline_from_diff_inline.induct)
  case (1 p i old olds new news)
  note ag = inline_agrees_Cons[OF "1.prems"(1)]
  let ?ms = "if hash_hit (inline_hash old) (inline_hash new) then [] else diff_inline (p @ [SInline i]) old new"
  have "runs (p @ [SInline i]) ?ms (render_inline old) (render_inline new)"
    using "1.IH"(1) ag(1) inline_agrees_hit[OF ag(1)] by simp
  moreover have "runs p (diff_inline_from p (Suc i) olds news)
      (DNode k ((pre @ [(SInline i, render_inline new)]) @ keyed SInline (Suc i) (map render_inline olds)))
      (DNode k ((pre @ [(SInline i, render_inline new)]) @ keyed SInline (Suc i) (map render_inline news)))"
    by (rule "1.IH"(2)) (use ag(2) "1.prems"(2) keys_from_snoc[of SInline] in auto)
  ultimately show ?case
    using runs_keep[of p "SInline i" ?ms] keys_from_fresh[OF "1.prems"(2)] by simp
next
  case (2 p i new news)
  have "runs p (diff_inline_from p (Suc i) [] news)
      (DNode k ((pre @ [(SInline i, render_inline new)]) @ keyed SInline (Suc i) (map render_inline [])))
      (DNode k ((pre @ [(SInline i, render_inline new)]) @ keyed SInline (Suc i) (map render_inline news)))"
    by (rule "2.IH") (use "2.prems" keys_from_snoc[of SInline] in auto)
  then show ?case
    using runs_new[of "MutAddInline (p @ [SInline i]) p new" p "SInline i" "render_inline new"] by simp
next
  case (3 p i old olds)
  have "runs p (diff_inline_from p (Suc i) olds [])
      (DNode k (pre @ keyed SInline (Suc i) (map render_inline olds)))
      (DNode k (pre @ keyed SInline (Suc i) (map render_inline [])))"
    by (rule "3.IH") (use "3.prems" keys_from_Suc in auto)
  then show ?case
    using runs_drop[of "SInline i" pre] keys_from_fresh[OF "3.prems"(2)] keyed_fresh[of SInline] by simp
next
  case (5 p old n)
  show ?case
    by (cases n) (simp_all only: diff_inline.simps inline_node.case runs_replace_inline render_inline.simps(1) runs_text)
next
  case (6 p old h n)
  show ?case
  proof (cases n)
    case (IStrong new h')
    then show ?thesis using inline_agrees_tl[OF "6.prems"[unfolded IStrong inline_subs.simps]] "6.IH"[OF IStrong _ keys_from_Nil, where k = KStrong] by (simp add: IStrong)
  qed (simp_all only: diff_inline.simps inline_node.case runs_replace_inline)
next
  case (7 p old h n)
  show ?case
  proof (cases n)
    case (IEmphasis new h')
    then show ?thesis using inline_agrees_tl[OF "7.prems"[unfolded IEmphasis inline_subs.simps]] "7.IH"[OF IEmphasis _ keys_from_Nil, where k = KEm] by (simp add: IEmphasis)
  qed (simp_all only: diff_inline.simps inline_node.case runs_replace_inline)
next
  case (8 p oh ot old nac h n)
  show ?case
  proof (cases n)
    case (ILink nh nt new nac' h')
    show ?thesis
    proof (cases "oh \<noteq> nh \<or> ot \<noteq> nt")
      case True
      then show ?thesis by (simp only: ILink diff_inline.simps inline_node.case if_True runs_replace_inline)
    next
      case False
      then show ?thesis
        using inline_agrees_tl[OF "8.prems"[unfolded ILink inline_subs.simps]] "8.IH"[OF ILink False _ keys_from_Nil, where k = "KLink oh ot nac"]
          inline_agrees_flag[OF "8.prems"] ILink by simp
    qed
  qed (simp_all only: diff_inline.simps inline_node.case runs_replace_inline)
next
  case (9 p ok ov old h n)
  show ?case
  proof (cases n)
    case (IVcp nk nv new h')
    show ?thesis
    proof (cases "ok \<noteq> nk \<or> ov \<noteq> nv \<or> (old = None \<longleftrightarrow> new \<noteq> None)")
      case True
      then have "diff_inline p (IVcp ok ov old h) n = [MutReplaceInline p n]"
        using IVcp by (auto split: option.splits)
      then show ?thesis by (simp only: runs_replace_inline)
    next
      case False
      show ?thesis
      proof (cases old)
        case None
        then show ?thesis using False IVcp by (simp add: runs_Nil)
      next
        case (Some oc)
        then obtain nc where new: "new = Some nc" using False by auto
        show ?thesis
          using inline_agrees_tl[OF "9.prems"[unfolded IVcp Some new inline_subs.simps]] False
            "9.IH"[OF IVcp _ Some new _ keys_from_Nil, where k = "KVcp ok ov True"]
          by (simp add: IVcp Some new)
      qed
    qed
  qed (simp_all only: diff_inline.simps inline_node.case runs_replace_inline)
next
  case (10 p old h n)
  show ?case
  proof (cases n)
    case (IStrike new h')
    then show ?thesis using inline_agrees_tl[OF "10.prems"[unfolded IStrike inline_subs.simps]] "10.IH"[OF IStrike _ keys_from_Nil, where k = KStrike] by (simp add: IStrike)
  qed (simp_all only: diff_inline.simps inline_node.case runs_replace_inline)
next
  case (11 p old n)
  show ?case
  proof (cases n)
    case (ICode new)
    then show ?thesis by (cases "old = new") (simp_all add: runs_replace_inline[where n = "ICode new", simplified])
  qed (simp_all only: diff_inline.simps inline_node.case runs_replace_inline)
next
  case (12 p n)
  show ?case
    by (cases "n = IBreak") (simp, simp only: diff_inline.simps if_False runs_replace_inline)
qed (simp_all only: diff_inline.simps diff_inline_from.simps runs_replace_inline runs_Nil keyed.simps list.map append_Nil2)

section \<open>The difference of blocks\<close>

abbreviation item_subs :: "md_node list \<Rightarrow> md_node list" where
  "item_subs item \<equiv> concat (map md_subs item)"

lemma md_agrees_sub:
  "md_agrees as bs \<Longrightarrow> set as' \<subseteq> set as \<Longrightarrow> set bs' \<subseteq> set bs \<Longrightarrow> md_agrees as' bs'"
  unfolding md_agrees_def by blast

lemma md_agrees_Cons:
  assumes "md_agrees (item_subs (a # as)) (item_subs (b # bs))"
  shows "md_agrees (md_subs a) (md_subs b)" "md_agrees (item_subs as) (item_subs bs)"
  by (rule md_agrees_sub[OF assms], auto)+

lemma md_agrees_items:
  assumes "md_agrees (concat (map item_subs (a # as))) (concat (map item_subs (b # bs)))"
  shows "md_agrees (item_subs a) (item_subs b)"
    "md_agrees (concat (map item_subs as)) (concat (map item_subs bs))"
  by (rule md_agrees_sub[OF assms], auto)+

lemma md_agrees_tl: "md_agrees (a # as) (b # bs) \<Longrightarrow> md_agrees as bs"
  by (rule md_agrees_sub) auto

lemma md_agrees_Nil [simp]: "md_agrees [] bs" "md_agrees as []"
  by (simp_all add: md_agrees_def)

lemma md_subs_self: "n \<in> set (md_subs n)"
  by (cases n) auto

lemma md_agrees_hit:
  "md_agrees (md_subs a) (md_subs b) \<Longrightarrow> hash_hit (md_hash a) (md_hash b) \<Longrightarrow> render_md a = render_md b"
  using md_subs_self by (auto simp: md_agrees_def)

lemma md_agrees_inlines:
  "md_agrees (md_subs a) (md_subs b) \<Longrightarrow> inline_agrees (own_inlines a) (own_inlines b)"
  using md_subs_self by (auto simp: md_agrees_def)

lemmas runs_inline_list =
  runs_inline_nodes(1)[where pre = "[]" and i = 0, OF _ keys_from_Nil, unfolded append_Nil]

lemma runs_md_nodes:
  shows "md_agrees (item_subs olds) (item_subs news) \<Longrightarrow> inj st \<Longrightarrow> keys_from st i pre \<Longrightarrow>
      runs p (diff_md_from p st i olds news)
        (DNode k (pre @ keyed st i (map render_md olds)))
        (DNode k (pre @ keyed st i (map render_md news)))"
    and "md_agrees (concat (map item_subs oitems)) (concat (map item_subs nitems)) \<Longrightarrow>
      keys_from SItem j pre \<Longrightarrow>
      runs q (diff_items q j oitems nitems)
        (DNode k (pre @ keyed SItem j (map render_item oitems)))
        (DNode k (pre @ keyed SItem j (map render_item nitems)))"
    and "md_agrees (md_subs old) (md_subs new) \<Longrightarrow>
      runs r (diff_md r old new) (render_md old) (render_md new)"
proof (induction p st i olds news and q j oitems nitems and r old new arbitrary: pre k and pre k and
    rule: diff_md_from_diff_items_diff_md.induct)
  case (1 p st i old olds new news)
  note ag = md_agrees_Cons[OF "1.prems"(1)]
  let ?ms = "if hash_hit (md_hash old) (md_hash new) then [] else diff_md (p @ [st i]) old new"
  have "runs (p @ [st i]) ?ms (render_md old) (render_md new)"
    using "1.IH"(1) ag(1) md_agrees_hit[OF ag(1)] by simp
  moreover have "runs p (diff_md_from p st (Suc i) olds news)
      (DNode k ((pre @ [(st i, render_md new)]) @ keyed st (Suc i) (map render_md olds)))
      (DNode k ((pre @ [(st i, render_md new)]) @ keyed st (Suc i) (map render_md news)))"
    by (rule "1.IH"(2)) (use ag(2) "1.prems"(2,3) keys_from_snoc[of st] in auto)
  ultimately show ?case
    using runs_keep[of p "st i" ?ms] keys_from_fresh[OF "1.prems"(3)] by simp
next
  case (2 p st i new news)
  have "runs p (diff_md_from p st (Suc i) [] news)
      (DNode k ((pre @ [(st i, render_md new)]) @ keyed st (Suc i) (map render_md [])))
      (DNode k ((pre @ [(st i, render_md new)]) @ keyed st (Suc i) (map render_md news)))"
    by (rule "2.IH") (use "2.prems" keys_from_snoc[of st] in auto)
  then show ?case
    using runs_new[of "MutAdd (p @ [st i]) p new" p "st i" "render_md new"] by simp
next
  case (3 p st i old olds)
  have "runs p (diff_md_from p st (Suc i) olds [])
      (DNode k (pre @ keyed st (Suc i) (map render_md olds)))
      (DNode k (pre @ keyed st (Suc i) (map render_md [])))"
    by (rule "3.IH") (use "3.prems" keys_from_Suc in auto)
  then show ?case
    using runs_drop[of "st i" pre] keys_from_fresh[OF "3.prems"(3)] keyed_fresh[OF "3.prems"(2)] by simp
next
  case (5 p i old olds new news)
  note ag = md_agrees_items[OF "5.prems"(1)]
  let ?ms = "diff_md_from (p @ [SItem i]) SBlock 0 old new"
  have "runs (p @ [SItem i]) ?ms (render_item old) (render_item new)"
    using "5.IH"(1)[OF ag(1) _ keys_from_Nil, where k = KItem] by (simp add: render_item_def)
  moreover have "runs p (diff_items p (Suc i) olds news)
      (DNode k ((pre @ [(SItem i, render_item new)]) @ keyed SItem (Suc i) (map render_item olds)))
      (DNode k ((pre @ [(SItem i, render_item new)]) @ keyed SItem (Suc i) (map render_item news)))"
    by (rule "5.IH"(2)) (use ag(2) "5.prems"(2) keys_from_snoc[of SItem] in auto)
  ultimately show ?case
    using runs_keep[of p "SItem i" ?ms] keys_from_fresh[OF "5.prems"(2)] by simp
next
  case (6 p i new news)
  have "runs p (diff_items p (Suc i) [] news)
      (DNode k ((pre @ [(SItem i, render_item new)]) @ keyed SItem (Suc i) (map render_item [])))
      (DNode k ((pre @ [(SItem i, render_item new)]) @ keyed SItem (Suc i) (map render_item news)))"
    by (rule "6.IH") (use "6.prems" keys_from_snoc[of SItem] in auto)
  then show ?case
    using runs_new[of "MutAddItem (p @ [SItem i]) p new" p "SItem i" "render_item new"] by simp
next
  case (7 p i old olds)
  have "runs p (diff_items p (Suc i) olds [])
      (DNode k (pre @ keyed SItem (Suc i) (map render_item olds)))
      (DNode k (pre @ keyed SItem (Suc i) (map render_item [])))"
    by (rule "7.IH") (use "7.prems" keys_from_Suc in auto)
  then show ?case
    using runs_drop[of "SItem i" pre] keys_from_fresh[OF "7.prems"(2)] keyed_fresh[of SItem] by simp
next
  case (9 p old h n)
  note ag = md_agrees_inlines[OF "9.prems"]
  show ?case
  proof (cases n)
    case (MParagraph new h')
    then show ?thesis using runs_inline_list[of old new p KPara] ag by simp
  qed (simp_all only: diff_md.simps md_node.case runs_replace)
next
  case (10 p ol old h n)
  note ag = md_agrees_inlines[OF "10.prems"]
  show ?case
  proof (cases n)
    case (MHeading nl new h')
    let ?h = "\<lambda>l. DNode (KHead l) (keyed SInline 0 (map render_inline old))"
    have "runs p (if ol \<noteq> nl then [MutLevel p nl] else []) (?h ol) (?h nl)"
      by (simp add: runs_level)
    then show ?thesis
      using runs_append[OF _ runs_inline_list[of old new p "KHead nl"]] ag MHeading by simp
  qed (simp_all only: diff_md.simps md_node.case runs_replace)
next
  case (11 p old h n)
  show ?case
  proof (cases n)
    case (MQuote new h')
    then show ?thesis
      using md_agrees_tl[OF "11.prems"[unfolded MQuote md_subs.simps]]
        "11.IH"[OF MQuote _ _ keys_from_Nil, where k = KQuote] by simp
  qed (simp_all only: diff_md.simps md_node.case runs_replace)
next
  case (12 p oo old h n)
  show ?case
  proof (cases n)
    case (MList no new h')
    show ?thesis
    proof (cases "oo = no")
      case True
      then show ?thesis
        using md_agrees_tl[OF "12.prems"[unfolded MList md_subs.simps]]
          "12.IH"[OF MList _ _ keys_from_Nil, where k = "KList oo"]
        by (simp add: MList render_item_def[abs_def])
    next
      case False
      then show ?thesis by (simp only: MList diff_md.simps md_node.case if_True runs_replace simp_thms)
    qed
  qed (simp_all only: diff_md.simps md_node.case runs_replace)
qed (simp_all only: diff_md.simps diff_md_from.simps diff_items.simps runs_replace runs_Nil keyed.simps
    list.map append_Nil2)

section \<open>Ids\<close>

text \<open>The shape of the paths of a message: one top-level step, then steps below it.\<close>

fun below :: "step \<Rightarrow> bool" where
  "below (SRoot _) = False"
| "below _ = True"

fun doc_path :: "path \<Rightarrow> bool" where
  "doc_path [] = True"
| "doc_path (SRoot _ # p) = list_all below p"
| "doc_path (_ # p) = False"

definition no_digit_first :: "string \<Rightarrow> bool" where
  "no_digit_first s \<longleftrightarrow> s = [] \<or> \<not> is_digit (hd s)"

lemma digits_unique:
  assumes "list_all is_digit a" "list_all is_digit b" "no_digit_first x" "no_digit_first y" "a @ x = b @ y"
  shows "a = b \<and> x = y"
  using assms
proof (induction a arbitrary: b)
  case Nil
  then show ?case by (cases b) (auto simp: no_digit_first_def)
next
  case (Cons c a)
  then show ?case by (cases b) (auto simp: no_digit_first_def)
qed

lemma nat_str_append_iff:
  "no_digit_first x \<Longrightarrow> no_digit_first y \<Longrightarrow>
     nat_str m @ x = nat_str n @ y \<longleftrightarrow> m = n \<and> x = y"
  using digits_unique[OF nat_str_digits nat_str_digits] nat_str_inj by blast

lemma no_digit_first_Cons [simp]: "no_digit_first (c # s) \<longleftrightarrow> \<not> is_digit c"
  by (simp add: no_digit_first_def)

lemma no_digit_dot [simp]: "\<not> is_digit (CHR ''.'')"
  by (simp add: is_digit_def)

lemma steps_no_digit: "list_all below p \<Longrightarrow> no_digit_first (concat (map (step_text pre) p))"
  by (cases p) (auto simp: no_digit_first_def[of "[]"] elim!: below.elims)

lemma step_text_unique:
  assumes "below s" "below s'" "no_digit_first x" "no_digit_first y"
    and "step_text pre s @ x = step_text pre s' @ y"
  shows "s = s' \<and> x = y"
  using assms by (cases s; cases s') (simp_all add: nat_str_append_iff)

lemma steps_text_inj:
  "list_all below p \<Longrightarrow> list_all below q \<Longrightarrow>
     concat (map (step_text pre) p) = concat (map (step_text pre) q) \<Longrightarrow> p = q"
proof (induction p arbitrary: q)
  case Nil
  then show ?case by (cases q) (auto elim!: below.elims)
next
  case (Cons s p)
  show ?case
  proof (cases q)
    case Nil
    then show ?thesis using Cons.prems by (auto elim!: below.elims)
  next
    case (Cons s' q')
    then show ?thesis
      using step_text_unique[of s s' "concat (map (step_text pre) p)" "concat (map (step_text pre) q')" pre]
        Cons.prems Cons.IH[of q'] steps_no_digit by simp
  qed
qed

lemma id_text_unique:
  assumes "doc_path p" "doc_path q" "id_text ''t'' p = id_text ''t'' q"
  shows "p = q"
proof (cases p; cases q)
  fix a p' b q'
  assume p: "p = a # p'" and q: "q = b # q'"
  obtain m n where a: "a = SRoot m" and b: "b = SRoot n"
    using assms(1,2) p q by (cases a; cases b) auto
  have "list_all below p'" "list_all below q'" using assms(1,2) p q a b by auto
  then show ?thesis
    using assms(3) p q a b steps_text_inj[of p' q' "''t''"]
    by (simp add: id_text_def nat_str_append_iff steps_no_digit)
qed (use assms in \<open>auto simp: id_text_def elim!: doc_path.elims\<close>)

text \<open>The ids a mutation carries.\<close>

fun mutation_ids :: "ast_mutation \<Rightarrow> path list" where
  "mutation_ids (MutAdd p parent _) = [p, parent]"
| "mutation_ids (MutAddInline p parent _) = [p, parent]"
| "mutation_ids (MutAddItem p parent _) = [p, parent]"
| "mutation_ids (MutText p _) = [p]"
| "mutation_ids (MutAppend p _) = [p]"
| "mutation_ids (MutLevel p _) = [p]"
| "mutation_ids (MutReplace p _) = [p]"
| "mutation_ids (MutReplaceInline p _) = [p]"
| "mutation_ids (MutRemove p) = [p]"
| "mutation_ids (MutPatchCode p _ _) = [p]"
| "mutation_ids (MutPatchHtml p _ _ _ _) = [p]"

definition ids_ok :: "ast_mutation list \<Rightarrow> bool" where
  "ids_ok ms \<longleftrightarrow> list_all (\<lambda>m. list_all doc_path (mutation_ids m)) ms"

lemma ids_ok_simps [simp]:
  "ids_ok []" "ids_ok (m # ms) \<longleftrightarrow> list_all doc_path (mutation_ids m) \<and> ids_ok ms"
  "ids_ok (ms @ ms') \<longleftrightarrow> ids_ok ms \<and> ids_ok ms'"
  by (simp_all add: ids_ok_def)

lemma doc_path_snoc: "p \<noteq> [] \<Longrightarrow> doc_path (p @ [s]) \<longleftrightarrow> doc_path p \<and> below s"
  by (cases p rule: doc_path.cases) auto

lemma doc_path_snoc2: "p \<noteq> [] \<Longrightarrow> doc_path (p @ [s, s']) \<longleftrightarrow> doc_path p \<and> below s \<and> below s'"
  using doc_path_snoc[of p s] doc_path_snoc[of "p @ [s]" s'] by simp

lemma ids_ok_text: "doc_path p \<Longrightarrow> ids_ok (diff_text_node p old new)"
  by (auto simp: diff_text_node_def split: option.split)

lemma ids_ok_inline:
  shows "p \<noteq> [] \<Longrightarrow> doc_path p \<Longrightarrow> ids_ok (diff_inline_from p i olds news)"
    and "q \<noteq> [] \<Longrightarrow> doc_path q \<Longrightarrow> ids_ok (diff_inline q old new)"
  by (induction p i olds news and q old new rule: diff_inline_from_diff_inline.induct)
    (auto simp: doc_path_snoc ids_ok_text split: inline_node.split option.split)

definition step_fits :: "path \<Rightarrow> (nat \<Rightarrow> step) \<Rightarrow> bool" where
  "step_fits p st \<longleftrightarrow> (\<forall>i. doc_path (p @ [st i]))"

lemma ids_ok_md:
  shows "step_fits p st \<Longrightarrow> doc_path p \<Longrightarrow> ids_ok (diff_md_from p st i olds news)"
    and "q \<noteq> [] \<Longrightarrow> doc_path q \<Longrightarrow> ids_ok (diff_items q j oitems nitems)"
    and "r \<noteq> [] \<Longrightarrow> doc_path r \<Longrightarrow> ids_ok (diff_md r old new)"
  by (induction p st i olds news and q j oitems nitems and r old new
      rule: diff_md_from_diff_items_diff_md.induct)
    (auto simp: doc_path_snoc doc_path_snoc2 step_fits_def ids_ok_inline split: md_node.split)

lemma ids_ok_diff: "ids_ok (diff_ast olds news)"
  by (simp add: diff_ast_def ids_ok_md(1) step_fits_def)

section \<open>Properties\<close>

text \<open>C25. Executing the difference of two trees on the document of the old tree gives the document
  of the new tree, whenever equal hashes of their nodes mean equal renderings.\<close>
theorem diff_reproduces_document:
  assumes "hashes_agree olds news"
  shows "apply_mutations (diff_ast olds news) (render_doc olds) = Some (render_doc news)"
proof -
  have "runs [] (diff_ast olds news) (render_doc olds) (render_doc news)"
    unfolding diff_ast_def render_doc_def
    using runs_md_nodes(1)[of olds news SRoot 0 "[]" "[]" KRoot] assms by (simp add: hashes_agree_def)
  then show ?thesis by (simp add: runs_def)
qed

text \<open>A message while it streams: the trees of two frames, hashed with a toy hash.\<close>

definition toy_fx :: "hash_write list \<Rightarrow> u64" where
  "toy_fx ws = foldl (\<lambda>h w. 31 * h + (case w of W8 n \<Rightarrow> of_nat n | W64 x \<Rightarrow> x
     | WStr s \<Rightarrow> foldl (\<lambda>g c. 257 * g + of_nat (of_char c)) 7 s | WBool b \<Rightarrow> if b then 1 else 2
     | WTag n \<Rightarrow> 3 + of_nat n)) 5 ws"

definition demo_old :: "md_node list" where
  "demo_old = map (compute_md_hashes toy_fx)
     [MHeading 1 [IText ''Plan''] None,
      MList False [[MParagraph [IText ''read''] None], [MParagraph [IText ''wri''] None]] None,
      MParagraph [IText ''see '', ICode ''x''] None, MRule]"

definition demo_new :: "md_node list" where
  "demo_new = map (compute_md_hashes toy_fx)
     [MHeading 1 [IText ''Plan''] None,
      MList False [[MParagraph [IText ''read''] None], [MParagraph [IText ''write''] None],
        [MParagraph [IStrong [IText ''test''] None] None]] None,
      MQuote [MParagraph [IText ''q''] None] None]"

theorem diff_reproduces_document_witness:
  "length (diff_ast demo_old demo_new) = 4 \<and>
   apply_mutations (diff_ast demo_old demo_new) (render_doc demo_old) = Some (render_doc demo_new)"
proof
  show "length (diff_ast demo_old demo_new) = 4" by code_simp
  show "apply_mutations (diff_ast demo_old demo_new) (render_doc demo_old) = Some (render_doc demo_new)"
    by (rule diff_reproduces_document) code_simp
qed

text \<open>The id strings of one difference are unambiguous: different ids are different strings,
  so the registry of the front end, keyed by the strings, finds the node meant.\<close>
theorem mutation_ids_unambiguous:
  "inj_on (id_text ''t'') (set (concat (map mutation_ids (diff_ast olds news))))"
  using ids_ok_diff[of olds news]
  by (auto simp: inj_on_def ids_ok_def list_all_iff intro: id_text_unique)

definition list_frame :: "(hash_write list \<Rightarrow> u64) \<Rightarrow> bool \<Rightarrow> md_node list list \<Rightarrow> md_node list" where
  "list_frame fx ordered items = [compute_md_hashes fx (MList ordered items None)]"

text \<open>An empty list item that the stream has just opened is lost: the hash of a list does not
  see the boundaries of its items, so the frame that adds the empty item has no mutation, and
  the next frame, which fills the item, cannot be executed on the document.\<close>
theorem empty_item_is_lost:
  "diff_ast (list_frame fx ordered [[MParagraph ch None]])
      (list_frame fx ordered [[MParagraph ch None], []]) = [] \<and>
   apply_mutations
      (diff_ast (list_frame fx ordered [[MParagraph ch None], []])
        (list_frame fx ordered [[MParagraph ch None], [n]]))
      (render_doc (list_frame fx ordered [[MParagraph ch None]]))
     \<noteq> Some (render_doc (list_frame fx ordered [[MParagraph ch None], [n]]))"
  by (auto simp: list_frame_def diff_ast_def rehash_md_def hash_hit_def render_doc_def
      add_at_def update_child_find)

end
