(* ===== verification/Content_Parse.thy ===== *)
theory Content_Parse
  imports Rust_Str
begin

text \<open>
  The recognisers of the assistant's special blocks (\<open>chat/content_parser.rs\<close>): marked fields,
  the end of a tool request, daily notes, tool call summaries and closing code fences. A regular
  expression of the \<open>regex\<close> crate is a \<open>matcher\<close>: the length of its match at a byte offset of a
  text, if there is one; \<open>find_at\<close> is then the leftmost match from an offset on.
\<close>

section \<open>Regular expressions as matchers\<close>

type_synonym matcher = "string \<Rightarrow> nat \<Rightarrow> nat option"

definition find_at :: "matcher \<Rightarrow> string \<Rightarrow> nat \<Rightarrow> (nat \<times> nat) option" where
  "find_at re t from =
     (case List.find (\<lambda>s. re t s \<noteq> None) [from..<Suc (length t)] of
        None \<Rightarrow> None
      | Some s \<Rightarrow> Some (s, s + the (re t s)))"

lemma find_at_SomeD:
  assumes "find_at re t from = Some (s, e)"
  shows "from \<le> s" "s \<le> length t" "s \<le> e" "re t s = Some (e - s)"
    "\<And>i. from \<le> i \<Longrightarrow> i < s \<Longrightarrow> re t i = None"
proof -
  have i: "List.find (\<lambda>s. re t s \<noteq> None) [from..<Suc (length t)] = Some s" "e = s + the (re t s)"
    using assms by (auto simp: find_at_def split: option.splits simp del: upt_Suc)
  show "from \<le> s" "s \<le> length t" "s \<le> e" "re t s = Some (e - s)"
    using find_upt_Some[OF i(1)] i(2) by (auto simp del: upt_Suc)
  show "re t i = None" if "from \<le> i" "i < s" for i
    using find_upt_Some(4)[OF i(1) that] by simp
qed

lemma find_at_None_iff: "find_at re t from = None \<longleftrightarrow> (\<forall>s. from \<le> s \<longrightarrow> s \<le> length t \<longrightarrow> re t s = None)"
proof -
  have "find_at re t from = None \<longleftrightarrow> List.find (\<lambda>s. re t s \<noteq> None) [from..<Suc (length t)] = None"
    by (simp add: find_at_def split: option.split del: upt_Suc)
  then show ?thesis by (simp only: find_upt_None less_Suc_eq_le not_not)
qed

lemma find_at_SomeI:
  "from \<le> s \<Longrightarrow> s \<le> length t \<Longrightarrow> re t s = Some n \<Longrightarrow> (\<And>i. from \<le> i \<Longrightarrow> i < s \<Longrightarrow> re t i = None) \<Longrightarrow>
     find_at re t from = Some (s, s + n)"
  by (simp add: find_at_def find_upt_SomeI less_Suc_eq_le del: upt_Suc)

text \<open>The non-overlapping matches in order: \<open>find_iter\<close>.\<close>

function matches_from :: "matcher \<Rightarrow> string \<Rightarrow> nat \<Rightarrow> (nat \<times> nat) list" where
  "matches_from re t from =
     (case find_at re t from of
        None \<Rightarrow> []
      | Some (s, e) \<Rightarrow> (s, e) # matches_from re t (if s < e then e else Suc e))"
  by pat_completeness auto
termination
proof (relation "measure (\<lambda>(re, t, from). Suc (length t) - from)")
  fix re :: matcher and t :: string and start :: nat and x s e
  assume "find_at re t start = Some x" "(s, e) = x"
  then show "((re, t, if s < e then e else Suc e), re, t, start) \<in> measure (\<lambda>(re, t, from). Suc (length t) - from)"
    using find_at_SomeD[of re t start s e] by auto
qed simp

declare matches_from.simps [simp del]

section \<open>Marked fields\<close>

datatype field_mode = FNormal | FEscape | FExp

definition marked_field_mode :: "string \<Rightarrow> field_mode" where
  "marked_field_mode marker =
     (let normalized = to_ascii_lower marker
      in if str_contains normalized ''escape'' then FEscape
         else if str_contains normalized ''exp'' then FExp else FNormal)"

fun mode_matches :: "field_mode \<Rightarrow> field_mode \<Rightarrow> bool" where
  "mode_matches FEscape actual = (actual = FEscape)"
| "mode_matches _ actual = (actual = FNormal \<or> actual = FExp)"

definition slice :: "string \<Rightarrow> nat \<Rightarrow> nat \<Rightarrow> string" where
  "slice t s e = take (e - s) (drop s t)"

text \<open>\<open>fe\<close> is the regular expression of field ends, \<open>fs\<close> that of field starts.\<close>

definition find_marked_field_end :: "matcher \<Rightarrow> string \<Rightarrow> nat \<Rightarrow> field_mode \<Rightarrow> (nat \<times> nat) option" where
  "find_marked_field_end fe source content_start expected =
     List.find (\<lambda>(s, e). mode_matches expected (marked_field_mode (slice source s e)))
       (map (\<lambda>(s, e). (content_start + s, content_start + e))
         (matches_from fe (drop content_start source) 0))"

definition left_boundary :: "string \<Rightarrow> bool" where
  "left_boundary before \<longleftrightarrow>
     before = [] \<or> \<not> is_ascii_alphanumeric (last before) \<and> last before \<noteq> CHR ''_''"

definition label_ends_at :: "string \<Rightarrow> nat \<Rightarrow> string \<Rightarrow> bool" where
  "label_ends_at source colon label \<longleftrightarrow>
     length label \<le> colon \<and> is_char_boundary source (colon - length label) \<and>
     left_boundary (take (colon - length label) source) \<and>
     to_ascii_lower (slice source (colon - length label) colon) = to_ascii_lower label"

definition find_label_colon :: "string \<Rightarrow> string list \<Rightarrow> nat \<Rightarrow> nat option" where
  "find_label_colon source labels from =
     List.find (\<lambda>i. source ! i = CHR '':'' \<and> list_ex (label_ends_at source i) labels) [from..<length source]"

lemma find_label_colon_bounds:
  "find_label_colon source labels from = Some c \<Longrightarrow> from \<le> c \<and> c < length source"
  by (auto simp: find_label_colon_def find_Some_iff)

definition field_at :: "matcher \<Rightarrow> matcher \<Rightarrow> string \<Rightarrow> nat \<Rightarrow> string option" where
  "field_at fs fe source colon =
     (let rest = drop (Suc colon) source;
          marker_start = Suc colon + (length rest - length (trim_start rest))
      in case find_at fs source marker_start of
           None \<Rightarrow> None
         | Some (s, content_start) \<Rightarrow>
             if s = marker_start
             then let mode = marked_field_mode (slice source s content_start);
                      content_end = (case find_marked_field_end fe source content_start mode of
                          Some (ce, _) \<Rightarrow> ce | None \<Rightarrow> length source)
                  in Some (str_trim (slice source content_start content_end))
             else None)"

function extract_field_from :: "matcher \<Rightarrow> matcher \<Rightarrow> string \<Rightarrow> string list \<Rightarrow> nat \<Rightarrow> string option" where
  "extract_field_from fs fe source labels from =
     (case find_label_colon source labels from of
        None \<Rightarrow> None
      | Some colon \<Rightarrow>
          (case field_at fs fe source colon of
             Some v \<Rightarrow> Some v
           | None \<Rightarrow> extract_field_from fs fe source labels (Suc colon)))"
  by pat_completeness auto
termination
  by (relation "measure (\<lambda>(fs, fe, source, labels, from). length source - from)")
    (auto dest: find_label_colon_bounds)

declare extract_field_from.simps [simp del]

definition extract_marked_field :: "matcher \<Rightarrow> matcher \<Rightarrow> string \<Rightarrow> string list \<Rightarrow> string option" where
  "extract_marked_field fs fe source labels = extract_field_from fs fe source labels 0"

section \<open>The end of a tool request\<close>

definition TOOL_END_MARKER_LEN :: nat where
  "TOOL_END_MARKER_LEN = length ''<<<[END_TOOL_REQUEST]>>>''"

definition in_backticks :: "string \<Rightarrow> nat \<Rightarrow> bool" where
  "in_backticks source e \<longleftrightarrow>
     (let marker_start = e - TOOL_END_MARKER_LEN
      in suffix ''`'' (take marker_start source) \<or> prefix ''`'' (drop e source))"

text \<open>The loop, with fuel: every round moves the cursor past a match.\<close>

fun tool_end_from :: "nat \<Rightarrow> matcher \<Rightarrow> matcher \<Rightarrow> matcher \<Rightarrow> string \<Rightarrow> nat \<Rightarrow> (nat \<times> nat) option" where
  "tool_end_from 0 te fs fe source cursor = None"
| "tool_end_from (Suc fuel) te fs fe source cursor =
     (let tool_end = find_at te source cursor
      in case find_at fs source cursor of
           Some (s, content_start) \<Rightarrow>
             if (case tool_end of None \<Rightarrow> True | Some (ts, _) \<Rightarrow> s < ts)
             then (case find_marked_field_end fe source content_start
                     (marked_field_mode (slice source s content_start)) of
                     None \<Rightarrow> None
                   | Some (_, field_end) \<Rightarrow> tool_end_from fuel te fs fe source field_end)
             else (case tool_end of
                 None \<Rightarrow> None
               | Some (ts, e) \<Rightarrow> if in_backticks source e then tool_end_from fuel te fs fe source e
                   else Some (ts, e))
         | None \<Rightarrow>
             (case tool_end of
                None \<Rightarrow> None
              | Some (ts, e) \<Rightarrow> if in_backticks source e then tool_end_from fuel te fs fe source e
                  else Some (ts, e)))"

definition find_tool_request_end :: "matcher \<Rightarrow> matcher \<Rightarrow> matcher \<Rightarrow> string \<Rightarrow> (nat \<times> nat) option" where
  "find_tool_request_end te fs fe source = tool_end_from (Suc (length source)) te fs fe source 0"

section \<open>Tool names and daily notes\<close>

definition extract_tool_name_value :: "matcher \<Rightarrow> matcher \<Rightarrow> (string \<Rightarrow> string option) \<Rightarrow> string \<Rightarrow> string option" where
  "extract_tool_name_value fs fe xml content =
     (case (case extract_marked_field fs fe content [''tool_name''] of
              Some n \<Rightarrow> Some n
            | None \<Rightarrow> map_option str_trim (xml content)) of
        None \<Rightarrow> None
      | Some name \<Rightarrow>
          let name = str_trim (if suffix '','' name then butlast name else name)
          in if name = [] then None else Some name)"

definition extract_tool_name :: "matcher \<Rightarrow> matcher \<Rightarrow> (string \<Rightarrow> string option) \<Rightarrow> string \<Rightarrow> string" where
  "extract_tool_name fs fe xml content =
     (case extract_tool_name_value fs fe xml content of Some n \<Rightarrow> n | None \<Rightarrow> ''Processing...'')"

datatype daily_note =
    NoteCreate string string string string string string
  | NoteUpdate string string string string string

definition or_default :: "string option \<Rightarrow> string" where
  "or_default x = (case x of Some s \<Rightarrow> s | None \<Rightarrow> [])"

text \<open>\<open>[parsing the diary failed]\<close>, in Chinese.\<close>

definition diary_parse_failed :: string where
  "diary_parse_failed = CHR ''['' #
     [CHR 0xE6, CHR 0x97, CHR 0xA5, CHR 0xE8, CHR 0xAE, CHR 0xB0, CHR 0xE5, CHR 0x86, CHR 0x85,
      CHR 0xE5, CHR 0xAE, CHR 0xB9, CHR 0xE8, CHR 0xA7, CHR 0xA3, CHR 0xE6, CHR 0x9E, CHR 0x90,
      CHR 0xE5, CHR 0xA4, CHR 0xB1, CHR 0xE8, CHR 0xB4, CHR 0xA5] @ '']''"

definition blank :: "string \<Rightarrow> bool" where
  "blank s \<longleftrightarrow> str_trim s = []"

definition parse_daily_note_tool_request ::
  "matcher \<Rightarrow> matcher \<Rightarrow> (string \<Rightarrow> string option) \<Rightarrow> string \<Rightarrow> daily_note option" where
  "parse_daily_note_tool_request fs fe xml content =
     (case extract_tool_name_value fs fe xml content of
        None \<Rightarrow> None
      | Some tool_name \<Rightarrow>
          if to_ascii_lower tool_name \<noteq> to_ascii_lower ''DailyNote'' then None
          else
            let field = (\<lambda>labels. or_default (extract_marked_field fs fe content labels));
                command = to_ascii_lower (str_trim (field [''command'']));
                daily_content = field [''Content''];
                target = field [''target''];
                replace = field [''replace''];
                is_update = (command = ''update'' \<or> (command = [] \<and> \<not> blank target \<and> \<not> blank replace));
                is_create = (\<not> is_update \<and>
                  (command = ''create'' \<or> (command = [] \<and> \<not> blank daily_content)));
                maid = field [''maid'', ''maidName''];
                valet = field [''valet'', ''valetName''];
                folder = field [''folder'']
            in if \<not> is_update \<and> \<not> is_create then None
               else if is_update then Some (NoteUpdate maid valet folder target replace)
               else Some (NoteCreate maid valet (field [''Date'']) (field [''fileName'']) folder
                 ((if blank daily_content then diary_parse_failed else daily_content) @
                  (case extract_marked_field fs fe content [''Tag''] of
                     Some tag \<Rightarrow> if blank tag then [] else [CHR 0x0A, CHR 0x0A] @ ''Tag:'' @ tag
                   | None \<Rightarrow> []))))"

definition extract_legacy_line_field :: "string \<Rightarrow> string \<Rightarrow> string" where
  "extract_legacy_line_field content label =
     (case List.find (\<lambda>line. prefix (label @ '':'') (trim_start line)) (str_lines content) of
        Some line \<Rightarrow> str_trim (drop (Suc (length label)) (trim_start line))
      | None \<Rightarrow> [])"

definition parse_legacy_daily_note :: "string \<Rightarrow> daily_note" where
  "parse_legacy_daily_note content =
     (let at_content = (\<lambda>i. prefix ''Content:'' (drop i content) \<and>
            (i = 0 \<or> 0 < rlead_ws (rev (take i content))));
          diary_content = (case List.find at_content [0..<length content] of
              Some i \<Rightarrow> str_trim (drop (i + 8) content)
            | None \<Rightarrow> str_trim content)
      in NoteCreate (extract_legacy_line_field content ''Maid'') []
           (extract_legacy_line_field content ''Date'') [] [] diary_content)"

section \<open>Chinese words of the protocol, in UTF-8\<close>

definition zh_tool_name :: string where
  "zh_tool_name =
     [CHR 0xE5, CHR 0xB7, CHR 0xA5, CHR 0xE5, CHR 0x85, CHR 0xB7, CHR 0xE5, CHR 0x90,
      CHR 0x8D, CHR 0xE7, CHR 0xA7, CHR 0xB0]"

definition zh_exec_status :: string where
  "zh_exec_status =
     [CHR 0xE6, CHR 0x89, CHR 0xA7, CHR 0xE8, CHR 0xA1, CHR 0x8C, CHR 0xE7, CHR 0x8A,
      CHR 0xB6, CHR 0xE6, CHR 0x80, CHR 0x81]"

definition zh_reject :: string where
  "zh_reject =
     [CHR 0xE6, CHR 0x8B, CHR 0x92, CHR 0xE7, CHR 0xBB, CHR 0x9D]"

definition zh_refused :: string where
  "zh_refused =
     [CHR 0xE8, CHR 0xA2, CHR 0xAB, CHR 0xE6, CHR 0x8B, CHR 0x92]"

definition zh_fail :: string where
  "zh_fail =
     [CHR 0xE5, CHR 0xA4, CHR 0xB1, CHR 0xE8, CHR 0xB4, CHR 0xA5]"

definition zh_wrong :: string where
  "zh_wrong =
     [CHR 0xE9, CHR 0x94, CHR 0x99, CHR 0xE8, CHR 0xAF, CHR 0xAF]"

definition zh_abnormal :: string where
  "zh_abnormal =
     [CHR 0xE5, CHR 0xBC, CHR 0x82, CHR 0xE5, CHR 0xB8, CHR 0xB8]"

definition zh_timeout :: string where
  "zh_timeout =
     [CHR 0xE8, CHR 0xB6, CHR 0x85, CHR 0xE6, CHR 0x97, CHR 0xB6]"

definition zh_success :: string where
  "zh_success =
     [CHR 0xE6, CHR 0x88, CHR 0x90, CHR 0xE5, CHR 0x8A, CHR 0x9F]"

definition zh_done :: string where
  "zh_done =
     [CHR 0xE5, CHR 0xAE, CHR 0x8C, CHR 0xE6, CHR 0x88, CHR 0x90]"

definition zh_cancel :: string where
  "zh_cancel =
     [CHR 0xE5, CHR 0x8F, CHR 0x96, CHR 0xE6, CHR 0xB6, CHR 0x88]"

definition zh_stop :: string where
  "zh_stop =
     [CHR 0xE4, CHR 0xB8, CHR 0xAD, CHR 0xE6, CHR 0xAD, CHR 0xA2]"

definition zh_skip :: string where
  "zh_skip =
     [CHR 0xE8, CHR 0xB7, CHR 0xB3, CHR 0xE8, CHR 0xBF, CHR 0x87]"

definition zh_call :: string where
  "zh_call =
     [CHR 0xE8, CHR 0xB0, CHR 0x83, CHR 0xE7, CHR 0x94, CHR 0xA8]"

definition zh_semicolon :: string where
  "zh_semicolon =
     [CHR 0xEF, CHR 0xBC, CHR 0x9B]"

definition zh_stop_mark :: string where
  "zh_stop_mark =
     [CHR 0xE3, CHR 0x80, CHR 0x82]"

section \<open>Tool results and call summaries\<close>

record tool_detail =
  td_key :: string
  td_value :: string

record tool_result =
  tr_name :: string
  tr_status :: string
  tr_details :: "tool_detail list"
  tr_footer :: "string list"

definition close_field :: "string \<Rightarrow> string list \<Rightarrow> tool_result \<Rightarrow> tool_result" where
  "close_field key vals r =
     (let v = str_trim (str_join [CHR 0x0A] vals)
      in if key = zh_tool_name then r\<lparr>tr_name := v\<rparr>
         else if key = zh_exec_status then r\<lparr>tr_status := v\<rparr>
         else r\<lparr>tr_details := tr_details r @ [\<lparr>td_key = key, td_value = v\<rparr>]\<rparr>)"

text \<open>\<open>kv\<close> is the captures of \<open>KV_REGEX\<close>; the open field is its key and its value lines.\<close>

fun tool_result_lines :: "(string \<Rightarrow> (string \<times> string) option) \<Rightarrow> (string \<times> string list) option \<Rightarrow>
    tool_result \<Rightarrow> string list \<Rightarrow> tool_result" where
  "tool_result_lines kv field r [] =
     (case field of Some (k, vals) \<Rightarrow> close_field k vals r | None \<Rightarrow> r)"
| "tool_result_lines kv field r (line # ls) =
     (case kv (str_trim line) of
        Some (k, v) \<Rightarrow>
          tool_result_lines kv (Some (str_trim k, [str_trim v]))
            (case field of Some (k0, vals) \<Rightarrow> close_field k0 vals r | None \<Rightarrow> r) ls
      | None \<Rightarrow>
          (case field of
             Some (k0, vals) \<Rightarrow> tool_result_lines kv (Some (k0, vals @ [line])) r ls
           | None \<Rightarrow> tool_result_lines kv None
               (if str_trim line = [] then r else r\<lparr>tr_footer := tr_footer r @ [line]\<rparr>) ls))"

definition parse_tool_result :: "(string \<Rightarrow> (string \<times> string) option) \<Rightarrow> string \<Rightarrow>
    string \<times> string \<times> tool_detail list \<times> string" where
  "parse_tool_result kv content =
     (let r = tool_result_lines kv None
            \<lparr>tr_name = ''Unknown Tool'', tr_status = ''Unknown Status'', tr_details = [], tr_footer = []\<rparr>
            (str_lines content)
      in (tr_name r, tr_status r, tr_details r, str_join [CHR 0x0A] (tr_footer r)))"

text \<open>\<open>split\<close> at any of several nonempty patterns.\<close>

function split_any :: "string list \<Rightarrow> string \<Rightarrow> string \<Rightarrow> string list" where
  "split_any ps acc [] = [rev acc]"
| "split_any ps acc (c # s) =
     (case List.find (\<lambda>p. prefix p (c # s)) ps of
        Some p \<Rightarrow> rev acc # split_any ps [] (drop (length p - 1) s)
      | None \<Rightarrow> split_any ps (c # acc) s)"
  by pat_completeness auto
termination by (relation "measure (\<lambda>(ps, acc, s). length s)") auto

definition summary_status :: "string \<Rightarrow> string" where
  "summary_status entry =
     (let has = (\<lambda>ws. list_ex (str_contains entry) ws)
      in if has [zh_reject, zh_refused, ''denied'', ''rejected'', ''refused''] then ''rejected''
         else if has [zh_fail, zh_wrong, zh_abnormal, ''error'', ''failed''] then ''failure''
         else if has [zh_timeout, ''timeout''] then ''timeout''
         else if has [zh_success, zh_done, ''success'', ''succeeded'', ''ok''] then ''success''
         else if has [zh_cancel, zh_stop, ''cancel''] then ''cancelled''
         else if has [zh_skip, ''skip''] then ''skipped''
         else ''unknown'')"

definition summary_tool :: "string \<Rightarrow> string" where
  "summary_tool entry =
     (case str_find zh_call entry of Some i \<Rightarrow> str_trim (take i entry) | None \<Rightarrow> entry)"

definition parse_tool_call_summary :: "string \<Rightarrow> (string \<times> string) list" where
  "parse_tool_call_summary content =
     map (\<lambda>entry. (summary_tool entry, summary_status entry))
       (filter (\<lambda>entry. entry \<noteq> [])
         (map str_trim (split_any [zh_semicolon, '';'', zh_stop_mark] [] content)))"

section \<open>Closing code fences\<close>

definition newline :: char where
  "newline = CHR 0x0A"

definition is_blank_byte :: "char \<Rightarrow> bool" where
  "is_blank_byte c \<longleftrightarrow> c = CHR '' '' \<or> c = CHR 0x09"

text \<open>The start of the line that holds the position \<open>at\<close>: one past the last newline before it.\<close>

definition line_start :: "string \<Rightarrow> nat \<Rightarrow> nat" where
  "line_start t at = at - length (takeWhile (\<lambda>c. c \<noteq> newline) (rev (take at t)))"

fun split_incl :: "string \<Rightarrow> string \<Rightarrow> string list" where
  "split_incl acc [] = (if acc = [] then [] else [rev acc])"
| "split_incl acc (c # s) =
     (if c = newline then rev (c # acc) # split_incl [] s else split_incl (c # acc) s)"

definition closing_fence :: "nat \<Rightarrow> string \<Rightarrow> bool" where
  "closing_fence count content \<longleftrightarrow>
     (let i = length (takeWhile is_blank_byte content);
          ticks = length (takeWhile (\<lambda>c. c = CHR 0x60) (drop i content));
          rest = strip_cr (drop (i + ticks) content)
      in i \<le> 3 \<and> count \<le> ticks \<and> list_all is_blank_byte rest)"

fun fence_scan :: "nat \<Rightarrow> nat \<Rightarrow> string list \<Rightarrow> (nat \<times> nat) option" where
  "fence_scan count start [] = None"
| "fence_scan count start (line # ls) =
     (let content = (if suffix [newline] line then butlast line else line)
      in if closing_fence count content then Some (start, start + length content)
         else fence_scan count (start + length line) ls)"

definition find_matching_fence_end :: "string \<Rightarrow> string \<Rightarrow> nat \<Rightarrow> (nat \<times> nat) option" where
  "find_matching_fence_end search_area marker from =
     (let count = length (takeWhile (\<lambda>c. c = CHR 0x60) (trim_start marker));
          start = line_start search_area (floor_boundary search_area (min from (length search_area)))
      in if count < 3 then None
         else fence_scan count start (split_incl [] (drop start search_area)))"

end
