(* ===== verification/Stream_Blocks.thy ===== *)
theory Stream_Blocks
  imports Content_Parse Ast_Diff
begin

text \<open>
  The incremental block parser of a streamed message (\<open>chat/stream_block_parser.rs\<close>): it finds
  the closed special blocks of the text received so far and leaves the rest as the tail. Between
  two frames it keeps cursors, so that a frame only scans what is new. The regular expressions,
  the Markdown parser, the highlighter and the hashes are the fields of \<open>block_env\<close>.
\<close>

section \<open>Blocks\<close>

datatype block_type =
    BTool | BThought | BThink | BToolResult | BDiary | BHtmlDoc | BHtmlContainer | BStyle
  | BRoleDivider | BCodeFence | BToolCallSummary

datatype stream_block =
    SbMarkdown string "md_node list option" string
  | SbThought string string bool "md_node list option" string
  | SbTool string string string
  | SbToolResult string string "tool_detail list" string string
  | SbDiary string string string string string string "md_node list option" string
  | SbDiaryUpdate string string string string string "md_node list option" "md_node list option" string
  | SbHtmlPreview string "string option" string
  | SbRoleDivider string bool string
  | SbStyle string string
  | SbButtonClick string string
  | SbSummary "(string \<times> string) list" string string

record block_env =
  be_start :: "block_type \<Rightarrow> matcher"
  be_end :: "block_type \<Rightarrow> matcher"
  be_field_start :: matcher
  be_field_end :: matcher
  be_tool_xml :: "string \<Rightarrow> string option"
  be_kv :: "string \<Rightarrow> (string \<times> string) option"
  be_container_tag :: "string \<Rightarrow> string option"
  be_close_tag :: "string \<Rightarrow> nat \<Rightarrow> string \<Rightarrow> (nat \<times> nat) option"
  be_thought :: "string \<Rightarrow> (nat \<times> nat \<times> string option) option"
  be_think :: "string \<Rightarrow> (nat \<times> nat) option"
  be_role :: "string \<Rightarrow> (bool \<times> string option) option"
  be_buttons :: "string \<Rightarrow> (nat \<times> nat \<times> string) list"
  be_md :: "string \<Rightarrow> md_node list"
  be_md_streaming :: "string \<Rightarrow> md_node list"
  be_deindent :: "string \<Rightarrow> string"
  be_fenced :: "string \<Rightarrow> (string \<times> string) option"
  be_code_node :: "string \<Rightarrow> string \<Rightarrow> md_node"
  be_fx :: "hash_write list \<Rightarrow> u64"
  be_hash :: "string \<Rightarrow> string"
  be_html :: "string \<Rightarrow> string option"

definition sb_markdown :: "block_env \<Rightarrow> string \<Rightarrow> stream_block" where
  "sb_markdown env content = SbMarkdown content (Some (be_md env content)) (be_hash env content)"

definition sb_html_preview :: "block_env \<Rightarrow> string \<Rightarrow> string \<Rightarrow> stream_block" where
  "sb_html_preview env content hash = SbHtmlPreview content (be_html env content) hash"

text \<open>The default themes of thoughts, in UTF-8.\<close>

definition zh_meta_thought :: string where
  "zh_meta_thought =
     [CHR 0xE5, CHR 0x85, CHR 0x83, CHR 0xE6, CHR 0x80, CHR 0x9D, CHR 0xE8, CHR 0x80,
      CHR 0x83, CHR 0xE9, CHR 0x93, CHR 0xBE]"

definition zh_think_chain :: string where
  "zh_think_chain =
     [CHR 0xE6, CHR 0x80, CHR 0x9D, CHR 0xE7, CHR 0xBB, CHR 0xB4, CHR 0xE9, CHR 0x93,
      CHR 0xBE]"

section \<open>Building a block from its marker\<close>

definition us :: string where
  "us = [CHR 0x1F]"

fun build_daily_note_stream_block :: "block_env \<Rightarrow> daily_note \<Rightarrow> stream_block" where
  "build_daily_note_stream_block env (NoteCreate maid valet date file_name folder content) =
     SbDiary maid valet date file_name folder content (Some (be_md env content))
       (be_hash env (str_join us [''diary:create'', maid, valet, date, file_name, folder, content]))"
| "build_daily_note_stream_block env (NoteUpdate maid valet folder target replace) =
     SbDiaryUpdate maid valet folder target replace (Some (be_md env target)) (Some (be_md env replace))
       (be_hash env (str_join us [''diary:update'', maid, valet, folder, target, replace]))"

definition drop_quotes :: "string \<Rightarrow> string" where
  "drop_quotes s = filter (\<lambda>c. c \<noteq> CHR 0x22) s"

fun theme_of :: "string option \<Rightarrow> string" where
  "theme_of None = zh_meta_thought"
| "theme_of (Some g) = drop_quotes (str_trim g)"

definition bool_str :: "bool \<Rightarrow> string" where
  "bool_str b = (if b then ''true'' else ''false'')"

definition raw_html :: "string \<Rightarrow> md_node" where
  "raw_html content = MRaw content None"

text \<open>\<open>remaining[start..end_idx]\<close> is the marker; \<open>end_end\<close> is the end of the block after it.\<close>

fun build_stream_block ::
  "block_env \<Rightarrow> block_type \<Rightarrow> string \<Rightarrow> string \<Rightarrow> nat \<Rightarrow> nat \<Rightarrow> nat \<Rightarrow> stream_block" where
  "build_stream_block env BTool inner remaining start end_idx end_end =
     (let tool_name = extract_tool_name (be_field_start env) (be_field_end env) (be_tool_xml env) inner
      in case parse_daily_note_tool_request (be_field_start env) (be_field_end env) (be_tool_xml env) inner of
           Some note_value \<Rightarrow> build_daily_note_stream_block env note_value
         | None \<Rightarrow> SbTool tool_name inner (be_hash env (tool_name @ '':'' @ inner)))"
| "build_stream_block env BThought inner remaining start end_idx end_end =
     (let theme = theme_of (case be_thought env (slice remaining start end_idx) of
            Some (_, _, g) \<Rightarrow> g | None \<Rightarrow> None)
      in SbThought theme inner True (Some (be_md env inner)) (be_hash env (theme @ '':'' @ inner)))"
| "build_stream_block env BThink inner remaining start end_idx end_end =
     SbThought zh_think_chain inner True (Some (be_md env inner)) (be_hash env inner)"
| "build_stream_block env BToolResult inner remaining start end_idx end_end =
     (case parse_tool_result (be_kv env) inner of
        (tool_name, status, details, footer) \<Rightarrow>
          SbToolResult tool_name status details footer
            (be_hash env (str_join '':''
               [tool_name, status, concat (map (\<lambda>d. td_key d @ td_value d) details), footer])))"
| "build_stream_block env BDiary inner remaining start end_idx end_end =
     build_daily_note_stream_block env (parse_legacy_daily_note inner)"
| "build_stream_block env BToolCallSummary inner remaining start end_idx end_end =
     SbSummary (parse_tool_call_summary inner) inner (be_hash env inner)"
| "build_stream_block env BHtmlDoc inner remaining start end_idx end_end =
     sb_html_preview env inner (be_hash env inner)"
| "build_stream_block env BHtmlContainer inner remaining start end_idx end_end =
     (let open_tag = slice remaining start end_idx;
          search_area = drop end_idx remaining;
          closed = 0 < end_end \<and> length inner < end_end \<and> end_end \<le> length search_area;
          close_tag = slice search_area (length inner) end_end;
          nodes = raw_html open_tag # be_md env (be_deindent env inner) @
            (if closed then [raw_html close_tag] else []);
          full_html = open_tag @ inner @ (if closed then close_tag else [])
      in SbMarkdown full_html (Some nodes) (be_hash env full_html))"
| "build_stream_block env BCodeFence inner remaining start end_idx end_end =
     (let full_text = slice remaining start (end_idx + end_end)
      in case be_fenced env full_text of
           Some (lang, code) \<Rightarrow>
             if to_ascii_lower lang = ''html'' then sb_html_preview env code (be_hash env code)
             else SbMarkdown full_text
               (Some [compute_md_hashes (be_fx env) (be_code_node env lang code)]) (be_hash env full_text)
         | None \<Rightarrow> sb_markdown env full_text)"
| "build_stream_block env BRoleDivider inner remaining start end_idx end_end =
     (case be_role env (slice remaining start end_idx) of
        Some (is_end, g) \<Rightarrow>
          let role = or_default g in SbRoleDivider role is_end (be_hash env (role @ '':'' @ bool_str is_end))
      | None \<Rightarrow> SbRoleDivider ''unknown'' False (be_hash env ''unknown:false''))"
| "build_stream_block env BStyle inner remaining start end_idx end_end =
     SbStyle inner (be_hash env inner)"

section \<open>Paragraphs\<close>

text \<open>The text between two buttons, as a Markdown block unless blank.\<close>

definition md_piece :: "block_env \<Rightarrow> string \<Rightarrow> stream_block list" where
  "md_piece env piece = (let t = str_trim piece in if t = [] then [] else [sb_markdown env t])"

fun button_pieces :: "block_env \<Rightarrow> string \<Rightarrow> nat \<Rightarrow> (nat \<times> nat \<times> string) list \<Rightarrow> stream_block list" where
  "button_pieces env content last_end [] =
     (if last_end < length content then md_piece env (drop last_end content) else [])"
| "button_pieces env content last_end ((s, e, g) # caps) =
     (if last_end < s then md_piece env (slice content last_end s) else []) @
     SbButtonClick (str_trim g) (be_hash env (str_trim g)) # button_pieces env content e caps"

fun extract_inline_button :: "block_env \<Rightarrow> stream_block \<Rightarrow> stream_block list" where
  "extract_inline_button env (SbMarkdown content nodes h) =
     (case be_buttons env content of
        [] \<Rightarrow> [SbMarkdown content nodes (be_hash env content)]
      | caps \<Rightarrow> button_pieces env content 0 caps)"
| "extract_inline_button env other = [other]"

definition extract_inline_buttons :: "block_env \<Rightarrow> stream_block list \<Rightarrow> stream_block list" where
  "extract_inline_buttons env blocks = concat (map (extract_inline_button env) blocks)"

definition para_break :: string where
  "para_break = [newline, newline]"

text \<open>The blocks of the closed paragraphs and the length of the text they cover.\<close>

definition split_markdown_paragraphs :: "block_env \<Rightarrow> string \<Rightarrow> nat \<Rightarrow> stream_block list \<times> string" where
  "split_markdown_paragraphs env t break_from =
     (if t = [] then ([], [])
      else
        let from = floor_boundary t (min break_from (length t))
        in case str_rfind para_break (drop from t) of
             None \<Rightarrow> ([], t)
           | Some i \<Rightarrow>
               let stable_end = from + i + 2
               in (extract_inline_buttons env (concat (map (md_piece env)
                     (str_split para_break (take stable_end t)))), drop stable_end t))"

section \<open>Markers\<close>

text \<open>The order of the two groups of start markers; the first one wins among equal starts.\<close>

definition bounded_types :: "block_type list" where
  "bounded_types = [BTool, BThink, BToolResult, BDiary, BRoleDivider, BCodeFence, BToolCallSummary]"

definition multiline_types :: "block_type list" where
  "multiline_types = [BThought, BHtmlDoc, BStyle, BHtmlContainer]"

type_synonym marker = "nat \<times> nat \<times> block_type"

fun keep_earliest :: "marker option \<Rightarrow> (nat \<times> nat) option \<Rightarrow> block_type \<Rightarrow> marker option" where
  "keep_earliest earliest None bt = earliest"
| "keep_earliest None (Some (s, e)) bt = Some (s, e, bt)"
| "keep_earliest (Some (s0, e0, bt0)) (Some (s, e)) bt = (if s < s0 then Some (s, e, bt) else Some (s0, e0, bt0))"

definition find_earliest_start_marker :: "block_env \<Rightarrow> string \<Rightarrow> nat \<Rightarrow> nat \<Rightarrow> marker option" where
  "find_earliest_start_marker env t bounded_from multiline_from =
     (let b = fold (\<lambda>bt m. keep_earliest m (find_at (be_start env bt) t bounded_from) bt) bounded_types None
      in fold (\<lambda>bt m. keep_earliest m (find_at (be_start env bt) t multiline_from) bt) multiline_types b)"

text \<open>The end of the block whose marker is \<open>remaining[start..content_start]\<close>, relative to its content.\<close>

fun find_end_marker :: "block_env \<Rightarrow> string \<Rightarrow> nat \<Rightarrow> nat \<Rightarrow> block_type \<Rightarrow> nat \<Rightarrow> (nat \<times> nat) option" where
  "find_end_marker env remaining start content_start BHtmlContainer scan_from =
     (case be_container_tag env (slice remaining start content_start) of
        Some tag \<Rightarrow> map_option (\<lambda>(s, e). (s - content_start, e - content_start))
          (be_close_tag env remaining content_start tag)
      | None \<Rightarrow> None)"
| "find_end_marker env remaining start content_start BTool scan_from =
     find_tool_request_end (be_end env BTool) (be_field_start env) (be_field_end env) (drop content_start remaining)"
| "find_end_marker env remaining start content_start BCodeFence scan_from =
     find_matching_fence_end (drop content_start remaining) (slice remaining start content_start) scan_from"
| "find_end_marker env remaining start content_start BRoleDivider scan_from = Some (0, 0)"
| "find_end_marker env remaining start content_start bt scan_from =
     find_at (be_end env bt) (drop content_start remaining) scan_from"

section \<open>The parser\<close>

record pending_block =
  pb_type :: block_type
  pb_start :: nat
  pb_marker_len :: nat
  pb_end_scan :: nat

record stream_parser =
  sp_processed :: nat
  sp_pending :: "pending_block option"
  sp_marker_scan :: nat
  sp_break_scan :: nat

definition new_parser :: stream_parser where
  "new_parser = \<lparr>sp_processed = 0, sp_pending = None, sp_marker_scan = 0, sp_break_scan = 0\<rparr>"

definition MULTILINE_MARKER_LOOKBEHIND :: nat where "MULTILINE_MARKER_LOOKBEHIND = 4096"
definition THINK_END_LOOKBEHIND :: nat where "THINK_END_LOOKBEHIND = 9"
definition HTML_DOC_END_LOOKBEHIND :: nat where "HTML_DOC_END_LOOKBEHIND = 6"
definition STYLE_TAG_END_LOOKBEHIND :: nat where "STYLE_TAG_END_LOOKBEHIND = 7"

definition line_start_of :: "string \<Rightarrow> nat \<Rightarrow> nat" where
  "line_start_of t at = line_start t (floor_boundary t (min at (length t)))"

text \<open>Where the start markers are searched: everywhere, unless the frame has consumed nothing yet.\<close>

definition start_windows :: "stream_parser \<Rightarrow> bool \<Rightarrow> string \<Rightarrow> nat \<Rightarrow> nat \<times> nat" where
  "start_windows st cursor_active remaining pos =
     (let scan_rel = sp_marker_scan st - pos
      in if cursor_active \<and> 0 < scan_rel
         then (line_start_of remaining scan_rel,
               line_start_of remaining (scan_rel - MULTILINE_MARKER_LOOKBEHIND))
         else (0, 0))"

definition start_marker :: "block_env \<Rightarrow> stream_parser \<Rightarrow> bool \<Rightarrow> pending_block option \<Rightarrow> string \<Rightarrow> nat \<Rightarrow> marker option" where
  "start_marker env st cursor_active pending remaining pos =
     (case pending of
        Some p \<Rightarrow>
          if pb_start p = pos then Some (0, pb_marker_len p, pb_type p)
          else (case start_windows st cursor_active remaining pos of
                 (b, m) \<Rightarrow> find_earliest_start_marker env remaining b m)
      | None \<Rightarrow>
          (case start_windows st cursor_active remaining pos of
             (b, m) \<Rightarrow> find_earliest_start_marker env remaining b m))"

fun end_window :: "block_type \<Rightarrow> string \<Rightarrow> nat \<Rightarrow> nat \<Rightarrow> nat" where
  "end_window BThink remaining rel content_start = floor_boundary remaining (rel - THINK_END_LOOKBEHIND)"
| "end_window BHtmlDoc remaining rel content_start = floor_boundary remaining (rel - HTML_DOC_END_LOOKBEHIND)"
| "end_window BStyle remaining rel content_start = floor_boundary remaining (rel - STYLE_TAG_END_LOOKBEHIND)"
| "end_window BTool remaining rel content_start = content_start"
| "end_window BHtmlContainer remaining rel content_start = content_start"
| "end_window BRoleDivider remaining rel content_start = content_start"
| "end_window bt remaining rel content_start = line_start_of remaining rel"

definition end_scan_from :: "pending_block option \<Rightarrow> string \<Rightarrow> nat \<Rightarrow> nat \<Rightarrow> nat" where
  "end_scan_from pending remaining pos content_start =
     (case pending of
        Some p \<Rightarrow>
          if pb_start p = pos
          then max (end_window (pb_type p) remaining (min (pb_end_scan p) (length remaining)) content_start)
                 content_start - content_start
          else 0
      | None \<Rightarrow> 0)"

text \<open>What a round returns: the result of the call, or the next position with the blocks so far.\<close>

type_synonym parse_result = "stream_block list \<times> string \<times> block_type option \<times> stream_parser"

datatype round_result = RDone parse_result | RNext nat "stream_block list"

definition text_before :: "block_env \<Rightarrow> string \<Rightarrow> stream_block list" where
  "text_before env before =
     (case split_markdown_paragraphs env before 0 of
        (md_blocks, md_tail) \<Rightarrow> md_blocks @ (if md_tail = [] then [] else [sb_markdown env md_tail]))"

definition marker_round ::
  "block_env \<Rightarrow> stream_parser \<Rightarrow> pending_block option \<Rightarrow> string \<Rightarrow> nat \<Rightarrow> stream_block list \<Rightarrow> marker \<Rightarrow> round_result" where
  "marker_round env st pending remaining pos blocks m =
     (case m of (start, content_start, bt) \<Rightarrow>
        let blocks' = blocks @ (if 0 < start then text_before env (take start remaining) else [])
        in case find_end_marker env remaining start content_start bt
               (end_scan_from pending remaining pos content_start) of
             Some (end_start, end_end) \<Rightarrow>
               RNext (pos + content_start + end_end)
                 (blocks' @ [build_stream_block env bt (take end_start (drop content_start remaining))
                    remaining start content_start end_end])
           | None \<Rightarrow>
               RDone (blocks', drop start remaining, Some bt,
                 st\<lparr>sp_processed := pos + start,
                    sp_pending := (if content_start < length remaining
                      then Some \<lparr>pb_type = bt, pb_start = pos + start,
                        pb_marker_len = content_start - start, pb_end_scan = length remaining - start\<rparr>
                      else None),
                    sp_marker_scan := pos + start\<rparr>))"

definition plain_round ::
  "block_env \<Rightarrow> stream_parser \<Rightarrow> bool \<Rightarrow> string \<Rightarrow> string \<Rightarrow> nat \<Rightarrow> stream_block list \<Rightarrow> round_result" where
  "plain_round env st cursor_active full_text remaining pos blocks =
     (let break_from = (if cursor_active then floor_boundary remaining (sp_break_scan st - pos - 1) else 0)
      in case split_markdown_paragraphs env remaining break_from of
           (md_blocks, md_tail) \<Rightarrow>
             RDone (blocks @ md_blocks, md_tail, None,
               st\<lparr>sp_processed := pos + length remaining - length md_tail, sp_pending := None,
                  sp_marker_scan := length full_text, sp_break_scan := length full_text\<rparr>))"

definition parse_round ::
  "block_env \<Rightarrow> nat \<Rightarrow> string \<Rightarrow> stream_parser \<Rightarrow> pending_block option \<Rightarrow> nat \<Rightarrow> stream_block list \<Rightarrow> round_result" where
  "parse_round env base full_text st pending pos blocks =
     (let remaining = drop pos full_text
      in case start_marker env st (pos = base) pending remaining pos of
           Some m \<Rightarrow> marker_round env st pending remaining pos blocks m
         | None \<Rightarrow> plain_round env st (pos = base) full_text remaining pos blocks)"

partial_function (option) parse_loop ::
  "block_env \<Rightarrow> nat \<Rightarrow> string \<Rightarrow> stream_parser \<Rightarrow> pending_block option \<Rightarrow> nat \<Rightarrow> stream_block list \<Rightarrow> parse_result option" where
  "parse_loop env base full_text st pending pos blocks =
     (if pos < length full_text
      then (case parse_round env base full_text st pending pos blocks of
              RDone r \<Rightarrow> Some r
            | RNext pos' blocks' \<Rightarrow> parse_loop env base full_text st None pos' blocks')
      else Some (blocks, [], None,
        st\<lparr>sp_processed := length full_text, sp_pending := None,
           sp_marker_scan := length full_text, sp_break_scan := length full_text\<rparr>))"

definition clamp :: "nat \<Rightarrow> nat \<Rightarrow> nat \<Rightarrow> nat" where
  "clamp lo hi x = min hi (max lo x)"

definition process :: "block_env \<Rightarrow> stream_parser \<Rightarrow> string \<Rightarrow> parse_result option" where
  "process env st full_text =
     (let base = min (sp_processed st) (length full_text)
      in parse_loop env base full_text
           (st\<lparr>sp_marker_scan := clamp base (length full_text) (sp_marker_scan st),
               sp_break_scan := clamp base (length full_text) (sp_break_scan st), sp_pending := None\<rparr>)
           (sp_pending st) base [])"

definition finalize_blocks :: "block_env \<Rightarrow> stream_parser \<Rightarrow> string \<Rightarrow> (stream_block list \<times> stream_parser) option" where
  "finalize_blocks env st full_text =
     (case process env st full_text of
        None \<Rightarrow> None
      | Some (blocks, tail, tail_type, st') \<Rightarrow>
          let trimmed = str_trim tail
          in Some (if trimmed = [] then blocks
               else blocks @ [SbMarkdown trimmed
                 (Some (if tail_type = Some BHtmlContainer
                    then [compute_md_hashes (be_fx env) (raw_html trimmed)] else be_md env trimmed))
                 (be_hash env trimmed)], st'))"

definition reset_parser :: "stream_parser \<Rightarrow> stream_parser" where
  "reset_parser st = new_parser"

section \<open>The display of an open thought\<close>

text \<open>The content of the tail after its marker, its offset in the tail and the theme.\<close>

fun speculative_thought_tail :: "block_env \<Rightarrow> string \<Rightarrow> block_type option \<Rightarrow> (string \<times> nat \<times> string) option" where
  "speculative_thought_tail env tail (Some BThought) =
     (case be_thought env tail of
        Some (s, e, g) \<Rightarrow> if s \<noteq> 0 then None else Some (drop e tail, e, theme_of g)
      | None \<Rightarrow> None)"
| "speculative_thought_tail env tail (Some BThink) =
     (case be_think env tail of
        Some (s, e) \<Rightarrow> if s \<noteq> 0 then None else Some (drop e tail, e, zh_think_chain)
      | None \<Rightarrow> None)"
| "speculative_thought_tail env tail other = None"

end
