(* ===== verification/Stream_Blocks_Laws.thy ===== *)
theory Stream_Blocks_Laws
  imports Stream_Blocks
begin

text \<open>
  The cursors of the block parser lose nothing: on a stream of growing texts every frame gives
  what a parser without cursors, which scans the whole tail, would give. What the regular
  expressions are relied on for is \<open>scanner_ok\<close>.
\<close>

section \<open>The parser without cursors\<close>

type_synonym plain_result = "stream_block list \<times> string \<times> block_type option \<times> nat"

datatype full_result = FDone plain_result | FNext nat "stream_block list"

definition full_round :: "block_env \<Rightarrow> string \<Rightarrow> nat \<Rightarrow> stream_block list \<Rightarrow> full_result" where
  "full_round env full_text pos blocks =
     (let remaining = drop pos full_text
      in case find_earliest_start_marker env remaining 0 0 of
           Some (start, content_start, bt) \<Rightarrow>
             let blocks' = blocks @ (if 0 < start then text_before env (take start remaining) else [])
             in (case find_end_marker env remaining start content_start bt 0 of
                   Some (end_start, end_end) \<Rightarrow>
                     FNext (pos + content_start + end_end)
                       (blocks' @ [build_stream_block env bt (take end_start (drop content_start remaining))
                          remaining start content_start end_end])
                 | None \<Rightarrow> FDone (blocks', drop start remaining, Some bt, pos + start))
         | None \<Rightarrow>
             (case split_markdown_paragraphs env remaining 0 of
                (md_blocks, md_tail) \<Rightarrow>
                  FDone (blocks @ md_blocks, md_tail, None, pos + length remaining - length md_tail)))"

partial_function (option) full_loop ::
  "block_env \<Rightarrow> string \<Rightarrow> nat \<Rightarrow> stream_block list \<Rightarrow> plain_result option" where
  "full_loop env full_text pos blocks =
     (if pos < length full_text
      then (case full_round env full_text pos blocks of
              FDone r \<Rightarrow> Some r
            | FNext pos' blocks' \<Rightarrow> full_loop env full_text pos' blocks')
      else Some (blocks, [], None, length full_text))"

definition full_process :: "block_env \<Rightarrow> nat \<Rightarrow> string \<Rightarrow> plain_result option" where
  "full_process env processed full_text =
     full_loop env full_text (min processed (length full_text)) []"

section \<open>What the regular expressions are relied on for\<close>

text \<open>A text whose lines before \<open>line_start u (length u - k)\<close> had no match there never gets one.\<close>

definition settled_lines :: "nat \<Rightarrow> matcher \<Rightarrow> bool" where
  "settled_lines k re \<longleftrightarrow>
     (\<forall>u x s. s < line_start u (length u - k) \<longrightarrow> re u s = None \<longrightarrow> re (u @ x) s = None)"

definition settled_bytes :: "nat \<Rightarrow> matcher \<Rightarrow> bool" where
  "settled_bytes k re \<longleftrightarrow> (\<forall>u x s. s < length u - k \<longrightarrow> re u s = None \<longrightarrow> re (u @ x) s = None)"

definition line_anchored :: "matcher \<Rightarrow> bool" where
  "line_anchored re \<longleftrightarrow>
     (\<forall>t s. re t s \<noteq> None \<longrightarrow> 0 < s \<longrightarrow> s \<le> length t \<longrightarrow> t ! (s - 1) = newline) \<and>
     (\<forall>t k s. 0 < k \<longrightarrow> k \<le> length t \<longrightarrow> t ! (k - 1) = newline \<longrightarrow> re (drop k t) s = re t (k + s))"

text \<open>A match that does not reach the end of the text stays.\<close>

definition stable_match :: "matcher \<Rightarrow> bool" where
  "stable_match re \<longleftrightarrow> (\<forall>u x n. re u 0 = Some n \<longrightarrow> n < length u \<longrightarrow> re (u @ x) 0 = Some n)"

definition scanner_ok :: "block_env \<Rightarrow> bool" where
  "scanner_ok env \<longleftrightarrow>
     (\<forall>bt t s n. be_start env bt t s = Some n \<longrightarrow> 0 < n) \<and>
     (\<forall>bt. line_anchored (be_start env bt)) \<and>
     (\<forall>bt\<in>set bounded_types. settled_lines 0 (be_start env bt)) \<and>
     (\<forall>bt\<in>set multiline_types. settled_lines MULTILINE_MARKER_LOOKBEHIND (be_start env bt)) \<and>
     (\<forall>bt. stable_match (be_start env bt)) \<and>
     (\<forall>bt bt' u x. be_start env bt u 0 \<noteq> None \<longrightarrow> be_start env bt' (u @ x) 0 \<noteq> None \<longrightarrow> bt = bt') \<and>
     (\<forall>bt\<in>{BThought, BToolResult, BDiary, BToolCallSummary}. settled_lines 0 (be_end env bt)) \<and>
     settled_bytes THINK_END_LOOKBEHIND (be_end env BThink) \<and>
     settled_bytes HTML_DOC_END_LOOKBEHIND (be_end env BHtmlDoc) \<and>
     settled_bytes STYLE_TAG_END_LOOKBEHIND (be_end env BStyle)"

section \<open>Lines\<close>

lemma line_start_le: "line_start t a \<le> a"
  by (simp add: line_start_def)

lemma line_start_append: "a \<le> length u \<Longrightarrow> line_start (u @ x) a = line_start u a"
  by (simp add: line_start_def)

lemma line_start_newline:
  assumes "a \<le> length t" "0 < line_start t a"
  shows "t ! (line_start t a - 1) = newline"
proof -
  let ?r = "rev (take a t)"
  let ?k = "length (takeWhile (\<lambda>c. c \<noteq> newline) ?r)"
  have a: "length ?r = a" using assms(1) by simp
  have k: "?k < length ?r" using assms(2) a by (simp add: line_start_def)
  then have "?r ! ?k = newline" using nth_length_takeWhile[OF k] by simp
  moreover have "?r ! ?k = t ! (a - 1 - ?k)" using k a by (simp add: rev_nth)
  ultimately show ?thesis by (simp add: line_start_def)
qed

lemma no_newline_after_line_start:
  assumes "a \<le> length t" "line_start t a \<le> i" "i < a"
  shows "t ! i \<noteq> newline"
proof -
  let ?r = "rev (take a t)"
  let ?k = "length (takeWhile (\<lambda>c. c \<noteq> newline) ?r)"
  have j: "a - 1 - i < ?k" using assms by (simp add: line_start_def)
  then have "takeWhile (\<lambda>c. c \<noteq> newline) ?r ! (a - 1 - i) \<noteq> newline"
    using nth_mem set_takeWhileD by fastforce
  then have "?r ! (a - 1 - i) \<noteq> newline" using takeWhile_nth[OF j] by simp
  then show ?thesis using assms by (simp add: rev_nth)
qed

lemma line_start_mono: "a \<le> b \<Longrightarrow> b \<le> length t \<Longrightarrow> line_start t a \<le> line_start t b"
proof (rule ccontr)
  assume *: "a \<le> b" "b \<le> length t" "\<not> line_start t a \<le> line_start t b"
  then have "t ! (line_start t a - 1) = newline" by (intro line_start_newline) auto
  moreover have "t ! (line_start t a - 1) \<noteq> newline"
    using * line_start_le[of t a] by (intro no_newline_after_line_start[of b]) auto
  ultimately show False by simp
qed

lemma line_start_of_le: "a \<le> length u \<Longrightarrow> line_start_of (u @ x) a \<le> line_start u a"
  using floor_boundary_le[of "u @ x" a] line_start_mono[of "floor_boundary (u @ x) a" a "u @ x"]
  by (simp add: line_start_of_def line_start_append)

section \<open>Searches from a cursor\<close>

lemma find_at_from:
  assumes "\<And>s. s < lo \<Longrightarrow> s \<le> length t \<Longrightarrow> re t s = None"
  shows "find_at re t lo = find_at re t 0"
proof (cases "find_at re t lo")
  case None
  then have "find_at re t 0 = None"
    using assms by (auto simp: find_at_None_iff) (metis linorder_not_less)
  then show ?thesis using None by simp
next
  case (Some m)
  obtain s e where m: "m = (s, e)" by (cases m)
  note d = find_at_SomeD[OF Some[unfolded m]]
  have "find_at re t 0 = Some (s, s + (e - s))"
    by (rule find_at_SomeI) (use d assms in \<open>auto simp: not_less\<close>, metis le_trans less_imp_le linorder_not_less)
  then show ?thesis using Some m d by simp
qed

abbreviation all_types :: "block_type list" where
  "all_types \<equiv> bounded_types @ multiline_types"

lemma all_types: "bt \<in> set all_types"
  by (cases bt) (simp_all add: bounded_types_def multiline_types_def)

definition scan_types :: "block_env \<Rightarrow> string \<Rightarrow> block_type list \<Rightarrow> marker option \<Rightarrow> marker option" where
  "scan_types env t bts m = fold (\<lambda>bt m. keep_earliest m (find_at (be_start env bt) t 0) bt) bts m"

lemma find_earliest_scan: "find_earliest_start_marker env t 0 0 = scan_types env t all_types None"
  by (simp add: find_earliest_start_marker_def scan_types_def)

lemma scan_types_simps [simp]:
  "scan_types env t [] m = m"
  "scan_types env t (bt # bts) m = scan_types env t bts (keep_earliest m (find_at (be_start env bt) t 0) bt)"
  by (simp_all add: scan_types_def)

definition is_marker :: "block_env \<Rightarrow> string \<Rightarrow> marker \<Rightarrow> bool" where
  "is_marker env t m = (case m of (s, e, bt) \<Rightarrow> s \<le> length t \<and> s \<le> e \<and> be_start env bt t s = Some (e - s))"

lemma scan_types_marker:
  "scan_types env t bts m = Some r \<Longrightarrow> (\<And>r. m = Some r \<Longrightarrow> is_marker env t r) \<Longrightarrow> is_marker env t r"
proof (induction bts arbitrary: m)
  case (Cons bt bts)
  have "is_marker env t r'" if "keep_earliest m (find_at (be_start env bt) t 0) bt = Some r'" for r'
    using that Cons.prems(2) find_at_SomeD[of "be_start env bt" t 0]
    by (cases "find_at (be_start env bt) t 0"; cases m) (auto simp: is_marker_def split: if_splits)
  then show ?case using Cons.prems(1) by (auto intro: Cons.IH)
qed simp

lemma scan_types_None:
  "scan_types env t bts m = None \<longleftrightarrow> m = None \<and> (\<forall>bt\<in>set bts. find_at (be_start env bt) t 0 = None)"
proof (induction bts arbitrary: m)
  case (Cons bt bts)
  have "keep_earliest m f bt = None \<longleftrightarrow> m = None \<and> f = None" for f
    by (cases m; cases f) auto
  then show ?case using Cons.IH by auto
qed simp

lemma scan_types_first:
  assumes "be_start env bt t 0 = Some n" "\<And>bt'. bt' \<noteq> bt \<Longrightarrow> be_start env bt' t 0 = None"
  shows "bt \<in> set bts \<Longrightarrow> (\<And>s e b. m = Some (s, e, b) \<Longrightarrow> 0 < s) \<Longrightarrow> scan_types env t bts m = Some (0, n, bt)"
    "scan_types env t bts (Some (0, n, bt)) = Some (0, n, bt)"
proof -
  have at_bt: "find_at (be_start env bt) t 0 = Some (0, n)"
    using find_at_SomeI[of 0 0 t "be_start env bt" n] assms(1) by simp
  have stay: "keep_earliest (Some (0, n, bt)) f b = Some (0, n, bt)" for f b
    by (cases f) auto
  show first: "scan_types env t bts (Some (0, n, bt)) = Some (0, n, bt)" for bts
    by (induction bts) (simp_all add: stay)
  show "bt \<in> set bts \<Longrightarrow> (\<And>s e b. m = Some (s, e, b) \<Longrightarrow> 0 < s) \<Longrightarrow> scan_types env t bts m = Some (0, n, bt)"
  proof (induction bts arbitrary: m)
    case (Cons b bts)
    show ?case
    proof (cases "b = bt")
      case True
      have "keep_earliest m (Some (0, n)) bt = Some (0, n, bt)"
        using Cons.prems(2) by (cases m) auto
      then show ?thesis using True at_bt first by simp
    next
      case False
      have "0 < s" if "find_at (be_start env b) t 0 = Some (s, e)" for s e
        using find_at_SomeD[OF that] assms(2)[OF False] by (cases s) auto
      then have "0 < s" if "keep_earliest m (find_at (be_start env b) t 0) b = Some (s, e, b')" for s e b'
        using that Cons.prems(2) by (cases "find_at (be_start env b) t 0"; cases m) (auto split: if_splits)
      then show ?thesis using Cons.prems(1) False Cons.IH by auto
    qed
  qed simp
qed

lemma find_earliest_None:
  "find_earliest_start_marker env t 0 0 = None \<longleftrightarrow> (\<forall>bt s. s \<le> length t \<longrightarrow> be_start env bt t s = None)"
  using all_types by (auto simp: find_earliest_scan scan_types_None find_at_None_iff)

lemma find_earliest_Some:
  "find_earliest_start_marker env t 0 0 = Some m \<Longrightarrow> is_marker env t m"
  unfolding find_earliest_scan by (rule scan_types_marker) auto

lemma find_earliest_first:
  "be_start env bt t 0 = Some n \<Longrightarrow> (\<And>bt'. bt' \<noteq> bt \<Longrightarrow> be_start env bt' t 0 = None) \<Longrightarrow>
     find_earliest_start_marker env t 0 0 = Some (0, n, bt)"
  unfolding find_earliest_scan by (rule scan_types_first) (use all_types in auto)

lemma find_earliest_windows:
  assumes "\<And>bt s. bt \<in> set bounded_types \<Longrightarrow> s < b \<Longrightarrow> be_start env bt t s = None"
    and "\<And>bt s. bt \<in> set multiline_types \<Longrightarrow> s < m \<Longrightarrow> be_start env bt t s = None"
  shows "find_earliest_start_marker env t b m = find_earliest_start_marker env t 0 0"
proof -
  have "find_at (be_start env bt) t b = find_at (be_start env bt) t 0" if "bt \<in> set bounded_types" for bt
    using assms(1)[OF that] by (intro find_at_from) auto
  moreover have "find_at (be_start env bt) t m = find_at (be_start env bt) t 0" if "bt \<in> set multiline_types" for bt
    using assms(2)[OF that] by (intro find_at_from) auto
  ultimately show ?thesis
    by (simp add: find_earliest_start_marker_def bounded_types_def multiline_types_def)
qed

section \<open>Paragraph breaks\<close>

lemma find_rev_upt:
  "List.find P (rev [0..<n]) = Some i \<longleftrightarrow> i < n \<and> P i \<and> (\<forall>j. i < j \<longrightarrow> j < n \<longrightarrow> \<not> P j)"
  by (induction n) (auto simp: less_Suc_eq)

lemma find_rev_upt_None: "List.find P (rev [0..<n]) = None \<longleftrightarrow> (\<forall>j<n. \<not> P j)"
  by (auto simp: find_None_iff)

definition break_at :: "string \<Rightarrow> nat \<Rightarrow> bool" where
  "break_at t i \<longleftrightarrow> prefix para_break (drop i t)"

lemma break_at_iff: "break_at t i \<longleftrightarrow> Suc i < length t \<and> t ! i = newline \<and> t ! Suc i = newline"
proof (cases "Suc i < length t")
  case True
  then have "drop i t = t ! i # t ! Suc i # drop (Suc (Suc i)) t" by (simp add: Cons_nth_drop_Suc)
  then show ?thesis using True by (auto simp: break_at_def para_break_def)
next
  case False
  then have "\<not> prefix para_break (drop i t)"
    by (auto simp: para_break_def dest: prefix_length_le)
  then show ?thesis using False by (simp add: break_at_def)
qed

lemma rfind_break_Some:
  "str_rfind para_break t = Some i \<longleftrightarrow> break_at t i \<and> (\<forall>j>i. \<not> break_at t j)"
proof -
  have "break_at t j \<Longrightarrow> j < Suc (length t)" for j by (simp add: break_at_iff)
  then show ?thesis unfolding str_rfind_def find_rev_upt break_at_def[symmetric] by blast
qed

lemma rfind_break_None: "str_rfind para_break t = None \<longleftrightarrow> (\<forall>j. \<not> break_at t j)"
proof -
  have "break_at t j \<Longrightarrow> j < Suc (length t)" for j by (simp add: break_at_iff)
  then show ?thesis unfolding str_rfind_def find_rev_upt_None break_at_def[symmetric] by blast
qed

lemma break_at_drop: "break_at (drop k t) i \<longleftrightarrow> break_at t (k + i)"
  by (simp add: break_at_def add.commute)

lemma rfind_break_from:
  assumes "\<And>i. i < lo \<Longrightarrow> \<not> break_at t i"
  shows "map_option ((+) lo) (str_rfind para_break (drop lo t)) = str_rfind para_break t"
proof (cases "str_rfind para_break (drop lo t)")
  case None
  then have "\<not> break_at t j" for j
    using assms rfind_break_None[of "drop lo t"] break_at_drop[of lo t "j - lo"] by (cases "j < lo") auto
  then have "str_rfind para_break t = None" by (simp add: rfind_break_None)
  then show ?thesis using None by simp
next
  case (Some i)
  then have i: "break_at t (lo + i)" "\<And>j. i < j \<Longrightarrow> \<not> break_at t (lo + j)"
    by (auto simp: rfind_break_Some break_at_drop)
  have "\<not> break_at t j" if "lo + i < j" for j
    using i(2)[of "j - lo"] that by simp
  then have "str_rfind para_break t = Some (lo + i)" using i(1) by (simp add: rfind_break_Some)
  then show ?thesis using Some by simp
qed

lemma split_paragraphs_from:
  assumes "\<And>i. i < break_from \<Longrightarrow> \<not> break_at t i"
  shows "split_markdown_paragraphs env t break_from = split_markdown_paragraphs env t 0"
proof -
  let ?f = "floor_boundary t (min break_from (length t))"
  have "?f \<le> break_from" using floor_boundary_le[of t "min break_from (length t)"] by simp
  then have "map_option ((+) ?f) (str_rfind para_break (drop ?f t)) = str_rfind para_break t"
    using assms by (intro rfind_break_from) auto
  then show ?thesis
    by (cases "str_rfind para_break (drop ?f t)"; cases "str_rfind para_break t")
      (simp_all add: split_markdown_paragraphs_def Let_def)
qed

lemma split_paragraphs_tail:
  assumes "split_markdown_paragraphs env t 0 = (blocks, tail)"
  obtains k where "k \<le> length t" "tail = drop k t" "k = 0 \<or> t ! (k - 1) = newline"
    "\<And>i. k \<le> i \<Longrightarrow> \<not> break_at t i"
proof (cases "t = []")
  case True
  then show ?thesis using assms that[of 0] by (simp add: split_markdown_paragraphs_def break_at_iff)
next
  case False
  show ?thesis
  proof (cases "str_rfind para_break t")
    case None
    then show ?thesis
      using assms False that[of 0] rfind_break_None[of t] by (simp add: split_markdown_paragraphs_def)
  next
    case (Some i)
    then have "break_at t i" "\<And>j. i < j \<Longrightarrow> \<not> break_at t j" by (auto simp: rfind_break_Some)
    then show ?thesis
      using assms False Some that[of "i + 2"] by (auto simp: split_markdown_paragraphs_def break_at_iff)
  qed
qed

section \<open>End markers from a cursor\<close>

lemma split_incl_append:
  "a = [] \<and> acc = [] \<or> (a \<noteq> [] \<and> last a = newline) \<Longrightarrow> split_incl acc (a @ b) = split_incl acc a @ split_incl [] b"
  by (induction a arbitrary: acc) (auto split: if_splits)

lemma split_incl_length: "sum_list (map length (split_incl acc t)) = length acc + length t"
  by (induction acc t rule: split_incl.induct) auto

lemma fence_scan_append:
  "fence_scan count s (ls @ ls') =
     (case fence_scan count s ls of Some r \<Rightarrow> Some r
      | None \<Rightarrow> fence_scan count (s + sum_list (map length ls)) ls')"
  by (induction count s ls rule: fence_scan.induct) (auto simp: Let_def add.assoc split: option.split)

lemma fence_end_from:
  assumes "find_matching_fence_end u marker 0 = None" "lo \<le> length u"
  shows "find_matching_fence_end (u @ x) marker lo = find_matching_fence_end (u @ x) marker 0"
proof -
  define count where "count = length (takeWhile (\<lambda>c. c = CHR 0x60) (trim_start marker))"
  define l where "l = line_start (u @ x) (floor_boundary (u @ x) (min lo (length (u @ x))))"
  have l: "l \<le> lo" "l = 0 \<or> (u @ x) ! (l - 1) = newline"
    using line_start_le[of "u @ x"] floor_boundary_le[of "u @ x" "min lo (length (u @ x))"]
      line_start_newline[of "floor_boundary (u @ x) (min lo (length (u @ x)))" "u @ x"]
    by (auto simp: l_def intro: le_trans)
  have lu: "l \<le> length u" using l(1) assms(2) by simp
  have ends: "take l u = [] \<or> last (take l u) = newline"
  proof (cases "l = 0 \<or> u = []")
    case False
    then have "last (take l u) = u ! (l - 1)" using lu by (simp add: last_conv_nth)
    moreover have "l - 1 < length u" using lu False by (simp add: Suc_le_eq[symmetric])
    ultimately show ?thesis using l(2) False by (simp add: nth_append)
  qed auto
  have split: "split_incl [] (take l u @ y) = split_incl [] (take l u) @ split_incl [] y" for y
    using split_incl_append[of "take l u" "[]" y] ends by blast
  show ?thesis
  proof (cases "count < 3")
    case True
    then show ?thesis by (simp add: find_matching_fence_end_def count_def)
  next
    case False
    have "fence_scan count 0 (split_incl [] (take l u @ drop l u)) = None"
      using assms(1) False by (simp add: find_matching_fence_end_def count_def line_start_def)
    then have none: "fence_scan count 0 (split_incl [] (take l u)) = None"
      unfolding split by (simp add: fence_scan_append split: option.splits)
    have "fence_scan count 0 (split_incl [] (take l u @ drop l u @ x)) =
        fence_scan count l (split_incl [] (drop l u @ x))"
      unfolding split using none lu by (simp add: fence_scan_append split_incl_length)
    then have eq: "fence_scan count 0 (split_incl [] (u @ x)) = fence_scan count l (split_incl [] (drop l (u @ x)))"
      using lu by (simp flip: append_assoc)
    have "find_matching_fence_end (u @ x) marker lo = fence_scan count l (split_incl [] (drop l (u @ x)))"
      using False unfolding find_matching_fence_end_def Let_def count_def[symmetric] l_def[symmetric] by simp
    moreover have "find_matching_fence_end (u @ x) marker 0 = fence_scan count 0 (split_incl [] (u @ x))"
      using False unfolding find_matching_fence_end_def Let_def count_def[symmetric]
      by (simp add: line_start_def)
    ultimately show ?thesis using eq by simp
  qed
qed

lemma line_start_drop:
  assumes "k \<le> line_start t a" "a \<le> length t"
  shows "line_start (drop k t) (a - k) = line_start t a - k"
proof -
  let ?P = "\<lambda>c. c \<noteq> newline"
  let ?a = "rev (drop k (take a t))" and ?b = "rev (take k t)"
  have ka: "k \<le> a" using assms(1) line_start_le[of t a] by simp
  have r: "rev (take a t) = ?a @ ?b"
    using ka by (metis append_take_drop_id min.absorb1 rev_append take_take)
  have la: "length ?a = a - k" using assms(2) by simp
  have w: "length (takeWhile ?P (?a @ ?b)) \<le> a - k"
    using assms(1) ka length_takeWhile_le[of ?P "?a @ ?b"] by (simp add: line_start_def r)
  have "length (takeWhile ?P ?a) = length (takeWhile ?P (?a @ ?b))"
  proof (cases "\<exists>c\<in>set ?a. \<not> ?P c")
    case True
    then obtain c where "c \<in> set ?a" "\<not> ?P c" by blast
    then show ?thesis by (simp add: takeWhile_append1[of c ?a ?P])
  next
    case False
    then have all: "\<And>c. c \<in> set ?a \<Longrightarrow> ?P c" by blast
    have "takeWhile ?P (?a @ ?b) = ?a @ takeWhile ?P ?b" "takeWhile ?P ?a = ?a"
      by (rule takeWhile_append2[OF all], simp, simp add: takeWhile_eq_all_conv all)
    then show ?thesis using w la by (simp only: length_append)
  qed
  moreover have "take (a - k) (drop k t) = drop k (take a t)" by (simp add: drop_take)
  ultimately show ?thesis using assms(1) ka by (simp add: line_start_def r)
qed

lemma drop_append_le: "k \<le> length u \<Longrightarrow> drop k (u @ x) = drop k u @ x"
  by simp

lemma find_end_settled_lines:
  assumes re: "settled_lines 0 re" and ml: "ml \<le> length u" and none: "find_at re (drop ml u) 0 = None"
    and w: "ml + w \<le> max (line_start_of (u @ x) (length u)) ml"
  shows "find_at re (drop ml (u @ x)) w = find_at re (drop ml (u @ x)) 0"
proof (rule find_at_from)
  fix s assume s: "s < w"
  let ?l = "line_start u (length u)"
  have l: "ml + s < ?l" using w s line_start_of_le[of "length u" u x] by simp
  then have "line_start (drop ml u) (length u - ml) = ?l - ml" by (intro line_start_drop) auto
  then have "s < line_start (drop ml u) (length (drop ml u) - 0)" using l by simp
  moreover have "re (drop ml u) s = None"
    using none l line_start_le[of u "length u"] by (simp add: find_at_None_iff)
  ultimately have "re (drop ml u @ x) s = None" using re unfolding settled_lines_def by blast
  then show "re (drop ml (u @ x)) s = None" using ml by simp
qed

lemma find_end_settled_bytes:
  assumes re: "settled_bytes k re" and ml: "ml \<le> length u" and none: "find_at re (drop ml u) 0 = None"
    and w: "ml + w \<le> max (length u - k) ml"
  shows "find_at re (drop ml (u @ x)) w = find_at re (drop ml (u @ x)) 0"
proof (rule find_at_from)
  fix s assume s: "s < w"
  then have "s < length (drop ml u) - k" using w by simp
  moreover have "re (drop ml u) s = None" using none s w by (simp add: find_at_None_iff)
  ultimately have "re (drop ml u @ x) s = None" using re unfolding settled_bytes_def by blast
  then show "re (drop ml (u @ x)) s = None" using ml by simp
qed

text \<open>The block types whose end is searched from a cursor.\<close>

definition cursor_types :: "block_type set" where
  "cursor_types = {BThought, BToolResult, BDiary, BToolCallSummary, BThink, BHtmlDoc, BStyle, BCodeFence}"

lemma find_end_from_cursor:
  assumes ok: "scanner_ok env" and ml: "ml < length u" and bt: "pb_type p = bt"
    and start: "pb_start p = pos" and scan: "pb_end_scan p = length u"
    and none: "bt \<in> cursor_types \<Longrightarrow> find_end_marker env u 0 ml bt 0 = None"
  shows "find_end_marker env (u @ x) 0 ml bt (end_scan_from (Some p) (u @ x) pos ml) =
    find_end_marker env (u @ x) 0 ml bt 0"
proof -
  define w where "w = end_scan_from (Some p) (u @ x) pos ml"
  have w: "ml + w = max (end_window bt (u @ x) (length u) ml) ml"
    using bt start scan by (simp add: w_def end_scan_from_def)
  have ml': "ml \<le> length u" using ml by simp
  have floor: "floor_boundary (u @ x) (length u - k) \<le> length u - k" for k
    by (rule floor_boundary_le)
  consider (line) "bt \<in> {BThought, BToolResult, BDiary, BToolCallSummary}" | (think) "bt = BThink"
    | (html) "bt = BHtmlDoc" | (style) "bt = BStyle" | (fence) "bt = BCodeFence"
    | (other) "bt \<in> {BTool, BHtmlContainer, BRoleDivider}"
    by (cases bt) auto
  then have "find_end_marker env (u @ x) 0 ml bt w = find_end_marker env (u @ x) 0 ml bt 0"
  proof cases
    case line
    have "settled_lines 0 (be_end env bt)" using ok line unfolding scanner_ok_def by blast
    then show ?thesis
      using find_end_settled_lines[of "be_end env bt" ml u w x] ml' none w line
      by (auto simp: cursor_types_def)
  next
    case think
    have "settled_bytes THINK_END_LOOKBEHIND (be_end env BThink)" using ok unfolding scanner_ok_def by blast
    moreover have "ml + w \<le> max (length u - THINK_END_LOOKBEHIND) ml"
      using w think floor[of THINK_END_LOOKBEHIND] by (auto simp: le_max_iff_disj)
    ultimately show ?thesis
      using find_end_settled_bytes[of THINK_END_LOOKBEHIND "be_end env BThink" ml u w x] ml' none think
      by (simp add: cursor_types_def)
  next
    case html
    have "settled_bytes HTML_DOC_END_LOOKBEHIND (be_end env BHtmlDoc)" using ok unfolding scanner_ok_def by blast
    moreover have "ml + w \<le> max (length u - HTML_DOC_END_LOOKBEHIND) ml"
      using w html floor[of HTML_DOC_END_LOOKBEHIND] by (auto simp: le_max_iff_disj)
    ultimately show ?thesis
      using find_end_settled_bytes[of HTML_DOC_END_LOOKBEHIND "be_end env BHtmlDoc" ml u w x] ml' none html
      by (simp add: cursor_types_def)
  next
    case style
    have "settled_bytes STYLE_TAG_END_LOOKBEHIND (be_end env BStyle)" using ok unfolding scanner_ok_def by blast
    moreover have "ml + w \<le> max (length u - STYLE_TAG_END_LOOKBEHIND) ml"
      using w style floor[of STYLE_TAG_END_LOOKBEHIND] by (auto simp: le_max_iff_disj)
    ultimately show ?thesis
      using find_end_settled_bytes[of STYLE_TAG_END_LOOKBEHIND "be_end env BStyle" ml u w x] ml' none style
      by (simp add: cursor_types_def)
  next
    case fence
    have "ml + w \<le> length u"
      using w fence ml' line_start_of_le[of "length u" u x] line_start_le[of u "length u"] by simp
    then have "w \<le> length (drop ml u)" by simp
    then show ?thesis
      using fence_end_from[of "drop ml u" "take ml u" w x] none fence ml'
      by (simp add: cursor_types_def slice_def)
  next
    case other
    then have "w = 0" using w by auto
    then show ?thesis by simp
  qed
  then show ?thesis by (simp add: w_def)
qed

section \<open>The cursors between two frames\<close>

definition marker_cursor_ok :: "block_env \<Rightarrow> stream_parser \<Rightarrow> string \<Rightarrow> bool" where
  "marker_cursor_ok env st t \<longleftrightarrow>
     sp_marker_scan st \<le> length t \<and>
     (\<forall>bt s. sp_processed st + s < sp_marker_scan st \<longrightarrow> be_start env bt (drop (sp_processed st) t) s = None) \<and>
     (sp_processed st < sp_marker_scan st \<longrightarrow> sp_marker_scan st = length t)"

definition break_cursor_ok :: "stream_parser \<Rightarrow> string \<Rightarrow> bool" where
  "break_cursor_ok st t \<longleftrightarrow>
     sp_break_scan st \<le> length t \<and>
     (\<forall>i. sp_processed st \<le> i \<longrightarrow> Suc i < sp_break_scan st \<longrightarrow> \<not> break_at t i)"

definition pending_ok :: "block_env \<Rightarrow> stream_parser \<Rightarrow> string \<Rightarrow> bool" where
  "pending_ok env st t \<longleftrightarrow>
     (case sp_pending st of
        None \<Rightarrow> True
      | Some p \<Rightarrow>
          let u = drop (sp_processed st) t
          in pb_start p = sp_processed st \<and> pb_end_scan p = length u \<and> pb_marker_len p < length u \<and>
             be_start env (pb_type p) u 0 = Some (pb_marker_len p) \<and>
             (pb_type p \<in> cursor_types \<longrightarrow> find_end_marker env u 0 (pb_marker_len p) (pb_type p) 0 = None))"

definition cursors_ok :: "block_env \<Rightarrow> stream_parser \<Rightarrow> string \<Rightarrow> bool" where
  "cursors_ok env st t \<longleftrightarrow>
     sp_processed st \<le> length t \<and> marker_cursor_ok env st t \<and> break_cursor_ok st t \<and> pending_ok env st t"

lemma new_parser_ok: "cursors_ok env new_parser []"
  by (simp add: cursors_ok_def new_parser_def marker_cursor_ok_def break_cursor_ok_def pending_ok_def)

fun view :: "parse_result \<Rightarrow> plain_result" where
  "view (blocks, tail, bt, st) = (blocks, tail, bt, sp_processed st)"

fun view_round :: "round_result \<Rightarrow> full_result" where
  "view_round (RDone r) = FDone (view r)"
| "view_round (RNext pos blocks) = FNext pos blocks"

text \<open>The round finds the start marker, the end marker and the paragraph breaks where the round
  without cursors finds them.\<close>

definition round_finds_all ::
  "block_env \<Rightarrow> nat \<Rightarrow> string \<Rightarrow> stream_parser \<Rightarrow> pending_block option \<Rightarrow> nat \<Rightarrow> bool" where
  "round_finds_all env base t st pending pos \<longleftrightarrow>
     start_marker env st (pos = base) pending (drop pos t) pos =
       find_earliest_start_marker env (drop pos t) 0 0 \<and>
     (\<forall>s cs bt. find_earliest_start_marker env (drop pos t) 0 0 = Some (s, cs, bt) \<longrightarrow>
        find_end_marker env (drop pos t) s cs bt (end_scan_from pending (drop pos t) pos cs) =
        find_end_marker env (drop pos t) s cs bt 0) \<and>
     (pos = base \<longrightarrow>
        split_markdown_paragraphs env (drop pos t) (floor_boundary (drop pos t) (sp_break_scan st - pos - 1)) =
        split_markdown_paragraphs env (drop pos t) 0)"

lemma round_agrees:
  assumes "round_finds_all env base t st pending pos"
  shows "view_round (parse_round env base t st pending pos blocks) = full_round env t pos blocks"
proof (cases "find_earliest_start_marker env (drop pos t) 0 0")
  case None
  then show ?thesis
    using assms
    by (auto simp: round_finds_all_def parse_round_def full_round_def plain_round_def Let_def split: prod.splits)
next
  case (Some m)
  obtain s cs bt where m: "m = (s, cs, bt)" by (cases m)
  show ?thesis
    using assms Some m
    by (auto simp: round_finds_all_def parse_round_def full_round_def marker_round_def Let_def split: option.split)
qed

lemma later_round_finds_all: "base < pos \<Longrightarrow> round_finds_all env base t st None pos"
  by (simp add: round_finds_all_def start_marker_def start_windows_def end_scan_from_def)

lemma floor_boundary_less: "i < floor_boundary t n \<Longrightarrow> i < n"
  using floor_boundary_le[of t n] by simp

lemma first_round_breaks:
  assumes "break_cursor_ok st t" "sp_processed st \<le> length t"
  shows "split_markdown_paragraphs env (drop (sp_processed st) t @ x)
      (floor_boundary (drop (sp_processed st) t @ x) (max (sp_processed st) (sp_break_scan st) - sp_processed st - 1)) =
    split_markdown_paragraphs env (drop (sp_processed st) t @ x) 0"
proof (rule split_paragraphs_from)
  fix i
  assume "i < floor_boundary (drop (sp_processed st) t @ x)
    (max (sp_processed st) (sp_break_scan st) - sp_processed st - 1)"
  then have i: "Suc (sp_processed st + i) < sp_break_scan st" by (auto dest!: floor_boundary_less)
  moreover have "sp_break_scan st \<le> length t" using assms(1) by (simp add: break_cursor_ok_def)
  ultimately have "\<not> break_at t (sp_processed st + i)" "Suc (sp_processed st + i) < length t"
    using assms(1) by (auto simp: break_cursor_ok_def)
  then show "\<not> break_at (drop (sp_processed st) t @ x) i"
    using assms(2) by (auto simp: break_at_iff nth_append)
qed

lemma first_round_markers:
  assumes ok: "scanner_ok env" and mc: "marker_cursor_ok env st t" and le: "sp_processed st \<le> length t"
    and scan: "sp_marker_scan st' = max (sp_processed st) (sp_marker_scan st)"
  shows "start_marker env st' True None (drop (sp_processed st) t @ x) (sp_processed st) =
    find_earliest_start_marker env (drop (sp_processed st) t @ x) 0 0"
proof (cases "sp_processed st < sp_marker_scan st")
  case False
  then show ?thesis using scan by (simp add: start_marker_def start_windows_def)
next
  case True
  let ?u = "drop (sp_processed st) t"
  have at_end: "sp_marker_scan st = length t" using mc True by (simp add: marker_cursor_ok_def)
  have none: "be_start env bt ?u s = None" if "s < length ?u" for bt s
    using mc at_end that by (simp add: marker_cursor_ok_def)
  have no_match: "be_start env bt (?u @ x) s = None"
    if re: "settled_lines k (be_start env bt)" and s: "s < line_start_of (?u @ x) (length ?u - k)" for bt k s
  proof -
    have "s < line_start ?u (length ?u - k)" by (rule less_le_trans[OF s line_start_of_le]) simp
    moreover have "s < length ?u" using less_le_trans[OF calculation line_start_le] by simp
    ultimately show ?thesis using re none unfolding settled_lines_def by blast
  qed
  have bounded: "settled_lines 0 (be_start env bt)" if "bt \<in> set bounded_types" for bt
    using ok that unfolding scanner_ok_def by blast
  have multi: "settled_lines MULTILINE_MARKER_LOOKBEHIND (be_start env bt)" if "bt \<in> set multiline_types" for bt
    using ok that unfolding scanner_ok_def by blast
  have rel: "sp_marker_scan st' - sp_processed st = length ?u" "0 < length ?u" using scan at_end True by auto
  have "find_earliest_start_marker env (?u @ x) (line_start_of (?u @ x) (length ?u))
      (line_start_of (?u @ x) (length ?u - MULTILINE_MARKER_LOOKBEHIND)) =
    find_earliest_start_marker env (?u @ x) 0 0"
    by (rule find_earliest_windows) (use no_match[OF bounded] no_match[OF multi] in auto)
  then show ?thesis using rel by (simp add: start_marker_def start_windows_def)
qed

lemma first_round_finds_all:
  assumes ok: "scanner_ok env" and c: "cursors_ok env st t"
    and scan: "sp_marker_scan st' = max (sp_processed st) (sp_marker_scan st)"
      "sp_break_scan st' = max (sp_processed st) (sp_break_scan st)"
  shows "round_finds_all env (sp_processed st) (t @ x) st' (sp_pending st) (sp_processed st)"
proof -
  let ?u = "drop (sp_processed st) t"
  have le: "sp_processed st \<le> length t" using c by (simp add: cursors_ok_def)
  have rem: "drop (sp_processed st) (t @ x) = ?u @ x" using le by simp
  note breaks = first_round_breaks[of st t env x]
  show ?thesis
  proof (cases "sp_pending st")
    case None
    then show ?thesis
      using first_round_markers[OF ok _ le scan(1), of x] breaks c le scan(2)
      by (simp add: round_finds_all_def rem cursors_ok_def end_scan_from_def del: drop_append)
  next
    case (Some p)
    let ?ml = "pb_marker_len p" and ?bt = "pb_type p"
    have p: "pb_start p = sp_processed st" "pb_end_scan p = length ?u" "?ml < length ?u"
      "be_start env ?bt ?u 0 = Some ?ml"
      "?bt \<in> cursor_types \<Longrightarrow> find_end_marker env ?u 0 ?ml ?bt 0 = None"
      using c Some by (auto simp: cursors_ok_def pending_ok_def Let_def)
    have at0: "be_start env ?bt (?u @ x) 0 = Some ?ml"
      using ok p(3,4) unfolding scanner_ok_def stable_match_def by blast
    have only: "be_start env bt' (?u @ x) 0 = None" if "bt' \<noteq> ?bt" for bt'
      using ok p(4) that unfolding scanner_ok_def by (metis option.distinct(1))
    have "find_earliest_start_marker env (?u @ x) 0 0 = Some (0, ?ml, ?bt)"
      by (rule find_earliest_first[OF at0 only])
    then show ?thesis
      using find_end_from_cursor[OF ok p(3) refl p(1,2,5), of x] breaks c le scan(2) p(1) Some
      by (simp add: round_finds_all_def rem cursors_ok_def start_marker_def del: drop_append)
  qed
qed

section \<open>The state a frame leaves\<close>

lemma is_marker_slice:
  assumes ok: "scanner_ok env" and m: "is_marker env r (s, cs, bt)"
  shows "be_start env bt (drop s r) 0 = Some (cs - s)"
proof (cases "s = 0")
  case True
  then show ?thesis using m by (simp add: is_marker_def)
next
  case False
  have anch: "line_anchored (be_start env bt)" using ok unfolding scanner_ok_def by blast
  have m': "s \<le> length r" "be_start env bt r s = Some (cs - s)" using m by (auto simp: is_marker_def)
  then have "r ! (s - 1) = newline" using anch False unfolding line_anchored_def by blast
  then have "be_start env bt (drop s r) 0 = be_start env bt r (s + 0)"
    using anch False m'(1) unfolding line_anchored_def by blast
  then show ?thesis using m'(2) by simp
qed

lemma marker_nonempty: "scanner_ok env \<Longrightarrow> is_marker env r (s, cs, bt) \<Longrightarrow> s < cs"
  unfolding scanner_ok_def is_marker_def by fastforce

lemma find_end_shift:
  assumes "bt \<in> cursor_types" "s \<le> cs"
  shows "find_end_marker env (drop s r) 0 (cs - s) bt 0 = find_end_marker env r s cs bt 0"
  using assms by (cases bt) (auto simp: cursor_types_def slice_def)

lemma marker_round_done:
  assumes ok: "scanner_ok env" and m: "is_marker env (drop pos t) (s, cs, bt)" and pos: "pos \<le> length t"
    and none: "find_end_marker env (drop pos t) s cs bt 0 = None"
    and br: "sp_break_scan st \<le> length t"
      "\<And>i. pos \<le> i \<Longrightarrow> Suc i < sp_break_scan st \<Longrightarrow> \<not> break_at t i"
  shows "cursors_ok env (st\<lparr>sp_processed := pos + s,
      sp_pending := (if cs < length (drop pos t)
        then Some \<lparr>pb_type = bt, pb_start = pos + s, pb_marker_len = cs - s,
          pb_end_scan = length (drop pos t) - s\<rparr> else None),
      sp_marker_scan := pos + s\<rparr>) t"
proof -
  have s: "s \<le> length t - pos" "s \<le> cs" using m by (auto simp: is_marker_def)
  have "be_start env bt (drop (pos + s) t) 0 = Some (cs - s)"
    using is_marker_slice[OF ok m] by (simp add: add.commute)
  moreover have "bt \<in> cursor_types \<Longrightarrow> find_end_marker env (drop (pos + s) t) 0 (cs - s) bt 0 = None"
    using find_end_shift[of bt s cs env "drop pos t"] none s by (simp add: add.commute)
  ultimately show ?thesis
    using s pos br by (auto simp: cursors_ok_def marker_cursor_ok_def break_cursor_ok_def pending_ok_def)
qed

lemma plain_round_done:
  assumes ok: "scanner_ok env" and pos: "pos \<le> length t"
    and none: "find_earliest_start_marker env (drop pos t) 0 0 = None"
    and split: "split_markdown_paragraphs env (drop pos t) 0 = (blocks, tail)"
  shows "cursors_ok env (st\<lparr>sp_processed := pos + length (drop pos t) - length tail, sp_pending := None,
      sp_marker_scan := length t, sp_break_scan := length t\<rparr>) t"
    "tail = drop (pos + length (drop pos t) - length tail) t"
    "pos \<le> pos + length (drop pos t) - length tail"
proof -
  obtain k where k: "k \<le> length t - pos" "tail = drop (pos + k) t"
    "k = 0 \<or> drop pos t ! (k - 1) = newline" "\<And>i. k \<le> i \<Longrightarrow> \<not> break_at (drop pos t) i"
    using split_paragraphs_tail[OF split] by (metis add.commute drop_drop length_drop)
  have p: "pos + length (drop pos t) - length tail = pos + k" using k pos by simp
  have match: "be_start env bt (drop pos t) s = None" if "s \<le> length t - pos" for bt s
    using none that by (simp add: find_earliest_None)
  have "be_start env bt (drop (pos + k) t) s = None" if "pos + k + s < length t" for bt s
  proof (cases "k = 0")
    case False
    have "line_anchored (be_start env bt)" using ok unfolding scanner_ok_def by blast
    then have "be_start env bt (drop k (drop pos t)) s = be_start env bt (drop pos t) (k + s)"
      using k(1,3) False unfolding line_anchored_def by (metis bot_nat_0.not_eq_extremum length_drop)
    then show ?thesis using match[of "k + s"] that by (simp add: add.commute)
  qed (use match that in simp)
  moreover have "\<not> break_at t i" if "pos + k \<le> i" for i
    using k(4)[of "i - pos"] that by (simp add: break_at_drop)
  ultimately show "cursors_ok env (st\<lparr>sp_processed := pos + length (drop pos t) - length tail,
      sp_pending := None, sp_marker_scan := length t, sp_break_scan := length t\<rparr>) t"
    using k(1) pos unfolding p
    by (auto simp: cursors_ok_def marker_cursor_ok_def break_cursor_ok_def pending_ok_def)
  show "tail = drop (pos + length (drop pos t) - length tail) t"
    by (subst p) (rule k(2))
  show "pos \<le> pos + length (drop pos t) - length tail" by (simp only: p)
qed

definition result_ok :: "block_env \<Rightarrow> nat \<Rightarrow> string \<Rightarrow> parse_result \<Rightarrow> bool" where
  "result_ok env pos t r =
     (case r of (blocks, tail, bt, st) \<Rightarrow>
        cursors_ok env st t \<and> tail = drop (sp_processed st) t \<and> pos \<le> sp_processed st)"

lemma round_result:
  assumes ok: "scanner_ok env" and pos: "pos < length t" and all: "round_finds_all env base t st pending pos"
    and br: "sp_break_scan st \<le> length t"
      "\<And>i. pos \<le> i \<Longrightarrow> Suc i < sp_break_scan st \<Longrightarrow> \<not> break_at t i"
  shows "case parse_round env base t st pending pos blocks of
      RDone r \<Rightarrow> result_ok env pos t r | RNext pos' blocks' \<Rightarrow> pos < pos'"
proof (cases "find_earliest_start_marker env (drop pos t) 0 0")
  case None
  let ?from = "if pos = base then floor_boundary (drop pos t) (sp_break_scan st - pos - 1) else 0"
  obtain md tail where split: "split_markdown_paragraphs env (drop pos t) 0 = (md, tail)" by fastforce
  have "split_markdown_paragraphs env (drop pos t) ?from = (md, tail)"
    using all split by (auto simp: round_finds_all_def)
  then have "parse_round env base t st pending pos blocks = RDone (blocks @ md, tail, None,
      st\<lparr>sp_processed := pos + length (drop pos t) - length tail, sp_pending := None,
        sp_marker_scan := length t, sp_break_scan := length t\<rparr>)"
    using all None by (simp add: round_finds_all_def parse_round_def plain_round_def)
  then show ?thesis
    using plain_round_done(1)[OF ok _ None split, of st] plain_round_done(2,3)[OF ok _ None split] pos by (simp add: result_ok_def)
next
  case (Some m)
  obtain s cs bt where m: "m = (s, cs, bt)" by (cases m)
  have im: "is_marker env (drop pos t) (s, cs, bt)" using find_earliest_Some[OF Some] m by simp
  have ends: "find_end_marker env (drop pos t) s cs bt (end_scan_from pending (drop pos t) pos cs) =
      find_end_marker env (drop pos t) s cs bt 0"
    using all Some m by (simp add: round_finds_all_def)
  show ?thesis
  proof (cases "find_end_marker env (drop pos t) s cs bt 0")
    case None
    then show ?thesis
      using all Some m ends marker_round_done[OF ok im _ None br] pos
      by (simp add: round_finds_all_def parse_round_def marker_round_def result_ok_def Let_def add.commute)
  next
    case (Some e)
    then show ?thesis
      using all \<open>find_earliest_start_marker env (drop pos t) 0 0 = Some m\<close> m ends marker_nonempty[OF ok im]
      by (cases e) (simp add: round_finds_all_def parse_round_def marker_round_def Let_def)
  qed
qed

section \<open>Whole frames\<close>

lemma loop_end:
  "cursors_ok env (st\<lparr>sp_processed := length t, sp_pending := None,
     sp_marker_scan := length t, sp_break_scan := length t\<rparr>) t"
  by (simp add: cursors_ok_def marker_cursor_ok_def break_cursor_ok_def pending_ok_def)

definition loop_agrees :: "block_env \<Rightarrow> string \<Rightarrow> nat \<Rightarrow> parse_result option \<Rightarrow> plain_result option \<Rightarrow> bool" where
  "loop_agrees env t pos r f \<longleftrightarrow> (\<exists>x. r = Some x \<and> f = Some (view x) \<and> result_ok env pos t x)"

lemma result_ok_mono: "result_ok env pos' t r \<Longrightarrow> pos \<le> pos' \<Longrightarrow> result_ok env pos t r"
  by (auto simp: result_ok_def)

lemma loop_step:
  assumes ok: "scanner_ok env" and all: "pos < length t \<Longrightarrow> round_finds_all env base t st pending pos"
    and pos: "pos \<le> length t" and br: "sp_break_scan st \<le> length t"
      "\<And>i. pos \<le> i \<Longrightarrow> Suc i < sp_break_scan st \<Longrightarrow> \<not> break_at t i"
    and next_round: "\<And>pos' blocks'. pos < pos' \<Longrightarrow>
      loop_agrees env t (min pos' (length t)) (parse_loop env base t st None pos' blocks')
        (full_loop env t pos' blocks')"
  shows "loop_agrees env t pos (parse_loop env base t st pending pos blocks) (full_loop env t pos blocks)"
proof (cases "pos < length t")
  case False
  then have "pos = length t" using pos by simp
  then show ?thesis
    using loop_end
    by (simp add: parse_loop.simps[of env base t st pending "length t"] full_loop.simps[of env t "length t"]
        loop_agrees_def result_ok_def)
next
  case True
  note res = round_result[OF ok True all[OF True] br, of blocks]
  note view = round_agrees[OF all[OF True], of blocks]
  show ?thesis
  proof (cases "parse_round env base t st pending pos blocks")
    case (RDone r)
    then have "full_round env t pos blocks = FDone (view r)" using view by simp
    then show ?thesis
      using RDone res True
      by (simp add: parse_loop.simps[of env base t st pending pos] full_loop.simps[of env t pos] loop_agrees_def)
  next
    case (RNext pos' blocks')
    then have "full_round env t pos blocks = FNext pos' blocks'" using view by simp
    moreover have "pos < pos'" using res RNext by simp
    ultimately show ?thesis
      using RNext True next_round[of pos' blocks'] result_ok_mono[of env "min pos' (length t)" t _ pos]
      by (auto simp: parse_loop.simps[of env base t st pending pos] full_loop.simps[of env t pos] loop_agrees_def)
  qed
qed

lemma loop_agrees_later:
  assumes ok: "scanner_ok env" and br: "sp_break_scan st \<le> length t"
    "\<And>i. base \<le> i \<Longrightarrow> Suc i < sp_break_scan st \<Longrightarrow> \<not> break_at t i"
  shows "base < pos \<Longrightarrow> loop_agrees env t (min pos (length t)) (parse_loop env base t st None pos blocks) (full_loop env t pos blocks)"
proof (induction "length t - pos" arbitrary: pos blocks rule: less_induct)
  case less
  show ?case
  proof (cases "pos < length t")
    case True
    have "loop_agrees env t pos (parse_loop env base t st None pos blocks) (full_loop env t pos blocks)"
      by (rule loop_step[OF ok later_round_finds_all[OF less.prems] _ br(1)]) (use True less br in auto)
    then show ?thesis using True by simp
  next
    case False
    then show ?thesis
      using loop_end
      by (simp add: parse_loop.simps[of env base t st None pos] full_loop.simps[of env t pos]
          loop_agrees_def result_ok_def)
  qed
qed

lemma frame_agrees:
  assumes ok: "scanner_ok env" and c: "cursors_ok env st t"
  shows "loop_agrees env (t @ x) (sp_processed st) (process env st (t @ x))
    (full_process env (sp_processed st) (t @ x))"
proof -
  let ?t = "t @ x" and ?base = "sp_processed st"
  have le: "?base \<le> length t" "sp_marker_scan st \<le> length t" "sp_break_scan st \<le> length t"
    using c by (auto simp: cursors_ok_def marker_cursor_ok_def break_cursor_ok_def)
  define st' where "st' = st\<lparr>sp_marker_scan := max ?base (sp_marker_scan st),
    sp_break_scan := max ?base (sp_break_scan st), sp_pending := None\<rparr>"
  have start: "process env st ?t = parse_loop env ?base ?t st' (sp_pending st) ?base []"
  proof -
    have "clamp ?base (length ?t) a = max ?base a" if "a \<le> length t" for a
      using that le(1) by (simp add: clamp_def)
    moreover have "min ?base (length ?t) = ?base" using le(1) by simp
    ultimately show ?thesis unfolding process_def Let_def st'_def using le(2,3) by simp
  qed
  have full: "full_process env ?base ?t = full_loop env ?t ?base []"
    using le by (simp add: full_process_def min_def)
  have br: "sp_break_scan st' \<le> length ?t" "\<And>i. ?base \<le> i \<Longrightarrow> Suc i < sp_break_scan st' \<Longrightarrow> \<not> break_at ?t i"
    using le c by (auto simp: st'_def cursors_ok_def break_cursor_ok_def break_at_iff nth_append)
  have "round_finds_all env ?base ?t st' (sp_pending st) ?base"
    by (rule first_round_finds_all[OF ok c]) (simp_all add: st'_def)
  then have "loop_agrees env ?t ?base (parse_loop env ?base ?t st' (sp_pending st) ?base [])
      (full_loop env ?t ?base [])"
    using le(1) loop_agrees_later[OF ok br] by (intro loop_step[OF ok _ _ br]) simp_all
  then show ?thesis by (simp only: start full)
qed

text \<open>A stream: every chunk is appended and the whole text is parsed on from the last state.\<close>

fun stream_frames :: "block_env \<Rightarrow> stream_parser \<Rightarrow> string \<Rightarrow> string list \<Rightarrow> plain_result list option" where
  "stream_frames env st t [] = Some []"
| "stream_frames env st t (chunk # chunks) =
     (case process env st (t @ chunk) of
        None \<Rightarrow> None
      | Some r \<Rightarrow> map_option ((#) (view r)) (stream_frames env (snd (snd (snd r))) (t @ chunk) chunks))"

fun full_frames :: "block_env \<Rightarrow> nat \<Rightarrow> string \<Rightarrow> string list \<Rightarrow> plain_result list option" where
  "full_frames env processed t [] = Some []"
| "full_frames env processed t (chunk # chunks) =
     (case full_process env processed (t @ chunk) of
        None \<Rightarrow> None
      | Some r \<Rightarrow> map_option ((#) r) (full_frames env (snd (snd (snd r))) (t @ chunk) chunks))"

lemma frames_agree:
  assumes "scanner_ok env"
  shows "cursors_ok env st t \<Longrightarrow>
    \<exists>fs. stream_frames env st t chunks = Some fs \<and> full_frames env (sp_processed st) t chunks = Some fs"
proof (induction chunks arbitrary: st t)
  case (Cons chunk chunks)
  from frame_agrees[OF assms Cons.prems, of chunk] obtain blocks tail bt st' where
    "process env st (t @ chunk) = Some (blocks, tail, bt, st')"
    "full_process env (sp_processed st) (t @ chunk) = Some (blocks, tail, bt, sp_processed st')"
    "cursors_ok env st' (t @ chunk)"
    by (auto simp: loop_agrees_def result_ok_def)
  then show ?case using Cons.IH[of st' "t @ chunk"] by auto
qed simp

section \<open>Literal markers\<close>

definition literal :: "string \<Rightarrow> matcher" where
  "literal p t s = (if prefix p (drop s t) then Some (length p) else None)"

definition line_literal :: "string \<Rightarrow> matcher" where
  "line_literal p t s =
     (if s \<le> length t \<and> (s = 0 \<or> t ! (s - 1) = newline) then literal p t s else None)"

definition no_marker :: matcher where
  "no_marker t s = None"

lemma prefix_take: "prefix p z \<longleftrightarrow> take (length p) z = p"
  by (metis append_eq_conv_conj prefix_def take_is_prefix)

lemma prefix_append_short: "length p \<le> length a \<Longrightarrow> prefix p (a @ x) \<longleftrightarrow> prefix p a"
  by (simp add: prefix_take)

lemma literal_settled: "length p \<le> Suc k \<Longrightarrow> settled_bytes k (literal p)"
  by (auto simp: settled_bytes_def literal_def prefix_append_short split: if_splits)

lemma line_literal_settled:
  assumes "newline \<notin> set p"
  shows "settled_lines k (line_literal p)"
  unfolding settled_lines_def
proof (intro allI impI)
  fix u x s
  assume s: "s < line_start u (length u - k)" and none: "line_literal p u s = None"
  let ?l = "line_start u (length u - k)"
  have l: "?l \<le> length u - k" "u ! (?l - 1) = newline"
    using s line_start_le line_start_newline[of "length u - k" u] by auto
  show "line_literal p (u @ x) s = None"
  proof (rule ccontr)
    assume "line_literal p (u @ x) s \<noteq> None"
    then have pre: "prefix p (drop s (u @ x))" and at: "s = 0 \<or> u ! (s - 1) = newline"
      using s l(1) by (auto simp: line_literal_def literal_def nth_append split: if_splits)
    have "\<not> length p \<le> length (drop s u)"
    proof
      assume "length p \<le> length (drop s u)"
      then have "prefix p (drop s u)" using pre s l(1) prefix_append_short[of p "drop s u" x] by simp
      then show False using none at s l(1) by (auto simp: line_literal_def literal_def split: if_splits)
    qed
    then have "length u < s + length p" by auto
    then have i: "?l - 1 - s < length p" using s l(1) by simp
    have "p ! (?l - 1 - s) = drop s (u @ x) ! (?l - 1 - s)"
      using pre i by (metis nth_append prefixE)
    also have "\<dots> = (u @ x) ! (?l - 1)"
      using s l(1) by (subst nth_drop) auto
    also have "\<dots> = newline"
      using s l less_le_trans[of "?l - 1" ?l "length u"] by (simp add: nth_append)
    finally show False using i assms nth_mem by metis
  qed
qed

lemma line_literal_drop:
  assumes "0 < k" "k \<le> length t" "t ! (k - 1) = newline"
  shows "line_literal p (drop k t) s = line_literal p t (k + s)"
  using assms by (cases s) (auto simp: line_literal_def literal_def add.commute)

lemma line_literal_anchored: "line_anchored (line_literal p)"
  unfolding line_anchored_def
  by (auto simp: line_literal_drop) (auto simp: line_literal_def split: if_splits)

lemma line_literal_stable: "stable_match (line_literal p)"
  by (auto simp: stable_match_def line_literal_def literal_def prefix_append split: if_splits)

lemma no_marker_laws: "settled_lines k no_marker" "line_anchored no_marker" "stable_match no_marker"
  "settled_bytes k no_marker"
  by (simp_all add: settled_lines_def line_anchored_def stable_match_def settled_bytes_def no_marker_def)

text \<open>An environment with two literal start markers and no Markdown.\<close>

fun demo_start :: "block_type \<Rightarrow> matcher" where
  "demo_start BThink = line_literal ''<think>''"
| "demo_start BTool = line_literal ''<<<[TOOL_REQUEST]>>>''"
| "demo_start _ = no_marker"

fun demo_end :: "block_type \<Rightarrow> matcher" where
  "demo_end BThink = literal ''</think>''"
| "demo_end BTool = line_literal ''<<<[END_TOOL_REQUEST]>>>''"
| "demo_end _ = no_marker"

definition demo_env :: block_env where
  "demo_env = \<lparr>be_start = demo_start, be_end = demo_end, be_field_start = no_marker, be_field_end = no_marker,
     be_tool_xml = (\<lambda>_. None), be_kv = (\<lambda>_. None), be_container_tag = (\<lambda>_. None),
     be_close_tag = (\<lambda>_ _ _. None), be_thought = (\<lambda>_. None),
     be_think = (\<lambda>t. map_option (\<lambda>n. (0, n)) (line_literal ''<think>'' t 0)), be_role = (\<lambda>_. None),
     be_buttons = (\<lambda>_. []), be_md = (\<lambda>_. []), be_md_streaming = (\<lambda>_. []), be_deindent = (\<lambda>s. s),
     be_fenced = (\<lambda>_. None), be_code_node = (\<lambda>l c. MRaw c None), be_fx = (\<lambda>_. 0),
     be_hash = (\<lambda>s. s), be_html = (\<lambda>_. None)\<rparr>"

lemma demo_start_laws:
  "line_anchored (demo_start bt)" "stable_match (demo_start bt)" "settled_lines k (demo_start bt)"
  by (cases bt; simp add: no_marker_laws line_literal_anchored line_literal_stable line_literal_settled newline_def)+

lemma demo_start_nonempty: "demo_start bt t s = Some n \<Longrightarrow> 0 < n"
  by (cases bt) (auto simp: line_literal_def literal_def no_marker_def split: if_splits)

lemma demo_start_exclusive:
  "demo_start bt u 0 \<noteq> None \<Longrightarrow> demo_start bt' (u @ x) 0 \<noteq> None \<Longrightarrow> bt = bt'"
  by (cases bt; cases bt') (auto simp: line_literal_def literal_def no_marker_def prefix_def split: if_splits)

lemma demo_env_ok: "scanner_ok demo_env"
  unfolding scanner_ok_def
  by (simp add: demo_env_def demo_start_laws demo_start_nonempty no_marker_laws literal_settled
      THINK_END_LOOKBEHIND_def) (use demo_start_exclusive in blast)

text \<open>\<open>THINK_START\<close> and \<open>THINK_END\<close> as they are, with ASCII case folding.\<close>

definition think_start :: matcher where
  "think_start t s =
     (if s \<le> length t \<and> (s = 0 \<or> t ! (s - 1) = newline)
      then let n = length (takeWhile is_blank_byte (drop s t));
               l = to_ascii_lower (drop (s + n) t)
           in if prefix ''<think>'' l then Some (n + 7)
              else if prefix ''<thinking>'' l then Some (n + 10) else None
      else None)"

definition think_end :: matcher where
  "think_end t s =
     (let l = to_ascii_lower (drop s t)
      in if prefix ''</think>'' l then Some 8 else if prefix ''</thinking>'' l then Some 11 else None)"

definition think_env :: block_env where
  "think_env = demo_env\<lparr>be_start := (\<lambda>bt. if bt = BThink then think_start else no_marker),
     be_end := (\<lambda>bt. if bt = BThink then think_end else no_marker)\<rparr>"

declare parse_loop.simps [code] full_loop.simps [code]

section \<open>Termination\<close>

definition markers_nonempty :: "block_env \<Rightarrow> bool" where
  "markers_nonempty env \<longleftrightarrow> (\<forall>bt t s. be_start env bt t s \<noteq> Some 0)"

lemma fold_keep_earliest:
  "fold (\<lambda>bt m. keep_earliest m (f bt) bt) bts m = Some (s, e, b) \<Longrightarrow>
     (\<And>bt s e. f bt = Some (s, e) \<Longrightarrow> s < e) \<Longrightarrow> (\<And>s e b. m = Some (s, e, b) \<Longrightarrow> s < e) \<Longrightarrow> s < e"
proof (induction bts arbitrary: m)
  case (Cons bt bts)
  have "s' < e'" if "keep_earliest m (f bt) bt = Some (s', e', b')" for s' e' b'
    using that Cons.prems(2)[of bt] Cons.prems(3) by (cases "f bt"; cases m) (auto split: if_splits)
  then show ?case using Cons.prems(1,2) by (auto intro: Cons.IH)
qed simp

lemma find_earliest_nonempty:
  assumes "markers_nonempty env" "find_earliest_start_marker env t b m = Some (s, e, bt)"
  shows "s < e"
proof -
  have ne: "s < e" if "find_at (be_start env bt) t w = Some (s, e)" for bt w s e
    using find_at_SomeD[OF that] assms(1) by (cases "s = e") (auto simp: markers_nonempty_def)
  show ?thesis
    using assms(2) unfolding find_earliest_start_marker_def Let_def
    by (rule fold_keep_earliest) (auto dest: ne fold_keep_earliest[where m = None])
qed

lemma loop_terminates:
  assumes "markers_nonempty env"
  shows "parse_loop env base t st None pos blocks \<noteq> None"
proof (induction "length t - pos" arbitrary: pos blocks rule: less_induct)
  case less
  show ?case
  proof (cases "pos < length t")
    case True
    show ?thesis
    proof (cases "parse_round env base t st None pos blocks")
      case (RNext pos' blocks')
      obtain m where m: "start_marker env st (pos = base) None (drop pos t) pos = Some m"
        using RNext by (cases "start_marker env st (pos = base) None (drop pos t) pos")
          (auto simp: parse_round_def plain_round_def Let_def split: prod.splits)
      obtain s cs bt where m': "m = (s, cs, bt)" by (cases m)
      have "s < cs"
        using m m' find_earliest_nonempty[OF assms] by (auto simp: start_marker_def split: prod.splits)
      then have "pos < pos'"
        using RNext m m' by (auto simp: parse_round_def marker_round_def Let_def split: option.splits)
      then show ?thesis
        using less[of pos' blocks'] True RNext by (simp add: parse_loop.simps[of env base t st None pos])
    qed (use True in \<open>simp add: parse_loop.simps[of env base t st None pos]\<close>)
  qed (simp add: parse_loop.simps[of env base t st None pos])
qed

lemma loop_terminates_pending:
  "markers_nonempty env \<Longrightarrow> parse_loop env base t st pending pos blocks \<noteq> None"
  using loop_terminates[of env base t st]
  by (simp add: parse_loop.simps[of env base t st pending pos] split: round_result.split)

section \<open>Properties\<close>




text \<open>C40. Every call of the parser ends, in whatever state and on whatever text, if no start marker
  matches the empty string: every round returns or moves past a marker.\<close>
theorem process_terminates:
  assumes "\<forall>bt t s. be_start env bt t s \<noteq> Some 0"
  shows "process env st full_text \<noteq> None"
  using loop_terminates_pending[of env] assms by (simp add: process_def markers_nonempty_def Let_def)

theorem process_terminates_witness:
  "process think_env (new_parser\<lparr>sp_processed := 7\<rparr>) ''ab<think>c</think>d'' \<noteq> None"
  by (rule process_terminates) (auto simp: think_env_def demo_env_def think_start_def no_marker_def Let_def)

text \<open>A closing tag that the stream cuts before its last byte is missed: the look-behind window of
  \<open></thinking>\<close> is one byte short, so the parser with cursors keeps the thought open where the
  parser without them closes it.\<close>
theorem split_think_close_is_missed:
  "stream_frames think_env new_parser [] [''<thinking>a</thinking'', ''>b''] =
     Some [([], ''<thinking>a</thinking'', Some BThink, 0), ([], ''<thinking>a</thinking>b'', Some BThink, 0)] \<and>
   full_frames think_env 0 [] [''<thinking>a</thinking'', ''>b''] =
     Some [([], ''<thinking>a</thinking'', Some BThink, 0),
       ([SbThought zh_think_chain ''a'' True (Some []) ''a''], ''b'', None, 22)]"
  by code_simp

end
