(* ===== verification/Aurora.thy ===== *)
theory Aurora
  imports Stream_Blocks
begin

text \<open>
  The buffer of a streamed message (\<open>chat/aurora_pipeline.rs\<close>) and its delivery to the consumer
  (\<open>RequestOutput::send_aurora\<close> of \<open>infra/vcp_client.rs\<close>). \<open>process_queue\<close> runs the block parser
  and renders the tail speculatively; \<open>prepare_delta_update\<close> and \<open>prepare_snapshot_update\<close> describe
  what the consumer has not seen, and \<open>commit_delivery\<close> records that it has. SHA-256, the HTML
  parser and the highlighter with its streaming difference are the fields of \<open>aurora_env\<close>.
\<close>

section \<open>The data\<close>

record 'h aurora_env =
  ae_blocks :: block_env
  ae_sha :: "string \<Rightarrow> string"
  ae_diff :: "md_node list \<Rightarrow> md_node list \<Rightarrow> 'h \<Rightarrow> ast_mutation list \<times> 'h"
  ae_prime :: "md_node list \<Rightarrow> 'h \<Rightarrow> 'h"
  ae_clear :: 'h
  ae_snapshot :: "md_node list \<Rightarrow> md_node list"
  ae_fragment :: "string \<Rightarrow> (string \<times> string list) option"

definition MAX_SPECULATIVE_TAIL_AST_BYTES :: nat where
  "MAX_SPECULATIVE_TAIL_AST_BYTES = 65536"

datatype render_mode = ModeAst | ModePlain

datatype tail_type = TailMarkdown | TailHtmlPreview | TailThought

text \<open>\<open>state\<close> is the bytes the hasher has been given.\<close>

record fingerprint =
  fp_state :: string
  fp_len :: nat
  fp_source_start :: nat

record tail_projection =
  tp_fingerprint :: fingerprint
  tp_mode :: render_mode
  tp_type :: tail_type
  tp_theme :: "string option"

record tail_frame =
  tf_stream_id :: u64
  tf_epoch :: u64
  tf_revision :: u64
  tf_seq :: u64
  tf_reset :: bool
  tf_snapshot :: "md_node list option"
  tf_mutations :: "ast_mutation list"

datatype tail_op =
    OpAppend "string option" string string render_mode tail_type "string option"
  | OpReplace string string render_mode tail_type "string option"
  | OpClear

datatype update_kind = KindDelta | KindSnapshot

record aurora_update =
  up_kind :: update_kind
  up_stream_id :: "u64 option"
  up_stable_blocks :: "stream_block list option"
  up_stable_append :: "(nat \<times> stream_block list) option"
  up_tail_block :: "stream_block option"
  up_tail_mode :: "render_mode option"
  up_tail_op :: "tail_op option"
  up_tail_frame :: "tail_frame option"
  up_content :: "string option"
  up_chunk :: "string option"

record delivery_commit =
  dc_len :: nat
  dc_stable_count :: nat
  dc_tail_len :: nat
  dc_tail_epoch :: u64
  dc_tail_hash :: "string option"
  dc_tail_mode :: "render_mode option"
  dc_tail_type :: "tail_type option"
  dc_tail_source_start :: "nat option"
  dc_consumes_tail_frame :: bool

record 'h aurora_buffer =
  ab_stream_id :: u64
  ab_full :: string
  ab_stable :: "stream_block list"
  ab_tail :: string
  ab_projection :: "tail_projection option"
  ab_prev_ast :: "md_node list"
  ab_pending :: "ast_mutation list"
  ab_highlighter :: 'h
  ab_epoch :: u64
  ab_revision :: u64
  ab_reset :: bool
  ab_seq :: u64
  ab_pushed :: delivery_commit
  ab_html_frozen :: "nat option"
  ab_parser :: stream_parser
  ab_finishing :: bool

text \<open>The fields \<open>pushed_*\<close> are kept as the last commit.\<close>

definition no_commit :: delivery_commit where
  "no_commit = \<lparr>dc_len = 0, dc_stable_count = 0, dc_tail_len = 0, dc_tail_epoch = 0, dc_tail_hash = None,
     dc_tail_mode = None, dc_tail_type = None, dc_tail_source_start = None, dc_consumes_tail_frame = False\<rparr>"

definition with_stream_id :: "'h aurora_env \<Rightarrow> u64 \<Rightarrow> 'h aurora_buffer" where
  "with_stream_id env sid = \<lparr>ab_stream_id = sid, ab_full = [], ab_stable = [], ab_tail = [],
     ab_projection = None, ab_prev_ast = [], ab_pending = [], ab_highlighter = ae_clear env, ab_epoch = 0,
     ab_revision = 0, ab_reset = False, ab_seq = 0, ab_pushed = no_commit, ab_html_frozen = None,
     ab_parser = new_parser, ab_finishing = False\<rparr>"

definition append_chunk :: "string \<Rightarrow> 'h aurora_buffer \<Rightarrow> 'h aurora_buffer" where
  "append_chunk chunk b = b\<lparr>ab_full := ab_full b @ chunk\<rparr>"

section \<open>Fingerprints and tails\<close>

definition fp_from_content :: "string \<Rightarrow> nat \<Rightarrow> fingerprint" where
  "fp_from_content content start = \<lparr>fp_state = content, fp_len = length content, fp_source_start = start\<rparr>"

definition fp_with_suffix :: "fingerprint \<Rightarrow> string \<Rightarrow> fingerprint" where
  "fp_with_suffix fp sfx = fp\<lparr>fp_state := fp_state fp @ sfx, fp_len := fp_len fp + length sfx\<rparr>"

definition wire_hash :: "'h aurora_env \<Rightarrow> fingerprint \<Rightarrow> string" where
  "wire_hash env fp = ae_sha env (fp_state fp)"

definition next_tail_fingerprint :: "'h aurora_buffer \<Rightarrow> string \<Rightarrow> nat \<Rightarrow> fingerprint" where
  "next_tail_fingerprint b new_tail source_start =
     (case ab_projection b of
        None \<Rightarrow> fp_from_content new_tail source_start
      | Some p \<Rightarrow>
          let previous = tp_fingerprint p
          in if fp_source_start previous \<noteq> source_start \<or> fp_len previous \<noteq> length (ab_tail b) \<or>
                length new_tail < fp_len previous \<or> \<not> is_char_boundary new_tail (fp_len previous)
             then fp_from_content new_tail source_start
             else fp_with_suffix previous (drop (fp_len previous) new_tail))"

fun classify_tail_block :: "md_node list \<Rightarrow> tail_type" where
  "classify_tail_block [MCode (Some lang) _ _ _ _] =
     (if to_ascii_lower lang = ''html'' then TailHtmlPreview else TailMarkdown)"
| "classify_tail_block _ = TailMarkdown"

text \<open>\<open>replace("\r\n", "\n").replace('\r', "\n")\<close>\<close>

fun unix_newlines :: "string \<Rightarrow> string" where
  "unix_newlines [] = []"
| "unix_newlines [c] = (if c = CHR 0x0D then [newline] else [c])"
| "unix_newlines (c # d # s) =
     (if c = CHR 0x0D
      then (if d = newline then newline # unix_newlines s else newline # unix_newlines (d # s))
      else c # unix_newlines (d # s))"

definition code_fence_tail_nodes :: "block_env \<Rightarrow> string \<Rightarrow> md_node list" where
  "code_fence_tail_nodes env tail =
     (let opener = takeWhile (\<lambda>c. c \<noteq> newline) tail;
          code = drop (Suc (length opener)) tail;
          opener = rev (dropWhile (\<lambda>c. c = CHR 0x0D) (rev opener));
          opener = dropWhile is_blank_byte opener;
          backticks = length (takeWhile (\<lambda>c. c = CHR 0x60) opener)
      in if backticks < 3 then be_md_streaming env tail
         else [MCode (Some (str_trim (drop backticks opener)))
                 (if CHR 0x0D \<in> set code then unix_newlines code else code) None None None])"

record html_patch =
  hp_frozen :: string
  hp_live :: string
  hp_frozen_total :: nat
  hp_seed :: bool

text \<open>\<open>ae_fragment\<close>: the only root element of the fragment and its children, serialised.\<close>

definition html_tail_patch_parts :: "'h aurora_env \<Rightarrow> string \<Rightarrow> nat option \<Rightarrow> html_patch option" where
  "html_tail_patch_parts env tail frozen =
     (case ae_fragment env tail of
        None \<Rightarrow> None
      | Some (outer, children) \<Rightarrow>
          let total_frozen = length children - 1;
              seed = \<lparr>hp_frozen = [], hp_live = outer, hp_frozen_total = total_frozen, hp_seed = True\<rparr>
          in Some (case frozen of
               Some already \<Rightarrow>
                 if already \<le> total_frozen
                 then \<lparr>hp_frozen = concat (drop already (take total_frozen children)),
                   hp_live = (if children = [] then [] else last children),
                   hp_frozen_total = total_frozen, hp_seed = False\<rparr>
                 else seed
             | None \<Rightarrow> seed))"

section \<open>Processing the text\<close>

definition reset_tail :: "'h aurora_buffer \<Rightarrow> 'h aurora_buffer" where
  "reset_tail b = b\<lparr>ab_epoch := u64_saturating_add (ab_epoch b) 1, ab_revision := 0, ab_reset := True, ab_pending := []\<rparr>"

definition bump_revision :: "'h aurora_buffer \<Rightarrow> 'h aurora_buffer" where
  "bump_revision b = b\<lparr>ab_revision := u64_saturating_add (ab_revision b) 1\<rparr>"

definition raw_html_node :: "block_env \<Rightarrow> string \<Rightarrow> md_node" where
  "raw_html_node env tail = compute_md_hashes (be_fx env) (raw_html tail)"

text \<open>A block type other than that of the tail before starts a new epoch.\<close>

definition type_changes :: "tail_type option \<Rightarrow> tail_type \<Rightarrow> 'h aurora_buffer \<Rightarrow> bool" where
  "type_changes previous bt b \<longleftrightarrow> previous \<noteq> None \<and> previous \<noteq> Some bt \<and> \<not> ab_reset b"

definition t0 :: path where
  "t0 = [SRoot 0]"

text \<open>A steady HTML patch is merged into the pending one before it.\<close>

fun push_html_mutation :: "ast_mutation list \<Rightarrow> ast_mutation \<Rightarrow> ast_mutation list" where
  "push_html_mutation pending (MutPatchHtml p frozen live n False) =
     (case rev pending of
        MutPatchHtml p' frozen' live' n' False # before \<Rightarrow>
          rev before @ [MutPatchHtml p' (frozen' @ frozen) live n False]
      | _ \<Rightarrow> pending @ [MutPatchHtml p frozen live n False])"
| "push_html_mutation pending m = pending @ [m]"

definition html_patch_step :: "'h aurora_env \<Rightarrow> 'h aurora_buffer \<Rightarrow> 'h aurora_buffer" where
  "html_patch_step env b =
     (case html_tail_patch_parts env (ab_tail b) (ab_html_frozen b) of
        Some patch \<Rightarrow>
          b\<lparr>ab_html_frozen := Some (hp_frozen_total patch), ab_prev_ast := [],
            ab_pending := push_html_mutation (ab_pending b)
              (MutPatchHtml t0 (hp_frozen patch) (hp_live patch) (hp_frozen_total patch)
                (hp_seed patch \<or> ab_html_frozen b = None))\<rparr>
      | None \<Rightarrow>
          b\<lparr>ab_html_frozen := None, ab_prev_ast := [],
            ab_pending := push_html_mutation (ab_pending b)
              (MutReplace t0 (raw_html_node (ae_blocks env) (ab_tail b)))\<rparr>)"

definition html_tail_step ::
  "'h aurora_env \<Rightarrow> tail_type option \<Rightarrow> bool \<Rightarrow> fingerprint \<Rightarrow> 'h aurora_buffer \<Rightarrow> 'h aurora_buffer" where
  "html_tail_step env previous tail_changed fp b =
     (let b1 = (if type_changes previous TailMarkdown b
            then (reset_tail b)\<lparr>ab_highlighter := ae_clear env, ab_html_frozen := None\<rparr> else b);
          b2 = (if ab_reset b1
            then bump_revision (b1\<lparr>ab_prev_ast := [raw_html_node (ae_blocks env) (ab_tail b1)], ab_html_frozen := None\<rparr>)
            else if tail_changed then bump_revision (html_patch_step env b1) else b1)
      in b2\<lparr>ab_projection := Some \<lparr>tp_fingerprint = fp, tp_mode = ModeAst, tp_type = TailMarkdown, tp_theme = None\<rparr>\<rparr>)"

definition tail_nodes :: "block_env \<Rightarrow> string \<Rightarrow> block_type option \<Rightarrow> string option \<Rightarrow> md_node list option" where
  "tail_nodes env tail raw_type theme =
     (let incremental = (raw_type \<in> Some ` {BCodeFence, BHtmlDoc, BTool, BToolResult, BToolCallSummary})
      in if theme \<noteq> None then None
         else if MAX_SPECULATIVE_TAIL_AST_BYTES < length tail \<and> \<not> incremental then None
         else if raw_type = Some BCodeFence then Some (code_fence_tail_nodes env tail)
         else if raw_type = Some BHtmlDoc then Some [MCode (Some ''html'') tail None None None]
         else if raw_type \<in> Some ` {BTool, BToolResult, BToolCallSummary}
              then Some [MCode (Some ''plaintext'') tail None None None]
         else Some (be_md_streaming env tail))"

definition ast_tail_step ::
  "'h aurora_env \<Rightarrow> tail_type option \<Rightarrow> block_type option \<Rightarrow> string option \<Rightarrow> fingerprint \<Rightarrow> 'h aurora_buffer \<Rightarrow> 'h aurora_buffer" where
  "ast_tail_step env previous raw_type theme fp b =
     (case tail_nodes (ae_blocks env) (ab_tail b) raw_type theme of
        Some new_nodes \<Rightarrow>
          let bt = (case theme of None \<Rightarrow> classify_tail_block new_nodes | Some _ \<Rightarrow> TailThought);
              b1 = (if type_changes previous bt b then (reset_tail b)\<lparr>ab_highlighter := ae_clear env\<rparr> else b);
              b2 = (if ab_reset b1
                then b1\<lparr>ab_highlighter := ae_prime env new_nodes (ab_highlighter b1)\<rparr>
                else (case ae_diff env (ab_prev_ast b1) new_nodes (ab_highlighter b1) of
                  (ms, h) \<Rightarrow> b1\<lparr>ab_pending := ab_pending b1 @ ms, ab_highlighter := h\<rparr>))
          in (bump_revision b2)\<lparr>ab_prev_ast := new_nodes,
               ab_projection := Some \<lparr>tp_fingerprint = fp, tp_mode = ModeAst, tp_type = bt, tp_theme = theme\<rparr>\<rparr>
      | None \<Rightarrow>
          let was_ast = (ab_prev_ast b \<noteq> []);
              b1 = b\<lparr>ab_prev_ast := [], ab_pending := [], ab_highlighter := ae_clear env\<rparr>;
              b2 = (if was_ast \<and> \<not> ab_reset b1
                then b1\<lparr>ab_epoch := u64_saturating_add (ab_epoch b1) 1, ab_revision := 0, ab_reset := True\<rparr> else b1)
          in b2\<lparr>ab_projection := Some \<lparr>tp_fingerprint = fp, tp_mode = ModePlain,
               tp_type = (case theme of None \<Rightarrow> TailMarkdown | Some _ \<Rightarrow> TailThought), tp_theme = theme\<rparr>\<rparr>)"

definition empty_tail_step :: "'h aurora_env \<Rightarrow> 'h aurora_buffer \<Rightarrow> 'h aurora_buffer" where
  "empty_tail_step env b =
     (let b1 = b\<lparr>ab_projection := None\<rparr>;
          b2 = (if ab_prev_ast b1 \<noteq> [] \<or> ab_tail b1 \<noteq> [] then reset_tail b1 else b1)
      in b2\<lparr>ab_prev_ast := [], ab_highlighter := ae_clear env, ab_html_frozen := None\<rparr>)"

text \<open>The tail shown, its offset in the text and the theme of an open thought.\<close>

definition shown_tail :: "block_env \<Rightarrow> string \<Rightarrow> nat \<Rightarrow> block_type option \<Rightarrow> string \<times> nat \<times> string option" where
  "shown_tail env raw_tail raw_start raw_type =
     (case speculative_thought_tail env raw_tail raw_type of
        Some (content, offset, theme) \<Rightarrow> (content, raw_start + offset, Some theme)
      | None \<Rightarrow> (raw_tail, raw_start, None))"

definition tail_is_new :: "'h aurora_buffer \<Rightarrow> string \<Rightarrow> nat \<Rightarrow> string option \<Rightarrow> bool" where
  "tail_is_new b new_tail new_start theme \<longleftrightarrow>
     (case ab_projection b of
        Some p \<Rightarrow> fp_source_start (tp_fingerprint p) \<noteq> new_start \<or> fp_len (tp_fingerprint p) \<noteq> length new_tail
      | None \<Rightarrow> new_tail \<noteq> []) \<or>
     (map_option tp_type (ab_projection b) = Some TailThought) \<noteq> (theme \<noteq> None) \<or>
     Option.bind (ab_projection b) tp_theme \<noteq> theme"

definition absorb_blocks :: "'h aurora_env \<Rightarrow> stream_block list \<Rightarrow> 'h aurora_buffer \<Rightarrow> 'h aurora_buffer" where
  "absorb_blocks env new_blocks b =
     (if new_blocks \<noteq> []
      then (reset_tail (b\<lparr>ab_stable := ab_stable b @ new_blocks\<rparr>))
        \<lparr>ab_prev_ast := [], ab_highlighter := ae_clear env, ab_html_frozen := None\<rparr>
      else b)"

definition process_queue :: "'h aurora_env \<Rightarrow> 'h aurora_buffer \<Rightarrow> ('h aurora_buffer \<times> bool \<times> bool) option" where
  "process_queue env b =
     (if ab_finishing b then Some (b, False, False)
      else case process (ae_blocks env) (ab_parser b) (ab_full b) of
        None \<Rightarrow> None
      | Some (new_blocks, raw_tail, raw_type, parser') \<Rightarrow>
          (case shown_tail (ae_blocks env) raw_tail (sp_processed parser') raw_type of
             (new_tail, new_start, theme) \<Rightarrow>
               let previous = map_option tp_type (ab_projection b);
                   tail_changed = tail_is_new b new_tail new_start theme;
                   fp = next_tail_fingerprint b new_tail new_start;
                   b1 = (absorb_blocks env new_blocks (b\<lparr>ab_parser := parser'\<rparr>))\<lparr>ab_tail := new_tail\<rparr>;
                   b2 = (if new_tail \<noteq> [] \<or> theme \<noteq> None
                     then (if raw_type = Some BHtmlContainer \<and> theme = None
                       then html_tail_step env previous tail_changed fp b1
                       else ast_tail_step env previous raw_type theme fp b1)
                     else empty_tail_step env b1)
               in Some (b2, length (ab_stable b2) \<noteq> length (ab_stable b), tail_changed)))"

definition finalize_aurora :: "'h aurora_env \<Rightarrow> 'h aurora_buffer \<Rightarrow> 'h aurora_buffer option" where
  "finalize_aurora env b =
     (if ab_finishing b then Some b
      else case finalize_blocks (ae_blocks env) (ab_parser b) (ab_full b) of
        None \<Rightarrow> None
      | Some (blocks, parser') \<Rightarrow>
          Some ((reset_tail (b\<lparr>ab_finishing := True, ab_stable := ab_stable b @ blocks, ab_tail := [],
            ab_projection := None, ab_prev_ast := [], ab_highlighter := ae_clear env, ab_parser := parser'\<rparr>))))"

section \<open>Delivery\<close>

definition current_hash :: "'h aurora_env \<Rightarrow> 'h aurora_buffer \<Rightarrow> string option" where
  "current_hash env b = map_option (\<lambda>p. wire_hash env (tp_fingerprint p)) (ab_projection b)"

definition current_mode :: "'h aurora_buffer \<Rightarrow> render_mode option" where
  "current_mode b = map_option tp_mode (ab_projection b)"

definition current_type :: "'h aurora_buffer \<Rightarrow> tail_type option" where
  "current_type b = map_option tp_type (ab_projection b)"

definition current_source_start :: "'h aurora_buffer \<Rightarrow> nat option" where
  "current_source_start b = map_option (\<lambda>p. fp_source_start (tp_fingerprint p)) (ab_projection b)"

definition current_tail_wire_block :: "'h aurora_env \<Rightarrow> 'h aurora_buffer \<Rightarrow> stream_block option" where
  "current_tail_wire_block env b =
     (case ab_projection b of
        None \<Rightarrow> None
      | Some p \<Rightarrow>
          let hash = wire_hash env (tp_fingerprint p)
          in Some (case tp_type p of
               TailMarkdown \<Rightarrow> SbMarkdown (ab_tail b) None hash
             | TailHtmlPreview \<Rightarrow> SbHtmlPreview (ab_tail b) None hash
             | TailThought \<Rightarrow> SbThought (case tp_theme p of Some t \<Rightarrow> t | None \<Rightarrow> zh_think_chain)
                 (ab_tail b) False None hash))"

definition peek_tail_frame :: "'h aurora_env \<Rightarrow> bool \<Rightarrow> 'h aurora_buffer \<Rightarrow> tail_frame option" where
  "peek_tail_frame env force_snapshot b =
     (let reset = (force_snapshot \<or> ab_reset b)
      in if \<not> reset \<and> ab_pending b = [] then None
         else Some \<lparr>tf_stream_id = ab_stream_id b, tf_epoch = ab_epoch b, tf_revision = ab_revision b,
           tf_seq = u64_saturating_add (ab_seq b) 1, tf_reset = reset,
           tf_snapshot = (if reset then Some (ae_snapshot env (ab_prev_ast b)) else None),
           tf_mutations = (if reset then [] else ab_pending b)\<rparr>)"

definition commit_of :: "'h aurora_env \<Rightarrow> bool \<Rightarrow> 'h aurora_buffer \<Rightarrow> delivery_commit" where
  "commit_of env consumes b =
     \<lparr>dc_len = length (ab_full b), dc_stable_count = length (ab_stable b), dc_tail_len = length (ab_tail b),
      dc_tail_epoch = ab_epoch b, dc_tail_hash = current_hash env b, dc_tail_mode = current_mode b,
      dc_tail_type = current_type b, dc_tail_source_start = current_source_start b,
      dc_consumes_tail_frame = consumes\<rparr>"

definition tail_state_changed :: "'h aurora_env \<Rightarrow> 'h aurora_buffer \<Rightarrow> bool" where
  "tail_state_changed env b \<longleftrightarrow>
     (let p = ab_pushed b
      in length (ab_tail b) \<noteq> dc_tail_len p \<or> ab_epoch b \<noteq> dc_tail_epoch p \<or>
         current_hash env b \<noteq> dc_tail_hash p \<or> current_mode b \<noteq> dc_tail_mode p \<or>
         current_type b \<noteq> dc_tail_type p)"

definition can_append :: "'h aurora_buffer \<Rightarrow> bool" where
  "can_append b \<longleftrightarrow>
     (let p = ab_pushed b
      in ab_epoch b = dc_tail_epoch p \<and> dc_tail_len p < length (ab_tail b) \<and>
         current_mode b = dc_tail_mode p \<and> current_type b = dc_tail_type p \<and>
         current_source_start b = dc_tail_source_start p)"

definition delta_tail_op :: "'h aurora_env \<Rightarrow> 'h aurora_buffer \<Rightarrow> tail_op option" where
  "delta_tail_op env b =
     (if \<not> tail_state_changed env b then None
      else case ab_projection b of
        None \<Rightarrow> Some OpClear
      | Some p \<Rightarrow>
          let hash = wire_hash env (tp_fingerprint p)
          in Some (if can_append b \<and> is_char_boundary (ab_tail b) (dc_tail_len (ab_pushed b))
               then OpAppend (dc_tail_hash (ab_pushed b)) (drop (dc_tail_len (ab_pushed b)) (ab_tail b))
                 hash (tp_mode p) (tp_type p) (tp_theme p)
               else OpReplace (ab_tail b) hash (tp_mode p) (tp_type p) (tp_theme p)))"

definition prepare_delta_update ::
  "'h aurora_env \<Rightarrow> 'h aurora_buffer \<Rightarrow> (aurora_update \<times> delivery_commit) option" where
  "prepare_delta_update env b =
     (let p = ab_pushed b;
          chunk = (if dc_len p < length (ab_full b) then Some (drop (dc_len p) (ab_full b)) else None);
          app = (if dc_stable_count p < length (ab_stable b)
            then Some (dc_stable_count p, drop (dc_stable_count p) (ab_stable b)) else None);
          top = delta_tail_op env b;
          frame = peek_tail_frame env False b
      in if chunk = None \<and> app = None \<and> top = None \<and> frame = None then None
         else Some (\<lparr>up_kind = KindDelta, up_stream_id = Some (ab_stream_id b), up_stable_blocks = None, up_stable_append = app,
             up_tail_block = None, up_tail_mode = None, up_tail_op = top, up_tail_frame = frame,
             up_content = None, up_chunk = chunk\<rparr>, commit_of env (frame \<noteq> None) b))"

definition prepare_snapshot_update ::
  "'h aurora_env \<Rightarrow> 'h aurora_buffer \<Rightarrow> aurora_update \<times> delivery_commit" where
  "prepare_snapshot_update env b =
     (\<lparr>up_kind = KindSnapshot, up_stream_id = Some (ab_stream_id b), up_stable_blocks = Some (ab_stable b), up_stable_append = None,
        up_tail_block = current_tail_wire_block env b, up_tail_mode = current_mode b, up_tail_op = None,
        up_tail_frame = peek_tail_frame env True b, up_content = Some (ab_full b), up_chunk = None\<rparr>,
      commit_of env True b)"

definition commit_delivery :: "delivery_commit \<Rightarrow> 'h aurora_buffer \<Rightarrow> 'h aurora_buffer" where
  "commit_delivery c b =
     (let b1 = b\<lparr>ab_pushed := c\<rparr>
      in if dc_consumes_tail_frame c
         then b1\<lparr>ab_reset := False, ab_pending := [], ab_seq := u64_saturating_add (ab_seq b1) 1\<rparr> else b1)"

text \<open>The two takers commit one part only.\<close>

definition take_chunk :: "'h aurora_buffer \<Rightarrow> 'h aurora_buffer \<times> string option" where
  "take_chunk b =
     (if dc_len (ab_pushed b) < length (ab_full b)
      then (b\<lparr>ab_pushed := (ab_pushed b)\<lparr>dc_len := length (ab_full b)\<rparr>\<rparr>,
        Some (drop (dc_len (ab_pushed b)) (ab_full b)))
      else (b, None))"

definition take_tail_frame :: "'h aurora_env \<Rightarrow> 'h aurora_buffer \<Rightarrow> 'h aurora_buffer \<times> tail_frame option" where
  "take_tail_frame env b =
     (case peek_tail_frame env False b of
        None \<Rightarrow> (b, None)
      | Some f \<Rightarrow> (b\<lparr>ab_reset := False, ab_pending := [], ab_seq := tf_seq f\<rparr>, Some f))"

definition discard_pending_delivery :: "'h aurora_buffer \<Rightarrow> 'h aurora_buffer" where
  "discard_pending_delivery b = b\<lparr>ab_pending := [], ab_reset := True\<rparr>"

definition take_recovery_baseline :: "'h aurora_env \<Rightarrow> 'h aurora_buffer \<Rightarrow> 'h aurora_buffer \<times> aurora_update" where
  "take_recovery_baseline env b =
     (case prepare_snapshot_update env b of (up, c) \<Rightarrow> (commit_delivery c b, up))"

record recovery_snapshot =
  rs_stable :: "stream_block list"
  rs_tail_block :: "stream_block option"
  rs_mode :: "render_mode option"
  rs_tail_snapshot :: "md_node list"

definition compile_recovery_snapshot :: "'h aurora_env \<Rightarrow> string \<Rightarrow> recovery_snapshot option" where
  "compile_recovery_snapshot env content =
     (case process_queue env (append_chunk content (with_stream_id env 0)) of
        None \<Rightarrow> None
      | Some (b, _) \<Rightarrow>
          Some \<lparr>rs_stable = ab_stable b, rs_tail_block = current_tail_wire_block env b,
            rs_mode = current_mode b, rs_tail_snapshot = ae_snapshot env (ab_prev_ast b)\<rparr>)"

section \<open>The output of a request\<close>

record request_output =
  ro_channel :: "u32 option"
  ro_snapshot_pending :: bool
  ro_closed :: bool
  ro_revision :: u64

definition default_output :: request_output where
  "default_output = \<lparr>ro_channel = None, ro_snapshot_pending = False, ro_closed = False, ro_revision = 0\<rparr>"

text \<open>A channel is its identifier; \<open>fresh\<close> is the next value of the revision counter.\<close>

definition bind_initial :: "u64 \<Rightarrow> u32 option \<Rightarrow> request_output \<Rightarrow> request_output" where
  "bind_initial fresh channel out =
     (if ro_channel out = None \<and> \<not> ro_closed out
      then out\<lparr>ro_channel := channel, ro_revision := fresh\<rparr> else out)"

definition attach_output :: "u64 \<Rightarrow> u32 \<Rightarrow> request_output \<Rightarrow> request_output \<times> bool" where
  "attach_output fresh channel out =
     (if ro_closed out then (out, False)
      else if ro_channel out = Some channel then (out, True)
      else (out\<lparr>ro_channel := Some channel, ro_snapshot_pending := True, ro_revision := fresh\<rparr>, True))"

text \<open>\<open>send_locked\<close>: \<open>ok\<close> is what the channel answers.\<close>

definition send_locked :: "bool \<Rightarrow> request_output \<Rightarrow> bool" where
  "send_locked ok out = (case ro_channel out of Some _ \<Rightarrow> ok | None \<Rightarrow> True)"

text \<open>\<open>send\<close>, of an event that is not an Aurora update.\<close>

definition send_event :: "string \<Rightarrow> bool \<Rightarrow> request_output \<Rightarrow> request_output \<times> bool" where
  "send_event kind ok out =
     (if ro_closed out then (out, False)
      else
        let out1 = (if kind = ''end'' \<or> kind = ''error'' then out\<lparr>ro_closed := True\<rparr> else out);
            delivered = send_locked ok out1
        in (if delivered then out1 else out1\<lparr>ro_channel := None, ro_snapshot_pending := True\<rparr>, delivered))"

text \<open>The last result is the update delivered, if any.\<close>

definition send_aurora ::
  "'h aurora_env \<Rightarrow> bool \<Rightarrow> bool \<Rightarrow> request_output \<Rightarrow> 'h aurora_buffer \<Rightarrow>
     request_output \<times> 'h aurora_buffer \<times> aurora_update option" where
  "send_aurora env force_snapshot ok out b =
     (if ro_closed out then (out, b, None)
      else if ro_channel out = None
        then (out\<lparr>ro_snapshot_pending := True\<rparr>, discard_pending_delivery b, None)
      else
        let prepared = (if ro_snapshot_pending out \<or> force_snapshot
              then Some (prepare_snapshot_update env b) else prepare_delta_update env b)
        in case prepared of
             None \<Rightarrow> (out, b, None)
           | Some (up, c) \<Rightarrow>
               if send_locked ok out then (out\<lparr>ro_snapshot_pending := False\<rparr>, commit_delivery c b, Some up)
               else (out\<lparr>ro_channel := None, ro_snapshot_pending := True\<rparr>, discard_pending_delivery b, None))"

definition close_output :: "request_output \<Rightarrow> request_output" where
  "close_output out = out\<lparr>ro_closed := True, ro_channel := None\<rparr>"

text \<open>\<open>flush_aurora_window\<close>: a window with nothing pending leaves the buffer as it is.\<close>

definition flush_aurora_window :: "'h aurora_env \<Rightarrow> string \<Rightarrow> 'h aurora_buffer \<Rightarrow> 'h aurora_buffer option" where
  "flush_aurora_window env pending_chunk b =
     (if pending_chunk = [] then Some b
      else map_option fst (process_queue env (append_chunk pending_chunk b)))"

end
