(* ===== verification/Aurora_Laws.thy ===== *)
theory Aurora_Laws
  imports Aurora Stream_Blocks_Laws
begin

text \<open>
  What the consumer of a stream shows is what the buffer holds. \<open>client\<close> is the contract of the
  update protocol, as \<open>chatStreamStore.ts\<close> applies it; \<open>stream_step\<close> is every operation on the output,
  the buffer and the consumer, in any order.
\<close>

section \<open>The consumer\<close>

text \<open>The tail block is its hash, its mode and its type; the cursor is the epoch and the number of the
  last frame; \<open>cl_refused\<close>: an update was dropped or a snapshot had to be asked for.\<close>

record client =
  cl_content :: string
  cl_blocks :: "stream_block list"
  cl_tail :: string
  cl_tail_block :: "(string \<times> render_mode \<times> tail_type) option"
  cl_cursor :: "(u64 \<times> u64) option"
  cl_refused :: bool

definition new_client :: client where
  "new_client = \<lparr>cl_content = [], cl_blocks = [], cl_tail = [], cl_tail_block = None, cl_cursor = None,
     cl_refused = False\<rparr>"

fun wire_tail :: "stream_block \<Rightarrow> string \<times> string \<times> tail_type" where
  "wire_tail (SbMarkdown content _ hash) = (content, hash, TailMarkdown)"
| "wire_tail (SbHtmlPreview content _ hash) = (content, hash, TailHtmlPreview)"
| "wire_tail (SbThought _ content _ _ hash) = (content, hash, TailThought)"
| "wire_tail _ = ([], [], TailMarkdown)"

text \<open>A frame is old, or follows on the cursor, or needs a snapshot.\<close>

definition frame_old :: "(u64 \<times> u64) option \<Rightarrow> tail_frame \<Rightarrow> bool" where
  "frame_old cursor f \<longleftrightarrow>
     (case cursor of None \<Rightarrow> False | Some (e, s) \<Rightarrow> tf_epoch f < e \<or> tf_epoch f = e \<and> tf_seq f \<le> s)"

definition frame_gap :: "(u64 \<times> u64) option \<Rightarrow> tail_frame \<Rightarrow> bool" where
  "frame_gap cursor f \<longleftrightarrow>
     (case cursor of None \<Rightarrow> 1 < unat (tf_seq f) | Some (e, s) \<Rightarrow> e < tf_epoch f \<or> unat s + 1 < unat (tf_seq f))"

definition frame_ok :: "(u64 \<times> u64) option \<Rightarrow> tail_frame option \<Rightarrow> bool" where
  "frame_ok cursor fo \<longleftrightarrow>
     (case fo of None \<Rightarrow> True
      | Some f \<Rightarrow> \<not> frame_old cursor f \<and> (tf_reset f \<or> frame_gap cursor f \<longrightarrow> tf_snapshot f \<noteq> None))"

definition take_frame :: "tail_frame option \<Rightarrow> client \<Rightarrow> client" where
  "take_frame fo c =
     (case fo of None \<Rightarrow> c | Some f \<Rightarrow> c\<lparr>cl_cursor := Some (tf_epoch f, tf_seq f)\<rparr>)"

definition take_stable :: "(nat \<times> stream_block list) option \<Rightarrow> client \<Rightarrow> client" where
  "take_stable added c =
     (case added of None \<Rightarrow> c
      | Some (base, blocks) \<Rightarrow>
          if length (cl_blocks c) = base then c\<lparr>cl_blocks := cl_blocks c @ blocks\<rparr>
          else c\<lparr>cl_refused := True\<rparr>)"

fun take_tail :: "tail_op option \<Rightarrow> client \<Rightarrow> client" where
  "take_tail None c = c"
| "take_tail (Some OpClear) c = c\<lparr>cl_tail := [], cl_tail_block := None\<rparr>"
| "take_tail (Some (OpReplace content hash m t theme)) c =
     c\<lparr>cl_tail := content, cl_tail_block := Some (hash, m, t)\<rparr>"
| "take_tail (Some (OpAppend previous content hash m t theme)) c =
     (if map_option fst (cl_tail_block c) = previous
      then c\<lparr>cl_tail := cl_tail c @ content, cl_tail_block := Some (hash, m, t)\<rparr>
      else c\<lparr>cl_refused := True\<rparr>)"

definition take_content :: "string option \<Rightarrow> string option \<Rightarrow> client \<Rightarrow> client" where
  "take_content content chunk c =
     (case content of Some t \<Rightarrow> c\<lparr>cl_content := t\<rparr>
      | None \<Rightarrow> (case chunk of Some t \<Rightarrow> c\<lparr>cl_content := cl_content c @ t\<rparr> | None \<Rightarrow> c))"

definition take_snapshot :: "aurora_update \<Rightarrow> client \<Rightarrow> client" where
  "take_snapshot up c =
     (case up_tail_block up of
        None \<Rightarrow> c\<lparr>cl_tail := [], cl_tail_block := None\<rparr>
      | Some block \<Rightarrow>
          (case wire_tail block of (content, hash, t) \<Rightarrow>
             c\<lparr>cl_tail := content,
               cl_tail_block := Some (hash, (case up_tail_mode up of Some m \<Rightarrow> m | None \<Rightarrow> ModePlain), t)\<rparr>))
     \<lparr>cl_blocks := (case up_stable_blocks up of Some bs \<Rightarrow> bs | None \<Rightarrow> cl_blocks c)\<rparr>"

definition receive :: "aurora_update \<Rightarrow> client \<Rightarrow> client" where
  "receive up c =
     (if \<not> frame_ok (cl_cursor c) (up_tail_frame up) then c\<lparr>cl_refused := True\<rparr>
      else
        let c1 = take_content (up_content up) (up_chunk up) (take_frame (up_tail_frame up) c)
        in case up_kind up of
             KindSnapshot \<Rightarrow> take_snapshot up c1
           | KindDelta \<Rightarrow> take_tail (up_tail_op up) (take_stable (up_stable_append up) c1))"

text \<open>What the buffer would have the consumer show.\<close>

definition tail_block_of :: "'h aurora_env \<Rightarrow> 'h aurora_buffer \<Rightarrow> (string \<times> render_mode \<times> tail_type) option" where
  "tail_block_of env b =
     map_option (\<lambda>p. (wire_hash env (tp_fingerprint p), tp_mode p, tp_type p)) (ab_projection b)"

definition shows_buffer :: "'h aurora_env \<Rightarrow> 'h aurora_buffer \<Rightarrow> client \<Rightarrow> bool" where
  "shows_buffer env b c \<longleftrightarrow>
     cl_content c = ab_full b \<and> cl_blocks c = ab_stable b \<and> cl_tail c = ab_tail b \<and>
     cl_tail_block c = tail_block_of env b \<and> \<not> cl_refused c"

section \<open>The system\<close>

type_synonym 'h stream_system = "request_output \<times> 'h aurora_buffer \<times> client"

text \<open>The consumer of a new channel may show anything; it has no cursor or that of the consumer before.\<close>

inductive stream_step :: "'h aurora_env \<Rightarrow> 'h stream_system \<Rightarrow> 'h stream_system \<Rightarrow> bool" for env where
  flush: "flush_aurora_window env chunk b = Some b' \<Longrightarrow> stream_step env (out, b, c) (out, b', c)"
| finish: "finalize_aurora env b = Some b' \<Longrightarrow> stream_step env (out, b, c) (out, b', c)"
| deliver: "send_aurora env force ok out b = (out', b', Some up) \<Longrightarrow>
    stream_step env (out, b, c) (out', b', receive up c)"
| hold: "send_aurora env force ok out b = (out', b', None) \<Longrightarrow> stream_step env (out, b, c) (out', b', c)"
| attach: "ro_channel out \<noteq> Some channel \<Longrightarrow> attach_output fresh channel out = (out', True) \<Longrightarrow>
    cl_cursor c' \<in> {None, cl_cursor c} \<Longrightarrow> \<not> cl_refused c' \<Longrightarrow> stream_step env (out, b, c) (out', b, c')"
| reattach: "attach_output fresh channel out = (out', answer) \<Longrightarrow> ro_channel out = Some channel \<Longrightarrow>
    stream_step env (out, b, c) (out', b, c)"
| bind: "stream_step env (out, b, c) (bind_initial fresh channel out, b, c)"
| event: "stream_step env (out, b, c) (fst (send_event kind ok out), b, c)"
| close: "stream_step env (out, b, c) (close_output out, b, c)"

inductive stream_reachable :: "'h aurora_env \<Rightarrow> u64 \<Rightarrow> 'h stream_system \<Rightarrow> bool" for env sid where
  start: "stream_reachable env sid (default_output, with_stream_id env sid, new_client)"
| step: "stream_reachable env sid s \<Longrightarrow> stream_step env s s' \<Longrightarrow> stream_reachable env sid s'"

section \<open>The invariant of the buffer\<close>

definition tail_ok :: "'h aurora_buffer \<Rightarrow> bool" where
  "tail_ok b \<longleftrightarrow>
     (case ab_projection b of
        None \<Rightarrow> ab_tail b = []
      | Some p \<Rightarrow>
          (let fp = tp_fingerprint p
           in fp_state fp = ab_tail b \<and> fp_len fp = length (ab_tail b) \<and>
              fp_source_start fp \<le> length (ab_full b) \<and> ab_tail b = drop (fp_source_start fp) (ab_full b)))"

text \<open>The tail of the last commit is a piece of the text.\<close>

definition pushed_tail :: "'h aurora_buffer \<Rightarrow> string" where
  "pushed_tail b =
     (case dc_tail_source_start (ab_pushed b) of
        None \<Rightarrow> []
      | Some s \<Rightarrow> take (dc_tail_len (ab_pushed b)) (drop s (ab_full b)))"

definition pushed_block :: "'h aurora_buffer \<Rightarrow> (string \<times> render_mode \<times> tail_type) option" where
  "pushed_block b =
     (case (dc_tail_hash (ab_pushed b), dc_tail_mode (ab_pushed b), dc_tail_type (ab_pushed b)) of
        (Some h, Some m, Some t) \<Rightarrow> Some (h, m, t) | _ \<Rightarrow> None)"

definition pushed_ok :: "'h aurora_env \<Rightarrow> 'h aurora_buffer \<Rightarrow> bool" where
  "pushed_ok env b \<longleftrightarrow>
     (let p = ab_pushed b
      in dc_len p \<le> length (ab_full b) \<and> dc_stable_count p \<le> length (ab_stable b) \<and>
         (case dc_tail_source_start p of
            None \<Rightarrow> dc_tail_hash p = None \<and> dc_tail_mode p = None \<and> dc_tail_type p = None \<and> dc_tail_len p = 0
          | Some s \<Rightarrow> dc_tail_hash p = Some (ae_sha env (pushed_tail b)) \<and> dc_tail_mode p \<noteq> None \<and>
              dc_tail_type p \<noteq> None \<and> s + dc_tail_len p \<le> length (ab_full b)))"

definition parser_ok :: "'h aurora_env \<Rightarrow> 'h aurora_buffer \<Rightarrow> bool" where
  "parser_ok env b \<longleftrightarrow> ab_finishing b \<or> cursors_ok (ae_blocks env) (ab_parser b) (ab_full b)"

definition buffer_ok :: "'h aurora_env \<Rightarrow> 'h aurora_buffer \<Rightarrow> bool" where
  "buffer_ok env b \<longleftrightarrow> tail_ok b \<and> pushed_ok env b \<and> parser_ok env b \<and> (ab_finishing b \<longrightarrow> ab_projection b = None)"

definition client_ok :: "bool \<Rightarrow> 'h aurora_buffer \<Rightarrow> client \<Rightarrow> bool" where
  "client_ok pending b c \<longleftrightarrow>
     \<not> cl_refused c \<and>
     (\<not> pending \<longrightarrow>
        cl_content c = take (dc_len (ab_pushed b)) (ab_full b) \<and>
        cl_blocks c = take (dc_stable_count (ab_pushed b)) (ab_stable b) \<and>
        cl_tail c = pushed_tail b \<and> cl_tail_block c = pushed_block b) \<and>
     (case cl_cursor c of
        None \<Rightarrow> \<not> pending \<longrightarrow> ab_seq b = 0
      | Some (e, s) \<Rightarrow> e \<le> ab_epoch b \<and> s \<le> ab_seq b \<and>
          (\<not> pending \<longrightarrow> s = ab_seq b \<and> (\<not> ab_reset b \<longrightarrow> e = ab_epoch b)))"

fun system_ok :: "'h aurora_env \<Rightarrow> 'h stream_system \<Rightarrow> bool" where
  "system_ok env (out, b, c) \<longleftrightarrow> buffer_ok env b \<and> client_ok (ro_snapshot_pending out) b c"

section \<open>The buffer moves on\<close>

text \<open>What the operations that deliver nothing do to what has been delivered.\<close>

definition advances :: "'h aurora_buffer \<Rightarrow> 'h aurora_buffer \<Rightarrow> bool" where
  "advances b b' \<longleftrightarrow>
     ab_pushed b' = ab_pushed b \<and> ab_seq b' = ab_seq b \<and> ab_epoch b \<le> ab_epoch b' \<and>
     prefix (ab_full b) (ab_full b') \<and> prefix (ab_stable b) (ab_stable b') \<and>
     (\<not> ab_reset b' \<longrightarrow> \<not> ab_reset b \<and> ab_epoch b' = ab_epoch b)"

lemma sat_add_ge: "e \<le> u64_saturating_add e 1"
proof (cases "unat e + 1 < 2 ^ 64")
  case True
  then show ?thesis by (simp add: u64_saturating_add_def word_le_nat_alt unat_word_ariths)
next
  case False
  have "(18446744073709551615 :: u64) = - 1" by simp
  then have "e \<le> 18446744073709551615" by (simp only: word_order.extremum)
  then show ?thesis using False by (simp add: u64_saturating_add_def)
qed

lemma sat_add_less: "unat n < 2 ^ 64 - 1 \<Longrightarrow> unat (u64_saturating_add n 1) = unat n + 1"
  by (simp add: u64_saturating_add_def unat_word_ariths)

lemma advances_refl [simp]: "advances b b"
  by (simp add: advances_def)

lemma advances_trans: "advances a b \<Longrightarrow> advances b c \<Longrightarrow> advances a c"
  by (auto simp: advances_def intro: order_trans)

lemma reset_tail_advances: "advances b (reset_tail b)"
  by (simp add: advances_def reset_tail_def sat_add_ge)

lemma discard_advances: "advances b (discard_pending_delivery b)"
  by (simp add: advances_def discard_pending_delivery_def)

definition same_tail :: "'h aurora_buffer \<Rightarrow> 'h aurora_buffer \<Rightarrow> bool" where
  "same_tail b b' \<longleftrightarrow> ab_full b' = ab_full b \<and> ab_tail b' = ab_tail b \<and> ab_parser b' = ab_parser b \<and>
     ab_finishing b' = ab_finishing b"

lemma absorb_blocks_moves: "advances b (absorb_blocks env bs b) \<and> same_tail b (absorb_blocks env bs b)"
  by (simp add: absorb_blocks_def reset_tail_def advances_def same_tail_def sat_add_ge)

lemma html_patch_step_moves:
  "advances b (html_patch_step env b) \<and> same_tail b (html_patch_step env b)"
  by (simp add: html_patch_step_def advances_def same_tail_def split: option.split)

lemma html_tail_step_moves:
  "advances b (html_tail_step env previous ch fp b) \<and> same_tail b (html_tail_step env previous ch fp b) \<and>
   map_option tp_fingerprint (ab_projection (html_tail_step env previous ch fp b)) = Some fp"
  by (simp add: html_tail_step_def html_patch_step_def reset_tail_def bump_revision_def advances_def
      same_tail_def sat_add_ge Let_def split: option.split)

lemma ast_tail_step_moves:
  "advances b (ast_tail_step env previous rt theme fp b) \<and> same_tail b (ast_tail_step env previous rt theme fp b) \<and>
   map_option tp_fingerprint (ab_projection (ast_tail_step env previous rt theme fp b)) = Some fp"
  by (simp add: ast_tail_step_def reset_tail_def bump_revision_def advances_def same_tail_def sat_add_ge
      Let_def split: option.split prod.split)

lemma empty_tail_step_moves:
  "advances b (empty_tail_step env b) \<and> same_tail b (empty_tail_step env b) \<and>
   ab_projection (empty_tail_step env b) = None"
  by (simp add: empty_tail_step_def reset_tail_def advances_def same_tail_def sat_add_ge Let_def)

text \<open>What is relied on: the scanner settles, the start marker of a thought is a piece of the text, and
  SHA-256 has no collision on what it is given.\<close>

definition aurora_ok :: "'h aurora_env \<Rightarrow> bool" where
  "aurora_ok env \<longleftrightarrow> scanner_ok (ae_blocks env) \<and>
     (\<forall>t s e g. be_thought (ae_blocks env) t = Some (s, e, g) \<longrightarrow> e \<le> length t) \<and>
     (\<forall>t s e. be_think (ae_blocks env) t = Some (s, e) \<longrightarrow> e \<le> length t) \<and>
     inj (ae_sha env)"

lemma process_tail:
  assumes "scanner_ok env" "cursors_ok env st t" "process env st (t @ x) = Some (blocks, tail, bt, st')"
  shows "cursors_ok env st' (t @ x) \<and> tail = drop (sp_processed st') (t @ x) \<and> sp_processed st' \<le> length (t @ x)"
  using frame_agrees[OF assms(1,2), of x] assms(3)
  by (auto simp: loop_agrees_def result_ok_def cursors_ok_def)

lemma shown_tail_piece:
  assumes "aurora_ok env" "shown_tail (ae_blocks env) (drop start t) start rt = (tail, n, theme)" "start \<le> length t"
  shows "tail = drop n t \<and> n \<le> length t"
proof (cases "speculative_thought_tail (ae_blocks env) (drop start t) rt")
  case None
  then show ?thesis using assms(2,3) by (auto simp: shown_tail_def)
next
  case (Some r)
  obtain content offset th where r: "r = (content, offset, th)" by (cases r)
  have "content = drop offset (drop start t) \<and> offset \<le> length (drop start t)"
    using Some assms(1) unfolding r aurora_ok_def
    by (cases "(ae_blocks env, drop start t, rt)" rule: speculative_thought_tail.cases)
      (auto split: option.splits if_splits dest!: spec[where x = "drop start t"])
  then show ?thesis using Some assms(2,3) by (auto simp: shown_tail_def r add.commute)
qed

lemma next_fingerprint_is_tail:
  assumes "tail_ok b" "tail = drop n (ab_full b @ x)"
  shows "fp_state (next_tail_fingerprint (b\<lparr>ab_full := ab_full b @ x\<rparr>) tail n) = tail \<and>
    fp_len (next_tail_fingerprint (b\<lparr>ab_full := ab_full b @ x\<rparr>) tail n) = length tail \<and>
    fp_source_start (next_tail_fingerprint (b\<lparr>ab_full := ab_full b @ x\<rparr>) tail n) = n"
proof (cases "ab_projection b")
  case (Some p)
  let ?fp = "tp_fingerprint p"
  have old: "fp_state ?fp = drop (fp_source_start ?fp) (ab_full b)" "fp_len ?fp = length (fp_state ?fp)"
    "fp_source_start ?fp \<le> length (ab_full b)"
    using assms(1) Some by (auto simp: tail_ok_def Let_def)
  have "fp_source_start ?fp = n \<Longrightarrow> fp_state ?fp @ drop (fp_len ?fp) tail = tail"
    using old assms(2) by simp
  moreover have "fp_source_start ?fp = n \<Longrightarrow> fp_len ?fp + (length tail - fp_len ?fp) = length tail"
    using old assms(2) by simp
  ultimately show ?thesis
    using Some by (auto simp: next_tail_fingerprint_def Let_def fp_from_content_def fp_with_suffix_def)
qed (simp add: next_tail_fingerprint_def fp_from_content_def)

lemma pushed_ok_advances:
  assumes "pushed_ok env b" "advances b b'"
  shows "pushed_ok env b' \<and> pushed_tail b' = pushed_tail b \<and> pushed_block b' = pushed_block b"
proof -
  have same: "ab_pushed b' = ab_pushed b" using assms(2) by (simp add: advances_def)
  obtain x where full: "ab_full b' = ab_full b @ x" using assms(2) by (auto simp: advances_def prefix_def)
  obtain bs where stable: "ab_stable b' = ab_stable b @ bs" using assms(2) by (auto simp: advances_def prefix_def)
  have tail: "pushed_tail b' = pushed_tail b"
    using assms(1) by (auto simp: pushed_tail_def pushed_ok_def same full Let_def split: option.splits)
  show ?thesis
    using assms(1) by (auto simp: pushed_ok_def Let_def pushed_block_def same full stable tail split: option.splits)
qed

lemma client_ok_advances:
  assumes "client_ok pending b c" "pushed_ok env b" "advances b b'"
  shows "client_ok pending b' c"
proof -
  have same: "ab_pushed b' = ab_pushed b" "ab_seq b' = ab_seq b" "ab_epoch b \<le> ab_epoch b'"
    "\<not> ab_reset b' \<Longrightarrow> \<not> ab_reset b \<and> ab_epoch b' = ab_epoch b"
    using assms(3) by (auto simp: advances_def)
  obtain x where full: "ab_full b' = ab_full b @ x" using assms(3) by (auto simp: advances_def prefix_def)
  obtain bs where stable: "ab_stable b' = ab_stable b @ bs" using assms(3) by (auto simp: advances_def prefix_def)
  have len: "dc_len (ab_pushed b) \<le> length (ab_full b)" "dc_stable_count (ab_pushed b) \<le> length (ab_stable b)"
    using assms(2) by (auto simp: pushed_ok_def Let_def)
  show ?thesis
    using assms(1) pushed_ok_advances[OF assms(2,3)] len same
    by (auto simp: client_ok_def full stable intro: order_trans split: option.splits)
qed

lemma buffer_ok_tail:
  assumes "buffer_ok env b" "advances b b'" "parser_ok env b'" "tail_ok b'"
    "ab_finishing b' \<Longrightarrow> ab_projection b' = None"
  shows "buffer_ok env b'"
  using assms pushed_ok_advances by (auto simp: buffer_ok_def)

lemma process_queue_runs:
  assumes "\<not> ab_finishing b" "process (ae_blocks env) (ab_parser b) (ab_full b) = Some (blocks, raw, rt, st)"
    and "shown_tail (ae_blocks env) raw (sp_processed st) rt = (tail, n, theme)"
    and b1: "b1 = (absorb_blocks env blocks (b\<lparr>ab_parser := st\<rparr>))\<lparr>ab_tail := tail\<rparr>"
  shows "map_option fst (process_queue env b) = Some (if tail \<noteq> [] \<or> theme \<noteq> None
      then (if rt = Some BHtmlContainer \<and> theme = None
        then html_tail_step env (map_option tp_type (ab_projection b)) (tail_is_new b tail n theme)
          (next_tail_fingerprint b tail n) b1
        else ast_tail_step env (map_option tp_type (ab_projection b)) rt theme (next_tail_fingerprint b tail n) b1)
      else empty_tail_step env b1)"
  unfolding b1 by (simp add: process_queue_def assms(1-3) Let_def)

lemma process_queue_moves:
  assumes ok: "aurora_ok env" and b: "buffer_ok env b"
    and run: "process_queue env (append_chunk x b) = Some (b', r)"
  shows "advances b b' \<and> buffer_ok env b'"
proof (cases "ab_finishing b")
  case True
  then have b': "b' = b\<lparr>ab_full := ab_full b @ x\<rparr>" using run by (simp add: process_queue_def append_chunk_def)
  then have adv: "advances b b'" by (simp add: advances_def)
  show ?thesis
    using b True adv buffer_ok_tail[OF b adv] by (auto simp: b' parser_ok_def buffer_ok_def tail_ok_def)
next
  case False
  let ?t = "ab_full b @ x" and ?b = "append_chunk x b"
  have fin: "ab_finishing ?b = False" "ab_full ?b = ?t" using False by (simp_all add: append_chunk_def)
  obtain blocks raw rt st where p: "process (ae_blocks env) (ab_parser b) ?t = Some (blocks, raw, rt, st)"
    using run fin by (auto simp: process_queue_def append_chunk_def split: option.splits)
  have settled: "cursors_ok (ae_blocks env) st ?t" "raw = drop (sp_processed st) ?t" "sp_processed st \<le> length ?t"
    using process_tail[OF _ _ p] ok b False by (auto simp: aurora_ok_def buffer_ok_def parser_ok_def)
  obtain tail n theme where sh: "shown_tail (ae_blocks env) raw (sp_processed st) rt = (tail, n, theme)"
    by (cases "shown_tail (ae_blocks env) raw (sp_processed st) rt") auto
  have piece: "tail = drop n ?t" "n \<le> length ?t"
    using shown_tail_piece[OF ok sh[unfolded settled(2)] settled(3)] by auto
  define fp where "fp = next_tail_fingerprint ?b tail n"
  have fp: "fp_state fp = tail" "fp_len fp = length tail" "fp_source_start fp = n"
    using next_fingerprint_is_tail[OF _ piece(1)] b unfolding fp_def append_chunk_def buffer_ok_def by auto
  define b1 where "b1 = (absorb_blocks env blocks (?b\<lparr>ab_parser := st\<rparr>))\<lparr>ab_tail := tail\<rparr>"
  have b1: "advances b b1" "ab_full b1 = ?t" "ab_tail b1 = tail" "ab_parser b1 = st" "ab_finishing b1 = False"
    using absorb_blocks_moves[of "?b\<lparr>ab_parser := st\<rparr>" env blocks] fin
    by (auto simp: b1_def advances_def same_tail_def append_chunk_def intro: prefix_order.trans)
  have run': "b' = (if tail \<noteq> [] \<or> theme \<noteq> None
      then (if rt = Some BHtmlContainer \<and> theme = None
        then html_tail_step env (map_option tp_type (ab_projection ?b)) (tail_is_new ?b tail n theme) fp b1
        else ast_tail_step env (map_option tp_type (ab_projection ?b)) rt theme fp b1)
      else empty_tail_step env b1)"
    using process_queue_runs[OF _ _ sh b1_def] p run fin by (simp add: fp_def append_chunk_def)
  have after: "advances b1 b'" "same_tail b1 b'"
    "map_option tp_fingerprint (ab_projection b') = (if tail \<noteq> [] \<or> theme \<noteq> None then Some fp else None)"
    unfolding run' using html_tail_step_moves ast_tail_step_moves empty_tail_step_moves by (simp_all, blast+)
  have "tail_ok b'"
    using after(2,3) b1 fp piece by (auto simp: tail_ok_def same_tail_def Let_def split: option.splits if_splits)
  moreover have "advances b b'" using advances_trans[OF b1(1) after(1)] .
  ultimately show ?thesis
    using after(2) b1 settled(1) by (auto simp: parser_ok_def same_tail_def intro!: buffer_ok_tail[OF b])
qed

lemma finalize_moves:
  assumes "buffer_ok env b" "finalize_aurora env b = Some b'"
  shows "advances b b' \<and> buffer_ok env b'"
proof -
  have adv: "advances b b'"
    using assms(2) by (auto simp: finalize_aurora_def reset_tail_def advances_def sat_add_ge split: if_splits option.splits)
  have "ab_finishing b' \<and> (b' = b \<or> ab_projection b' = None \<and> ab_tail b' = [])"
    using assms(2) by (auto simp: finalize_aurora_def reset_tail_def split: if_splits option.splits)
  then show ?thesis
    using adv assms(1) by (auto simp: parser_ok_def tail_ok_def intro!: buffer_ok_tail[OF assms(1)])
qed

lemma flush_moves:
  "aurora_ok env \<Longrightarrow> buffer_ok env b \<Longrightarrow> flush_aurora_window env x b = Some b' \<Longrightarrow>
     advances b b' \<and> buffer_ok env b'"
  using process_queue_moves by (fastforce simp: flush_aurora_window_def split: if_splits)

lemma discard_moves:
  "buffer_ok env b \<Longrightarrow> advances b (discard_pending_delivery b) \<and> buffer_ok env (discard_pending_delivery b)"
  using pushed_ok_advances[OF _ discard_advances, of env b] discard_advances[of b]
  by (auto simp: buffer_ok_def parser_ok_def tail_ok_def discard_pending_delivery_def split: option.splits)

section \<open>Deliveries\<close>

lemma committed:
  assumes "buffer_ok env b" and b': "b' = commit_delivery (commit_of env x b) b"
  shows "buffer_ok env b' \<and> dc_len (ab_pushed b') = length (ab_full b') \<and>
    dc_stable_count (ab_pushed b') = length (ab_stable b') \<and> pushed_tail b' = ab_tail b' \<and>
    pushed_block b' = tail_block_of env b'"
  using assms(1)
  by (cases "ab_projection b")
    (auto simp: b' commit_delivery_def commit_of_def buffer_ok_def tail_ok_def pushed_ok_def parser_ok_def
      pushed_tail_def pushed_block_def tail_block_of_def current_hash_def current_mode_def current_type_def
      current_source_start_def wire_hash_def Let_def)

lemma shows_after_commit:
  "shows_buffer env (commit_delivery d b) c \<longleftrightarrow> shows_buffer env b c"
  by (simp add: shows_buffer_def commit_delivery_def tail_block_of_def Let_def)

text \<open>A consumer that shows the buffer is the one the commit describes.\<close>

lemma client_ok_commit:
  assumes "buffer_ok env b" "shows_buffer env b c"
    and "case cl_cursor c of None \<Rightarrow> ab_seq b' = 0
      | Some (e, s) \<Rightarrow> e \<le> ab_epoch b' \<and> s = ab_seq b' \<and> (\<not> ab_reset b' \<longrightarrow> e = ab_epoch b')"
    and b': "b' = commit_delivery (commit_of env x b) b"
  shows "client_ok False b' c"
proof -
  have "shows_buffer env b' c" unfolding b' using assms(2) by (simp add: shows_after_commit)
  then show ?thesis
    using committed[OF assms(1) b'] assms(3)
    by (auto simp: client_ok_def shows_buffer_def split: option.splits)
qed

lemma take_tail_shows:
  assumes ok: "aurora_ok env" and b: "buffer_ok env b"
    and c: "cl_tail c = pushed_tail b" "cl_tail_block c = pushed_block b"
  shows "take_tail (delta_tail_op env b) c = c\<lparr>cl_tail := ab_tail b, cl_tail_block := tail_block_of env b\<rparr>"
proof (cases "ab_projection b")
  case None
  then have "ab_tail b = []" "tail_block_of env b = None"
    using b by (auto simp: buffer_ok_def tail_ok_def tail_block_of_def)
  moreover have "\<not> tail_state_changed env b \<Longrightarrow> pushed_tail b = [] \<and> pushed_block b = None"
    using b None by (auto simp: tail_state_changed_def Let_def current_hash_def buffer_ok_def pushed_ok_def
        pushed_tail_def pushed_block_def split: option.splits)
  ultimately show ?thesis using None c by (simp add: delta_tail_op_def)
next
  case (Some p)
  let ?h = "ae_sha env (ab_tail b)" and ?P = "ab_pushed b"
  have p: "wire_hash env (tp_fingerprint p) = ?h" "ab_tail b = drop (fp_source_start (tp_fingerprint p)) (ab_full b)"
    using b Some by (auto simp: buffer_ok_def tail_ok_def wire_hash_def Let_def)
  have block: "tail_block_of env b = Some (?h, tp_mode p, tp_type p)"
    using Some p(1) by (simp add: tail_block_of_def)
  have pushed: "dc_tail_hash ?P = Some h \<Longrightarrow> h = ae_sha env (pushed_tail b)" for h
    using b by (auto simp: buffer_ok_def pushed_ok_def Let_def split: option.splits)
  consider (kept) "\<not> tail_state_changed env b" | (appended) "tail_state_changed env b" "can_append b"
      "is_char_boundary (ab_tail b) (dc_tail_len ?P)"
    | (replaced) "tail_state_changed env b" "\<not> (can_append b \<and> is_char_boundary (ab_tail b) (dc_tail_len ?P))"
    by blast
  then show ?thesis
  proof cases
    case kept
    then have same: "dc_tail_hash ?P = Some ?h" "dc_tail_mode ?P = Some (tp_mode p)" "dc_tail_type ?P = Some (tp_type p)"
      using Some p(1) by (auto simp: tail_state_changed_def Let_def current_hash_def current_mode_def current_type_def)
    then have "pushed_tail b = ab_tail b" using pushed[OF same(1)] ok by (auto simp: aurora_ok_def dest: injD)
    moreover have "pushed_block b = tail_block_of env b" using same block by (simp add: pushed_block_def)
    ultimately show ?thesis using kept c by (simp add: delta_tail_op_def)
  next
    case appended
    then have start: "dc_tail_source_start ?P = Some (fp_source_start (tp_fingerprint p))"
      "dc_tail_mode ?P = Some (tp_mode p)" "dc_tail_type ?P = Some (tp_type p)"
      using Some by (auto simp: can_append_def Let_def current_source_start_def current_mode_def current_type_def)
    then have "pushed_tail b = take (dc_tail_len ?P) (ab_tail b)" using p(2) by (simp add: pushed_tail_def)
    moreover have "map_option fst (pushed_block b) = dc_tail_hash ?P"
      using start b by (auto simp: pushed_block_def buffer_ok_def pushed_ok_def Let_def)
    ultimately show ?thesis
      using appended Some c p(1) block by (simp add: delta_tail_op_def Let_def)
  next
    case replaced
    then show ?thesis using Some p(1) block by (auto simp: delta_tail_op_def Let_def)
  qed
qed

lemma frame_accepted:
  assumes "client_ok pending b c" "unat (ab_seq b) < 2 ^ 64 - 1" "pending \<longrightarrow> force"
  shows "frame_ok (cl_cursor c) (peek_tail_frame env force b)"
proof -
  have next_seq: "unat (u64_saturating_add (ab_seq b) 1) = unat (ab_seq b) + 1" using assms(2) by (rule sat_add_less)
  have not_old: "\<not> frame_old (cl_cursor c) f" if "tf_epoch f = ab_epoch b" "tf_seq f = u64_saturating_add (ab_seq b) 1" for f
    using assms(1) next_seq that
    by (auto simp: frame_old_def client_ok_def word_le_nat_alt word_less_nat_alt split: option.splits)
  have no_gap: "\<not> frame_gap (cl_cursor c) f"
    if "tf_epoch f = ab_epoch b" "tf_seq f = u64_saturating_add (ab_seq b) 1" "\<not> force" "\<not> ab_reset b" for f
    using assms(1,3) next_seq that
    by (auto simp: frame_gap_def client_ok_def word_le_nat_alt word_less_nat_alt split: option.splits)
  show ?thesis
    using not_old no_gap by (auto simp: frame_ok_def peek_tail_frame_def Let_def)
qed

lemma cursor_after:
  assumes "client_ok pending b c" "pending \<longrightarrow> force" "fo = peek_tail_frame env force b"
    and "b' = commit_delivery (commit_of env (fo \<noteq> None) b) b"
  shows "case cl_cursor (take_frame fo c) of None \<Rightarrow> ab_seq b' = 0
      | Some (e, s) \<Rightarrow> e \<le> ab_epoch b' \<and> s = ab_seq b' \<and> (\<not> ab_reset b' \<longrightarrow> e = ab_epoch b')"
proof (cases fo)
  case None
  then have "\<not> force" "\<not> ab_reset b" using assms(3) by (auto simp: peek_tail_frame_def Let_def split: if_splits)
  then show ?thesis
    using None assms(1,2,4) by (auto simp: take_frame_def client_ok_def commit_delivery_def commit_of_def Let_def split: option.splits)
next
  case (Some f)
  then show ?thesis
    using assms(3,4) by (auto simp: take_frame_def peek_tail_frame_def commit_delivery_def commit_of_def Let_def split: if_splits)
qed

lemma kept_cursor [simp]:
  "cl_cursor (take_tail change c) = cl_cursor c" "cl_cursor (take_stable added c) = cl_cursor c"
  "cl_cursor (take_content content chunk c) = cl_cursor c" "cl_cursor (take_snapshot up c) = cl_cursor c"
proof -
  show "cl_cursor (take_tail change c) = cl_cursor c" by (cases "(change, c)" rule: take_tail.cases) simp_all
qed (simp_all add: take_stable_def take_content_def take_snapshot_def split: option.split prod.split)

lemma cursor_receive:
  "frame_ok (cl_cursor c) (up_tail_frame up) \<Longrightarrow>
     cl_cursor (receive up c) = cl_cursor (take_frame (up_tail_frame up) c)"
  by (simp add: receive_def Let_def split: update_kind.split)

lemma kept_frame [simp]:
  "cl_content (take_frame fo c) = cl_content c" "cl_blocks (take_frame fo c) = cl_blocks c"
  "cl_tail (take_frame fo c) = cl_tail c" "cl_tail_block (take_frame fo c) = cl_tail_block c"
  "cl_refused (take_frame fo c) = cl_refused c"
  by (simp_all add: take_frame_def split: option.split)

lemma receive_snapshot:
  assumes "frame_ok (cl_cursor c) (peek_tail_frame env True b)" "\<not> cl_refused c" "buffer_ok env b"
  shows "shows_buffer env b (receive (fst (prepare_snapshot_update env b)) c)"
proof (cases "ab_projection b")
  case None
  then show ?thesis
    using assms by (auto simp: prepare_snapshot_update_def receive_def shows_buffer_def take_snapshot_def
        take_content_def current_tail_wire_block_def tail_block_of_def Let_def buffer_ok_def tail_ok_def)
next
  case (Some p)
  then show ?thesis
    using assms(1,2) by (cases "tp_type p") (simp_all add: prepare_snapshot_update_def receive_def shows_buffer_def
        take_snapshot_def take_content_def current_tail_wire_block_def tail_block_of_def current_mode_def Let_def)
qed

lemma receive_delta:
  assumes ok: "aurora_ok env" and b: "buffer_ok env b" and c: "client_ok False b c"
    and fr: "frame_ok (cl_cursor c) (peek_tail_frame env False b)" and up: "prepare_delta_update env b = Some (up, cm)"
  shows "shows_buffer env b (receive up c)"
proof -
  let ?p = "ab_pushed b"
  have len: "dc_len ?p \<le> length (ab_full b)" "dc_stable_count ?p \<le> length (ab_stable b)"
    using b by (auto simp: buffer_ok_def pushed_ok_def Let_def)
  define c1 where "c1 = take_content (up_content up) (up_chunk up) (take_frame (up_tail_frame up) c)"
  have parts: "up_kind up = KindDelta" "up_tail_frame up = peek_tail_frame env False b" "up_content up = None"
    "up_chunk up = (if dc_len ?p < length (ab_full b) then Some (drop (dc_len ?p) (ab_full b)) else None)"
    "up_stable_append up = (if dc_stable_count ?p < length (ab_stable b)
      then Some (dc_stable_count ?p, drop (dc_stable_count ?p) (ab_stable b)) else None)"
    "up_tail_op up = delta_tail_op env b"
    using up by (auto simp: prepare_delta_update_def Let_def split: if_splits)
  have c1: "cl_content c1 = ab_full b" "cl_blocks c1 = take (dc_stable_count ?p) (ab_stable b)"
    "cl_tail c1 = pushed_tail b" "cl_tail_block c1 = pushed_block b" "\<not> cl_refused c1"
    using c len parts(3,4) by (auto simp: c1_def take_content_def client_ok_def)
  define c2 where "c2 = take_stable (up_stable_append up) c1"
  have c2: "cl_content c2 = ab_full b" "cl_blocks c2 = ab_stable b"
    "cl_tail c2 = pushed_tail b" "cl_tail_block c2 = pushed_block b" "\<not> cl_refused c2"
    using c1 len parts(5) by (auto simp: c2_def take_stable_def)
  have "receive up c = take_tail (delta_tail_op env b) c2"
    using fr parts by (simp add: receive_def c2_def c1_def Let_def)
  then show ?thesis
    using take_tail_shows[OF ok b c2(3,4)] c2 by (simp add: shows_buffer_def)
qed

lemma send_delivered:
  assumes "send_aurora env force ok out b = (out', b', Some up)"
  obtains cm where "b' = commit_delivery cm b" "\<not> ro_snapshot_pending out'"
    "if ro_snapshot_pending out \<or> force then (up, cm) = prepare_snapshot_update env b
     else prepare_delta_update env b = Some (up, cm)"
  using assms by (cases "prepare_snapshot_update env b")
    (auto simp: send_aurora_def Let_def split: if_splits option.splits)

lemma delivered_frame:
  assumes "if pending \<or> force then (up, cm) = prepare_snapshot_update env b
     else prepare_delta_update env b = Some (up, cm)"
  shows "up_tail_frame up = peek_tail_frame env (pending \<or> force) b \<and>
    cm = commit_of env (up_tail_frame up \<noteq> None) b"
  using assms
  by (auto simp: prepare_snapshot_update_def prepare_delta_update_def peek_tail_frame_def Let_def split: if_splits)

lemma deliver_ok:
  assumes ok: "aurora_ok env" and sys: "system_ok env (out, b, c)" and seq: "unat (ab_seq b) < 2 ^ 64 - 1"
    and send: "send_aurora env force k out b = (out', b', Some up)"
  shows "system_ok env (out', b', receive up c) \<and> shows_buffer env b' (receive up c)"
proof -
  let ?snap = "ro_snapshot_pending out \<or> force"
  have b: "buffer_ok env b" and c: "client_ok (ro_snapshot_pending out) b c" using sys by auto
  obtain cm where cm: "b' = commit_delivery cm b" "\<not> ro_snapshot_pending out'"
    "if ?snap then (up, cm) = prepare_snapshot_update env b else prepare_delta_update env b = Some (up, cm)"
    by (rule send_delivered[OF send])
  note frame = delivered_frame[OF cm(3)]
  have accepted: "frame_ok (cl_cursor c) (peek_tail_frame env ?snap b)" by (rule frame_accepted[OF c seq]) simp
  have showing: "shows_buffer env b (receive up c)"
  proof (cases ?snap)
    case True
    then show ?thesis
      using receive_snapshot[of c env b] accepted c b cm(3) by (cases "prepare_snapshot_update env b") (auto simp: client_ok_def)
  next
    case False
    then show ?thesis using receive_delta[OF ok b _ _] accepted c cm(3) by auto
  qed
  have b': "b' = commit_delivery (commit_of env (up_tail_frame up \<noteq> None) b) b" using cm(1) frame by simp
  have "case cl_cursor (receive up c) of None \<Rightarrow> ab_seq b' = 0
      | Some (e, s) \<Rightarrow> e \<le> ab_epoch b' \<and> s = ab_seq b' \<and> (\<not> ab_reset b' \<longrightarrow> e = ab_epoch b')"
    using cursor_after[OF c _ _ b', of ?snap] accepted frame by (simp add: cursor_receive)
  from client_ok_commit[OF b showing this b'] show ?thesis
    using committed[OF b b'] cm(2) showing b' by (simp add: shows_after_commit)
qed

section \<open>Reachable systems\<close>

lemma client_ok_pending: "client_ok pending b c \<Longrightarrow> client_ok True b c"
  by (auto simp: client_ok_def split: option.splits)

lemma start_ok: "system_ok env (default_output, with_stream_id env sid, new_client)"
  by (simp add: default_output_def with_stream_id_def new_client_def no_commit_def buffer_ok_def tail_ok_def
      pushed_ok_def parser_ok_def client_ok_def pushed_tail_def pushed_block_def new_parser_ok)

lemma held:
  assumes "send_aurora env force ok out b = (out', b', None)" "buffer_ok env b"
  shows "buffer_ok env b' \<and> ab_seq b' = ab_seq b \<and>
    (client_ok (ro_snapshot_pending out) b c \<longrightarrow> client_ok (ro_snapshot_pending out') b' c)"
proof -
  have "b' = b \<and> out' = out \<or> b' = discard_pending_delivery b \<and> ro_snapshot_pending out'"
    using assms(1) by (cases "prepare_snapshot_update env b")
      (auto simp: send_aurora_def Let_def split: if_splits option.splits)
  then show ?thesis
    using assms(2) discard_moves[of env b] client_ok_advances[OF client_ok_pending, of "ro_snapshot_pending out" b c]
    by (auto simp: buffer_ok_def advances_def)
qed

lemma attached_ok:
  assumes "system_ok env (out, b, c)" "ro_channel out \<noteq> Some channel" "attach_output fresh channel out = (out', True)"
    and "cl_cursor c' \<in> {None, cl_cursor c}" "\<not> cl_refused c'"
  shows "system_ok env (out', b, c') \<and> ro_snapshot_pending out' \<and> ro_channel out' = Some channel \<and> \<not> ro_closed out'"
  using assms by (auto simp: attach_output_def client_ok_def split: if_splits option.splits)

lemma same_pending:
  "attach_output fresh channel out = (out', answer) \<Longrightarrow> ro_channel out = Some channel \<Longrightarrow>
     ro_snapshot_pending out' = ro_snapshot_pending out"
  "ro_snapshot_pending (bind_initial fresh ch out) = ro_snapshot_pending out"
  "ro_snapshot_pending (close_output out) = ro_snapshot_pending out"
  "ro_snapshot_pending (fst (send_event kind ok out)) = ro_snapshot_pending out \<or> ro_snapshot_pending (fst (send_event kind ok out))"
  by (auto simp: attach_output_def bind_initial_def close_output_def send_event_def Let_def split: if_splits)

text \<open>Frame numbers saturate, so the invariant of the consumer is claimed below the last one.\<close>

fun counted_ok :: "'h aurora_env \<Rightarrow> 'h stream_system \<Rightarrow> bool" where
  "counted_ok env (out, b, c) \<longleftrightarrow>
     buffer_ok env b \<and> (unat (ab_seq b) < 2 ^ 64 - 1 \<longrightarrow> client_ok (ro_snapshot_pending out) b c)"

lemma moved_ok:
  assumes "advances b b' \<and> buffer_ok env b'" "counted_ok env (out, b, c)"
  shows "counted_ok env (out, b', c)"
proof -
  have "ab_seq b' = ab_seq b" "pushed_ok env b" using assms by (auto simp: advances_def buffer_ok_def)
  then show ?thesis using assms client_ok_advances[of "ro_snapshot_pending out" b c env b'] by simp
qed

lemma seq_up: "unat (ab_seq b) \<le> unat (ab_seq (commit_delivery cm b))"
  using sat_add_ge by (auto simp: commit_delivery_def Let_def word_le_nat_alt)

lemma delivered_buffer_ok:
  assumes "buffer_ok env b" "send_aurora env force k out b = (out', b', Some up)"
  shows "buffer_ok env b' \<and> unat (ab_seq b) \<le> unat (ab_seq b')"
proof -
  obtain cm where cm: "b' = commit_delivery cm b"
    "if ro_snapshot_pending out \<or> force then (up, cm) = prepare_snapshot_update env b
     else prepare_delta_update env b = Some (up, cm)"
    by (rule send_delivered[OF assms(2)])
  show ?thesis using committed[OF assms(1)] delivered_frame[OF cm(2)] cm(1) seq_up by auto
qed

lemma step_ok:
  assumes ok: "aurora_ok env" and "stream_step env s s'" "counted_ok env s"
  shows "counted_ok env s'"
  using assms(2,3)
proof (induction rule: stream_step.induct)
  case (flush chunk b b' out c)
  then show ?case using moved_ok[OF flush_moves[OF ok _ flush.hyps] flush.prems] by simp
next
  case (finish b b' out c)
  then show ?case using moved_ok[OF finalize_moves[OF _ finish.hyps] finish.prems] by simp
next
  case (deliver force k out b out' b' up c)
  then show ?case using deliver_ok[OF ok _ _ deliver.hyps, of c] delivered_buffer_ok[OF _ deliver.hyps] by auto
next
  case (hold force k out b out' b' c)
  then show ?case using held[OF hold.hyps, of c] by auto
next
  case (attach out channel fresh out' c' c b)
  then show ?case using attached_ok[of env out b c channel fresh out' c'] by auto
next
  case (reattach fresh channel out out' answer b c)
  then show ?case using same_pending(1) by auto
next
  case (event out b c kind k)
  then show ?case using same_pending(4)[of kind k out] client_ok_pending by auto
qed (auto simp: same_pending)

lemma reachable_ok:
  assumes "aurora_ok env" "stream_reachable env sid s"
  shows "counted_ok env s"
  using assms(2) by (induction rule: stream_reachable.induct) (use start_ok step_ok[OF assms(1)] in auto)

lemma reachable_system_ok:
  assumes "aurora_ok env" "stream_reachable env sid (out, b, c)" "unat (ab_seq b) < 2 ^ 64 - 1"
  shows "system_ok env (out, b, c)"
  using reachable_ok[OF assms(1,2)] assms(3) by simp

lemma attached_send:
  assumes "ro_snapshot_pending out" "ro_channel out = Some channel" "\<not> ro_closed out"
  shows "\<exists>out' b' up. send_aurora env force True out b = (out', b', Some up) \<and> up_kind up = KindSnapshot"
  using assms by (auto simp: send_aurora_def prepare_snapshot_update_def send_locked_def)

section \<open>A stream to run\<close>

fun html_start :: "block_type \<Rightarrow> matcher" where
  "html_start BHtmlContainer = line_literal ''<div>''"
| "html_start _ = no_marker"

text \<open>Containers are the only blocks and never close; hashes and snapshots are what they are of.\<close>

definition html_aurora :: "unit aurora_env" where
  "html_aurora = \<lparr>ae_blocks = demo_env\<lparr>be_start := html_start, be_end := (\<lambda>_. no_marker)\<rparr>,
     ae_sha = (\<lambda>s. s), ae_diff = (\<lambda>_ _ h. ([], h)), ae_prime = (\<lambda>_ h. h), ae_clear = (),
     ae_snapshot = (\<lambda>nodes. nodes), ae_fragment = (\<lambda>t. Some (t @ ''</div>'', [drop 5 t]))\<rparr>"

lemma html_start_laws:
  "line_anchored (html_start bt)" "stable_match (html_start bt)" "settled_lines k (html_start bt)"
  by (cases bt; simp add: no_marker_laws line_literal_anchored line_literal_stable line_literal_settled newline_def)+

lemma html_start_match:
  "html_start bt t s = Some n \<Longrightarrow> bt = BHtmlContainer \<and> 0 < n"
  by (cases bt) (auto simp: line_literal_def literal_def no_marker_def split: if_splits)

lemma html_blocks_ok: "scanner_ok (demo_env\<lparr>be_start := html_start, be_end := (\<lambda>_. no_marker)\<rparr>)"
  unfolding scanner_ok_def
  by (simp add: html_start_laws no_marker_laws) (use html_start_match in blast)

lemma html_aurora_ok: "aurora_ok html_aurora"
  unfolding aurora_ok_def
  by (simp add: html_aurora_def html_blocks_ok)
    (auto simp: demo_env_def line_literal_def literal_def dest: prefix_length_le split: if_splits)

lemma u64_saturating_add_code [code]:
  "u64_saturating_add a b = (if a \<le> a + b then a + b else 18446744073709551615)"
  using no_olen_add_nat[of a b] by (simp add: u64_saturating_add_def)

fun run_sends :: "'h aurora_env \<Rightarrow> string list \<Rightarrow> request_output \<Rightarrow> 'h aurora_buffer \<Rightarrow>
    (request_output \<times> 'h aurora_buffer \<times> aurora_update option) option" where
  "run_sends env [] out b = Some (send_aurora env False True out b)"
| "run_sends env (x # xs) out b =
     (case flush_aurora_window env x b of
        None \<Rightarrow> None
      | Some b1 \<Rightarrow> (case send_aurora env False True out b1 of (out', b', _) \<Rightarrow> run_sends env xs out' b'))"

definition html_output :: request_output where
  "html_output = bind_initial 1 (Some 5) default_output"

definition html_buffer :: "unit aurora_buffer" where
  "html_buffer = the (flush_aurora_window html_aurora ''<div>a'' (with_stream_id html_aurora 1))"

lemma html_flush: "flush_aurora_window html_aurora ''<div>a'' (with_stream_id html_aurora 1) = Some html_buffer"
proof -
  have "flush_aurora_window html_aurora ''<div>a'' (with_stream_id html_aurora 1) \<noteq> None" by code_simp
  then show ?thesis by (auto simp: html_buffer_def)
qed

lemma html_reachable: "stream_reachable html_aurora 1 (html_output, html_buffer, new_client)"
proof -
  have "stream_reachable html_aurora 1 (html_output, with_stream_id html_aurora 1, new_client)"
    unfolding html_output_def by (rule stream_reachable.step[OF stream_reachable.start stream_step.bind])
  then show ?thesis by (rule stream_reachable.step) (rule stream_step.flush[OF html_flush])
qed

lemma html_seq: "unat (ab_seq html_buffer) < 2 ^ 64 - 1"
proof -
  have "ab_seq html_buffer = 0" by code_simp
  then show ?thesis by simp
qed

lemma html_send:
  "\<exists>out b up. send_aurora html_aurora False True html_output html_buffer = (out, b, Some up)"
proof -
  have "snd (snd (send_aurora html_aurora False True html_output html_buffer)) \<noteq> None" by code_simp
  then show ?thesis by (metis not_Some_eq prod.collapse)
qed

section \<open>Properties\<close>







text \<open>An open HTML container has no tree to show: the patches clear the tree that snapshots are made of,
  so the snapshot for a recovery and the one for a new consumer hold the text of the tail with an empty
  tree, and the patches after it change a container that the new consumer never built.\<close>
theorem html_tail_snapshot_is_blank:
  "map_option (\<lambda>r. (rs_mode r, rs_tail_block r, rs_tail_snapshot r)) (compile_recovery_snapshot html_aurora ''<div>a'') =
     Some (Some ModeAst, Some (SbMarkdown ''<div>a'' None ''<div>a''), []) \<and>
   (case run_sends html_aurora [''<div>a'', ''b''] (bind_initial 1 (Some 5) default_output) (with_stream_id html_aurora 1) of
      Some (out, b, _) \<Rightarrow>
        (case send_aurora html_aurora False True (fst (attach_output 2 6 out)) b of
           (out', b', up) \<Rightarrow>
             (Option.bind (Option.bind up up_tail_frame) tf_snapshot,
              case flush_aurora_window html_aurora ''c'' b' of
                Some b'' \<Rightarrow> map_option tf_mutations (peek_tail_frame html_aurora False b'')
              | None \<Rightarrow> None))
    | None \<Rightarrow> (None, None)) = (Some [], Some [MutPatchHtml t0 [] ''abc'' 0 False])"
  by code_simp

end
