(* ===== verification/Sse_Stream.thy ===== *)
theory Sse_Stream
  imports Aurora Sync_Hash
begin

text \<open>
  The transport of a streaming request (\<open>infra/vcp_client.rs\<close>): the decoder of server-sent events, the
  reading of an event and the desktop loop of \<open>handle_streaming_request\<close>, which renders on its own clock.
  \<open>serde_json::from_str\<close> is a parameter; \<open>FramedRead\<close> decodes until nothing comes and then reads on.
\<close>

section \<open>String::from_utf8_lossy\<close>

definition in_range :: "nat \<Rightarrow> nat \<Rightarrow> char \<Rightarrow> bool" where
  "in_range lo hi c \<longleftrightarrow> lo \<le> bval c \<and> bval c \<le> hi"

definition second_of_three :: "char \<Rightarrow> char \<Rightarrow> bool" where
  "second_of_three a b \<longleftrightarrow>
     (if bval a = 0xE0 then in_range 0xA0 0xBF b
      else if bval a = 0xED then in_range 0x80 0x9F b
      else in_range 0xE1 0xEF a \<and> in_range 0x80 0xBF b)"

definition second_of_four :: "char \<Rightarrow> char \<Rightarrow> bool" where
  "second_of_four a b \<longleftrightarrow>
     (if bval a = 0xF0 then in_range 0x90 0xBF b
      else if bval a = 0xF4 then in_range 0x80 0x8F b
      else in_range 0xF1 0xF3 a \<and> in_range 0x80 0xBF b)"

text \<open>The length of the sequence at the front and whether it is valid.\<close>

fun utf8_step :: "string \<Rightarrow> nat \<times> bool" where
  "utf8_step [] = (0, True)"
| "utf8_step (a # s) =
     (if bval a < 0x80 then (1, True)
      else if in_range 0xC2 0xDF a then
        (case s of b # _ \<Rightarrow> if is_cont_byte b then (2, True) else (1, False) | [] \<Rightarrow> (1, False))
      else if in_range 0xE0 0xEF a then
        (case s of
           b # s' \<Rightarrow> if second_of_three a b
             then (case s' of c # _ \<Rightarrow> if is_cont_byte c then (3, True) else (2, False) | [] \<Rightarrow> (2, False))
             else (1, False)
         | [] \<Rightarrow> (1, False))
      else if in_range 0xF0 0xF4 a then
        (case s of
           b # s' \<Rightarrow> if second_of_four a b
             then (case s' of
                 c # s'' \<Rightarrow> if is_cont_byte c
                   then (case s'' of d # _ \<Rightarrow> if is_cont_byte d then (4, True) else (3, False) | [] \<Rightarrow> (3, False))
                   else (2, False)
               | [] \<Rightarrow> (2, False))
             else (1, False)
         | [] \<Rightarrow> (1, False))
      else (1, False))"

definition replacement_char :: string where
  "replacement_char = [CHR 0xEF, CHR 0xBF, CHR 0xBD]"

function utf8_lossy :: "string \<Rightarrow> string" where
  "utf8_lossy [] = []"
| "utf8_lossy (a # s) =
     (case utf8_step (a # s) of
        (n, ok) \<Rightarrow> (if ok then take n (a # s) else replacement_char) @ utf8_lossy (drop (max 1 n) (a # s)))"
  by pat_completeness auto
termination by (relation "measure length") auto

section \<open>SseDecoder\<close>

record sse_decoder =
  sd_scanned :: nat
  sd_skip_lf :: bool
  sd_first_line_seen :: bool
  sd_data :: "string option"

definition new_decoder :: sse_decoder where
  "new_decoder = \<lparr>sd_scanned = 0, sd_skip_lf = False, sd_first_line_seen = False, sd_data = None\<rparr>"

definition is_eol :: "char \<Rightarrow> bool" where
  "is_eol c \<longleftrightarrow> c = newline \<or> c = CHR 0x0D"

definition eol_from :: "nat \<Rightarrow> string \<Rightarrow> nat option" where
  "eol_from scanned src =
     (let i = scanned + length (takeWhile (\<lambda>c. \<not> is_eol c) (drop scanned src))
      in if i < length src then Some i else None)"

definition byte_order_mark :: string where
  "byte_order_mark = [CHR 0xEF, CHR 0xBB, CHR 0xBF]"

definition strip_once :: "string \<Rightarrow> string \<Rightarrow> string" where
  "strip_once p s = (case strip_prefix p s of Some t \<Rightarrow> t | None \<Rightarrow> s)"

text \<open>\<open>split_once(':')\<close>, or the whole line and nothing.\<close>

definition sse_field :: "string \<Rightarrow> string \<times> string" where
  "sse_field line =
     (let name = takeWhile (\<lambda>c. c \<noteq> CHR 0x3A) line
      in if name = line then (line, []) else (name, drop (Suc (length name)) line))"

text \<open>One line, as it stands before its end; the event it completes, if any.\<close>

definition sse_line :: "string \<Rightarrow> sse_decoder \<Rightarrow> sse_decoder \<times> string option" where
  "sse_line raw st =
     (let line = (if sd_first_line_seen st then utf8_lossy raw else strip_once byte_order_mark (utf8_lossy raw));
          st1 = st\<lparr>sd_first_line_seen := True\<rparr>
      in if line = []
         then (case sd_data st1 of
             Some data \<Rightarrow> (st1\<lparr>sd_data := None\<rparr>, Some (butlast data))
           | None \<Rightarrow> (st1, None))
         else if hd line = CHR 0x3A then (st1, None)
         else (case sse_field line of
             (field, val) \<Rightarrow>
               if field = ''data''
               then (st1\<lparr>sd_data := Some ((case sd_data st1 of Some data \<Rightarrow> data | None \<Rightarrow> []) @
                   strip_once '' '' val @ [newline])\<rparr>, None)
               else (st1, None)))"

definition skip_line_feed :: "sse_decoder \<Rightarrow> string \<Rightarrow> string" where
  "skip_line_feed st src = (if sd_skip_lf st \<and> src \<noteq> [] \<and> hd src = newline then tl src else src)"

lemma eol_from_less: "eol_from k src = Some e \<Longrightarrow> e < length src"
  by (simp add: eol_from_def Let_def split: if_splits)

lemma eol_shorter:
  "eol_from k (skip_line_feed st src) = Some e \<Longrightarrow> length (skip_line_feed st src) - Suc e < length src"
  using eol_from_less[of k "skip_line_feed st src" e] by (auto simp: skip_line_feed_def split: if_splits)

text \<open>\<open>decode\<close>: the decoder and the bytes left, and an event.\<close>

function decode :: "sse_decoder \<Rightarrow> string \<Rightarrow> sse_decoder \<times> string \<times> string option" where
  "decode st src =
     (if sd_skip_lf st \<and> src = [] then (st, src, None)
      else
        let src1 = skip_line_feed st src;
            st1 = st\<lparr>sd_skip_lf := False\<rparr>
        in case eol_from (sd_scanned st1) src1 of
             None \<Rightarrow> (st1\<lparr>sd_scanned := length src1\<rparr>, src1, None)
           | Some e \<Rightarrow>
               (case sse_line (take e src1) (st1\<lparr>sd_scanned := 0, sd_skip_lf := (src1 ! e = CHR 0x0D)\<rparr>) of
                  (st2, Some event) \<Rightarrow> (st2, drop (Suc e) src1, Some event)
                | (st2, None) \<Rightarrow> decode st2 (drop (Suc e) src1)))"
  by pat_completeness auto
termination
  by (relation "measure (\<lambda>(st, src). length src)") (auto dest: eol_shorter)

declare decode.simps [simp del]

lemma decode_shorter: "decode st src = (st', src', Some event) \<Longrightarrow> length src' < length src"
proof (induction st src rule: decode.induct)
  case (1 st src)
  show ?case
  proof (cases "sd_skip_lf st \<and> src = [] \<or> eol_from (sd_scanned st) (skip_line_feed st src) = None")
    case True
    then show ?thesis using "1.prems" by (auto simp: decode.simps[of st src] Let_def split: if_splits)
  next
    case False
    then obtain e where e: "eol_from (sd_scanned st) (skip_line_feed st src) = Some e" by auto
    let ?src = "skip_line_feed st src"
    have le: "length (drop (Suc e) ?src) < length src"
      using eol_shorter[OF e] by simp
    obtain st2 ev where line: "sse_line (take e ?src)
        (st\<lparr>sd_skip_lf := False, sd_scanned := 0, sd_skip_lf := (?src ! e = CHR 0x0D)\<rparr>) = (st2, ev)" by fastforce
    show ?thesis
    proof (cases ev)
      case None
      then show ?thesis
        using "1.prems" "1.IH"[OF _ refl refl _ _ _, of e st2 ev] e line False le
        by (auto simp: decode.simps[of st src] Let_def)
    next
      case (Some d)
      then show ?thesis using "1.prems" e line False le by (auto simp: decode.simps[of st src] Let_def)
    qed
  qed
qed

text \<open>\<open>FramedRead\<close> over \<open>decode\<close>: every event that is there, then the next read.\<close>

function drain :: "sse_decoder \<Rightarrow> string \<Rightarrow> sse_decoder \<times> string \<times> string list" where
  "drain st src =
     (case decode st src of
        (st', src', None) \<Rightarrow> (st', src', [])
      | (st', src', Some event) \<Rightarrow>
          (case drain st' src' of (st2, src2, events) \<Rightarrow> (st2, src2, event # events)))"
  by pat_completeness auto
termination by (relation "measure (\<lambda>(st, src). length src)") (auto dest: decode_shorter[OF sym])

declare drain.simps [simp del]

fun read_chunks :: "sse_decoder \<Rightarrow> string \<Rightarrow> string list \<Rightarrow> sse_decoder \<times> string \<times> string list" where
  "read_chunks st src [] = (st, src, [])"
| "read_chunks st src (chunk # chunks) =
     (case drain st (src @ chunk) of
        (st', src', events) \<Rightarrow>
          (case read_chunks st' src' chunks of (st2, src2, events2) \<Rightarrow> (st2, src2, events @ events2)))"

text \<open>\<open>decode_eof\<close>.\<close>

definition decode_eof :: "sse_decoder \<Rightarrow> string \<Rightarrow> sse_decoder \<times> string \<times> string option" where
  "decode_eof st src =
     (case decode st src of
        (st', src', Some event) \<Rightarrow> (st', src', Some event)
      | (st', src', None) \<Rightarrow> (st'\<lparr>sd_scanned := 0, sd_data := None\<rparr>, [], None))"

text \<open>At the end of the transport \<open>decode_eof\<close> is called until it gives nothing.\<close>

lemma decode_eof_shorter: "decode_eof st src = (st', src', Some event) \<Longrightarrow> length src' < length src"
  by (auto simp: decode_eof_def split: prod.splits option.splits dest: decode_shorter)

function drain_eof :: "sse_decoder \<Rightarrow> string \<Rightarrow> string list" where
  "drain_eof st src =
     (case decode_eof st src of
        (st', src', None) \<Rightarrow> []
      | (st', src', Some event) \<Rightarrow> event # drain_eof st' src')"
  by pat_completeness auto
termination by (relation "measure (\<lambda>(st, src). length src)") (auto dest: decode_eof_shorter[OF sym])

declare drain_eof.simps [simp del]

definition sse_events :: "string list \<Rightarrow> string list" where
  "sse_events chunks =
     (case read_chunks new_decoder [] chunks of (st, src, events) \<Rightarrow> events @ drain_eof st src)"

end
