(* ===== verification/Stream_Request.thy ===== *)
theory Stream_Request
  imports Sse_Stream
begin

text \<open>
  A streaming request (\<open>handle_streaming_request\<close> of \<open>infra/vcp_client.rs\<close>), on the desktop, where the
  request reads server-sent events, and on Android, where a helper process owns the connection and sends
  frames. A run is the list of what the loop selects: transport, cancellation, notifications of a new
  consumer and ticks of the render clock, the last two with the answer of the consumer's channel.
  \<open>serde_json\<close> is a parameter.
\<close>

section \<open>JSON\<close>

fun json_get :: "string \<Rightarrow> 'f json \<Rightarrow> 'f json option" where
  "json_get k (JObj kvs) = map_of kvs k"
| "json_get k _ = None"

definition json_at :: "string \<Rightarrow> 'f json \<Rightarrow> 'f json" where
  "json_at k v = (case json_get k v of Some w \<Rightarrow> w | None \<Rightarrow> JNull)"

fun as_str :: "'f json \<Rightarrow> string option" where
  "as_str (JStr s) = Some s"
| "as_str _ = None"

fun as_bool :: "'f json \<Rightarrow> bool option" where
  "as_bool (JBool b) = Some b"
| "as_bool _ = None"

fun first_of :: "'f json \<Rightarrow> 'f json option" where
  "first_of (JArr (x # xs)) = Some x"
| "first_of _ = None"

definition get_str :: "string \<Rightarrow> 'f json \<Rightarrow> string option" where
  "get_str k v = Option.bind (json_get k v) as_str"

definition or_else :: "'a option \<Rightarrow> 'a option \<Rightarrow> 'a option" where
  "or_else a b = (case a of Some x \<Rightarrow> Some x | None \<Rightarrow> b)"

definition unwrap_or :: "'a \<Rightarrow> 'a option \<Rightarrow> 'a" where
  "unwrap_or d a = (case a of Some x \<Rightarrow> x | None \<Rightarrow> d)"

section \<open>One event\<close>

type_synonym 'f json_parser = "string \<Rightarrow> string + 'f json"

definition sse_error :: "'f json \<Rightarrow> string option" where
  "sse_error v =
     (case json_get ''error'' v of
        None \<Rightarrow> None
      | Some e \<Rightarrow> if e = JNull then None
          else Some (unwrap_or ''Upstream SSE request failed'' (or_else (as_str e) (get_str ''message'' e))))"

definition first_choice :: "'f json \<Rightarrow> 'f json option" where
  "first_choice v = Option.bind (json_get ''choices'' v) first_of"

definition choice_reason :: "'f json \<Rightarrow> string option" where
  "choice_reason choice =
     (case get_str ''finish_reason'' choice of Some r \<Rightarrow> if r = [] then None else Some r | None \<Rightarrow> None)"

definition choice_content :: "'f json \<Rightarrow> string" where
  "choice_content choice =
     unwrap_or [] (Option.bind (json_get ''delta'' choice) (get_str ''content''))"

text \<open>The result is whether the stream is done; the text and the reason are as they are left.\<close>

definition absorb_sse_data ::
  "'f json_parser \<Rightarrow> string \<Rightarrow> string \<Rightarrow> string option \<Rightarrow> (string + bool) \<times> string \<times> string option" where
  "absorb_sse_data parse data pending reason =
     (if str_trim data = ''[DONE]'' then (Inr True, pending, reason)
      else if str_trim data = [] then (Inr False, pending, reason)
      else case parse data of
        Inl e \<Rightarrow> (Inl (''Invalid SSE JSON: '' @ e), pending, reason)
      | Inr v \<Rightarrow>
          (case sse_error v of
             Some message \<Rightarrow> (Inl message, pending, reason)
           | None \<Rightarrow>
               (case first_choice v of
                  None \<Rightarrow> (Inr False, pending, reason)
                | Some choice \<Rightarrow>
                    (Inr False, pending @ choice_content choice, or_else (choice_reason choice) reason))))"

section \<open>The state of a run\<close>

record 'h run =
  rn_output :: request_output
  rn_buffer :: "'h aurora_buffer"
  rn_pending :: string
  rn_reason :: "string option"

definition new_run :: "'h aurora_env \<Rightarrow> u64 \<Rightarrow> request_output \<Rightarrow> 'h run" where
  "new_run env sid out = \<lparr>rn_output = out, rn_buffer = with_stream_id env sid, rn_pending = [], rn_reason = None\<rparr>"

definition flush_run :: "'h aurora_env \<Rightarrow> 'h run \<Rightarrow> 'h run option" where
  "flush_run env r =
     map_option (\<lambda>b. r\<lparr>rn_buffer := b, rn_pending := []\<rparr>) (flush_aurora_window env (rn_pending r) (rn_buffer r))"

definition send_run :: "'h aurora_env \<Rightarrow> bool \<Rightarrow> bool \<Rightarrow> 'h run \<Rightarrow> 'h run" where
  "send_run env force ok r =
     (case send_aurora env force ok (rn_output r) (rn_buffer r) of
        (out, b, _) \<Rightarrow> r\<lparr>rn_output := out, rn_buffer := b\<rparr>)"

definition render :: "'h aurora_env \<Rightarrow> bool \<Rightarrow> bool \<Rightarrow> 'h run \<Rightarrow> 'h run option" where
  "render env force ok r = map_option (send_run env force ok) (flush_run env r)"

text \<open>What a step of a loop says: go on, or leave it with a result.\<close>

datatype 'a loop_step = Go 'a | Leave "string + unit" 'a

section \<open>The desktop\<close>

datatype desktop_input =
    DCancelled | DNotified bool | DTick bool | DData string | DReadError string | DClosed

definition CANCELLED_BY_USER :: string where
  "CANCELLED_BY_USER = ''cancelled_by_user''"

fun desktop_step :: "'h aurora_env \<Rightarrow> 'f json_parser \<Rightarrow> desktop_input \<Rightarrow> 'h run \<Rightarrow> 'h run loop_step option" where
  "desktop_step env parse DCancelled r = Some (Leave (Inr ()) (r\<lparr>rn_reason := Some CANCELLED_BY_USER\<rparr>))"
| "desktop_step env parse (DNotified ok) r = map_option Go (render env False ok r)"
| "desktop_step env parse (DTick ok) r =
     (if rn_pending r = [] then Some (Go r) else map_option Go (render env False ok r))"
| "desktop_step env parse (DData data) r =
     (case absorb_sse_data parse data (rn_pending r) (rn_reason r) of
        (Inl e, pending, reason) \<Rightarrow> Some (Leave (Inl e) (r\<lparr>rn_pending := pending, rn_reason := reason\<rparr>))
      | (Inr fin, pending, reason) \<Rightarrow>
          Some (if fin then Leave (Inr ()) (r\<lparr>rn_pending := pending, rn_reason := reason\<rparr>)
                else Go (r\<lparr>rn_pending := pending, rn_reason := reason\<rparr>)))"
| "desktop_step env parse (DReadError e) r = Some (Leave (Inl (''SSE stream read failed: '' @ e)) r)"
| "desktop_step env parse DClosed r = Some (Leave (Inr ()) r)"

text \<open>None: the loop still waits.\<close>

fun desktop_loop :: "'h aurora_env \<Rightarrow> 'f json_parser \<Rightarrow> desktop_input list \<Rightarrow> 'h run \<Rightarrow> ((string + unit) \<times> 'h run) option" where
  "desktop_loop env parse [] r = None"
| "desktop_loop env parse (i # is) r =
     (case desktop_step env parse i r of
        None \<Rightarrow> None
      | Some (Leave outcome r') \<Rightarrow> Some (outcome, r')
      | Some (Go r') \<Rightarrow> desktop_loop env parse is r')"

text \<open>A failure: the message, the partial text and whether the helper still owns the response. A success:
  the text, the reason and whether the user cancelled.\<close>

datatype request_result =
    RequestFailed string "string option" bool
  | RequestDone string string bool

definition conclude :: "string + unit \<Rightarrow> 'h run \<Rightarrow> request_result" where
  "conclude outcome r =
     (case outcome of
        Inl message \<Rightarrow> RequestFailed message (Some (ab_full (rn_buffer r))) False
      | Inr _ \<Rightarrow> RequestDone (ab_full (rn_buffer r)) (unwrap_or ''completed'' (rn_reason r))
          (rn_reason r = Some CANCELLED_BY_USER))"

definition finish_run :: "'h aurora_env \<Rightarrow> bool \<Rightarrow> 'h run \<Rightarrow> 'h run option" where
  "finish_run env ok r =
     Option.bind (flush_run env r) (\<lambda>r1.
       map_option (\<lambda>b. send_run env False ok (r1\<lparr>rn_buffer := b\<rparr>)) (finalize_aurora env (rn_buffer r1)))"

definition desktop_request ::
  "'h aurora_env \<Rightarrow> 'f json_parser \<Rightarrow> bool \<Rightarrow> desktop_input list \<Rightarrow> 'h run \<Rightarrow> (request_result \<times> 'h run) option" where
  "desktop_request env parse ok inputs r =
     Option.bind (desktop_loop env parse inputs r) (\<lambda>(outcome, r1).
       map_option (\<lambda>r2. (conclude outcome r2, r2)) (finish_run env ok r1))"

section \<open>Android\<close>

record 'h helper_run =
  hr_run :: "'h run"
  hr_generation :: "string option"
  hr_snapshot_in_progress :: bool
  hr_snapshot_received :: bool
  hr_terminal :: bool
  hr_cancel_sent :: bool
  hr_cancelled :: bool

definition new_helper_run :: "'h aurora_env \<Rightarrow> u64 \<Rightarrow> request_output \<Rightarrow> 'h helper_run" where
  "new_helper_run env sid out = \<lparr>hr_run = new_run env sid out, hr_generation = None,
     hr_snapshot_in_progress = False, hr_snapshot_received = False, hr_terminal = False,
     hr_cancel_sent = False, hr_cancelled = False\<rparr>"

definition HELPER_SESSION_NOT_FOUND :: string where
  "HELPER_SESSION_NOT_FOUND = ''helper_session_not_found''"

text \<open>The message of \<open>STREAM_CAPACITY_EXHAUSTED\<close> is a parameter.\<close>

text \<open>A frame with the answers of the channel to a snapshot; \<open>HDeadline\<close>: the cancellation took too long.\<close>

datatype helper_input =
    HCancelled | HDeadline | HNotified bool | HTick bool | HFrame bool string | HReadError string | HClosed

definition fail_run :: "string \<Rightarrow> 'a \<Rightarrow> 'a loop_step option" where
  "fail_run message r = Some (Leave (Inl message) r)"

definition with_run :: "('h run \<Rightarrow> 'h run) \<Rightarrow> 'h helper_run \<Rightarrow> 'h helper_run" where
  "with_run f r = r\<lparr>hr_run := f (hr_run r)\<rparr>"

definition add_text :: "string \<Rightarrow> 'h helper_run \<Rightarrow> 'h helper_run" where
  "add_text t = with_run (\<lambda>r. r\<lparr>rn_pending := rn_pending r @ t\<rparr>)"

definition set_reason :: "'f json \<Rightarrow> 'h helper_run \<Rightarrow> 'h helper_run" where
  "set_reason event = with_run (\<lambda>r. r\<lparr>rn_reason := or_else (as_str (json_at ''finishReason'' event)) (rn_reason r)\<rparr>)"

text \<open>\<open>data\<close> and \<open>terminal\<close> are only taken when the snapshot of a resumed response is complete.\<close>

definition before_snapshot :: "bool \<Rightarrow> 'h helper_run \<Rightarrow> bool" where
  "before_snapshot is_resume r \<longleftrightarrow>
     hr_snapshot_in_progress r \<or> is_resume \<and> \<not> hr_snapshot_received r"

definition end_with :: "'f json \<Rightarrow> 'h helper_run \<Rightarrow> 'h helper_run loop_step option" where
  "end_with event r =
     (case as_str (json_at ''error'' event) of Some e \<Rightarrow> fail_run e r | None \<Rightarrow> Some (Leave (Inr ()) r))"

definition on_data :: "bool \<Rightarrow> 'f json \<Rightarrow> 'h helper_run \<Rightarrow> 'h helper_run loop_step option" where
  "on_data is_resume event r =
     (if before_snapshot is_resume r then fail_run ''Helper data arrived before a complete snapshot'' r
      else case as_str (json_at ''content'' event) of
        None \<Rightarrow> fail_run ''Helper data frame is missing content'' r
      | Some content \<Rightarrow> Some (Go (set_reason event (add_text content r))))"

definition on_snapshot_start :: "bool \<Rightarrow> 'h helper_run \<Rightarrow> 'h helper_run loop_step option" where
  "on_snapshot_start is_resume r =
     (if \<not> is_resume \<or> hr_snapshot_in_progress r \<or> ab_full (rn_buffer (hr_run r)) \<noteq> [] \<or> rn_pending (hr_run r) \<noteq> []
      then fail_run ''Unexpected helper snapshot boundary'' r
      else Some (Go (r\<lparr>hr_snapshot_in_progress := True\<rparr>)))"

definition on_snapshot_chunk :: "'f json \<Rightarrow> 'h helper_run \<Rightarrow> 'h helper_run loop_step option" where
  "on_snapshot_chunk event r =
     (if \<not> hr_snapshot_in_progress r then fail_run ''Helper snapshot chunk has no active snapshot'' r
      else case as_str (json_at ''content'' event) of
        None \<Rightarrow> fail_run ''Helper snapshot chunk is missing content'' r
      | Some content \<Rightarrow> Some (Go (add_text content r)))"

definition on_snapshot_end :: "'h aurora_env \<Rightarrow> bool \<Rightarrow> 'f json \<Rightarrow> 'h helper_run \<Rightarrow> 'h helper_run loop_step option" where
  "on_snapshot_end env ok event r =
     (if \<not> hr_snapshot_in_progress r then fail_run ''Helper snapshot end has no active snapshot'' r
      else case as_bool (json_at ''completed'' event) of
        None \<Rightarrow> fail_run ''Helper snapshot end is missing completion state'' r
      | Some completed \<Rightarrow>
          (case render env True ok (hr_run r) of
             None \<Rightarrow> None
           | Some run \<Rightarrow>
               let r1 = set_reason event
                     (r\<lparr>hr_snapshot_in_progress := False, hr_snapshot_received := True, hr_run := run\<rparr>)
               in if completed then end_with event (r1\<lparr>hr_terminal := True\<rparr>) else Some (Go r1)))"

definition on_terminal :: "bool \<Rightarrow> 'f json \<Rightarrow> 'h helper_run \<Rightarrow> 'h helper_run loop_step option" where
  "on_terminal is_resume event r =
     (if before_snapshot is_resume r then fail_run ''Helper terminal arrived before a complete snapshot'' r
      else end_with event (set_reason event (r\<lparr>hr_terminal := True\<rparr>)))"

definition helper_event ::
  "'h aurora_env \<Rightarrow> bool \<Rightarrow> bool \<Rightarrow> string \<Rightarrow> 'f json \<Rightarrow> 'h helper_run \<Rightarrow> 'h helper_run loop_step option" where
  "helper_event env is_resume ok kind event r =
     (if kind = ''started'' then Some (Go r)
      else if kind = ''data'' then on_data is_resume event r
      else if kind = ''snapshot_start'' then on_snapshot_start is_resume r
      else if kind = ''snapshot_chunk'' then on_snapshot_chunk event r
      else if kind = ''snapshot_end'' then on_snapshot_end env ok event r
      else if kind = ''terminal'' then on_terminal is_resume event r
      else if kind = ''error''
        then fail_run (unwrap_or ''Helper stream request failed'' (as_str (json_at ''error'' event))) r
      else fail_run ''Unknown helper stream event'' r)"

text \<open>The generation of the frame: all frames but errors carry one, and it never changes.\<close>

definition claim_generation :: "string \<Rightarrow> 'f json \<Rightarrow> 'h helper_run \<Rightarrow> string + 'h helper_run" where
  "claim_generation kind event r =
     (case as_str (json_at ''generation'' event) of
        Some g \<Rightarrow>
          (case hr_generation r of
             Some current \<Rightarrow> if current \<noteq> g then Inl ''Helper generation changed during stream'' else Inr r
           | None \<Rightarrow> Inr (r\<lparr>hr_generation := Some g\<rparr>))
      | None \<Rightarrow> if kind \<noteq> ''error'' then Inl ''Helper stream frame is missing generation'' else Inr r)"

definition helper_frame ::
  "'h aurora_env \<Rightarrow> 'f json_parser \<Rightarrow> string \<Rightarrow> string \<Rightarrow> bool \<Rightarrow> bool \<Rightarrow> string \<Rightarrow>
     'h helper_run \<Rightarrow> 'h helper_run loop_step option" where
  "helper_frame env parse capacity request_id is_resume ok frame r =
     (case parse frame of
        Inl e \<Rightarrow> fail_run (''Invalid helper stream frame: '' @ e) r
      | Inr event \<Rightarrow>
          if as_str (json_at ''requestId'' event) \<noteq> Some request_id
          then fail_run ''Helper stream identity mismatch'' r
          else
            let kind = unwrap_or [] (as_str (json_at ''eventType'' event));
                code = as_str (json_at ''code'' event)
            in if kind = ''error'' \<and> code = Some ''session_not_found'' then fail_run HELPER_SESSION_NOT_FOUND r
               else if kind = ''error'' \<and> code = Some ''capacity_exhausted'' then fail_run capacity r
               else case claim_generation kind event r of
                 Inl e \<Rightarrow> fail_run e r
               | Inr r1 \<Rightarrow> helper_event env is_resume ok kind event r1)"

fun helper_select ::
  "'h aurora_env \<Rightarrow> 'f json_parser \<Rightarrow> string \<Rightarrow> string \<Rightarrow> bool \<Rightarrow> helper_input \<Rightarrow>
     'h helper_run \<Rightarrow> 'h helper_run loop_step option" where
  "helper_select env parse capacity request_id is_resume HCancelled r = Some (Go (r\<lparr>hr_cancelled := True\<rparr>))"
| "helper_select env parse capacity request_id is_resume HDeadline r =
     (if hr_cancelled r then fail_run ''Helper cancellation did not reach its terminal state'' r else Some (Go r))"
| "helper_select env parse capacity request_id is_resume (HNotified ok) r =
     (if hr_snapshot_in_progress r then Some (Go r)
      else map_option (\<lambda>run. Go (r\<lparr>hr_run := run\<rparr>)) (render env False ok (hr_run r)))"
| "helper_select env parse capacity request_id is_resume (HTick ok) r =
     (if hr_snapshot_in_progress r \<or> rn_pending (hr_run r) = [] then Some (Go r)
      else map_option (\<lambda>run. Go (r\<lparr>hr_run := run\<rparr>)) (render env False ok (hr_run r)))"
| "helper_select env parse capacity request_id is_resume (HFrame ok frame) r =
     helper_frame env parse capacity request_id is_resume ok frame r"
| "helper_select env parse capacity request_id is_resume (HReadError e) r =
     fail_run (''Helper stream read failed: '' @ e) r"
| "helper_select env parse capacity request_id is_resume HClosed r =
     fail_run ''Helper connection closed before its terminal event'' r"

text \<open>The cancellation is passed on once the generation is known; \<open>control\<close> is the helper's answer.\<close>

definition pass_cancel :: "string + unit \<Rightarrow> 'h helper_run \<Rightarrow> string + 'h helper_run" where
  "pass_cancel control r =
     (if hr_cancelled r \<and> \<not> hr_cancel_sent r \<and> hr_generation r \<noteq> None
      then (case control of Inl e \<Rightarrow> Inl e | Inr _ \<Rightarrow> Inr (r\<lparr>hr_cancel_sent := True\<rparr>))
      else Inr r)"

fun helper_loop ::
  "'h aurora_env \<Rightarrow> 'f json_parser \<Rightarrow> string \<Rightarrow> string \<Rightarrow> bool \<Rightarrow> ((string + unit) \<times> helper_input) list \<Rightarrow>
     'h helper_run \<Rightarrow> ((string + unit) \<times> 'h helper_run) option" where
  "helper_loop env parse capacity request_id is_resume [] r = None"
| "helper_loop env parse capacity request_id is_resume ((control, i) # is) r =
     (case pass_cancel control r of
        Inl e \<Rightarrow> Some (Inl e, r)
      | Inr r0 \<Rightarrow>
          (case helper_select env parse capacity request_id is_resume i r0 of
             None \<Rightarrow> None
           | Some (Leave outcome r') \<Rightarrow> Some (outcome, r')
           | Some (Go r') \<Rightarrow> helper_loop env parse capacity request_id is_resume is r'))"

text \<open>A transport lost before the terminal event leaves the response with the helper.\<close>

definition helper_request ::
  "'h aurora_env \<Rightarrow> 'f json_parser \<Rightarrow> string \<Rightarrow> string \<Rightarrow> bool \<Rightarrow> bool \<Rightarrow>
     ((string + unit) \<times> helper_input) list \<Rightarrow> 'h helper_run \<Rightarrow> (request_result \<times> 'h helper_run) option" where
  "helper_request env parse capacity request_id is_resume ok inputs r =
     Option.bind (helper_loop env parse capacity request_id is_resume inputs r) (\<lambda>(outcome, r1).
       case outcome of
         Inl message \<Rightarrow>
           if \<not> hr_terminal r1 \<and> message \<noteq> capacity
           then
             (if is_resume \<and> \<not> hr_snapshot_received r1 then Some (RequestFailed message None True, r1)
              else map_option (\<lambda>run. (RequestFailed message (Some (ab_full (rn_buffer run))) True, r1\<lparr>hr_run := run\<rparr>))
                (render env False ok (hr_run r1)))
           else map_option (\<lambda>run. (conclude outcome run, r1\<lparr>hr_run := run\<rparr>)) (finish_run env ok (hr_run r1))
       | Inr _ \<Rightarrow> map_option (\<lambda>run. (conclude outcome run, r1\<lparr>hr_run := run\<rparr>)) (finish_run env ok (hr_run r1)))"

end
