(* ===== verification/Sse_Laws.thy ===== *)
theory Sse_Laws
  imports Sse_Stream
begin

text \<open>
  The decoder of server-sent events does not see where the reads of the transport end: every way to cut
  a stream gives the same events.
\<close>

section \<open>Line ends\<close>

lemma eol_from_append_Some:
  assumes "eol_from k src = Some e"
  shows "eol_from k (src @ x) = Some e"
proof -
  have e: "e = k + length (takeWhile (\<lambda>c. \<not> is_eol c) (drop k src))" "e < length src"
    using assms by (auto simp: eol_from_def Let_def split: if_splits)
  obtain c where c: "c \<in> set (drop k src)" "is_eol c"
  proof (rule ccontr)
    assume no: "\<not> thesis"
    have "takeWhile (\<lambda>c. \<not> is_eol c) (drop k src) = drop k src"
      unfolding takeWhile_eq_all_conv using no that by blast
    with e(1) have "e = k + length (drop k src)" by (simp only:)
    with e(2) show False by simp
  qed
  have "takeWhile (\<lambda>c. \<not> is_eol c) (drop k src @ y) = takeWhile (\<lambda>c. \<not> is_eol c) (drop k src)" for y
    using takeWhile_append1[OF c(1), of "\<lambda>c. \<not> is_eol c"] c(2) by simp
  moreover have "drop k (src @ x) = drop k src @ x" using e by simp
  ultimately show ?thesis using e by (simp add: eol_from_def Let_def)
qed

lemma eol_from_None:
  assumes "eol_from k src = None" "k \<le> length src"
  shows "\<forall>c\<in>set (drop k src). \<not> is_eol c"
proof -
  have "length (drop k src) \<le> length (takeWhile (\<lambda>c. \<not> is_eol c) (drop k src))"
    using assms by (auto simp: eol_from_def Let_def split: if_splits)
  then have "takeWhile (\<lambda>c. \<not> is_eol c) (drop k src) = drop k src"
    by (metis le_antisym length_takeWhile_le takeWhile_eq_take take_all)
  then show ?thesis by (metis takeWhile_eq_all_conv)
qed

lemma eol_from_append_None:
  assumes "eol_from k src = None" "k \<le> length src"
  shows "eol_from k (src @ x) = eol_from (length src) (src @ x)"
proof -
  have "takeWhile (\<lambda>c. \<not> is_eol c) (drop k src @ x) = drop k src @ takeWhile (\<lambda>c. \<not> is_eol c) x"
    using eol_from_None[OF assms] by (simp add: takeWhile_append)
  then show ?thesis using assms(2) by (simp add: eol_from_def Let_def)
qed

section \<open>One read more\<close>

definition decoder_ok :: "sse_decoder \<Rightarrow> string \<Rightarrow> bool" where
  "decoder_ok st src \<longleftrightarrow> sd_scanned st \<le> length src \<and> (sd_skip_lf st \<longrightarrow> sd_scanned st = 0)"

definition settled :: "sse_decoder \<Rightarrow> string \<Rightarrow> bool" where
  "settled st src \<longleftrightarrow> (if sd_skip_lf st then src = [] \<and> sd_scanned st = 0 else sd_scanned st = length src)"

lemma sse_line_kept:
  "sse_line raw st = (st', ev) \<Longrightarrow> sd_scanned st' = sd_scanned st \<and> sd_skip_lf st' = sd_skip_lf st"
  by (auto simp: sse_line_def Let_def split: if_splits option.splits prod.splits)

text \<open>One step of the decoder.\<close>

lemma decode_waits: "sd_skip_lf st \<Longrightarrow> decode st [] = (st, [], None)"
  by (simp add: decode.simps)

lemma decode_partial:
  "\<not> (sd_skip_lf st \<and> src = []) \<Longrightarrow> eol_from (sd_scanned st) (skip_line_feed st src) = None \<Longrightarrow>
     decode st src = (st\<lparr>sd_skip_lf := False, sd_scanned := length (skip_line_feed st src)\<rparr>, skip_line_feed st src, None)"
  by (auto simp: decode.simps[of st src] Let_def)

definition line_state :: "sse_decoder \<Rightarrow> string \<Rightarrow> nat \<Rightarrow> sse_decoder" where
  "line_state st src e = st\<lparr>sd_scanned := 0, sd_skip_lf := (src ! e = CHR 0x0D)\<rparr>"

lemma decode_line:
  "\<not> (sd_skip_lf st \<and> src = []) \<Longrightarrow> eol_from (sd_scanned st) (skip_line_feed st src) = Some e \<Longrightarrow>
     decode st src =
       (case sse_line (take e (skip_line_feed st src)) (line_state st (skip_line_feed st src) e) of
          (st2, Some event) \<Rightarrow> (st2, drop (Suc e) (skip_line_feed st src), Some event)
        | (st2, None) \<Rightarrow> decode st2 (drop (Suc e) (skip_line_feed st src)))"
  by (auto simp: decode.simps[of st src] Let_def line_state_def)


text \<open>The step when no line feed is to be skipped.\<close>

definition line_step :: "sse_decoder \<Rightarrow> string \<Rightarrow> sse_decoder \<times> string \<times> string option" where
  "line_step st src =
     (case eol_from (sd_scanned st) src of
        None \<Rightarrow> (st\<lparr>sd_skip_lf := False, sd_scanned := length src\<rparr>, src, None)
      | Some e \<Rightarrow>
          (case sse_line (take e src) (line_state st src e) of
             (st2, Some event) \<Rightarrow> (st2, drop (Suc e) src, Some event)
           | (st2, None) \<Rightarrow> decode st2 (drop (Suc e) src)))"

lemma decode_step: "\<not> (sd_skip_lf st \<and> src = []) \<Longrightarrow> decode st src = line_step st (skip_line_feed st src)"
  using decode_partial[of st src] decode_line[of st src]
  by (auto simp: line_step_def split: option.split)

lemma line_step_same:
  "eol_from k src = eol_from (sd_scanned st) src \<Longrightarrow>
     line_step (st\<lparr>sd_skip_lf := False, sd_scanned := k\<rparr>) src = line_step st src"
  by (simp add: line_step_def line_state_def split: option.split)

lemma skip_nothing: "\<not> sd_skip_lf st \<Longrightarrow> skip_line_feed st src = src"
  by (simp add: skip_line_feed_def)

lemma skip_append: "\<not> (sd_skip_lf st \<and> src = []) \<Longrightarrow> skip_line_feed st (src @ x) = skip_line_feed st src @ x"
  by (cases src) (auto simp: skip_line_feed_def)

lemma scanned_le: "decoder_ok st src \<Longrightarrow> sd_scanned st \<le> length (skip_line_feed st src)"
  by (auto simp: decoder_ok_def skip_line_feed_def)

lemma line_state_ok: "decoder_ok st2 src" if "sse_line raw (line_state st s e) = (st2, ev)"
  using sse_line_kept[OF that] by (simp add: decoder_ok_def line_state_def)

lemma decode_append:
  "decoder_ok st src \<Longrightarrow> decode st src = (st', src', ev) \<Longrightarrow>
     decoder_ok st' src' \<and>
     (case ev of
        Some d \<Rightarrow> decode st (src @ x) = (st', src' @ x, Some d)
      | None \<Rightarrow> settled st' src' \<and> decode st (src @ x) = decode st' (src' @ x))"
proof (induction st src arbitrary: st' src' ev rule: decode.induct)
  case (1 st src)
  let ?src = "skip_line_feed st src"
  consider (waits) "sd_skip_lf st" "src = []"
    | (partial) "\<not> (sd_skip_lf st \<and> src = [])" "eol_from (sd_scanned st) ?src = None"
    | (line) e where "\<not> (sd_skip_lf st \<and> src = [])" "eol_from (sd_scanned st) ?src = Some e" by fastforce
  then show ?case
  proof cases
    case waits
    then show ?thesis using "1.prems" by (auto simp: decode_waits settled_def decoder_ok_def)
  next
    case partial
    have st': "st' = st\<lparr>sd_skip_lf := False, sd_scanned := length ?src\<rparr>" "src' = ?src" "ev = None"
      using "1.prems"(2) decode_partial[OF partial] by auto
    have same: "decode st (src @ x) = decode st' (src' @ x)"
      using decode_step[of st "src @ x"] decode_step[of st' "?src @ x"] partial(1) skip_append[OF partial(1)]
        line_step_same[of "length ?src" "?src @ x" st]
        eol_from_append_None[OF partial(2) scanned_le[OF "1.prems"(1)], of x]
      by (auto simp: st' skip_nothing)
    then show ?thesis using st' by (simp add: settled_def decoder_ok_def)
  next
    case line
    obtain st2 ev2 where l: "sse_line (take e ?src) (line_state st ?src e) = (st2, ev2)" by fastforce
    have e: "e < length ?src" by (rule eol_from_less[OF line(2)])
    have more: "eol_from (sd_scanned st) (skip_line_feed st (src @ x)) = Some e"
      using eol_from_append_Some[OF line(2)] skip_append[OF line(1)] by simp
    have state: "line_state st (?src @ x) e = line_state st ?src e" using e by (simp add: line_state_def nth_append)
    have step: "decode st (src @ x) = (case (st2, ev2) of
        (st2, Some event) \<Rightarrow> (st2, drop (Suc e) ?src @ x, Some event)
      | (st2, None) \<Rightarrow> decode st2 (drop (Suc e) ?src @ x))"
      using decode_line[OF _ more] line(1) e l state by (auto simp: skip_append split: option.splits)
    show ?thesis
    proof (cases ev2)
      case (Some d)
      then show ?thesis
        using "1.prems"(2) decode_line[OF line] l step line_state_ok[OF l] by auto
    next
      case None
      have left: "decode st2 (drop (Suc e) ?src) = (st', src', ev)"
        using "1.prems"(2) decode_line[OF line] l None by simp
      have pair: "(st2, None) = sse_line (take e ?src) (st\<lparr>sd_skip_lf := False, sd_scanned := 0, sd_skip_lf := (?src ! e = CHR 0x0D)\<rparr>)"
        using l None by (simp add: line_state_def)
      have "decode st (src @ x) = decode st2 (drop (Suc e) ?src @ x)" using step None by simp
      then show ?thesis
        using "1.IH"[OF line(1) refl refl _ pair refl line_state_ok[OF l] left] line(2) by (simp split: option.splits)
    qed
  qed
qed

section \<open>All the events of a read\<close>

lemma settled_decode:
  assumes "settled st src"
  shows "decode st src = (st, src, None)"
proof (cases "sd_skip_lf st")
  case True
  then show ?thesis using assms by (simp add: settled_def decode_waits)
next
  case False
  then have "eol_from (sd_scanned st) (skip_line_feed st src) = None" "sd_scanned st = length src"
    using assms by (auto simp: settled_def skip_nothing eol_from_def)
  then show ?thesis using decode_partial[of st src] False by (cases st) (simp add: skip_nothing)
qed

lemma settled_drain: "settled st src \<Longrightarrow> drain st src = (st, src, [])"
  by (subst drain.simps) (simp add: settled_decode)

lemma drain_decode: "decode a b = decode c d \<Longrightarrow> drain a b = drain c d"
  by (simp only: drain.simps[of a b] drain.simps[of c d])

lemma drain_append:
  "decoder_ok st src \<Longrightarrow> drain st src = (st', src', events) \<Longrightarrow>
     decoder_ok st' src' \<and> settled st' src' \<and>
     drain st (src @ x) = (case drain st' (src' @ x) of (st2, src2, events2) \<Rightarrow> (st2, src2, events @ events2))"
proof (induction st src arbitrary: st' src' events rule: drain.induct)
  case (1 st src)
  obtain st1 src1 ev where d: "decode st src = (st1, src1, ev)" by (metis prod_cases3)
  note more = decode_append[OF "1.prems"(1) d, of x]
  show ?case
  proof (cases ev)
    case None
    then have "st' = st1 \<and> src' = src1 \<and> events = []"
      using "1.prems"(2) d by (simp add: drain.simps[of st src])
    moreover have "drain st (src @ x) = drain st1 (src1 @ x)" by (rule drain_decode) (use more None in simp)
    ultimately show ?thesis using more None by (simp split: prod.split)
  next
    case (Some event)
    obtain st2 src2 es where rest: "drain st1 src1 = (st2, src2, es)" by (metis prod_cases3)
    have result: "st' = st2" "src' = src2" "events = event # es"
      using "1.prems"(2) d Some rest drain.simps[of st src] by auto
    have "drain st (src @ x) = (case drain st1 (src1 @ x) of (st2, src2, events) \<Rightarrow> (st2, src2, event # events))"
      using more Some drain.simps[of st "src @ x"] by simp
    then show ?thesis
      using "1.IH"[OF d[symmetric] refl _ _ rest] more Some result d by (auto split: prod.splits)
  qed
qed

lemma read_chunks_concat:
  "decoder_ok st src \<Longrightarrow> settled st src \<Longrightarrow> read_chunks st src chunks = drain st (src @ concat chunks)"
proof (induction chunks arbitrary: st src)
  case Nil
  then show ?case by (simp add: settled_drain)
next
  case (Cons chunk chunks)
  obtain st1 src1 es where d: "drain st (src @ chunk) = (st1, src1, es)" by (metis prod_cases3)
  have ok: "decoder_ok st (src @ chunk)" using Cons.prems(1) by (simp add: decoder_ok_def)
  have split: "decoder_ok st1 src1" "settled st1 src1" "drain st (src @ chunk @ concat chunks) =
      (case drain st1 (src1 @ concat chunks) of (st2, src2, events2) \<Rightarrow> (st2, src2, es @ events2))"
    using drain_append[OF ok d, of "concat chunks"] by auto
  then show ?case by (simp add: d Cons.IH[OF split(1,2)])
qed

lemma new_decoder_ok: "decoder_ok new_decoder []" "settled new_decoder []"
  by (simp_all add: new_decoder_def decoder_ok_def settled_def)

lemma drain_eof_settled: "settled st src \<Longrightarrow> drain_eof st src = []"
  by (subst drain_eof.simps) (simp add: decode_eof_def settled_decode)

lemma sse_events_drain: "sse_events chunks = snd (snd (drain new_decoder (concat chunks)))"
proof -
  obtain st src es where d: "drain new_decoder (concat chunks) = (st, src, es)" by (metis prod_cases3)
  have ok: "decoder_ok new_decoder (concat chunks)" by (simp add: new_decoder_def decoder_ok_def)
  have "settled st src" using drain_append[OF ok d, of "[]"] by simp
  then show ?thesis
    using read_chunks_concat[OF new_decoder_ok, of chunks] d by (simp add: sse_events_def drain_eof_settled)
qed

section \<open>What a server writes\<close>

definition sse_text :: "string list \<Rightarrow> string" where
  "sse_text ls = concat (map (\<lambda>l. ''data: '' @ l @ [newline]) ls) @ [newline]"

definition plain_line :: "string \<Rightarrow> bool" where
  "plain_line l \<longleftrightarrow> utf8_lossy l = l \<and> (\<forall>c\<in>set l. \<not> is_eol c)"

definition at_line :: "sse_decoder \<Rightarrow> bool" where
  "at_line st \<longleftrightarrow> sd_scanned st = 0 \<and> \<not> sd_skip_lf st"

lemma decode_at_line:
  assumes "at_line st" "\<forall>c\<in>set l. \<not> is_eol c"
  shows "decode st (l @ newline # rest) =
    (case sse_line l st of (st2, Some event) \<Rightarrow> (st2, rest, Some event) | (st2, None) \<Rightarrow> decode st2 rest)"
proof -
  have "takeWhile (\<lambda>c. \<not> is_eol c) (l @ newline # rest) = l"
    using assms(2) by (simp add: takeWhile_append is_eol_def)
  then have e: "eol_from (sd_scanned st) (skip_line_feed st (l @ newline # rest)) = Some (length l)"
    using assms(1) by (simp add: at_line_def eol_from_def skip_nothing)
  have "line_state st (l @ newline # rest) (length l) = st"
    using assms(1) by (cases st) (simp add: line_state_def at_line_def newline_def)
  then show ?thesis
    using decode_line[OF _ e] assms(1) by (simp add: at_line_def skip_nothing)
qed

lemma plain_data_line:
  assumes "plain_line l"
  shows "sse_line (''data: '' @ l) st =
    (st\<lparr>sd_first_line_seen := True,
       sd_data := Some ((case sd_data st of Some d \<Rightarrow> d | None \<Rightarrow> []) @ l @ [newline])\<rparr>, None)"
  using assms
  by (simp add: plain_line_def sse_line_def Let_def in_range_def strip_once_def strip_prefix_def byte_order_mark_def
      sse_field_def)

lemma sse_blank_line:
  "sse_line [] st = (case sd_data st of
      Some d \<Rightarrow> (st\<lparr>sd_first_line_seen := True, sd_data := None\<rparr>, Some (butlast d))
    | None \<Rightarrow> (st\<lparr>sd_first_line_seen := True\<rparr>, None))"
  by (simp add: sse_line_def Let_def strip_once_def strip_prefix_def byte_order_mark_def)

lemma no_eol_data: "plain_line l \<Longrightarrow> \<forall>c\<in>set (''data: '' @ l). \<not> is_eol c"
  by (auto simp: plain_line_def is_eol_def newline_def)

lemma drain_data_lines:
  "at_line st \<Longrightarrow> list_all plain_line ls \<Longrightarrow>
     drain st (concat (map (\<lambda>l. ''data: '' @ l @ [newline]) ls) @ newline # rest) =
     drain (if ls = [] then st else st\<lparr>sd_first_line_seen := True,
       sd_data := Some ((case sd_data st of Some d \<Rightarrow> d | None \<Rightarrow> []) @ concat (map (\<lambda>l. l @ [newline]) ls))\<rparr>)
       (newline # rest)"
proof (induction ls arbitrary: st)
  case (Cons l ls)
  let ?st = "st\<lparr>sd_first_line_seen := True,
    sd_data := Some ((case sd_data st of Some d \<Rightarrow> d | None \<Rightarrow> []) @ l @ [newline])\<rparr>"
  let ?more = "concat (map (\<lambda>l. ''data: '' @ l @ [newline]) ls) @ newline # rest"
  have l: "plain_line l" "list_all plain_line ls" using Cons.prems(2) by simp_all
  have "decode st ((''data: '' @ l) @ newline # ?more) = decode ?st ?more"
    using decode_at_line[OF Cons.prems(1) no_eol_data[OF l(1)]] plain_data_line[OF l(1)] by simp
  then have "drain st ((''data: '' @ l) @ newline # ?more) = drain ?st ?more" by (rule drain_decode)
  moreover have "at_line ?st" using Cons.prems(1) by (simp add: at_line_def)
  ultimately show ?case using Cons.IH[OF _ l(2), of ?st] by (cases ls) simp_all
qed simp

lemma str_join_lines: "ls \<noteq> [] \<Longrightarrow> butlast (concat (map (\<lambda>l. l @ [newline]) ls)) = str_join [newline] ls"
proof (induction ls)
  case (Cons l ls)
  then show ?case by (cases ls) (auto simp: butlast_append)
qed simp

lemma drain_event:
  assumes "at_line st" "sd_data st = None" "list_all plain_line ls" "ls \<noteq> []"
  shows "drain st (sse_text ls @ rest) =
    (case drain (st\<lparr>sd_first_line_seen := True\<rparr>) rest of
       (st2, src2, events) \<Rightarrow> (st2, src2, str_join [newline] ls # events))"
proof -
  let ?d = "concat (map (\<lambda>l. l @ [newline]) ls)"
  let ?st = "st\<lparr>sd_first_line_seen := True, sd_data := Some ?d\<rparr>"
  have "drain st (sse_text ls @ rest) = drain ?st (newline # rest)"
    using drain_data_lines[OF assms(1,3), of rest] assms(2,4) by (simp add: sse_text_def)
  moreover have "decode ?st ([] @ newline # rest) = (st\<lparr>sd_first_line_seen := True, sd_data := None\<rparr>, rest, Some (butlast ?d))"
    using decode_at_line[of ?st "[]" rest] assms(1) by (simp add: at_line_def sse_blank_line)
  moreover have "st\<lparr>sd_first_line_seen := True, sd_data := None\<rparr> = st\<lparr>sd_first_line_seen := True\<rparr>"
    using assms(2) by (cases st) simp
  ultimately show ?thesis
    using str_join_lines[OF assms(4)] drain.simps[of ?st "newline # rest"] by simp
qed

lemma drain_events:
  "at_line st \<Longrightarrow> sd_data st = None \<Longrightarrow> \<forall>ls\<in>set evs. ls \<noteq> [] \<and> list_all plain_line ls \<Longrightarrow>
     snd (snd (drain st (concat (map sse_text evs)))) = map (str_join [newline]) evs"
proof (induction evs arbitrary: st)
  case Nil
  have "settled st []" using Nil.prems(1) by (simp add: settled_def at_line_def)
  then show ?case by (simp add: settled_drain)
next
  case (Cons ls evs)
  have "at_line (st\<lparr>sd_first_line_seen := True\<rparr>)" using Cons.prems(1) by (simp add: at_line_def)
  then show ?case
    using Cons.IH[of "st\<lparr>sd_first_line_seen := True\<rparr>"] Cons.prems drain_event[of st ls "concat (map sse_text evs)"]
    by (simp split: prod.splits)
qed

section \<open>Properties\<close>

text \<open>C21. Reads do not show: however the transport cuts the bytes, within a line, between the two bytes of
  a line end or inside a character, the decoder gives the events it gives for the whole stream at once.\<close>
theorem reads_do_not_show: "sse_events chunks = sse_events [concat chunks]"
  by (simp add: sse_events_drain)

text \<open>C39. What a server writes comes back: each event of one or more lines of UTF-8 text, written as data
  fields and a blank line, is decoded to its lines joined by line feeds, in order, however it is cut.\<close>
theorem sse_roundtrip:
  assumes "\<forall>ls\<in>set evs. ls \<noteq> [] \<and> list_all plain_line ls" "concat chunks = concat (map sse_text evs)"
  shows "sse_events chunks = map (str_join [newline]) evs"
  using drain_events[OF _ _ assms(1), of new_decoder] assms(2)
  by (simp add: sse_events_drain at_line_def new_decoder_def)

theorem sse_roundtrip_witness:
  "sse_events [''dat'', ''a: a'' @ [newline] @ ''data: b'', [newline, newline] @ ''data: '' @ [CHR 0xC3],
     [CHR 0xA9, newline, newline]] = [''a'' @ [newline] @ ''b'', [CHR 0xC3, CHR 0xA9]]"
  using sse_roundtrip[of "[[''a'', ''b''], [[CHR 0xC3, CHR 0xA9]]]" "[''dat'', ''a: a'' @ [newline] @ ''data: b'',
     [newline, newline] @ ''data: '' @ [CHR 0xC3], [CHR 0xA9, newline, newline]]"]
  by (simp add: plain_line_def in_range_def is_cont_byte_def is_eol_def newline_def sse_text_def)

end
