(* ===== verification/Stream_Request_Laws.thy ===== *)
theory Stream_Request_Laws
  imports Stream_Request Aurora_Laws Sse_Laws
begin

text \<open>
  The result of a request is decided by its transport: rendering, consumers that come and go and the
  answers of their channels do not show in it; the text is what the transport brought, in order.
\<close>

section \<open>Rendering keeps the text\<close>

definition run_text :: "'h run \<Rightarrow> string" where
  "run_text r = ab_full (rn_buffer r) @ rn_pending r"

lemma process_total: "markers_nonempty env \<Longrightarrow> \<exists>r. process env st t = Some r"
  using loop_terminates_pending[of env] by (fastforce simp: process_def Let_def)

lemma process_queue_text:
  assumes "markers_nonempty (ae_blocks env)"
  shows "\<exists>b' r. process_queue env b = Some (b', r) \<and> ab_full b' = ab_full b"
proof (cases "ab_finishing b")
  case True
  then show ?thesis by (auto simp: process_queue_def)
next
  case False
  obtain blocks raw rt st where p: "process (ae_blocks env) (ab_parser b) (ab_full b) = Some (blocks, raw, rt, st)"
    using process_total[OF assms, of "ab_parser b" "ab_full b"] by (metis prod_cases4)
  obtain tail n theme where sh: "shown_tail (ae_blocks env) raw (sp_processed st) rt = (tail, n, theme)"
    by (metis prod_cases3)
  define b1 where "b1 = (absorb_blocks env blocks (b\<lparr>ab_parser := st\<rparr>))\<lparr>ab_tail := tail\<rparr>"
  have b1: "ab_full b1 = ab_full b"
    using absorb_blocks_moves[of "b\<lparr>ab_parser := st\<rparr>" env blocks] by (auto simp: b1_def same_tail_def)
  have full: "ab_full (html_tail_step env p c f b1) = ab_full b" "ab_full (ast_tail_step env p q th f b1) = ab_full b"
    "ab_full (empty_tail_step env b1) = ab_full b" for p c f q th
    using html_tail_step_moves[of b1 env p c f] ast_tail_step_moves[of b1 env p q th f] empty_tail_step_moves[of b1 env] b1
    by (simp_all add: same_tail_def)
  show ?thesis
    using process_queue_runs[OF False p sh b1_def] full by (cases "process_queue env b") (auto split: if_splits)
qed

lemma flush_text:
  assumes "markers_nonempty (ae_blocks env)"
  shows "\<exists>b'. flush_aurora_window env x b = Some b' \<and> ab_full b' = ab_full b @ x"
  using process_queue_text[OF assms, of "append_chunk x b"]
  by (auto simp: flush_aurora_window_def append_chunk_def)

lemma send_text: "send_aurora env force ok out b = (out', b', up) \<Longrightarrow> ab_full b' = ab_full b"
  by (cases "prepare_snapshot_update env b")
    (auto simp: send_aurora_def discard_pending_delivery_def commit_delivery_def Let_def split: if_splits option.splits)

lemma render_text:
  assumes "markers_nonempty (ae_blocks env)"
  shows "\<exists>r'. render env force ok r = Some r' \<and> run_text r' = run_text r \<and> rn_reason r' = rn_reason r \<and> rn_pending r' = []"
proof -
  obtain b where b: "flush_aurora_window env (rn_pending r) (rn_buffer r) = Some b" "ab_full b = run_text r"
    using flush_text[OF assms, of "rn_pending r" "rn_buffer r"] by (auto simp: run_text_def)
  obtain out' b' up where s: "send_aurora env force ok (rn_output r) b = (out', b', up)" by (metis prod_cases3)
  show ?thesis using b s send_text[OF s] by (simp add: render_def flush_run_def send_run_def run_text_def)
qed

lemma finish_text:
  assumes "markers_nonempty (ae_blocks env)"
  shows "\<exists>r'. finish_run env ok r = Some r' \<and> ab_full (rn_buffer r') = run_text r \<and> rn_reason r' = rn_reason r"
proof -
  obtain b where b: "flush_aurora_window env (rn_pending r) (rn_buffer r) = Some b" "ab_full b = run_text r"
    using flush_text[OF assms, of "rn_pending r" "rn_buffer r"] by (auto simp: run_text_def)
  have "\<exists>b'. finalize_aurora env b = Some b' \<and> ab_full b' = ab_full b"
    using process_total[OF assms, of "ab_parser b" "ab_full b"]
    by (auto simp: finalize_aurora_def finalize_blocks_def reset_tail_def Let_def split: option.splits)
  then obtain b2 where b2: "finalize_aurora env b = Some b2" "ab_full b2 = run_text r" using b by auto
  obtain out' b' up where s: "send_aurora env False ok (rn_output r) b2 = (out', b', up)" by (metis prod_cases3)
  show ?thesis using b b2 s send_text[OF s] by (simp add: finish_run_def flush_run_def send_run_def)
qed

section \<open>The desktop, read without rendering\<close>

fun desktop_reading ::
  "'f json_parser \<Rightarrow> desktop_input list \<Rightarrow> string \<Rightarrow> string option \<Rightarrow> (string \<times> string option \<times> (string + unit)) option" where
  "desktop_reading parse [] text reason = None"
| "desktop_reading parse (DCancelled # is) text reason = Some (text, Some CANCELLED_BY_USER, Inr ())"
| "desktop_reading parse (DNotified ok # is) text reason = desktop_reading parse is text reason"
| "desktop_reading parse (DTick ok # is) text reason = desktop_reading parse is text reason"
| "desktop_reading parse (DData data # is) text reason =
     (case absorb_sse_data parse data text reason of
        (Inl e, text', reason') \<Rightarrow> Some (text', reason', Inl e)
      | (Inr fin, text', reason') \<Rightarrow>
          if fin then Some (text', reason', Inr ()) else desktop_reading parse is text' reason')"
| "desktop_reading parse (DReadError e # is) text reason = Some (text, reason, Inl (''SSE stream read failed: '' @ e))"
| "desktop_reading parse (DClosed # is) text reason = Some (text, reason, Inr ())"

definition verdict :: "string \<times> string option \<times> (string + unit) \<Rightarrow> request_result" where
  "verdict v =
     (case v of (text, reason, outcome) \<Rightarrow>
        (case outcome of
           Inl message \<Rightarrow> RequestFailed message (Some text) False
         | Inr _ \<Rightarrow> RequestDone text (unwrap_or ''completed'' reason) (reason = Some CANCELLED_BY_USER)))"

lemma absorb_after:
  "absorb_sse_data parse data (text @ pending) reason =
     (case absorb_sse_data parse data pending reason of (x, p, q) \<Rightarrow> (x, text @ p, q))"
  by (auto simp: absorb_sse_data_def split: sum.split option.split)

lemma desktop_loop_reading:
  assumes "markers_nonempty (ae_blocks env)"
  shows "map_option (\<lambda>(outcome, r'). (run_text r', rn_reason r', outcome)) (desktop_loop env parse inputs r) =
    desktop_reading parse inputs (run_text r) (rn_reason r)"
proof (induction inputs arbitrary: r)
  case (Cons i inputs)
  have data: "absorb_sse_data parse d (run_text r) (rn_reason r) =
      (case absorb_sse_data parse d (rn_pending r) (rn_reason r) of (x, p, q) \<Rightarrow> (x, ab_full (rn_buffer r) @ p, q))" for d
    unfolding run_text_def by (rule absorb_after)
  show ?case
  proof (cases i)
    case (DNotified ok)
    then show ?thesis using render_text[OF assms, of False ok r] Cons.IH by auto
  next
    case (DTick ok)
    then show ?thesis using render_text[OF assms, of False ok r] Cons.IH by auto
  next
    case (DData d)
    obtain x p q where a: "absorb_sse_data parse d (rn_pending r) (rn_reason r) = (x, p, q)" by (metis prod_cases3)
    show ?thesis
      using DData a data[of d] Cons.IH[of "r\<lparr>rn_pending := p, rn_reason := q\<rparr>"] by (cases x) (auto simp: run_text_def)
  qed (simp_all add: run_text_def)
qed simp

section \<open>What the helper's frames bring\<close>

definition frame_kind :: "'f json \<Rightarrow> string" where
  "frame_kind event = unwrap_or [] (as_str (json_at ''eventType'' event))"

fun brought :: "'f json_parser \<Rightarrow> helper_input \<Rightarrow> string" where
  "brought parse (HFrame ok frame) =
     (case parse frame of
        Inr event \<Rightarrow> if frame_kind event \<in> {''data'', ''snapshot_chunk''}
          then unwrap_or [] (as_str (json_at ''content'' event)) else []
      | Inl _ \<Rightarrow> [])"
| "brought parse other = []"

text \<open>A frame that is taken is of the request and of the one generation.\<close>

fun belongs :: "'f json_parser \<Rightarrow> string \<Rightarrow> string option \<Rightarrow> helper_input \<Rightarrow> bool" where
  "belongs parse request_id g (HFrame ok frame) \<longleftrightarrow>
     (\<exists>event. parse frame = Inr event \<and> as_str (json_at ''requestId'' event) = Some request_id \<and>
        as_str (json_at ''generation'' event) = g \<and> g \<noteq> None)"
| "belongs parse request_id g other \<longleftrightarrow> True"

text \<open>What a step does to the text, the generation and the flags.\<close>

definition step_ok :: "bool \<Rightarrow> string \<Rightarrow> 'h helper_run \<Rightarrow> 'h helper_run loop_step \<Rightarrow> bool" where
  "step_ok is_resume t r st \<longleftrightarrow>
     (case st of
        Go r' \<Rightarrow> run_text (hr_run r') = run_text (hr_run r) @ t \<and> hr_terminal r' = hr_terminal r \<and>
          (hr_snapshot_received r \<longrightarrow> hr_snapshot_received r')
      | Leave (Inl e) r' \<Rightarrow> run_text (hr_run r') = run_text (hr_run r)
      | Leave (Inr _) r' \<Rightarrow> run_text (hr_run r') = run_text (hr_run r) @ t \<and> hr_terminal r' \<and>
          (is_resume \<longrightarrow> hr_snapshot_received r'))"

lemma with_run_simps [simp]:
  "hr_run (with_run f r) = f (hr_run r)" "hr_terminal (with_run f r) = hr_terminal r"
  "hr_snapshot_received (with_run f r) = hr_snapshot_received r" "hr_generation (with_run f r) = hr_generation r"
  "hr_snapshot_in_progress (with_run f r) = hr_snapshot_in_progress r"
  by (simp_all add: with_run_def)

lemma run_text_set_reason [simp]: "run_text (hr_run (set_reason event r)) = run_text (hr_run r)"
  by (simp add: set_reason_def run_text_def)

lemma run_text_add_text [simp]: "run_text (hr_run (add_text t r)) = run_text (hr_run r) @ t"
  by (simp add: add_text_def run_text_def)

lemma kept_flags [simp]:
  "hr_terminal (set_reason event r) = hr_terminal r" "hr_terminal (add_text t r) = hr_terminal r"
  "hr_snapshot_received (set_reason event r) = hr_snapshot_received r"
  "hr_snapshot_received (add_text t r) = hr_snapshot_received r"
  "hr_generation (set_reason event r) = hr_generation r" "hr_generation (add_text t r) = hr_generation r"
  by (simp_all add: set_reason_def add_text_def)

lemma fail_run_ok: "fail_run e r = Some st \<Longrightarrow> run_text (hr_run r) = run_text (hr_run r0) \<Longrightarrow> step_ok is_resume t r0 st"
  by (auto simp: fail_run_def step_ok_def)

lemma end_with_ok:
  assumes "end_with event r = Some st" "run_text (hr_run r) = run_text (hr_run r0) @ t" "hr_terminal r"
    "is_resume \<Longrightarrow> hr_snapshot_received r" "t = []"
  shows "step_ok is_resume t r0 st"
  using assms by (auto simp: end_with_def fail_run_def step_ok_def split: option.splits)

lemma on_data_ok:
  "on_data is_resume event r = Some st \<Longrightarrow> t = unwrap_or [] (as_str (json_at ''content'' event)) \<Longrightarrow>
     step_ok is_resume t r st"
  by (cases "as_str (json_at ''content'' event)")
    (auto simp: on_data_def fail_run_def step_ok_def unwrap_or_def split: if_splits)

lemma on_snapshot_start_ok: "on_snapshot_start is_resume r = Some st \<Longrightarrow> step_ok is_resume [] r st"
  by (auto simp: on_snapshot_start_def fail_run_def step_ok_def split: if_splits)

lemma on_snapshot_chunk_ok:
  "on_snapshot_chunk event r = Some st \<Longrightarrow> t = unwrap_or [] (as_str (json_at ''content'' event)) \<Longrightarrow>
     step_ok is_resume t r st"
  by (cases "as_str (json_at ''content'' event)")
    (auto simp: on_snapshot_chunk_def fail_run_def step_ok_def unwrap_or_def split: if_splits)

lemma on_terminal_ok: "on_terminal is_resume event r = Some st \<Longrightarrow> step_ok is_resume [] r st"
  by (auto simp: on_terminal_def before_snapshot_def split: if_splits intro: end_with_ok fail_run_ok)

lemma on_snapshot_end_ok:
  assumes m: "markers_nonempty (ae_blocks env)" and e: "on_snapshot_end env ok event r = Some st"
  shows "step_ok is_resume [] r st"
proof -
  obtain run where run: "render env True ok (hr_run r) = Some run" "run_text run = run_text (hr_run r)"
    using render_text[OF m, of True ok "hr_run r"] by blast
  let ?r1 = "set_reason event (r\<lparr>hr_snapshot_in_progress := False, hr_snapshot_received := True, hr_run := run\<rparr>)"
  have same: "run_text (hr_run (?r1\<lparr>hr_terminal := x\<rparr>)) = run_text (hr_run r) @ []" for x
    using run(2) by (simp add: set_reason_def run_text_def with_run_def)
  show ?thesis
  proof (cases "hr_snapshot_in_progress r")
    case False
    then show ?thesis using e by (auto simp: on_snapshot_end_def intro: fail_run_ok)
  next
    case True
    show ?thesis
    proof (cases "as_bool (json_at ''completed'' event)")
      case None
      then show ?thesis using e True by (auto simp: on_snapshot_end_def intro: fail_run_ok)
    next
      case (Some completed)
      show ?thesis
      proof (cases completed)
        case completed: True
        then have "end_with event (?r1\<lparr>hr_terminal := True\<rparr>) = Some st"
          using e True Some run(1) by (simp add: on_snapshot_end_def Let_def)
        then show ?thesis by (rule end_with_ok) (use same in simp_all)
      next
        case False
        then have "st = Go ?r1" using e True Some run(1) by (simp add: on_snapshot_end_def Let_def)
        then show ?thesis using run(2) by (simp add: step_ok_def)
      qed
    qed
  qed
qed

lemma helper_event_ok:
  assumes m: "markers_nonempty (ae_blocks env)" and e: "helper_event env is_resume ok kind event r = Some st"
    and t: "t = (if kind \<in> {''data'', ''snapshot_chunk''} then unwrap_or [] (as_str (json_at ''content'' event)) else [])"
  shows "step_ok is_resume t r st"
proof -
  have fails: "step_ok is_resume t r st" if "fail_run message r = Some st" for message
    using that by (auto intro: fail_run_ok)
  have goes: "step_ok is_resume [] r (Go r)" by (simp add: step_ok_def)
  show ?thesis
    using e fails goes on_data_ok[of is_resume event r st t] on_snapshot_start_ok[of is_resume r st]
      on_snapshot_chunk_ok[of event r st t is_resume] on_snapshot_end_ok[OF m, of ok event r st is_resume]
      on_terminal_ok[of is_resume event r st] unfolding helper_event_def t
    by (simp split: if_splits)
qed

lemma claim_generation_ok:
  assumes "claim_generation kind event r = Inr r'"
  shows "hr_run r' = hr_run r \<and> hr_terminal r' = hr_terminal r \<and> hr_snapshot_received r' = hr_snapshot_received r \<and>
    (hr_generation r \<noteq> None \<longrightarrow> hr_generation r' = hr_generation r) \<and>
    (kind \<noteq> ''error'' \<longrightarrow> hr_generation r' = as_str (json_at ''generation'' event) \<and> hr_generation r' \<noteq> None)"
  using assms by (auto simp: claim_generation_def split: option.splits if_splits)

lemma helper_frame_cases:
  assumes "helper_frame env parse capacity request_id is_resume ok frame r = Some st"
  obtains (failed) message where "fail_run message r = Some st"
    | (taken) event r1 where "parse frame = Inr event" "as_str (json_at ''requestId'' event) = Some request_id"
      "claim_generation (frame_kind event) event r = Inr r1"
      "helper_event env is_resume ok (frame_kind event) event r1 = Some st"
  using assms by (auto simp: helper_frame_def frame_kind_def Let_def split: sum.splits if_splits)

lemma helper_frame_ok:
  assumes m: "markers_nonempty (ae_blocks env)"
    and f: "helper_frame env parse capacity request_id is_resume ok frame r = Some st"
  shows "step_ok is_resume (brought parse (HFrame ok frame)) r st"
  using f
proof (cases rule: helper_frame_cases)
  case (failed message)
  then show ?thesis by (rule fail_run_ok) simp
next
  case (taken event r1)
  have "step_ok is_resume (brought parse (HFrame ok frame)) r1 st"
    by (rule helper_event_ok[OF m taken(4)]) (simp add: taken(1))
  then show ?thesis
    using claim_generation_ok[OF taken(3)] by (simp add: step_ok_def split: loop_step.splits sum.splits)
qed

lemma helper_select_ok:
  assumes m: "markers_nonempty (ae_blocks env)"
    and s: "helper_select env parse capacity request_id is_resume i r = Some st"
  shows "step_ok is_resume (brought parse i) r st"
proof -
  obtain run where run: "render env False ok (hr_run r) = Some (run ok)" "run_text (run ok) = run_text (hr_run r)" for ok
    using render_text[OF m, of False _ "hr_run r"] by metis
  show ?thesis
  proof (cases i)
    case (HFrame ok frame)
    then show ?thesis using s helper_frame_ok[OF m, of parse capacity request_id is_resume ok frame r st] by simp
  qed (use s run in \<open>auto simp: step_ok_def fail_run_def split: if_splits\<close>)
qed

text \<open>The generation only changes when a frame claims it.\<close>

fun after_step :: "'h helper_run loop_step \<Rightarrow> 'h helper_run" where
  "after_step (Go r) = r"
| "after_step (Leave outcome r) = r"

lemma fail_run_after: "fail_run message r = Some st \<Longrightarrow> st = Leave (Inl message) r"
  by (auto simp: fail_run_def)

lemma end_with_generation: "end_with event r = Some st \<Longrightarrow> hr_generation (after_step st) = hr_generation r"
  by (auto simp: end_with_def fail_run_def split: option.splits)

lemma helper_event_generation:
  assumes "helper_event env is_resume ok kind event r = Some st"
  shows "hr_generation (after_step st) = hr_generation r"
proof -
  have snapshot: "on_snapshot_end env ok event r = Some st \<Longrightarrow> ?thesis"
    by (auto simp: on_snapshot_end_def Let_def dest!: fail_run_after end_with_generation
        split: if_splits option.splits bool.splits)
  have rest: "on_data is_resume event r = Some st \<Longrightarrow> ?thesis" "on_snapshot_start is_resume r = Some st \<Longrightarrow> ?thesis"
    "on_snapshot_chunk event r = Some st \<Longrightarrow> ?thesis" "on_terminal is_resume event r = Some st \<Longrightarrow> ?thesis"
    by (auto simp: on_data_def on_snapshot_start_def on_snapshot_chunk_def on_terminal_def
        dest!: fail_run_after end_with_generation split: if_splits option.splits)
  have fails: "fail_run message r = Some st \<Longrightarrow> ?thesis" for message by (auto dest: fail_run_after)
  show ?thesis using assms snapshot rest fails unfolding helper_event_def by (auto split: if_splits)
qed

lemma error_events_fail: "helper_event env is_resume ok ''error'' event r = Some st \<Longrightarrow> \<exists>message. fail_run message r = Some st"
  by (auto simp: helper_event_def)

definition step_belongs :: "'f json_parser \<Rightarrow> string \<Rightarrow> helper_input \<Rightarrow> 'h helper_run \<Rightarrow> 'h helper_run loop_step \<Rightarrow> bool" where
  "step_belongs parse request_id i r st \<longleftrightarrow>
     (hr_generation r \<noteq> None \<longrightarrow> hr_generation (after_step st) = hr_generation r) \<and>
     ((\<exists>message r'. st = Leave (Inl message) r') \<or> belongs parse request_id (hr_generation (after_step st)) i)"

lemma helper_select_belongs:
  assumes "helper_select env parse capacity request_id is_resume i r = Some st"
  shows "step_belongs parse request_id i r st"
proof (cases i)
  case (HFrame ok frame)
  then have "helper_frame env parse capacity request_id is_resume ok frame r = Some st" using assms by simp
  then show ?thesis
  proof (cases rule: helper_frame_cases)
    case (failed message)
    then show ?thesis by (auto simp: step_belongs_def dest: fail_run_after)
  next
    case (taken event r1)
    have gen: "hr_generation (after_step st) = hr_generation r1" by (rule helper_event_generation[OF taken(4)])
    show ?thesis
    proof (cases "frame_kind event = ''error''")
      case True
      then show ?thesis
        using error_events_fail[OF taken(4)[unfolded True]] claim_generation_ok[OF taken(3)] gen
        by (auto simp: step_belongs_def dest: fail_run_after)
    next
      case False
      then show ?thesis using claim_generation_ok[OF taken(3)] gen taken(1,2) HFrame by (auto simp: step_belongs_def)
    qed
  qed
qed (use assms in \<open>auto simp: step_belongs_def fail_run_def split: if_splits\<close>)

lemma belongs_later: "belongs parse request_id g i \<Longrightarrow> (g \<noteq> None \<Longrightarrow> g' = g) \<Longrightarrow> belongs parse request_id g' i"
  by (cases i) auto

lemma pass_cancel_kept:
  "pass_cancel control r = Inr r0 \<Longrightarrow>
     hr_run r0 = hr_run r \<and> hr_terminal r0 = hr_terminal r \<and> hr_generation r0 = hr_generation r \<and>
     hr_snapshot_received r0 = hr_snapshot_received r"
  by (auto simp: pass_cancel_def split: if_splits sum.splits)

lemma helper_loop_text:
  assumes m: "markers_nonempty (ae_blocks env)"
  shows "helper_loop env parse capacity request_id is_resume inputs r = Some (outcome, r') \<Longrightarrow>
    (hr_generation r \<noteq> None \<longrightarrow> hr_generation r' = hr_generation r) \<and>
    (outcome = Inr () \<longrightarrow> hr_terminal r' \<and> (is_resume \<longrightarrow> hr_snapshot_received r')) \<and>
    (\<exists>n. run_text (hr_run r') = run_text (hr_run r) @ concat (map (brought parse) (take n (map snd inputs))) \<and>
       (\<forall>i\<in>set (take n (map snd inputs)). belongs parse request_id (hr_generation r') i))"
proof (induction inputs arbitrary: r)
  case (Cons ci inputs)
  obtain control i where ci: "ci = (control, i)" by (cases ci)
  show ?case
  proof (cases "pass_cancel control r")
    case (Inl e)
    then show ?thesis using Cons.prems ci by (auto intro!: exI[of _ 0])
  next
    case (Inr r0)
    note kept = pass_cancel_kept[OF Inr]
    obtain st where st: "helper_select env parse capacity request_id is_resume i r0 = Some st"
      using Cons.prems ci Inr by (auto split: option.splits)
    note brings = helper_select_ok[OF m st] and gen = helper_select_belongs[OF st]
    show ?thesis
    proof (cases st)
      case (Go r1)
      then have "helper_loop env parse capacity request_id is_resume inputs r1 = Some (outcome, r')"
        using Cons.prems ci Inr st by simp
      from Cons.IH[OF this] obtain n where n: "hr_generation r1 \<noteq> None \<longrightarrow> hr_generation r' = hr_generation r1"
        "outcome = Inr () \<longrightarrow> hr_terminal r' \<and> (is_resume \<longrightarrow> hr_snapshot_received r')"
        "run_text (hr_run r') = run_text (hr_run r1) @ concat (map (brought parse) (take n (map snd inputs)))"
        "\<forall>i\<in>set (take n (map snd inputs)). belongs parse request_id (hr_generation r') i" by blast
      have one: "belongs parse request_id (hr_generation r') i"
        by (rule belongs_later[of _ _ "hr_generation r1"]) (use gen n(1) Go in \<open>auto simp: step_belongs_def\<close>)
      have "run_text (hr_run r1) = run_text (hr_run r) @ brought parse i"
        using brings kept Go by (simp add: step_ok_def)
      then show ?thesis
        using n one gen kept Go ci by (intro conjI exI[of _ "Suc n"]) (auto simp: step_belongs_def)
    next
      case (Leave out r1)
      then have same: "outcome = out" "r' = r1" using Cons.prems ci Inr st by simp_all
      have g: "hr_generation r \<noteq> None \<longrightarrow> hr_generation r1 = hr_generation r"
        using gen kept Leave by (simp add: step_belongs_def)
      show ?thesis
      proof (cases out)
        case (Inl e)
        then show ?thesis using g same brings kept Leave by (auto simp: step_ok_def intro!: exI[of _ 0])
      next
        case (Inr u)
        then show ?thesis
          using g same brings gen kept Leave ci by (auto simp: step_ok_def step_belongs_def intro!: exI[of _ 1])
      qed
    qed
  qed
qed simp

section \<open>Properties\<close>

text \<open>C20. Rendering does not show in the result of a desktop request: whatever the ticks of the render clock,
  the consumers that attach and the answers of their channels, the request ends with the text, the finish
  reason, the error and the cancellation that its transport alone gives, and it ends when that does.\<close>
theorem rendering_does_not_show:
  assumes "\<forall>bt t s. be_start (ae_blocks env) bt t s \<noteq> Some 0"
  shows "map_option fst (desktop_request env parse ok inputs (new_run env sid out)) =
    map_option verdict (desktop_reading parse inputs [] None)"
proof -
  have m: "markers_nonempty (ae_blocks env)" using assms by (simp add: markers_nonempty_def)
  have reading: "map_option (\<lambda>(outcome, r'). (run_text r', rn_reason r', outcome))
      (desktop_loop env parse inputs (new_run env sid out)) = desktop_reading parse inputs [] None"
    using desktop_loop_reading[OF m, of parse inputs "new_run env sid out"]
    by (simp add: run_text_def new_run_def with_stream_id_def)
  show ?thesis
  proof (cases "desktop_loop env parse inputs (new_run env sid out)")
    case (Some result)
    obtain outcome r where r: "result = (outcome, r)" by (cases result)
    obtain r' where "finish_run env ok r = Some r'" "ab_full (rn_buffer r') = run_text r" "rn_reason r' = rn_reason r"
      using finish_text[OF m] by blast
    then show ?thesis
      using Some r by (simp add: reading[symmetric] desktop_request_def conclude_def verdict_def split: sum.split)
  qed (simp add: reading[symmetric] desktop_request_def)
qed

text \<open>A stream to run: each frame is one letter.\<close>

fun demo_frame :: "string \<Rightarrow> string + unit json" where
  "demo_frame f =
     (let event = (\<lambda>kind more. Inr (JObj ([(''requestId'', JStr ''r''), (''generation'', JStr ''g''),
            (''eventType'', JStr kind)] @ more)))
      in if f = ''s'' then event ''snapshot_start'' []
         else if f = ''c'' then event ''snapshot_chunk'' [(''content'', JStr ''<div>'')]
         else if f = ''e'' then event ''snapshot_end'' [(''completed'', JBool False)]
         else if f = ''d'' then event ''data'' [(''content'', JStr ''cd'')]
         else if f = ''t'' then event ''terminal'' [(''finishReason'', JStr ''stop'')]
         else Inl ''bad'')"

definition demo_inputs :: "((string + unit) \<times> helper_input) list" where
  "demo_inputs = map (Pair (Inr ())) [HFrame True ''s'', HTick True, HFrame True ''c'', HFrame True ''e'',
     HFrame False ''d'', HTick True, HFrame True ''t'']"

definition demo_resume :: "(request_result \<times> unit helper_run) option" where
  "demo_resume = helper_request html_aurora demo_frame ''full'' ''r'' True True demo_inputs
     (new_helper_run html_aurora 1 html_output)"

lemma html_markers: "\<forall>bt t s. be_start (ae_blocks html_aurora) bt t s \<noteq> Some 0"
  using html_start_match by (fastforce simp: html_aurora_def)

lemma demo_resume_done:
  "\<exists>r. demo_resume = Some (RequestDone ''<div>cd'' ''stop'' False, r)"
proof -
  have "map_option fst demo_resume = Some (RequestDone ''<div>cd'' ''stop'' False)" by code_simp
  then show ?thesis by (cases demo_resume) auto
qed

theorem rendering_does_not_show_witness:
  "map_option fst (desktop_request html_aurora demo_frame False [DTick True, DNotified False, DClosed]
     (new_run html_aurora 3 html_output)) = map_option verdict (desktop_reading demo_frame [DTick True, DNotified False, DClosed] [] None)"
  by (rule rendering_does_not_show[OF html_markers])

lemma helper_request_text:
  assumes m: "markers_nonempty (ae_blocks env)"
    and run: "helper_request env parse capacity request_id is_resume ok inputs (new_helper_run env sid out) = Some (res, r')"
  shows "(case res of RequestDone t _ _ \<Rightarrow> hr_terminal r' \<and> (is_resume \<longrightarrow> hr_snapshot_received r')
      | RequestFailed message p recoverable \<Rightarrow> recoverable \<or> hr_terminal r' \<or> message = capacity) \<and>
    (\<exists>n. (\<forall>i\<in>set (take n (map snd inputs)). belongs parse request_id (hr_generation r') i) \<and>
       (\<forall>t. (\<exists>reason aborted. res = RequestDone t reason aborted) \<or>
            (\<exists>message recoverable. res = RequestFailed message (Some t) recoverable) \<longrightarrow>
          t = concat (map (brought parse) (take n (map snd inputs)))))"
proof -
  let ?r0 = "new_helper_run env sid out"
  obtain outcome r1 where loop: "helper_loop env parse capacity request_id is_resume inputs ?r0 = Some (outcome, r1)"
    using run by (auto simp: helper_request_def bind_eq_Some_conv)
  have empty: "run_text (hr_run ?r0) = []" by (simp add: run_text_def new_helper_run_def new_run_def with_stream_id_def)
  obtain n where n: "run_text (hr_run r1) = concat (map (brought parse) (take n (map snd inputs)))"
    "\<forall>i\<in>set (take n (map snd inputs)). belongs parse request_id (hr_generation r1) i"
    "outcome = Inr () \<longrightarrow> hr_terminal r1 \<and> (is_resume \<longrightarrow> hr_snapshot_received r1)"
    using helper_loop_text[OF m loop] empty by auto
  obtain run1 where run1: "finish_run env ok (hr_run r1) = Some run1" "ab_full (rn_buffer run1) = run_text (hr_run r1)"
    using finish_text[OF m] by blast
  obtain run2 where run2: "render env False ok (hr_run r1) = Some run2" "run_text run2 = run_text (hr_run r1)" "rn_pending run2 = []"
    using render_text[OF m] by blast
  have flushed: "ab_full (rn_buffer run2) = run_text (hr_run r1)" using run2(2,3) by (simp add: run_text_def)
  show ?thesis
  proof (cases outcome)
    case (Inl message)
    then show ?thesis
      using run loop run1 run2(1) flushed n
      by (auto simp: helper_request_def conclude_def split: if_splits intro!: exI[of _ n])
  next
    case (Inr u)
    then show ?thesis
      using run loop run1 n by (auto simp: helper_request_def conclude_def intro!: exI[of _ n])
  qed
qed



text \<open>C23. A request through the helper is only done, and only fails for good, on the helper's word: success
  needs the terminal event and, when resumed, the whole snapshot; a failure without the terminal event
  leaves the response with the helper, unless the helper said that all its slots were taken.\<close>
theorem helper_success_is_complete:
  assumes "\<forall>bt t s. be_start (ae_blocks env) bt t s \<noteq> Some 0"
    and "helper_request env parse capacity request_id is_resume ok inputs (new_helper_run env sid out) = Some (res, r')"
  shows "case res of RequestDone t _ _ \<Rightarrow> hr_terminal r' \<and> (is_resume \<longrightarrow> hr_snapshot_received r')
      | RequestFailed message p recoverable \<Rightarrow> recoverable \<or> hr_terminal r' \<or> message = capacity"
  using helper_request_text[OF _ assms(2)] assms(1) by (simp add: markers_nonempty_def)

theorem helper_success_is_complete_witness:
  "\<exists>r. demo_resume = Some (RequestDone ''<div>cd'' ''stop'' False, r) \<and> hr_terminal r \<and> hr_snapshot_received r"
proof -
  obtain r where r: "demo_resume = Some (RequestDone ''<div>cd'' ''stop'' False, r)" using demo_resume_done by blast
  then show ?thesis using helper_success_is_complete[OF html_markers r[unfolded demo_resume_def]] by auto
qed

end
