(* ===== verification/Sync_Tables.thy ===== *)
theory Sync_Tables
  imports Sync_Push "HOL-Library.AList"
begin

text \<open>
  The rows of the synchronised tables (\<open>migrations/0100_baseline_v2.sql\<close>), the DTOs and messages
  that are written to them (\<open>sync/sync_dto.rs\<close>, \<open>chat/chat_manager.rs\<close>) and the statements of SQLite
  that the writers use: a table is the list of its rows with their primary keys, in the order of their
  insertion; a 64-bit integer column is an \<open>int\<close>, an absent value \<open>None\<close>.
\<close>

section \<open>DTOs and messages\<close>

record 'f agent_dto =
  ag_name :: string
  ag_system_prompt :: string
  ag_model :: string
  ag_temperature :: 'f
  ag_context_token_limit :: int
  ag_max_output_tokens :: int
  ag_stream_output :: bool

text \<open>\<open>gd_member_tags\<close>: a \<open>BTreeMap\<close>, its entries in the order of their keys.\<close>

record group_dto =
  gd_name :: string
  gd_members :: "string list"
  gd_mode :: string
  gd_member_tags :: "(string \<times> string) list option"
  gd_group_prompt :: "string option"
  gd_invite_prompt :: "string option"
  gd_use_unified_model :: bool
  gd_unified_model :: "string option"
  gd_tag_match_mode :: "string option"
  gd_created_at :: int

record attachment =
  at_type :: string
  at_name :: string
  at_size :: u64
  at_src :: string
  at_hash :: "string option"
  at_status :: "string option"
  at_internal_path :: string
  at_extracted_text :: "string option"
  at_image_frames :: "string list option"
  at_thumbnail_path :: "string option"

text \<open>The fields of \<open>ChatMessage\<close> that reach the database.\<close>

record chat_message =
  cm_id :: string
  cm_role :: string
  cm_name :: "string option"
  cm_content :: string
  cm_timestamp :: u64
  cm_updated_at :: "u64 option"
  cm_agent_id :: "string option"
  cm_group_id :: "string option"
  cm_topic_id :: "string option"
  cm_is_group_message :: "bool option"
  cm_finish_reason :: "string option"
  cm_attachments :: "attachment list option"

record message_write =
  mw_message :: chat_message
  mw_render :: string
  mw_hash :: string

section \<open>Rows\<close>

record 'f agents_row =
  ar_name :: string
  ar_system_prompt :: string
  ar_mobile_system_prompt :: string
  ar_model :: string
  ar_temperature :: 'f
  ar_context_token_limit :: int
  ar_max_output_tokens :: int
  ar_stream_output :: bool
  ar_use_temperature :: bool
  ar_config_hash :: string
  ar_content_hash :: string
  ar_updated_at :: int
  ar_deleted_at :: "int option"

record groups_row =
  gr_name :: string
  gr_mode :: string
  gr_group_prompt :: "string option"
  gr_invite_prompt :: "string option"
  gr_use_unified_model :: bool
  gr_unified_model :: "string option"
  gr_tag_match_mode :: "string option"
  gr_member_tags :: string
  gr_config_hash :: string
  gr_content_hash :: string
  gr_created_at :: int
  gr_updated_at :: int
  gr_deleted_at :: "int option"

record members_row =
  mb_sort_order :: int
  mb_updated_at :: int

record avatars_row =
  vr_hash :: string
  vr_mime_type :: string
  vr_image :: string
  vr_dominant_color :: "string option"
  vr_updated_at :: int
  vr_deleted_at :: "int option"

record topics_row =
  tr_title :: string
  tr_created_at :: int
  tr_updated_at :: int
  tr_last_message_updated_at :: int
  tr_locked :: bool
  tr_unread :: bool
  tr_unread_count :: int
  tr_msg_count :: int
  tr_config_hash :: string
  tr_content_hash :: string
  tr_deleted_at :: "int option"

record messages_row =
  mr_role :: string
  mr_name :: "string option"
  mr_agent_id :: "string option"
  mr_content :: string
  mr_timestamp :: int
  mr_is_group_message :: bool
  mr_group_id :: "string option"
  mr_finish_reason :: "string option"
  mr_content_hash :: string
  mr_created_at :: int
  mr_updated_at :: int
  mr_deleted_at :: "int option"

record render_row =
  rr_content :: string
  rr_hash :: string
  rr_schema_version :: int
  rr_updated_at :: int

record relation_row =
  rl_hash :: string
  rl_display_name :: string
  rl_src :: string
  rl_status :: "string option"
  rl_created_at :: int

record attachments_row =
  xr_mime_type :: string
  xr_size :: int
  xr_internal_path :: string
  xr_extracted_text :: "string option"
  xr_image_frames :: "string option"
  xr_thumbnail_path :: "string option"
  xr_created_at :: int
  xr_updated_at :: int

text \<open>The keys of the members are group and agent, of the relations message and position; the rows of
  the full-text index have no key; \<open>tb_active\<close> are the generations that have not ended.\<close>

record 'f tables =
  tb_agents :: "(string \<times> 'f agents_row) list"
  tb_groups :: "(string \<times> groups_row) list"
  tb_members :: "((string \<times> string) \<times> members_row) list"
  tb_avatars :: "((string \<times> string) \<times> avatars_row) list"
  tb_topics :: "(topic_key \<times> topics_row) list"
  tb_messages :: "(message_key \<times> messages_row) list"
  tb_render :: "(message_key \<times> render_row) list"
  tb_fts :: "(message_key \<times> string) list"
  tb_relations :: "((message_key \<times> nat) \<times> relation_row) list"
  tb_attachments :: "(string \<times> attachments_row) list"
  tb_active :: "(message_key \<times> int) list"

section \<open>Statements\<close>

text \<open>\<open>INSERT ... ON CONFLICT DO UPDATE ... WHERE\<close>: the table and the number of changed rows.\<close>

definition sql_upsert ::
  "'k \<Rightarrow> 'r \<Rightarrow> ('r \<Rightarrow> bool) \<Rightarrow> ('r \<Rightarrow> 'r) \<Rightarrow> ('k \<times> 'r) list \<Rightarrow> ('k \<times> 'r) list \<times> nat" where
  "sql_upsert key new_row is_live set_row t =
     (case map_of t key of
        None \<Rightarrow> (t @ [(key, new_row)], 1)
      | Some old \<Rightarrow> if is_live old then (AList.update key (set_row old) t, 1) else (t, 0))"

text \<open>\<open>UPDATE ... WHERE\<close> of one row.\<close>

definition sql_update ::
  "'k \<Rightarrow> ('r \<Rightarrow> bool) \<Rightarrow> ('r \<Rightarrow> 'r) \<Rightarrow> ('k \<times> 'r) list \<Rightarrow> ('k \<times> 'r) list \<times> nat" where
  "sql_update key is_live set_row t =
     (case map_of t key of
        None \<Rightarrow> (t, 0)
      | Some old \<Rightarrow> if is_live old then (AList.update key (set_row old) t, 1) else (t, 0))"

definition sql_delete :: "('k \<times> 'r \<Rightarrow> bool) \<Rightarrow> ('k \<times> 'r) list \<Rightarrow> ('k \<times> 'r) list" where
  "sql_delete doomed t = filter (\<lambda>row. \<not> doomed row) t"

text \<open>The row of a key, if it is there and not deleted.\<close>

definition live_row :: "('r \<Rightarrow> int option) \<Rightarrow> ('k \<times> 'r) list \<Rightarrow> 'k \<Rightarrow> bool" where
  "live_row deleted_at t key = (case map_of t key of None \<Rightarrow> False | Some r \<Rightarrow> deleted_at r = None)"

lemma map_of_upsert:
  "map_of (fst (sql_upsert key new_row is_live set_row t)) k =
     (if k = key
      then (case map_of t key of
          None \<Rightarrow> Some new_row | Some old \<Rightarrow> Some (if is_live old then set_row old else old))
      else map_of t k)"
  by (auto simp: sql_upsert_def update_conv' map_add_def split: option.splits)

lemma map_of_update:
  "map_of (fst (sql_update key is_live set_row t)) k =
     (if k = key then map_option (\<lambda>old. if is_live old then set_row old else old) (map_of t key) else map_of t k)"
  by (auto simp: sql_update_def update_conv' split: option.splits)

text \<open>The keys of a table.\<close>

definition row_keys :: "('k \<times> 'r) list \<Rightarrow> 'k set" where
  "row_keys t = fst ` set t"

lemma row_keys_map_of: "k \<in> row_keys t \<longleftrightarrow> map_of t k \<noteq> None"
  by (simp add: row_keys_def map_of_eq_None_iff)

lemma keys_upsert: "row_keys (fst (sql_upsert key new_row is_live set_row t)) = insert key (row_keys t)"
  by (auto simp: row_keys_def sql_upsert_def dom_update dest: map_of_SomeD intro: rev_image_eqI split: option.splits)

lemma keys_update: "row_keys (fst (sql_update key is_live set_row t)) = row_keys t"
  by (auto simp: row_keys_def sql_update_def dom_update dest: map_of_SomeD intro: rev_image_eqI split: option.splits)

lemma distinct_upsert:
  "distinct (map fst t) \<Longrightarrow> distinct (map fst (fst (sql_upsert key new_row is_live set_row t)))"
  by (auto simp: sql_upsert_def distinct_update map_of_eq_None_iff split: option.splits)

lemma distinct_sql_update:
  "distinct (map fst t) \<Longrightarrow> distinct (map fst (fst (sql_update key is_live set_row t)))"
  by (auto simp: sql_update_def distinct_update split: option.splits)

end
