(* ===== verification/Sync_Upserts.thy ===== *)
theory Sync_Upserts
  imports Sync_Tables
begin

text \<open>
  What one task of the write queue does to the tables (\<open>rusqlite_*\<close> in
  \<open>persistence/db_write_queue.rs\<close>, the config hashes of \<open>sync/sync_hash.rs\<close>). A failure is a left
  value; the caller rolls back. The answers of the clock and of the file system are arguments, one per
  task.
\<close>

section \<open>The environment\<close>

datatype file_answer = FileRegular | FileOther | FileMissing | FileError string

text \<open>
  \<open>se_round2\<close> is a temperature rounded to two decimals, absent when that is not finite; \<open>se_now\<close> and
  \<open>se_metadata\<close> have the number of the task, \<open>se_metadata\<close> the hash and the path of the attachment;
  \<open>se_unique\<close> is SQLite's text for a second row of one key.
\<close>

record 'f store_env =
  se_sha :: "string \<Rightarrow> string"
  se_esc :: "string \<Rightarrow> string"
  se_fmt :: "'f \<Rightarrow> string"
  se_round2 :: "'f \<Rightarrow> 'f option"
  se_now :: "nat \<Rightarrow> int"
  se_metadata :: "nat \<Rightarrow> string \<Rightarrow> string \<Rightarrow> file_answer"
  se_unique :: string

definition then_do :: "string + 's \<Rightarrow> ('s \<Rightarrow> string + 't) \<Rightarrow> string + 't" where
  "then_do r f = (case r of Inl e \<Rightarrow> Inl e | Inr s \<Rightarrow> f s)"

fun each_do :: "('a \<Rightarrow> 's \<Rightarrow> string + 's) \<Rightarrow> 'a list \<Rightarrow> 's \<Rightarrow> string + 's" where
  "each_do f [] s = Inr s"
| "each_do f (x # xs) s = then_do (f x s) (each_do f xs)"

function chunks_of :: "nat \<Rightarrow> 'a list \<Rightarrow> 'a list list" where
  "chunks_of n xs = (if n = 0 \<or> xs = [] then [] else take n xs # chunks_of n (drop n xs))"
  by pat_completeness auto
termination by (relation "measure (\<lambda>(n, xs). length xs)") auto

declare chunks_of.simps [simp del]

section \<open>Config hashes\<close>

definition env_hash :: "'f store_env \<Rightarrow> 'f json \<Rightarrow> string" where
  "env_hash env v = compute_deterministic_hash (se_sha env) (se_esc env) (se_fmt env) v"

definition compute_agent_config_hash :: "'f store_env \<Rightarrow> 'f agent_dto \<Rightarrow> string" where
  "compute_agent_config_hash env dto =
     env_hash env (JObj [(''name'', JStr (ag_name dto)), (''systemPrompt'', JStr (ag_system_prompt dto)),
       (''model'', JStr (ag_model dto)),
       (''temperature'', case se_round2 env (ag_temperature dto) of None \<Rightarrow> JNull | Some x \<Rightarrow> JFloat x),
       (''contextTokenLimit'', JInt (ag_context_token_limit dto)),
       (''maxOutputTokens'', JInt (ag_max_output_tokens dto)),
       (''streamOutput'', JBool (ag_stream_output dto))])"

text \<open>The bytes of the default prompt, which is Chinese text.\<close>

definition DEFAULT_INVITE_PROMPT :: string where
  "DEFAULT_INVITE_PROMPT = map char_of [
     231::nat, 142, 176, 229, 156, 168, 232, 189, 174, 229, 136, 176, 228, 189, 160, 123, 123, 86, 67, 80, 67,
     104, 97, 116, 65, 103, 101, 110, 116, 78, 97, 109, 101, 125, 125, 229, 143, 145, 232, 168, 128, 228,
     186, 134, 227, 128, 130, 231, 179, 187, 231, 187, 159, 229, 183, 178, 231, 187, 143, 228, 184, 186,
     229, 164, 167, 229, 174, 182, 230, 183, 187, 229, 138, 160, 91, 120, 120, 120, 231, 154, 132, 229,
     143, 145, 232, 168, 128, 239, 188, 154, 93, 232, 191, 153, 230, 160, 183, 231, 154, 132, 230, 160,
     135, 232, 174, 176, 229, 164, 180, 239, 188, 140, 228, 187, 165, 231, 148, 168, 228, 186, 142, 229,
     140, 186, 229, 136, 134, 228, 184, 141, 229, 144, 140, 229, 143, 145, 232, 168, 128, 230, 157, 165,
     232, 135, 170, 232, 176, 129, 227, 128, 130, 229, 164, 167, 229, 174, 182, 228, 184, 141, 231, 148,
     168, 232, 135, 170, 229, 183, 177, 229, 134, 141, 232, 190, 147, 229, 135, 186, 232, 135, 170, 229,
     183, 177, 231, 154, 132, 229, 143, 145, 232, 168, 128, 230, 160, 135, 232, 174, 176, 229, 164, 180,
     239, 188, 140, 228, 185, 159, 228, 184, 141, 233, 156, 128, 232, 166, 129, 232, 174, 168, 232, 174,
     186, 229, 143, 145, 232, 168, 128, 230, 160, 135, 232, 174, 176, 231, 179, 187, 231, 187, 159, 239,
     188, 140, 230, 173, 163, 229, 184, 184, 232, 129, 138, 229, 164, 169, 229, 141, 179, 229, 143, 175,
     227, 128, 130]"

definition unwrap_or :: "'a option \<Rightarrow> 'a \<Rightarrow> 'a" where
  "unwrap_or x d = (case x of None \<Rightarrow> d | Some y \<Rightarrow> y)"

definition tags_json :: "(string \<times> string) list \<Rightarrow> 'f json" where
  "tags_json tags = JObj (map (\<lambda>(k, v). (k, JStr v)) tags)"

definition compute_group_config_hash :: "'f store_env \<Rightarrow> group_dto \<Rightarrow> string" where
  "compute_group_config_hash env dto =
     env_hash env (JObj [(''name'', JStr (gd_name dto)), (''members'', JArr (map JStr (gd_members dto))),
       (''mode'', JStr (gd_mode dto)), (''memberTags'', tags_json (unwrap_or (gd_member_tags dto) [])),
       (''groupPrompt'', JStr (unwrap_or (gd_group_prompt dto) [])),
       (''invitePrompt'', JStr (unwrap_or (gd_invite_prompt dto) DEFAULT_INVITE_PROMPT)),
       (''useUnifiedModel'', JBool (gd_use_unified_model dto)),
       (''unifiedModel'', JStr (unwrap_or (gd_unified_model dto) [])),
       (''tagMatchMode'', JStr (unwrap_or (gd_tag_match_mode dto) ''strict'')),
       (''createdAt'', JInt (gd_created_at dto))])"

definition serialize_member_tags :: "'f store_env \<Rightarrow> (string \<times> string) list option \<Rightarrow> string" where
  "serialize_member_tags env tags =
     (case tags of None \<Rightarrow> ''{}'' | Some ts \<Rightarrow> plain_json (se_esc env) (se_fmt env) (tags_json ts))"

section \<open>Agents, groups and avatars\<close>

definition new_agents_row :: "'f store_env \<Rightarrow> int \<Rightarrow> 'f agent_dto \<Rightarrow> 'f agents_row" where
  "new_agents_row env now dto =
     \<lparr>ar_name = ag_name dto, ar_system_prompt = ag_system_prompt dto, ar_mobile_system_prompt = [],
       ar_model = ag_model dto, ar_temperature = ag_temperature dto,
       ar_context_token_limit = ag_context_token_limit dto, ar_max_output_tokens = ag_max_output_tokens dto,
       ar_stream_output = ag_stream_output dto, ar_use_temperature = False,
       ar_config_hash = compute_agent_config_hash env dto, ar_content_hash = [], ar_updated_at = now,
       ar_deleted_at = None\<rparr>"

definition set_agents_row :: "'f store_env \<Rightarrow> int \<Rightarrow> 'f agent_dto \<Rightarrow> 'f agents_row \<Rightarrow> 'f agents_row" where
  "set_agents_row env now dto r =
     r\<lparr>ar_name := ag_name dto, ar_system_prompt := ag_system_prompt dto, ar_model := ag_model dto,
       ar_temperature := ag_temperature dto, ar_context_token_limit := ag_context_token_limit dto,
       ar_max_output_tokens := ag_max_output_tokens dto, ar_stream_output := ag_stream_output dto,
       ar_updated_at :=
         (if ar_config_hash r \<noteq> compute_agent_config_hash env dto then now else ar_updated_at r),
       ar_config_hash := compute_agent_config_hash env dto\<rparr>"

definition rusqlite_upsert_agent ::
  "'f store_env \<Rightarrow> nat \<Rightarrow> string \<Rightarrow> 'f agent_dto \<Rightarrow> 'f tables \<Rightarrow> string + 'f tables" where
  "rusqlite_upsert_agent env k i dto s =
     (if i = [] then Inl ''Agent upsert requires a non-empty id''
      else
        case sql_upsert i (new_agents_row env (se_now env k) dto) (\<lambda>r. ar_deleted_at r = None)
            (set_agents_row env (se_now env k) dto) (tb_agents s) of
          (t, changed) \<Rightarrow>
            if changed \<noteq> 1 then Inl (''Agent '' @ i @ '' is tombstoned'') else Inr (s\<lparr>tb_agents := t\<rparr>))"

definition tombstoned_agent :: "'f tables \<Rightarrow> string \<Rightarrow> bool" where
  "tombstoned_agent s member =
     (case map_of (tb_agents s) member of None \<Rightarrow> False | Some r \<Rightarrow> ar_deleted_at r \<noteq> None)"

text \<open>The members, each at its position; a second row of one agent is an error.\<close>

fun insert_members ::
  "'f store_env \<Rightarrow> string \<Rightarrow> int \<Rightarrow> nat \<Rightarrow> string list \<Rightarrow> ((string \<times> string) \<times> members_row) list \<Rightarrow>
     string + ((string \<times> string) \<times> members_row) list" where
  "insert_members env g now i [] t = Inr t"
| "insert_members env g now i (m # ms) t =
     (if map_of t (g, m) \<noteq> None then Inl (se_unique env)
      else insert_members env g now (Suc i) ms
             (t @ [((g, m), \<lparr>mb_sort_order = int i, mb_updated_at = now\<rparr>)]))"

definition new_groups_row :: "'f store_env \<Rightarrow> int \<Rightarrow> group_dto \<Rightarrow> groups_row" where
  "new_groups_row env now dto =
     \<lparr>gr_name = gd_name dto, gr_mode = gd_mode dto, gr_group_prompt = gd_group_prompt dto,
       gr_invite_prompt = gd_invite_prompt dto, gr_use_unified_model = gd_use_unified_model dto,
       gr_unified_model = gd_unified_model dto, gr_tag_match_mode = gd_tag_match_mode dto,
       gr_member_tags = serialize_member_tags env (gd_member_tags dto),
       gr_config_hash = compute_group_config_hash env dto, gr_content_hash = [],
       gr_created_at = gd_created_at dto, gr_updated_at = now, gr_deleted_at = None\<rparr>"

definition set_groups_row :: "'f store_env \<Rightarrow> int \<Rightarrow> group_dto \<Rightarrow> groups_row \<Rightarrow> groups_row" where
  "set_groups_row env now dto r =
     r\<lparr>gr_name := gd_name dto, gr_mode := gd_mode dto, gr_group_prompt := gd_group_prompt dto,
       gr_invite_prompt := gd_invite_prompt dto, gr_use_unified_model := gd_use_unified_model dto,
       gr_unified_model := gd_unified_model dto, gr_tag_match_mode := gd_tag_match_mode dto,
       gr_member_tags := serialize_member_tags env (gd_member_tags dto),
       gr_created_at := gd_created_at dto,
       gr_updated_at :=
         (if gr_config_hash r \<noteq> compute_group_config_hash env dto then now else gr_updated_at r),
       gr_config_hash := compute_group_config_hash env dto\<rparr>"

definition canonical_dto :: "'f tables \<Rightarrow> group_dto \<Rightarrow> group_dto" where
  "canonical_dto s dto = dto\<lparr>gd_members := filter (\<lambda>m. \<not> tombstoned_agent s m) (gd_members dto)\<rparr>"

definition rusqlite_upsert_group ::
  "'f store_env \<Rightarrow> nat \<Rightarrow> string \<Rightarrow> group_dto \<Rightarrow> 'f tables \<Rightarrow> string + 'f tables" where
  "rusqlite_upsert_group env k i dto0 s =
     (if i = [] then Inl ''Group upsert requires a non-empty id''
      else
        let now = se_now env k;
            dto = canonical_dto s dto0
        in case sql_upsert i (new_groups_row env now dto) (\<lambda>r. gr_deleted_at r = None)
              (set_groups_row env now dto) (tb_groups s) of
             (t, changed) \<Rightarrow>
               if changed \<noteq> 1 then Inl (''Group '' @ i @ '' is tombstoned'')
               else
                 then_do
                   (insert_members env i now 0 (gd_members dto)
                      (sql_delete (\<lambda>((g, m), r). g = i) (tb_members s)))
                   (\<lambda>members. Inr (s\<lparr>tb_groups := t, tb_members := members\<rparr>)))"

definition parent_is_live :: "string \<Rightarrow> string \<Rightarrow> 'f tables \<Rightarrow> bool" where
  "parent_is_live ot oi s =
     (if ot = ''agent'' then live_row ar_deleted_at (tb_agents s) oi
      else if ot = ''group'' then live_row gr_deleted_at (tb_groups s) oi
      else ot = ''user'')"

definition new_avatars_row :: "'f store_env \<Rightarrow> int \<Rightarrow> string \<Rightarrow> string \<Rightarrow> avatars_row" where
  "new_avatars_row env now mime bytes =
     \<lparr>vr_hash = se_sha env bytes, vr_mime_type = mime, vr_image = bytes, vr_dominant_color = None,
       vr_updated_at = now, vr_deleted_at = None\<rparr>"

definition set_avatars_row :: "'f store_env \<Rightarrow> int \<Rightarrow> string \<Rightarrow> string \<Rightarrow> avatars_row \<Rightarrow> avatars_row" where
  "set_avatars_row env now mime bytes r =
     r\<lparr>vr_hash := se_sha env bytes, vr_mime_type := mime, vr_image := bytes, vr_dominant_color := None,
       vr_updated_at := now\<rparr>"

definition rusqlite_upsert_avatar ::
  "'f store_env \<Rightarrow> nat \<Rightarrow> string \<Rightarrow> string \<Rightarrow> string \<Rightarrow> string \<Rightarrow> 'f tables \<Rightarrow> string + 'f tables" where
  "rusqlite_upsert_avatar env k ot oi mime bytes s =
     (if \<not> is_valid_avatar_owner ot oi
      then Inl ''Avatar requires a non-empty owner id and a supported owner type''
      else if mime \<notin> {''image/png'', ''image/jpeg'', ''image/gif'', ''image/webp''}
      then Inl ''Avatar requires a supported image MIME type''
      else if \<not> parent_is_live ot oi s
      then Inl (''Avatar owner '' @ ot @ ''/'' @ oi @ '' is missing or deleted'')
      else
        case sql_upsert (ot, oi) (new_avatars_row env (se_now env k) mime bytes) (\<lambda>r. vr_deleted_at r = None)
            (set_avatars_row env (se_now env k) mime bytes) (tb_avatars s) of
          (t, changed) \<Rightarrow>
            if changed \<noteq> 1 then Inl (''Avatar '' @ ot @ ''/'' @ oi @ '' is tombstoned'')
            else Inr (s\<lparr>tb_avatars := t\<rparr>))"

section \<open>Topics\<close>

definition new_topics_row :: "string \<Rightarrow> int \<Rightarrow> bool \<Rightarrow> bool \<Rightarrow> string \<Rightarrow> int \<Rightarrow> topics_row" where
  "new_topics_row title created locked unread config_hash updated =
     \<lparr>tr_title = title, tr_created_at = created, tr_updated_at = updated, tr_last_message_updated_at = 0,
       tr_locked = locked, tr_unread = unread, tr_unread_count = 0, tr_msg_count = 0,
       tr_config_hash = config_hash, tr_content_hash = [], tr_deleted_at = None\<rparr>"

text \<open>The statement itself asks once more whether the owner is live.\<close>

definition topic_statement ::
  "bool \<Rightarrow> topic_key \<Rightarrow> topics_row \<Rightarrow> (topics_row \<Rightarrow> topics_row) \<Rightarrow> 'f tables \<Rightarrow> 'f tables \<times> nat" where
  "topic_statement owner_exists key new_row set_row s =
     (if owner_exists
      then (case sql_upsert key new_row (\<lambda>r. tr_deleted_at r = None) set_row (tb_topics s) of
              (t, changed) \<Rightarrow> (s\<lparr>tb_topics := t\<rparr>, changed))
      else (s, 0))"

definition set_agent_topic :: "agent_topic_dto \<Rightarrow> topics_row \<Rightarrow> topics_row" where
  "set_agent_topic dto r =
     r\<lparr>tr_title := atd_name dto, tr_created_at := atd_created_at dto, tr_locked := atd_locked dto,
       tr_unread := atd_unread dto, tr_unread_count := (if \<not> atd_unread dto then 0 else tr_unread_count r),
       tr_updated_at :=
         (if tr_config_hash r \<noteq> atd_config_hash dto then atd_updated_at dto else tr_updated_at r),
       tr_config_hash := atd_config_hash dto\<rparr>"

definition set_group_topic :: "group_topic_dto \<Rightarrow> topics_row \<Rightarrow> topics_row" where
  "set_group_topic dto r =
     r\<lparr>tr_title := gtd_name dto, tr_created_at := gtd_created_at dto,
       tr_updated_at :=
         (if tr_config_hash r \<noteq> gtd_config_hash dto then gtd_updated_at dto else tr_updated_at r),
       tr_config_hash := gtd_config_hash dto\<rparr>"

definition rusqlite_upsert_agent_topic ::
  "topic_key \<Rightarrow> agent_topic_dto \<Rightarrow> 'f tables \<Rightarrow> string + 'f tables" where
  "rusqlite_upsert_agent_topic key dto s =
     (if tk_owner_type key \<noteq> ''agent'' \<or> \<not> topic_key_is_valid key \<or> atd_id dto \<noteq> tk_topic_id key \<or>
         atd_owner_id dto \<noteq> tk_owner_id key
      then Inl ''Agent topic requires an exact agent topic identity''
      else
        let owner_exists = live_row ar_deleted_at (tb_agents s) (atd_owner_id dto)
        in if \<not> owner_exists
           then Inl (''Agent topic '' @ tk_topic_id key @ '' owner '' @ atd_owner_id dto @
                     '' is missing or deleted'')
           else
             case topic_statement owner_exists (TopicKey ''agent'' (atd_owner_id dto) (tk_topic_id key))
                 (new_topics_row (atd_name dto) (atd_created_at dto) (atd_locked dto) (atd_unread dto)
                    (atd_config_hash dto) (atd_updated_at dto))
                 (set_agent_topic dto) s of
               (s', changed) \<Rightarrow>
                 if changed \<noteq> 1
                 then Inl (''Agent topic '' @ tk_topic_id key @ '' upsert affected '' @ nat_str changed @ '' rows'')
                 else Inr s')"

definition rusqlite_upsert_group_topic ::
  "topic_key \<Rightarrow> group_topic_dto \<Rightarrow> 'f tables \<Rightarrow> string + 'f tables" where
  "rusqlite_upsert_group_topic key dto s =
     (if tk_owner_type key \<noteq> ''group'' \<or> \<not> topic_key_is_valid key \<or> gtd_id dto \<noteq> tk_topic_id key \<or>
         gtd_owner_id dto \<noteq> tk_owner_id key
      then Inl ''Group topic requires an exact group topic identity''
      else
        let owner_exists = live_row gr_deleted_at (tb_groups s) (gtd_owner_id dto)
        in if \<not> owner_exists
           then Inl (''Group topic '' @ tk_topic_id key @ '' owner '' @ gtd_owner_id dto @
                     '' is missing or deleted'')
           else
             case topic_statement owner_exists (TopicKey ''group'' (gtd_owner_id dto) (tk_topic_id key))
                 (new_topics_row (gtd_name dto) (gtd_created_at dto) True False
                    (gtd_config_hash dto) (gtd_updated_at dto))
                 (set_group_topic dto) s of
               (s', changed) \<Rightarrow>
                 if changed \<noteq> 1
                 then Inl (''Group topic '' @ tk_topic_id key @ '' upsert affected '' @ nat_str changed @ '' rows'')
                 else Inr s')"

section \<open>Messages\<close>

definition updated_at_of :: "chat_message \<Rightarrow> u64" where
  "updated_at_of msg = (case cm_updated_at msg of None \<Rightarrow> cm_timestamp msg | Some u \<Rightarrow> u)"

definition write_key :: "topic_key \<Rightarrow> message_write \<Rightarrow> message_key" where
  "write_key key w = MessageKey key (cm_id (mw_message w))"

text \<open>The row of a message before the batch.\<close>

definition existing_state :: "'f tables \<Rightarrow> topic_key \<Rightarrow> message_write \<Rightarrow> messages_row option" where
  "existing_state s key w = map_of (tb_messages s) (write_key key w)"

definition retained :: "'f tables \<Rightarrow> topic_key \<Rightarrow> message_write \<Rightarrow> bool" where
  "retained s key w =
     (case existing_state s key w of
        None \<Rightarrow> True
      | Some r \<Rightarrow>
          mr_deleted_at r = None \<and>
          (mr_content_hash r \<noteq> mw_hash w \<or> mr_updated_at r \<noteq> sint (updated_at_of (mw_message w))))"

definition new_messages_row :: "message_write \<Rightarrow> messages_row" where
  "new_messages_row w =
     (let msg = mw_message w in
      \<lparr>mr_role = cm_role msg, mr_name = cm_name msg, mr_agent_id = cm_agent_id msg,
        mr_content = cm_content msg, mr_timestamp = sint (cm_timestamp msg),
        mr_is_group_message = unwrap_or (cm_is_group_message msg) False, mr_group_id = cm_group_id msg,
        mr_finish_reason = cm_finish_reason msg, mr_content_hash = mw_hash w,
        mr_created_at = sint (cm_timestamp msg), mr_updated_at = sint (updated_at_of msg),
        mr_deleted_at = None\<rparr>)"

definition set_messages_row :: "message_write \<Rightarrow> messages_row \<Rightarrow> messages_row" where
  "set_messages_row w r =
     (new_messages_row w)\<lparr>mr_created_at := mr_created_at r, mr_deleted_at := mr_deleted_at r\<rparr>"

definition insert_message :: "topic_key \<Rightarrow> message_write \<Rightarrow> 'f tables \<Rightarrow> 'f tables" where
  "insert_message key w s =
     s\<lparr>tb_messages := fst (sql_upsert (write_key key w) (new_messages_row w) (\<lambda>r. mr_deleted_at r = None)
        (set_messages_row w) (tb_messages s))\<rparr>"

definition RENDERER_SCHEMA_VERSION :: int where "RENDERER_SCHEMA_VERSION = 1"

definition insert_render :: "int \<Rightarrow> topic_key \<Rightarrow> message_write \<Rightarrow> 'f tables \<Rightarrow> 'f tables" where
  "insert_render now key w s =
     (let new_row = \<lparr>rr_content = mw_render w, rr_hash = mw_hash w,
        rr_schema_version = RENDERER_SCHEMA_VERSION, rr_updated_at = now\<rparr>
      in s\<lparr>tb_render := fst (sql_upsert (write_key key w) new_row
           (\<lambda>r. rr_content r \<noteq> mw_render w \<or> rr_hash r \<noteq> mw_hash w \<or>
              rr_schema_version r \<noteq> RENDERER_SCHEMA_VERSION)
           (\<lambda>r. new_row) (tb_render s))\<rparr>)"

text \<open>A cached rendering is stale when the message changed and comes without a new one.\<close>

definition drops_render :: "'f tables \<Rightarrow> topic_key \<Rightarrow> message_write \<Rightarrow> bool" where
  "drops_render s0 key w \<longleftrightarrow>
     mw_render w = [] \<and>
     (case existing_state s0 key w of
        None \<Rightarrow> False | Some r \<Rightarrow> mr_deleted_at r = None \<and> mr_content_hash r \<noteq> mw_hash w)"

definition write_messages ::
  "'f tables \<Rightarrow> int \<Rightarrow> topic_key \<Rightarrow> message_write list \<Rightarrow> 'f tables \<Rightarrow> 'f tables" where
  "write_messages s0 now key chunk s =
     (let s1 = fold (insert_message key) chunk s;
          doomed = map (write_key key) (filter (drops_render s0 key) chunk);
          s2 = s1\<lparr>tb_render := sql_delete (\<lambda>(mk, r). mk \<in> set doomed) (tb_render s1)\<rparr>
      in fold (insert_render now key) (filter (\<lambda>w. mw_render w \<noteq> []) chunk) s2)"

text \<open>The full-text index follows the content.\<close>

definition fts_changed :: "'f tables \<Rightarrow> topic_key \<Rightarrow> message_write \<Rightarrow> bool" where
  "fts_changed s0 key w =
     (case existing_state s0 key w of None \<Rightarrow> True | Some r \<Rightarrow> mr_content r \<noteq> cm_content (mw_message w))"

definition write_fts :: "topic_key \<Rightarrow> message_write list \<Rightarrow> 'f tables \<Rightarrow> 'f tables" where
  "write_fts key writes s =
     (let t1 = fold (\<lambda>chunk. sql_delete (\<lambda>(mk, content). mk \<in> set chunk))
                 (chunks_of 998 (map (write_key key) writes)) (tb_fts s);
          t2 = fold (\<lambda>chunk t. t @ map (\<lambda>w. (write_key key w, cm_content (mw_message w))) chunk)
                 (chunks_of (999 div 5) writes) t1
      in s\<lparr>tb_fts := t2\<rparr>)"

section \<open>Attachments\<close>

definition coalesce :: "'a option \<Rightarrow> 'a option \<Rightarrow> 'a option" where
  "coalesce a b = (case a of None \<Rightarrow> b | Some x \<Rightarrow> Some x)"

definition new_attachments_row :: "'f store_env \<Rightarrow> attachment \<Rightarrow> int \<Rightarrow> attachments_row" where
  "new_attachments_row env att timestamp =
     \<lparr>xr_mime_type = at_type att, xr_size = sint (at_size att), xr_internal_path = at_internal_path att,
       xr_extracted_text = at_extracted_text att,
       xr_image_frames =
         map_option (\<lambda>frames. plain_json (se_esc env) (se_fmt env) (JArr (map JStr frames))) (at_image_frames att),
       xr_thumbnail_path = at_thumbnail_path att, xr_created_at = timestamp, xr_updated_at = timestamp\<rparr>"

definition attachment_differs :: "attachments_row \<Rightarrow> attachments_row \<Rightarrow> bool" where
  "attachment_differs new_row r \<longleftrightarrow>
     xr_mime_type r \<noteq> xr_mime_type new_row \<or> xr_size r \<noteq> xr_size new_row \<or>
     xr_internal_path new_row \<noteq> [] \<and> xr_internal_path r \<noteq> xr_internal_path new_row \<or>
     xr_extracted_text r = None \<and> xr_extracted_text new_row \<noteq> None \<or>
     xr_image_frames r = None \<and> xr_image_frames new_row \<noteq> None \<or>
     xr_thumbnail_path r = None \<and> xr_thumbnail_path new_row \<noteq> None"

definition set_attachments_row :: "attachments_row \<Rightarrow> attachments_row \<Rightarrow> attachments_row" where
  "set_attachments_row new_row r =
     r\<lparr>xr_mime_type := xr_mime_type new_row, xr_size := xr_size new_row,
       xr_internal_path :=
         (if xr_internal_path new_row \<noteq> [] then xr_internal_path new_row else xr_internal_path r),
       xr_extracted_text := coalesce (xr_extracted_text r) (xr_extracted_text new_row),
       xr_image_frames := coalesce (xr_image_frames r) (xr_image_frames new_row),
       xr_thumbnail_path := coalesce (xr_thumbnail_path r) (xr_thumbnail_path new_row),
       xr_updated_at := xr_updated_at new_row\<rparr>"

definition rusqlite_upsert_attachment_core ::
  "'f store_env \<Rightarrow> string \<Rightarrow> attachment \<Rightarrow> int \<Rightarrow> 'f tables \<Rightarrow> 'f tables" where
  "rusqlite_upsert_attachment_core env hash att timestamp s =
     (let new_row = new_attachments_row env att timestamp
      in s\<lparr>tb_attachments := fst (sql_upsert hash new_row (attachment_differs new_row)
            (set_attachments_row new_row) (tb_attachments s))\<rparr>)"

text \<open>\<open>trim_start_matches("file://")\<close>.\<close>

function trim_file_scheme :: "string \<Rightarrow> string" where
  "trim_file_scheme path =
     (if take 7 path = ''file://'' then trim_file_scheme (drop 7 path) else path)"
  by pat_completeness auto
termination
proof (relation "measure length")
  fix path :: string
  assume "take 7 path = ''file://''"
  then have "path \<noteq> []" by auto
  then show "(drop 7 path, path) \<in> measure length" by simp
qed simp

declare trim_file_scheme.simps [simp del]

text \<open>Where the file of an attachment is, and whether it is here; a path without a file is forgotten.\<close>

definition inspect_attachment ::
  "'f store_env \<Rightarrow> nat \<Rightarrow> string \<Rightarrow> 'f tables \<Rightarrow> string + ((string \<times> string) \<times> 'f tables)" where
  "inspect_attachment env k hash s =
     (case map_of (tb_attachments s) hash of
        None \<Rightarrow> Inl ''Query returned no rows''
      | Some row \<Rightarrow>
          let current = xr_internal_path row;
              clean = trim_file_scheme current;
              missing = (([], ''desktop_only''),
                if str_trim current \<noteq> []
                then s\<lparr>tb_attachments := fst (sql_update hash (\<lambda>r. True) (\<lambda>r. r\<lparr>xr_internal_path := []\<rparr>) (tb_attachments s))\<rparr>
                else s)
          in if clean = [] then Inr missing
             else (case se_metadata env k hash clean of
                 FileRegular \<Rightarrow> Inr ((''file://'' @ clean, ''ready''), s)
               | FileOther \<Rightarrow> Inr missing
               | FileMissing \<Rightarrow> Inr missing
               | FileError e \<Rightarrow> Inl (''Failed to inspect local attachment '' @ hash @ '': '' @ e)))"

record 'f attach_work =
  aw_tables :: "'f tables"
  aw_readiness :: "(string \<times> (string \<times> string)) list"
  aw_relations :: "((string \<times> nat) \<times> relation_row) list"
  aw_counts :: "(string \<times> nat) list"

definition attach_one ::
  "'f store_env \<Rightarrow> nat \<Rightarrow> chat_message \<Rightarrow> nat \<times> attachment \<Rightarrow> 'f attach_work \<Rightarrow> string + 'f attach_work" where
  "attach_one env k msg numbered w =
     (case numbered of (i, att) \<Rightarrow>
        let where_text = at_name att @ '' on message '' @ cm_id msg in
        case at_hash att of
          None \<Rightarrow> Inl (''Attachment '' @ where_text @ '' is missing its SHA-256 hash'')
        | Some hash \<Rightarrow>
            if hash \<noteq> to_ascii_lower hash \<or> \<not> is_valid_cas_hash hash
            then Inl (''Attachment '' @ where_text @ '' has an invalid SHA-256 hash'')
            else
              let timestamp = sint (cm_timestamp msg);
                  s1 = rusqlite_upsert_attachment_core env hash att timestamp (aw_tables w)
              in then_do
                   (case map_of (aw_readiness w) hash of
                      Some readiness \<Rightarrow> Inr (readiness, s1, aw_readiness w)
                    | None \<Rightarrow>
                        then_do (inspect_attachment env k hash s1)
                          (\<lambda>(readiness, s2). Inr (readiness, s2, aw_readiness w @ [(hash, readiness)])))
                   (\<lambda>(readiness, s2, cache).
                      Inr (w\<lparr>aw_tables := s2, aw_readiness := cache,
                        aw_relations := aw_relations w @
                          [((cm_id msg, i), \<lparr>rl_hash = hash, rl_display_name = at_name att,
                             rl_src = fst readiness, rl_status = Some (snd readiness),
                             rl_created_at = timestamp\<rparr>)]\<rparr>)))"

definition attach_message ::
  "'f store_env \<Rightarrow> nat \<Rightarrow> message_write \<Rightarrow> 'f attach_work \<Rightarrow> string + 'f attach_work" where
  "attach_message env k write w =
     (let msg = mw_message write;
          atts = unwrap_or (cm_attachments msg) []
      in each_do (attach_one env k msg) (zip [0..<length atts] atts)
           (w\<lparr>aw_counts := aw_counts w @ [(cm_id msg, length atts)]\<rparr>))"

definition delete_relations :: "topic_key \<Rightarrow> (string \<times> nat) list \<Rightarrow> 'f tables \<Rightarrow> 'f tables" where
  "delete_relations key desired s =
     s\<lparr>tb_relations :=
         sql_delete (\<lambda>((mk, position), r).
             mk_topic mk = key \<and> list_ex (\<lambda>(i, n). i = mk_msg_id mk \<and> n \<le> position) desired)
           (tb_relations s)\<rparr>"

definition insert_relation :: "topic_key \<Rightarrow> (string \<times> nat) \<times> relation_row \<Rightarrow> 'f tables \<Rightarrow> 'f tables" where
  "insert_relation key rel s =
     (case rel of ((i, position), row) \<Rightarrow>
        s\<lparr>tb_relations := fst (sql_upsert (MessageKey key i, position) row (\<lambda>r. r \<noteq> row) (\<lambda>r. row)
            (tb_relations s))\<rparr>)"

definition content_changed :: "'f tables \<Rightarrow> topic_key \<Rightarrow> message_write \<Rightarrow> bool" where
  "content_changed s0 key w =
     (case existing_state s0 key w of None \<Rightarrow> True | Some r \<Rightarrow> mr_content_hash r \<noteq> mw_hash w)"

definition write_attachments ::
  "'f store_env \<Rightarrow> nat \<Rightarrow> 'f tables \<Rightarrow> topic_key \<Rightarrow> message_write list \<Rightarrow> 'f tables \<Rightarrow> string + 'f tables" where
  "write_attachments env k s0 key writes s =
     then_do
       (each_do (attach_message env k) (filter (content_changed s0 key) writes)
          \<lparr>aw_tables = s, aw_readiness = [], aw_relations = [], aw_counts = []\<rparr>)
       (\<lambda>w. let s1 = fold (delete_relations key) (chunks_of 400 (aw_counts w)) (aw_tables w)
            in Inr (fold (\<lambda>chunk. fold (insert_relation key) chunk) (chunks_of (999 div 10) (aw_relations w)) s1))"

section \<open>A batch of messages\<close>

definition foreign_topic :: "topic_key \<Rightarrow> message_write \<Rightarrow> bool" where
  "foreign_topic key w =
     (case cm_topic_id (mw_message w) of None \<Rightarrow> False | Some t \<Rightarrow> t \<noteq> tk_topic_id key)"

definition unsafe_time :: "message_write \<Rightarrow> bool" where
  "unsafe_time w \<longleftrightarrow> 2 ^ 53 - 1 < uint (updated_at_of (mw_message w))"

definition rusqlite_upsert_messages_batch ::
  "'f store_env \<Rightarrow> nat \<Rightarrow> topic_key \<Rightarrow> message_write list \<Rightarrow> 'f tables \<Rightarrow> string + 'f tables" where
  "rusqlite_upsert_messages_batch env k key writes0 s0 =
     (if \<not> live_row tr_deleted_at (tb_topics s0) key
      then Inl (''Message batch parent topic '' @ tk_topic_id key @ '' is missing or deleted'')
      else if writes0 = [] then Inr s0
      else if list_ex (foreign_topic key) writes0
      then Inl (''Message batch contains a topic id conflicting with '' @ tk_topic_id key)
      else (case List.find unsafe_time writes0 of
          Some w \<Rightarrow> Inl (''Message '' @ tk_topic_id key @ ''/'' @ cm_id (mw_message w) @
                         '' updatedAt exceeds the safe integer range'')
        | None \<Rightarrow>
            let writes = filter (retained s0 key) writes0
            in if writes = [] then Inr s0
               else
                 let s1 = fold (write_messages s0 (se_now env k) key) (chunks_of (999 div 15) writes) s0;
                     s2 = write_fts key (filter (fts_changed s0 key) writes) s1
                 in write_attachments env k s0 key writes s2))"

section \<open>Root hashes\<close>

definition live_topic_rows :: "'f tables \<Rightarrow> string \<Rightarrow> string \<Rightarrow> (string \<times> string \<times> string) list" where
  "live_topic_rows s ot oi =
     map (\<lambda>(key, r). (tk_topic_id key, tr_config_hash r, tr_content_hash r))
       (filter (\<lambda>(key, r). tk_owner_id key = oi \<and> tk_owner_type key = ot \<and> tr_deleted_at r = None) (tb_topics s))"

definition owner_root :: "'f store_env \<Rightarrow> 'f tables \<Rightarrow> string \<Rightarrow> string \<Rightarrow> string" where
  "owner_root env s ot oi =
     compute_owner_root_hash (se_sha env) (se_esc env) (se_fmt env) (live_topic_rows s ot oi)"

definition rusqlite_bubble_agent_hash :: "'f store_env \<Rightarrow> string \<Rightarrow> 'f tables \<Rightarrow> string + 'f tables" where
  "rusqlite_bubble_agent_hash env i s =
     (case sql_update i (\<lambda>r. ar_deleted_at r = None)
         (\<lambda>r. r\<lparr>ar_content_hash := owner_root env s ''agent'' i\<rparr>) (tb_agents s) of
        (t, changed) \<Rightarrow>
          if changed \<noteq> 1 then Inl (''Agent '' @ i @ '' disappeared during hash update'')
          else Inr (s\<lparr>tb_agents := t\<rparr>))"

definition rusqlite_bubble_group_hash :: "'f store_env \<Rightarrow> string \<Rightarrow> 'f tables \<Rightarrow> string + 'f tables" where
  "rusqlite_bubble_group_hash env i s =
     (case sql_update i (\<lambda>r. gr_deleted_at r = None)
         (\<lambda>r. r\<lparr>gr_content_hash := owner_root env s ''group'' i\<rparr>) (tb_groups s) of
        (t, changed) \<Rightarrow>
          if changed \<noteq> 1 then Inl (''Group '' @ i @ '' disappeared during hash update'')
          else Inr (s\<lparr>tb_groups := t\<rparr>))"

end
