(* ===== verification/Chat_Store.thy ===== *)
theory Chat_Store
  imports Sync_Upserts
begin

text \<open>
  The statements the chat services share, on the tables of the synchronisation: the hashes of topics and
  owners (\<open>HashAggregator\<close> and \<open>SyncDtoLoader\<close> of \<open>sync/sync_hash.rs\<close>), the statements that hide or
  remove rows, and the trigger \<open>after_messages_logical_delete\<close>. A transaction is a function from the
  tables to an error, with which it rolls back, or to its result and the new tables.
\<close>

section \<open>The environment\<close>

text \<open>
  \<open>ce_parse_tags\<close> is \<open>serde_json::from_str\<close> of a map of strings, \<open>ce_compile\<close> the compressed rendering of
  a content and \<open>ce_serialize\<close> that of blocks given as JSON, \<open>ce_no_rows\<close> the text of sqlx for a missing
  row, \<open>ce_default_temperature\<close> and \<open>ce_new_temperature\<close> the numbers 1 and 0.7.
\<close>

record 'f chat_env =
  ce_store :: "'f store_env"
  ce_parse_tags :: "string \<Rightarrow> string + (string \<times> string) list"
  ce_compile :: "string \<Rightarrow> string + string"
  ce_serialize :: "string \<Rightarrow> string + string"
  ce_no_rows :: string
  ce_default_temperature :: 'f
  ce_new_temperature :: 'f

definition SYNC_TOMBSTONE_HASH :: string where
  "SYNC_TOMBSTONE_HASH = replicate 64 (CHR ''0'')"

section \<open>Statements on several rows\<close>

text \<open>\<open>UPDATE ... WHERE\<close> of every row that is hit.\<close>

definition sql_update_all :: "('k \<Rightarrow> 'r \<Rightarrow> bool) \<Rightarrow> ('r \<Rightarrow> 'r) \<Rightarrow> ('k \<times> 'r) list \<Rightarrow> ('k \<times> 'r) list" where
  "sql_update_all hit set_row t = map (\<lambda>(k, r). (k, if hit k r then set_row r else r)) t"

text \<open>The row of a key, unless it is deleted.\<close>

definition fetch_live :: "('r \<Rightarrow> int option) \<Rightarrow> ('k \<times> 'r) list \<Rightarrow> 'k \<Rightarrow> 'r option" where
  "fetch_live deleted_at t key =
     (case map_of t key of None \<Rightarrow> None | Some r \<Rightarrow> if deleted_at r = None then Some r else None)"

text \<open>\<open>UPDATE messages SET deleted_at\<close> of live rows, with its trigger: the index loses the hidden ones.
  The result has the number of rows.\<close>

definition hide_messages ::
  "(message_key \<Rightarrow> messages_row \<Rightarrow> bool) \<Rightarrow> int \<Rightarrow> 'f tables \<Rightarrow> 'f tables \<times> nat" where
  "hide_messages doomed now s =
     (let hit = (\<lambda>mk r. doomed mk r \<and> mr_deleted_at r = None);
          hits = map fst (filter (\<lambda>(mk, r). hit mk r) (tb_messages s))
      in (s\<lparr>tb_messages := sql_update_all hit (\<lambda>r. r\<lparr>mr_deleted_at := Some now\<rparr>) (tb_messages s),
            tb_fts := sql_delete (\<lambda>(mk, content). mk \<in> set hits) (tb_fts s)\<rparr>,
          length hits))"

definition delete_render :: "(message_key \<Rightarrow> bool) \<Rightarrow> 'f tables \<Rightarrow> 'f tables" where
  "delete_render doomed s = s\<lparr>tb_render := sql_delete (\<lambda>(mk, r). doomed mk) (tb_render s)\<rparr>"

definition delete_message_attachments :: "(message_key \<Rightarrow> bool) \<Rightarrow> 'f tables \<Rightarrow> 'f tables" where
  "delete_message_attachments doomed s =
     s\<lparr>tb_relations := sql_delete (\<lambda>((mk, position), r). doomed mk) (tb_relations s)\<rparr>"

definition delete_active :: "(message_key \<Rightarrow> bool) \<Rightarrow> 'f tables \<Rightarrow> 'f tables" where
  "delete_active doomed s = s\<lparr>tb_active := sql_delete (\<lambda>(mk, created). doomed mk) (tb_active s)\<rparr>"

definition active_keys :: "(message_key \<Rightarrow> bool) \<Rightarrow> 'f tables \<Rightarrow> message_key list" where
  "active_keys doomed s = filter doomed (map fst (tb_active s))"

text \<open>The three tables that hang on a message.\<close>

definition delete_children :: "(message_key \<Rightarrow> bool) \<Rightarrow> 'f tables \<Rightarrow> 'f tables" where
  "delete_children doomed s = delete_active doomed (delete_render doomed (delete_message_attachments doomed s))"

definition of_topic :: "topic_key \<Rightarrow> message_key \<Rightarrow> bool" where
  "of_topic key mk \<longleftrightarrow> mk_topic mk = key"

definition of_owner :: "string \<Rightarrow> string \<Rightarrow> message_key \<Rightarrow> bool" where
  "of_owner ot oi mk \<longleftrightarrow> tk_owner_type (mk_topic mk) = ot \<and> tk_owner_id (mk_topic mk) = oi"

definition one_of :: "topic_key \<Rightarrow> string list \<Rightarrow> message_key \<Rightarrow> bool" where
  "one_of key ids mk \<longleftrightarrow> mk_topic mk = key \<and> mk_msg_id mk \<in> set ids"

section \<open>The activity of a topic\<close>

record topic_activity =
  ta_msg_count :: int
  ta_updated_at :: int

definition load_topic_activity :: "'f chat_env \<Rightarrow> topic_key \<Rightarrow> 'f tables \<Rightarrow> string + topic_activity" where
  "load_topic_activity env key s =
     (case fetch_live tr_deleted_at (tb_topics s) key of
        None \<Rightarrow> Inl (ce_no_rows env)
      | Some r \<Rightarrow>
          Inr \<lparr>ta_msg_count = tr_msg_count r,
            ta_updated_at = resolve_topic_activity_updated_at (tr_updated_at r) (tr_last_message_updated_at r)
              (tr_created_at r)\<rparr>)"

text \<open>The query of \<open>compute_topic_content_aggregate\<close>.\<close>

definition live_message_rows :: "'f tables \<Rightarrow> topic_key \<Rightarrow> (string \<times> string \<times> int) list" where
  "live_message_rows s key =
     map (\<lambda>(mk, r). (mk_msg_id mk, mr_content_hash r, mr_updated_at r))
       (filter (\<lambda>(mk, r). of_topic key mk \<and> mr_deleted_at r = None) (tb_messages s))"

definition topic_aggregate ::
  "'f chat_env \<Rightarrow> topic_key \<Rightarrow> 'f tables \<Rightarrow> string + (string \<times> int \<times> int)" where
  "topic_aggregate env key s =
     compute_topic_content_aggregate (se_sha (ce_store env)) (se_esc (ce_store env)) (se_fmt (ce_store env))
       key (live_message_rows s key)"

section \<open>The hashes of topics\<close>

definition load_agent_topic_dto :: "'f chat_env \<Rightarrow> topic_key \<Rightarrow> 'f tables \<Rightarrow> string + agent_topic_dto" where
  "load_agent_topic_dto env key s =
     (case fetch_live tr_deleted_at (tb_topics s) (TopicKey ''agent'' (tk_owner_id key) (tk_topic_id key)) of
        None \<Rightarrow> Inl (ce_no_rows env)
      | Some r \<Rightarrow>
          Inr \<lparr>atd_id = tk_topic_id key, atd_name = tr_title r, atd_created_at = tr_created_at r,
            atd_locked = tr_locked r, atd_unread = tr_unread r, atd_owner_id = tk_owner_id key,
            atd_config_hash = tr_config_hash r, atd_updated_at = tr_updated_at r\<rparr>)"

definition load_group_topic_dto :: "'f chat_env \<Rightarrow> topic_key \<Rightarrow> 'f tables \<Rightarrow> string + group_topic_dto" where
  "load_group_topic_dto env key s =
     (case fetch_live tr_deleted_at (tb_topics s) (TopicKey ''group'' (tk_owner_id key) (tk_topic_id key)) of
        None \<Rightarrow> Inl (ce_no_rows env)
      | Some r \<Rightarrow>
          Inr \<lparr>gtd_id = tk_topic_id key, gtd_name = tr_title r, gtd_created_at = tr_created_at r,
            gtd_owner_id = tk_owner_id key, gtd_config_hash = tr_config_hash r, gtd_updated_at = tr_updated_at r\<rparr>)"

definition topic_config_hash :: "'f chat_env \<Rightarrow> topic_key \<Rightarrow> 'f tables \<Rightarrow> string + string" where
  "topic_config_hash env key s =
     (let sha = se_sha (ce_store env); esc = se_esc (ce_store env); fmt = se_fmt (ce_store env)
      in if tk_owner_type key = ''agent''
         then then_do (load_agent_topic_dto env key s)
           (\<lambda>dto. Inr (compute_agent_topic_metadata_hash sha esc fmt dto))
         else if tk_owner_type key = ''group''
         then then_do (load_group_topic_dto env key s)
           (\<lambda>dto. Inr (compute_group_topic_metadata_hash sha esc fmt dto))
         else Inl (''Topic '' @ tk_topic_id key @ '' has unsupported owner type '' @ tk_owner_type key))"

text \<open>\<open>UPDATE topics\<close> of one live row, which must be there; then the activity.\<close>

definition update_topic_hashes ::
  "'f chat_env \<Rightarrow> topic_key \<Rightarrow> (topics_row \<Rightarrow> topics_row) \<Rightarrow> 'f tables \<Rightarrow> string + (topic_activity \<times> 'f tables)" where
  "update_topic_hashes env key set_row s =
     (case sql_update key (\<lambda>r. tr_deleted_at r = None) set_row (tb_topics s) of
        (t, updated) \<Rightarrow>
          if updated \<noteq> 1 then Inl (''Topic '' @ tk_topic_id key @ '' disappeared during hash update'')
          else let s1 = s\<lparr>tb_topics := t\<rparr>
               in then_do (load_topic_activity env key s1) (\<lambda>activity. Inr (activity, s1)))"

definition bubble_topic_hash :: "'f chat_env \<Rightarrow> topic_key \<Rightarrow> 'f tables \<Rightarrow> string + (topic_activity \<times> 'f tables)" where
  "bubble_topic_hash env key s =
     then_do (topic_aggregate env key s) (\<lambda>(root_hash, msg_count, latest).
       then_do (topic_config_hash env key s) (\<lambda>config_hash.
         update_topic_hashes env key
           (\<lambda>r. r\<lparr>tr_content_hash := root_hash, tr_config_hash := config_hash, tr_msg_count := msg_count,
              tr_last_message_updated_at := latest\<rparr>) s))"

definition refresh_topic_content_hash ::
  "'f chat_env \<Rightarrow> topic_key \<Rightarrow> 'f tables \<Rightarrow> string + (topic_activity \<times> 'f tables)" where
  "refresh_topic_content_hash env key s =
     then_do (topic_aggregate env key s) (\<lambda>(root_hash, msg_count, latest).
       update_topic_hashes env key
         (\<lambda>r. r\<lparr>tr_content_hash := root_hash, tr_msg_count := msg_count, tr_last_message_updated_at := latest\<rparr>) s)"

section \<open>The hashes of owners\<close>

definition compute_agent_root_hash :: "'f chat_env \<Rightarrow> string \<Rightarrow> 'f tables \<Rightarrow> string" where
  "compute_agent_root_hash env i s = owner_root (ce_store env) s ''agent'' i"

definition compute_group_root_hash :: "'f chat_env \<Rightarrow> string \<Rightarrow> 'f tables \<Rightarrow> string" where
  "compute_group_root_hash env i s = owner_root (ce_store env) s ''group'' i"

definition bubble_agent_hash :: "'f chat_env \<Rightarrow> string \<Rightarrow> 'f tables \<Rightarrow> string + 'f tables" where
  "bubble_agent_hash env i s =
     (case sql_update i (\<lambda>r. ar_deleted_at r = None)
         (\<lambda>r. r\<lparr>ar_content_hash := compute_agent_root_hash env i s\<rparr>) (tb_agents s) of
        (t, updated) \<Rightarrow>
          if updated \<noteq> 1 then Inl (''Agent '' @ i @ '' disappeared during hash update'')
          else Inr (s\<lparr>tb_agents := t\<rparr>))"

definition bubble_group_hash :: "'f chat_env \<Rightarrow> string \<Rightarrow> 'f tables \<Rightarrow> string + 'f tables" where
  "bubble_group_hash env i s =
     (case sql_update i (\<lambda>r. gr_deleted_at r = None)
         (\<lambda>r. r\<lparr>gr_content_hash := compute_group_root_hash env i s\<rparr>) (tb_groups s) of
        (t, updated) \<Rightarrow>
          if updated \<noteq> 1 then Inl (''Group '' @ i @ '' disappeared during hash update'')
          else Inr (s\<lparr>tb_groups := t\<rparr>))"

definition bubble_from_topic :: "'f chat_env \<Rightarrow> topic_key \<Rightarrow> 'f tables \<Rightarrow> string + (topic_activity \<times> 'f tables)" where
  "bubble_from_topic env key s =
     then_do (bubble_topic_hash env key s) (\<lambda>(activity, s1).
       then_do
         (if tk_owner_type key = ''agent'' then bubble_agent_hash env (tk_owner_id key) s1
          else if tk_owner_type key = ''group'' then bubble_group_hash env (tk_owner_id key) s1
          else Inl (''Topic '' @ tk_topic_id key @ '' has unsupported owner type '' @ tk_owner_type key))
         (\<lambda>s2. Inr (activity, s2)))"

section \<open>The configuration of a group\<close>

definition validate_member_tags :: "(string \<times> string) list \<Rightarrow> string + unit" where
  "validate_member_tags tags =
     (if list_ex (\<lambda>(k, v). k = []) tags then Inl ''memberTags keys must be non-empty strings'' else Inr ())"

definition parse_member_tags :: "'f chat_env \<Rightarrow> string \<Rightarrow> string + (string \<times> string) list" where
  "parse_member_tags env raw =
     then_do (ce_parse_tags env raw) (\<lambda>tags. then_do (validate_member_tags tags) (\<lambda>u. Inr tags))"

definition load_group_members :: "string \<Rightarrow> 'f tables \<Rightarrow> string list" where
  "load_group_members i s =
     map (\<lambda>((g, m), r). m) (sort_key (\<lambda>(k, r). mb_sort_order r) (filter (\<lambda>((g, m), r). g = i) (tb_members s)))"

definition load_group_dto :: "'f chat_env \<Rightarrow> string \<Rightarrow> 'f tables \<Rightarrow> string + group_dto" where
  "load_group_dto env i s =
     (case fetch_live gr_deleted_at (tb_groups s) i of
        None \<Rightarrow> Inl (ce_no_rows env)
      | Some r \<Rightarrow>
          (case parse_member_tags env (gr_member_tags r) of
             Inl e \<Rightarrow> Inl (''Group '' @ i @ '' memberTags JSON is invalid: '' @ e)
           | Inr tags \<Rightarrow>
               Inr \<lparr>gd_name = gr_name r, gd_members = load_group_members i s, gd_mode = gr_mode r,
                 gd_member_tags = Some tags, gd_group_prompt = gr_group_prompt r,
                 gd_invite_prompt = gr_invite_prompt r, gd_use_unified_model = gr_use_unified_model r,
                 gd_unified_model = gr_unified_model r, gd_tag_match_mode = gr_tag_match_mode r,
                 gd_created_at = gr_created_at r\<rparr>))"

definition recompute_group_config_hash :: "'f chat_env \<Rightarrow> int \<Rightarrow> string \<Rightarrow> 'f tables \<Rightarrow> string + 'f tables" where
  "recompute_group_config_hash env updated_at i s =
     then_do (load_group_dto env i s) (\<lambda>dto.
       let config_hash = compute_group_config_hash (ce_store env) dto
       in case sql_update i (\<lambda>r. gr_deleted_at r = None)
             (\<lambda>r. r\<lparr>gr_updated_at := (if gr_config_hash r \<noteq> config_hash then updated_at else gr_updated_at r),
                gr_config_hash := config_hash\<rparr>) (tb_groups s) of
            (t, updated) \<Rightarrow>
              if updated \<noteq> 1 then Inl (''Group '' @ i @ '' disappeared during config hash update'')
              else Inr (s\<lparr>tb_groups := t\<rparr>))"

end
