(* ===== verification/Sync_Upserts_Laws.thy ===== *)
theory Sync_Upserts_Laws
  imports Sync_Upserts
begin

text \<open>
  What the statements of the write queue do, table by table: when they succeed, and what a batch of
  messages makes of the rows, the renderings, the full-text index and the relations.
\<close>

section \<open>Sequences\<close>

lemma then_do_Inr: "then_do r f = Inr s' \<longleftrightarrow> (\<exists>s. r = Inr s \<and> f s = Inr s')"
  by (cases r) (simp_all add: then_do_def)

lemma each_do_rule:
  assumes "each_do f xs s = Inr s'" "P s" "\<And>x s s'. x \<in> set xs \<Longrightarrow> P s \<Longrightarrow> f x s = Inr s' \<Longrightarrow> P s'"
  shows "P s'"
  using assms
proof (induction xs arbitrary: s)
  case (Cons x xs)
  from Cons.prems(1) obtain s1 where s1: "f x s = Inr s1" "each_do f xs s1 = Inr s'" by (auto simp: then_do_Inr)
  show ?case by (rule Cons.IH[OF s1(2)]) (use s1(1) Cons.prems(2,3) in auto)
qed simp

lemma concat_chunks_of [simp]: "0 < n \<Longrightarrow> concat (chunks_of n xs) = xs"
proof (induction n xs rule: chunks_of.induct)
  case (1 n xs)
  then show ?case by (subst chunks_of.simps) (auto simp: append_take_drop_id)
qed

lemma fold_concat: "fold (\<lambda>chunk. fold f chunk) xss s = fold f (concat xss) s"
  by (induction xss arbitrary: s) auto

lemma fold_chunks_of [simp]: "0 < n \<Longrightarrow> fold (\<lambda>chunk. fold f chunk) (chunks_of n xs) s = fold f xs s"
  by (simp add: fold_concat)

lemma set_chunks_of: "0 < n \<Longrightarrow> \<Union> (set ` set (chunks_of n xs)) = set xs"
  using concat_chunks_of[of n xs] by (metis set_concat)

lemma fold_sql_delete: "fold (\<lambda>x. sql_delete (P x)) xs t = sql_delete (\<lambda>row. \<exists>x\<in>set xs. P x row) t"
  by (induction xs arbitrary: t) (auto simp: sql_delete_def intro!: filter_cong)

lemma fold_append_map: "fold (\<lambda>chunk t. t @ map f chunk) xss t = t @ map f (concat xss)"
  by (induction xss arbitrary: t) auto

section \<open>The success of a statement\<close>

text \<open>Not deleted, or not there.\<close>

definition writable :: "('r \<Rightarrow> int option) \<Rightarrow> ('k \<times> 'r) list \<Rightarrow> 'k \<Rightarrow> bool" where
  "writable deleted_at t key = (case map_of t key of None \<Rightarrow> True | Some r \<Rightarrow> deleted_at r = None)"

lemma upsert_changed:
  "snd (sql_upsert key n (\<lambda>r. d r = None) g t) = (if writable d t key then 1 else 0)"
  by (auto simp: sql_upsert_def writable_def split: option.splits)

lemma upsert_agent_success:
  "rusqlite_upsert_agent env k i dto s = Inr s' \<longleftrightarrow>
     i \<noteq> [] \<and> writable ar_deleted_at (tb_agents s) i \<and>
     s' = s\<lparr>tb_agents := fst (sql_upsert i (new_agents_row env (se_now env k) dto) (\<lambda>r. ar_deleted_at r = None)
        (set_agents_row env (se_now env k) dto) (tb_agents s))\<rparr>"
  using upsert_changed[of i _ ar_deleted_at _ "tb_agents s"]
  by (auto simp: rusqlite_upsert_agent_def prod_eq_iff split: prod.splits)

lemma upsert_group_success:
  "rusqlite_upsert_group env k i dto s = Inr s' \<longleftrightarrow>
     i \<noteq> [] \<and> writable gr_deleted_at (tb_groups s) i \<and>
     (\<exists>members. insert_members env i (se_now env k) 0 (gd_members (canonical_dto s dto))
          (sql_delete (\<lambda>((g, m), r). g = i) (tb_members s)) = Inr members \<and>
        s' = s\<lparr>tb_groups := fst (sql_upsert i (new_groups_row env (se_now env k) (canonical_dto s dto))
            (\<lambda>r. gr_deleted_at r = None) (set_groups_row env (se_now env k) (canonical_dto s dto)) (tb_groups s)),
          tb_members := members\<rparr>)"
  using upsert_changed[of i _ gr_deleted_at _ "tb_groups s"]
  by (auto simp: rusqlite_upsert_group_def Let_def then_do_Inr prod_eq_iff split: prod.splits)

lemma upsert_avatar_success:
  "rusqlite_upsert_avatar env k ot oi mime bytes s = Inr s' \<longleftrightarrow>
     is_valid_avatar_owner ot oi \<and> mime \<in> {''image/png'', ''image/jpeg'', ''image/gif'', ''image/webp''} \<and>
     parent_is_live ot oi s \<and> writable vr_deleted_at (tb_avatars s) (ot, oi) \<and>
     s' = s\<lparr>tb_avatars := fst (sql_upsert (ot, oi) (new_avatars_row env (se_now env k) mime bytes)
        (\<lambda>r. vr_deleted_at r = None) (set_avatars_row env (se_now env k) mime bytes) (tb_avatars s))\<rparr>"
  using upsert_changed[of "(ot, oi)" _ vr_deleted_at _ "tb_avatars s"]
  by (auto simp: rusqlite_upsert_avatar_def prod_eq_iff split: prod.splits)

definition agent_topic_row :: "agent_topic_dto \<Rightarrow> topics_row" where
  "agent_topic_row dto = new_topics_row (atd_name dto) (atd_created_at dto) (atd_locked dto) (atd_unread dto)
     (atd_config_hash dto) (atd_updated_at dto)"

definition group_topic_row :: "group_topic_dto \<Rightarrow> topics_row" where
  "group_topic_row dto = new_topics_row (gtd_name dto) (gtd_created_at dto) True False
     (gtd_config_hash dto) (gtd_updated_at dto)"

lemma topic_statement_live:
  "topic_statement True key n g s =
     (s\<lparr>tb_topics := fst (sql_upsert key n (\<lambda>r. tr_deleted_at r = None) g (tb_topics s))\<rparr>,
      if writable tr_deleted_at (tb_topics s) key then 1 else 0)"
  using upsert_changed[of key n tr_deleted_at g "tb_topics s"]
  by (simp add: topic_statement_def split_beta)

lemma upsert_agent_topic_success:
  "rusqlite_upsert_agent_topic key dto s = Inr s' \<longleftrightarrow>
     tk_owner_type key = ''agent'' \<and> topic_key_is_valid key \<and> atd_id dto = tk_topic_id key \<and>
     atd_owner_id dto = tk_owner_id key \<and> live_row ar_deleted_at (tb_agents s) (tk_owner_id key) \<and>
     writable tr_deleted_at (tb_topics s) key \<and>
     s' = s\<lparr>tb_topics := fst (sql_upsert key (agent_topic_row dto) (\<lambda>r. tr_deleted_at r = None)
        (set_agent_topic dto) (tb_topics s))\<rparr>"
  by (cases key) (auto simp: rusqlite_upsert_agent_topic_def topic_statement_live agent_topic_row_def Let_def)

lemma upsert_group_topic_success:
  "rusqlite_upsert_group_topic key dto s = Inr s' \<longleftrightarrow>
     tk_owner_type key = ''group'' \<and> topic_key_is_valid key \<and> gtd_id dto = tk_topic_id key \<and>
     gtd_owner_id dto = tk_owner_id key \<and> live_row gr_deleted_at (tb_groups s) (tk_owner_id key) \<and>
     writable tr_deleted_at (tb_topics s) key \<and>
     s' = s\<lparr>tb_topics := fst (sql_upsert key (group_topic_row dto) (\<lambda>r. tr_deleted_at r = None)
        (set_group_topic dto) (tb_topics s))\<rparr>"
  by (cases key) (auto simp: rusqlite_upsert_group_topic_def topic_statement_live group_topic_row_def Let_def)

section \<open>The effect of a batch of messages\<close>

text \<open>The table of the messages and of their renderings, apart from the others.\<close>

abbreviation upsert_message_row ::
  "topic_key \<Rightarrow> message_write \<Rightarrow> (message_key \<times> messages_row) list \<Rightarrow> (message_key \<times> messages_row) list" where
  "upsert_message_row key w t \<equiv> fst (sql_upsert (write_key key w) (new_messages_row w)
     (\<lambda>r. mr_deleted_at r = None) (set_messages_row w) t)"

lemma insert_message_fold:
  "fold (insert_message key) ws s = s\<lparr>tb_messages := fold (upsert_message_row key) ws (tb_messages s)\<rparr>"
  by (induction ws arbitrary: s) (auto simp: insert_message_def)

lemma map_of_delete_keys: "map_of (sql_delete (\<lambda>(k, r). k \<in> D) t) key = (if key \<in> D then None else map_of t key)"
  by (induction t) (auto simp: sql_delete_def)

lemma distinct_delete: "distinct (map fst t) \<Longrightarrow> distinct (map fst (sql_delete P t))"
  unfolding sql_delete_def by (rule distinct_map_filter)

lemma row_keys_delete: "row_keys (sql_delete P t) \<subseteq> row_keys t"
  by (auto simp: row_keys_def sql_delete_def)

text \<open>The renderings: a row is the one of a write, or an old one that no write replaced or dropped.\<close>

definition render_from ::
  "'f tables \<Rightarrow> topic_key \<Rightarrow> message_write list \<Rightarrow> (message_key \<times> render_row) list \<Rightarrow> (message_key \<times> render_row) list \<Rightarrow> bool"
  where
  "render_from s0 key ws t t' \<longleftrightarrow>
     (distinct (map fst t) \<longrightarrow> distinct (map fst t')) \<and>
     (\<forall>mk r. map_of t' mk = Some r \<longrightarrow>
        (\<exists>w\<in>set ws. write_key key w = mk \<and> mw_render w \<noteq> [] \<and> rr_hash r = mw_hash w) \<or>
        map_of t mk = Some r \<and> (\<forall>w\<in>set ws. write_key key w = mk \<longrightarrow> mw_render w = [] \<and> \<not> drops_render s0 key w))"

lemma render_from_refl: "render_from s0 key [] t t"
  by (simp add: render_from_def)

lemma render_from_trans:
  assumes "render_from s0 key a t t1" "render_from s0 key b t1 t2"
  shows "render_from s0 key (a @ b) t t2"
  unfolding render_from_def
proof (intro conjI allI impI)
  fix mk r
  assume r: "map_of t2 mk = Some r"
  have 1: "map_of t1 mk = Some r \<longrightarrow> (\<exists>w\<in>set a. write_key key w = mk \<and> mw_render w \<noteq> [] \<and> rr_hash r = mw_hash w) \<or>
      map_of t mk = Some r \<and> (\<forall>w\<in>set a. write_key key w = mk \<longrightarrow> mw_render w = [] \<and> \<not> drops_render s0 key w)"
    using assms(1) unfolding render_from_def by blast
  have 2: "(\<exists>w\<in>set b. write_key key w = mk \<and> mw_render w \<noteq> [] \<and> rr_hash r = mw_hash w) \<or>
      map_of t1 mk = Some r \<and> (\<forall>w\<in>set b. write_key key w = mk \<longrightarrow> mw_render w = [] \<and> \<not> drops_render s0 key w)"
    using assms(2) r unfolding render_from_def by blast
  show "(\<exists>w\<in>set (a @ b). write_key key w = mk \<and> mw_render w \<noteq> [] \<and> rr_hash r = mw_hash w) \<or>
      map_of t mk = Some r \<and> (\<forall>w\<in>set (a @ b). write_key key w = mk \<longrightarrow> mw_render w = [] \<and> \<not> drops_render s0 key w)"
    using 1 2 by auto
qed (use assms in \<open>simp add: render_from_def\<close>)

lemma insert_render_fold:
  "\<exists>t. fold (insert_render now key) ws s = s\<lparr>tb_render := t\<rparr> \<and>
     (distinct (map fst (tb_render s)) \<longrightarrow> distinct (map fst t)) \<and>
     (\<forall>mk r. map_of t mk = Some r \<longrightarrow>
        (\<exists>w\<in>set ws. write_key key w = mk \<and> rr_hash r = mw_hash w) \<or>
        map_of (tb_render s) mk = Some r \<and> mk \<notin> write_key key ` set ws)"
proof (induction ws arbitrary: s)
  case Nil
  show ?case by (rule exI[of _ "tb_render s"]) simp
next
  case (Cons w ws)
  define t1 where "t1 = tb_render (insert_render now key w s)"
  have s1: "insert_render now key w s = s\<lparr>tb_render := t1\<rparr>" by (simp add: t1_def insert_render_def Let_def)
  have d: "distinct (map fst (tb_render s)) \<longrightarrow> distinct (map fst t1)"
    by (simp add: t1_def insert_render_def Let_def distinct_upsert)
  have m: "rr_hash r = mw_hash w" if "map_of t1 (write_key key w) = Some r" for r
    using that by (auto simp: t1_def insert_render_def Let_def map_of_upsert split: option.splits if_splits)
  have o: "map_of t1 mk = map_of (tb_render s) mk" if "mk \<noteq> write_key key w" for mk
    using that by (simp add: t1_def insert_render_def Let_def map_of_upsert)
  from Cons.IH[of "s\<lparr>tb_render := t1\<rparr>"] obtain t where
    t: "fold (insert_render now key) ws (s\<lparr>tb_render := t1\<rparr>) = s\<lparr>tb_render := t\<rparr>"
      "distinct (map fst t1) \<longrightarrow> distinct (map fst t)"
      "\<And>mk r. map_of t mk = Some r \<Longrightarrow> (\<exists>w\<in>set ws. write_key key w = mk \<and> rr_hash r = mw_hash w) \<or>
        map_of t1 mk = Some r \<and> mk \<notin> write_key key ` set ws" by auto
  show ?case
  proof (rule exI[of _ t], intro conjI allI impI)
    fix mk r
    assume r: "map_of t mk = Some r"
    show "(\<exists>w\<in>set (w # ws). write_key key w = mk \<and> rr_hash r = mw_hash w) \<or>
        map_of (tb_render s) mk = Some r \<and> mk \<notin> write_key key ` set (w # ws)"
      using t(3)[OF r] m[of r] o[of mk] by (cases "mk = write_key key w") auto
  qed (use t d s1 in auto)
qed

lemma write_messages_chunk:
  "\<exists>t. write_messages s0 now key chunk s =
       s\<lparr>tb_messages := fold (upsert_message_row key) chunk (tb_messages s), tb_render := t\<rparr> \<and>
     render_from s0 key chunk (tb_render s) t"
proof -
  define D where "D = write_key key ` set (filter (drops_render s0 key) chunk)"
  define t1 where "t1 = sql_delete (\<lambda>(mk, r). mk \<in> D) (tb_render s)"
  define v where "v = s\<lparr>tb_messages := fold (upsert_message_row key) chunk (tb_messages s), tb_render := t1\<rparr>"
  have e: "write_messages s0 now key chunk s = fold (insert_render now key) (filter (\<lambda>w. mw_render w \<noteq> []) chunk) v"
    by (simp add: write_messages_def Let_def insert_message_fold v_def t1_def D_def)
  have old: "map_of t1 mk = (if mk \<in> D then None else map_of (tb_render s) mk)" for mk
    unfolding t1_def by (rule map_of_delete_keys)
  have d: "distinct (map fst (tb_render s)) \<Longrightarrow> distinct (map fst t1)" unfolding t1_def by (rule distinct_delete)
  have v: "tb_render v = t1" by (simp add: v_def)
  obtain t where t: "write_messages s0 now key chunk s = v\<lparr>tb_render := t\<rparr>"
      "distinct (map fst t1) \<longrightarrow> distinct (map fst t)"
      "\<forall>mk r. map_of t mk = Some r \<longrightarrow>
        (\<exists>w\<in>set (filter (\<lambda>w. mw_render w \<noteq> []) chunk). write_key key w = mk \<and> rr_hash r = mw_hash w) \<or>
        map_of t1 mk = Some r \<and> mk \<notin> write_key key ` set (filter (\<lambda>w. mw_render w \<noteq> []) chunk)"
    using insert_render_fold[of now key "filter (\<lambda>w. mw_render w \<noteq> []) chunk" v] unfolding e v by blast
  have "render_from s0 key chunk (tb_render s) t"
    unfolding render_from_def
  proof (intro conjI allI impI)
    fix mk r
    assume "map_of t mk = Some r"
    from t(3)[rule_format, OF this] show "(\<exists>w\<in>set chunk. write_key key w = mk \<and> mw_render w \<noteq> [] \<and> rr_hash r = mw_hash w) \<or>
        map_of (tb_render s) mk = Some r \<and>
        (\<forall>w\<in>set chunk. write_key key w = mk \<longrightarrow> mw_render w = [] \<and> \<not> drops_render s0 key w)"
      unfolding old D_def by (auto split: if_splits)
  qed (use t d in auto)
  then show ?thesis using t(1) by (auto simp: v_def)
qed

lemma write_messages_fold:
  "\<exists>t. fold (write_messages s0 now key) css s =
       s\<lparr>tb_messages := fold (upsert_message_row key) (concat css) (tb_messages s), tb_render := t\<rparr> \<and>
     render_from s0 key (concat css) (tb_render s) t"
proof (induction css arbitrary: s)
  case Nil
  show ?case by (rule exI[of _ "tb_render s"]) (simp add: render_from_refl)
next
  case (Cons chunk css)
  obtain t1 where t1: "write_messages s0 now key chunk s =
      s\<lparr>tb_messages := fold (upsert_message_row key) chunk (tb_messages s), tb_render := t1\<rparr>"
    "render_from s0 key chunk (tb_render s) t1" using write_messages_chunk by blast
  from Cons.IH[of "write_messages s0 now key chunk s"] show ?case
    by (auto simp: t1(1) intro: render_from_trans[OF t1(2)])
qed

lemma write_fts_eq:
  "write_fts key ws s =
     s\<lparr>tb_fts := filter (\<lambda>(mk, c). mk \<notin> write_key key ` set ws) (tb_fts s) @
        map (\<lambda>w. (write_key key w, cm_content (mw_message w))) ws\<rparr>"
proof -
  have keys: "(\<exists>c\<in>set (chunks_of 998 (map (write_key key) ws)). mk \<in> set c) \<longleftrightarrow> mk \<in> write_key key ` set ws" for mk
    using set_chunks_of[of 998 "map (write_key key) ws"] by auto
  have "sql_delete (\<lambda>row. \<exists>chunk\<in>set (chunks_of 998 (map (write_key key) ws)). case row of (mk, c) \<Rightarrow> mk \<in> set chunk)
      (tb_fts s) = filter (\<lambda>(mk, c). mk \<notin> write_key key ` set ws) (tb_fts s)"
    unfolding sql_delete_def by (rule filter_cong) (auto simp flip: keys)
  then show ?thesis by (simp add: write_fts_def Let_def fold_sql_delete fold_append_map)
qed

text \<open>The attachments: only the table of the files changes, its rows stay, and one relation is made for
  each attachment, in order.\<close>

definition grows :: "('k \<times> 'r) list \<Rightarrow> ('k \<times> 'r) list \<Rightarrow> bool" where
  "grows t t' \<longleftrightarrow> row_keys t \<subseteq> row_keys t' \<and> (distinct (map fst t) \<longrightarrow> distinct (map fst t'))"

lemma grows_refl [simp]: "grows t t" by (simp add: grows_def)

lemma grows_trans: "grows a b \<Longrightarrow> grows b c \<Longrightarrow> grows a c" by (auto simp: grows_def)

lemma grows_mem: "grows t t' \<Longrightarrow> k \<in> row_keys t \<Longrightarrow> k \<in> row_keys t'" by (auto simp: grows_def)

lemma grows_upsert: "grows t (fst (sql_upsert k n l g t))"
  by (auto simp: grows_def keys_upsert distinct_upsert)

lemma grows_update: "grows t (fst (sql_update k l g t))"
  by (auto simp: grows_def keys_update distinct_sql_update)

lemma inspect_attachment_other:
  assumes "inspect_attachment env k hash s = Inr (readiness, s')"
  shows "\<exists>t. s' = s\<lparr>tb_attachments := t\<rparr> \<and> grows (tb_attachments s) t"
proof (cases "map_of (tb_attachments s) hash")
  case None
  then show ?thesis using assms by (simp add: inspect_attachment_def)
next
  case (Some row)
  have same: "\<exists>t. s = s\<lparr>tb_attachments := t\<rparr> \<and> grows (tb_attachments s) t"
    by (rule exI[of _ "tb_attachments s"]) simp
  from assms Some have "s' = s \<or> s' = s\<lparr>tb_attachments := fst (sql_update hash (\<lambda>r. True)
      (\<lambda>r. r\<lparr>xr_internal_path := []\<rparr>) (tb_attachments s))\<rparr>"
    by (auto simp: inspect_attachment_def Let_def split: if_splits file_answer.splits)
  then show ?thesis
  proof
    assume "s' = s"
    then show ?thesis using same by simp
  next
    assume "s' = s\<lparr>tb_attachments := fst (sql_update hash (\<lambda>r. True) (\<lambda>r. r\<lparr>xr_internal_path := []\<rparr>) (tb_attachments s))\<rparr>"
    then show ?thesis using grows_update by (intro exI conjI) assumption
  qed
qed

definition relation_for :: "string \<Rightarrow> nat \<times> attachment \<Rightarrow> (string \<times> nat) \<times> relation_row \<Rightarrow> bool" where
  "relation_for mid numbered rel \<longleftrightarrow>
     (case numbered of (i, att) \<Rightarrow> fst rel = (mid, i) \<and> at_hash att = Some (rl_hash (snd rel)) \<and>
        is_valid_cas_hash (rl_hash (snd rel)) \<and> rl_display_name (snd rel) = at_name att)"

lemma attach_one_success:
  assumes "attach_one env k msg numbered w = Inr w'"
  shows "\<exists>t rel cache. w' = w\<lparr>aw_tables := (aw_tables w)\<lparr>tb_attachments := t\<rparr>, aw_readiness := cache,
      aw_relations := aw_relations w @ [rel]\<rparr> \<and>
    grows (tb_attachments (aw_tables w)) t \<and> rl_hash (snd rel) \<in> row_keys t \<and> relation_for (cm_id msg) numbered rel"
proof -
  obtain i att where n: "numbered = (i, att)" by fastforce
  from assms obtain hash where h: "at_hash att = Some hash" "is_valid_cas_hash hash"
    by (auto simp: attach_one_def n Let_def split: option.splits if_splits)
  define s1 where "s1 = rusqlite_upsert_attachment_core env hash att (sint (cm_timestamp msg)) (aw_tables w)"
  have s1: "s1 = (aw_tables w)\<lparr>tb_attachments := tb_attachments s1\<rparr>"
    "grows (tb_attachments (aw_tables w)) (tb_attachments s1)" "hash \<in> row_keys (tb_attachments s1)"
    by (auto simp: s1_def rusqlite_upsert_attachment_core_def Let_def grows_upsert keys_upsert)
  have later: "\<exists>t. s2 = (aw_tables w)\<lparr>tb_attachments := t\<rparr> \<and> grows (tb_attachments (aw_tables w)) t \<and>
      hash \<in> row_keys t" if "inspect_attachment env k hash s1 = Inr (readiness, s2)" for readiness s2
  proof -
    from inspect_attachment_other[OF that] obtain t where
      t: "s2 = s1\<lparr>tb_attachments := t\<rparr>" "grows (tb_attachments s1) t" by blast
    have "s2 = (aw_tables w)\<lparr>tb_attachments := t\<rparr>" using t(1) s1(1) by (metis tables.surjective tables.update_convs(10))
    moreover have "grows (tb_attachments (aw_tables w)) t" by (rule grows_trans[OF s1(2) t(2)])
    moreover have "hash \<in> row_keys t" by (rule grows_mem[OF t(2) s1(3)])
    ultimately show ?thesis by blast
  qed
  define result where "result = (case map_of (aw_readiness w) hash of
      Some readiness \<Rightarrow> Inr (readiness, s1, aw_readiness w)
    | None \<Rightarrow> then_do (inspect_attachment env k hash s1)
        (\<lambda>(readiness, s2). Inr (readiness, s2, aw_readiness w @ [(hash, readiness)])))"
  have "\<exists>readiness s2 cache. result = Inr (readiness, s2, cache) \<and>
      w' = w\<lparr>aw_tables := s2, aw_readiness := cache, aw_relations := aw_relations w @
        [((cm_id msg, i), \<lparr>rl_hash = hash, rl_display_name = at_name att, rl_src = fst readiness,
          rl_status = Some (snd readiness), rl_created_at = sint (cm_timestamp msg)\<rparr>)]\<rparr>"
    using assms h unfolding attach_one_def n result_def s1_def
    by (auto simp: Let_def then_do_Inr split: if_splits)
  then obtain readiness s2 cache where r: "result = Inr (readiness, s2, cache)" and
    w': "w' = w\<lparr>aw_tables := s2, aw_readiness := cache, aw_relations := aw_relations w @
        [((cm_id msg, i), \<lparr>rl_hash = hash, rl_display_name = at_name att, rl_src = fst readiness,
          rl_status = Some (snd readiness), rl_created_at = sint (cm_timestamp msg)\<rparr>)]\<rparr>" by blast
  have "\<exists>t. s2 = (aw_tables w)\<lparr>tb_attachments := t\<rparr> \<and> grows (tb_attachments (aw_tables w)) t \<and> hash \<in> row_keys t"
  proof (cases "map_of (aw_readiness w) hash")
    case None
    then have "inspect_attachment env k hash s1 = Inr (readiness, s2)"
      using r unfolding result_def by (auto simp: then_do_Inr)
    then show ?thesis by (rule later)
  next
    case (Some a)
    then have "s2 = s1" using r unfolding result_def by simp
    then show ?thesis using s1 by blast
  qed
  then obtain t where t: "s2 = (aw_tables w)\<lparr>tb_attachments := t\<rparr>"
    "grows (tb_attachments (aw_tables w)) t" "hash \<in> row_keys t" by blast
  show ?thesis
    by (rule exI[of _ t], rule exI, rule exI[of _ cache]) (use t h w' in \<open>auto simp: relation_for_def n\<close>)
qed

definition attached ::
  "(string \<times> nat \<times> attachment) list \<Rightarrow> 'f attach_work \<Rightarrow> 'f attach_work \<Rightarrow> bool" where
  "attached want w w' \<longleftrightarrow>
     (\<exists>t rels. aw_tables w' = (aw_tables w)\<lparr>tb_attachments := t\<rparr> \<and> grows (tb_attachments (aw_tables w)) t \<and>
        aw_relations w' = aw_relations w @ rels \<and>
        list_all2 (\<lambda>(mid, numbered). relation_for mid numbered) want rels \<and>
        (\<forall>rel\<in>set rels. rl_hash (snd rel) \<in> row_keys t))"

lemma attached_refl: "aw_tables w' = aw_tables w \<Longrightarrow> aw_relations w' = aw_relations w \<Longrightarrow> attached [] w w'"
  unfolding attached_def by (rule exI[of _ "tb_attachments (aw_tables w)"]) auto

lemma attached_trans:
  assumes "attached a w w1" "attached b w1 w2"
  shows "attached (a @ b) w w2"
proof -
  from assms(1) obtain t1 r1 where 1: "aw_tables w1 = (aw_tables w)\<lparr>tb_attachments := t1\<rparr>"
    "grows (tb_attachments (aw_tables w)) t1" "aw_relations w1 = aw_relations w @ r1"
    "list_all2 (\<lambda>(mid, numbered). relation_for mid numbered) a r1"
    "\<forall>rel\<in>set r1. rl_hash (snd rel) \<in> row_keys t1" unfolding attached_def by blast
  from assms(2) obtain t2 r2 where 2: "aw_tables w2 = (aw_tables w1)\<lparr>tb_attachments := t2\<rparr>"
    "grows (tb_attachments (aw_tables w1)) t2" "aw_relations w2 = aw_relations w1 @ r2"
    "list_all2 (\<lambda>(mid, numbered). relation_for mid numbered) b r2"
    "\<forall>rel\<in>set r2. rl_hash (snd rel) \<in> row_keys t2" unfolding attached_def by blast
  have g: "grows t1 t2" using 1(1) 2(2) by simp
  have "\<forall>rel\<in>set (r1 @ r2). rl_hash (snd rel) \<in> row_keys t2" using 1(5) 2(5) grows_mem[OF g] by auto
  then show ?thesis unfolding attached_def using 1 2 grows_trans[OF 1(2) g]
    by (intro exI[of _ t2] exI[of _ "r1 @ r2"]) (simp add: list_all2_appendI)
qed

lemma attach_one_attached:
  assumes "attach_one env k msg numbered w = Inr w'"
  shows "attached [(cm_id msg, numbered)] w w' \<and> aw_counts w' = aw_counts w"
proof -
  from attach_one_success[OF assms] obtain t rel cache where
    w': "w' = w\<lparr>aw_tables := (aw_tables w)\<lparr>tb_attachments := t\<rparr>, aw_readiness := cache,
      aw_relations := aw_relations w @ [rel]\<rparr>" and
    rel: "grows (tb_attachments (aw_tables w)) t" "rl_hash (snd rel) \<in> row_keys t"
      "relation_for (cm_id msg) numbered rel" by blast
  show ?thesis unfolding attached_def w'
    by (intro conjI exI[of _ t] exI[of _ "[rel]"]) (use rel in auto)
qed

lemma attach_each_attached:
  "each_do (attach_one env k msg) ns w = Inr w' \<Longrightarrow>
     attached (map (Pair (cm_id msg)) ns) w w' \<and> aw_counts w' = aw_counts w"
proof (induction ns arbitrary: w)
  case (Cons n ns)
  from Cons.prems obtain w1 where w1: "attach_one env k msg n w = Inr w1"
    "each_do (attach_one env k msg) ns w1 = Inr w'" by (auto simp: then_do_Inr)
  show ?case
    using attached_trans[of "[(cm_id msg, n)]" w w1 "map (Pair (cm_id msg)) ns" w']
      attach_one_attached[OF w1(1)] Cons.IH[OF w1(2)] by simp
qed (simp add: attached_refl)

definition wanted :: "message_write \<Rightarrow> (string \<times> nat \<times> attachment) list" where
  "wanted w = (let atts = unwrap_or (cm_attachments (mw_message w)) [] in
     map (Pair (cm_id (mw_message w))) (zip [0..<length atts] atts))"

definition wanted_count :: "message_write \<Rightarrow> string \<times> nat" where
  "wanted_count w = (cm_id (mw_message w), length (unwrap_or (cm_attachments (mw_message w)) []))"

lemma attach_messages_attached:
  "each_do (attach_message env k) ws w = Inr w' \<Longrightarrow>
     attached (concat (map wanted ws)) w w' \<and> aw_counts w' = aw_counts w @ map wanted_count ws"
proof (induction ws arbitrary: w)
  case (Cons m ms)
  from Cons.prems obtain w1 where w1: "attach_message env k m w = Inr w1"
    "each_do (attach_message env k) ms w1 = Inr w'" by (auto simp: then_do_Inr)
  define v where "v = w\<lparr>aw_counts := aw_counts w @ [wanted_count m]\<rparr>"
  have "attached [] w v" by (rule attached_refl) (simp_all add: v_def)
  moreover have "attached (wanted m) v w1 \<and> aw_counts w1 = aw_counts v"
    using attach_each_attached[OF w1(1)[unfolded attach_message_def Let_def]]
    by (simp add: Let_def wanted_def wanted_count_def v_def)
  ultimately have "attached (wanted m) w w1" "aw_counts w1 = aw_counts w @ [wanted_count m]"
    using attached_trans[of "[]" w v "wanted m" w1] by (auto simp: v_def)
  then show ?case
    using attached_trans[of "wanted m" w w1 "concat (map wanted ms)" w'] Cons.IH[OF w1(2)] by simp
qed (simp add: attached_refl)

text \<open>The relations.\<close>

abbreviation upsert_relation_row ::
  "topic_key \<Rightarrow> (string \<times> nat) \<times> relation_row \<Rightarrow> ((message_key \<times> nat) \<times> relation_row) list \<Rightarrow>
     ((message_key \<times> nat) \<times> relation_row) list" where
  "upsert_relation_row key rel t \<equiv>
     fst (sql_upsert (MessageKey key (fst (fst rel)), snd (fst rel)) (snd rel) (\<lambda>r. r \<noteq> snd rel) (\<lambda>r. snd rel) t)"

lemma insert_relation_fold:
  "fold (insert_relation key) rels s = s\<lparr>tb_relations := fold (upsert_relation_row key) rels (tb_relations s)\<rparr>"
  by (induction rels arbitrary: s) (auto simp: insert_relation_def split: prod.splits)

lemma sql_delete_twice: "sql_delete P (sql_delete Q t) = sql_delete (\<lambda>row. Q row \<or> P row) t"
  by (simp add: sql_delete_def conj_commute)

definition beyond :: "topic_key \<Rightarrow> (string \<times> nat) list \<Rightarrow> (message_key \<times> nat) \<times> relation_row \<Rightarrow> bool" where
  "beyond key desired row \<longleftrightarrow>
     mk_topic (fst (fst row)) = key \<and> list_ex (\<lambda>(i, n). i = mk_msg_id (fst (fst row)) \<and> n \<le> snd (fst row)) desired"

lemma delete_relations_fold:
  "fold (delete_relations key) css s =
     s\<lparr>tb_relations := sql_delete (beyond key (concat css)) (tb_relations s)\<rparr>"
proof (induction css arbitrary: s)
  case Nil
  show ?case by (simp add: sql_delete_def beyond_def)
next
  case (Cons c css)
  have one: "delete_relations key c s = s\<lparr>tb_relations := sql_delete (beyond key c) (tb_relations s)\<rparr>"
    by (simp add: delete_relations_def sql_delete_def beyond_def split_beta)
  have "(\<lambda>row. beyond key c row \<or> beyond key (concat css) row) = beyond key (concat (c # css))"
    by (rule ext) (auto simp: beyond_def)
  then show ?case by (simp add: one Cons.IH sql_delete_twice)
qed

lemma write_attachments_success:
  assumes "write_attachments env k s0 key ws s = Inr s'"
  defines "new \<equiv> filter (content_changed s0 key) ws"
  shows "\<exists>t rels. s' = s\<lparr>tb_attachments := t,
      tb_relations := fold (upsert_relation_row key) rels (sql_delete (beyond key (map wanted_count new)) (tb_relations s))\<rparr> \<and>
    grows (tb_attachments s) t \<and> list_all2 (\<lambda>(mid, numbered). relation_for mid numbered) (concat (map wanted new)) rels \<and>
    (\<forall>rel\<in>set rels. rl_hash (snd rel) \<in> row_keys t)"
proof -
  from assms obtain w where w: "each_do (attach_message env k) new
      \<lparr>aw_tables = s, aw_readiness = [], aw_relations = [], aw_counts = []\<rparr> = Inr w"
    and s': "s' = fold (\<lambda>chunk. fold (insert_relation key) chunk) (chunks_of (999 div 10) (aw_relations w))
      (fold (delete_relations key) (chunks_of 400 (aw_counts w)) (aw_tables w))"
    by (auto simp: write_attachments_def then_do_Inr Let_def)
  from attach_messages_attached[OF w] obtain t where t: "aw_tables w = s\<lparr>tb_attachments := t\<rparr>"
    "grows (tb_attachments s) t" "aw_counts w = map wanted_count new"
    "list_all2 (\<lambda>(mid, numbered). relation_for mid numbered) (concat (map wanted new)) (aw_relations w)"
    "\<forall>rel\<in>set (aw_relations w). rl_hash (snd rel) \<in> row_keys t" by (auto simp: attached_def)
  have "s' = s\<lparr>tb_attachments := t,
      tb_relations := fold (upsert_relation_row key) (aw_relations w) (sql_delete (beyond key (map wanted_count new)) (tb_relations s))\<rparr>"
    unfolding s' using t by (simp add: delete_relations_fold insert_relation_fold)
  then show ?thesis using t by blast
qed

text \<open>All the tables after a batch.\<close>

definition content_writes :: "'f tables \<Rightarrow> topic_key \<Rightarrow> message_write list \<Rightarrow> message_write list" where
  "content_writes s0 key ws = filter (content_changed s0 key) (filter (retained s0 key) ws)"

definition batch_effect ::
  "'f tables \<Rightarrow> topic_key \<Rightarrow> message_write list \<Rightarrow> ((string \<times> nat) \<times> relation_row) list \<Rightarrow> 'f tables \<Rightarrow> bool" where
  "batch_effect s0 key ws rels s' \<longleftrightarrow>
     (\<exists>rend att. s' = s0\<lparr>
        tb_messages := fold (upsert_message_row key) (filter (retained s0 key) ws) (tb_messages s0),
        tb_render := rend,
        tb_fts := filter (\<lambda>(mk, c). mk \<notin> write_key key ` set (filter (fts_changed s0 key) (filter (retained s0 key) ws)))
            (tb_fts s0) @
          map (\<lambda>w. (write_key key w, cm_content (mw_message w))) (filter (fts_changed s0 key) (filter (retained s0 key) ws)),
        tb_attachments := att,
        tb_relations := fold (upsert_relation_row key) rels
          (sql_delete (beyond key (map wanted_count (content_writes s0 key ws))) (tb_relations s0))\<rparr> \<and>
      render_from s0 key (filter (retained s0 key) ws) (tb_render s0) rend \<and>
      grows (tb_attachments s0) att \<and>
      list_all2 (\<lambda>(mid, numbered). relation_for mid numbered) (concat (map wanted (content_writes s0 key ws))) rels \<and>
      (\<forall>rel\<in>set rels. rl_hash (snd rel) \<in> row_keys att))"

lemma tables_self:
  "s = s\<lparr>tb_messages := tb_messages s, tb_render := tb_render s, tb_fts := tb_fts s,
     tb_attachments := tb_attachments s, tb_relations := tb_relations s\<rparr>"
  by simp

lemma upsert_messages_success:
  assumes "rusqlite_upsert_messages_batch env k key ws s0 = Inr s'"
  shows "live_row tr_deleted_at (tb_topics s0) key \<and> (\<exists>rels. batch_effect s0 key ws rels s')"
proof -
  define rs where "rs = filter (retained s0 key) ws"
  have live: "live_row tr_deleted_at (tb_topics s0) key"
    using assms by (auto simp: rusqlite_upsert_messages_batch_def split: if_splits)
  show ?thesis
  proof (cases "rs = []")
    case True
    then have "s' = s0"
      using assms by (auto simp: rusqlite_upsert_messages_batch_def rs_def Let_def split: if_splits option.splits)
    then have "batch_effect s0 key ws [] s'"
      using True unfolding batch_effect_def content_writes_def rs_def[symmetric]
      by (intro exI[of _ "tb_render s0"] exI[of _ "tb_attachments s0"])
        (simp add: render_from_refl sql_delete_def beyond_def filter_True split_beta)
    then show ?thesis using live by blast
  next
    case False
    define s1 where "s1 = fold (write_messages s0 (se_now env k) key) (chunks_of (999 div 15) rs) s0"
    have w: "write_attachments env k s0 key rs (write_fts key (filter (fts_changed s0 key) rs) s1) = Inr s'"
      using assms False unfolding rusqlite_upsert_messages_batch_def rs_def s1_def
      by (auto simp: Let_def split: if_splits option.splits)
    obtain rend where s1: "s1 = s0\<lparr>tb_messages := fold (upsert_message_row key) rs (tb_messages s0), tb_render := rend\<rparr>"
      and r: "render_from s0 key rs (tb_render s0) rend"
      using write_messages_fold[of s0 "se_now env k" key "chunks_of (999 div 15) rs" s0] by (auto simp: s1_def)
    from write_attachments_success[OF w] obtain t rels where
      "s' = (write_fts key (filter (fts_changed s0 key) rs) s1)\<lparr>tb_attachments := t,
        tb_relations := fold (upsert_relation_row key) rels (sql_delete
          (beyond key (map wanted_count (filter (content_changed s0 key) rs)))
          (tb_relations (write_fts key (filter (fts_changed s0 key) rs) s1)))\<rparr>"
      "grows (tb_attachments (write_fts key (filter (fts_changed s0 key) rs) s1)) t"
      "list_all2 (\<lambda>(mid, numbered). relation_for mid numbered)
        (concat (map wanted (filter (content_changed s0 key) rs))) rels"
      "\<forall>rel\<in>set rels. rl_hash (snd rel) \<in> row_keys t" by blast
    then have "batch_effect s0 key ws rels s'"
      using r unfolding batch_effect_def content_writes_def rs_def[symmetric]
      by (intro exI[of _ rend] exI[of _ t]) (simp add: write_fts_eq s1)
    then show ?thesis using live by blast
  qed
qed

section \<open>Folded upserts\<close>

lemma fold_upsert_other:
  "k \<notin> key ` set xs \<Longrightarrow>
     map_of (fold (\<lambda>x t. fst (sql_upsert (key x) (n x) (l x) (g x) t)) xs t) k = map_of t k"
  by (induction xs arbitrary: t) (auto simp: map_of_upsert)

lemma fold_upsert_at:
  "distinct (map key xs) \<Longrightarrow> x \<in> set xs \<Longrightarrow>
     map_of (fold (\<lambda>x t. fst (sql_upsert (key x) (n x) (l x) (g x) t)) xs t) (key x) =
       (case map_of t (key x) of None \<Rightarrow> Some (n x) | Some old \<Rightarrow> Some (if l x old then g x old else old))"
proof (induction xs arbitrary: t)
  case (Cons y ys)
  show ?case
  proof (cases "x = y")
    case True
    have "key y \<notin> key ` set ys" using Cons.prems(1) by simp
    then show ?thesis using True by (auto simp: fold_upsert_other map_of_upsert split: option.splits)
  next
    case False
    then have x: "x \<in> set ys" using Cons.prems(2) by simp
    then have "key x \<noteq> key y" using Cons.prems(1) by (metis distinct.simps(2) image_eqI list.set_map list.simps(9))
    then show ?thesis using Cons.IH[of "fst (sql_upsert (key y) (n y) (l y) (g y) t)"] Cons.prems(1) x
      by (simp add: map_of_upsert)
  qed
qed simp

lemma fold_upsert_keys:
  "row_keys (fold (\<lambda>x t. fst (sql_upsert (key x) (n x) (l x) (g x) t)) xs t) = row_keys t \<union> key ` set xs"
  by (induction xs arbitrary: t) (auto simp: keys_upsert)

lemma fold_upsert_distinct:
  "distinct (map fst t) \<Longrightarrow>
     distinct (map fst (fold (\<lambda>x t. fst (sql_upsert (key x) (n x) (l x) (g x) t)) xs t))"
  by (induction xs arbitrary: t) (auto simp: distinct_upsert)

lemma set_update_subset: "set (AList.update k v t) \<subseteq> insert (k, v) (set t)"
  by (induction t) auto

lemma set_upsert_subset:
  "set (fst (sql_upsert k n l g t)) \<subseteq> insert (k, n) (set t) \<union> {(k, g r) |r. map_of t k = Some r}"
proof (cases "map_of t k")
  case (Some r)
  then show ?thesis using set_update_subset[of k "g r" t] by (auto simp: sql_upsert_def)
qed (auto simp: sql_upsert_def)

section \<open>The messages after a batch\<close>

definition distinct_ids :: "message_write list \<Rightarrow> bool" where
  "distinct_ids ws \<longleftrightarrow> distinct (map (\<lambda>w. cm_id (mw_message w)) ws)"

lemma distinct_ids_keys: "distinct_ids ws \<Longrightarrow> distinct (map (write_key key) ws)"
  unfolding distinct_ids_def write_key_def by (induction ws) auto

lemma distinct_ids_filter: "distinct_ids ws \<Longrightarrow> distinct_ids (filter P ws)"
  by (simp add: distinct_ids_def distinct_map_filter)

lemma batch_messages:
  assumes "batch_effect s0 key ws rels s'"
  shows "tb_messages s' = fold (upsert_message_row key) (filter (retained s0 key) ws) (tb_messages s0)"
  using assms by (auto simp: batch_effect_def)

text \<open>A write that is kept leaves its row, one that is not leaves the row that was there.\<close>

lemma batch_row:
  assumes e: "batch_effect s0 key ws rels s'" and d: "distinct_ids ws" and w: "w \<in> set ws"
  shows "map_of (tb_messages s') (write_key key w) =
    (if retained s0 key w
     then Some (case existing_state s0 key w of None \<Rightarrow> new_messages_row w | Some r \<Rightarrow> set_messages_row w r)
     else existing_state s0 key w)"
proof (cases "retained s0 key w")
  case True
  then have "map_of (tb_messages s') (write_key key w) = (case map_of (tb_messages s0) (write_key key w) of
      None \<Rightarrow> Some (new_messages_row w)
    | Some old \<Rightarrow> Some (if mr_deleted_at old = None then set_messages_row w old else old))"
    unfolding batch_messages[OF e]
    by (intro fold_upsert_at distinct_ids_keys distinct_ids_filter d) (simp add: w)
  then show ?thesis using True by (auto simp: existing_state_def retained_def split: option.splits)
next
  case False
  have "write_key key w \<notin> write_key key ` set (filter (retained s0 key) ws)"
  proof
    assume "write_key key w \<in> write_key key ` set (filter (retained s0 key) ws)"
    then obtain v where v: "v \<in> set ws" "retained s0 key v" "write_key key v = write_key key w" by auto
    then have "v = w" using distinct_ids_keys[OF d, of key] w by (simp add: distinct_map inj_on_def)
    then show False using v(2) False by simp
  qed
  then show ?thesis using False by (simp add: batch_messages[OF e] fold_upsert_other existing_state_def)
qed

lemma new_messages_row_simps [simp]:
  "mr_content_hash (new_messages_row w) = mw_hash w"
  "mr_updated_at (new_messages_row w) = sint (updated_at_of (mw_message w))"
  "mr_content (new_messages_row w) = cm_content (mw_message w)"
  "mr_deleted_at (new_messages_row w) = None"
  by (simp_all add: new_messages_row_def Let_def)

lemma set_messages_row_simps [simp]:
  "mr_content_hash (set_messages_row w r) = mw_hash w"
  "mr_updated_at (set_messages_row w r) = sint (updated_at_of (mw_message w))"
  "mr_content (set_messages_row w r) = cm_content (mw_message w)"
  "mr_deleted_at (set_messages_row w r) = mr_deleted_at r"
  "mr_created_at (set_messages_row w r) = mr_created_at r"
  by (simp_all add: set_messages_row_def)

lemma batch_settles:
  assumes "batch_effect s0 key ws rels s'" "distinct_ids ws" "w \<in> set ws"
  shows "\<not> retained s' key w"
  using batch_row[OF assms] unfolding retained_def existing_state_def
  by (auto split: option.splits if_splits)

lemma batch_topics: "batch_effect s0 key ws rels s' \<Longrightarrow> tb_topics s' = tb_topics s0"
  by (auto simp: batch_effect_def)

end
