(* ===== verification/Sync_Store_Laws.thy ===== *)
theory Sync_Store_Laws
  imports Sync_Upserts_Laws
begin

text \<open>
  What the statements of the write queue keep: no deleted row changes or comes back, keys and references
  stay sound, the root hash of an owner goes stale only where a topic changed, and the full-text index
  has the content of each live message once.
\<close>

section \<open>Tombstones\<close>

text \<open>A deleted row stays as it is, a live one stays live, a new one is live.\<close>

definition row_kept :: "('r \<Rightarrow> int option) \<Rightarrow> 'r option \<Rightarrow> 'r option \<Rightarrow> bool" where
  "row_kept del old new_row \<longleftrightarrow>
     (case (old, new_row) of
        (None, None) \<Rightarrow> True
      | (None, Some r') \<Rightarrow> del r' = None
      | (Some r, None) \<Rightarrow> False
      | (Some r, Some r') \<Rightarrow> del r' = del r \<and> (del r = None \<or> r' = r))"

lemma row_kept_simps [simp]:
  "row_kept del x x"
  "row_kept del None (Some r') \<longleftrightarrow> del r' = None"
  "\<not> row_kept del (Some r) None"
  "row_kept del (Some r) (Some r') \<longleftrightarrow> del r' = del r \<and> (del r = None \<or> r' = r)"
  by (auto simp: row_kept_def split: option.splits)

lemma row_kept_trans: "row_kept del a b \<Longrightarrow> row_kept del b c \<Longrightarrow> row_kept del a c"
  by (cases a; cases b; cases c) auto

definition rows_kept :: "('r \<Rightarrow> int option) \<Rightarrow> ('k \<times> 'r) list \<Rightarrow> ('k \<times> 'r) list \<Rightarrow> bool" where
  "rows_kept del t t' \<longleftrightarrow> (\<forall>k\<in>row_keys t \<union> row_keys t'. row_kept del (map_of t k) (map_of t' k))"

lemma rows_kept_iff: "rows_kept del t t' \<longleftrightarrow> (\<forall>k. row_kept del (map_of t k) (map_of t' k))"
proof -
  have "row_kept del (map_of t k) (map_of t' k)" if "k \<notin> row_keys t \<union> row_keys t'" for k
    using that by (simp add: row_keys_map_of)
  then show ?thesis unfolding rows_kept_def by blast
qed

lemma rows_kept_refl [simp]: "rows_kept del t t"
  by (simp add: rows_kept_iff)

lemma rows_kept_trans: "rows_kept del a b \<Longrightarrow> rows_kept del b c \<Longrightarrow> rows_kept del a c"
  unfolding rows_kept_iff by (blast intro: row_kept_trans)

lemma rows_kept_upsert:
  "del n = None \<Longrightarrow> (\<And>r. del (g r) = del r) \<Longrightarrow>
     rows_kept del t (fst (sql_upsert k n (\<lambda>r. del r = None) g t))"
  unfolding rows_kept_iff by (auto simp: map_of_upsert split: option.splits)

lemma rows_kept_update:
  assumes "\<And>r. del (g r) = del r"
  shows "rows_kept del t (fst (sql_update k (\<lambda>r. del r = None) g t))"
  unfolding rows_kept_iff
proof
  fix i
  show "row_kept del (map_of t i) (map_of (fst (sql_update k (\<lambda>r. del r = None) g t)) i)"
    using assms by (cases "map_of t i") (auto simp: map_of_update)
qed

definition tombstones_kept :: "'f tables \<Rightarrow> 'f tables \<Rightarrow> bool" where
  "tombstones_kept s s' \<longleftrightarrow>
     rows_kept ar_deleted_at (tb_agents s) (tb_agents s') \<and>
     rows_kept gr_deleted_at (tb_groups s) (tb_groups s') \<and>
     rows_kept vr_deleted_at (tb_avatars s) (tb_avatars s') \<and>
     rows_kept tr_deleted_at (tb_topics s) (tb_topics s') \<and>
     rows_kept mr_deleted_at (tb_messages s) (tb_messages s')"

lemma tombstones_refl: "tombstones_kept s s" by (simp add: tombstones_kept_def)

lemma tombstones_trans: "tombstones_kept a b \<Longrightarrow> tombstones_kept b c \<Longrightarrow> tombstones_kept a c"
  unfolding tombstones_kept_def by (blast intro: rows_kept_trans)

lemma row_deleted_simps [simp]:
  "ar_deleted_at (new_agents_row env now adto) = None"
  "ar_deleted_at (set_agents_row env now adto ar) = ar_deleted_at ar"
  "ar_content_hash (new_agents_row env now adto) = []"
  "ar_content_hash (set_agents_row env now adto ar) = ar_content_hash ar"
  "gr_deleted_at (new_groups_row env now gdto) = None"
  "gr_deleted_at (set_groups_row env now gdto gr) = gr_deleted_at gr"
  "gr_content_hash (new_groups_row env now gdto) = []"
  "gr_content_hash (set_groups_row env now gdto gr) = gr_content_hash gr"
  "vr_deleted_at (new_avatars_row env now mime bytes) = None"
  "vr_deleted_at (set_avatars_row env now mime bytes vr) = vr_deleted_at vr"
  "tr_deleted_at (agent_topic_row atd) = None" "tr_deleted_at (set_agent_topic atd tr) = tr_deleted_at tr"
  "tr_deleted_at (group_topic_row gtd) = None" "tr_deleted_at (set_group_topic gtd tr) = tr_deleted_at tr"
  by (simp_all add: new_agents_row_def set_agents_row_def new_groups_row_def set_groups_row_def
      new_avatars_row_def set_avatars_row_def agent_topic_row_def group_topic_row_def new_topics_row_def
      set_agent_topic_def set_group_topic_def)

lemma messages_kept: "rows_kept mr_deleted_at t (fold (upsert_message_row key) ws t)"
proof (induction ws arbitrary: t)
  case (Cons w ws)
  have "rows_kept mr_deleted_at t (upsert_message_row key w t)" by (rule rows_kept_upsert) simp_all
  then show ?case using Cons.IH[of "upsert_message_row key w t"] by (auto intro: rows_kept_trans)
qed simp

lemma tombstones_agent: "rusqlite_upsert_agent env k i dto s = Inr s' \<Longrightarrow> tombstones_kept s s'"
  by (auto simp: upsert_agent_success tombstones_kept_def intro!: rows_kept_upsert)

lemma tombstones_group: "rusqlite_upsert_group env k i dto s = Inr s' \<Longrightarrow> tombstones_kept s s'"
  by (auto simp: upsert_group_success tombstones_kept_def intro!: rows_kept_upsert)

lemma tombstones_avatar: "rusqlite_upsert_avatar env k ot oi mime bytes s = Inr s' \<Longrightarrow> tombstones_kept s s'"
  by (auto simp: upsert_avatar_success tombstones_kept_def intro!: rows_kept_upsert)

lemma tombstones_agent_topic: "rusqlite_upsert_agent_topic key dto s = Inr s' \<Longrightarrow> tombstones_kept s s'"
  by (auto simp: upsert_agent_topic_success tombstones_kept_def intro!: rows_kept_upsert)

lemma tombstones_group_topic: "rusqlite_upsert_group_topic key dto s = Inr s' \<Longrightarrow> tombstones_kept s s'"
  by (auto simp: upsert_group_topic_success tombstones_kept_def intro!: rows_kept_upsert)

lemma tombstones_messages: "rusqlite_upsert_messages_batch env k key ws s = Inr s' \<Longrightarrow> tombstones_kept s s'"
  by (drule upsert_messages_success) (auto simp: batch_effect_def tombstones_kept_def messages_kept)

lemma bubble_agent_success:
  "rusqlite_bubble_agent_hash env i s = Inr s' \<longleftrightarrow>
     live_row ar_deleted_at (tb_agents s) i \<and>
     s' = s\<lparr>tb_agents := fst (sql_update i (\<lambda>r. ar_deleted_at r = None)
        (\<lambda>r. r\<lparr>ar_content_hash := owner_root env s ''agent'' i\<rparr>) (tb_agents s))\<rparr>"
  by (auto simp: rusqlite_bubble_agent_hash_def sql_update_def live_row_def split: option.splits)

lemma bubble_group_success:
  "rusqlite_bubble_group_hash env i s = Inr s' \<longleftrightarrow>
     live_row gr_deleted_at (tb_groups s) i \<and>
     s' = s\<lparr>tb_groups := fst (sql_update i (\<lambda>r. gr_deleted_at r = None)
        (\<lambda>r. r\<lparr>gr_content_hash := owner_root env s ''group'' i\<rparr>) (tb_groups s))\<rparr>"
  by (auto simp: rusqlite_bubble_group_hash_def sql_update_def live_row_def split: option.splits)

lemma tombstones_bubble_agent: "rusqlite_bubble_agent_hash env i s = Inr s' \<Longrightarrow> tombstones_kept s s'"
  by (auto simp: bubble_agent_success tombstones_kept_def intro!: rows_kept_update)

lemma tombstones_bubble_group: "rusqlite_bubble_group_hash env i s = Inr s' \<Longrightarrow> tombstones_kept s s'"
  by (auto simp: bubble_group_success tombstones_kept_def intro!: rows_kept_update)

section \<open>Keys and references\<close>

definition keys_unique :: "'f tables \<Rightarrow> bool" where
  "keys_unique s \<longleftrightarrow>
     distinct (map fst (tb_agents s)) \<and> distinct (map fst (tb_groups s)) \<and> distinct (map fst (tb_members s)) \<and>
     distinct (map fst (tb_avatars s)) \<and> distinct (map fst (tb_topics s)) \<and> distinct (map fst (tb_messages s)) \<and>
     distinct (map fst (tb_render s)) \<and> distinct (map fst (tb_relations s)) \<and> distinct (map fst (tb_attachments s)) \<and>
     distinct (map fst (tb_active s))"

definition owner_live :: "'f tables \<Rightarrow> string \<Rightarrow> string \<Rightarrow> bool" where
  "owner_live s ot oi \<longleftrightarrow> ot \<noteq> ''user'' \<and> parent_is_live ot oi s"

definition owners_sound :: "'f tables \<Rightarrow> bool" where
  "owners_sound s \<longleftrightarrow>
     (\<forall>key\<in>row_keys (tb_topics s). live_row tr_deleted_at (tb_topics s) key \<longrightarrow>
        owner_live s (tk_owner_type key) (tk_owner_id key)) \<and>
     (\<forall>(ot, oi)\<in>row_keys (tb_avatars s). live_row vr_deleted_at (tb_avatars s) (ot, oi) \<longrightarrow> parent_is_live ot oi s) \<and>
     (\<forall>(g, m)\<in>row_keys (tb_members s). live_row gr_deleted_at (tb_groups s) g \<and> \<not> tombstoned_agent s m)"

text \<open>What refers to a message refers to a live one.\<close>

definition message_refs :: "'f tables \<Rightarrow> message_key set" where
  "message_refs s = row_keys (tb_render s) \<union> row_keys (tb_fts s) \<union> fst ` row_keys (tb_relations s) \<union> row_keys (tb_active s)"

definition messages_sound :: "'f tables \<Rightarrow> bool" where
  "messages_sound s \<longleftrightarrow>
     (\<forall>mk\<in>row_keys (tb_messages s). mk_topic mk \<in> row_keys (tb_topics s) \<and>
        (live_row mr_deleted_at (tb_messages s) mk \<longrightarrow> live_row tr_deleted_at (tb_topics s) (mk_topic mk))) \<and>
     (\<forall>mk\<in>message_refs s. live_row mr_deleted_at (tb_messages s) mk) \<and>
     rl_hash ` snd ` set (tb_relations s) \<subseteq> row_keys (tb_attachments s)"

definition store_sound :: "'f tables \<Rightarrow> bool" where
  "store_sound s \<longleftrightarrow> keys_unique s \<and> owners_sound s \<and> messages_sound s"

lemma live_row_iff: "live_row del t k \<longleftrightarrow> (\<exists>r. map_of t k = Some r \<and> del r = None)"
  by (auto simp: live_row_def split: option.splits)

lemma live_row_key: "live_row del t k \<Longrightarrow> k \<in> row_keys t"
  by (auto simp: live_row_iff row_keys_map_of)

lemma live_upsert:
  assumes "del n = None" "\<And>r. del (g r) = del r" "writable del t k"
  shows "live_row del (fst (sql_upsert k n (\<lambda>r. del r = None) g t)) i \<longleftrightarrow> i = k \<or> live_row del t i"
  using assms by (auto simp: live_row_iff map_of_upsert writable_def split: option.splits)

lemma live_update:
  assumes "\<And>r. del (g r) = del r"
  shows "live_row del (fst (sql_update k l g t)) i \<longleftrightarrow> live_row del t i"
proof (cases "i = k")
  case True
  then show ?thesis using assms by (cases "map_of t k") (auto simp: live_row_iff map_of_update)
qed (simp add: live_row_iff map_of_update)

lemma tombstoned_agent_iff:
  "tombstoned_agent s m \<longleftrightarrow> (\<exists>r. map_of (tb_agents s) m = Some r \<and> ar_deleted_at r \<noteq> None)"
  by (auto simp: tombstoned_agent_def split: option.splits)

lemma owners_sound_iff:
  "owners_sound s \<longleftrightarrow>
     (\<forall>key. live_row tr_deleted_at (tb_topics s) key \<longrightarrow> owner_live s (tk_owner_type key) (tk_owner_id key)) \<and>
     (\<forall>ot oi. live_row vr_deleted_at (tb_avatars s) (ot, oi) \<longrightarrow> parent_is_live ot oi s) \<and>
     (\<forall>g m. (g, m) \<in> row_keys (tb_members s) \<longrightarrow> live_row gr_deleted_at (tb_groups s) g \<and> \<not> tombstoned_agent s m)"
  unfolding owners_sound_def by (auto dest: live_row_key)

lemma parent_is_live_mono:
  assumes "\<And>i. live_row ar_deleted_at (tb_agents s) i \<Longrightarrow> live_row ar_deleted_at (tb_agents s') i"
    "\<And>i. live_row gr_deleted_at (tb_groups s) i \<Longrightarrow> live_row gr_deleted_at (tb_groups s') i"
  shows "parent_is_live ot oi s \<Longrightarrow> parent_is_live ot oi s'"
  using assms by (auto simp: parent_is_live_def split: if_splits)

lemma owner_live_mono:
  assumes "\<And>i. live_row ar_deleted_at (tb_agents s) i \<Longrightarrow> live_row ar_deleted_at (tb_agents s') i"
    "\<And>i. live_row gr_deleted_at (tb_groups s) i \<Longrightarrow> live_row gr_deleted_at (tb_groups s') i"
  shows "owner_live s ot oi \<Longrightarrow> owner_live s' ot oi"
  using assms by (auto simp: owner_live_def intro: parent_is_live_mono)

text \<open>The owners stay sound when no owner is lost and what is new has a live owner.\<close>

lemma owners_sound_grow:
  assumes "owners_sound s"
    "\<And>i. live_row ar_deleted_at (tb_agents s) i \<Longrightarrow> live_row ar_deleted_at (tb_agents s') i"
    "\<And>i. live_row gr_deleted_at (tb_groups s) i \<Longrightarrow> live_row gr_deleted_at (tb_groups s') i"
    "\<And>m. tombstoned_agent s' m \<Longrightarrow> tombstoned_agent s m"
    "\<And>key. live_row tr_deleted_at (tb_topics s') key \<Longrightarrow> live_row tr_deleted_at (tb_topics s) key \<or>
      owner_live s (tk_owner_type key) (tk_owner_id key)"
    "\<And>ot oi. live_row vr_deleted_at (tb_avatars s') (ot, oi) \<Longrightarrow> live_row vr_deleted_at (tb_avatars s) (ot, oi) \<or>
      parent_is_live ot oi s"
    "\<And>g m. (g, m) \<in> row_keys (tb_members s') \<Longrightarrow> (g, m) \<in> row_keys (tb_members s) \<or>
      live_row gr_deleted_at (tb_groups s') g \<and> \<not> tombstoned_agent s' m"
  shows "owners_sound s'"
proof -
  note mono = parent_is_live_mono[of s s', OF assms(2,3)] owner_live_mono[of s s', OF assms(2,3)]
  have old: "live_row tr_deleted_at (tb_topics s) key \<Longrightarrow> owner_live s (tk_owner_type key) (tk_owner_id key)"
    "live_row vr_deleted_at (tb_avatars s) (ot, oi) \<Longrightarrow> parent_is_live ot oi s"
    "(g, m) \<in> row_keys (tb_members s) \<Longrightarrow> live_row gr_deleted_at (tb_groups s) g \<and> \<not> tombstoned_agent s m"
    for key ot oi g m using assms(1) by (auto simp: owners_sound_iff)
  show ?thesis unfolding owners_sound_iff
  proof (intro conjI allI impI)
    fix key assume "live_row tr_deleted_at (tb_topics s') key"
    then show "owner_live s' (tk_owner_type key) (tk_owner_id key)" using assms(5) old(1) mono(2) by blast
  next
    fix ot oi assume "live_row vr_deleted_at (tb_avatars s') (ot, oi)"
    then show "parent_is_live ot oi s'" using assms(6) old(2) mono(1) by blast
  next
    fix g m assume "(g, m) \<in> row_keys (tb_members s')"
    then show "live_row gr_deleted_at (tb_groups s') g" using assms(3,7) old(3) by blast
  next
    fix g m assume "(g, m) \<in> row_keys (tb_members s')"
    then show "\<not> tombstoned_agent s' m" using assms(4,7) old(3) by blast
  qed
qed

lemma insert_members_result:
  "insert_members env g now i ms t = Inr t' \<Longrightarrow>
     (distinct (map fst t) \<longrightarrow> distinct (map fst t')) \<and> row_keys t' \<subseteq> row_keys t \<union> Pair g ` set ms"
proof (induction env g now i ms t rule: insert_members.induct)
  case (2 env g now i m ms t)
  then have "map_of t (g, m) = None" by (auto split: if_splits)
  then have "(g, m) \<notin> set (map fst t)" by (simp add: map_of_eq_None_iff)
  then show ?case using 2 by (auto simp: row_keys_def split: if_splits)
qed simp

text \<open>Rows of owners, members and avatars, written over ones that are not deleted.\<close>

lemma sound_agent_row:
  assumes "store_sound s" "writable ar_deleted_at (tb_agents s) i" "ar_deleted_at n = None"
    "\<And>r. ar_deleted_at (g r) = ar_deleted_at r"
  shows "store_sound (s\<lparr>tb_agents := fst (sql_upsert i n (\<lambda>r. ar_deleted_at r = None) g (tb_agents s))\<rparr>)"
proof -
  define t where "t = fst (sql_upsert i n (\<lambda>r. ar_deleted_at r = None) g (tb_agents s))"
  let ?s = "s\<lparr>tb_agents := t\<rparr>"
  have live: "live_row ar_deleted_at t j \<longleftrightarrow> j = i \<or> live_row ar_deleted_at (tb_agents s) j" for j
    unfolding t_def by (rule live_upsert[OF assms(3,4,2)])
  have dead: "tombstoned_agent ?s m \<Longrightarrow> tombstoned_agent s m" for m
    using assms(3,4) by (auto simp: tombstoned_agent_iff t_def map_of_upsert split: if_splits option.splits)
  have "owners_sound ?s"
    by (rule owners_sound_grow[of s]) (use assms(1) dead in \<open>auto simp: store_sound_def live\<close>)
  then show ?thesis using assms(1)
    by (simp add: t_def store_sound_def keys_unique_def distinct_upsert messages_sound_def message_refs_def)
qed

lemma sound_agent: "rusqlite_upsert_agent env k i dto s = Inr s' \<Longrightarrow> store_sound s \<Longrightarrow> store_sound s'"
  by (auto simp: upsert_agent_success intro!: sound_agent_row)

lemma sound_group_rows:
  assumes "store_sound s" "writable gr_deleted_at (tb_groups s) i" "gr_deleted_at n = None"
    "\<And>r. gr_deleted_at (f r) = gr_deleted_at r" "\<forall>m\<in>set ms. \<not> tombstoned_agent s m"
    "insert_members env i now 0 ms (sql_delete (\<lambda>((g, m), r). g = i) (tb_members s)) = Inr members"
  shows "store_sound (s\<lparr>tb_groups := fst (sql_upsert i n (\<lambda>r. gr_deleted_at r = None) f (tb_groups s)), tb_members := members\<rparr>)"
proof -
  define t where "t = sql_delete (\<lambda>((g, m), r). g = i) (tb_members s)"
  define gs where "gs = fst (sql_upsert i n (\<lambda>r. gr_deleted_at r = None) f (tb_groups s))"
  let ?s = "s\<lparr>tb_groups := gs, tb_members := members\<rparr>"
  note m = assms(6)[folded t_def]
  have live: "live_row gr_deleted_at gs j \<longleftrightarrow> j = i \<or> live_row gr_deleted_at (tb_groups s) j" for j
    unfolding gs_def by (rule live_upsert[OF assms(3,4,2)])
  have t: "row_keys t \<subseteq> row_keys (tb_members s)" "distinct (map fst t)"
    using assms(1) distinct_delete[of "tb_members s"] unfolding t_def
    by (auto simp: store_sound_def keys_unique_def intro: subsetD[OF row_keys_delete])
  have dead: "tombstoned_agent ?s m \<longleftrightarrow> tombstoned_agent s m" for m by (simp add: tombstoned_agent_iff)
  have new: "g = i \<and> \<not> tombstoned_agent s m"
    if "(g, m) \<in> row_keys members" "(g, m) \<notin> row_keys (tb_members s)" for g m
    using insert_members_result[OF m] t(1) that assms(5) by auto
  have "owners_sound ?s"
  proof (rule owners_sound_grow[of s])
    fix g m assume "(g, m) \<in> row_keys (tb_members ?s)"
    then show "(g, m) \<in> row_keys (tb_members s) \<or> live_row gr_deleted_at (tb_groups ?s) g \<and> \<not> tombstoned_agent ?s m"
      using new[of g m] by (auto simp: live dead)
  qed (use assms(1) dead in \<open>auto simp: store_sound_def live\<close>)
  moreover have "keys_unique ?s"
    using assms(1) insert_members_result[OF m] t(2) by (simp add: gs_def store_sound_def keys_unique_def distinct_upsert)
  moreover have "messages_sound ?s" using assms(1) by (simp add: store_sound_def messages_sound_def message_refs_def)
  ultimately show ?thesis by (simp add: store_sound_def gs_def)
qed

lemma sound_group: "rusqlite_upsert_group env k i dto s = Inr s' \<Longrightarrow> store_sound s \<Longrightarrow> store_sound s'"
  by (auto simp: upsert_group_success canonical_dto_def intro!: sound_group_rows)

lemma sound_avatar_row:
  assumes "store_sound s" "writable vr_deleted_at (tb_avatars s) (ot, oi)" "vr_deleted_at n = None"
    "\<And>r. vr_deleted_at (g r) = vr_deleted_at r" "parent_is_live ot oi s"
  shows "store_sound (s\<lparr>tb_avatars := fst (sql_upsert (ot, oi) n (\<lambda>r. vr_deleted_at r = None) g (tb_avatars s))\<rparr>)"
proof -
  define t where "t = fst (sql_upsert (ot, oi) n (\<lambda>r. vr_deleted_at r = None) g (tb_avatars s))"
  have live: "live_row vr_deleted_at t j \<longleftrightarrow> j = (ot, oi) \<or> live_row vr_deleted_at (tb_avatars s) j" for j
    unfolding t_def by (rule live_upsert[OF assms(3,4,2)])
  have "owners_sound (s\<lparr>tb_avatars := t\<rparr>)"
    by (rule owners_sound_grow[of s]) (use assms(1,5) in \<open>auto simp: store_sound_def live tombstoned_agent_iff\<close>)
  then show ?thesis using assms(1)
    by (simp add: t_def store_sound_def keys_unique_def distinct_upsert messages_sound_def message_refs_def)
qed

lemma sound_avatar: "rusqlite_upsert_avatar env k ot oi mime bytes s = Inr s' \<Longrightarrow> store_sound s \<Longrightarrow> store_sound s'"
  by (auto simp: upsert_avatar_success intro!: sound_avatar_row)

text \<open>A topic of a live owner, written over one that is not deleted.\<close>

lemma sound_topic:
  assumes "store_sound s" "writable tr_deleted_at (tb_topics s) key"
    "owner_live s (tk_owner_type key) (tk_owner_id key)" "tr_deleted_at n = None" "\<And>r. tr_deleted_at (g r) = tr_deleted_at r"
  shows "store_sound (s\<lparr>tb_topics := fst (sql_upsert key n (\<lambda>r. tr_deleted_at r = None) g (tb_topics s))\<rparr>)"
proof -
  define t where "t = fst (sql_upsert key n (\<lambda>r. tr_deleted_at r = None) g (tb_topics s))"
  have live: "live_row tr_deleted_at t j \<longleftrightarrow> j = key \<or> live_row tr_deleted_at (tb_topics s) j" for j
    unfolding t_def by (rule live_upsert[OF assms(4,5,2)])
  have keys: "row_keys t = insert key (row_keys (tb_topics s))" by (simp add: t_def keys_upsert)
  have "owners_sound (s\<lparr>tb_topics := t\<rparr>)"
    by (rule owners_sound_grow[of s]) (use assms(1,3) in \<open>auto simp: store_sound_def live tombstoned_agent_iff\<close>)
  moreover have "messages_sound (s\<lparr>tb_topics := t\<rparr>)" using assms(1)
    by (auto simp: store_sound_def messages_sound_def message_refs_def keys live)
  moreover have "keys_unique (s\<lparr>tb_topics := t\<rparr>)" using assms(1)
    by (simp add: t_def store_sound_def keys_unique_def distinct_upsert)
  ultimately show ?thesis by (simp add: store_sound_def t_def)
qed

lemma sound_agent_topic: "rusqlite_upsert_agent_topic key dto s = Inr s' \<Longrightarrow> store_sound s \<Longrightarrow> store_sound s'"
  by (auto simp: upsert_agent_topic_success owner_live_def parent_is_live_def intro!: sound_topic)

lemma sound_group_topic: "rusqlite_upsert_group_topic key dto s = Inr s' \<Longrightarrow> store_sound s \<Longrightarrow> store_sound s'"
  by (auto simp: upsert_group_topic_success owner_live_def parent_is_live_def intro!: sound_topic)

text \<open>A statement that keeps which owners are live and deleted.\<close>

lemma owners_sound_same:
  assumes "\<And>i. live_row ar_deleted_at (tb_agents s') i = live_row ar_deleted_at (tb_agents s) i"
    "\<And>i. live_row gr_deleted_at (tb_groups s') i = live_row gr_deleted_at (tb_groups s) i"
    "\<And>m. tombstoned_agent s' m = tombstoned_agent s m"
    "\<And>key. live_row tr_deleted_at (tb_topics s') key = live_row tr_deleted_at (tb_topics s) key"
    "tb_avatars s' = tb_avatars s" "tb_members s' = tb_members s"
  shows "owners_sound s \<Longrightarrow> owners_sound s'"
  by (rule owners_sound_grow[of s]) (simp_all add: assms)

lemma sound_bubble_agent:
  assumes "rusqlite_bubble_agent_hash env i s = Inr s'" "store_sound s"
  shows "store_sound s'"
proof -
  define t where "t = fst (sql_update i (\<lambda>r. ar_deleted_at r = None)
    (\<lambda>r. r\<lparr>ar_content_hash := owner_root env s ''agent'' i\<rparr>) (tb_agents s))"
  have s': "s' = s\<lparr>tb_agents := t\<rparr>" using assms(1) by (auto simp: bubble_agent_success t_def)
  have dead: "tombstoned_agent s' m \<longleftrightarrow> tombstoned_agent s m" for m
    by (cases "map_of (tb_agents s) m") (auto simp: tombstoned_agent_def s' t_def map_of_update split: if_splits)
  have "owners_sound s'"
    by (rule owners_sound_same[of s' s])
      (use assms(2) dead in \<open>simp_all add: store_sound_def s' t_def live_update\<close>)
  then show ?thesis using assms(2)
    by (simp add: s' t_def store_sound_def keys_unique_def distinct_sql_update messages_sound_def message_refs_def)
qed

lemma sound_bubble_group:
  assumes "rusqlite_bubble_group_hash env i s = Inr s'" "store_sound s"
  shows "store_sound s'"
proof -
  define t where "t = fst (sql_update i (\<lambda>r. gr_deleted_at r = None)
    (\<lambda>r. r\<lparr>gr_content_hash := owner_root env s ''group'' i\<rparr>) (tb_groups s))"
  have s': "s' = s\<lparr>tb_groups := t\<rparr>" using assms(1) by (auto simp: bubble_group_success t_def)
  have "owners_sound s'"
    by (rule owners_sound_same[of s' s])
      (use assms(2) in \<open>auto simp: store_sound_def s' t_def live_update tombstoned_agent_iff\<close>)
  then show ?thesis using assms(2)
    by (simp add: s' t_def store_sound_def keys_unique_def distinct_sql_update messages_sound_def message_refs_def)
qed

lemma list_all2_first: "list_all2 P xs ys \<Longrightarrow> y \<in> set ys \<Longrightarrow> \<exists>x\<in>set xs. P x y"
  by (metis in_set_conv_nth list_all2_conv_all_nth)

lemma relation_of_write:
  assumes "list_all2 (\<lambda>(mid, numbered). relation_for mid numbered) (concat (map wanted ws)) rels" "rel \<in> set rels"
  shows "\<exists>w\<in>set ws. MessageKey key (fst (fst rel)) = write_key key w"
proof -
  obtain x where x: "x \<in> set (concat (map wanted ws))" "(\<lambda>(mid, numbered). relation_for mid numbered) x rel"
    using list_all2_first[OF assms] by blast
  then obtain w where "w \<in> set ws" "x \<in> set (wanted w)" by auto
  then show ?thesis using x(2) by (auto simp: wanted_def Let_def relation_for_def write_key_def)
qed

definition relation_entry ::
  "topic_key \<Rightarrow> (string \<times> nat) \<times> relation_row \<Rightarrow> (message_key \<times> nat) \<times> relation_row" where
  "relation_entry key rel = ((MessageKey key (fst (fst rel)), snd (fst rel)), snd rel)"

lemma relation_entry_simps [simp]:
  "fst (fst (relation_entry key rel)) = MessageKey key (fst (fst rel))"
  "snd (fst (relation_entry key rel)) = snd (fst rel)"
  "snd (relation_entry key rel) = snd rel"
  by (simp_all add: relation_entry_def)

lemma fold_relation_set:
  "set (fold (upsert_relation_row key) rels t) \<subseteq> set t \<union> relation_entry key ` set rels"
proof (induction rels arbitrary: t)
  case (Cons rel rels)
  have "set (upsert_relation_row key rel t) \<subseteq> insert (relation_entry key rel) (set t)"
    unfolding relation_entry_def using set_upsert_subset by fastforce
  then show ?case using Cons.IH[of "upsert_relation_row key rel t"] by auto
qed simp

lemma rows_kept_live:
  assumes "rows_kept del t t'"
  shows "live_row del t' k \<longleftrightarrow> k \<in> row_keys t' \<and> writable del t k"
proof -
  have "row_kept del (map_of t k) (map_of t' k)" using assms by (simp add: rows_kept_iff)
  then show ?thesis
    by (cases "map_of t k"; cases "map_of t' k") (auto simp: live_row_iff writable_def row_keys_map_of)
qed

lemma live_writable: "live_row del t k \<Longrightarrow> writable del t k"
  by (auto simp: live_row_iff writable_def)

lemma batch_live:
  assumes e: "batch_effect s key ws rels s'"
  shows "live_row mr_deleted_at (tb_messages s') mk \<longleftrightarrow>
     live_row mr_deleted_at (tb_messages s) mk \<or> mk \<in> write_key key ` set (filter (retained s key) ws)"
proof -
  have m: "tb_messages s' = fold (upsert_message_row key) (filter (retained s key) ws) (tb_messages s)"
    by (rule batch_messages[OF e])
  have "writable mr_deleted_at (tb_messages s) (write_key key w)" if "retained s key w" for w
    using that by (auto simp: retained_def existing_state_def writable_def split: option.splits)
  moreover have "live_row mr_deleted_at (tb_messages s) mk"
    if "mk \<in> row_keys (tb_messages s)" "writable mr_deleted_at (tb_messages s) mk"
    using that by (auto simp: writable_def live_row_iff row_keys_map_of)
  ultimately show ?thesis
    unfolding m rows_kept_live[OF messages_kept] fold_upsert_keys
    by (auto dest: live_row_key live_writable)
qed

lemma batch_refs:
  assumes e: "batch_effect s key ws rels s'"
  shows "message_refs s' \<subseteq> message_refs s \<union> write_key key ` set (filter (retained s key) ws)"
    and "rl_hash ` snd ` set (tb_relations s) \<subseteq> row_keys (tb_attachments s) \<Longrightarrow>
      rl_hash ` snd ` set (tb_relations s') \<subseteq> row_keys (tb_attachments s')"
proof -
  define rs where "rs = filter (retained s key) ws"
  define fs where "fs = filter (fts_changed s key) rs"
  define new where "new = content_writes s key ws"
  define old where "old = sql_delete (beyond key (map wanted_count new)) (tb_relations s)"
  from e obtain rend att where
    s': "s' = s\<lparr>tb_messages := fold (upsert_message_row key) rs (tb_messages s), tb_render := rend,
      tb_fts := filter (\<lambda>(mk, c). mk \<notin> write_key key ` set fs) (tb_fts s) @
        map (\<lambda>w. (write_key key w, cm_content (mw_message w))) fs,
      tb_attachments := att, tb_relations := fold (upsert_relation_row key) rels old\<rparr>"
    and rend: "render_from s key rs (tb_render s) rend" and att: "grows (tb_attachments s) att"
    and rels: "list_all2 (\<lambda>(mid, numbered). relation_for mid numbered) (concat (map wanted new)) rels"
    and hashes: "\<forall>rel\<in>set rels. rl_hash (snd rel) \<in> row_keys att"
    unfolding batch_effect_def rs_def fs_def new_def old_def by blast
  have sub: "set fs \<subseteq> set rs" "set new \<subseteq> set rs" by (auto simp: fs_def new_def content_writes_def rs_def)
  have render: "row_keys rend \<subseteq> row_keys (tb_render s) \<union> write_key key ` set rs"
    using rend by (fastforce simp: render_from_def row_keys_map_of)
  have fts: "row_keys (tb_fts s') \<subseteq> row_keys (tb_fts s) \<union> write_key key ` set rs"
    using sub(1) by (auto simp: s' row_keys_def)
  have mem: "x \<in> set (tb_relations s) \<or> (\<exists>rel\<in>set rels. x = relation_entry key rel)" if "x \<in> set (tb_relations s')" for x
    using that fold_relation_set[of key rels old] unfolding s' by (auto simp: old_def sql_delete_def)
  have relk: "fst ` row_keys (tb_relations s') \<subseteq> fst ` row_keys (tb_relations s) \<union> write_key key ` set rs"
  proof
    fix mk
    assume "mk \<in> fst ` row_keys (tb_relations s')"
    then obtain x where x: "x \<in> set (tb_relations s')" "mk = fst (fst x)" by (auto simp: row_keys_def)
    from mem[OF x(1)] show "mk \<in> fst ` row_keys (tb_relations s) \<union> write_key key ` set rs"
    proof
      assume "\<exists>rel\<in>set rels. x = relation_entry key rel"
      then obtain rel where rel: "rel \<in> set rels" "mk = MessageKey key (fst (fst rel))" using x(2) by auto
      obtain w where "w \<in> set new" "mk = write_key key w" using relation_of_write[OF rels rel(1)] rel(2) by auto
      then show ?thesis using sub(2) by auto
    qed (use x(2) in \<open>auto simp: row_keys_def\<close>)
  qed
  show "message_refs s' \<subseteq> message_refs s \<union> write_key key ` set (filter (retained s key) ws)"
    using render fts relk unfolding message_refs_def rs_def by (auto simp: s')
  show "rl_hash ` snd ` set (tb_relations s') \<subseteq> row_keys (tb_attachments s')"
    if "rl_hash ` snd ` set (tb_relations s) \<subseteq> row_keys (tb_attachments s)"
  proof -
    have "rl_hash (snd x) \<in> row_keys att" if "x \<in> set (tb_relations s')" for x
      using mem[OF that] hashes \<open>rl_hash ` snd ` set (tb_relations s) \<subseteq> row_keys (tb_attachments s)\<close> grows_mem[OF att]
      by auto
    then show ?thesis by (auto simp: s')
  qed
qed

lemma batch_keys_unique:
  assumes e: "batch_effect s key ws rels s'" and "keys_unique s"
  shows "keys_unique s'"
proof -
  from e obtain rend att fs old where
    s': "s' = s\<lparr>tb_messages := fold (upsert_message_row key) (filter (retained s key) ws) (tb_messages s),
      tb_render := rend, tb_fts := fs, tb_attachments := att, tb_relations := fold (upsert_relation_row key) rels old\<rparr>"
    and "render_from s key (filter (retained s key) ws) (tb_render s) rend" "grows (tb_attachments s) att"
    and "old = sql_delete (beyond key (map wanted_count (content_writes s key ws))) (tb_relations s)"
    unfolding batch_effect_def by blast
  then show ?thesis using assms(2)
    by (simp add: keys_unique_def fold_upsert_distinct render_from_def grows_def distinct_delete)
qed

lemma batch_others:
  assumes "batch_effect s key ws rels s'"
  shows "tb_agents s' = tb_agents s" "tb_groups s' = tb_groups s" "tb_members s' = tb_members s"
    "tb_avatars s' = tb_avatars s" "tb_topics s' = tb_topics s" "tb_active s' = tb_active s"
  using assms unfolding batch_effect_def by auto

lemma sound_messages:
  assumes "rusqlite_upsert_messages_batch env k key ws s = Inr s'" "store_sound s"
  shows "store_sound s'"
proof -
  from upsert_messages_success[OF assms(1)] obtain rels where live: "live_row tr_deleted_at (tb_topics s) key"
    and e: "batch_effect s key ws rels s'" by blast
  have mem: "row_keys (tb_messages s') = row_keys (tb_messages s) \<union> write_key key ` set (filter (retained s key) ws)"
    by (simp add: batch_messages[OF e] fold_upsert_keys)
  have key: "mk_topic (write_key key w) = key" for w by (simp add: write_key_def)
  have m: "messages_sound s" using assms(2) by (simp add: store_sound_def)
  have "messages_sound s'" unfolding messages_sound_def
  proof (intro conjI ballI impI)
    fix mk assume "mk \<in> row_keys (tb_messages s')"
    then show "mk_topic mk \<in> row_keys (tb_topics s')"
      using m live_row_key[OF live] unfolding mem batch_others[OF e] by (auto simp: messages_sound_def key)
  next
    fix mk assume "live_row mr_deleted_at (tb_messages s') mk"
    then show "live_row tr_deleted_at (tb_topics s') (mk_topic mk)"
      using m live unfolding batch_live[OF e] batch_others[OF e]
      by (auto simp: messages_sound_def key dest: live_row_key)
  next
    fix mk assume "mk \<in> message_refs s'"
    then show "live_row mr_deleted_at (tb_messages s') mk"
      using m batch_refs(1)[OF e] unfolding batch_live[OF e] by (auto simp: messages_sound_def)
  next
    show "rl_hash ` snd ` set (tb_relations s') \<subseteq> row_keys (tb_attachments s')"
      using m by (intro batch_refs(2)[OF e]) (simp add: messages_sound_def)
  qed
  moreover have "owners_sound s'" using assms(2)
    by (auto simp: store_sound_def batch_others[OF e] tombstoned_agent_iff intro: owners_sound_same[of s' s])
  ultimately show ?thesis using assms(2) batch_keys_unique[OF e] by (simp add: store_sound_def)
qed

section \<open>Root hashes\<close>

text \<open>The live rows of a table, but for those in \<open>X\<close>, have the root hash of their topics.\<close>

definition fresh ::
  "('r \<Rightarrow> int option) \<Rightarrow> ('r \<Rightarrow> string) \<Rightarrow> (string \<Rightarrow> string) \<Rightarrow> string set \<Rightarrow> (string \<times> 'r) list \<Rightarrow> bool" where
  "fresh del content root X t \<longleftrightarrow>
     (\<forall>i\<in>row_keys t. case map_of t i of
        None \<Rightarrow> True | Some r \<Rightarrow> del r = None \<longrightarrow> i \<in> X \<or> content r = root i)"

lemma fresh_iff:
  "fresh del content root X t \<longleftrightarrow>
     (\<forall>i r. map_of t i = Some r \<longrightarrow> del r = None \<longrightarrow> i \<in> X \<or> content r = root i)"
  unfolding fresh_def by (auto simp: row_keys_map_of split: option.splits)

lemma fresh_upsert:
  assumes "fresh del content root X t" "i \<notin> row_keys t \<Longrightarrow> content n = root i"
    "\<And>r. content (g r) = content r" "\<And>r. del (g r) = del r"
  shows "fresh del content root X (fst (sql_upsert i n l g t))"
  using assms unfolding fresh_iff by (auto simp: map_of_upsert row_keys_map_of split: if_splits option.splits)

lemma fresh_roots:
  "fresh del content root X t \<Longrightarrow> (\<And>i. i \<notin> Y \<Longrightarrow> root' i = root i) \<Longrightarrow> fresh del content root' (X \<union> Y) t"
  unfolding fresh_iff by (metis UnCI)

lemma fresh_bubble:
  assumes "fresh del content root (insert i X) t" "\<And>r. content (g r) = root i" "\<And>r. del (g r) = del r"
  shows "fresh del content root X (fst (sql_update i (\<lambda>r. del r = None) g t))"
  using assms unfolding fresh_iff by (auto simp: map_of_update split: if_splits)

definition roots_fresh :: "'f store_env \<Rightarrow> string set \<Rightarrow> string set \<Rightarrow> 'f tables \<Rightarrow> bool" where
  "roots_fresh env X Y s \<longleftrightarrow>
     fresh ar_deleted_at ar_content_hash (owner_root env s ''agent'') X (tb_agents s) \<and>
     fresh gr_deleted_at gr_content_hash (owner_root env s ''group'') Y (tb_groups s)"

lemma owner_root_updates [simp]:
  "owner_root env (s\<lparr>tb_agents := t1\<rparr>) = owner_root env s"
  "owner_root env (s\<lparr>tb_groups := t2\<rparr>) = owner_root env s"
  "owner_root env (s\<lparr>tb_members := t3\<rparr>) = owner_root env s"
  "owner_root env (s\<lparr>tb_avatars := t4\<rparr>) = owner_root env s"
  "owner_root env (s\<lparr>tb_messages := t5\<rparr>) = owner_root env s"
  "owner_root env (s\<lparr>tb_render := t6\<rparr>) = owner_root env s"
  "owner_root env (s\<lparr>tb_fts := t7\<rparr>) = owner_root env s"
  "owner_root env (s\<lparr>tb_relations := t8\<rparr>) = owner_root env s"
  "owner_root env (s\<lparr>tb_attachments := t9\<rparr>) = owner_root env s"
  by (intro ext; simp add: owner_root_def live_topic_rows_def)+

lemma filter_update_other: "(\<And>r. \<not> P (key, r)) \<Longrightarrow> filter P (AList.update key v t) = filter P t"
  by (induction t) auto

lemma filter_upsert_other: "(\<And>r. \<not> P (key, r)) \<Longrightarrow> filter P (fst (sql_upsert key n l g t)) = filter P t"
  by (auto simp: sql_upsert_def filter_update_other split: option.splits)

lemma owner_root_upsert:
  assumes "tb_topics s' = fst (sql_upsert key n l g (tb_topics s))" "\<not> (tk_owner_type key = ot \<and> tk_owner_id key = oi)"
  shows "owner_root env s' ot oi = owner_root env s ot oi"
  using assms(2) by (auto simp: owner_root_def live_topic_rows_def assms(1) filter_upsert_other)

lemma owner_root_unknown:
  assumes "store_sound s" "\<not> parent_is_live ot oi s"
  shows "owner_root env s ot oi = []"
proof -
  have "filter (\<lambda>(key, r). tk_owner_id key = oi \<and> tk_owner_type key = ot \<and> tr_deleted_at r = None) (tb_topics s) = []"
    using assms by (auto simp: filter_empty_conv store_sound_def keys_unique_def owners_sound_iff owner_live_def live_row_iff)
  then show ?thesis
    by (simp add: owner_root_def live_topic_rows_def compute_owner_root_hash_def compute_merkle_root_def)
qed

lemma roots_agent:
  assumes "rusqlite_upsert_agent env k i dto s = Inr s'" "store_sound s" "roots_fresh env' X Y s"
  shows "roots_fresh env' X Y s'"
proof -
  have "i \<notin> row_keys (tb_agents s) \<Longrightarrow> owner_root env' s ''agent'' i = []"
    by (rule owner_root_unknown[OF assms(2)]) (auto simp: parent_is_live_def dest: live_row_key)
  then show ?thesis using assms(1,3)
    by (auto simp: upsert_agent_success roots_fresh_def intro!: fresh_upsert)
qed

lemma roots_group:
  assumes "rusqlite_upsert_group env k i dto s = Inr s'" "store_sound s" "roots_fresh env' X Y s"
  shows "roots_fresh env' X Y s'"
proof -
  have "i \<notin> row_keys (tb_groups s) \<Longrightarrow> owner_root env' s ''group'' i = []"
    by (rule owner_root_unknown[OF assms(2)]) (auto simp: parent_is_live_def dest: live_row_key)
  then show ?thesis using assms(1,3)
    by (auto simp: upsert_group_success roots_fresh_def intro!: fresh_upsert)
qed

lemma roots_avatar:
  "rusqlite_upsert_avatar env k ot oi mime bytes s = Inr s' \<Longrightarrow> roots_fresh env' X Y s \<Longrightarrow> roots_fresh env' X Y s'"
  by (auto simp: upsert_avatar_success roots_fresh_def)

lemma roots_messages:
  "rusqlite_upsert_messages_batch env k key ws s = Inr s' \<Longrightarrow> roots_fresh env' X Y s \<Longrightarrow> roots_fresh env' X Y s'"
  by (drule upsert_messages_success) (auto simp: batch_effect_def roots_fresh_def)

lemma roots_agent_topic:
  assumes "rusqlite_upsert_agent_topic key dto s = Inr s'" "roots_fresh env' X Y s"
  shows "roots_fresh env' (insert (tk_owner_id key) X) Y s'"
proof -
  have t: "tb_agents s' = tb_agents s" "tb_groups s' = tb_groups s" "tk_owner_type key = ''agent''"
    "tb_topics s' = fst (sql_upsert key (agent_topic_row dto) (\<lambda>r. tr_deleted_at r = None) (set_agent_topic dto) (tb_topics s))"
    using assms(1) by (auto simp: upsert_agent_topic_success)
  have "owner_root env' s' ''group'' = owner_root env' s ''group''"
    by (rule ext, rule owner_root_upsert[OF t(4)]) (simp add: t(3))
  moreover have "fresh ar_deleted_at ar_content_hash (owner_root env' s' ''agent'') (X \<union> {tk_owner_id key}) (tb_agents s)"
    using assms(2) unfolding roots_fresh_def
    by (intro fresh_roots[of _ _ "owner_root env' s ''agent''"]) (auto intro: owner_root_upsert[OF t(4)])
  ultimately show ?thesis using assms(2) by (simp add: roots_fresh_def t)
qed

lemma roots_group_topic:
  assumes "rusqlite_upsert_group_topic key dto s = Inr s'" "roots_fresh env' X Y s"
  shows "roots_fresh env' X (insert (tk_owner_id key) Y) s'"
proof -
  have t: "tb_agents s' = tb_agents s" "tb_groups s' = tb_groups s" "tk_owner_type key = ''group''"
    "tb_topics s' = fst (sql_upsert key (group_topic_row dto) (\<lambda>r. tr_deleted_at r = None) (set_group_topic dto) (tb_topics s))"
    using assms(1) by (auto simp: upsert_group_topic_success)
  have "owner_root env' s' ''agent'' = owner_root env' s ''agent''"
    by (rule ext, rule owner_root_upsert[OF t(4)]) (simp add: t(3))
  moreover have "fresh gr_deleted_at gr_content_hash (owner_root env' s' ''group'') (Y \<union> {tk_owner_id key}) (tb_groups s)"
    using assms(2) unfolding roots_fresh_def
    by (intro fresh_roots[of _ _ "owner_root env' s ''group''"]) (auto intro: owner_root_upsert[OF t(4)])
  ultimately show ?thesis using assms(2) by (simp add: roots_fresh_def t)
qed

lemma roots_bubble_agent:
  assumes "rusqlite_bubble_agent_hash env i s = Inr s'" "roots_fresh env (insert i X) Y s"
  shows "roots_fresh env X Y s'"
  using assms by (auto simp: bubble_agent_success roots_fresh_def intro!: fresh_bubble)

lemma roots_bubble_group:
  assumes "rusqlite_bubble_group_hash env i s = Inr s'" "roots_fresh env X (insert i Y) s"
  shows "roots_fresh env X Y s'"
  using assms by (auto simp: bubble_group_success roots_fresh_def intro!: fresh_bubble)

section \<open>The full-text index\<close>

definition indexed :: "'f tables \<Rightarrow> message_key \<Rightarrow> (message_key \<times> string) list" where
  "indexed s mk = filter (\<lambda>(k, c). k = mk) (tb_fts s)"

definition to_index :: "'f tables \<Rightarrow> message_key \<Rightarrow> (message_key \<times> string) list" where
  "to_index s mk =
     (case map_of (tb_messages s) mk of
        None \<Rightarrow> [] | Some r \<Rightarrow> if mr_deleted_at r = None then [(mk, mr_content r)] else [])"

text \<open>A message that is being generated need not be in the index yet.\<close>

definition indexed_right :: "'f tables \<Rightarrow> message_key \<Rightarrow> bool" where
  "indexed_right s mk \<longleftrightarrow> indexed s mk = to_index s mk \<or> mk \<in> row_keys (tb_active s) \<and> indexed s mk = []"

definition index_sound :: "'f tables \<Rightarrow> bool" where
  "index_sound s \<longleftrightarrow> (\<forall>mk\<in>row_keys (tb_messages s) \<union> row_keys (tb_fts s). indexed_right s mk)"

lemma index_sound_iff: "index_sound s \<longleftrightarrow> (\<forall>mk. indexed_right s mk)"
proof -
  have "indexed_right s mk" if "mk \<notin> row_keys (tb_messages s) \<union> row_keys (tb_fts s)" for mk
  proof -
    have "map_of (tb_messages s) mk = None" using that by (simp add: row_keys_map_of)
    moreover have "indexed s mk = []" using that by (force simp: indexed_def filter_empty_conv row_keys_def)
    ultimately show ?thesis by (simp add: to_index_def indexed_right_def)
  qed
  then show ?thesis unfolding index_sound_def by blast
qed

lemma indexed_batch:
  assumes e: "batch_effect s0 key ws rels s'" and d: "distinct_ids ws"
  defines "fs \<equiv> filter (fts_changed s0 key) (filter (retained s0 key) ws)"
  shows "w \<in> set fs \<Longrightarrow> indexed s' (write_key key w) = [(write_key key w, cm_content (mw_message w))]"
    and "mk \<notin> write_key key ` set fs \<Longrightarrow> indexed s' mk = indexed s0 mk"
proof -
  have f: "tb_fts s' = filter (\<lambda>(mk, c). mk \<notin> write_key key ` set fs) (tb_fts s0) @
      map (\<lambda>w. (write_key key w, cm_content (mw_message w))) fs"
    using e unfolding batch_effect_def fs_def by auto
  have dk: "distinct (map (write_key key) fs)"
    unfolding fs_def by (intro distinct_ids_keys distinct_ids_filter d)
  have none: "filter (\<lambda>(k, c). k = i) (map (\<lambda>w. (write_key key w, cm_content (mw_message w))) vs) = []"
    if "i \<notin> write_key key ` set vs" for i vs
    using that by (auto simp: filter_empty_conv)
  show "indexed s' mk = indexed s0 mk" if "mk \<notin> write_key key ` set fs"
  proof -
    have "filter (\<lambda>(k, c). k = mk) (filter (\<lambda>(mk, c). mk \<notin> write_key key ` set fs) (tb_fts s0)) =
        filter (\<lambda>(k, c). k = mk) (tb_fts s0)"
      using that by (auto simp: filter_filter intro!: filter_cong)
    then show ?thesis using none[OF that] by (simp add: indexed_def f)
  qed
  show "indexed s' (write_key key w) = [(write_key key w, cm_content (mw_message w))]" if w: "w \<in> set fs"
  proof -
    have old: "filter (\<lambda>(k, c). k = write_key key w) (filter (\<lambda>(mk, c). mk \<notin> write_key key ` set fs) (tb_fts s0)) = []"
      using w by (auto simp: filter_empty_conv)
    obtain before after where fs: "fs = before @ w # after" using w by (meson split_list)
    have "write_key key w \<notin> write_key key ` set before" "write_key key w \<notin> write_key key ` set after"
      using dk unfolding fs by auto
    from none[OF this(1)] none[OF this(2)] have "filter (\<lambda>(k, c). k = write_key key w) (map (\<lambda>w. (write_key key w, cm_content (mw_message w))) fs) =
        [(write_key key w, cm_content (mw_message w))]"
      unfolding fs by simp
    then show ?thesis using old by (simp add: indexed_def f)
  qed
qed

lemma index_messages:
  assumes "rusqlite_upsert_messages_batch env k key ws s = Inr s'" and d: "distinct_ids ws" and i: "index_sound s"
  shows "index_sound s'"
proof -
  from upsert_messages_success[OF assms(1)] obtain rels where e: "batch_effect s key ws rels s'" by blast
  define rs where "rs = filter (retained s key) ws"
  define fs where "fs = filter (fts_changed s key) rs"
  note batch = indexed_batch[OF e d, folded rs_def fs_def]
  have old: "indexed_right s mk" for mk using i by (simp add: index_sound_iff)
  have active: "tb_active s' = tb_active s" by (rule batch_others(6)[OF e])
  have "indexed_right s' mk" for mk
  proof (cases "mk \<in> write_key key ` set rs")
    case False
    then have "map_of (tb_messages s') mk = map_of (tb_messages s) mk"
      by (simp add: batch_messages[OF e] fold_upsert_other rs_def)
    moreover have "indexed s' mk = indexed s mk" using batch(2) False by (auto simp: fs_def)
    ultimately show ?thesis using old[of mk] by (simp add: indexed_right_def to_index_def active)
  next
    case True
    then obtain w where w: "w \<in> set ws" "retained s key w" "mk = write_key key w" by (auto simp: rs_def)
    have row: "\<exists>r. map_of (tb_messages s') mk = Some r \<and> mr_deleted_at r = None \<and> mr_content r = cm_content (mw_message w)"
      using batch_row[OF e d w(1)] w(2,3) by (auto simp: retained_def split: option.splits)
    then have to: "to_index s' mk = [(mk, cm_content (mw_message w))]" by (auto simp: to_index_def)
    show ?thesis
    proof (cases "fts_changed s key w")
      case True
      then have "w \<in> set fs" using w by (simp add: fs_def rs_def)
      from batch(1)[OF this] have "indexed s' mk = [(mk, cm_content (mw_message w))]" by (simp add: w(3))
      then show ?thesis using to by (simp add: indexed_right_def)
    next
      case False
      have "mk \<notin> write_key key ` set fs"
      proof
        assume "mk \<in> write_key key ` set fs"
        then obtain v where v: "v \<in> set ws" "fts_changed s key v" "write_key key v = write_key key w"
          using w(3) by (auto simp: fs_def rs_def)
        then have "v = w" using distinct_ids_keys[OF d, of key] w(1) by (simp add: distinct_map inj_on_def)
        then show False using v(2) False by simp
      qed
      then have "indexed s' mk = indexed s mk" by (rule batch(2))
      moreover have "to_index s mk = [(mk, cm_content (mw_message w))]"
        using False w(2,3) by (auto simp: fts_changed_def to_index_def retained_def existing_state_def split: option.splits)
      ultimately show ?thesis using old[of mk] by (auto simp: indexed_right_def to active)
    qed
  qed
  then show ?thesis by (simp add: index_sound_iff)
qed

lemma index_other:
  "tb_messages s' = tb_messages s \<Longrightarrow> tb_fts s' = tb_fts s \<Longrightarrow> tb_active s' = tb_active s \<Longrightarrow>
     index_sound s \<Longrightarrow> index_sound s'"
  by (simp add: index_sound_iff indexed_right_def indexed_def to_index_def)

section \<open>The attachments of a message\<close>

definition attachments_of :: "message_write \<Rightarrow> attachment list" where
  "attachments_of w = unwrap_or (cm_attachments (mw_message w)) []"

text \<open>Hash and name at a position.\<close>

definition relation_at :: "'f tables \<Rightarrow> message_key \<Rightarrow> nat \<Rightarrow> (string \<times> string) option" where
  "relation_at s mk p = map_option (\<lambda>r. (rl_hash r, rl_display_name r)) (map_of (tb_relations s) (mk, p))"

definition wanted_at :: "message_write \<Rightarrow> nat \<Rightarrow> (string \<times> string) option" where
  "wanted_at w p =
     (if p < length (attachments_of w)
      then Some (unwrap_or (at_hash (attachments_of w ! p)) [], at_name (attachments_of w ! p)) else None)"

lemma wanted_eq: "wanted w = map (\<lambda>i. (cm_id (mw_message w), i, attachments_of w ! i)) [0..<length (attachments_of w)]"
proof -
  have "zip [0..<length (attachments_of w)] (attachments_of w) =
      map (\<lambda>i. (i, attachments_of w ! i)) [0..<length (attachments_of w)]"
    by (rule nth_equalityI) simp_all
  then show ?thesis by (simp add: wanted_def Let_def flip: attachments_of_def)
qed

lemma wanted_keys_distinct:
  "distinct_ids ws \<Longrightarrow> distinct (map (\<lambda>(mid, i, att). (mid, i)) (concat (map wanted ws)))"
proof (induction ws)
  case (Cons w ws)
  have one: "map (\<lambda>(mid, i, att). (mid, i)) (wanted w) = map (Pair (cm_id (mw_message w))) [0..<length (attachments_of w)]"
    by (simp add: wanted_eq)
  have "mid \<noteq> cm_id (mw_message w)" if "(mid, i, att) \<in> set (concat (map wanted ws))" for mid i att
    using that Cons.prems by (force simp: wanted_eq distinct_ids_def)
  then have "set (map (Pair (cm_id (mw_message w))) [0..<length (attachments_of w)]) \<inter>
      set (map (\<lambda>(mid, i, att). (mid, i)) (concat (map wanted ws))) = {}" by force
  moreover have "distinct (map (Pair (cm_id (mw_message w))) [0..<length (attachments_of w)])"
    by (simp add: distinct_map inj_on_def)
  moreover have "distinct_ids ws" using Cons.prems by (simp add: distinct_ids_def)
  ultimately show ?case using Cons.IH by (simp only: concat.simps list.map map_append distinct_append one simp_thms)
qed simp

lemma relation_keys:
  "list_all2 (\<lambda>(mid, numbered). relation_for mid numbered) want rels \<Longrightarrow>
     map fst rels = map (\<lambda>(mid, i, att). (mid, i)) want"
  by (induction rule: list_all2_induct) (auto simp: relation_for_def split: prod.splits)

lemma list_all2_second: "list_all2 P xs ys \<Longrightarrow> x \<in> set xs \<Longrightarrow> \<exists>y\<in>set ys. P x y"
  by (metis in_set_conv_nth list_all2_conv_all_nth)

lemma batch_relations:
  assumes e: "batch_effect s0 key ws rels s'" and d: "distinct_ids ws" and w: "w \<in> set (content_writes s0 key ws)"
  shows "relation_at s' (write_key key w) p = wanted_at w p"
proof -
  define new where "new = content_writes s0 key ws"
  define old where "old = sql_delete (beyond key (map wanted_count new)) (tb_relations s0)"
  have r: "tb_relations s' = fold (upsert_relation_row key) rels old"
    and l: "list_all2 (\<lambda>(mid, numbered). relation_for mid numbered) (concat (map wanted new)) rels"
    using e unfolding batch_effect_def new_def old_def by auto
  have dn: "distinct_ids new" unfolding new_def content_writes_def by (intro distinct_ids_filter d)
  have keys: "distinct (map (\<lambda>rel. (MessageKey key (fst (fst rel)), snd (fst rel))) rels)"
  proof -
    have "distinct (map fst rels)" using wanted_keys_distinct[OF dn] by (simp add: relation_keys[OF l])
    moreover have "inj_on (\<lambda>(mid, p). (MessageKey key mid, p)) (set (map fst rels))" by (auto simp: inj_on_def)
    ultimately have "distinct (map (\<lambda>(mid, p). (MessageKey key mid, p)) (map fst rels))"
      by (simp only: distinct_map simp_thms)
    then show ?thesis by (simp add: comp_def split_beta)
  qed
  show ?thesis
  proof (cases "p < length (attachments_of w)")
    case True
    have "(cm_id (mw_message w), p, attachments_of w ! p) \<in> set (wanted w)" using True by (auto simp: wanted_eq)
    then have "(cm_id (mw_message w), p, attachments_of w ! p) \<in> set (concat (map wanted new))"
      using w by (auto simp: new_def)
    from list_all2_second[OF l this] obtain rel where rel: "rel \<in> set rels"
      "relation_for (cm_id (mw_message w)) (p, attachments_of w ! p) rel" by auto
    then have k: "(MessageKey key (fst (fst rel)), snd (fst rel)) = (write_key key w, p)"
      by (simp add: relation_for_def write_key_def)
    have "map_of (tb_relations s') (write_key key w, p) = Some (snd rel)"
      using fold_upsert_at[OF keys rel(1), of "\<lambda>rel. snd rel" "\<lambda>rel r. r \<noteq> snd rel" "\<lambda>rel r. snd rel" old]
      unfolding r k by (auto split: option.splits)
    then show ?thesis using rel(2) True by (simp add: relation_at_def wanted_at_def relation_for_def unwrap_or_def)
  next
    case False
    have "(write_key key w, p) \<notin> (\<lambda>rel. (MessageKey key (fst (fst rel)), snd (fst rel))) ` set rels"
    proof
      assume "(write_key key w, p) \<in> (\<lambda>rel. (MessageKey key (fst (fst rel)), snd (fst rel))) ` set rels"
      then obtain rel where "rel \<in> set rels" "fst rel = (cm_id (mw_message w), p)"
        by (cases w) (auto simp: write_key_def prod_eq_iff)
      then have "(cm_id (mw_message w), p) \<in> set (map fst rels)" by force
      then obtain v where v: "v \<in> set new" "cm_id (mw_message v) = cm_id (mw_message w)" "p < length (attachments_of v)"
        unfolding relation_keys[OF l] by (auto simp: wanted_eq)
      then have "v = w" using w dn by (auto simp: distinct_ids_def distinct_map inj_on_def new_def)
      then show False using v(3) False by simp
    qed
    then have "map_of (tb_relations s') (write_key key w, p) = map_of old (write_key key w, p)"
      unfolding r by (rule fold_upsert_other)
    also have "\<dots> = None"
    proof -
      have "beyond key (map wanted_count new) ((write_key key w, p), r)" for r
        using False w by (auto simp: beyond_def list_ex_iff write_key_def new_def wanted_count_def
            simp flip: attachments_of_def intro!: bexI[of _ w])
      then have "(write_key key w, p) \<notin> fst ` set old" by (auto simp: old_def sql_delete_def)
      then show ?thesis by (simp add: map_of_eq_None_iff)
    qed
    finally show ?thesis using False by (simp add: relation_at_def wanted_at_def)
  qed
qed

section \<open>The contract of the statements\<close>

text \<open>What every statement does between the states before and after it, for batches of messages that
  are \<open>ok\<close>.\<close>

locale store_steps =
  fixes R :: "'f tables \<Rightarrow> 'f tables \<Rightarrow> bool" and ok :: "message_write list \<Rightarrow> bool"
  assumes refl: "R s s"
    and trans: "R a b \<Longrightarrow> R b c \<Longrightarrow> R a c"
    and agent: "rusqlite_upsert_agent env k i adto s = Inr s' \<Longrightarrow> R s s'"
    and group: "rusqlite_upsert_group env k i gdto s = Inr s' \<Longrightarrow> R s s'"
    and avatar: "rusqlite_upsert_avatar env k ot oi mime bytes s = Inr s' \<Longrightarrow> R s s'"
    and agent_topic: "rusqlite_upsert_agent_topic key atd s = Inr s' \<Longrightarrow> R s s'"
    and group_topic: "rusqlite_upsert_group_topic key gtd s = Inr s' \<Longrightarrow> R s s'"
    and messages: "ok ws \<Longrightarrow> rusqlite_upsert_messages_batch env k key ws s = Inr s' \<Longrightarrow> R s s'"
    and bubble_agent: "rusqlite_bubble_agent_hash env i s = Inr s' \<Longrightarrow> R s s'"
    and bubble_group: "rusqlite_bubble_group_hash env i s = Inr s' \<Longrightarrow> R s s'"
    and ok_append: "ok vs \<Longrightarrow> ok ws \<Longrightarrow>
      \<forall>w\<in>set ws. cm_id (mw_message w) \<notin> (\<lambda>v. cm_id (mw_message v)) ` set vs \<Longrightarrow> ok (vs @ ws)"
begin

lemma each: "each_do f xs s = Inr s' \<Longrightarrow> (\<And>x a b. x \<in> set xs \<Longrightarrow> f x a = Inr b \<Longrightarrow> R a b) \<Longrightarrow> R s s'"
  by (erule each_do_rule[where P = "R s"]) (blast intro: refl trans)+

end

interpretation tombs: store_steps tombstones_kept "\<lambda>ws. True"
  by unfold_locales
    (blast intro: tombstones_refl tombstones_trans tombstones_agent tombstones_group tombstones_avatar
      tombstones_agent_topic tombstones_group_topic tombstones_messages tombstones_bubble_agent
      tombstones_bubble_group)+

interpretation soundness: store_steps "\<lambda>s s'. store_sound s \<longrightarrow> store_sound s'" "\<lambda>ws. True"
  by unfold_locales
    (blast intro: sound_agent sound_group sound_avatar sound_agent_topic sound_group_topic sound_messages
      sound_bubble_agent sound_bubble_group)+

interpretation index: store_steps "\<lambda>s s'. index_sound s \<longrightarrow> index_sound s'" distinct_ids
proof (unfold_locales, goal_cases)
  case (3 env k i adto s s') then show ?case by (auto simp: upsert_agent_success intro: index_other)
next
  case (4 env k i gdto s s') then show ?case by (auto simp: upsert_group_success intro: index_other)
next
  case (5 env k ot oi mime bytes s s') then show ?case by (auto simp: upsert_avatar_success intro: index_other)
next
  case (6 key atd s s') then show ?case by (auto simp: upsert_agent_topic_success intro: index_other)
next
  case (7 key gtd s s') then show ?case by (auto simp: upsert_group_topic_success intro: index_other)
next
  case (8 ws env k key s s') then show ?case by (blast intro: index_messages)
next
  case (9 env i s s') then show ?case by (auto simp: bubble_agent_success intro: index_other)
next
  case (10 env i s s') then show ?case by (auto simp: bubble_group_success intro: index_other)
next
  case (11 vs ws)
  then have "set (map (\<lambda>w. cm_id (mw_message w)) vs) \<inter> set (map (\<lambda>w. cm_id (mw_message w)) ws) = {}"
    by (simp add: disjoint_iff) blast
  then show ?case using 11 by (simp only: distinct_ids_def map_append distinct_append simp_thms)
qed auto

section \<open>An example\<close>

definition demo_store_env :: "unit store_env" where
  "demo_store_env = \<lparr>se_sha = (\<lambda>x. x), se_esc = (\<lambda>x. x), se_fmt = (\<lambda>x. []), se_round2 = (\<lambda>x. None),
     se_now = (\<lambda>k. 7), se_metadata = (\<lambda>k hash path. FileMissing), se_unique = ''unique''\<rparr>"

definition demo_key :: topic_key where "demo_key = TopicKey ''agent'' ''a'' ''t''"

definition demo_agent :: "unit agent_dto" where
  "demo_agent = \<lparr>ag_name = ''A'', ag_system_prompt = [], ag_model = ''m'', ag_temperature = (),
     ag_context_token_limit = 0, ag_max_output_tokens = 0, ag_stream_output = True\<rparr>"

definition demo_topic :: agent_topic_dto where
  "demo_topic = \<lparr>atd_id = ''t'', atd_name = ''T'', atd_created_at = 1, atd_locked = False, atd_unread = False,
     atd_owner_id = ''a'', atd_config_hash = ''c'', atd_updated_at = 2\<rparr>"

definition demo_attachment :: attachment where
  "demo_attachment = \<lparr>at_type = ''image/png'', at_name = ''p'', at_size = 1,
     at_src = [], at_hash = Some (replicate 64 (CHR ''a'')), at_status = None, at_internal_path = [], at_extracted_text = None,
     at_image_frames = None, at_thumbnail_path = None\<rparr>"

definition demo_write :: message_write where
  "demo_write = \<lparr>mw_message = \<lparr>cm_id = ''m'', cm_role = ''user'', cm_name = None, cm_content = ''hi'',
     cm_timestamp = 3, cm_updated_at = None, cm_agent_id = None, cm_group_id = None, cm_topic_id = Some ''t'',
     cm_is_group_message = None, cm_finish_reason = None, cm_attachments = Some [demo_attachment]\<rparr>,
     mw_render = ''r'', mw_hash = ''h''\<rparr>"

definition demo_empty :: "unit tables" where
  "demo_empty = \<lparr>tb_agents = [(''a'', new_agents_row demo_store_env 1 demo_agent)], tb_groups = [], tb_members = [],
     tb_avatars = [], tb_topics = [], tb_messages = [], tb_render = [], tb_fts = [], tb_relations = [],
     tb_attachments = [], tb_active = []\<rparr>"

definition demo_store :: "unit tables" where
  "demo_store = demo_empty\<lparr>tb_topics := [(demo_key, agent_topic_row demo_topic)]\<rparr>"

definition demo_written :: "unit tables" where
  "demo_written = (case rusqlite_upsert_messages_batch demo_store_env 0 demo_key [demo_write] demo_store of
     Inr s \<Rightarrow> s | Inl e \<Rightarrow> demo_store)"

lemma demo_written: "rusqlite_upsert_messages_batch demo_store_env 0 demo_key [demo_write] demo_store = Inr demo_written"
proof -
  have "isl (rusqlite_upsert_messages_batch demo_store_env 0 demo_key [demo_write] demo_store) = False"
    by code_simp
  then show ?thesis by (cases "rusqlite_upsert_messages_batch demo_store_env 0 demo_key [demo_write] demo_store")
    (simp_all add: demo_written_def)
qed

lemma demo_distinct: "distinct_ids [demo_write]" by (simp add: distinct_ids_def)

section \<open>Properties\<close>

text \<open>C30. A batch of messages that succeeds has left the row of each of its writes as the write has it,
  unless the row was deleted or had the same hash and time, and exactly the attachments of each write
  whose hash is new, at their positions.\<close>

theorem batch_leaves_its_writes:
  assumes "rusqlite_upsert_messages_batch env k key ws s = Inr s'" "distinct_ids ws" "w \<in> set ws"
  shows "existing_state s' key w =
      (if retained s key w
       then Some (case existing_state s key w of None \<Rightarrow> new_messages_row w | Some r \<Rightarrow> set_messages_row w r)
       else existing_state s key w) \<and>
    (retained s key w \<and> content_changed s key w \<longrightarrow> relation_at s' (write_key key w) p = wanted_at w p)"
proof -
  from upsert_messages_success[OF assms(1)] obtain rels where e: "batch_effect s key ws rels s'" by blast
  have "w \<in> set (content_writes s key ws)" if "retained s key w" "content_changed s key w"
    using that assms(3) by (simp add: content_writes_def)
  then show ?thesis
    using batch_row[OF e assms(2,3)] batch_relations[OF e assms(2), of w p] by (simp add: existing_state_def)
qed

theorem batch_leaves_its_writes_witness:
  "existing_state demo_written demo_key demo_write = Some (new_messages_row demo_write) \<and>
     relation_at demo_written (write_key demo_key demo_write) 0 = Some (replicate 64 (CHR ''a''), ''p'')"
proof -
  have e: "existing_state demo_store demo_key demo_write = None" by code_simp
  have w: "wanted_at demo_write 0 = Some (replicate 64 (CHR ''a''), ''p'')" by code_simp
  show ?thesis
    using batch_leaves_its_writes[OF demo_written demo_distinct, of demo_write 0] w
    by (simp add: e retained_def content_changed_def)
qed

text \<open>C31. Writing the same batch again, at any other time, changes nothing.\<close>

theorem repeated_batch_changes_nothing:
  assumes "rusqlite_upsert_messages_batch env k key ws s = Inr s'" "distinct_ids ws"
  shows "rusqlite_upsert_messages_batch env' k' key ws s' = Inr s'"
proof -
  from upsert_messages_success[OF assms(1)] obtain rels where live: "live_row tr_deleted_at (tb_topics s) key"
    and e: "batch_effect s key ws rels s'" by blast
  have none: "filter (retained s' key) ws = []"
    using batch_settles[OF e assms(2)] by (simp add: filter_empty_conv)
  have checks: "ws = [] \<or> \<not> list_ex (foreign_topic key) ws \<and> List.find unsafe_time ws = None"
    using assms(1) by (auto simp: rusqlite_upsert_messages_batch_def split: if_splits option.splits)
  show ?thesis using live checks none
    by (auto simp: rusqlite_upsert_messages_batch_def batch_topics[OF e])
qed

theorem repeated_batch_changes_nothing_witness:
  "rusqlite_upsert_messages_batch demo_store_env 5 demo_key [demo_write] demo_written = Inr demo_written"
  by (rule repeated_batch_changes_nothing[OF demo_written demo_distinct])

end
