(* ===== verification/Chat_Store_Laws.thy ===== *)
theory Chat_Store_Laws
  imports Chat_Store Sync_Store_Laws
begin

text \<open>
  The invariant of the database: its keys and references are sound, the index follows the messages, and the
  hashes of owners and topics are those of their live topics and messages, but for owners in \<open>X\<close> and \<open>Y\<close>
  and topics in \<open>Z\<close>, which a transaction has yet to refresh. What the shared statements make of it.
\<close>

section \<open>Live rows\<close>

definition live_rows :: "('r \<Rightarrow> int option) \<Rightarrow> ('k \<times> 'r) list \<Rightarrow> ('k \<times> 'r) list" where
  "live_rows del t = filter (\<lambda>(k, r). del r = None) t"

lemma map_of_update_all:
  "map_of (sql_update_all hit g t) k = map_option (\<lambda>r. if hit k r then g r else r) (map_of t k)"
  by (induction t) (auto simp: sql_update_all_def)

lemma keys_update_all [simp]: "map fst (sql_update_all hit g t) = map fst t"
  by (simp add: sql_update_all_def comp_def split_beta)

lemma row_keys_update_all [simp]: "row_keys (sql_update_all hit g t) = row_keys t"
  by (metis keys_update_all row_keys_def set_map)

lemma update_map:
  assumes "distinct (map fst t)" "k \<in> row_keys t"
  shows "AList.update k v t = map (\<lambda>(i, r). (i, if i = k then v else r)) t"
  using assms
proof (induction t)
  case (Cons a t)
  have "map (\<lambda>(i, r). (i, if i = k then v else r)) t = t" if "k \<notin> fst ` set t"
    using that by (intro map_idI) (force split: if_splits)
  then show ?case using Cons by (cases a) (auto simp: row_keys_def)
qed (simp add: row_keys_def)

lemma sql_update_all_eq:
  assumes "distinct (map fst t)"
  shows "fst (sql_update k l g t) = sql_update_all (\<lambda>i r. i = k \<and> l r) g t"
proof (cases "map_of t k")
  case None
  then have "k \<notin> fst ` set t" by (simp add: map_of_eq_None_iff)
  then have "sql_update_all (\<lambda>i r. i = k \<and> l r) g t = t"
    unfolding sql_update_all_def by (intro map_idI) (force split: if_splits)
  then show ?thesis using None by (simp add: sql_update_def)
next
  case (Some old)
  have only: "r = old" if "(k, r) \<in> set t" for r using map_of_is_SomeI[OF assms that] Some by simp
  show ?thesis
  proof (cases "l old")
    case True
    have "k \<in> row_keys t" using Some by (simp add: row_keys_map_of)
    then show ?thesis using Some True only
      by (auto simp: sql_update_def sql_update_all_def update_map[OF assms] intro!: map_cong)
  next
    case False
    then have "sql_update_all (\<lambda>i r. i = k \<and> l r) g t = t"
      unfolding sql_update_all_def using only by (intro map_idI) (auto split: if_splits)
    then show ?thesis using Some False by (simp add: sql_update_def)
  qed
qed

lemma sql_upsert_eq:
  assumes "distinct (map fst t)"
  shows "fst (sql_upsert k n l g t) =
    (if k \<in> row_keys t then sql_update_all (\<lambda>i r. i = k \<and> l r) g t else t @ [(k, n)])"
  using sql_update_all_eq[OF assms, of k l g]
  by (cases "map_of t k") (auto simp: sql_upsert_def sql_update_def row_keys_map_of)

lemma live_rows_update_all:
  assumes "\<And>r. del (g r) = del r"
  shows "live_rows del (sql_update_all hit g t) = sql_update_all hit g (live_rows del t)"
  using assms by (induction t) (auto simp: live_rows_def sql_update_all_def)

lemma live_rows_hidden:
  assumes "\<And>r. del (g r) \<noteq> None"
  shows "live_rows del (sql_update_all hit g t) = filter (\<lambda>(k, r). \<not> hit k r) (live_rows del t)"
  using assms by (induction t) (auto simp: live_rows_def sql_update_all_def)

lemma live_rows_append [simp]:
  "live_rows del (t @ [(k, r)]) = live_rows del t @ (if del r = None then [(k, r)] else [])"
  by (simp add: live_rows_def)

lemma live_row_mem:
  "distinct (map fst t) \<Longrightarrow> live_row del t k \<longleftrightarrow> (\<exists>r. (k, r) \<in> set (live_rows del t))"
  by (auto simp: live_row_iff live_rows_def dest: map_of_SomeD)

lemma fetch_live_iff: "fetch_live del t k = Some r \<longleftrightarrow> map_of t k = Some r \<and> del r = None"
  by (auto simp: fetch_live_def split: option.splits)

lemma fetch_live_None: "fetch_live del t k = None \<longleftrightarrow> \<not> live_row del t k"
  by (auto simp: fetch_live_def live_row_def split: option.splits)

lemma fetch_live_live: "fetch_live del t k = Some r \<Longrightarrow> live_row del t k"
  by (auto simp: fetch_live_iff live_row_iff)

lemma filter_update_all:
  assumes "\<And>i r. P (i, g r) = P (i, r)"
  shows "filter P (sql_update_all hit g t) = sql_update_all hit g (filter P t)"
  using assms by (induction t) (auto simp: sql_update_all_def split: if_splits)

lemma sql_update_all_other: "(\<And>r. (k, r) \<notin> set t) \<Longrightarrow> sql_update_all (\<lambda>i r. i = k \<and> l r) g t = t"
  by (auto simp: sql_update_all_def intro!: map_idI)

lemma live_topic_rows_eq:
  "live_topic_rows s ot oi = map (\<lambda>(key, r). (tk_topic_id key, tr_config_hash r, tr_content_hash r))
     (filter (\<lambda>(key, r). tk_owner_id key = oi \<and> tk_owner_type key = ot) (live_rows tr_deleted_at (tb_topics s)))"
  unfolding live_topic_rows_def live_rows_def filter_filter
  by (intro arg_cong[where f = "map _"] filter_cong) auto

lemma live_message_rows_eq:
  "live_message_rows s key = map (\<lambda>(mk, r). (mk_msg_id mk, mr_content_hash r, mr_updated_at r))
     (filter (\<lambda>(mk, r). of_topic key mk) (live_rows mr_deleted_at (tb_messages s)))"
  unfolding live_message_rows_def live_rows_def filter_filter
  by (intro arg_cong[where f = "map _"] filter_cong) auto

section \<open>The invariant\<close>

definition topic_hashes :: "topics_row \<Rightarrow> string \<times> int \<times> int" where
  "topic_hashes r = (tr_content_hash r, tr_msg_count r, tr_last_message_updated_at r)"

definition contents_fresh :: "'f chat_env \<Rightarrow> topic_key set \<Rightarrow> 'f tables \<Rightarrow> bool" where
  "contents_fresh env Z s \<longleftrightarrow>
     (\<forall>key\<in>row_keys (tb_topics s). case fetch_live tr_deleted_at (tb_topics s) key of
        None \<Rightarrow> True | Some r \<Rightarrow> key \<in> Z \<or> topic_aggregate env key s = Inr (topic_hashes r))"

lemma contents_fresh_iff:
  "contents_fresh env Z s \<longleftrightarrow>
     (\<forall>key r. fetch_live tr_deleted_at (tb_topics s) key = Some r \<longrightarrow>
        key \<in> Z \<or> topic_aggregate env key s = Inr (topic_hashes r))"
proof -
  have "key \<in> row_keys (tb_topics s)" if "fetch_live tr_deleted_at (tb_topics s) key = Some r" for key r
    using that by (auto simp: fetch_live_iff row_keys_map_of)
  then show ?thesis unfolding contents_fresh_def by (auto split: option.splits)
qed

definition db_inv ::
  "'f chat_env \<Rightarrow> string set \<Rightarrow> string set \<Rightarrow> topic_key set \<Rightarrow> 'f tables \<Rightarrow> bool" where
  "db_inv env X Y Z s \<longleftrightarrow>
     store_sound s \<and> index_sound s \<and> roots_fresh (ce_store env) X Y s \<and> contents_fresh env Z s"

lemma db_invI:
  "store_sound s \<Longrightarrow> index_sound s \<Longrightarrow> roots_fresh (ce_store env) X Y s \<Longrightarrow> contents_fresh env Z s \<Longrightarrow> db_inv env X Y Z s"
  by (simp add: db_inv_def)

lemma roots_fresh_mono: "roots_fresh env X Y s \<Longrightarrow> X \<subseteq> X' \<Longrightarrow> Y \<subseteq> Y' \<Longrightarrow> roots_fresh env X' Y' s"
  unfolding roots_fresh_def fresh_iff by blast

lemma contents_fresh_mono: "contents_fresh env Z s \<Longrightarrow> Z \<subseteq> Z' \<Longrightarrow> contents_fresh env Z' s"
  unfolding contents_fresh_iff by blast

lemma db_inv_mono: "db_inv env X Y Z s \<Longrightarrow> X \<subseteq> X' \<Longrightarrow> Y \<subseteq> Y' \<Longrightarrow> Z \<subseteq> Z' \<Longrightarrow> db_inv env X' Y' Z' s"
  unfolding db_inv_def by (meson roots_fresh_mono contents_fresh_mono)

lemma roots_other:
  "tb_agents s' = tb_agents s \<Longrightarrow> tb_groups s' = tb_groups s \<Longrightarrow> tb_topics s' = tb_topics s \<Longrightarrow>
     roots_fresh env X Y s \<Longrightarrow> roots_fresh env X Y s'"
  by (simp add: roots_fresh_def owner_root_def[abs_def] live_topic_rows_def)

lemma contents_other:
  "tb_topics s' = tb_topics s \<Longrightarrow> tb_messages s' = tb_messages s \<Longrightarrow> contents_fresh env Z s \<Longrightarrow> contents_fresh env Z s'"
  by (simp add: contents_fresh_iff topic_aggregate_def live_message_rows_def)

lemma sound_unique:
  assumes "store_sound s"
  shows "distinct (map fst (tb_agents s))" "distinct (map fst (tb_groups s))" "distinct (map fst (tb_members s))"
    "distinct (map fst (tb_avatars s))" "distinct (map fst (tb_topics s))" "distinct (map fst (tb_messages s))"
    "distinct (map fst (tb_render s))" "distinct (map fst (tb_relations s))" "distinct (map fst (tb_attachments s))"
    "distinct (map fst (tb_active s))"
  using assms by (simp_all add: store_sound_def keys_unique_def)

text \<open>The owners of a topic whose root is to be refreshed.\<close>

definition agents_of :: "topic_key \<Rightarrow> string set" where
  "agents_of key = (if tk_owner_type key = ''agent'' then {tk_owner_id key} else {})"

definition groups_of :: "topic_key \<Rightarrow> string set" where
  "groups_of key = (if tk_owner_type key = ''group'' then {tk_owner_id key} else {})"

lemma roots_topics:
  assumes "roots_fresh env X Y s" "tb_agents s' = tb_agents s" "tb_groups s' = tb_groups s"
    "\<And>i. i \<notin> X' \<Longrightarrow> live_topic_rows s' ''agent'' i = live_topic_rows s ''agent'' i"
    "\<And>i. i \<notin> Y' \<Longrightarrow> live_topic_rows s' ''group'' i = live_topic_rows s ''group'' i"
  shows "roots_fresh env (X \<union> X') (Y \<union> Y') s'"
  using assms(1,4,5) unfolding roots_fresh_def assms(2,3)
  by (auto intro!: fresh_roots simp: owner_root_def)

section \<open>Updates of topics\<close>

text \<open>An update of one topic that is not deleted.\<close>

lemma sound_topic_update:
  assumes "store_sound s" "\<And>r. tr_deleted_at (g r) = tr_deleted_at r"
  shows "store_sound (s\<lparr>tb_topics := fst (sql_update key l g (tb_topics s))\<rparr>)"
proof -
  let ?s = "s\<lparr>tb_topics := fst (sql_update key l g (tb_topics s))\<rparr>"
  have "owners_sound ?s"
    by (rule owners_sound_same[of ?s s]) (use assms in \<open>auto simp: store_sound_def live_update tombstoned_agent_iff\<close>)
  then show ?thesis using assms
    by (simp add: store_sound_def keys_unique_def distinct_sql_update messages_sound_def message_refs_def keys_update live_update)
qed

lemma filter_hit_other:
  assumes "\<And>i r. P (i, r) \<Longrightarrow> i \<noteq> key"
  shows "filter P (sql_update_all (\<lambda>i r. i = key \<and> l r) g t) = filter P t"
  using assms by (induction t) (auto simp: sql_update_all_def split: if_splits)

lemma live_topic_rows_update:
  assumes "distinct (map fst (tb_topics s))" "\<And>r. tr_deleted_at (g r) = tr_deleted_at r"
    "\<not> (tk_owner_type key = ot \<and> tk_owner_id key = oi) \<or>
      (\<forall>r. tr_config_hash (g r) = tr_config_hash r \<and> tr_content_hash (g r) = tr_content_hash r)"
  shows "live_topic_rows (s\<lparr>tb_topics := fst (sql_update key l g (tb_topics s))\<rparr>) ot oi = live_topic_rows s ot oi"
proof -
  define P where "P = (\<lambda>(k, r :: topics_row). tk_owner_id k = oi \<and> tk_owner_type k = ot)"
  define f where "f = (\<lambda>(k, r :: topics_row). (tk_topic_id k, tr_config_hash r, tr_content_hash r))"
  define t where "t = live_rows tr_deleted_at (tb_topics s)"
  have "live_rows tr_deleted_at (fst (sql_update key l g (tb_topics s))) = sql_update_all (\<lambda>i r. i = key \<and> l r) g t"
    unfolding sql_update_all_eq[OF assms(1)] t_def by (rule live_rows_update_all) (rule assms(2))
  then have e: "live_topic_rows (s\<lparr>tb_topics := fst (sql_update key l g (tb_topics s))\<rparr>) ot oi =
      map f (filter P (sql_update_all (\<lambda>i r. i = key \<and> l r) g t))"
    by (simp add: live_topic_rows_eq P_def f_def)
  have "map f (filter P (sql_update_all (\<lambda>i r. i = key \<and> l r) g t)) = map f (filter P t)"
  proof (cases "tk_owner_type key = ot \<and> tk_owner_id key = oi")
    case False
    then show ?thesis by (auto simp: P_def intro!: arg_cong[where f = "map f"] filter_hit_other)
  next
    case True
    then have "\<forall>r. tr_config_hash (g r) = tr_config_hash r \<and> tr_content_hash (g r) = tr_content_hash r"
      using assms(3) by blast
    then have "map f (sql_update_all (\<lambda>i r. i = key \<and> l r) g u) = map f u" for u
      by (induction u) (auto simp: sql_update_all_def f_def)
    moreover have "filter P (sql_update_all (\<lambda>i r. i = key \<and> l r) g t) = sql_update_all (\<lambda>i r. i = key \<and> l r) g (filter P t)"
      by (rule filter_update_all) (simp add: P_def)
    ultimately show ?thesis by simp
  qed
  then show ?thesis unfolding e by (simp add: live_topic_rows_eq P_def f_def t_def)
qed

text \<open>A statement that leaves the hash columns alone.\<close>

lemma inv_topic_update:
  assumes "db_inv env X Y Z s" "\<And>r. tr_deleted_at (g r) = tr_deleted_at r"
    "\<And>r. topic_hashes (g r) = topic_hashes r" "\<And>r. tr_config_hash (g r) = tr_config_hash r"
  shows "db_inv env X Y Z (s\<lparr>tb_topics := fst (sql_update key l g (tb_topics s))\<rparr>)"
proof -
  let ?s = "s\<lparr>tb_topics := fst (sql_update key l g (tb_topics s))\<rparr>"
  have d: "distinct (map fst (tb_topics s))" using assms(1) by (simp add: db_inv_def store_sound_def keys_unique_def)
  have same: "live_topic_rows ?s ot oi = live_topic_rows s ot oi" for ot oi
    by (rule live_topic_rows_update[OF d assms(2)]) (use assms(3,4) in \<open>auto simp: topic_hashes_def\<close>)
  have "contents_fresh env Z ?s" unfolding contents_fresh_iff
  proof (intro allI impI)
    fix k r assume "fetch_live tr_deleted_at (tb_topics ?s) k = Some r"
    then obtain r0 where r0: "fetch_live tr_deleted_at (tb_topics s) k = Some r0" "topic_hashes r = topic_hashes r0"
      using assms(2,3) by (auto simp: fetch_live_iff map_of_update split: if_splits)
    have "k \<in> Z \<or> topic_aggregate env k s = Inr (topic_hashes r0)"
      using assms(1) r0(1) unfolding db_inv_def contents_fresh_iff by blast
    then show "k \<in> Z \<or> topic_aggregate env k ?s = Inr (topic_hashes r)"
      using r0(2) by (simp add: topic_aggregate_def live_message_rows_def)
  qed
  moreover have "roots_fresh (ce_store env) (X \<union> {}) (Y \<union> {}) ?s"
    by (rule roots_topics[of _ _ _ s]) (use assms(1) same in \<open>auto simp: db_inv_def\<close>)
  moreover have "index_sound ?s" using assms(1) by (auto simp: db_inv_def intro: index_other)
  ultimately show ?thesis using assms(1) sound_topic_update[of s g key l] assms(2) by (simp add: db_inv_def)
qed

lemma update_topic_hashes_success:
  "update_topic_hashes env key g s = Inr (activity, s') \<longleftrightarrow>
     live_row tr_deleted_at (tb_topics s) key \<and>
     s' = s\<lparr>tb_topics := fst (sql_update key (\<lambda>r. tr_deleted_at r = None) g (tb_topics s))\<rparr> \<and>
     load_topic_activity env key s' = Inr activity"
  by (auto simp: update_topic_hashes_def sql_update_def live_row_def then_do_Inr Let_def split: option.splits)

text \<open>A statement that brings the hash columns up to date.\<close>

lemma inv_topic_hashes:
  assumes "db_inv env X Y (insert key Z) s" "topic_aggregate env key s = Inr hashes"
    "update_topic_hashes env key g s = Inr (activity, s')"
    "\<And>r. tr_deleted_at (g r) = tr_deleted_at r" "\<And>r. topic_hashes (g r) = hashes"
  shows "db_inv env (X \<union> agents_of key) (Y \<union> groups_of key) Z s'"
proof -
  have s': "s' = s\<lparr>tb_topics := fst (sql_update key (\<lambda>r. tr_deleted_at r = None) g (tb_topics s))\<rparr>"
    using assms(3) by (simp add: update_topic_hashes_success)
  have d: "distinct (map fst (tb_topics s))" using assms(1) by (simp add: db_inv_def store_sound_def keys_unique_def)
  have same: "live_topic_rows s' ot oi = live_topic_rows s ot oi"
    if "\<not> (tk_owner_type key = ot \<and> tk_owner_id key = oi)" for ot oi
    unfolding s' by (rule live_topic_rows_update[OF d assms(4)]) (use that in blast)
  have agg: "topic_aggregate env k s' = topic_aggregate env k s" for k
    by (simp add: s' topic_aggregate_def live_message_rows_def)
  have "contents_fresh env Z s'" unfolding contents_fresh_iff
  proof (intro allI impI)
    fix k r assume r: "fetch_live tr_deleted_at (tb_topics s') k = Some r"
    show "k \<in> Z \<or> topic_aggregate env k s' = Inr (topic_hashes r)"
    proof (cases "k = key")
      case True
      then have "topic_hashes r = hashes"
        using r assms(4,5) by (auto simp: s' fetch_live_iff map_of_update split: if_splits)
      then show ?thesis using True assms(2) agg by simp
    next
      case False
      then have "fetch_live tr_deleted_at (tb_topics s) k = Some r"
        using r by (simp add: s' fetch_live_iff map_of_update)
      then show ?thesis using False assms(1) agg unfolding db_inv_def contents_fresh_iff by auto
    qed
  qed
  moreover have "roots_fresh (ce_store env) (X \<union> agents_of key) (Y \<union> groups_of key) s'"
    by (rule roots_topics[of _ _ _ s])
      (use assms(1) same in \<open>auto simp: db_inv_def agents_of_def groups_of_def s' split: if_splits\<close>)
  moreover have "index_sound s'" using assms(1) by (auto simp: db_inv_def s' intro: index_other)
  ultimately show ?thesis using assms(1,4) sound_topic_update[of s g key] by (simp add: db_inv_def s')
qed

lemma bubble_topic_hash_success:
  "bubble_topic_hash env key s = Inr (activity, s') \<longleftrightarrow>
     (\<exists>root n latest config. topic_aggregate env key s = Inr (root, n, latest) \<and>
        topic_config_hash env key s = Inr config \<and>
        update_topic_hashes env key (\<lambda>r. r\<lparr>tr_content_hash := root, tr_config_hash := config, tr_msg_count := n,
          tr_last_message_updated_at := latest\<rparr>) s = Inr (activity, s'))"
  by (auto simp: bubble_topic_hash_def then_do_Inr)

lemma refresh_topic_success:
  "refresh_topic_content_hash env key s = Inr (activity, s') \<longleftrightarrow>
     (\<exists>root n latest. topic_aggregate env key s = Inr (root, n, latest) \<and>
        update_topic_hashes env key (\<lambda>r. r\<lparr>tr_content_hash := root, tr_msg_count := n,
          tr_last_message_updated_at := latest\<rparr>) s = Inr (activity, s'))"
  by (auto simp: refresh_topic_content_hash_def then_do_Inr)

lemma inv_bubble_topic:
  assumes "bubble_topic_hash env key s = Inr (activity, s')" "db_inv env X Y (insert key Z) s"
  shows "db_inv env (X \<union> agents_of key) (Y \<union> groups_of key) Z s'"
  using assms(1) unfolding bubble_topic_hash_success
  by (elim exE conjE) (rule inv_topic_hashes[OF assms(2)], assumption+, auto simp: topic_hashes_def)

lemma inv_refresh_topic:
  assumes "refresh_topic_content_hash env key s = Inr (activity, s')" "db_inv env X Y (insert key Z) s"
  shows "db_inv env (X \<union> agents_of key) (Y \<union> groups_of key) Z s'"
  using assms(1) unfolding refresh_topic_success
  by (elim exE conjE) (rule inv_topic_hashes[OF assms(2)], assumption+, auto simp: topic_hashes_def)

section \<open>The roots of owners\<close>

text \<open>The two drivers run the same statement.\<close>

lemma bubble_agent_hash_eq: "bubble_agent_hash env i s = rusqlite_bubble_agent_hash (ce_store env) i s"
  by (simp add: bubble_agent_hash_def rusqlite_bubble_agent_hash_def compute_agent_root_hash_def)

lemma bubble_group_hash_eq: "bubble_group_hash env i s = rusqlite_bubble_group_hash (ce_store env) i s"
  by (simp add: bubble_group_hash_def rusqlite_bubble_group_hash_def compute_group_root_hash_def)

lemma inv_bubble_agent:
  assumes "bubble_agent_hash env i s = Inr s'" "db_inv env (insert i X) Y Z s"
  shows "db_inv env X Y Z s'"
proof -
  note b = assms(1)[unfolded bubble_agent_hash_eq]
  have "tb_messages s' = tb_messages s" "tb_fts s' = tb_fts s" "tb_active s' = tb_active s" "tb_topics s' = tb_topics s"
    using b by (auto simp: bubble_agent_success)
  then show ?thesis using assms(2) sound_bubble_agent[OF b] roots_bubble_agent[OF b]
    by (auto simp: db_inv_def intro: index_other contents_other)
qed

lemma inv_bubble_group:
  assumes "bubble_group_hash env i s = Inr s'" "db_inv env X (insert i Y) Z s"
  shows "db_inv env X Y Z s'"
proof -
  note b = assms(1)[unfolded bubble_group_hash_eq]
  have "tb_messages s' = tb_messages s" "tb_fts s' = tb_fts s" "tb_active s' = tb_active s" "tb_topics s' = tb_topics s"
    using b by (auto simp: bubble_group_success)
  then show ?thesis using assms(2) sound_bubble_group[OF b] roots_bubble_group[OF b]
    by (auto simp: db_inv_def intro: index_other contents_other)
qed

definition bubble_owner_hash :: "'f chat_env \<Rightarrow> topic_key \<Rightarrow> 'f tables \<Rightarrow> 'f tables \<Rightarrow> bool" where
  "bubble_owner_hash env key s s' \<longleftrightarrow>
     tk_owner_type key = ''agent'' \<and> bubble_agent_hash env (tk_owner_id key) s = Inr s' \<or>
     tk_owner_type key = ''group'' \<and> bubble_group_hash env (tk_owner_id key) s = Inr s'"

lemma inv_bubble_owner:
  assumes "bubble_owner_hash env key s s'" "db_inv env (X \<union> agents_of key) (Y \<union> groups_of key) Z s"
  shows "db_inv env X Y Z s'"
  using assms inv_bubble_agent[of env "tk_owner_id key" s s' X Y Z] inv_bubble_group[of env "tk_owner_id key" s s' X Y Z]
  by (auto simp: bubble_owner_hash_def agents_of_def groups_of_def)

lemma bubble_from_topic_success:
  "bubble_from_topic env key s = Inr (activity, s') \<longleftrightarrow>
     (\<exists>s1. bubble_topic_hash env key s = Inr (activity, s1) \<and> bubble_owner_hash env key s1 s')"
  by (auto simp: bubble_from_topic_def bubble_owner_hash_def then_do_Inr split: if_splits)

lemma inv_bubble_from_topic:
  assumes "bubble_from_topic env key s = Inr (activity, s')" "db_inv env X Y (insert key Z) s"
  shows "db_inv env X Y Z s'"
  using assms inv_bubble_topic inv_bubble_owner unfolding bubble_from_topic_success by blast

text \<open>A successful refresh shows that the owner is live.\<close>

lemma bubble_owner_live:
  "bubble_owner_hash env key s s' \<Longrightarrow> owner_live s (tk_owner_type key) (tk_owner_id key)"
  unfolding bubble_owner_hash_def
  by (elim disjE conjE) (simp_all add: bubble_agent_hash_eq bubble_group_hash_eq bubble_agent_success
      bubble_group_success owner_live_def parent_is_live_def)

lemma bubble_topic_others:
  assumes "bubble_topic_hash env key s = Inr (activity, s')"
  shows "tb_agents s' = tb_agents s" "tb_groups s' = tb_groups s" "tb_members s' = tb_members s"
    "tb_avatars s' = tb_avatars s" "tb_messages s' = tb_messages s" "tb_active s' = tb_active s"
    "live_row tr_deleted_at (tb_topics s) key"
  using assms by (auto simp: bubble_topic_hash_success update_topic_hashes_success)

lemma bubble_from_topic_live:
  assumes "bubble_from_topic env key s = Inr (activity, s')"
  shows "owner_live s (tk_owner_type key) (tk_owner_id key)" "live_row tr_deleted_at (tb_topics s) key"
proof -
  from assms obtain s1 where b: "bubble_topic_hash env key s = Inr (activity, s1)" "bubble_owner_hash env key s1 s'"
    by (auto simp: bubble_from_topic_success)
  show "owner_live s (tk_owner_type key) (tk_owner_id key)"
    using bubble_owner_live[OF b(2)] bubble_topic_others(1,2)[OF b(1)]
    unfolding owner_live_def parent_is_live_def by (auto split: if_splits)
  show "live_row tr_deleted_at (tb_topics s) key" by (rule bubble_topic_others(7)[OF b(1)])
qed

lemma bubble_from_topic_others:
  assumes "bubble_from_topic env key s = Inr (activity, s')"
  shows "tb_members s' = tb_members s" "tb_avatars s' = tb_avatars s" "tb_messages s' = tb_messages s"
    "tb_active s' = tb_active s"
  using assms bubble_topic_others
  by (auto simp: bubble_from_topic_success bubble_owner_hash_def bubble_agent_hash_eq bubble_group_hash_eq
      bubble_agent_success bubble_group_success)

end
