(* ===== verification/Chat_Deletes.thy ===== *)
theory Chat_Deletes
  imports Chat_Store
begin

text \<open>
  Deletion: of agents (\<open>agent/agent_service.rs\<close>), groups (\<open>group/group_service.rs\<close>), topics
  (\<open>chat/topic_service.rs\<close>), messages (\<open>chat/message_service.rs\<close>) and avatars, on the device or on the
  word of the desktop (\<open>sync/sync_executor/delete_executor.rs\<close>), and the cleaning of old tombstones.
  A result names the generations that were under way, which the caller discards.
\<close>

section \<open>Owners\<close>

definition agent_tombstone :: "'f chat_env \<Rightarrow> int \<Rightarrow> 'f agents_row" where
  "agent_tombstone env now =
     \<lparr>ar_name = [], ar_system_prompt = [], ar_mobile_system_prompt = [], ar_model = [],
       ar_temperature = ce_default_temperature env, ar_context_token_limit = 0, ar_max_output_tokens = 0,
       ar_stream_output = True, ar_use_temperature = False, ar_config_hash = SYNC_TOMBSTONE_HASH,
       ar_content_hash = [], ar_updated_at = now, ar_deleted_at = Some now\<rparr>"

definition group_tombstone :: "int \<Rightarrow> groups_row" where
  "group_tombstone now =
     \<lparr>gr_name = [], gr_mode = ''sequential'', gr_group_prompt = None, gr_invite_prompt = None,
       gr_use_unified_model = False, gr_unified_model = None, gr_tag_match_mode = None,
       gr_member_tags = ''{}'', gr_config_hash = SYNC_TOMBSTONE_HASH, gr_content_hash = [],
       gr_created_at = 0, gr_updated_at = now, gr_deleted_at = Some now\<rparr>"

definition delete_topics :: "(topic_key \<Rightarrow> bool) \<Rightarrow> int \<Rightarrow> 'f tables \<Rightarrow> 'f tables" where
  "delete_topics doomed now s =
     s\<lparr>tb_topics := sql_update_all (\<lambda>key r. doomed key \<and> tr_deleted_at r = None)
         (\<lambda>r. r\<lparr>tr_deleted_at := Some now\<rparr>) (tb_topics s)\<rparr>"

definition delete_avatar_row :: "string \<Rightarrow> string \<Rightarrow> int \<Rightarrow> 'f tables \<Rightarrow> 'f tables" where
  "delete_avatar_row ot oi now s =
     s\<lparr>tb_avatars := fst (sql_update (ot, oi) (\<lambda>r. vr_deleted_at r = None)
         (\<lambda>r. r\<lparr>vr_deleted_at := Some now\<rparr>) (tb_avatars s))\<rparr>"

text \<open>What goes with an owner: its topics, its messages with all that hangs on them, and its avatar.\<close>

definition delete_owned :: "string \<Rightarrow> string \<Rightarrow> int \<Rightarrow> 'f tables \<Rightarrow> 'f tables" where
  "delete_owned ot oi now s =
     (let s1 = delete_topics (\<lambda>key. tk_owner_id key = oi \<and> tk_owner_type key = ot) now s;
          s2 = fst (hide_messages (\<lambda>mk r. of_owner ot oi mk) now s1);
          s3 = delete_message_attachments (of_owner ot oi) s2;
          s4 = delete_render (of_owner ot oi) s3;
          s5 = delete_avatar_row ot oi now s4
      in delete_active (of_owner ot oi) s5)"

definition affected_group_ids :: "string \<Rightarrow> 'f tables \<Rightarrow> string list" where
  "affected_group_ids i s =
     sort (remdups (map (\<lambda>((g, m), r). g)
       (filter (\<lambda>((g, m), r). m = i \<and> live_row gr_deleted_at (tb_groups s) g) (tb_members s))))"

definition delete_agent_rows ::
  "'f chat_env \<Rightarrow> int \<Rightarrow> int \<Rightarrow> string \<Rightarrow> bool \<Rightarrow> 'f tables \<Rightarrow> string + ((int \<times> message_key list) \<times> 'f tables)" where
  "delete_agent_rows env now clock i tombstone_only s =
     (let affected = affected_group_ids i s in
      then_do
        (if tombstone_only then Inr s
         else case sql_update i (\<lambda>r. ar_deleted_at r = None) (\<lambda>r. r\<lparr>ar_deleted_at := Some now\<rparr>) (tb_agents s) of
           (t, changed) \<Rightarrow>
             if changed \<noteq> 1 then Inl (''Agent '' @ i @ '' disappeared during delete'')
             else Inr (s\<lparr>tb_agents := t\<rparr>))
        (\<lambda>s1.
          let active = active_keys (of_owner ''agent'' i) s1;
              s2 = delete_owned ''agent'' i now s1;
              s3 = s2\<lparr>tb_members := sql_delete (\<lambda>((g, m), r). m = i) (tb_members s2)\<rparr>
          in then_do (each_do (recompute_group_config_hash env clock) affected s3)
               (\<lambda>s4. Inr ((now, active), s4))))"

text \<open>\<open>requested\<close>: the time the desktop names; \<open>clock\<close> and \<open>clock2\<close>: what the clock says.\<close>

definition delete_agent_internal ::
  "'f chat_env \<Rightarrow> int option \<Rightarrow> int \<Rightarrow> int \<Rightarrow> string \<Rightarrow> 'f tables \<Rightarrow>
     string + ((int \<times> message_key list) \<times> 'f tables)" where
  "delete_agent_internal env requested clock clock2 i s =
     (let now = unwrap_or requested clock in
      if now < 0 then Inl ''Agent delete requires a non-negative deletedAt''
      else (case map_of (tb_agents s) i of
          None \<Rightarrow>
            if requested \<noteq> None
            then delete_agent_rows env now clock2 i True (s\<lparr>tb_agents := tb_agents s @ [(i, agent_tombstone env now)]\<rparr>)
            else Inl (''Agent '' @ i @ '' does not exist'')
        | Some r \<Rightarrow>
            (case ar_deleted_at r of
               Some existing \<Rightarrow> Inr ((existing, []), s)
             | None \<Rightarrow> delete_agent_rows env now clock2 i False s)))"

definition delete_group_rows ::
  "int \<Rightarrow> string \<Rightarrow> bool \<Rightarrow> 'f tables \<Rightarrow> string + ((int \<times> message_key list) \<times> 'f tables)" where
  "delete_group_rows now i tombstone_only s =
     then_do
       (if tombstone_only then Inr s
        else case sql_update i (\<lambda>r. gr_deleted_at r = None) (\<lambda>r. r\<lparr>gr_deleted_at := Some now\<rparr>) (tb_groups s) of
          (t, changed) \<Rightarrow>
            if changed \<noteq> 1 then Inl (''Group '' @ i @ '' disappeared during delete'')
            else Inr (s\<lparr>tb_groups := t\<rparr>))
       (\<lambda>s1.
         let active = active_keys (of_owner ''group'' i) s1;
             s2 = delete_owned ''group'' i now s1;
             s3 = s2\<lparr>tb_members := sql_delete (\<lambda>((g, m), r). g = i) (tb_members s2)\<rparr>
         in Inr ((now, active), s3))"

definition delete_group_internal ::
  "int option \<Rightarrow> int \<Rightarrow> string \<Rightarrow> 'f tables \<Rightarrow> string + ((int \<times> message_key list) \<times> 'f tables)" where
  "delete_group_internal requested clock i s =
     (let now = unwrap_or requested clock in
      if now < 0 then Inl ''Group delete requires a non-negative deletedAt''
      else (case map_of (tb_groups s) i of
          None \<Rightarrow>
            if requested \<noteq> None
            then delete_group_rows now i True (s\<lparr>tb_groups := tb_groups s @ [(i, group_tombstone now)]\<rparr>)
            else Inl (''Group '' @ i @ '' does not exist'')
        | Some r \<Rightarrow>
            (case gr_deleted_at r of
               Some existing \<Rightarrow> Inr ((existing, []), s)
             | None \<Rightarrow> delete_group_rows now i False s)))"

section \<open>Topics\<close>

record chat_topic =
  ct_id :: string
  ct_name :: string
  ct_created_at :: int
  ct_locked :: bool
  ct_unread :: bool
  ct_unread_count :: int
  ct_msg_count :: int
  ct_owner_id :: string
  ct_owner_type :: string

definition topic_tombstone :: "int \<Rightarrow> topics_row" where
  "topic_tombstone deleted_at =
     \<lparr>tr_title = [], tr_created_at = 0, tr_updated_at = deleted_at, tr_last_message_updated_at = 0,
       tr_locked = True, tr_unread = False, tr_unread_count = 0, tr_msg_count = 0,
       tr_config_hash = SYNC_TOMBSTONE_HASH, tr_content_hash = SYNC_TOMBSTONE_HASH,
       tr_deleted_at = Some deleted_at\<rparr>"

definition fresh_topics_row :: "string \<Rightarrow> int \<Rightarrow> int \<Rightarrow> topics_row" where
  "fresh_topics_row title created updated =
     \<lparr>tr_title = title, tr_created_at = created, tr_updated_at = updated, tr_last_message_updated_at = 0,
       tr_locked = True, tr_unread = False, tr_unread_count = 0, tr_msg_count = 0, tr_config_hash = [],
       tr_content_hash = [], tr_deleted_at = None\<rparr>"

text \<open>\<open>INSERT INTO topics\<close>; a second row of a key is an error.\<close>

definition insert_topic :: "'f chat_env \<Rightarrow> topic_key \<Rightarrow> topics_row \<Rightarrow> 'f tables \<Rightarrow> string + 'f tables" where
  "insert_topic env key r s =
     (if map_of (tb_topics s) key \<noteq> None then Inl (se_unique (ce_store env))
      else Inr (s\<lparr>tb_topics := tb_topics s @ [(key, r)]\<rparr>))"

definition topic_key_of :: "chat_topic \<Rightarrow> topic_key" where
  "topic_key_of topic = TopicKey (ct_owner_type topic) (ct_owner_id topic) (ct_id topic)"

record topic_deletion =
  td_active :: "message_key list"
  td_deleted :: bool
  td_replacement :: "chat_topic option"

definition live_siblings :: "topic_key \<Rightarrow> 'f tables \<Rightarrow> nat" where
  "live_siblings key s =
     length (filter (\<lambda>(k, r). tk_owner_type k = tk_owner_type key \<and> tk_owner_id k = tk_owner_id key \<and>
       tk_topic_id k \<noteq> tk_topic_id key \<and> tr_deleted_at r = None) (tb_topics s))"

definition add_replacement ::
  "'f chat_env \<Rightarrow> chat_topic option \<Rightarrow> 'f tables \<Rightarrow> string + 'f tables" where
  "add_replacement env replacement s =
     (case replacement of
        None \<Rightarrow> Inr s
      | Some topic \<Rightarrow>
          then_do
            (insert_topic env (topic_key_of topic)
               (fresh_topics_row (ct_name topic) (ct_created_at topic) (ct_created_at topic)) s)
            (\<lambda>s1. then_do (bubble_topic_hash env (topic_key_of topic) s1) (\<lambda>(activity, s2). Inr s2)))"

definition delete_live_topic ::
  "'f chat_env \<Rightarrow> topic_key \<Rightarrow> int \<Rightarrow> chat_topic option \<Rightarrow> 'f tables \<Rightarrow> string + (topic_deletion \<times> 'f tables)" where
  "delete_live_topic env key deleted_at candidate s =
     (let replacement = (if candidate \<noteq> None \<and> live_siblings key s = 0 then candidate else None);
          active = active_keys (of_topic key) s
      in case sql_update key (\<lambda>r. tr_deleted_at r = None) (\<lambda>r. r\<lparr>tr_deleted_at := Some deleted_at\<rparr>) (tb_topics s) of
           (t, changed) \<Rightarrow>
             if changed \<noteq> 1 then Inl (''Topic '' @ tk_topic_id key @ '' disappeared during delete'')
             else
               let s1 = s\<lparr>tb_topics := t\<rparr>;
                   s2 = fst (hide_messages (\<lambda>mk r. of_topic key mk) deleted_at s1);
                   s3 = delete_children (of_topic key) s2
               in then_do (add_replacement env replacement s3) (\<lambda>s4.
                    then_do
                      (if tk_owner_type key = ''agent'' then bubble_agent_hash env (tk_owner_id key) s4
                       else if tk_owner_type key = ''group'' then bubble_group_hash env (tk_owner_id key) s4
                       else Inl (''Topic '' @ tk_topic_id key @ '' has unsupported owner_type '' @ tk_owner_type key))
                      (\<lambda>s5. Inr (\<lparr>td_active = active, td_deleted = True, td_replacement = replacement\<rparr>, s5))))"

definition nothing_deleted :: "bool \<Rightarrow> topic_deletion" where
  "nothing_deleted deleted = \<lparr>td_active = [], td_deleted = deleted, td_replacement = None\<rparr>"

definition delete_topic_data_inner ::
  "'f chat_env \<Rightarrow> topic_key \<Rightarrow> int \<Rightarrow> chat_topic option \<Rightarrow> 'f tables \<Rightarrow>
     string + (topic_deletion option \<times> 'f tables)" where
  "delete_topic_data_inner env key deleted_at replacement_if_last s =
     (if tk_owner_type key = [] \<or> tk_owner_id key = [] \<or> tk_topic_id key = [] \<or> deleted_at < 0
      then Inl ''Topic delete requires an exact identity and non-negative deletedAt''
      else
        let is_sync_delete = (replacement_if_last = None)
        in case map_of (tb_topics s) key of
             None \<Rightarrow>
               if is_sync_delete
               then Inr (Some (nothing_deleted True), s\<lparr>tb_topics := tb_topics s @ [(key, topic_tombstone deleted_at)]\<rparr>)
               else Inr (None, s)
           | Some r \<Rightarrow>
               (case tr_deleted_at r of
                  Some stored \<Rightarrow>
                    Inr (Some (nothing_deleted False),
                      if is_sync_delete \<and> stored < deleted_at
                      then s\<lparr>tb_topics := fst (sql_update key (\<lambda>r. True)
                        (\<lambda>r. r\<lparr>tr_deleted_at := Some deleted_at, tr_updated_at := max (tr_updated_at r) deleted_at,
                           tr_config_hash := SYNC_TOMBSTONE_HASH, tr_content_hash := SYNC_TOMBSTONE_HASH\<rparr>)
                        (tb_topics s))\<rparr>
                      else s)
                | None \<Rightarrow>
                    then_do (delete_live_topic env key deleted_at replacement_if_last s)
                      (\<lambda>(result, s1). Inr (Some result, s1))))"

text \<open>The bytes of the names of the default topics, which are Chinese.\<close>

definition MAIN_GROUP_TOPIC :: string where
  "MAIN_GROUP_TOPIC = map char_of [228::nat, 184, 187, 232, 166, 129, 231, 190, 164, 232, 129, 138]"

definition MAIN_AGENT_TOPIC :: string where
  "MAIN_AGENT_TOPIC = map char_of [228::nat, 184, 187, 232, 166, 129, 229, 175, 185, 232, 175, 157]"

definition new_topic_id :: "string \<Rightarrow> int \<Rightarrow> string" where
  "new_topic_id owner_type now =
     (if owner_type = ''group'' then ''group_topic_'' @ int_str now else ''topic_'' @ int_str now)"

definition new_topic :: "string \<Rightarrow> string \<Rightarrow> string \<Rightarrow> string \<Rightarrow> int \<Rightarrow> chat_topic" where
  "new_topic owner_type owner_id topic_id name now =
     \<lparr>ct_id = topic_id, ct_name = name, ct_created_at = now, ct_locked = True, ct_unread = False,
       ct_unread_count = 0, ct_msg_count = 0, ct_owner_id = owner_id, ct_owner_type = owner_type\<rparr>"

text \<open>The command: the result is the new topic, if the last one was deleted, and the deletion the desktop
  is told of.\<close>

definition delete_topic ::
  "'f chat_env \<Rightarrow> topic_key \<Rightarrow> int \<Rightarrow> 'f tables \<Rightarrow> string + ((chat_topic option \<times> message_key list \<times> bool) \<times> 'f tables)"
  where
  "delete_topic env key now s =
     (let replacement = new_topic (tk_owner_type key) (tk_owner_id key) (new_topic_id (tk_owner_type key) now)
        (if tk_owner_type key = ''group'' then MAIN_GROUP_TOPIC else MAIN_AGENT_TOPIC) now
      in then_do (delete_topic_data_inner env key now (Some replacement) s) (\<lambda>(deletion, s1).
           case deletion of
             None \<Rightarrow> Inl (''Topic '' @ tk_topic_id key @ '' does not exist'')
           | Some d \<Rightarrow>
               Inr (if \<not> td_deleted d then (None, [], False) else (td_replacement d, td_active d, True), s1)))"

section \<open>Messages\<close>

definition message_tombstone :: "topic_key \<Rightarrow> int \<Rightarrow> messages_row" where
  "message_tombstone key deleted_at =
     \<lparr>mr_role = ''system'', mr_name = None, mr_agent_id = None, mr_content = [], mr_timestamp = deleted_at,
       mr_is_group_message = (tk_owner_type key = ''group''),
       mr_group_id = (if tk_owner_type key = ''group'' then Some (tk_owner_id key) else None),
       mr_finish_reason = None, mr_content_hash = SYNC_TOMBSTONE_HASH, mr_created_at = deleted_at,
       mr_updated_at = deleted_at, mr_deleted_at = Some deleted_at\<rparr>"

definition later_deletion :: "int option \<Rightarrow> int \<Rightarrow> int option" where
  "later_deletion stored deleted_at =
     (case stored of None \<Rightarrow> Some deleted_at | Some t \<Rightarrow> if t < deleted_at then Some deleted_at else Some t)"

definition set_message_tombstone :: "int \<Rightarrow> messages_row \<Rightarrow> messages_row" where
  "set_message_tombstone deleted_at r =
     r\<lparr>mr_content_hash := SYNC_TOMBSTONE_HASH, mr_updated_at := max (mr_updated_at r) deleted_at,
       mr_deleted_at := later_deletion (mr_deleted_at r) deleted_at\<rparr>"

text \<open>One row of the statement; its trigger fires when the row was there.\<close>

definition tombstone_message :: "topic_key \<Rightarrow> string \<times> int \<Rightarrow> 'f tables \<Rightarrow> 'f tables" where
  "tombstone_message key tomb s =
     (let mk = MessageKey key (fst tomb) in
      s\<lparr>tb_messages := fst (sql_upsert mk (message_tombstone key (snd tomb)) (\<lambda>r. True)
           (set_message_tombstone (snd tomb)) (tb_messages s)),
        tb_fts := (if map_of (tb_messages s) mk = None then tb_fts s
                   else sql_delete (\<lambda>(k, content). k = mk) (tb_fts s))\<rparr>)"

definition tombstone_chunk ::
  "topic_key \<Rightarrow> (string \<times> int) list \<Rightarrow> string list \<times> 'f tables \<Rightarrow> string list \<times> 'f tables" where
  "tombstone_chunk key chunk progress =
     (case progress of (active_ids, s) \<Rightarrow>
        let doomed = one_of key (map fst chunk);
            s1 = fold (tombstone_message key) chunk s
        in (active_ids @ map mk_msg_id (active_keys doomed s), delete_children doomed s1))"

definition apply_sync_message_tombstones ::
  "topic_key \<Rightarrow> (string \<times> int) list \<Rightarrow> 'f tables \<Rightarrow> string + (string list \<times> 'f tables)" where
  "apply_sync_message_tombstones key tombstones s =
     (if tombstones = [] then Inr ([], s)
      else if list_ex (\<lambda>(i, deleted_at). i = [] \<or> deleted_at < 0 \<or> MAX_SAFE_JSON_INTEGER < deleted_at) tombstones \<or>
         \<not> distinct (map fst tombstones)
      then Inl ''Sync message tombstones require unique non-empty ids and safe deletedAt values''
      else if \<not> live_row tr_deleted_at (tb_topics s) key then Inr ([], s)
      else Inr (fold (tombstone_chunk key) (chunks_of 400 tombstones) ([], s)))"

definition soft_delete_messages ::
  "topic_key \<Rightarrow> (string \<times> int) list \<Rightarrow> 'f tables \<Rightarrow> string + (string list \<times> 'f tables)" where
  "soft_delete_messages key tombstones s =
     (if tk_topic_id key = [] \<or> tk_owner_id key = [] \<or> tk_owner_type key \<notin> {''agent'', ''group''} \<or>
         tombstones = [] \<or> list_ex (\<lambda>(i, deleted_at). i = [] \<or> deleted_at < 0) tombstones
      then Inl ''Message delete requires topic identity, ids, and non-negative deletedAt''
      else apply_sync_message_tombstones key tombstones s)"

record message_deletion =
  dl_deleted :: "string list"
  dl_active :: "string list"
  dl_deleted_at :: int
  dl_activity :: topic_activity

text \<open>\<open>now\<close>: the time given, or the clock.\<close>

definition delete_messages ::
  "'f chat_env \<Rightarrow> topic_key \<Rightarrow> string list \<Rightarrow> int \<Rightarrow> 'f tables \<Rightarrow> string + (message_deletion \<times> 'f tables)" where
  "delete_messages env key msg_ids now s =
     (if msg_ids = []
      then then_do (load_topic_activity env key s)
        (\<lambda>activity. Inr (\<lparr>dl_deleted = [], dl_active = [], dl_deleted_at = now, dl_activity = activity\<rparr>, s))
      else if tk_topic_id key = [] \<or> 10000 < length msg_ids \<or> [] \<in> set msg_ids \<or> \<not> distinct msg_ids
      then Inl ''Message delete requires a topic and 1..=10000 unique message ids''
      else
        let doomed = one_of key msg_ids;
            deleted_ids = map (\<lambda>(mk, r). mk_msg_id mk) (filter (\<lambda>(mk, r). doomed mk \<and> mr_deleted_at r = None) (tb_messages s));
            active_ids = map mk_msg_id (active_keys doomed s)
        in case hide_messages (\<lambda>mk r. doomed mk) now s of
             (s1, changed) \<Rightarrow>
               if changed \<noteq> length deleted_ids
               then Inl (''Message delete changed '' @ nat_str changed @ '' rows, expected '' @
                 nat_str (length deleted_ids) @ '' for topic '' @ tk_topic_id key)
               else then_do (bubble_from_topic env key (delete_children doomed s1)) (\<lambda>(activity, s2).
                 Inr (\<lparr>dl_deleted = deleted_ids, dl_active = active_ids, dl_deleted_at = now, dl_activity = activity\<rparr>, s2)))"

text \<open>What comes after a message, in the order of the history.\<close>

definition after_message :: "topic_key \<Rightarrow> int \<Rightarrow> string \<Rightarrow> message_key \<Rightarrow> messages_row \<Rightarrow> bool" where
  "after_message key anchor_timestamp anchor_id mk r \<longleftrightarrow>
     of_topic key mk \<and> (anchor_timestamp < mr_timestamp r \<or> mr_timestamp r = anchor_timestamp \<and> anchor_id < mk_msg_id mk)"

definition truncate_history_after_message ::
  "'f chat_env \<Rightarrow> topic_key \<Rightarrow> string \<Rightarrow> int \<Rightarrow> 'f tables \<Rightarrow> string + (message_deletion \<times> 'f tables)" where
  "truncate_history_after_message env key anchor_id now s =
     (case fetch_live mr_deleted_at (tb_messages s) (MessageKey key anchor_id) of
        None \<Rightarrow> Inl (''Anchor message '' @ anchor_id @ '' is missing or deleted'')
      | Some anchor \<Rightarrow>
          let later = after_message key (mr_timestamp anchor) anchor_id;
              doomed = (\<lambda>mk. case map_of (tb_messages s) mk of None \<Rightarrow> False | Some r \<Rightarrow> later mk r);
              active_ids = map mk_msg_id (active_keys doomed s);
              deleted_ids = map (\<lambda>(mk, r). mk_msg_id mk) (filter (\<lambda>(mk, r). later mk r \<and> mr_deleted_at r = None) (tb_messages s));
              s1 = delete_children doomed s
          in case hide_messages later now s1 of
               (s2, changed) \<Rightarrow>
                 if changed \<noteq> length deleted_ids
                 then Inl (''History truncation changed '' @ nat_str changed @ '' rows, expected '' @
                   nat_str (length deleted_ids) @ '' for topic '' @ tk_topic_id key)
                 else then_do (bubble_from_topic env key s2) (\<lambda>(activity, s3).
                   Inr (\<lparr>dl_deleted = deleted_ids, dl_active = active_ids, dl_deleted_at = now, dl_activity = activity\<rparr>, s3)))"

section \<open>Avatars and old tombstones\<close>

definition avatar_tombstone :: "int \<Rightarrow> avatars_row" where
  "avatar_tombstone deleted_at =
     \<lparr>vr_hash = SYNC_TOMBSTONE_HASH, vr_mime_type = ''application/octet-stream'', vr_image = [],
       vr_dominant_color = None, vr_updated_at = deleted_at, vr_deleted_at = Some deleted_at\<rparr>"

definition set_avatar_tombstone :: "int \<Rightarrow> avatars_row \<Rightarrow> avatars_row" where
  "set_avatar_tombstone deleted_at r =
     r\<lparr>vr_hash := SYNC_TOMBSTONE_HASH, vr_mime_type := ''application/octet-stream'', vr_image := [],
       vr_dominant_color := None, vr_updated_at := max (vr_updated_at r) deleted_at,
       vr_deleted_at := later_deletion (vr_deleted_at r) deleted_at\<rparr>"

definition soft_delete_avatar :: "string \<Rightarrow> string \<Rightarrow> int \<Rightarrow> 'f tables \<Rightarrow> string + 'f tables" where
  "soft_delete_avatar ot oi deleted_at s =
     (if deleted_at < 0 \<or> \<not> is_valid_avatar_owner ot oi
      then Inl (''Invalid avatar owner '' @ ot @ ''/'' @ oi)
      else Inr (s\<lparr>tb_avatars := fst (sql_upsert (ot, oi) (avatar_tombstone deleted_at) (\<lambda>r. True)
             (set_avatar_tombstone deleted_at) (tb_avatars s))\<rparr>))"

text \<open>The bytes of the text that replaces the content of an old tombstone.\<close>

definition CLEARED_CONTENT :: string where
  "CLEARED_CONTENT = map char_of [91::nat, 229, 183, 178, 230, 184, 133, 231, 169, 186, 93]"

definition cleanup_old_deleted_records :: "int \<Rightarrow> int \<Rightarrow> 'f tables \<Rightarrow> 'f tables" where
  "cleanup_old_deleted_records now days s =
     (let threshold = now - days * 24 * 60 * 60 * 1000;
          old = (\<lambda>r. case mr_deleted_at r of None \<Rightarrow> False | Some t \<Rightarrow> t < threshold);
          s1 = delete_render (\<lambda>mk. case map_of (tb_messages s) mk of None \<Rightarrow> False | Some r \<Rightarrow> old r) s
      in s1\<lparr>tb_messages := sql_update_all (\<lambda>mk r. old r \<and> mr_content r \<noteq> CLEARED_CONTENT)
             (\<lambda>r. r\<lparr>mr_content := CLEARED_CONTENT\<rparr>) (tb_messages s1)\<rparr>)"

end
