(* ===== verification/Chat_Rows_Laws.thy ===== *)
theory Chat_Rows_Laws
  imports Chat_Store_Laws Chat_Deletes
begin

text \<open>
  What changes to single rows and the hiding of rows make of the invariant: one message written, messages
  hidden with all that hangs on them, topics, avatars and owners deleted.
\<close>

section \<open>Messages of one topic\<close>

lemma index_change:
  assumes "index_sound s"
    "\<And>k. k \<notin> K \<Longrightarrow> indexed s' k = indexed s k \<and> to_index s' k = to_index s k \<and>
       (k \<in> row_keys (tb_active s) \<longrightarrow> k \<in> row_keys (tb_active s'))"
    "\<And>k. k \<in> K \<Longrightarrow> indexed_right s' k"
  shows "index_sound s'"
  unfolding index_sound_iff
proof
  fix k
  have "indexed_right s k" using assms(1) by (simp add: index_sound_iff)
  then show "indexed_right s' k" using assms(2,3)[of k] by (cases "k \<in> K") (auto simp: indexed_right_def)
qed

text \<open>Statements that change messages, and what hangs on them, in the topics \<open>D\<close> only.\<close>

lemma inv_messages:
  assumes "db_inv env X Y Z s"
    "tb_agents s' = tb_agents s" "tb_groups s' = tb_groups s" "tb_members s' = tb_members s"
    "tb_avatars s' = tb_avatars s" "tb_topics s' = tb_topics s" "keys_unique s'" "index_sound s'"
    "\<And>key. key \<notin> D \<Longrightarrow> live_message_rows s' key = live_message_rows s key"
    "\<And>k. k \<in> row_keys (tb_messages s') \<Longrightarrow> k \<in> row_keys (tb_messages s) \<or> mk_topic k \<in> row_keys (tb_topics s)"
    "\<And>k. live_row mr_deleted_at (tb_messages s') k \<Longrightarrow>
       live_row mr_deleted_at (tb_messages s) k \<or> live_row tr_deleted_at (tb_topics s) (mk_topic k)"
    "\<And>k. k \<in> message_refs s' \<Longrightarrow> live_row mr_deleted_at (tb_messages s') k"
    "rl_hash ` snd ` set (tb_relations s') \<subseteq> row_keys (tb_attachments s')"
  shows "db_inv env X Y (Z \<union> D) s'"
proof -
  have m: "messages_sound s" using assms(1) by (simp add: db_inv_def store_sound_def)
  have "messages_sound s'" unfolding messages_sound_def assms(6)
  proof (intro conjI ballI impI)
    fix k assume "k \<in> row_keys (tb_messages s')"
    then show "mk_topic k \<in> row_keys (tb_topics s)" using assms(10) m by (auto simp: messages_sound_def)
  next
    fix k assume "live_row mr_deleted_at (tb_messages s') k"
    then show "live_row tr_deleted_at (tb_topics s) (mk_topic k)"
      using assms(11)[of k] m by (auto simp: messages_sound_def dest: live_row_key)
  qed (use assms(12,13) in auto)
  moreover have "owners_sound s'"
    by (rule owners_sound_same[of s' s]) (use assms(1-6) in \<open>auto simp: db_inv_def store_sound_def tombstoned_agent_iff\<close>)
  moreover have "roots_fresh (ce_store env) X Y s'" using assms(1-6) by (auto simp: db_inv_def intro: roots_other)
  moreover have "contents_fresh env (Z \<union> D) s'" unfolding contents_fresh_iff
  proof (intro allI impI)
    fix key r assume r: "fetch_live tr_deleted_at (tb_topics s') key = Some r"
    have "key \<in> Z \<or> topic_aggregate env key s = Inr (topic_hashes r)"
      using assms(1) r unfolding assms(6) db_inv_def contents_fresh_iff by blast
    then show "key \<in> Z \<union> D \<or> topic_aggregate env key s' = Inr (topic_hashes r)"
      using assms(9)[of key] by (cases "key \<in> D") (auto simp: topic_aggregate_def)
  qed
  ultimately show ?thesis using assms(7,8) by (simp add: db_inv_def store_sound_def)
qed

lemma sql_update_upsert: "k \<in> row_keys t \<Longrightarrow> fst (sql_update k l g t) = fst (sql_upsert k n l g t)"
  by (auto simp: sql_update_def sql_upsert_def row_keys_map_of)

text \<open>One message is written and is live.\<close>

lemma inv_one_message:
  assumes "db_inv env X Y Z s" "live_row tr_deleted_at (tb_topics s) (mk_topic mk)"
    "tb_agents s' = tb_agents s" "tb_groups s' = tb_groups s" "tb_members s' = tb_members s"
    "tb_avatars s' = tb_avatars s" "tb_topics s' = tb_topics s" "keys_unique s'"
    "tb_messages s' = fst (sql_upsert mk n l g (tb_messages s))" "live_row mr_deleted_at (tb_messages s') mk"
    "\<And>k. k \<in> message_refs s' \<Longrightarrow> k = mk \<or> k \<in> message_refs s"
    "rl_hash ` snd ` set (tb_relations s') \<subseteq> row_keys (tb_attachments s')" "indexed_right s' mk"
    "\<And>k. k \<noteq> mk \<Longrightarrow> indexed s' k = indexed s k"
    "\<And>k. k \<noteq> mk \<Longrightarrow> k \<in> row_keys (tb_active s) \<Longrightarrow> k \<in> row_keys (tb_active s')"
  shows "db_inv env X Y (insert (mk_topic mk) Z) s'"
proof -
  have other: "map_of (tb_messages s') k = map_of (tb_messages s) k" if "k \<noteq> mk" for k
    using that by (simp add: assms(9) map_of_upsert)
  have "db_inv env X Y (Z \<union> {mk_topic mk}) s'"
  proof (rule inv_messages[OF assms(1,3-8)])
    show "index_sound s'"
      by (rule index_change[of s "{mk}"]) (use assms(1,13-15) other in \<open>auto simp: db_inv_def to_index_def\<close>)
    show "live_message_rows s' key = live_message_rows s key" if "key \<notin> {mk_topic mk}" for key
      using that by (auto simp: live_message_rows_def assms(9) of_topic_def
          intro!: arg_cong[where f = "map _"] filter_upsert_other)
    show "k \<in> row_keys (tb_messages s) \<or> mk_topic k \<in> row_keys (tb_topics s)" if "k \<in> row_keys (tb_messages s')" for k
      using that live_row_key[OF assms(2)] by (auto simp: assms(9) keys_upsert)
    show "live_row mr_deleted_at (tb_messages s) k \<or> live_row tr_deleted_at (tb_topics s) (mk_topic k)"
      if "live_row mr_deleted_at (tb_messages s') k" for k
      using that assms(2) other[of k] by (cases "k = mk") (auto simp: live_row_iff)
    show "live_row mr_deleted_at (tb_messages s') k" if "k \<in> message_refs s'" for k
    proof (cases "k = mk")
      case False
      then have "k \<in> message_refs s" using assms(11) that by blast
      then have "live_row mr_deleted_at (tb_messages s) k"
        using assms(1) by (simp add: db_inv_def store_sound_def messages_sound_def)
      then show ?thesis using other[OF False] by (simp add: live_row_iff)
    qed (use assms(10) in simp)
  qed (use assms(12) in auto)
  then show ?thesis by simp
qed

section \<open>Messages hidden\<close>

lemma hide_messages_fields:
  "tb_agents (fst (hide_messages hit now s)) = tb_agents s"
  "tb_groups (fst (hide_messages hit now s)) = tb_groups s"
  "tb_members (fst (hide_messages hit now s)) = tb_members s"
  "tb_avatars (fst (hide_messages hit now s)) = tb_avatars s"
  "tb_topics (fst (hide_messages hit now s)) = tb_topics s"
  "tb_render (fst (hide_messages hit now s)) = tb_render s"
  "tb_relations (fst (hide_messages hit now s)) = tb_relations s"
  "tb_attachments (fst (hide_messages hit now s)) = tb_attachments s"
  "tb_active (fst (hide_messages hit now s)) = tb_active s"
  "tb_messages (fst (hide_messages hit now s)) =
     sql_update_all (\<lambda>mk r. hit mk r \<and> mr_deleted_at r = None) (\<lambda>r. r\<lparr>mr_deleted_at := Some now\<rparr>) (tb_messages s)"
  by (simp_all add: hide_messages_def Let_def)

lemma hidden_live:
  "live_row mr_deleted_at (tb_messages (fst (hide_messages hit now s))) k \<longleftrightarrow>
     (\<exists>r. fetch_live mr_deleted_at (tb_messages s) k = Some r \<and> \<not> hit k r)"
  by (cases "map_of (tb_messages s) k")
    (auto simp: hide_messages_fields live_row_def map_of_update_all fetch_live_iff)

lemma hidden_index:
  assumes "distinct (map fst (tb_messages s))"
  shows "tb_fts (fst (hide_messages hit now s)) =
    filter (\<lambda>(k, c). \<not> (\<exists>r. fetch_live mr_deleted_at (tb_messages s) k = Some r \<and> hit k r)) (tb_fts s)"
proof -
  have "k \<in> set (map fst (filter (\<lambda>(mk, r). hit mk r \<and> mr_deleted_at r = None) (tb_messages s))) \<longleftrightarrow>
      (\<exists>r. fetch_live mr_deleted_at (tb_messages s) k = Some r \<and> hit k r)" for k
    using assms by (force simp: fetch_live_iff)
  then show ?thesis by (simp add: hide_messages_def Let_def sql_delete_def split_def)
qed

lemma delete_children_fields:
  "tb_agents (delete_children doomed s) = tb_agents s" "tb_groups (delete_children doomed s) = tb_groups s"
  "tb_members (delete_children doomed s) = tb_members s" "tb_avatars (delete_children doomed s) = tb_avatars s"
  "tb_topics (delete_children doomed s) = tb_topics s" "tb_messages (delete_children doomed s) = tb_messages s"
  "tb_fts (delete_children doomed s) = tb_fts s" "tb_attachments (delete_children doomed s) = tb_attachments s"
  "tb_render (delete_children doomed s) = filter (\<lambda>(k, r). \<not> doomed k) (tb_render s)"
  "tb_relations (delete_children doomed s) = filter (\<lambda>((k, p), r). \<not> doomed k) (tb_relations s)"
  "tb_active (delete_children doomed s) = filter (\<lambda>(k, c). \<not> doomed k) (tb_active s)"
  by (simp_all add: delete_children_def delete_active_def delete_render_def delete_message_attachments_def
      sql_delete_def split_def)

lemma row_keys_filter: "row_keys (filter (\<lambda>(k, r). P k) t) = {k \<in> row_keys t. P k}"
  by (auto simp: row_keys_def)

lemma map_of_filter_key: "map_of (filter (\<lambda>(k, r). P k) t) k = (if P k then map_of t k else None)"
  by (induction t) auto

lemma fetch_live_rows: "distinct (map fst t) \<Longrightarrow> fetch_live del t k = map_of (live_rows del t) k"
proof (induction t)
  case (Cons a t)
  obtain i r where a: "a = (i, r)" by fastforce
  have "map_of (live_rows del t) i = None" if "i \<notin> fst ` set t"
    using that by (auto simp: map_of_eq_None_iff live_rows_def)
  then show ?case using Cons by (auto simp: a fetch_live_def live_rows_def)
qed (simp add: fetch_live_def live_rows_def)

lemma to_index_fetch:
  "to_index s k = (case fetch_live mr_deleted_at (tb_messages s) k of None \<Rightarrow> [] | Some r \<Rightarrow> [(k, mr_content r)])"
  by (auto simp: to_index_def fetch_live_def split: option.splits)

lemma indexed_none: "k \<notin> row_keys (tb_fts s) \<Longrightarrow> indexed s k = []"
  by (force simp: indexed_def filter_empty_conv row_keys_def)

text \<open>The database without the messages that are doomed: their rows stay, dead or new, and all that hangs on them goes.\<close>

definition without_messages ::
  "(message_key \<Rightarrow> bool) \<Rightarrow> (message_key \<times> messages_row) list \<Rightarrow> 'f tables \<Rightarrow> 'f tables" where
  "without_messages doomed t s =
     s\<lparr>tb_messages := t, tb_fts := filter (\<lambda>(k, c). \<not> doomed k) (tb_fts s),
       tb_render := filter (\<lambda>(k, r). \<not> doomed k) (tb_render s),
       tb_relations := filter (\<lambda>((k, p), r). \<not> doomed k) (tb_relations s),
       tb_active := filter (\<lambda>(k, c). \<not> doomed k) (tb_active s)\<rparr>"

lemma without_messages_fields [simp]:
  "tb_agents (without_messages doomed t s) = tb_agents s" "tb_groups (without_messages doomed t s) = tb_groups s"
  "tb_members (without_messages doomed t s) = tb_members s" "tb_avatars (without_messages doomed t s) = tb_avatars s"
  "tb_topics (without_messages doomed t s) = tb_topics s" "tb_messages (without_messages doomed t s) = t"
  "tb_attachments (without_messages doomed t s) = tb_attachments s"
  "tb_fts (without_messages doomed t s) = filter (\<lambda>(k, c). \<not> doomed k) (tb_fts s)"
  "tb_active (without_messages doomed t s) = filter (\<lambda>(k, c). \<not> doomed k) (tb_active s)"
  by (simp_all add: without_messages_def)

lemma without_messages_refs: "message_refs (without_messages doomed t s) = {k \<in> message_refs s. \<not> doomed k}"
proof -
  have "fst ` row_keys (filter (\<lambda>((k, p), r). \<not> doomed k) (tb_relations s)) =
      {k \<in> fst ` row_keys (tb_relations s). \<not> doomed k}"
    by (force simp: row_keys_def)
  then show ?thesis by (auto simp: without_messages_def message_refs_def row_keys_filter[of "\<lambda>k. \<not> doomed k"])
qed

lemma inv_without_messages:
  assumes "db_inv env X Y Z s" "distinct (map fst t)"
    "live_rows mr_deleted_at t = filter (\<lambda>(k, r). \<not> doomed k) (live_rows mr_deleted_at (tb_messages s))"
    "\<And>k. k \<in> row_keys t \<Longrightarrow> k \<in> row_keys (tb_messages s) \<or> mk_topic k \<in> row_keys (tb_topics s)"
    "\<And>k. doomed k \<Longrightarrow> mk_topic k \<in> D"
  shows "db_inv env X Y (Z \<union> D) (without_messages doomed t s)"
proof -
  let ?s = "without_messages doomed t s"
  have sound: "store_sound s" "index_sound s" using assms(1) by (simp_all add: db_inv_def)
  note d = sound_unique[OF sound(1)]
  have fetch: "fetch_live mr_deleted_at t k = (if doomed k then None else fetch_live mr_deleted_at (tb_messages s) k)" for k
    using fetch_live_rows[OF assms(2), of mr_deleted_at] fetch_live_rows[OF d(6), of mr_deleted_at]
    by (simp add: assms(3) map_of_filter_key[of "\<lambda>k. \<not> doomed k"])
  have live: "live_row mr_deleted_at t k \<longleftrightarrow> live_row mr_deleted_at (tb_messages s) k \<and> \<not> doomed k" for k
    using fetch[of k] fetch_live_None[of mr_deleted_at t k] fetch_live_None[of mr_deleted_at "tb_messages s" k]
    by (auto split: if_splits)
  have ref_live: "live_row mr_deleted_at (tb_messages s) k" if "k \<in> message_refs s" for k
    using sound(1) that by (simp add: store_sound_def messages_sound_def)
  show ?thesis
  proof (rule inv_messages[OF assms(1)])
    show "keys_unique ?s" using d assms(2)
      by (simp add: keys_unique_def without_messages_def distinct_map_filter)
    show "index_sound ?s"
    proof (rule index_change[OF sound(2), of "{k. doomed k}"])
      fix k assume "k \<in> {k. doomed k}"
      then have "indexed ?s k = []" "to_index ?s k = []"
        by (auto simp: indexed_def filter_empty_conv to_index_fetch fetch)
      then show "indexed_right ?s k" by (simp add: indexed_right_def)
    next
      fix k assume k: "k \<notin> {k. doomed k}"
      have "indexed ?s k = indexed s k" unfolding indexed_def without_messages_fields filter_filter
        using k by (intro filter_cong) auto
      then show "indexed ?s k = indexed s k \<and> to_index ?s k = to_index s k \<and>
          (k \<in> row_keys (tb_active s) \<longrightarrow> k \<in> row_keys (tb_active ?s))"
        using k by (simp add: to_index_fetch fetch row_keys_filter[of "\<lambda>k. \<not> doomed k"])
    qed
    show "live_message_rows ?s key = live_message_rows s key" if "key \<notin> D" for key
      using assms(5) that unfolding live_message_rows_eq without_messages_fields assms(3) filter_filter
      by (auto simp: of_topic_def intro!: arg_cong[where f = "map _"] filter_cong)
    show "k \<in> row_keys (tb_messages s) \<or> mk_topic k \<in> row_keys (tb_topics s)" if "k \<in> row_keys (tb_messages ?s)" for k
      using that assms(4) by simp
    show "live_row mr_deleted_at (tb_messages s) k \<or> live_row tr_deleted_at (tb_topics s) (mk_topic k)"
      if "live_row mr_deleted_at (tb_messages ?s) k" for k using that by (simp add: live)
    show "live_row mr_deleted_at (tb_messages ?s) k" if "k \<in> message_refs ?s" for k
      using that ref_live[of k] by (simp add: live without_messages_refs)
    have "rl_hash ` snd ` set (tb_relations ?s) \<subseteq> rl_hash ` snd ` set (tb_relations s)"
      by (intro image_mono) (auto simp: without_messages_def)
    also have "\<dots> \<subseteq> row_keys (tb_attachments s)" using sound(1) by (simp add: store_sound_def messages_sound_def)
    finally show "rl_hash ` snd ` set (tb_relations ?s) \<subseteq> row_keys (tb_attachments ?s)" by simp
  qed simp_all
qed

text \<open>Hiding live messages and deleting their children is such a change.\<close>

lemma hide_messages_without:
  assumes "distinct (map fst (tb_messages s))" "\<And>k. k \<in> message_refs s \<Longrightarrow> live_row mr_deleted_at (tb_messages s) k" "\<And>k r. fetch_live mr_deleted_at (tb_messages s) k = Some r \<Longrightarrow> hit k r \<longleftrightarrow> doomed k"
  shows "delete_children doomed (fst (hide_messages hit now s)) =
    without_messages doomed (tb_messages (fst (hide_messages hit now s))) s"
proof -
  have "live_row mr_deleted_at (tb_messages s) k" if "k \<in> row_keys (tb_fts s)" for k
    using assms(2) that by (simp add: message_refs_def)
  then have "tb_fts (fst (hide_messages hit now s)) = filter (\<lambda>(k, c). \<not> doomed k) (tb_fts s)"
    unfolding hidden_index[OF assms(1)] using assms(3)
    by (intro filter_cong) (force simp: row_keys_def live_row_iff fetch_live_iff)+
  then show ?thesis
    by (auto simp: without_messages_def delete_children_fields hide_messages_fields intro!: tables.equality)
qed

lemma inv_hide_messages:
  assumes "db_inv env X Y Z s"
    "\<And>k r. fetch_live mr_deleted_at (tb_messages s) k = Some r \<Longrightarrow> hit k r \<longleftrightarrow> doomed k"
    "\<And>k. doomed k \<Longrightarrow> mk_topic k \<in> D"
  shows "db_inv env X Y (Z \<union> D) (delete_children doomed (fst (hide_messages hit now s)))"
proof -
  have sound: "store_sound s" using assms(1) by (simp add: db_inv_def)
  note d = sound_unique[OF sound]
  have "live_rows mr_deleted_at (tb_messages (fst (hide_messages hit now s))) =
      filter (\<lambda>(k, r). \<not> (hit k r \<and> mr_deleted_at r = None)) (live_rows mr_deleted_at (tb_messages s))"
    unfolding hide_messages_fields by (rule live_rows_hidden) simp
  also have "\<dots> = filter (\<lambda>(k, r). \<not> doomed k) (live_rows mr_deleted_at (tb_messages s))"
    using assms(2) d(6) by (intro filter_cong) (auto simp: live_rows_def fetch_live_iff)
  finally have "live_rows mr_deleted_at (tb_messages (fst (hide_messages hit now s))) =
      filter (\<lambda>(k, r). \<not> doomed k) (live_rows mr_deleted_at (tb_messages s))" .
  moreover have "delete_children doomed (fst (hide_messages hit now s)) =
      without_messages doomed (tb_messages (fst (hide_messages hit now s))) s"
    using sound by (intro hide_messages_without d(6)) (auto simp: store_sound_def messages_sound_def assms(2))
  ultimately show ?thesis
    using inv_without_messages[OF assms(1), of "tb_messages (fst (hide_messages hit now s))" doomed D] d(6) assms(3)
    by (simp add: hide_messages_fields)
qed

section \<open>Tombstones of messages\<close>

lemma live_rows_buried:
  assumes "distinct (map fst t)" "del n \<noteq> None" "\<And>r. del (g r) \<noteq> None"
  shows "live_rows del (fst (sql_upsert k n (\<lambda>r. True) g t)) = filter (\<lambda>(i, r). i \<noteq> k) (live_rows del t)"
proof (cases "k \<in> row_keys t")
  case True
  then show ?thesis
    using live_rows_hidden[of del g "\<lambda>i r. i = k" t] assms(3) by (simp add: sql_upsert_eq[OF assms(1)])
next
  case False
  then have "i \<noteq> k" if "(i, r) \<in> set (live_rows del t)" for i r
    using that by (force simp: live_rows_def row_keys_def)
  then have "filter (\<lambda>(i, r). i \<noteq> k) (live_rows del t) = live_rows del t" by (auto simp: filter_id_conv)
  then show ?thesis using False assms(2) by (simp only: sql_upsert_eq[OF assms(1)] if_False live_rows_append) simp
qed

abbreviation bury_message :: "topic_key \<Rightarrow> string \<times> int \<Rightarrow> (message_key \<times> messages_row) list \<Rightarrow>
    (message_key \<times> messages_row) list" where
  "bury_message key tomb t \<equiv> fst (sql_upsert (MessageKey key (fst tomb)) (message_tombstone key (snd tomb)) (\<lambda>r. True)
     (set_message_tombstone (snd tomb)) t)"

lemma buried_deleted:
  "mr_deleted_at (message_tombstone key d) \<noteq> None" "mr_deleted_at (set_message_tombstone d r) \<noteq> None"
  by (auto simp: message_tombstone_def set_message_tombstone_def later_deletion_def split: option.splits)

lemma fold_bury_all:
  assumes "distinct (map fst t)"
  shows "distinct (map fst (fold (bury_message key) tombs t)) \<and>
    live_rows mr_deleted_at (fold (bury_message key) tombs t) =
      filter (\<lambda>(k, r). k \<notin> (\<lambda>tomb. MessageKey key (fst tomb)) ` set tombs) (live_rows mr_deleted_at t) \<and>
    row_keys (fold (bury_message key) tombs t) = row_keys t \<union> (\<lambda>tomb. MessageKey key (fst tomb)) ` set tombs"
  using assms
proof (induction tombs arbitrary: t)
  case Nil
  then show ?case by (simp add: split_def)
next
  case (Cons tomb tombs)
  let ?t = "bury_message key tomb t"
  have d: "distinct (map fst ?t)" using Cons.prems by (rule distinct_upsert)
  have l: "live_rows mr_deleted_at ?t = filter (\<lambda>(k, r). k \<noteq> MessageKey key (fst tomb)) (live_rows mr_deleted_at t)"
    by (rule live_rows_buried[OF Cons.prems]) (simp_all add: buried_deleted)
  show ?case using Cons.IH[OF d]
    by (simp only: fold_simps(2) o_apply l keys_upsert filter_filter) (auto intro!: filter_cong)
qed

lemmas fold_bury = fold_bury_all[THEN conjunct1] fold_bury_all[THEN conjunct2, THEN conjunct1]
  fold_bury_all[THEN conjunct2, THEN conjunct2]

lemma fold_tombstone:
  assumes "row_keys (tb_fts s) \<subseteq> row_keys (tb_messages s)"
  shows "fold (tombstone_message key) tombs s =
    s\<lparr>tb_messages := fold (bury_message key) tombs (tb_messages s),
      tb_fts := filter (\<lambda>(k, c). k \<notin> (\<lambda>tomb. MessageKey key (fst tomb)) ` set tombs) (tb_fts s)\<rparr>"
  using assms
proof (induction tombs arbitrary: s)
  case Nil
  have "filter (\<lambda>(k, c). True) t = t" for t :: "(message_key \<times> string) list" by (simp add: filter_id_conv)
  then show ?case by simp
next
  case (Cons tomb tombs)
  define mk where "mk = MessageKey key (fst tomb)"
  have f: "(if map_of (tb_messages s) mk = None then tb_fts s else sql_delete (\<lambda>(k, c). k = mk) (tb_fts s)) =
      filter (\<lambda>(k, c). k \<noteq> mk) (tb_fts s)"
  proof (cases "map_of (tb_messages s) mk = None")
    case True
    then have "mk \<notin> row_keys (tb_fts s)" using Cons.prems by (auto simp: row_keys_map_of)
    then have "k \<noteq> mk" if "(k, c) \<in> set (tb_fts s)" for k c using that by (force simp: row_keys_def)
    then have "filter (\<lambda>(k, c). k \<noteq> mk) (tb_fts s) = tb_fts s" by (auto simp: filter_id_conv)
    then show ?thesis using True by simp
  qed (auto simp: sql_delete_def split_def)
  have step: "tombstone_message key tomb s = s\<lparr>tb_messages := bury_message key tomb (tb_messages s),
      tb_fts := filter (\<lambda>(k, c). k \<noteq> mk) (tb_fts s)\<rparr>"
    by (simp add: tombstone_message_def Let_def f flip: mk_def)
  have "row_keys (tb_fts (tombstone_message key tomb s)) \<subseteq> row_keys (tb_messages (tombstone_message key tomb s))"
    using Cons.prems by (auto simp: step keys_upsert row_keys_filter[of "\<lambda>k. k \<noteq> mk"])
  from Cons.IH[OF this] show ?case
    by (auto simp: step mk_def intro!: tables.equality filter_cong)
qed

lemma inv_tombstone_chunk:
  assumes "db_inv env X Y Z s" "live_row tr_deleted_at (tb_topics s) key"
  shows "db_inv env X Y (insert key Z) (snd (tombstone_chunk key tombs (ids, s))) \<and>
    tb_topics (snd (tombstone_chunk key tombs (ids, s))) = tb_topics s"
proof -
  define t where "t = fold (bury_message key) tombs (tb_messages s)"
  define doomed where "doomed = one_of key (map fst tombs)"
  have sound: "store_sound s" using assms(1) by (simp add: db_inv_def)
  note d = sound_unique(6)[OF sound]
  have dk: "doomed k \<longleftrightarrow> k \<in> (\<lambda>tomb. MessageKey key (fst tomb)) ` set tombs" for k
    by (cases k) (auto simp: doomed_def one_of_def)
  have "k \<in> row_keys (tb_messages s)" if "k \<in> row_keys (tb_fts s)" for k
    using sound that by (auto simp: store_sound_def messages_sound_def message_refs_def intro: live_row_key)
  then have fold: "fold (tombstone_message key) tombs s = s\<lparr>tb_messages := t, tb_fts := filter (\<lambda>(k, c). \<not> doomed k) (tb_fts s)\<rparr>"
    unfolding t_def dk by (intro fold_tombstone) blast
  have "snd (tombstone_chunk key tombs (ids, s)) = delete_children doomed (fold (tombstone_message key) tombs s)"
    by (simp add: tombstone_chunk_def Let_def flip: doomed_def)
  also have "\<dots> = without_messages doomed t s"
    unfolding fold by (auto simp: without_messages_def delete_children_fields intro!: tables.equality)
  finally have e: "snd (tombstone_chunk key tombs (ids, s)) = without_messages doomed t s" .
  have "db_inv env X Y (Z \<union> {key}) (without_messages doomed t s)"
  proof (rule inv_without_messages[OF assms(1)])
    show "distinct (map fst t)" unfolding t_def by (rule fold_bury(1)[OF d])
    show "live_rows mr_deleted_at t = filter (\<lambda>(k, r). \<not> doomed k) (live_rows mr_deleted_at (tb_messages s))"
      unfolding t_def fold_bury(2)[OF d] dk by simp
    show "k \<in> row_keys (tb_messages s) \<or> mk_topic k \<in> row_keys (tb_topics s)" if "k \<in> row_keys t" for k
      using that live_row_key[OF assms(2)] unfolding t_def fold_bury(3)[OF d] by auto
  qed (auto simp: dk)
  then show ?thesis by (simp add: e)
qed

section \<open>Rows that die\<close>

text \<open>Statements after which the live rows are those before, less agents in \<open>A\<close>, groups in \<open>G\<close>, topics in
  \<open>T\<close> and messages in \<open>M\<close>: what was owned by a dead row is dead too.\<close>

lemma fetch_filtered:
  assumes "distinct (map fst t)" "distinct (map fst t')"
    "live_rows del t' = filter (\<lambda>(k, r). k \<notin> K) (live_rows del t)"
  shows "fetch_live del t' k = (if k \<in> K then None else fetch_live del t k)"
    "live_row del t' k \<longleftrightarrow> live_row del t k \<and> k \<notin> K"
proof -
  show f: "fetch_live del t' k = (if k \<in> K then None else fetch_live del t k)"
    using fetch_live_rows[OF assms(2), of del k] fetch_live_rows[OF assms(1), of del k]
    by (simp add: assms(3) map_of_filter_key[of "\<lambda>k. k \<notin> K"])
  show "live_row del t' k \<longleftrightarrow> live_row del t k \<and> k \<notin> K"
    using f fetch_live_None[of del t' k] fetch_live_None[of del t k] by (auto split: if_splits)
qed

lemma fresh_fetch:
  "fresh del content root X t \<longleftrightarrow> (\<forall>i r. fetch_live del t i = Some r \<longrightarrow> i \<in> X \<or> content r = root i)"
  by (auto simp: fresh_iff fetch_live_iff)

lemma fresh_sql_update:
  assumes "fresh del content root X t" "\<And>r. content (g r) = content r" "\<And>r. del (g r) = del r"
  shows "fresh del content root X (fst (sql_update k l g t))"
  unfolding fresh_iff
proof (intro allI impI)
  fix i r assume r: "map_of (fst (sql_update k l g t)) i = Some r" "del r = None"
  then obtain r0 where "map_of t i = Some r0" "content r = content r0" "del r = del r0"
    using assms(2,3) by (auto simp: map_of_update split: if_splits)
  then show "i \<in> X \<or> content r = root i" using assms(1) r(2) by (simp add: fresh_iff)
qed

lemma fresh_removed:
  assumes "fresh del content root X t" "\<And>i. fetch_live del t' i = (if i \<in> A then None else fetch_live del t i)"
    "\<And>i. i \<notin> X' \<Longrightarrow> i \<notin> A \<Longrightarrow> i \<notin> X \<and> root' i = root i"
  shows "fresh del content root' X' t'"
  using assms(1) unfolding fresh_fetch assms(2) by (metis assms(3) option.distinct(1))

lemma roots_removed:
  assumes "live_rows tr_deleted_at (tb_topics s') = filter (\<lambda>(k, r). k \<notin> T) (live_rows tr_deleted_at (tb_topics s))"
  shows "i \<notin> \<Union> (agents_of ` T) \<Longrightarrow> owner_root env s' ''agent'' i = owner_root env s ''agent'' i"
    "i \<notin> \<Union> (groups_of ` T) \<Longrightarrow> owner_root env s' ''group'' i = owner_root env s ''group'' i"
proof -
  have same: "owner_root env s' ot i = owner_root env s ot i"
    if "\<forall>k\<in>T. \<not> (tk_owner_id k = i \<and> tk_owner_type k = ot)" for ot
  proof -
    have "filter (\<lambda>(key, r). tk_owner_id key = i \<and> tk_owner_type key = ot) (live_rows tr_deleted_at (tb_topics s')) =
        filter (\<lambda>(key, r). tk_owner_id key = i \<and> tk_owner_type key = ot) (live_rows tr_deleted_at (tb_topics s))"
      unfolding assms filter_filter using that by (intro filter_cong) auto
    then show ?thesis by (simp add: owner_root_def live_topic_rows_eq)
  qed
  show "i \<notin> \<Union> (agents_of ` T) \<Longrightarrow> owner_root env s' ''agent'' i = owner_root env s ''agent'' i"
    by (rule same) (auto simp: agents_of_def)
  show "i \<notin> \<Union> (groups_of ` T) \<Longrightarrow> owner_root env s' ''group'' i = owner_root env s ''group'' i"
    by (rule same) (auto simp: groups_of_def)
qed

lemma inv_remove:
  assumes "db_inv env X Y Z s" "keys_unique s'"
    and agents: "live_rows ar_deleted_at (tb_agents s') = filter (\<lambda>(i, r). i \<notin> A) (live_rows ar_deleted_at (tb_agents s))"
    and groups: "live_rows gr_deleted_at (tb_groups s') = filter (\<lambda>(i, r). i \<notin> G) (live_rows gr_deleted_at (tb_groups s))"
    and topics: "live_rows tr_deleted_at (tb_topics s') = filter (\<lambda>(k, r). k \<notin> T) (live_rows tr_deleted_at (tb_topics s))"
    and messages: "live_rows mr_deleted_at (tb_messages s') = filter (\<lambda>(k, r). k \<notin> M) (live_rows mr_deleted_at (tb_messages s))"
    and avatars: "\<And>ot oi. live_row vr_deleted_at (tb_avatars s') (ot, oi) \<Longrightarrow>
      live_row vr_deleted_at (tb_avatars s) (ot, oi) \<and> \<not> (ot = ''agent'' \<and> oi \<in> A) \<and> \<not> (ot = ''group'' \<and> oi \<in> G)"
    and members: "\<And>g m. (g, m) \<in> row_keys (tb_members s') \<Longrightarrow>
      (g, m) \<in> row_keys (tb_members s) \<and> g \<notin> G \<and> (tombstoned_agent s' m \<longrightarrow> tombstoned_agent s m)"
    and owned: "\<And>k. live_row tr_deleted_at (tb_topics s) k \<Longrightarrow> k \<notin> T \<Longrightarrow> agents_of k \<inter> A = {} \<and> groups_of k \<inter> G = {}"
    and in_topic: "\<And>k. live_row mr_deleted_at (tb_messages s) k \<Longrightarrow> mk_topic k \<in> T \<Longrightarrow> k \<in> M"
    and keys: "row_keys (tb_topics s) \<subseteq> row_keys (tb_topics s')"
    and known: "\<And>k. k \<in> row_keys (tb_messages s') \<Longrightarrow> k \<in> row_keys (tb_messages s) \<or> mk_topic k \<in> row_keys (tb_topics s')"
    and refs: "message_refs s' \<subseteq> message_refs s - M"
    and index: "\<And>k. k \<notin> M \<Longrightarrow> indexed s' k = indexed s k"
    and active: "\<And>k. k \<notin> M \<Longrightarrow> k \<in> row_keys (tb_active s) \<Longrightarrow> k \<in> row_keys (tb_active s')"
    and files: "rl_hash ` snd ` set (tb_relations s') \<subseteq> row_keys (tb_attachments s')"
    and stale: "X \<union> \<Union> (agents_of ` T) \<subseteq> X' \<union> A" "Y \<union> \<Union> (groups_of ` T) \<subseteq> Y' \<union> G" "Z \<union> mk_topic ` M \<subseteq> Z' \<union> T"
  shows "db_inv env X' Y' Z' s'"
proof -
  have sound: "store_sound s" using assms(1) by (simp add: db_inv_def)
  note d = sound_unique[OF sound]
  have d': "distinct (map fst (tb_agents s'))" "distinct (map fst (tb_groups s'))" "distinct (map fst (tb_topics s'))"
    "distinct (map fst (tb_messages s'))" using assms(2) by (simp_all add: keys_unique_def)
  note a = fetch_filtered[OF d(1) d'(1) agents] note g = fetch_filtered[OF d(2) d'(2) groups]
  note t = fetch_filtered[OF d(5) d'(3) topics] note m = fetch_filtered[OF d(6) d'(4) messages]
  have o: "owners_sound s" and ms: "messages_sound s" using sound by (simp_all add: store_sound_def)
  have parent: "parent_is_live ot oi s'"
    if "parent_is_live ot oi s" "\<not> (ot = ''agent'' \<and> oi \<in> A)" "\<not> (ot = ''group'' \<and> oi \<in> G)" for ot oi
    using that by (auto simp: parent_is_live_def a(2) g(2) split: if_splits)
  have "owners_sound s'" unfolding owners_sound_iff
  proof (intro conjI allI impI)
    fix k assume k: "live_row tr_deleted_at (tb_topics s') k"
    then have "owner_live s (tk_owner_type k) (tk_owner_id k)" using o by (auto simp: owners_sound_iff t(2))
    then show "owner_live s' (tk_owner_type k) (tk_owner_id k)" using owned[of k] k parent
      by (auto simp: owner_live_def t(2) agents_of_def groups_of_def split: if_splits)
  next
    fix ot oi assume "live_row vr_deleted_at (tb_avatars s') (ot, oi)"
    from avatars[OF this] show "parent_is_live ot oi s'" using o parent by (auto simp: owners_sound_iff)
  next
    fix g m assume k: "(g, m) \<in> row_keys (tb_members s')"
    from members[OF k] have "live_row gr_deleted_at (tb_groups s) g \<and> \<not> tombstoned_agent s m \<and> g \<notin> G"
      using o unfolding owners_sound_iff by blast
    then show "live_row gr_deleted_at (tb_groups s') g" "\<not> tombstoned_agent s' m"
      using members[OF k] by (auto simp: g(2))
  qed
  moreover have "messages_sound s'" unfolding messages_sound_def
  proof (intro conjI ballI impI)
    fix k assume "k \<in> row_keys (tb_messages s')"
    then show "mk_topic k \<in> row_keys (tb_topics s')" using known[of k] keys ms by (auto simp: messages_sound_def)
  next
    fix k assume "live_row mr_deleted_at (tb_messages s') k"
    then show "live_row tr_deleted_at (tb_topics s') (mk_topic k)"
      using ms in_topic by (auto simp: messages_sound_def m(2) t(2) dest: live_row_key)
  next
    fix k assume "k \<in> message_refs s'"
    then show "live_row mr_deleted_at (tb_messages s') k" using ms refs by (auto simp: messages_sound_def m(2))
  qed (rule files)
  moreover have "index_sound s'" unfolding index_sound_iff
  proof
    fix k
    show "indexed_right s' k"
    proof (cases "k \<in> M")
      case True
      then have "k \<notin> row_keys (tb_fts s')" using refs by (auto simp: message_refs_def)
      then show ?thesis using True by (simp add: indexed_right_def indexed_none to_index_fetch m(1))
    next
      case False
      have "indexed_right s k" using assms(1) by (simp add: db_inv_def index_sound_iff)
      then show ?thesis using False active[of k] by (auto simp: indexed_right_def index to_index_fetch m(1))
    qed
  qed
  moreover have "roots_fresh (ce_store env) X' Y' s'"
    using assms(1) a(1) g(1) roots_removed[OF topics] stale(1,2) unfolding db_inv_def roots_fresh_def
    by (blast intro: fresh_removed)
  moreover have "contents_fresh env Z' s'" unfolding contents_fresh_iff
  proof (intro allI impI)
    fix k r assume r: "fetch_live tr_deleted_at (tb_topics s') k = Some r"
    then have old: "fetch_live tr_deleted_at (tb_topics s) k = Some r" "k \<notin> T" by (auto simp: t(1) split: if_splits)
    then have fresh: "k \<in> Z \<or> topic_aggregate env k s = Inr (topic_hashes r)"
      using assms(1) unfolding db_inv_def contents_fresh_iff by blast
    show "k \<in> Z' \<or> topic_aggregate env k s' = Inr (topic_hashes r)"
    proof (cases "k \<in> Z'")
      case False
      then have n: "k \<notin> Z" "k \<notin> mk_topic ` M" using stale(3) old(2) by blast+
      then have "filter (\<lambda>(mk, r). of_topic k mk) (live_rows mr_deleted_at (tb_messages s')) =
          filter (\<lambda>(mk, r). of_topic k mk) (live_rows mr_deleted_at (tb_messages s))"
        unfolding messages filter_filter by (intro filter_cong) (auto simp: of_topic_def)
      then show ?thesis using fresh n(1) by (simp add: topic_aggregate_def live_message_rows_eq)
    qed simp
  qed
  ultimately show ?thesis using assms(2) by (simp add: db_inv_def store_sound_def)
qed

end
