(* ===== verification/Chat_Messages.thy ===== *)
theory Chat_Messages
  imports Chat_Deletes
begin

text \<open>
  The life of a message (\<open>chat/message_service.rs\<close>, \<open>persistence/message_repository.rs\<close>): it is appended or
  patched; or a generation begins it, a stream fills it outside the database and one commit ends it; its
  rendering is cached beside it and its attachments may be taken away.
\<close>

section \<open>The time of an update\<close>

text \<open>\<open>previous_updated_at.saturating_add(1)\<close>.\<close>

definition next_instant :: "int \<Rightarrow> int" where
  "next_instant t = min (t + 1) (2 ^ 63 - 1)"

definition resolve_message_updated_at ::
  "u64 option \<Rightarrow> u64 \<Rightarrow> string \<Rightarrow> (string \<times> int) option \<Rightarrow> int \<Rightarrow> string + int" where
  "resolve_message_updated_at explicit message_timestamp content_hash existing now =
     (case existing of
        Some (previous_hash, previous_updated_at) \<Rightarrow>
          let resolved = if previous_hash = content_hash then previous_updated_at
                         else max now (next_instant previous_updated_at)
          in if resolved < 0 \<or> MAX_SAFE_JSON_INTEGER < resolved
             then Inl ''message updatedAt exceeds the safe integer range'' else Inr resolved
      | None \<Rightarrow>
          (case explicit of
             Some updated_at \<Rightarrow>
               if MAX_SAFE_JSON_INTEGER < uint updated_at
               then Inl ''message updatedAt exceeds the safe integer range'' else Inr (uint updated_at)
           | None \<Rightarrow>
               if MAX_SAFE_JSON_INTEGER < uint message_timestamp
               then Inl ''message timestamp exceeds the safe integer range'' else Inr (uint message_timestamp)))"

section \<open>Attachments\<close>

definition attachment_hash :: "attachment \<Rightarrow> string + string" where
  "attachment_hash att =
     (case at_hash att of
        None \<Rightarrow> Inl (''Attachment '' @ at_name att @ '' requires a SHA-256 content hash'')
      | Some hash \<Rightarrow>
          if hash \<noteq> to_ascii_lower hash \<or> \<not> is_valid_cas_hash hash
          then Inl (''Attachment '' @ at_name att @ '' has an invalid SHA-256 content hash'')
          else Inr hash)"

fun collect_results :: "('a \<Rightarrow> string + 'b) \<Rightarrow> 'a list \<Rightarrow> string + 'b list" where
  "collect_results f [] = Inr []"
| "collect_results f (x # xs) = then_do (f x) (\<lambda>y. then_do (collect_results f xs) (\<lambda>ys. Inr (y # ys)))"

text \<open>A file of the content store: path, type and size.\<close>

type_synonym cas_file = "string \<times> string \<times> u64"

definition normalize_attachment :: "(string \<Rightarrow> string + cas_file) \<Rightarrow> attachment \<Rightarrow> string + attachment" where
  "normalize_attachment resolve att =
     (case at_hash att of
        None \<Rightarrow> Inl (''Attachment '' @ at_name att @ '' requires a valid SHA-256 hash'')
      | Some given \<Rightarrow>
          if \<not> is_valid_cas_hash given
          then Inl (''Attachment '' @ at_name att @ '' requires a valid SHA-256 hash'')
          else
            let hash = to_ascii_lower given
            in case resolve hash of
                 Inr (path, mime, size_bytes) \<Rightarrow>
                   Inr (att\<lparr>at_hash := Some hash, at_type := mime, at_size := size_bytes,
                     at_src := ''file://'' @ path, at_internal_path := path, at_status := Some ''ready''\<rparr>)
               | Inl error \<Rightarrow>
                   if at_status att = Some ''desktop_only''
                   then Inr (att\<lparr>at_hash := Some hash, at_src := [], at_internal_path := []\<rparr>)
                   else Inl (''Attachment '' @ at_name att @ '' is not available in the Mobile CAS: '' @ error))"

definition normalize_attachments_from_local_cas ::
  "(string \<Rightarrow> string + cas_file) \<Rightarrow> chat_message \<Rightarrow> string + chat_message" where
  "normalize_attachments_from_local_cas resolve msg =
     (case cm_attachments msg of
        None \<Rightarrow> Inr msg
      | Some atts \<Rightarrow>
          then_do (collect_results (normalize_attachment resolve) atts)
            (\<lambda>atts'. Inr (msg\<lparr>cm_attachments := Some atts'\<rparr>)))"

definition upsert_attachment ::
  "'f chat_env \<Rightarrow> message_key \<Rightarrow> int \<Rightarrow> nat \<times> attachment \<Rightarrow> 'f tables \<Rightarrow> string + 'f tables" where
  "upsert_attachment env mk timestamp numbered s =
     (case numbered of (i, att) \<Rightarrow>
        then_do (attachment_hash att) (\<lambda>hash.
          let s1 = rusqlite_upsert_attachment_core (ce_store env) hash att timestamp s;
              row = \<lparr>rl_hash = hash, rl_display_name = at_name att, rl_src = at_src att, rl_status = at_status att,
                rl_created_at = timestamp\<rparr>
          in Inr (s1\<lparr>tb_relations := fst (sql_upsert (mk, i) row (\<lambda>r. r \<noteq> row) (\<lambda>r. row) (tb_relations s1))\<rparr>)))"

definition upsert_attachments_for_message ::
  "'f chat_env \<Rightarrow> message_key \<Rightarrow> int \<Rightarrow> attachment list \<Rightarrow> 'f tables \<Rightarrow> string + 'f tables" where
  "upsert_attachments_for_message env mk timestamp atts s =
     then_do (each_do (upsert_attachment env mk timestamp) (zip [0..<length atts] atts) s) (\<lambda>s1.
       if 2 ^ 31 \<le> int (length atts) then Inl ''Too many attachments''
       else Inr (s1\<lparr>tb_relations := sql_delete (\<lambda>((k, position), r). k = mk \<and> length atts \<le> position) (tb_relations s1)\<rparr>))"

section \<open>Writing a message\<close>

definition fingerprint_of ::
  "'f chat_env \<Rightarrow> string \<Rightarrow> string \<Rightarrow> string option \<Rightarrow> string \<Rightarrow> u64 \<Rightarrow> string option \<Rightarrow> string list \<Rightarrow> string" where
  "fingerprint_of env i role name content timestamp agent_id hashes =
     compute_message_fingerprint (se_sha (ce_store env)) (se_esc (ce_store env)) (se_fmt (ce_store env))
       \<lparr>fp_message_id = i, fp_role = role, fp_name = name, fp_content = content, fp_timestamp = timestamp,
         fp_agent_id = agent_id, fp_attachment_hashes = hashes\<rparr>"

definition load_upsert_target_state :: "topic_key \<Rightarrow> string \<Rightarrow> 'f tables \<Rightarrow> string + messages_row option" where
  "load_upsert_target_state key i s =
     (if \<not> live_row tr_deleted_at (tb_topics s) key
      then Inl (''topic '' @ tk_topic_id key @ '' is deleted or missing'')
      else (case map_of (tb_messages s) (MessageKey key i) of
          None \<Rightarrow> Inr None
        | Some r \<Rightarrow>
            if mr_deleted_at r \<noteq> None
            then Inl (''message '' @ i @ '' is tombstoned and cannot be restored by upsert'')
            else Inr (Some r)))"

definition message_row_of :: "chat_message \<Rightarrow> string \<Rightarrow> int \<Rightarrow> messages_row" where
  "message_row_of msg content_hash updated_at =
     \<lparr>mr_role = cm_role msg, mr_name = cm_name msg, mr_agent_id = cm_agent_id msg, mr_content = cm_content msg,
       mr_timestamp = sint (cm_timestamp msg), mr_is_group_message = unwrap_or (cm_is_group_message msg) False,
       mr_group_id = cm_group_id msg, mr_finish_reason = cm_finish_reason msg, mr_content_hash = content_hash,
       mr_created_at = sint (cm_timestamp msg), mr_updated_at = updated_at, mr_deleted_at = None\<rparr>"

definition core_changed :: "messages_row \<Rightarrow> messages_row option \<Rightarrow> bool" where
  "core_changed new_row existing \<longleftrightarrow>
     (case existing of
        None \<Rightarrow> True
      | Some r \<Rightarrow>
          mr_role r \<noteq> mr_role new_row \<or> mr_name r \<noteq> mr_name new_row \<or> mr_agent_id r \<noteq> mr_agent_id new_row \<or>
          mr_content r \<noteq> mr_content new_row \<or> mr_timestamp r \<noteq> mr_timestamp new_row \<or>
          mr_is_group_message r \<noteq> mr_is_group_message new_row \<or> mr_group_id r \<noteq> mr_group_id new_row \<or>
          mr_finish_reason r \<noteq> mr_finish_reason new_row \<or> mr_content_hash r \<noteq> mr_content_hash new_row \<or>
          mr_updated_at r \<noteq> mr_updated_at new_row)"

definition write_message_row ::
  "message_key \<Rightarrow> messages_row \<Rightarrow> messages_row option \<Rightarrow> 'f tables \<Rightarrow> string + 'f tables" where
  "write_message_row mk new_row existing s =
     (if core_changed new_row existing
      then (case sql_upsert mk new_row (\<lambda>r. mr_deleted_at r = None)
            (\<lambda>r. new_row\<lparr>mr_created_at := mr_created_at r, mr_deleted_at := mr_deleted_at r\<rparr>) (tb_messages s) of
          (t, changed) \<Rightarrow>
            if changed \<noteq> 1 then Inl (''Message '' @ mk_msg_id mk @ '' disappeared during upsert'')
            else Inr (s\<lparr>tb_messages := t\<rparr>))
      else Inr s)"

definition write_render_row :: "message_key \<Rightarrow> render_row \<Rightarrow> 'f tables \<Rightarrow> 'f tables" where
  "write_render_row mk row s =
     s\<lparr>tb_render := fst (sql_upsert mk row (\<lambda>r. r \<noteq> row) (\<lambda>r. row) (tb_render s))\<rparr>"

definition index_message :: "message_key \<Rightarrow> string \<Rightarrow> 'f tables \<Rightarrow> 'f tables" where
  "index_message mk content s =
     s\<lparr>tb_fts := sql_delete (\<lambda>(k, c). k = mk) (tb_fts s) @ [(mk, content)]\<rparr>"

text \<open>The row, its rendering, its entry in the index and its attachments.\<close>

definition write_message_rows ::
  "'f chat_env \<Rightarrow> message_key \<Rightarrow> chat_message \<Rightarrow> string \<Rightarrow> messages_row \<Rightarrow> messages_row option \<Rightarrow> 'f tables \<Rightarrow>
     string + 'f tables" where
  "write_message_rows env mk msg render new_row existing s =
     then_do (write_message_row mk new_row existing s) (\<lambda>s1.
       let s2 = write_render_row mk \<lparr>rr_content = render, rr_hash = mr_content_hash new_row,
             rr_schema_version = RENDERER_SCHEMA_VERSION, rr_updated_at = sint (cm_timestamp msg)\<rparr> s1;
           content_differs = (case existing of None \<Rightarrow> True | Some r \<Rightarrow> mr_content r \<noteq> cm_content msg);
           s3 = (if content_differs then index_message mk (cm_content msg) s2 else s2)
       in case cm_attachments msg of
            Some atts \<Rightarrow> upsert_attachments_for_message env mk (sint (cm_timestamp msg)) atts s3
          | None \<Rightarrow> Inr (delete_message_attachments (\<lambda>k. k = mk) s3))"

definition upsert_message ::
  "'f chat_env \<Rightarrow> int \<Rightarrow> topic_key \<Rightarrow> chat_message \<Rightarrow> string \<Rightarrow> bool \<Rightarrow> 'f tables \<Rightarrow>
     string + (topic_activity option \<times> 'f tables)" where
  "upsert_message env now key msg render skip_bubble s =
     then_do (collect_results attachment_hash (unwrap_or (cm_attachments msg) [])) (\<lambda>hashes.
       let content_hash = fingerprint_of env (cm_id msg) (cm_role msg) (cm_name msg) (cm_content msg)
             (cm_timestamp msg) (cm_agent_id msg) hashes
       in then_do (load_upsert_target_state key (cm_id msg) s) (\<lambda>existing.
          case resolve_message_updated_at (cm_updated_at msg) (cm_timestamp msg) content_hash
              (map_option (\<lambda>r. (mr_content_hash r, mr_updated_at r)) existing) now of
            Inl e \<Rightarrow> Inl (''message '' @ cm_id msg @ '' '' @ e)
          | Inr updated_at \<Rightarrow>
              let new_row = message_row_of msg content_hash updated_at;
                  hash_differs = (case existing of None \<Rightarrow> True | Some r \<Rightarrow> mr_content_hash r \<noteq> content_hash)
              in then_do (write_message_rows env (MessageKey key (cm_id msg)) msg render new_row existing s) (\<lambda>s1.
                if \<not> skip_bubble \<and> hash_differs
                then then_do (bubble_from_topic env key s1) (\<lambda>(activity, s2). Inr (Some activity, s2))
                else Inr (None, s1))))"

text \<open>The bytes to cache: of the blocks that came with the message, or of its content.\<close>

definition render_bytes :: "'f chat_env \<Rightarrow> string option \<Rightarrow> chat_message \<Rightarrow> string + string" where
  "render_bytes env blocks msg =
     (case blocks of Some b \<Rightarrow> ce_serialize env b | None \<Rightarrow> ce_compile env (cm_content msg))"

definition write_one_message ::
  "'f chat_env \<Rightarrow> (string \<Rightarrow> string + cas_file) \<Rightarrow> int \<Rightarrow> topic_key \<Rightarrow> string option \<Rightarrow> chat_message \<Rightarrow> bool \<Rightarrow>
     'f tables \<Rightarrow> string + (int \<times> 'f tables)" where
  "write_one_message env resolve now key blocks msg0 skip_bubble s =
     then_do (normalize_attachments_from_local_cas resolve msg0) (\<lambda>msg.
       then_do (render_bytes env blocks msg) (\<lambda>render.
         then_do (upsert_message env now key msg render skip_bubble s) (\<lambda>(activity, s1).
           then_do (case activity of Some a \<Rightarrow> Inr a | None \<Rightarrow> load_topic_activity env key s1)
             (\<lambda>a. Inr (ta_updated_at a, s1)))))"

definition append_single_message ::
  "'f chat_env \<Rightarrow> (string \<Rightarrow> string + cas_file) \<Rightarrow> int \<Rightarrow> topic_key \<Rightarrow> string option \<Rightarrow> chat_message \<Rightarrow>
     'f tables \<Rightarrow> string + (int \<times> 'f tables)" where
  "append_single_message env resolve now key blocks msg s = write_one_message env resolve now key blocks msg False s"

definition patch_single_message ::
  "'f chat_env \<Rightarrow> (string \<Rightarrow> string + cas_file) \<Rightarrow> int \<Rightarrow> topic_key \<Rightarrow> string option \<Rightarrow> chat_message \<Rightarrow> bool \<Rightarrow>
     'f tables \<Rightarrow> string + (int \<times> 'f tables)" where
  "patch_single_message env resolve now key blocks msg skip_bubble s =
     write_one_message env resolve now key blocks msg skip_bubble s"

section \<open>A generation\<close>

definition starting_row :: "topic_key \<Rightarrow> string option \<Rightarrow> string option \<Rightarrow> string \<Rightarrow> int \<Rightarrow> messages_row" where
  "starting_row key agent_id agent_name content_hash now =
     \<lparr>mr_role = ''assistant'', mr_name = agent_name, mr_agent_id = agent_id, mr_content = [], mr_timestamp = now,
       mr_is_group_message = (tk_owner_type key = ''group''),
       mr_group_id = (if tk_owner_type key = ''group'' then Some (tk_owner_id key) else None),
       mr_finish_reason = None, mr_content_hash = content_hash, mr_created_at = now, mr_updated_at = now,
       mr_deleted_at = None\<rparr>"

definition begin_stream_message ::
  "'f chat_env \<Rightarrow> message_key \<Rightarrow> string option \<Rightarrow> string option \<Rightarrow> int \<Rightarrow> 'f tables \<Rightarrow> string + 'f tables" where
  "begin_stream_message env mk agent_id agent_name now s =
     then_do (ce_compile env []) (\<lambda>render.
       let key = mk_topic mk; unique = se_unique (ce_store env)
       in if now < 0 then Inl ''Current timestamp cannot be represented as u64''
          else
            let content_hash = fingerprint_of env (mk_msg_id mk) ''assistant'' agent_name [] (of_int now) agent_id []
            in if \<not> live_row tr_deleted_at (tb_topics s) key
               then Inl (''Topic '' @ tk_topic_id key @ '' does not belong to live '' @ tk_owner_type key @ '' '' @ tk_owner_id key)
               else if map_of (tb_messages s) mk \<noteq> None \<or> map_of (tb_render s) mk \<noteq> None then Inl unique
               else
                 let s1 = s\<lparr>tb_messages := tb_messages s @ [(mk, starting_row key agent_id agent_name content_hash now)],
                      tb_render := tb_render s @ [(mk, \<lparr>rr_content = render, rr_hash = content_hash,
                        rr_schema_version = RENDERER_SCHEMA_VERSION, rr_updated_at = now\<rparr>)]\<rparr>
                 in then_do (bubble_from_topic env key s1) (\<lambda>(activity, s2).
                      if map_of (tb_active s2) mk \<noteq> None then Inl unique
                      else Inr (s2\<lparr>tb_active := tb_active s2 @ [(mk, now)]\<rparr>)))"

definition not_pending :: "message_key \<Rightarrow> string" where
  "not_pending mk =
     ''Generation '' @ mk_msg_id mk @ '' is not pending for '' @ tk_owner_type (mk_topic mk) @ '' '' @
     tk_owner_id (mk_topic mk) @ '' topic '' @ tk_topic_id (mk_topic mk)"

text \<open>A generation that has not ended, of a message that is live and has no end.\<close>

definition pending_row :: "message_key \<Rightarrow> 'f tables \<Rightarrow> messages_row option" where
  "pending_row mk s =
     (case fetch_live mr_deleted_at (tb_messages s) mk of
        None \<Rightarrow> None
      | Some r \<Rightarrow> if mr_finish_reason r = None \<and> mk \<in> fst ` set (tb_active s) then Some r else None)"

definition ended_row :: "topic_key \<Rightarrow> string \<Rightarrow> string \<Rightarrow> string \<Rightarrow> int \<Rightarrow> messages_row \<Rightarrow> messages_row" where
  "ended_row key content reason content_hash final_ts r =
     r\<lparr>mr_role := ''assistant'', mr_content := content, mr_is_group_message := (tk_owner_type key = ''group''),
       mr_group_id := (if tk_owner_type key = ''group'' then Some (tk_owner_id key) else None),
       mr_finish_reason := Some reason, mr_content_hash := content_hash, mr_updated_at := final_ts\<rparr>"

definition commit_stream_message ::
  "'f chat_env \<Rightarrow> message_key \<Rightarrow> string \<Rightarrow> int \<Rightarrow> string \<Rightarrow> string option \<Rightarrow> string option \<Rightarrow> 'f tables \<Rightarrow>
     string + ((int \<times> int) \<times> 'f tables)" where
  "commit_stream_message env mk content final_ts reason agent_id agent_name s =
     then_do (ce_compile env content) (\<lambda>render.
       let key = mk_topic mk
       in case pending_row mk s of
            None \<Rightarrow> Inl (not_pending mk)
          | Some r \<Rightarrow>
              if mr_timestamp r < 0 then Inl (''Message '' @ mk_msg_id mk @ '' has a negative timestamp'')
              else
                let content_hash = fingerprint_of env (mk_msg_id mk) ''assistant'' agent_name content
                      (of_int (mr_timestamp r)) agent_id [];
                    (messages, updated) = sql_update mk (\<lambda>r. mr_finish_reason r = None \<and> mr_deleted_at r = None)
                      (ended_row key content reason content_hash final_ts) (tb_messages s);
                    (renders, cached) = sql_update mk (\<lambda>r. True)
                      (\<lambda>r. \<lparr>rr_content = render, rr_hash = content_hash,
                         rr_schema_version = RENDERER_SCHEMA_VERSION, rr_updated_at = final_ts\<rparr>) (tb_render s)
                in if updated \<noteq> 1 then Inl (not_pending mk)
                   else if cached \<noteq> 1 then Inl (''Render cache missing for pending generation '' @ mk_msg_id mk)
                   else
                     let s1 = index_message mk content (s\<lparr>tb_messages := messages, tb_render := renders\<rparr>);
                         s2 = delete_active (\<lambda>k. k = mk) s1
                     in if length (active_keys (\<lambda>k. k = mk) s1) \<noteq> 1
                        then Inl (''Active generation '' @ mk_msg_id mk @ '' changed during finalization'')
                        else then_do (bubble_from_topic env key s2)
                          (\<lambda>(activity, s3). Inr ((mr_timestamp r, ta_updated_at activity), s3)))"

text \<open>The bytes of the note that ends an aborted stream.\<close>

definition ABORTED_NOTE :: string where
  "ABORTED_NOTE = map char_of [10::nat, 10, 62, 32, 86, 67, 80, 230, 181, 129, 229, 188, 143, 233, 148, 153, 232, 175, 175, 58, 32, 232, 175, 183, 230, 177, 130, 229, 183, 178, 228, 184, 173, 230, 173, 162]"

text \<open>What the consumer of the stream is told, and whether the helper process keeps the result.\<close>

datatype stream_end = StreamEnded string int "int option" | StreamFailed string bool

definition stream_agent :: "message_key \<Rightarrow> string option \<Rightarrow> string option" where
  "stream_agent mk agent_id = (if tk_owner_type (mk_topic mk) = ''group'' then agent_id else Some (tk_owner_id (mk_topic mk)))"

definition stream_agent_name :: "string option \<Rightarrow> 'f tables \<Rightarrow> string option" where
  "stream_agent_name agent s = (case agent of None \<Rightarrow> None | Some i \<Rightarrow> map_option ar_name (map_of (tb_agents s) i))"

text \<open>\<open>s_read\<close> is the database when the name of the agent is read, \<open>s\<close> when the commit runs and \<open>s_after\<close> when
  a failure looks whether the generation is still there.\<close>

definition finalize_stream_message ::
  "'f chat_env \<Rightarrow> message_key \<Rightarrow> string \<Rightarrow> bool \<Rightarrow> string option \<Rightarrow> string option \<Rightarrow> int \<Rightarrow>
     'f tables \<Rightarrow> 'f tables \<Rightarrow> 'f tables \<Rightarrow> (string + string) \<times> stream_end \<times> 'f tables" where
  "finalize_stream_message env mk full_content is_aborted finish_reason agent_id now s_read s s_after =
     (let final_content = (if is_aborted then full_content @ ABORTED_NOTE else full_content);
          agent = stream_agent mk agent_id;
          name = stream_agent_name agent s_read;
          reason = unwrap_or finish_reason ''completed''
      in if tk_owner_id (mk_topic mk) = [] \<or> tk_topic_id (mk_topic mk) = []
         then (Inr final_content, StreamEnded final_content now None, s)
         else (case commit_stream_message env mk final_content now reason agent name s of
             Inr ((start, updated_at), s1) \<Rightarrow> (Inr final_content, StreamEnded final_content start (Some updated_at), s1)
           | Inl e \<Rightarrow> (Inl e, StreamFailed final_content (mk \<in> fst ` set (tb_active s_after)), s)))"

section \<open>The cache of renderings\<close>

definition source_is_current :: "message_key \<Rightarrow> string \<Rightarrow> 'f tables \<Rightarrow> bool" where
  "source_is_current mk content_hash s =
     (case fetch_live mr_deleted_at (tb_messages s) mk of None \<Rightarrow> False | Some r \<Rightarrow> mr_content_hash r = content_hash)"

definition write_render_cache_cas ::
  "message_key \<Rightarrow> string \<Rightarrow> string \<Rightarrow> int \<Rightarrow> 'f tables \<Rightarrow> bool \<times> 'f tables" where
  "write_render_cache_cas mk observed_hash render now s =
     (if source_is_current mk observed_hash s
      then let row = \<lparr>rr_content = render, rr_hash = observed_hash, rr_schema_version = RENDERER_SCHEMA_VERSION,
               rr_updated_at = now\<rparr>
           in case sql_upsert mk row (\<lambda>r. source_is_current mk observed_hash s) (\<lambda>r. row) (tb_render s) of
                (t, changed) \<Rightarrow> (changed = 1, s\<lparr>tb_render := t\<rparr>)
      else (False, s))"

definition update_render_cache_if_current ::
  "message_key \<Rightarrow> string \<Rightarrow> string \<Rightarrow> int \<Rightarrow> 'f tables \<Rightarrow> nat \<times> 'f tables" where
  "update_render_cache_if_current mk content_hash render now s =
     (case sql_update mk (\<lambda>r. source_is_current mk content_hash s)
         (\<lambda>r. \<lparr>rr_content = render, rr_hash = content_hash, rr_schema_version = RENDERER_SCHEMA_VERSION,
            rr_updated_at = now\<rparr>) (tb_render s) of
        (t, changed) \<Rightarrow> (changed, s\<lparr>tb_render := t\<rparr>))"

text \<open>A cached rendering is used for the content it was made of and the renderer of this version.\<close>

definition cache_hit :: "message_key \<Rightarrow> 'f tables \<Rightarrow> string option" where
  "cache_hit mk s =
     (case (map_of (tb_messages s) mk, map_of (tb_render s) mk) of
        (Some r, Some c) \<Rightarrow>
          if rr_hash c = mr_content_hash r \<and> rr_schema_version c = RENDERER_SCHEMA_VERSION then Some (rr_content c) else None
      | _ \<Rightarrow> None)"

section \<open>Taking an attachment away\<close>

definition delete_message_attachment_in_db ::
  "'f chat_env \<Rightarrow> message_key \<Rightarrow> nat \<Rightarrow> string \<Rightarrow> int \<Rightarrow> 'f tables \<Rightarrow> string + (topic_activity \<times> 'f tables)" where
  "delete_message_attachment_in_db env mk position hash now s =
     (let key = mk_topic mk;
          doomed = (\<lambda>(k, r). k = (mk, position) \<and> rl_hash r = hash);
          s1 = s\<lparr>tb_relations := sql_delete doomed (tb_relations s)\<rparr>
      in if \<not> list_ex doomed (tb_relations s)
         then then_do (load_topic_activity env key s) (\<lambda>activity. Inr (activity, s))
         else (case fetch_live mr_deleted_at (tb_messages s1) mk of
             None \<Rightarrow> Inl (ce_no_rows env)
           | Some r \<Rightarrow>
               if mr_timestamp r < 0 then Inl (''Message '' @ mk_msg_id mk @ '' has a negative timestamp'')
               else
                 let hashes = map (\<lambda>(k, rel). rl_hash rel) (filter (\<lambda>((k, p), rel). k = mk) (tb_relations s1));
                     new_hash = fingerprint_of env (mk_msg_id mk) (mr_role r) (mr_name r) (mr_content r)
                       (of_int (mr_timestamp r)) (mr_agent_id r) hashes
                 in case resolve_message_updated_at None (of_int (mr_timestamp r)) new_hash
                       (Some (mr_content_hash r, mr_updated_at r)) now of
                      Inl e \<Rightarrow> Inl (''message '' @ mk_msg_id mk @ '' '' @ e)
                    | Inr updated_at \<Rightarrow>
                        (case sql_update mk (\<lambda>r. mr_deleted_at r = None)
                            (\<lambda>r. r\<lparr>mr_content_hash := new_hash, mr_updated_at := updated_at\<rparr>) (tb_messages s1) of
                           (t, changed) \<Rightarrow>
                             if changed \<noteq> 1 then Inl (''Message '' @ mk_msg_id mk @ '' is missing or deleted'')
                             else bubble_from_topic env key (s1\<lparr>tb_messages := t\<rparr>))))"

end
