(* ===== verification/Chat_Messages_Laws.thy ===== *)
theory Chat_Messages_Laws
  imports Chat_Rows_Laws Chat_Messages
begin

text \<open>
  Writing a message, a generation from its begin to its commit, the cache of renderings and the removal of
  an attachment keep the database sound and fresh.
\<close>

section \<open>Attachments\<close>

text \<open>What the statements on the attachments of one message may change.\<close>

definition attachments_step :: "message_key \<Rightarrow> 'f tables \<Rightarrow> 'f tables \<Rightarrow> bool" where
  "attachments_step mk s s' \<longleftrightarrow>
     tb_agents s' = tb_agents s \<and> tb_groups s' = tb_groups s \<and> tb_members s' = tb_members s \<and>
     tb_avatars s' = tb_avatars s \<and> tb_topics s' = tb_topics s \<and> tb_messages s' = tb_messages s \<and>
     tb_render s' = tb_render s \<and> tb_fts s' = tb_fts s \<and> tb_active s' = tb_active s \<and>
     grows (tb_attachments s) (tb_attachments s') \<and>
     (distinct (map fst (tb_relations s)) \<longrightarrow> distinct (map fst (tb_relations s'))) \<and>
     fst ` row_keys (tb_relations s') \<subseteq> insert mk (fst ` row_keys (tb_relations s)) \<and>
     (rl_hash ` snd ` set (tb_relations s) \<subseteq> row_keys (tb_attachments s) \<longrightarrow>
        rl_hash ` snd ` set (tb_relations s') \<subseteq> row_keys (tb_attachments s'))"

lemma attachments_refl: "attachments_step mk s s"
  by (auto simp: attachments_step_def)

lemma attachments_trans:
  assumes "attachments_step mk a b" "attachments_step mk b c"
  shows "attachments_step mk a c"
proof -
  have k: "fst ` row_keys (tb_relations b) \<subseteq> insert mk (fst ` row_keys (tb_relations a))"
      "fst ` row_keys (tb_relations c) \<subseteq> insert mk (fst ` row_keys (tb_relations b))"
    and g: "grows (tb_attachments a) (tb_attachments b)" "grows (tb_attachments b) (tb_attachments c)"
    using assms by (simp_all only: attachments_step_def)
  have "fst ` row_keys (tb_relations c) \<subseteq> insert mk (fst ` row_keys (tb_relations a))" using k by blast
  moreover have "grows (tb_attachments a) (tb_attachments c)" by (rule grows_trans[OF g])
  ultimately show ?thesis using assms unfolding attachments_step_def by argo
qed

lemma set_upsert_rows: "set (fst (sql_upsert k n l (\<lambda>r. n) t)) \<subseteq> insert (k, n) (set t)"
  using set_upsert_subset by fastforce

lemma upsert_attachment_step:
  assumes "upsert_attachment env mk ts numbered s = Inr s'"
  shows "attachments_step mk s s'"
proof -
  obtain i att where n: "numbered = (i, att)" by fastforce
  obtain hash where h: "attachment_hash att = Inr hash" using assms by (auto simp: upsert_attachment_def n then_do_Inr)
  define row where "row = \<lparr>rl_hash = hash, rl_display_name = at_name att, rl_src = at_src att, rl_status = at_status att,
      rl_created_at = ts\<rparr>"
  define rels where "rels = fst (sql_upsert (mk, i) row (\<lambda>r. r \<noteq> row) (\<lambda>r. row) (tb_relations s))"
  define atts where "atts = fst (sql_upsert hash (new_attachments_row (ce_store env) att ts)
      (attachment_differs (new_attachments_row (ce_store env) att ts))
      (set_attachments_row (new_attachments_row (ce_store env) att ts)) (tb_attachments s))"
  have s': "s' = s\<lparr>tb_relations := rels, tb_attachments := atts\<rparr>"
    using assms h by (auto simp: upsert_attachment_def n then_do_Inr Let_def rusqlite_upsert_attachment_core_def
        rels_def atts_def row_def)
  have "rl_hash ` snd ` set rels \<subseteq> row_keys atts" if "rl_hash ` snd ` set (tb_relations s) \<subseteq> row_keys (tb_attachments s)"
  proof -
    have "set rels \<subseteq> insert ((mk, i), row) (set (tb_relations s))" unfolding rels_def by (rule set_upsert_rows)
    then have "rl_hash ` snd ` set rels \<subseteq> rl_hash ` snd ` insert ((mk, i), row) (set (tb_relations s))"
      by (intro image_mono)
    also have "\<dots> = insert hash (rl_hash ` snd ` set (tb_relations s))" by (simp add: row_def)
    finally have "rl_hash ` snd ` set rels \<subseteq> insert hash (rl_hash ` snd ` set (tb_relations s))" .
    then show ?thesis using that by (auto simp: atts_def keys_upsert)
  qed
  then show ?thesis unfolding attachments_step_def s'
    by (auto simp: rels_def atts_def grows_upsert distinct_upsert keys_upsert)
qed

lemma upsert_attachments_step:
  assumes "upsert_attachments_for_message env mk ts atts s = Inr s'"
  shows "attachments_step mk s s'"
proof -
  obtain s1 where e: "each_do (upsert_attachment env mk ts) (zip [0..<length atts] atts) s = Inr s1"
    and s': "s' = s1\<lparr>tb_relations := sql_delete (\<lambda>((k, position), r). k = mk \<and> length atts \<le> position) (tb_relations s1)\<rparr>"
    using assms by (auto simp: upsert_attachments_for_message_def then_do_Inr split: if_splits)
  have one: "attachments_step mk s s1"
    by (rule each_do_rule[OF e]) (blast intro: attachments_refl attachments_trans upsert_attachment_step)+
  have two: "attachments_step mk s1 s'" unfolding attachments_step_def s'
    by (auto simp: sql_delete_def row_keys_def distinct_map_filter)
  show ?thesis by (rule attachments_trans[OF one two])
qed

lemma delete_attachments_step: "attachments_step mk s (delete_message_attachments (\<lambda>k. k = mk) s)"
  unfolding attachments_step_def delete_message_attachments_def
  by (auto simp: sql_delete_def row_keys_def distinct_map_filter)

lemma then_do_Inr_eq: "then_do (Inr x) f = f x" by (simp add: then_do_def)

lemma collect_results_length: "collect_results f xs = Inr ys \<Longrightarrow> length ys = length xs"
  by (induction xs arbitrary: ys) (auto simp: then_do_Inr)

section \<open>Writing a message\<close>

text \<open>The row of a write, its index and its rendering, before the attachments.\<close>

definition message_written ::
  "message_key \<Rightarrow> messages_row \<Rightarrow> messages_row option \<Rightarrow> 'f tables \<Rightarrow> 'f tables \<Rightarrow> bool" where
  "message_written mk new_row existing s s' \<longleftrightarrow>
     (\<exists>l g render.
        s' = s\<lparr>tb_messages := fst (sql_upsert mk new_row l g (tb_messages s)),
          tb_render := fst (sql_upsert mk render (\<lambda>r. r \<noteq> render) (\<lambda>r. render) (tb_render s)),
          tb_fts := (if (case existing of None \<Rightarrow> True | Some r \<Rightarrow> mr_content r \<noteq> mr_content new_row)
                     then sql_delete (\<lambda>(k, c). k = mk) (tb_fts s) @ [(mk, mr_content new_row)] else tb_fts s)\<rparr> \<and>
        (\<forall>r. existing = Some r \<longrightarrow> l r = core_changed new_row existing) \<and>
        g = (\<lambda>r. new_row\<lparr>mr_created_at := mr_created_at r, mr_deleted_at := mr_deleted_at r\<rparr>))"

lemma unchanged_upsert:
  assumes "map_of t k = Some r" "\<not> l r"
  shows "fst (sql_upsert k n l g t) = t"
  using assms by (simp add: sql_upsert_def)

lemma write_message_row_success:
  assumes "write_message_row mk new_row existing s = Inr s'" "existing = map_of (tb_messages s) mk"
    "\<And>r. existing = Some r \<Longrightarrow> mr_deleted_at r = None"
  shows "s' = s\<lparr>tb_messages := fst (sql_upsert mk new_row (\<lambda>r. core_changed new_row existing)
    (\<lambda>r. new_row\<lparr>mr_created_at := mr_created_at r, mr_deleted_at := mr_deleted_at r\<rparr>) (tb_messages s))\<rparr>"
proof (cases existing)
  case None
  then show ?thesis using assms by (simp add: write_message_row_def core_changed_def sql_upsert_def)
next
  case (Some r)
  then show ?thesis using assms
    by (auto simp: write_message_row_def sql_upsert_def split: if_splits)
qed

lemma upsert_target_success:
  "load_upsert_target_state key i s = Inr existing \<longleftrightarrow>
     live_row tr_deleted_at (tb_topics s) key \<and> existing = map_of (tb_messages s) (MessageKey key i) \<and>
     (\<forall>r. existing = Some r \<longrightarrow> mr_deleted_at r = None)"
  by (auto simp: load_upsert_target_state_def split: option.splits)

lemma write_rows_success:
  assumes "write_message_rows env mk msg render new_row existing s = Inr s4" "existing = map_of (tb_messages s) mk"
    "\<And>r. existing = Some r \<Longrightarrow> mr_deleted_at r = None" "mr_content new_row = cm_content msg"
  shows "\<exists>s3. message_written mk new_row existing s s3 \<and> attachments_step mk s3 s4"
proof -
  from assms(1) obtain s1 where w: "write_message_row mk new_row existing s = Inr s1"
    by (auto simp: write_message_rows_def then_do_Inr)
  define row where "row = \<lparr>rr_content = render, rr_hash = mr_content_hash new_row,
      rr_schema_version = RENDERER_SCHEMA_VERSION, rr_updated_at = sint (cm_timestamp msg)\<rparr>"
  define s3 where "s3 = (if (case existing of None \<Rightarrow> True | Some r \<Rightarrow> mr_content r \<noteq> cm_content msg)
      then index_message mk (cm_content msg) (write_render_row mk row s1) else write_render_row mk row s1)"
  have "attachments_step mk s3 s4"
    using assms(1) unfolding write_message_rows_def w then_do_Inr_eq Let_def row_def[symmetric] s3_def[symmetric]
    by (auto intro: upsert_attachments_step delete_attachments_step split: option.splits)
  moreover have "message_written mk new_row existing s s3"
    unfolding message_written_def assms(4)
    by (rule exI[of _ "\<lambda>r. core_changed new_row existing"], rule exI, rule exI[of _ row])
      (use write_message_row_success[OF w assms(2,3)] in
        \<open>auto simp: s3_def index_message_def write_render_row_def\<close>)
  ultimately show ?thesis by blast
qed

text \<open>What a successful write has done.\<close>

definition message_stored ::
  "'f chat_env \<Rightarrow> int \<Rightarrow> topic_key \<Rightarrow> chat_message \<Rightarrow> bool \<Rightarrow> messages_row option \<Rightarrow> messages_row \<Rightarrow> 'f tables \<Rightarrow>
     'f tables \<Rightarrow> topic_activity option \<Rightarrow> 'f tables \<Rightarrow> bool" where
  "message_stored env now key msg skip_bubble existing new_row s s4 out s' \<longleftrightarrow>
     live_row tr_deleted_at (tb_topics s) key \<and>
     existing = map_of (tb_messages s) (MessageKey key (cm_id msg)) \<and>
     (\<forall>r. existing = Some r \<longrightarrow> mr_deleted_at r = None) \<and>
     (\<exists>hash updated_at. new_row = message_row_of msg hash updated_at \<and>
        resolve_message_updated_at (cm_updated_at msg) (cm_timestamp msg) hash
          (map_option (\<lambda>r. (mr_content_hash r, mr_updated_at r)) existing) now = Inr updated_at) \<and>
     (\<exists>s3. message_written (MessageKey key (cm_id msg)) new_row existing s s3 \<and>
        attachments_step (MessageKey key (cm_id msg)) s3 s4) \<and>
     (if \<not> skip_bubble \<and> (case existing of None \<Rightarrow> True | Some r \<Rightarrow> mr_content_hash r \<noteq> mr_content_hash new_row)
      then \<exists>activity. bubble_from_topic env key s4 = Inr (activity, s') \<and> out = Some activity
      else s' = s4 \<and> out = None)"

lemma upsert_message_success:
  assumes "upsert_message env now key msg render skip_bubble s = Inr (out, s')"
  shows "\<exists>existing new_row s4. message_stored env now key msg skip_bubble existing new_row s s4 out s'"
proof -
  define mk where "mk = MessageKey key (cm_id msg)"
  obtain hashes where h: "collect_results attachment_hash (unwrap_or (cm_attachments msg) []) = Inr hashes"
    using assms by (auto simp: upsert_message_def then_do_Inr)
  define hash where "hash = fingerprint_of env (cm_id msg) (cm_role msg) (cm_name msg) (cm_content msg)
      (cm_timestamp msg) (cm_agent_id msg) hashes"
  note step = assms[unfolded upsert_message_def h then_do_Inr_eq Let_def, folded hash_def mk_def]
  from step obtain existing where target: "load_upsert_target_state key (cm_id msg) s = Inr existing"
    by (auto simp: then_do_Inr)
  from step obtain updated_at where time: "resolve_message_updated_at (cm_updated_at msg) (cm_timestamp msg) hash
      (map_option (\<lambda>r. (mr_content_hash r, mr_updated_at r)) existing) now = Inr updated_at"
    by (auto simp: target then_do_Inr_eq split: sum.splits)
  define new_row where "new_row = message_row_of msg hash updated_at"
  have row: "mr_content new_row = cm_content msg" "mr_content_hash new_row = hash"
    by (simp_all add: new_row_def message_row_of_def)
  note step2 = step[unfolded target then_do_Inr_eq time sum.case, folded new_row_def]
  from step2 obtain s4 where w: "write_message_rows env mk msg render new_row existing s = Inr s4"
    by (auto simp: then_do_Inr)
  from target have t: "live_row tr_deleted_at (tb_topics s) key" "existing = map_of (tb_messages s) mk"
      "\<And>r. existing = Some r \<Longrightarrow> mr_deleted_at r = None" by (auto simp: upsert_target_success mk_def)
  have stored: "\<exists>s3. message_written mk new_row existing s s3 \<and> attachments_step mk s3 s4"
    by (rule write_rows_success[OF w t(2,3) row(1)])
  have bubbled: "if \<not> skip_bubble \<and> (case existing of None \<Rightarrow> True | Some r \<Rightarrow> mr_content_hash r \<noteq> hash)
      then \<exists>activity. bubble_from_topic env key s4 = Inr (activity, s') \<and> out = Some activity
      else s' = s4 \<and> out = None"
    using step2 unfolding w then_do_Inr_eq by (auto simp: then_do_Inr split: if_splits)
  have "message_stored env now key msg skip_bubble existing new_row s s4 out s'"
    unfolding message_stored_def mk_def[symmetric] row(2)
  proof (intro conjI)
    show "\<exists>hash updated_at. new_row = message_row_of msg hash updated_at \<and>
        resolve_message_updated_at (cm_updated_at msg) (cm_timestamp msg) hash
          (map_option (\<lambda>r. (mr_content_hash r, mr_updated_at r)) existing) now = Inr updated_at"
      using time new_row_def by blast
  qed (use t in blast, rule t(2), use t in blast, rule stored, rule bubbled)
  then show ?thesis by blast
qed

section \<open>A written message and the invariant\<close>

lemma distinct_map_upsert [simp]: "distinct (map fst t) \<Longrightarrow> distinct (map fst (fst (sql_upsert k n l g t)))"
  by (rule distinct_upsert)

lemma indexed_append:
  "indexed (s\<lparr>tb_fts := sql_delete (\<lambda>(k, c). k = mk) (tb_fts s) @ [(mk, content)]\<rparr>) k =
     (if k = mk then [(mk, content)] else indexed s k)"
proof -
  have "filter (\<lambda>(i, c). i = k) (sql_delete (\<lambda>(i, c). i = mk) (tb_fts s)) = (if k = mk then [] else indexed s k)"
    unfolding sql_delete_def filter_filter indexed_def by (auto simp: filter_empty_conv intro!: filter_cong)
  then show ?thesis by (simp add: indexed_def)
qed

text \<open>The row after a write.\<close>

lemma written_row:
  assumes "message_written mk new_row existing s s'" "existing = map_of (tb_messages s) mk"
    "\<And>r. existing = Some r \<Longrightarrow> mr_deleted_at r = None" "mr_deleted_at new_row = None"
  shows "\<exists>r. map_of (tb_messages s') mk = Some r \<and> mr_deleted_at r = None \<and> mr_content r = mr_content new_row \<and>
    mr_content_hash r = mr_content_hash new_row \<and> mr_updated_at r = mr_updated_at new_row"
proof -
  from assms(1) obtain l g where m: "tb_messages s' = fst (sql_upsert mk new_row l g (tb_messages s))"
    and l: "\<forall>r. existing = Some r \<longrightarrow> l r = core_changed new_row existing"
    and g: "g = (\<lambda>r. new_row\<lparr>mr_created_at := mr_created_at r, mr_deleted_at := mr_deleted_at r\<rparr>)"
    unfolding message_written_def by auto
  show ?thesis
  proof (cases existing)
    case None
    then show ?thesis using assms(2,4) by (simp add: m map_of_upsert)
  next
    case (Some r)
    then show ?thesis using assms(2,3) l by (cases "core_changed new_row existing") (auto simp: m map_of_upsert g core_changed_def)
  qed
qed

lemma inv_message_rows:
  assumes "db_inv env X Y Z s" "live_row tr_deleted_at (tb_topics s) (mk_topic mk)"
    "message_written mk new_row existing s s3" "attachments_step mk s3 s4"
    "existing = map_of (tb_messages s) mk" "\<And>r. existing = Some r \<Longrightarrow> mr_deleted_at r = None" "mr_deleted_at new_row = None"
  shows "db_inv env X Y (insert (mk_topic mk) Z) s4"
proof -
  from assms(3) obtain l g render where m: "tb_messages s3 = fst (sql_upsert mk new_row l g (tb_messages s))"
    and r: "tb_render s3 = fst (sql_upsert mk render (\<lambda>r. r \<noteq> render) (\<lambda>r. render) (tb_render s))"
    and f: "tb_fts s3 = (if (case existing of None \<Rightarrow> True | Some r \<Rightarrow> mr_content r \<noteq> mr_content new_row)
        then sql_delete (\<lambda>(k, c). k = mk) (tb_fts s) @ [(mk, mr_content new_row)] else tb_fts s)"
    and same: "tb_agents s3 = tb_agents s" "tb_groups s3 = tb_groups s" "tb_members s3 = tb_members s"
      "tb_avatars s3 = tb_avatars s" "tb_topics s3 = tb_topics s" "tb_relations s3 = tb_relations s"
      "tb_attachments s3 = tb_attachments s" "tb_active s3 = tb_active s"
    unfolding message_written_def by auto
  note a = assms(4)[unfolded attachments_step_def]
  have sound: "store_sound s" "index_sound s" using assms(1) by (simp_all add: db_inv_def)
  note d = sound_unique[OF sound(1)]
  obtain row where row: "map_of (tb_messages s3) mk = Some row" "mr_deleted_at row = None" "mr_content row = mr_content new_row"
    using written_row[OF assms(3,5,6,7)] by blast
  define changed where "changed = (case existing of None \<Rightarrow> True | Some r \<Rightarrow> mr_content r \<noteq> mr_content new_row)"
  have f4: "tb_fts s4 = (if changed then sql_delete (\<lambda>(k, c). k = mk) (tb_fts s) @ [(mk, mr_content new_row)] else tb_fts s)"
    using a f by (simp add: changed_def)
  have idx: "indexed s4 k = (if changed \<and> k = mk then [(mk, mr_content new_row)] else indexed s k)" for k
  proof -
    have "indexed s4 k = indexed (s\<lparr>tb_fts := tb_fts s4\<rparr>) k" by (simp add: indexed_def)
    then show ?thesis unfolding f4 by (cases changed) (simp add: indexed_append, simp add: indexed_def)
  qed
  have to: "to_index s4 mk = [(mk, mr_content new_row)]" using a row by (simp add: to_index_def)
  have fts_keys: "row_keys (tb_fts s4) \<subseteq> insert mk (row_keys (tb_fts s))"
    unfolding f4 by (auto simp: sql_delete_def row_keys_def)
  show ?thesis
  proof (rule inv_one_message[OF assms(1,2)])
    show "keys_unique s4" using d a by (simp add: keys_unique_def m r same grows_def)
    show "tb_messages s4 = fst (sql_upsert mk new_row l g (tb_messages s))" using a m by simp
    show "live_row mr_deleted_at (tb_messages s4) mk" using a row by (simp add: live_row_iff)
    show "k = mk \<or> k \<in> message_refs s" if "k \<in> message_refs s4" for k
    proof -
      have "fst ` row_keys (tb_relations s4) \<subseteq> insert mk (fst ` row_keys (tb_relations s))"
        "row_keys (tb_render s4) = insert mk (row_keys (tb_render s))" "tb_active s4 = tb_active s"
        using a by (simp_all add: same r keys_upsert)
      then show ?thesis using that fts_keys by (auto simp: message_refs_def)
    qed
    show "rl_hash ` snd ` set (tb_relations s4) \<subseteq> row_keys (tb_attachments s4)"
      using a sound(1) by (simp add: same store_sound_def messages_sound_def)
    show "indexed s4 k = indexed s k" if "k \<noteq> mk" for k using that by (simp add: idx)
    show "indexed_right s4 mk"
    proof (cases changed)
      case False
      then obtain r0 where "existing = Some r0" "mr_content r0 = mr_content new_row"
        by (auto simp: changed_def split: option.splits)
      then have "to_index s mk = to_index s4 mk" unfolding to using assms(5,6) by (simp add: to_index_def)
      moreover have "indexed_right s mk" using sound(2) by (simp add: index_sound_iff)
      ultimately show ?thesis using False a same by (simp add: indexed_right_def idx)
    qed (simp add: indexed_right_def idx to)
  qed (use a same in simp_all)
qed

text \<open>A write that leaves hash and time of the row leaves the hashes of its topic right.\<close>

lemma db_inv_same_messages:
  assumes "db_inv env X Y (insert key Z) s'" "db_inv env X Y Z s" "tb_topics s' = tb_topics s"
    "live_message_rows s' key = live_message_rows s key"
  shows "db_inv env X Y Z s'"
proof -
  have "contents_fresh env Z s'" unfolding contents_fresh_iff
  proof (intro allI impI)
    fix k r assume r: "fetch_live tr_deleted_at (tb_topics s') k = Some r"
    have "k \<in> insert key Z \<or> topic_aggregate env k s' = Inr (topic_hashes r)"
      using assms(1) r unfolding db_inv_def contents_fresh_iff by blast
    moreover have "k \<in> Z \<or> topic_aggregate env k s = Inr (topic_hashes r)"
      using assms(2,3) r unfolding db_inv_def contents_fresh_iff by simp
    ultimately show "k \<in> Z \<or> topic_aggregate env k s' = Inr (topic_hashes r)"
      using assms(4) by (cases "k = key") (auto simp: topic_aggregate_def)
  qed
  then show ?thesis using assms(1) by (simp add: db_inv_def)
qed

lemma map_same_rows:
  assumes "\<And>k r. (k, r) \<in> set t \<Longrightarrow> hit k r \<Longrightarrow> P (k, g r) = P (k, r) \<and> f (k, g r) = f (k, r)"
  shows "map f (filter P (sql_update_all hit g t)) = map f (filter P t)"
  using assms
proof (induction t)
  case (Cons a t)
  have "map f (filter P (sql_update_all hit g t)) = map f (filter P t)" by (rule Cons.IH) (rule Cons.prems, simp_all)
  then show ?case using Cons.prems[of "fst a" "snd a"] by (cases a) (auto simp: sql_update_all_def)
qed (simp add: sql_update_all_def)

lemma same_message_rows:
  assumes "distinct (map fst (tb_messages s))" "map_of (tb_messages s) mk = Some r0"
    "tb_messages s' = fst (sql_upsert mk n l g (tb_messages s))"
    "mr_content_hash (g r0) = mr_content_hash r0" "mr_updated_at (g r0) = mr_updated_at r0" "mr_deleted_at (g r0) = mr_deleted_at r0"
  shows "live_message_rows s' key = live_message_rows s key"
proof -
  have k: "mk \<in> row_keys (tb_messages s)" using assms(2) by (simp add: row_keys_map_of)
  have only: "r = r0" if "(mk, r) \<in> set (tb_messages s)" for r using map_of_is_SomeI[OF assms(1) that] assms(2) by simp
  show ?thesis unfolding live_message_rows_def assms(3) sql_upsert_eq[OF assms(1)]
    using k assms(4-6) by (simp, intro map_same_rows) (auto dest: only)
qed

lemma inv_upsert_message:
  assumes "upsert_message env now key msg render skip_bubble s = Inr (out, s')" "db_inv env X Y Z s"
  shows "db_inv env X Y (if skip_bubble then insert key Z else Z) s'"
proof -
  obtain existing new_row s4 where st: "message_stored env now key msg skip_bubble existing new_row s s4 out s'"
    using upsert_message_success[OF assms(1)] by blast
  define mk where "mk = MessageKey key (cm_id msg)"
  have key: "mk_topic mk = key" by (simp add: mk_def)
  from st obtain s3 hash updated_at where live: "live_row tr_deleted_at (tb_topics s) key"
    and ex: "existing = map_of (tb_messages s) mk" "\<And>r. existing = Some r \<Longrightarrow> mr_deleted_at r = None"
    and new: "new_row = message_row_of msg hash updated_at"
    and time: "resolve_message_updated_at (cm_updated_at msg) (cm_timestamp msg) hash
          (map_option (\<lambda>r. (mr_content_hash r, mr_updated_at r)) existing) now = Inr updated_at"
    and w: "message_written mk new_row existing s s3" "attachments_step mk s3 s4"
    and b: "if \<not> skip_bubble \<and> (case existing of None \<Rightarrow> True | Some r \<Rightarrow> mr_content_hash r \<noteq> mr_content_hash new_row)
      then \<exists>activity. bubble_from_topic env key s4 = Inr (activity, s') \<and> out = Some activity else s' = s4 \<and> out = None"
    unfolding message_stored_def mk_def[symmetric] by blast
  have del: "mr_deleted_at new_row = None" by (simp add: new message_row_of_def)
  have four: "db_inv env X Y (insert key Z) s4"
    using inv_message_rows[OF assms(2) _ w ex del] live by (simp add: key)
  show ?thesis
  proof (cases "(case existing of None \<Rightarrow> True | Some r \<Rightarrow> mr_content_hash r \<noteq> mr_content_hash new_row)")
    case True
    then show ?thesis using b four by (auto intro: inv_bubble_from_topic)
  next
    case False
    then obtain r0 where r0: "existing = Some r0" "mr_content_hash r0 = hash"
      by (auto simp: new message_row_of_def split: option.splits)
    then have u: "updated_at = mr_updated_at r0"
      using time by (simp add: resolve_message_updated_at_def Let_def split: if_splits)
    from w(1) obtain l g where m: "tb_messages s3 = fst (sql_upsert mk new_row l g (tb_messages s))"
      and g: "g = (\<lambda>r. new_row\<lparr>mr_created_at := mr_created_at r, mr_deleted_at := mr_deleted_at r\<rparr>)"
      unfolding message_written_def by auto
    have "tb_topics s4 = tb_topics s" "tb_messages s4 = tb_messages s3"
      using w by (auto simp: attachments_step_def message_written_def)
    moreover have "distinct (map fst (tb_messages s))" using assms(2) by (simp add: db_inv_def store_sound_def keys_unique_def)
    ultimately have "live_message_rows s4 key = live_message_rows s key"
      using r0 ex(1) by (intro same_message_rows[of s mk r0 s4 new_row l g]) (simp_all add: m g new message_row_of_def u)
    then have "db_inv env X Y Z s4"
      using db_inv_same_messages[OF four assms(2)] \<open>tb_topics s4 = tb_topics s\<close> by simp
    then have "db_inv env X Y (if skip_bubble then insert key Z else Z) s4" by (auto elim: db_inv_mono)
    then show ?thesis using b False by simp
  qed
qed

lemma write_one_message_success:
  "write_one_message env resolve now key blocks msg0 skip_bubble s = Inr (out, s') \<Longrightarrow>
     \<exists>msg render activity. upsert_message env now key msg render skip_bubble s = Inr (activity, s')"
  by (auto simp: write_one_message_def then_do_Inr)

lemma inv_append_message:
  "append_single_message env resolve now key blocks msg s = Inr (out, s') \<Longrightarrow> db_inv env X Y Z s \<Longrightarrow> db_inv env X Y Z s'"
  by (auto simp: append_single_message_def dest!: write_one_message_success dest: inv_upsert_message)

lemma inv_patch_message:
  "patch_single_message env resolve now key blocks msg skip_bubble s = Inr (out, s') \<Longrightarrow> db_inv env X Y Z s \<Longrightarrow>
     db_inv env X Y (if skip_bubble then insert key Z else Z) s'"
  by (drule write_one_message_success[folded patch_single_message_def]) (blast intro: inv_upsert_message)

section \<open>A generation\<close>

text \<open>The hashes do not look at the generations under way.\<close>

lemma bubble_topic_active:
  assumes "bubble_topic_hash env key s = Inr (activity, s')"
  shows "bubble_topic_hash env key (s\<lparr>tb_active := a\<rparr>) = Inr (activity, s'\<lparr>tb_active := a\<rparr>)"
proof -
  have "topic_aggregate env key (s\<lparr>tb_active := a\<rparr>) = topic_aggregate env key s"
    by (simp add: topic_aggregate_def live_message_rows_def)
  moreover have "topic_config_hash env key (s\<lparr>tb_active := a\<rparr>) = topic_config_hash env key s"
  proof -
    have "load_agent_topic_dto env key (s\<lparr>tb_active := a\<rparr>) = load_agent_topic_dto env key s"
      "load_group_topic_dto env key (s\<lparr>tb_active := a\<rparr>) = load_group_topic_dto env key s"
      by (simp_all add: load_agent_topic_dto_def load_group_topic_dto_def)
    then show ?thesis by (simp only: topic_config_hash_def)
  qed
  ultimately show ?thesis using assms unfolding bubble_topic_hash_success update_topic_hashes_success
    by (auto simp: load_topic_activity_def)
qed

lemma bubble_owner_active:
  assumes "bubble_owner_hash env key s s'"
  shows "bubble_owner_hash env key (s\<lparr>tb_active := a\<rparr>) (s'\<lparr>tb_active := a\<rparr>)"
proof -
  have "owner_root (ce_store env) (s\<lparr>tb_active := a\<rparr>) ot oi = owner_root (ce_store env) s ot oi" for ot oi
    by (simp add: owner_root_def live_topic_rows_def)
  then show ?thesis using assms unfolding bubble_owner_hash_def bubble_agent_hash_eq bubble_group_hash_eq
      bubble_agent_success bubble_group_success by auto
qed

lemma bubble_from_topic_active:
  "bubble_from_topic env key s = Inr (activity, s') \<Longrightarrow>
     bubble_from_topic env key (s\<lparr>tb_active := a\<rparr>) = Inr (activity, s'\<lparr>tb_active := a\<rparr>)"
  unfolding bubble_from_topic_success by (blast intro: bubble_topic_active bubble_owner_active)

text \<open>What a begun generation is: its row, its rendering and its entry among those under way.\<close>

definition stream_begun :: "message_key \<Rightarrow> messages_row \<Rightarrow> render_row \<Rightarrow> int \<Rightarrow> 'f tables \<Rightarrow> 'f tables" where
  "stream_begun mk row render now s =
     s\<lparr>tb_messages := tb_messages s @ [(mk, row)], tb_render := tb_render s @ [(mk, render)],
       tb_active := tb_active s @ [(mk, now)]\<rparr>"

lemma begin_stream_success:
  assumes "begin_stream_message env mk agent_id agent_name now s = Inr s'"
  shows "\<exists>row render activity. bubble_from_topic env (mk_topic mk) (stream_begun mk row render now s) = Inr (activity, s') \<and>
    mr_deleted_at row = None \<and> mr_finish_reason row = None \<and> mr_content row = [] \<and>
    live_row tr_deleted_at (tb_topics s) (mk_topic mk) \<and>
    map_of (tb_messages s) mk = None \<and> map_of (tb_render s) mk = None \<and> map_of (tb_active s) mk = None"
proof -
  from assms obtain hash render activity s2 where
    b: "bubble_from_topic env (mk_topic mk) (s\<lparr>tb_messages := tb_messages s @
        [(mk, starting_row (mk_topic mk) agent_id agent_name hash now)],
        tb_render := tb_render s @ [(mk, render)]\<rparr>) = Inr (activity, s2)"
    and s': "s' = s2\<lparr>tb_active := tb_active s2 @ [(mk, now)]\<rparr>" and none: "map_of (tb_active s2) mk = None"
    and c: "live_row tr_deleted_at (tb_topics s) (mk_topic mk)" "map_of (tb_messages s) mk = None" "map_of (tb_render s) mk = None"
    by (auto simp: begin_stream_message_def then_do_Inr Let_def split: if_splits)
  have act: "tb_active s2 = tb_active s" using bubble_from_topic_others(4)[OF b] by simp
  show ?thesis
    using bubble_from_topic_active[OF b, of "tb_active s @ [(mk, now)]"] none c
    by (intro exI[of _ "starting_row (mk_topic mk) agent_id agent_name hash now"] exI[of _ render] exI[of _ activity])
      (simp add: stream_begun_def starting_row_def s' act)
qed

lemma inv_begin_stream:
  assumes "begin_stream_message env mk agent_id agent_name now s = Inr s'" "db_inv env X Y Z s"
  shows "db_inv env X Y Z s'"
proof -
  obtain row render activity where b: "bubble_from_topic env (mk_topic mk) (stream_begun mk row render now s) = Inr (activity, s')"
    and r: "mr_deleted_at row = None" and live: "live_row tr_deleted_at (tb_topics s) (mk_topic mk)"
    and none: "map_of (tb_messages s) mk = None" "map_of (tb_render s) mk = None" "map_of (tb_active s) mk = None"
    using begin_stream_success[OF assms(1)] by blast
  let ?s1 = "stream_begun mk row render now s"
  have sound: "store_sound s" using assms(2) by (simp add: db_inv_def)
  have m: "tb_messages ?s1 = fst (sql_upsert mk row (\<lambda>r. True) (\<lambda>r. r) (tb_messages s))"
    by (simp add: stream_begun_def sql_upsert_def none)
  have "mk \<notin> message_refs s"
    using sound none(1) by (auto simp: store_sound_def messages_sound_def live_row_iff)
  then have fts: "mk \<notin> row_keys (tb_fts s)" by (simp add: message_refs_def)
  have "db_inv env X Y (insert (mk_topic mk) Z) ?s1"
  proof (rule inv_one_message[OF assms(2) live _ _ _ _ _ _ m])
    show "keys_unique ?s1" using sound none
      by (simp add: store_sound_def keys_unique_def stream_begun_def map_of_eq_None_iff)
    show "indexed_right ?s1 mk" using fts
      by (simp add: indexed_right_def stream_begun_def row_keys_def indexed_none[of mk s, unfolded indexed_def] indexed_def)
    show "k = mk \<or> k \<in> message_refs s" if "k \<in> message_refs ?s1" for k
      using that by (auto simp: stream_begun_def message_refs_def row_keys_def)
  qed (use sound r none in \<open>auto simp: stream_begun_def live_row_iff map_add_def indexed_def row_keys_def
      store_sound_def messages_sound_def split: option.splits\<close>)
  with b show ?thesis by (rule inv_bubble_from_topic)
qed

text \<open>What a commit leaves, before the hashes: only a generation that is pending is committed.\<close>

definition stream_committed :: "message_key \<Rightarrow> (messages_row \<Rightarrow> messages_row) \<Rightarrow> render_row \<Rightarrow> string \<Rightarrow> 'f tables \<Rightarrow> 'f tables" where
  "stream_committed mk set_row render content s =
     s\<lparr>tb_messages := fst (sql_update mk (\<lambda>r. mr_finish_reason r = None \<and> mr_deleted_at r = None) set_row (tb_messages s)),
       tb_render := fst (sql_update mk (\<lambda>r. True) (\<lambda>r. render) (tb_render s)),
       tb_fts := sql_delete (\<lambda>(k, c). k = mk) (tb_fts s) @ [(mk, content)],
       tb_active := sql_delete (\<lambda>(k, created). k = mk) (tb_active s)\<rparr>"

lemma commit_stream_success:
  assumes "commit_stream_message env mk content final_ts reason agent_id agent_name s = Inr (out, s')"
  shows "\<exists>r hash render activity. pending_row mk s = Some r \<and> fst out = mr_timestamp r \<and> snd out = ta_updated_at activity \<and>
    hash = fingerprint_of env (mk_msg_id mk) ''assistant'' agent_name content (of_int (mr_timestamp r)) agent_id [] \<and>
    bubble_from_topic env (mk_topic mk)
      (stream_committed mk (ended_row (mk_topic mk) content reason hash final_ts) render content s) = Inr (activity, s')"
proof -
  obtain rendered where c: "ce_compile env content = Inr rendered"
    using assms by (cases "ce_compile env content") (simp_all add: commit_stream_message_def then_do_def)
  obtain r where r: "pending_row mk s = Some r"
    using assms by (cases "pending_row mk s") (simp_all add: commit_stream_message_def c then_do_Inr_eq)
  define hash where "hash = fingerprint_of env (mk_msg_id mk) ''assistant'' agent_name content (of_int (mr_timestamp r)) agent_id []"
  define row where "row = \<lparr>rr_content = rendered, rr_hash = hash, rr_schema_version = RENDERER_SCHEMA_VERSION,
      rr_updated_at = final_ts\<rparr>"
  have "\<exists>activity. fst out = mr_timestamp r \<and> snd out = ta_updated_at activity \<and> bubble_from_topic env (mk_topic mk)
      (stream_committed mk (ended_row (mk_topic mk) content reason hash final_ts) row content s) = Inr (activity, s')"
    using assms unfolding commit_stream_message_def c then_do_Inr_eq r hash_def[symmetric] row_def[symmetric]
    by (auto simp: Let_def then_do_Inr index_message_def delete_active_def stream_committed_def hash_def row_def r
        split: prod.splits if_splits)
  then show ?thesis using r hash_def by blast
qed

lemma pending_iff:
  "pending_row mk s = Some r \<longleftrightarrow>
     map_of (tb_messages s) mk = Some r \<and> mr_deleted_at r = None \<and> mr_finish_reason r = None \<and> mk \<in> row_keys (tb_active s)"
  by (auto simp: pending_row_def fetch_live_def row_keys_def split: option.splits)

lemma inv_commit_stream:
  assumes "commit_stream_message env mk content final_ts reason agent_id agent_name s = Inr (out, s')" "db_inv env X Y Z s"
  shows "db_inv env X Y Z s'"
proof -
  obtain r hash render activity where p: "pending_row mk s = Some r"
    and b: "bubble_from_topic env (mk_topic mk)
      (stream_committed mk (ended_row (mk_topic mk) content reason hash final_ts) render content s) = Inr (activity, s')"
    using commit_stream_success[OF assms(1)] by blast
  let ?g = "ended_row (mk_topic mk) content reason hash final_ts"
  let ?s1 = "stream_committed mk ?g render content s"
  have sound: "store_sound s" using assms(2) by (simp add: db_inv_def)
  have r: "map_of (tb_messages s) mk = Some r" "mr_deleted_at r = None" "mr_finish_reason r = None"
    using p by (simp_all add: pending_iff)
  have row: "map_of (tb_messages ?s1) mk = Some (?g r)" by (simp add: stream_committed_def map_of_update r)
  have k: "mk \<in> row_keys (tb_messages s)" using r by (simp add: row_keys_map_of)
  have live: "live_row tr_deleted_at (tb_topics s) (mk_topic mk)"
    using sound k r by (auto simp: store_sound_def messages_sound_def live_row_iff)
  have m: "tb_messages ?s1 = fst (sql_upsert mk r (\<lambda>r. mr_finish_reason r = None \<and> mr_deleted_at r = None) ?g (tb_messages s))"
    by (simp add: stream_committed_def sql_update_upsert[OF k, where n = r])
  have "db_inv env X Y (insert (mk_topic mk) Z) ?s1"
  proof (rule inv_one_message[OF assms(2) live _ _ _ _ _ _ m])
    show "keys_unique ?s1" using sound
      by (simp add: store_sound_def keys_unique_def stream_committed_def distinct_sql_update distinct_delete)
    show "live_row mr_deleted_at (tb_messages ?s1) mk" using row r(2) by (simp add: live_row_iff ended_row_def)
    have "indexed ?s1 mk = [(mk, content)]"
      using indexed_append[where s = s and mk = mk and content = content and k = mk] by (simp add: stream_committed_def indexed_def)
    then show "indexed_right ?s1 mk" using row r(2) by (simp add: indexed_right_def to_index_def ended_row_def)
    show "k = mk \<or> k \<in> message_refs s" if "k \<in> message_refs ?s1" for k
      using that unfolding message_refs_def
      by (auto simp: stream_committed_def keys_update sql_delete_def) (auto simp: row_keys_def)
    show "indexed ?s1 k = indexed s k" if "k \<noteq> mk" for k
      using that indexed_append[where s = s and mk = mk and content = content and k = k] by (simp add: stream_committed_def indexed_def)
    show "k \<in> row_keys (tb_active ?s1)" if "k \<noteq> mk" "k \<in> row_keys (tb_active s)" for k
      using that by (auto simp: stream_committed_def sql_delete_def row_keys_def)
  qed (use sound in \<open>auto simp: stream_committed_def store_sound_def messages_sound_def\<close>)
  with b show ?thesis by (rule inv_bubble_from_topic)
qed

lemma inv_finalize_stream:
  "finalize_stream_message env mk full ab reason agent_id now s_read s s_after = (result, told, s') \<Longrightarrow> db_inv env X Y Z s \<Longrightarrow>
     db_inv env X Y Z s'"
  by (auto simp: finalize_stream_message_def Let_def intro: inv_commit_stream split: if_splits sum.splits)

section \<open>The cache of renderings and the removal of an attachment\<close>

lemma inv_render:
  assumes "db_inv env X Y Z s" "distinct (map fst t)" "\<And>k. k \<in> row_keys t \<Longrightarrow> k \<in> row_keys (tb_render s) \<or> live_row mr_deleted_at (tb_messages s) k"
  shows "db_inv env X Y Z (s\<lparr>tb_render := t\<rparr>)"
proof -
  let ?s = "s\<lparr>tb_render := t\<rparr>"
  have sound: "store_sound s" using assms(1) by (simp add: db_inv_def)
  have "db_inv env X Y (Z \<union> {}) ?s"
  proof (rule inv_messages[OF assms(1)])
    show "index_sound ?s" by (rule index_other[of _ s]) (use assms(1) in \<open>auto simp: db_inv_def\<close>)
    show "live_row mr_deleted_at (tb_messages ?s) k" if "k \<in> message_refs ?s" for k
      using that assms(3)[of k] sound by (auto simp: message_refs_def store_sound_def messages_sound_def)
    show "live_message_rows ?s key = live_message_rows s key" for key by (simp add: live_message_rows_def)
  qed (use sound assms(2) in \<open>auto simp: store_sound_def keys_unique_def messages_sound_def\<close>)
  then show ?thesis by simp
qed

lemma source_current_live: "source_is_current mk hash s \<Longrightarrow> live_row mr_deleted_at (tb_messages s) mk"
  by (auto simp: source_is_current_def dest: fetch_live_live split: option.splits)

lemma inv_write_render_cache:
  assumes "write_render_cache_cas mk hash render now s = (out, s')" "db_inv env X Y Z s"
  shows "db_inv env X Y Z s'"
proof -
  have d: "distinct (map fst (tb_render s))" using assms(2) by (simp add: db_inv_def store_sound_def keys_unique_def)
  show ?thesis
  proof (cases "source_is_current mk hash s")
    case True
    have "db_inv env X Y Z (s\<lparr>tb_render := fst (sql_upsert mk row l g (tb_render s))\<rparr>)" for row l g
      by (rule inv_render[OF assms(2)]) (use d source_current_live[OF True] in \<open>auto simp: keys_upsert\<close>)
    then show ?thesis using assms(1) True by (auto simp: write_render_cache_cas_def Let_def split_def)
  qed (use assms in \<open>simp add: write_render_cache_cas_def\<close>)
qed

lemma inv_update_render_cache:
  assumes "update_render_cache_if_current mk hash render now s = (out, s')" "db_inv env X Y Z s"
  shows "db_inv env X Y Z s'"
proof -
  have "distinct (map fst (tb_render s))" using assms(2) by (simp add: db_inv_def store_sound_def keys_unique_def)
  then have "db_inv env X Y Z (s\<lparr>tb_render := fst (sql_update mk l g (tb_render s))\<rparr>)" for l g
    by (intro inv_render[OF assms(2)]) (auto simp: keys_update distinct_sql_update)
  then show ?thesis using assms(1) by (auto simp: update_render_cache_if_current_def split_def)
qed

lemma delete_attachment_success:
  assumes "delete_message_attachment_in_db env mk position hash now s = Inr (activity, s')"
  shows "s' = s \<or> (\<exists>r new_hash updated_at. fetch_live mr_deleted_at (tb_messages s) mk = Some r \<and>
    bubble_from_topic env (mk_topic mk)
      (s\<lparr>tb_relations := sql_delete (\<lambda>(k, r). k = (mk, position) \<and> rl_hash r = hash) (tb_relations s),
         tb_messages := fst (sql_update mk (\<lambda>r. mr_deleted_at r = None)
           (\<lambda>r. r\<lparr>mr_content_hash := new_hash, mr_updated_at := updated_at\<rparr>) (tb_messages s))\<rparr>) = Inr (activity, s'))"
  using assms by (auto simp: delete_message_attachment_in_db_def Let_def then_do_Inr split_def
      split: if_splits option.splits sum.splits)

lemma inv_delete_attachment:
  assumes "delete_message_attachment_in_db env mk position hash now s = Inr (activity, s')" "db_inv env X Y Z s"
  shows "db_inv env X Y Z s'"
  using delete_attachment_success[OF assms(1)]
proof (elim disjE exE conjE)
  fix r new_hash updated_at
  let ?g = "\<lambda>r. r\<lparr>mr_content_hash := new_hash, mr_updated_at := updated_at\<rparr>"
  let ?s1 = "s\<lparr>tb_relations := sql_delete (\<lambda>(k, r). k = (mk, position) \<and> rl_hash r = hash) (tb_relations s),
         tb_messages := fst (sql_update mk (\<lambda>r. mr_deleted_at r = None) ?g (tb_messages s))\<rparr>"
  assume r: "fetch_live mr_deleted_at (tb_messages s) mk = Some r"
    and b: "bubble_from_topic env (mk_topic mk) ?s1 = Inr (activity, s')"
  have sound: "store_sound s" "index_sound s" using assms(2) by (simp_all add: db_inv_def)
  have k: "mk \<in> row_keys (tb_messages s)" using r by (simp add: row_keys_map_of fetch_live_iff)
  have live: "live_row tr_deleted_at (tb_topics s) (mk_topic mk)"
    using sound(1) k fetch_live_live[OF r] by (auto simp: store_sound_def messages_sound_def)
  have m: "tb_messages ?s1 = fst (sql_upsert mk r (\<lambda>r. mr_deleted_at r = None) ?g (tb_messages s))"
    by (simp add: sql_update_upsert[OF k, where n = r])
  have sub: "set (sql_delete (\<lambda>(k, r). k = (mk, position) \<and> rl_hash r = hash) (tb_relations s)) \<subseteq> set (tb_relations s)"
    by (auto simp: sql_delete_def)
  have "db_inv env X Y (insert (mk_topic mk) Z) ?s1"
  proof (rule inv_one_message[OF assms(2) live _ _ _ _ _ _ m])
    show "keys_unique ?s1" using sound(1)
      by (simp add: store_sound_def keys_unique_def distinct_sql_update distinct_delete)
    show "live_row mr_deleted_at (tb_messages ?s1) mk"
      using fetch_live_live[OF r] by (simp add: live_update)
    have "to_index ?s1 mk = to_index s mk" using r by (auto simp: to_index_def map_of_update fetch_live_iff)
    moreover have "indexed_right s mk" using sound(2) by (simp add: index_sound_iff)
    ultimately show "indexed_right ?s1 mk" by (simp add: indexed_right_def indexed_def)
    show "k = mk \<or> k \<in> message_refs s" if "k \<in> message_refs ?s1" for k
      using that sub by (auto simp: message_refs_def row_keys_def)
    have "rl_hash ` snd ` set (tb_relations ?s1) \<subseteq> rl_hash ` snd ` set (tb_relations s)"
      using sub by (simp add: image_mono)
    also have "\<dots> \<subseteq> row_keys (tb_attachments s)" using sound(1) by (simp add: store_sound_def messages_sound_def)
    finally show "rl_hash ` snd ` set (tb_relations ?s1) \<subseteq> row_keys (tb_attachments ?s1)" by simp
  qed (simp_all add: indexed_def)
  with b show ?thesis by (rule inv_bubble_from_topic)
qed (use assms(2) in simp)

end
