(* ===== verification/Chat_Deletes_Laws.thy ===== *)
theory Chat_Deletes_Laws
  imports Chat_Rows_Laws
begin

text \<open>
  Deletions keep the database sound and fresh: what an owner had dies with it, the messages of a topic die
  with the topic, and the hashes above a deletion are brought up to date.
\<close>

section \<open>Owners\<close>

lemma delete_owned_eq:
  assumes "distinct (map fst (tb_messages s))" "\<And>k. k \<in> message_refs s \<Longrightarrow> live_row mr_deleted_at (tb_messages s) k"
  shows "delete_owned ot oi now s =
    (without_messages (of_owner ot oi) (tb_messages (fst (hide_messages (\<lambda>mk r. of_owner ot oi mk) now s))) s)
      \<lparr>tb_topics := tb_topics (delete_topics (\<lambda>key. tk_owner_id key = oi \<and> tk_owner_type key = ot) now s),
       tb_avatars := tb_avatars (delete_avatar_row ot oi now s)\<rparr>"
proof -
  have "delete_children (of_owner ot oi) (fst (hide_messages (\<lambda>mk r. of_owner ot oi mk) now s)) =
      without_messages (of_owner ot oi) (tb_messages (fst (hide_messages (\<lambda>mk r. of_owner ot oi mk) now s))) s"
    by (rule hide_messages_without) (simp_all add: assms)
  from this[symmetric] show ?thesis
    by (simp only:) (rule tables.equality, simp_all add: delete_owned_def Let_def delete_topics_def hide_messages_def delete_avatar_row_def
        delete_children_def delete_active_def delete_render_def delete_message_attachments_def)
qed

lemma delete_owned_fields [simp]:
  "tb_agents (delete_owned ot oi now s) = tb_agents s" "tb_groups (delete_owned ot oi now s) = tb_groups s"
  "tb_members (delete_owned ot oi now s) = tb_members s"
  "tb_attachments (delete_owned ot oi now s) = tb_attachments s"
  "tb_topics (delete_owned ot oi now s) = sql_update_all
     (\<lambda>key r. (tk_owner_id key = oi \<and> tk_owner_type key = ot) \<and> tr_deleted_at r = None)
     (\<lambda>r. r\<lparr>tr_deleted_at := Some now\<rparr>) (tb_topics s)"
  "tb_messages (delete_owned ot oi now s) =
     sql_update_all (\<lambda>mk r. of_owner ot oi mk \<and> mr_deleted_at r = None) (\<lambda>r. r\<lparr>mr_deleted_at := Some now\<rparr>) (tb_messages s)"
  "tb_avatars (delete_owned ot oi now s) = fst (sql_update (ot, oi) (\<lambda>r. vr_deleted_at r = None)
     (\<lambda>r. r\<lparr>vr_deleted_at := Some now\<rparr>) (tb_avatars s))"
  by (simp_all add: delete_owned_def Let_def delete_topics_def hide_messages_def delete_avatar_row_def
      delete_active_def delete_render_def delete_message_attachments_def)

lemma hidden_rows:
  assumes "\<And>r. del (g r) \<noteq> None" "\<And>k. P k \<longleftrightarrow> k \<in> K"
  shows "live_rows del (sql_update_all (\<lambda>k r. P k \<and> del r = None) g t) = filter (\<lambda>(k, r). k \<notin> K) (live_rows del t)"
  unfolding live_rows_hidden[of del g, OF assms(1)] by (intro filter_cong) (auto simp: live_rows_def assms(2))

lemma live_row_hidden:
  assumes "\<And>r. del (g r) \<noteq> None"
  shows "live_row del (fst (sql_update k (\<lambda>r. del r = None) g t)) i \<longleftrightarrow> i \<noteq> k \<and> live_row del t i"
  using assms by (cases "map_of t i") (auto simp: live_row_iff map_of_update)

text \<open>An owner dies with all it had: \<open>s1\<close> is the database when its row is dead.\<close>

lemma inv_owner_dies:
  fixes s :: "'f tables"
  assumes "db_inv env X Y Z s" "ot \<noteq> ''agent'' \<Longrightarrow> ot = ''group''"
    "live_rows ar_deleted_at agents = filter (\<lambda>(i, r). \<not> (ot = ''agent'' \<and> i = oi)) (live_rows ar_deleted_at (tb_agents s))"
    "live_rows gr_deleted_at groups = filter (\<lambda>(i, r). \<not> (ot = ''group'' \<and> i = oi)) (live_rows gr_deleted_at (tb_groups s))"
    "distinct (map fst agents)" "distinct (map fst groups)" "distinct (map fst members)"
    "\<And>g m. (g, m) \<in> row_keys members \<Longrightarrow> (g, m) \<in> row_keys (tb_members s) \<and>
      (ot = ''agent'' \<longrightarrow> m \<noteq> oi) \<and> (ot = ''group'' \<longrightarrow> g \<noteq> oi)"
    "\<And>m. m \<noteq> oi \<or> ot \<noteq> ''agent'' \<Longrightarrow> map_of agents m = map_of (tb_agents s) m"
  shows "db_inv env X Y Z
    ((delete_owned ot oi now (s\<lparr>tb_agents := agents, tb_groups := groups\<rparr>))\<lparr>tb_members := members\<rparr>)"
proof -
  let ?s1 = "s\<lparr>tb_agents := agents, tb_groups := groups\<rparr>"
  let ?s' = "(delete_owned ot oi now ?s1)\<lparr>tb_members := members\<rparr>"
  have sound: "store_sound s" using assms(1) by (simp add: db_inv_def)
  note d = sound_unique[OF sound]
  have m: "messages_sound s" using sound by (simp add: store_sound_def)
  have e: "delete_owned ot oi now ?s1 =
      (without_messages (of_owner ot oi) (tb_messages (fst (hide_messages (\<lambda>mk r. of_owner ot oi mk) now ?s1))) ?s1)
      \<lparr>tb_topics := tb_topics (delete_topics (\<lambda>key. tk_owner_id key = oi \<and> tk_owner_type key = ot) now ?s1),
       tb_avatars := tb_avatars (delete_avatar_row ot oi now ?s1)\<rparr>"
    using d(6) m by (intro delete_owned_eq) (simp_all add: messages_sound_def message_refs_def)
  have refs: "message_refs ?s' = {k \<in> message_refs s. \<not> of_owner ot oi k}"
    using without_messages_refs[of "of_owner ot oi" "tb_messages (fst (hide_messages (\<lambda>mk r. of_owner ot oi mk) now ?s1))" ?s1]
    by (simp add: e message_refs_def)
  have fts: "tb_fts ?s' = filter (\<lambda>(k, c). \<not> of_owner ot oi k) (tb_fts s)"
    and active: "tb_active ?s' = filter (\<lambda>(k, c). \<not> of_owner ot oi k) (tb_active s)"
    and rel: "tb_relations ?s' = filter (\<lambda>((k, p), r). \<not> of_owner ot oi k) (tb_relations s)"
    and rend: "tb_render ?s' = filter (\<lambda>(k, r). \<not> of_owner ot oi k) (tb_render s)"
    by (simp_all add: e without_messages_def)
  have owners: "tb_agents ?s' = agents" "tb_groups ?s' = groups" by simp_all
  let ?A = "{i. ot = ''agent'' \<and> i = oi}" and ?G = "{i. ot = ''group'' \<and> i = oi}"
  let ?T = "{k. tk_owner_id k = oi \<and> tk_owner_type k = ot}" and ?M = "{k. of_owner ot oi k}"
  show ?thesis
  proof (rule inv_remove[OF assms(1), where A = ?A and G = ?G and T = ?T and M = ?M])
    show "keys_unique ?s'" using d assms(5-7)
      by (simp add: keys_unique_def rel rend active distinct_map_filter distinct_sql_update)
    show "live_rows tr_deleted_at (tb_topics ?s') = filter (\<lambda>(k, r). k \<notin> ?T) (live_rows tr_deleted_at (tb_topics s))"
      using hidden_rows[of tr_deleted_at "\<lambda>r. r\<lparr>tr_deleted_at := Some now\<rparr>"
        "\<lambda>k. tk_owner_id k = oi \<and> tk_owner_type k = ot" ?T "tb_topics s"] by simp
    show "live_rows mr_deleted_at (tb_messages ?s') = filter (\<lambda>(k, r). k \<notin> ?M) (live_rows mr_deleted_at (tb_messages s))"
      using hidden_rows[of mr_deleted_at "\<lambda>r. r\<lparr>mr_deleted_at := Some now\<rparr>" "of_owner ot oi" ?M "tb_messages s"] by simp
    show "live_row vr_deleted_at (tb_avatars s) (ot', oi') \<and> \<not> (ot' = ''agent'' \<and> oi' \<in> ?A) \<and> \<not> (ot' = ''group'' \<and> oi' \<in> ?G)"
      if "live_row vr_deleted_at (tb_avatars ?s') (ot', oi')" for ot' oi'
      using that by (simp add: live_row_hidden) auto
    show "(g, m) \<in> row_keys (tb_members s) \<and> g \<notin> ?G \<and> (tombstoned_agent ?s' m \<longrightarrow> tombstoned_agent s m)"
      if "(g, m) \<in> row_keys (tb_members ?s')" for g m
      using assms(8)[of g m] assms(9)[of m] that by (cases "ot = ''agent''") (auto simp: tombstoned_agent_def)
    show "rl_hash ` snd ` set (tb_relations ?s') \<subseteq> row_keys (tb_attachments ?s')"
      using m by (fastforce simp: rel messages_sound_def)
    show "indexed ?s' k = indexed s k" if "k \<notin> ?M" for k
      unfolding indexed_def fts filter_filter using that by (intro filter_cong) auto
    show "k \<in> row_keys (tb_active ?s')" if "k \<notin> ?M" "k \<in> row_keys (tb_active s)" for k
      using that by (simp add: active row_keys_filter[of "\<lambda>k. \<not> of_owner ot oi k"])
    show "live_rows ar_deleted_at (tb_agents ?s') = filter (\<lambda>(i, r). i \<notin> ?A) (live_rows ar_deleted_at (tb_agents s))"
      by (simp only: owners assms(3) mem_Collect_eq)
    show "live_rows gr_deleted_at (tb_groups ?s') = filter (\<lambda>(i, r). i \<notin> ?G) (live_rows gr_deleted_at (tb_groups s))"
      by (simp only: owners assms(4) mem_Collect_eq)
  qed (auto simp: refs agents_of_def groups_of_def of_owner_def split: if_splits)
qed

text \<open>The two ways a row of an owner becomes dead.\<close>

lemma live_rows_update_dead:
  assumes "distinct (map fst t)" "\<And>r. del (g r) \<noteq> None"
  shows "live_rows del (fst (sql_update i (\<lambda>r. del r = None) g t)) = filter (\<lambda>(k, r). k \<noteq> i) (live_rows del t)"
  using hidden_rows[of del g "\<lambda>k. k = i" "{i}" t] assms(2) by (simp add: sql_update_all_eq[OF assms(1)])

lemma live_rows_absent: "map_of t i = None \<Longrightarrow> filter (\<lambda>(k, r). k \<noteq> i) (live_rows del t) = live_rows del t"
  by (auto simp: map_of_eq_None_iff live_rows_def filter_id_conv intro!: filter_cong) force

text \<open>What stays of the rows of a table that is not concerned.\<close>

lemma filter_no_row [simp]: "filter (\<lambda>(k, r). True) t = t"
  by (simp add: split_def)

lemma inv_agent_dies:
  fixes s :: "'f tables"
  assumes "db_inv env X Y Z s"
    "live_rows ar_deleted_at agents = filter (\<lambda>(k, r). k \<noteq> i) (live_rows ar_deleted_at (tb_agents s))"
    "distinct (map fst agents)" "\<And>m. m \<noteq> i \<Longrightarrow> map_of agents m = map_of (tb_agents s) m"
  shows "db_inv env X Y Z ((delete_owned ''agent'' i now (s\<lparr>tb_agents := agents\<rparr>))
    \<lparr>tb_members := sql_delete (\<lambda>((g, m), r). m = i) (tb_members s)\<rparr>)"
proof -
  have d: "distinct (map fst (tb_groups s))" "distinct (map fst (tb_members s))"
    using assms(1) by (simp_all add: db_inv_def store_sound_def keys_unique_def)
  have "db_inv env X Y Z ((delete_owned ''agent'' i now (s\<lparr>tb_agents := agents, tb_groups := tb_groups s\<rparr>))
    \<lparr>tb_members := sql_delete (\<lambda>((g, m), r). m = i) (tb_members s)\<rparr>)"
    by (rule inv_owner_dies[OF assms(1)])
      (use assms d distinct_delete[OF d(2)] in \<open>auto simp: sql_delete_def row_keys_def\<close>)
  then show ?thesis by simp
qed

lemma inv_group_dies:
  fixes s :: "'f tables"
  assumes "db_inv env X Y Z s"
    "live_rows gr_deleted_at groups = filter (\<lambda>(k, r). k \<noteq> i) (live_rows gr_deleted_at (tb_groups s))"
    "distinct (map fst groups)"
  shows "db_inv env X Y Z ((delete_owned ''group'' i now (s\<lparr>tb_groups := groups\<rparr>))
    \<lparr>tb_members := sql_delete (\<lambda>((g, m), r). g = i) (tb_members s)\<rparr>)"
proof -
  have d: "distinct (map fst (tb_agents s))" "distinct (map fst (tb_members s))"
    using assms(1) by (simp_all add: db_inv_def store_sound_def keys_unique_def)
  have "db_inv env X Y Z ((delete_owned ''group'' i now (s\<lparr>tb_agents := tb_agents s, tb_groups := groups\<rparr>))
    \<lparr>tb_members := sql_delete (\<lambda>((g, m), r). g = i) (tb_members s)\<rparr>)"
    by (rule inv_owner_dies[OF assms(1)])
      (use assms d distinct_delete[OF d(2)] in \<open>auto simp: sql_delete_def row_keys_def\<close>)
  then show ?thesis by simp
qed

section \<open>The configuration of a group\<close>

lemma inv_group_update:
  assumes "db_inv env X Y Z s" "\<And>r. gr_deleted_at (g r) = gr_deleted_at r" "\<And>r. gr_content_hash (g r) = gr_content_hash r"
  shows "db_inv env X Y Z (s\<lparr>tb_groups := fst (sql_update i l g (tb_groups s))\<rparr>)"
proof -
  let ?s = "s\<lparr>tb_groups := fst (sql_update i l g (tb_groups s))\<rparr>"
  have sound: "store_sound s" "index_sound s" using assms(1) by (simp_all add: db_inv_def)
  have "owners_sound ?s" by (rule owners_sound_same[of ?s s])
    (use sound(1) assms(2) in \<open>auto simp: store_sound_def live_update tombstoned_agent_iff\<close>)
  then have "store_sound ?s" using sound(1)
    by (simp add: store_sound_def keys_unique_def distinct_sql_update messages_sound_def message_refs_def)
  moreover have "index_sound ?s" by (rule index_other[OF _ _ _ sound(2)]) simp_all
  moreover have "roots_fresh (ce_store env) X Y ?s"
    using assms by (simp add: db_inv_def roots_fresh_def fresh_sql_update)
  moreover have "contents_fresh env Z ?s" by (rule contents_other[of _ s]) (use assms(1) in \<open>auto simp: db_inv_def\<close>)
  ultimately show ?thesis by (simp add: db_inv_def)
qed

text \<open>What the new configuration hash makes of a row.\<close>

definition rehashed_group :: "'f chat_env \<Rightarrow> int \<Rightarrow> group_dto \<Rightarrow> groups_row \<Rightarrow> groups_row" where
  "rehashed_group env now dto r =
     r\<lparr>gr_updated_at := (if gr_config_hash r \<noteq> compute_group_config_hash (ce_store env) dto then now else gr_updated_at r),
       gr_config_hash := compute_group_config_hash (ce_store env) dto\<rparr>"

lemma recompute_group_success:
  "recompute_group_config_hash env now i s = Inr s' \<longleftrightarrow>
     (\<exists>dto. load_group_dto env i s = Inr dto \<and>
        s' = s\<lparr>tb_groups := fst (sql_update i (\<lambda>r. gr_deleted_at r = None) (rehashed_group env now dto) (tb_groups s))\<rparr>)"
proof (cases "load_group_dto env i s")
  case (Inr dto)
  then obtain r where "map_of (tb_groups s) i = Some r" "gr_deleted_at r = None"
    by (auto simp: load_group_dto_def fetch_live_iff split: option.splits)
  then show ?thesis using Inr
    by (auto simp: recompute_group_config_hash_def then_do_Inr Let_def sql_update_def rehashed_group_def[abs_def])
qed (simp add: recompute_group_config_hash_def then_do_Inr)

lemma inv_recompute_group:
  "recompute_group_config_hash env now i s = Inr s' \<Longrightarrow> db_inv env X Y Z s \<Longrightarrow> db_inv env X Y Z s'"
  by (auto simp: recompute_group_success rehashed_group_def intro!: inv_group_update)

section \<open>Deleting agents and groups\<close>

lemma inv_delete_agent_rows:
  assumes "delete_agent_rows env now clock i b s0 = Inr (out, s')" "db_inv env X Y Z s"
    "b \<Longrightarrow> map_of (tb_agents s) i = None \<and> s0 = s\<lparr>tb_agents := tb_agents s @ [(i, agent_tombstone env now)]\<rparr>"
    "\<not> b \<Longrightarrow> s0 = s"
  shows "db_inv env X Y Z s'"
proof -
  have d: "distinct (map fst (tb_agents s))" using assms(2) by (simp add: db_inv_def store_sound_def keys_unique_def)
  obtain agents where dead: "live_rows ar_deleted_at agents = filter (\<lambda>(k, r). k \<noteq> i) (live_rows ar_deleted_at (tb_agents s))"
      "distinct (map fst agents)" "\<And>m. m \<noteq> i \<Longrightarrow> map_of agents m = map_of (tb_agents s) m"
    and each: "each_do (recompute_group_config_hash env clock) (affected_group_ids i s0)
      ((delete_owned ''agent'' i now (s\<lparr>tb_agents := agents\<rparr>))
        \<lparr>tb_members := sql_delete (\<lambda>((g, m), r). m = i) (tb_members s)\<rparr>) = Inr s'"
  proof (cases b)
    case True
    let ?t = "tb_agents s @ [(i, agent_tombstone env now)]"
    from assms(3)[OF True] have n: "map_of (tb_agents s) i = None" and s0: "s0 = s\<lparr>tb_agents := ?t\<rparr>" by auto
    show ?thesis
    proof (rule that[of ?t])
      show "live_rows ar_deleted_at ?t = filter (\<lambda>(k, r). k \<noteq> i) (live_rows ar_deleted_at (tb_agents s))"
        unfolding live_rows_absent[OF n] by (simp add: agent_tombstone_def)
      show "distinct (map fst ?t)" using d n by (simp add: map_of_eq_None_iff)
      show "map_of ?t m = map_of (tb_agents s) m" if "m \<noteq> i" for m
        using that by (simp add: map_add_def split: option.splits)
    qed (use assms(1) True in \<open>auto simp: delete_agent_rows_def s0 then_do_Inr Let_def\<close>)
  next
    case False
    let ?t = "fst (sql_update i (\<lambda>r. ar_deleted_at r = None) (\<lambda>r. r\<lparr>ar_deleted_at := Some now\<rparr>) (tb_agents s))"
    show ?thesis
    proof (rule that[of ?t])
      show "live_rows ar_deleted_at ?t = filter (\<lambda>(k, r). k \<noteq> i) (live_rows ar_deleted_at (tb_agents s))"
        by (rule live_rows_update_dead[OF d]) simp
      show "distinct (map fst ?t)" by (rule distinct_sql_update[OF d])
      show "map_of ?t m = map_of (tb_agents s) m" if "m \<noteq> i" for m using that by (simp add: map_of_update)
    qed (use assms(1,4) False in \<open>auto simp: delete_agent_rows_def then_do_Inr Let_def split: prod.splits if_splits\<close>)
  qed
  have "db_inv env X Y Z ((delete_owned ''agent'' i now (s\<lparr>tb_agents := agents\<rparr>))
        \<lparr>tb_members := sql_delete (\<lambda>((g, m), r). m = i) (tb_members s)\<rparr>)"
    by (rule inv_agent_dies[OF assms(2) dead(1,2)]) (rule dead(3))
  with each show ?thesis by (rule each_do_rule[where P = "db_inv env X Y Z"]) (blast intro: inv_recompute_group)+
qed

lemma inv_delete_agent:
  assumes "delete_agent_internal env requested clock clock2 i s = Inr (out, s')" "db_inv env X Y Z s"
  shows "db_inv env X Y Z s'"
proof (cases "map_of (tb_agents s) i")
  case None
  then show ?thesis using assms(1) inv_delete_agent_rows[OF _ assms(2), where b = True]
    by (simp add: delete_agent_internal_def Let_def split: if_splits)
next
  case (Some r)
  then show ?thesis using assms inv_delete_agent_rows[OF _ assms(2), where b = False]
    by (auto simp: delete_agent_internal_def Let_def split: if_splits option.splits)
qed

lemma inv_delete_group_rows:
  assumes "delete_group_rows now i b s0 = Inr (out, s')" "db_inv env X Y Z s"
    "b \<Longrightarrow> map_of (tb_groups s) i = None \<and> s0 = s\<lparr>tb_groups := tb_groups s @ [(i, group_tombstone now)]\<rparr>"
    "\<not> b \<Longrightarrow> s0 = s"
  shows "db_inv env X Y Z s'"
proof -
  have d: "distinct (map fst (tb_groups s))" using assms(2) by (simp add: db_inv_def store_sound_def keys_unique_def)
  show ?thesis
  proof (cases b)
    case True
    let ?t = "tb_groups s @ [(i, group_tombstone now)]"
    from assms(3)[OF True] have n: "map_of (tb_groups s) i = None" and s0: "s0 = s\<lparr>tb_groups := ?t\<rparr>" by auto
    have "live_rows gr_deleted_at ?t = filter (\<lambda>(k, r). k \<noteq> i) (live_rows gr_deleted_at (tb_groups s))"
      unfolding live_rows_absent[OF n] by (simp add: group_tombstone_def)
    moreover have "distinct (map fst ?t)" using d n by (simp add: map_of_eq_None_iff)
    ultimately show ?thesis using inv_group_dies[OF assms(2), of ?t i now] assms(1) True
      by (auto simp: delete_group_rows_def s0 then_do_Inr Let_def)
  next
    case False
    let ?t = "fst (sql_update i (\<lambda>r. gr_deleted_at r = None) (\<lambda>r. r\<lparr>gr_deleted_at := Some now\<rparr>) (tb_groups s))"
    have "live_rows gr_deleted_at ?t = filter (\<lambda>(k, r). k \<noteq> i) (live_rows gr_deleted_at (tb_groups s))"
      by (rule live_rows_update_dead[OF d]) simp
    moreover have "distinct (map fst ?t)" by (rule distinct_sql_update[OF d])
    ultimately show ?thesis using inv_group_dies[OF assms(2), of ?t i now] assms(1,4) False
      by (auto simp: delete_group_rows_def then_do_Inr Let_def split: prod.splits if_splits)
  qed
qed

lemma inv_delete_group:
  assumes "delete_group_internal requested clock i s = Inr (out, s')" "db_inv env X Y Z s"
  shows "db_inv env X Y Z s'"
proof (cases "map_of (tb_groups s) i")
  case None
  then show ?thesis using assms(1) inv_delete_group_rows[OF _ assms(2), where b = True]
    by (simp add: delete_group_internal_def Let_def split: if_splits)
next
  case (Some r)
  then show ?thesis using assms inv_delete_group_rows[OF _ assms(2), where b = False]
    by (auto simp: delete_group_internal_def Let_def split: if_splits option.splits)
qed

section \<open>Deleting topics\<close>

lemma live_rows_dead_update:
  assumes "\<And>k r. (k, r) \<in> set t \<Longrightarrow> hit k r \<Longrightarrow> del r \<noteq> None \<and> del (g r) \<noteq> None"
  shows "live_rows del (sql_update_all hit g t) = live_rows del t"
  using assms
proof (induction t)
  case (Cons a t)
  have "live_rows del (sql_update_all hit g t) = live_rows del t" by (rule Cons.IH) (rule Cons.prems, simp_all)
  then show ?case using Cons.prems[of "fst a" "snd a"] by (cases a) (auto simp: live_rows_def sql_update_all_def)
qed (simp add: live_rows_def sql_update_all_def)

text \<open>Statements on dead rows only.\<close>

lemma inv_dead_rows:
  assumes "db_inv env X Y Z s" "keys_unique s'"
    "tb_agents s' = tb_agents s" "tb_groups s' = tb_groups s" "tb_members s' = tb_members s"
    "live_rows tr_deleted_at (tb_topics s') = live_rows tr_deleted_at (tb_topics s)"
    "live_rows mr_deleted_at (tb_messages s') = live_rows mr_deleted_at (tb_messages s)"
    "\<And>k. live_row vr_deleted_at (tb_avatars s') k \<Longrightarrow> live_row vr_deleted_at (tb_avatars s) k"
    "row_keys (tb_topics s) \<subseteq> row_keys (tb_topics s')" "row_keys (tb_messages s') = row_keys (tb_messages s)"
    "row_keys (tb_render s') \<subseteq> row_keys (tb_render s)" "tb_fts s' = tb_fts s" "tb_active s' = tb_active s"
    "tb_relations s' = tb_relations s" "tb_attachments s' = tb_attachments s"
  shows "db_inv env X Y Z s'"
proof (rule inv_remove[OF assms(1,2), where A = "{}" and G = "{}" and T = "{}" and M = "{}"])
  show "rl_hash ` snd ` set (tb_relations s') \<subseteq> row_keys (tb_attachments s')"
    using assms(1) by (simp add: assms(14,15) db_inv_def store_sound_def messages_sound_def)
  show "message_refs s' \<subseteq> message_refs s - {}"
    using assms(11) unfolding message_refs_def assms(12-14) by blast
qed (use assms in \<open>auto simp: tombstoned_agent_def indexed_def\<close>)

text \<open>A new topic of a live owner; its hashes are to be computed.\<close>

lemma inv_insert_topic:
  assumes "db_inv env X Y Z s" "owner_live s (tk_owner_type key) (tk_owner_id key)" "tr_deleted_at r = None"
    "insert_topic env key r s = Inr s'"
  shows "db_inv env (X \<union> agents_of key) (Y \<union> groups_of key) (insert key Z) s'"
proof -
  from assms(4) have new: "map_of (tb_topics s) key = None" and s': "s' = s\<lparr>tb_topics := tb_topics s @ [(key, r)]\<rparr>"
    by (simp_all add: insert_topic_def split: if_splits)
  have u: "s' = s\<lparr>tb_topics := fst (sql_upsert key r (\<lambda>r. tr_deleted_at r = None) (\<lambda>r. r) (tb_topics s))\<rparr>"
    by (simp add: s' sql_upsert_def new)
  have "store_sound s'" unfolding u
    by (rule sound_topic) (use assms new in \<open>auto simp: db_inv_def writable_def\<close>)
  moreover have "index_sound s'" using assms(1) by (auto simp: db_inv_def s' intro: index_other)
  moreover have "roots_fresh (ce_store env) (X \<union> agents_of key) (Y \<union> groups_of key) s'"
    by (rule roots_topics[of _ _ _ s])
      (use assms(1) in \<open>auto simp: db_inv_def s' live_topic_rows_def agents_of_def groups_of_def split: if_splits\<close>)
  moreover have "contents_fresh env (insert key Z) s'" unfolding contents_fresh_iff
  proof (intro allI impI)
    fix k r' assume "fetch_live tr_deleted_at (tb_topics s') k = Some r'"
    then have "k = key \<or> fetch_live tr_deleted_at (tb_topics s) k = Some r'"
      by (auto simp: s' fetch_live_iff map_add_def split: option.splits if_splits)
    moreover have "topic_aggregate env k s' = topic_aggregate env k s"
      by (simp add: s' topic_aggregate_def live_message_rows_def)
    ultimately show "k \<in> insert key Z \<or> topic_aggregate env k s' = Inr (topic_hashes r')"
      using assms(1) unfolding db_inv_def contents_fresh_iff by auto
  qed
  ultimately show ?thesis by (simp add: db_inv_def)
qed

lemma inv_topic_dies:
  assumes "db_inv env X Y Z s"
  shows "db_inv env (X \<union> agents_of key) (Y \<union> groups_of key) Z
    (delete_children (of_topic key) (fst (hide_messages (\<lambda>mk r. of_topic key mk) now
      (s\<lparr>tb_topics := fst (sql_update key (\<lambda>r. tr_deleted_at r = None) (\<lambda>r. r\<lparr>tr_deleted_at := Some now\<rparr>) (tb_topics s))\<rparr>))))"
proof -
  let ?t = "fst (sql_update key (\<lambda>r. tr_deleted_at r = None) (\<lambda>r. r\<lparr>tr_deleted_at := Some now\<rparr>) (tb_topics s))"
  let ?s1 = "s\<lparr>tb_topics := ?t\<rparr>"
  let ?m = "tb_messages (fst (hide_messages (\<lambda>mk r. of_topic key mk) now ?s1))"
  let ?s' = "without_messages (of_topic key) ?m ?s1"
  have sound: "store_sound s" using assms by (simp add: db_inv_def)
  note d = sound_unique[OF sound]
  have m: "messages_sound s" using sound by (simp add: store_sound_def)
  have e: "delete_children (of_topic key) (fst (hide_messages (\<lambda>mk r. of_topic key mk) now ?s1)) = ?s'"
    using d(6) m by (intro hide_messages_without) (simp_all add: messages_sound_def message_refs_def)
  have refs: "message_refs ?s' = {k \<in> message_refs s. \<not> of_topic key k}"
    unfolding without_messages_refs by (simp add: message_refs_def)
  show ?thesis unfolding e
  proof (rule inv_remove[OF assms, where A = "{}" and G = "{}" and T = "{key}" and M = "{k. of_topic key k}"])
    show "keys_unique ?s'" using d
      by (simp add: keys_unique_def without_messages_def distinct_map_filter distinct_sql_update hide_messages_fields)
    show "live_rows tr_deleted_at (tb_topics ?s') = filter (\<lambda>(k, r). k \<notin> {key}) (live_rows tr_deleted_at (tb_topics s))"
      using live_rows_update_dead[OF d(5), of tr_deleted_at "\<lambda>r. r\<lparr>tr_deleted_at := Some now\<rparr>" key] by simp
    show "live_rows mr_deleted_at (tb_messages ?s') = filter (\<lambda>(k, r). k \<notin> {k. of_topic key k}) (live_rows mr_deleted_at (tb_messages s))"
      using hidden_rows[of mr_deleted_at "\<lambda>r. r\<lparr>mr_deleted_at := Some now\<rparr>" "of_topic key" "{k. of_topic key k}" "tb_messages s"]
      by (simp add: hide_messages_fields)
    show "rl_hash ` snd ` set (tb_relations ?s') \<subseteq> row_keys (tb_attachments ?s')"
      using m by (fastforce simp: without_messages_def messages_sound_def)
    show "indexed ?s' k = indexed s k" if "k \<notin> {k. of_topic key k}" for k
      unfolding indexed_def without_messages_fields filter_filter using that by (auto intro!: filter_cong)
    show "k \<in> row_keys (tb_active ?s')" if "k \<notin> {k. of_topic key k}" "k \<in> row_keys (tb_active s)" for k
      using that by (simp add: row_keys_filter[of "\<lambda>k. \<not> of_topic key k"])
    show "(g, m) \<in> row_keys (tb_members s) \<and> g \<notin> {} \<and> (tombstoned_agent ?s' m \<longrightarrow> tombstoned_agent s m)"
      if "(g, m) \<in> row_keys (tb_members ?s')" for g m using that by (simp add: tombstoned_agent_def)
    show "message_refs ?s' \<subseteq> message_refs s - {k. of_topic key k}" unfolding refs by blast
  qed (auto simp: keys_update of_topic_def hide_messages_fields)
qed

definition same_owner :: "topic_key \<Rightarrow> chat_topic \<Rightarrow> bool" where
  "same_owner key topic \<longleftrightarrow> ct_owner_type topic = tk_owner_type key \<and> ct_owner_id topic = tk_owner_id key"

lemma inv_delete_live_topic:
  assumes "delete_live_topic env key now candidate s = Inr (out, s')" "db_inv env X Y Z s"
    "live_row tr_deleted_at (tb_topics s) key" "\<And>topic. candidate = Some topic \<Longrightarrow> same_owner key topic"
  shows "db_inv env X Y Z s'"
proof -
  define s3 where "s3 = delete_children (of_topic key) (fst (hide_messages (\<lambda>mk r. of_topic key mk) now
      (s\<lparr>tb_topics := fst (sql_update key (\<lambda>r. tr_deleted_at r = None) (\<lambda>r. r\<lparr>tr_deleted_at := Some now\<rparr>) (tb_topics s))\<rparr>)))"
  have three: "db_inv env (X \<union> agents_of key) (Y \<union> groups_of key) Z s3"
    unfolding s3_def by (rule inv_topic_dies[OF assms(2)])
  from assms(1) obtain replacement s4 where rep: "replacement = None \<or> replacement = candidate"
    and add: "add_replacement env replacement s3 = Inr s4" and bubble: "bubble_owner_hash env key s4 s'"
    by (auto simp: delete_live_topic_def Let_def then_do_Inr s3_def bubble_owner_hash_def split: prod.splits if_splits)
  have "db_inv env (X \<union> agents_of key) (Y \<union> groups_of key) Z s4"
  proof (cases replacement)
    case None
    then show ?thesis using add three by (simp add: add_replacement_def)
  next
    case (Some topic)
    let ?k = "topic_key_of topic"
    have own: "tk_owner_type ?k = tk_owner_type key" "tk_owner_id ?k = tk_owner_id key"
      using assms(4) rep Some by (auto simp: same_owner_def topic_key_of_def)
    have "owner_live s (tk_owner_type key) (tk_owner_id key)"
      using assms(2,3) by (simp add: db_inv_def store_sound_def owners_sound_iff)
    then have "owner_live s3 (tk_owner_type ?k) (tk_owner_id ?k)"
      by (simp add: own s3_def owner_live_def parent_is_live_def delete_children_fields hide_messages_fields)
    moreover obtain s5 activity where s5: "insert_topic env ?k (fresh_topics_row (ct_name topic) (ct_created_at topic) (ct_created_at topic)) s3 = Inr s5"
      "bubble_topic_hash env ?k s5 = Inr (activity, s4)"
      using add Some by (auto simp: add_replacement_def then_do_Inr)
    ultimately have "db_inv env (X \<union> agents_of key \<union> agents_of ?k) (Y \<union> groups_of key \<union> groups_of ?k) (insert ?k Z) s5"
      by (intro inv_insert_topic[OF three]) (auto simp: fresh_topics_row_def)
    from inv_bubble_topic[OF s5(2) this] show ?thesis by (simp add: agents_of_def groups_of_def own split: if_splits)
  qed
  with bubble show ?thesis by (rule inv_bubble_owner)
qed

lemma inv_delete_topic_data:
  assumes "delete_topic_data_inner env key now candidate s = Inr (out, s')" "db_inv env X Y Z s"
    "\<And>topic. candidate = Some topic \<Longrightarrow> same_owner key topic"
  shows "db_inv env X Y Z s'"
proof -
  have u: "keys_unique s" and d: "distinct (map fst (tb_topics s))"
    using assms(2) by (simp_all add: db_inv_def store_sound_def keys_unique_def)
  show ?thesis
  proof (cases "map_of (tb_topics s) key")
    case None
    have "db_inv env X Y Z (s\<lparr>tb_topics := tb_topics s @ [(key, topic_tombstone now)]\<rparr>)"
      by (rule inv_dead_rows[OF assms(2)])
        (use u None in \<open>auto simp: keys_unique_def topic_tombstone_def row_keys_def map_of_eq_None_iff\<close>)
    then show ?thesis using assms(1,2) None by (auto simp: delete_topic_data_inner_def Let_def split: if_splits)
  next
    case (Some r)
    show ?thesis
    proof (cases "tr_deleted_at r")
      case None
      then have "live_row tr_deleted_at (tb_topics s) key" using Some by (simp add: live_row_iff)
      then show ?thesis using assms Some None inv_delete_live_topic
        by (fastforce simp: delete_topic_data_inner_def then_do_Inr Let_def split: if_splits)
    next
      case (Some stored)
      let ?g = "\<lambda>r. r\<lparr>tr_deleted_at := Some now, tr_updated_at := max (tr_updated_at r) now,
        tr_config_hash := SYNC_TOMBSTONE_HASH, tr_content_hash := SYNC_TOMBSTONE_HASH\<rparr>"
      have "live_rows tr_deleted_at (fst (sql_update key (\<lambda>r. True) ?g (tb_topics s))) = live_rows tr_deleted_at (tb_topics s)"
        unfolding sql_update_all_eq[OF d]
      proof (rule live_rows_dead_update)
        fix k r' assume "(k, r') \<in> set (tb_topics s)" "k = key \<and> True"
        then have "r' = r" using map_of_is_SomeI[OF d] \<open>map_of (tb_topics s) key = Some r\<close> by auto
        then show "tr_deleted_at r' \<noteq> None \<and> tr_deleted_at (?g r') \<noteq> None" using Some by simp
      qed
      then have "db_inv env X Y Z (s\<lparr>tb_topics := fst (sql_update key (\<lambda>r. True) ?g (tb_topics s))\<rparr>)"
        by (intro inv_dead_rows[OF assms(2)]) (use u in \<open>auto simp: keys_unique_def distinct_sql_update keys_update\<close>)
      then show ?thesis using assms(1,2) Some \<open>map_of (tb_topics s) key = Some r\<close>
        by (auto simp: delete_topic_data_inner_def Let_def split: if_splits)
    qed
  qed
qed

lemma inv_delete_topic:
  assumes "delete_topic env key now s = Inr (out, s')" "db_inv env X Y Z s"
  shows "db_inv env X Y Z s'"
proof -
  from assms(1) obtain topic d where t: "delete_topic_data_inner env key now (Some topic) s = Inr (d, s')"
    and "same_owner key topic"
    by (auto simp: delete_topic_def Let_def then_do_Inr new_topic_def same_owner_def split: option.splits)
  then show ?thesis by (intro inv_delete_topic_data[OF t assms(2)]) simp
qed

section \<open>Deleting messages\<close>

lemma inv_tombstone_chunks:
  assumes "db_inv env X Y Z s" "live_row tr_deleted_at (tb_topics s) key"
  shows "db_inv env X Y (insert key Z) (snd (fold (tombstone_chunk key) tombstones (ids, s)))"
  using assms
proof (induction tombstones arbitrary: ids s Z)
  case Nil
  then show ?case by (auto elim: db_inv_mono)
next
  case (Cons c cs)
  obtain ids1 s1 where s1: "tombstone_chunk key c (ids, s) = (ids1, s1)" by fastforce
  have "db_inv env X Y (insert key Z) s1 \<and> tb_topics s1 = tb_topics s"
    using inv_tombstone_chunk[OF Cons.prems, of c ids] by (simp add: s1)
  then show ?case using Cons.IH[of "insert key Z" s1 ids1] Cons.prems(2) by (simp add: s1)
qed

lemma inv_sync_tombstones:
  assumes "apply_sync_message_tombstones key tombstones s = Inr (ids, s')" "db_inv env X Y Z s"
  shows "db_inv env X Y (insert key Z) s'"
proof -
  have "db_inv env X Y (insert key Z) s" using assms(2) by (auto elim: db_inv_mono)
  then show ?thesis
    using assms(1) inv_tombstone_chunks[OF assms(2), of key "chunks_of 400 tombstones" "[]"]
    by (auto simp: apply_sync_message_tombstones_def split: if_splits)
qed

lemma inv_soft_delete_messages:
  "soft_delete_messages key tombstones s = Inr (ids, s') \<Longrightarrow> db_inv env X Y Z s \<Longrightarrow> db_inv env X Y (insert key Z) s'"
  by (auto simp: soft_delete_messages_def intro: inv_sync_tombstones split: if_splits)

lemma inv_delete_messages:
  assumes "delete_messages env key ids now s = Inr (out, s')" "db_inv env X Y Z s"
  shows "db_inv env X Y Z s'"
proof (cases "ids = []")
  case False
  let ?s1 = "delete_children (one_of key ids) (fst (hide_messages (\<lambda>mk r. one_of key ids mk) now s))"
  have "db_inv env X Y (Z \<union> {key}) ?s1"
    by (rule inv_hide_messages[OF assms(2)]) (auto simp: one_of_def)
  moreover obtain activity where "bubble_from_topic env key ?s1 = Inr (activity, s')"
    using assms(1) False by (auto simp: delete_messages_def Let_def then_do_Inr split: prod.splits if_splits)
  ultimately show ?thesis by (auto intro: inv_bubble_from_topic)
qed (use assms in \<open>auto simp: delete_messages_def then_do_Inr\<close>)

lemma hide_after_children:
  "fst (hide_messages hit now (delete_children doomed s)) = delete_children doomed (fst (hide_messages hit now s))"
  by (rule tables.equality) (simp_all add: hide_messages_def Let_def delete_children_def delete_active_def
      delete_render_def delete_message_attachments_def)

lemma inv_truncate_history:
  assumes "truncate_history_after_message env key anchor now s = Inr (out, s')" "db_inv env X Y Z s"
  shows "db_inv env X Y Z s'"
proof -
  obtain a where a: "fetch_live mr_deleted_at (tb_messages s) (MessageKey key anchor) = Some a"
    using assms(1) by (auto simp: truncate_history_after_message_def split: option.splits)
  define later where "later = after_message key (mr_timestamp a) anchor"
  define doomed where "doomed = (\<lambda>mk. case map_of (tb_messages s) mk of None \<Rightarrow> False | Some r \<Rightarrow> later mk r)"
  let ?s1 = "fst (hide_messages later now (delete_children doomed s))"
  have "db_inv env X Y (Z \<union> {key}) ?s1" unfolding hide_after_children
    by (rule inv_hide_messages[OF assms(2)])
      (auto simp: doomed_def later_def after_message_def of_topic_def fetch_live_iff split: option.splits)
  moreover obtain activity where "bubble_from_topic env key ?s1 = Inr (activity, s')"
    using assms(1) unfolding truncate_history_after_message_def Let_def a doomed_def later_def
    by (auto simp: then_do_Inr split: prod.splits if_splits)
  ultimately show ?thesis by (auto intro: inv_bubble_from_topic)
qed

section \<open>Avatars and old tombstones\<close>

lemma inv_soft_delete_avatar:
  assumes "soft_delete_avatar ot oi deleted_at s = Inr s'" "db_inv env X Y Z s"
  shows "db_inv env X Y Z s'"
proof -
  have s': "s' = s\<lparr>tb_avatars := fst (sql_upsert (ot, oi) (avatar_tombstone deleted_at) (\<lambda>r. True)
      (set_avatar_tombstone deleted_at) (tb_avatars s))\<rparr>"
    using assms(1) by (simp add: soft_delete_avatar_def split: if_splits)
  have dead: "vr_deleted_at (set_avatar_tombstone d r) \<noteq> None" "vr_deleted_at (avatar_tombstone d) \<noteq> None" for d r
    by (auto simp: set_avatar_tombstone_def avatar_tombstone_def later_deletion_def split: option.splits)
  have "keys_unique s'" using assms(2) by (simp add: s' db_inv_def store_sound_def keys_unique_def distinct_upsert)
  then show ?thesis
    by (rule inv_dead_rows[OF assms(2)])
      (use dead in \<open>auto simp: s' live_row_iff map_of_upsert simp del: not_None_eq split: if_splits option.splits\<close>)
qed

lemma inv_cleanup:
  assumes "db_inv env X Y Z s"
  shows "db_inv env X Y Z (cleanup_old_deleted_records now days s)"
proof -
  let ?s = "cleanup_old_deleted_records now days s"
  define old where "old = (\<lambda>r :: messages_row. case mr_deleted_at r of None \<Rightarrow> False | Some t \<Rightarrow> t < now - days * 24 * 60 * 60 * 1000)"
  have m: "tb_messages ?s = sql_update_all (\<lambda>mk r. old r \<and> mr_content r \<noteq> CLEARED_CONTENT)
      (\<lambda>r. r\<lparr>mr_content := CLEARED_CONTENT\<rparr>) (tb_messages s)"
    by (simp add: cleanup_old_deleted_records_def Let_def old_def delete_render_def cong: option.case_cong)
  have r: "\<exists>P. tb_render ?s = filter (\<lambda>(k, r). P k) (tb_render s)"
    by (auto simp: cleanup_old_deleted_records_def Let_def delete_render_def sql_delete_def split_def)
  have "live_rows mr_deleted_at (tb_messages ?s) = live_rows mr_deleted_at (tb_messages s)"
    unfolding m by (rule live_rows_dead_update) (auto simp: old_def split: option.splits)
  moreover have "row_keys (tb_render ?s) \<subseteq> row_keys (tb_render s)" "distinct (map fst (tb_render ?s))"
    using r assms by (auto simp: row_keys_def db_inv_def store_sound_def keys_unique_def distinct_map_filter)
  moreover have "keys_unique ?s" using assms calculation(3)
    by (simp add: db_inv_def store_sound_def keys_unique_def m) (simp add: cleanup_old_deleted_records_def Let_def delete_render_def)
  ultimately show ?thesis
    by (intro inv_dead_rows[OF assms]) (simp_all add: m, simp_all add: cleanup_old_deleted_records_def Let_def delete_render_def)
qed

end
