(* ===== verification/Chat_Owners.thy ===== *)
theory Chat_Owners
  imports Chat_Deletes
begin

text \<open>
  What the user does to topics (\<open>chat/topic_service.rs\<close>), agents (\<open>agent/agent_service.rs\<close>), groups
  (\<open>group/group_service.rs\<close>) and avatars (\<open>agent/avatar_service.rs\<close>), and what ends a synchronisation
  (\<open>finalize_modified_topics\<close> of \<open>sync/sync_finalize.rs\<close>).
\<close>

section \<open>Topics\<close>

definition create_topic ::
  "'f chat_env \<Rightarrow> string \<Rightarrow> string \<Rightarrow> string \<Rightarrow> int \<Rightarrow> 'f tables \<Rightarrow> string + (chat_topic \<times> 'f tables)" where
  "create_topic env owner_type owner_id name now s =
     (let topic = new_topic owner_type owner_id (new_topic_id owner_type now) name now
      in case insert_topic env (topic_key_of topic) (fresh_topics_row name now now) s of
           Inl e \<Rightarrow> Inl (''[CreateTopic] DB initialization failed: '' @ e)
         | Inr s1 \<Rightarrow> then_do (bubble_from_topic env (topic_key_of topic) s1) (\<lambda>(activity, s2). Inr (topic, s2)))"

text \<open>An update of one live row and, when a row changed, the hashes; the result is the time, if it changed.
  The hashes may be those of another key than the row's.\<close>

definition change_topic ::
  "'f chat_env \<Rightarrow> topic_key \<Rightarrow> topic_key \<Rightarrow> (topics_row \<Rightarrow> bool) \<Rightarrow> (topics_row \<Rightarrow> topics_row) \<Rightarrow> int \<Rightarrow>
     'f tables \<Rightarrow> string + (int option \<times> 'f tables)" where
  "change_topic env row_key bubbled_key differs set_row now s =
     (case sql_update row_key (\<lambda>r. tr_deleted_at r = None \<and> differs r) set_row (tb_topics s) of
        (t, changed) \<Rightarrow>
          if changed = 1
          then then_do (bubble_from_topic env bubbled_key (s\<lparr>tb_topics := t\<rparr>)) (\<lambda>(activity, s1). Inr (Some now, s1))
          else Inr (None, s))"

definition update_topic_title ::
  "'f chat_env \<Rightarrow> topic_key \<Rightarrow> string \<Rightarrow> string option \<Rightarrow> int \<Rightarrow> 'f tables \<Rightarrow> string + (int option \<times> 'f tables)" where
  "update_topic_title env key title expected now s =
     change_topic env key key
       (\<lambda>r. tr_title r \<noteq> title \<and> (case expected of None \<Rightarrow> True | Some e \<Rightarrow> tr_title r = e))
       (\<lambda>r. r\<lparr>tr_title := title, tr_updated_at := now\<rparr>) now s"

text \<open>The statement names the type of the owner itself.\<close>

definition toggle_topic_lock ::
  "'f chat_env \<Rightarrow> topic_key \<Rightarrow> bool \<Rightarrow> int \<Rightarrow> 'f tables \<Rightarrow> string + (int option \<times> 'f tables)" where
  "toggle_topic_lock env key locked now s =
     change_topic env (TopicKey ''agent'' (tk_owner_id key) (tk_topic_id key)) key
       (\<lambda>r. tr_locked r \<noteq> locked) (\<lambda>r. r\<lparr>tr_locked := locked, tr_updated_at := now\<rparr>) now s"

definition validate_agent_topic_key :: "topic_key \<Rightarrow> string + unit" where
  "validate_agent_topic_key key =
     (if tk_owner_type key \<noteq> ''agent'' \<or> \<not> topic_key_is_valid key
      then Inl ''Unread state requires an exact Agent Topic identity'' else Inr ())"

definition set_topic_unread_in_db ::
  "'f chat_env \<Rightarrow> topic_key \<Rightarrow> bool \<Rightarrow> int \<Rightarrow> 'f tables \<Rightarrow> string + (int option \<times> 'f tables)" where
  "set_topic_unread_in_db env key unread now s =
     then_do (validate_agent_topic_key key) (\<lambda>u.
       let s1 = (if \<not> unread
           then s\<lparr>tb_topics := fst (sql_update key (\<lambda>r. tr_deleted_at r = None \<and> tr_unread_count r \<noteq> 0)
             (\<lambda>r. r\<lparr>tr_unread_count := 0\<rparr>) (tb_topics s))\<rparr>
           else s)
       in change_topic env key key (\<lambda>r. tr_unread r \<noteq> unread)
            (\<lambda>r. r\<lparr>tr_unread := unread, tr_updated_at := now\<rparr>) now s1)"

text \<open>The new count and, when the topic became unread, the time.\<close>

definition increment_topic_unread_count ::
  "'f chat_env \<Rightarrow> topic_key \<Rightarrow> int \<Rightarrow> 'f tables \<Rightarrow> string + ((int \<times> int option) \<times> 'f tables)" where
  "increment_topic_unread_count env key now s =
     then_do (validate_agent_topic_key key) (\<lambda>u.
       case sql_update key (\<lambda>r. tr_deleted_at r = None) (\<lambda>r. r\<lparr>tr_unread_count := tr_unread_count r + 1\<rparr>) (tb_topics s) of
         (t, incremented) \<Rightarrow>
           if incremented \<noteq> 1
           then Inl (''Agent Topic '' @ tk_owner_type key @ ''/'' @ tk_owner_id key @ ''/'' @ tk_topic_id key @
             '' is missing or deleted'')
           else then_do (change_topic env key key (\<lambda>r. \<not> tr_unread r) (\<lambda>r. r\<lparr>tr_unread := True, tr_updated_at := now\<rparr>) now
                (s\<lparr>tb_topics := t\<rparr>))
              (\<lambda>(updated_at, s1).
                case fetch_live tr_deleted_at (tb_topics s1) key of
                  None \<Rightarrow> Inl (ce_no_rows env)
                | Some r \<Rightarrow> Inr ((tr_unread_count r, updated_at), s1)))"

section \<open>Agents\<close>

record 'f agent_config =
  ac_name :: string
  ac_system_prompt :: string
  ac_mobile_system_prompt :: string
  ac_model :: string
  ac_temperature :: 'f
  ac_context_token_limit :: int
  ac_max_output_tokens :: int
  ac_stream_output :: bool
  ac_use_temperature :: bool

definition agent_sync_dto :: "'f agent_config \<Rightarrow> 'f agent_dto" where
  "agent_sync_dto c =
     \<lparr>ag_name = ac_name c, ag_system_prompt = ac_system_prompt c, ag_model = ac_model c,
       ag_temperature = ac_temperature c, ag_context_token_limit = ac_context_token_limit c,
       ag_max_output_tokens = ac_max_output_tokens c, ag_stream_output = ac_stream_output c\<rparr>"

definition agent_row_of :: "'f chat_env \<Rightarrow> int \<Rightarrow> 'f agent_config \<Rightarrow> 'f agents_row" where
  "agent_row_of env now c =
     \<lparr>ar_name = ac_name c, ar_system_prompt = ac_system_prompt c, ar_mobile_system_prompt = ac_mobile_system_prompt c,
       ar_model = ac_model c, ar_temperature = ac_temperature c, ar_context_token_limit = ac_context_token_limit c,
       ar_max_output_tokens = ac_max_output_tokens c, ar_stream_output = ac_stream_output c,
       ar_use_temperature = ac_use_temperature c,
       ar_config_hash = compute_agent_config_hash (ce_store env) (agent_sync_dto c), ar_content_hash = [],
       ar_updated_at = now, ar_deleted_at = None\<rparr>"

text \<open>\<open>encode_utf16\<close>: a character of the basic plane is one unit, any other two, of which none is kept.\<close>

definition id_char :: "char \<Rightarrow> bool" where
  "id_char c \<longleftrightarrow> CHR ''0'' \<le> c \<and> c \<le> CHR ''9'' \<or> CHR ''A'' \<le> c \<and> c \<le> CHR ''Z'' \<or>
     CHR ''a'' \<le> c \<and> c \<le> CHR ''z'' \<or> c = CHR ''_'' \<or> c = CHR ''-''"

definition utf16_id_part :: "char \<Rightarrow> string" where
  "utf16_id_part c =
     (if bval c < 0x80 then [if id_char c then c else CHR ''_'']
      else if bval c < 0xC0 then []
      else if bval c < 0xF0 then ''_'' else ''__'')"

definition desktop_compatible_id_base :: "string \<Rightarrow> string" where
  "desktop_compatible_id_base name = concat (map utf16_id_part name)"

text \<open>The bytes before and after the name in the first prompt of an agent.\<close>

definition new_agent_prompt :: "string \<Rightarrow> string" where
  "new_agent_prompt name = map char_of [228::nat, 189, 160, 230, 152, 175, 32] @ name @ map char_of [227::nat, 128, 130]"

definition new_agent_config :: "'f chat_env \<Rightarrow> string \<Rightarrow> 'f agent_config" where
  "new_agent_config env name =
     \<lparr>ac_name = name, ac_system_prompt = new_agent_prompt name, ac_mobile_system_prompt = new_agent_prompt name,
       ac_model = ''gemini-2.5-flash'', ac_temperature = ce_new_temperature env, ac_context_token_limit = 1000000,
       ac_max_output_tokens = 60000, ac_stream_output = True, ac_use_temperature = False\<rparr>"

text \<open>A new owner gets its first topic.\<close>

definition first_topic :: "'f chat_env \<Rightarrow> topic_key \<Rightarrow> string \<Rightarrow> int \<Rightarrow> 'f tables \<Rightarrow> string + 'f tables" where
  "first_topic env key title now s =
     then_do (insert_topic env key (fresh_topics_row title now now) s) (\<lambda>s1.
       then_do (bubble_topic_hash env key s1) (\<lambda>(activity, s2). Inr s2))"

definition create_agent :: "'f chat_env \<Rightarrow> string \<Rightarrow> int \<Rightarrow> 'f tables \<Rightarrow> string + (string \<times> 'f tables)" where
  "create_agent env name now s =
     (let i = desktop_compatible_id_base name @ ''_'' @ int_str now
      in if map_of (tb_agents s) i \<noteq> None then Inl (se_unique (ce_store env))
         else
           let s1 = s\<lparr>tb_agents := tb_agents s @ [(i, agent_row_of env now (new_agent_config env name))]\<rparr>
           in then_do (first_topic env (TopicKey ''agent'' i (''topic_'' @ int_str now)) MAIN_AGENT_TOPIC now s1) (\<lambda>s2.
                then_do (bubble_agent_hash env i s2) (\<lambda>s3. Inr (i, s3))))"

text \<open>\<open>cached\<close>: the prompt in the cache of configurations. An empty prompt does not replace one that is there.\<close>

definition guard_prompt :: "string option \<Rightarrow> string \<Rightarrow> 'f tables \<Rightarrow> 'f agent_config \<Rightarrow> 'f agent_config" where
  "guard_prompt cached i s c =
     (if ac_system_prompt c \<noteq> [] then c
      else case cached of
          Some prompt \<Rightarrow> c\<lparr>ac_system_prompt := prompt\<rparr>
        | None \<Rightarrow>
            (case fetch_live ar_deleted_at (tb_agents s) i of
               None \<Rightarrow> c
             | Some r \<Rightarrow> c\<lparr>ac_system_prompt := ar_system_prompt r\<rparr>))"

definition set_agent_config :: "'f agents_row \<Rightarrow> 'f agents_row \<Rightarrow> 'f agents_row" where
  "set_agent_config new_row r =
     new_row\<lparr>ar_content_hash := ar_content_hash r, ar_deleted_at := ar_deleted_at r,
       ar_updated_at := (if ar_config_hash r \<noteq> ar_config_hash new_row then ar_updated_at new_row else ar_updated_at r)\<rparr>"

definition internal_write_agent_config ::
  "'f chat_env \<Rightarrow> string option \<Rightarrow> string \<Rightarrow> 'f agent_config \<Rightarrow> int \<Rightarrow> 'f tables \<Rightarrow> string + ('f agent_config \<times> 'f tables)"
  where
  "internal_write_agent_config env cached i config now s =
     (let c = guard_prompt cached i s config
      in if tombstoned_agent s i then Inl (''Agent '' @ i @ '' has been deleted'')
         else let new_row = agent_row_of env now c
              in Inr (c, s\<lparr>tb_agents := fst (sql_upsert i new_row (\<lambda>r. True) (set_agent_config new_row) (tb_agents s))\<rparr>))"

section \<open>Groups\<close>

definition new_group_dto :: "string \<Rightarrow> int \<Rightarrow> group_dto" where
  "new_group_dto name now =
     \<lparr>gd_name = name, gd_members = [], gd_mode = ''sequential'', gd_member_tags = Some [], gd_group_prompt = Some [],
       gd_invite_prompt = Some DEFAULT_INVITE_PROMPT, gd_use_unified_model = False, gd_unified_model = Some [],
       gd_tag_match_mode = Some ''strict'', gd_created_at = now\<rparr>"

definition create_group :: "'f chat_env \<Rightarrow> string \<Rightarrow> int \<Rightarrow> 'f tables \<Rightarrow> string + (string \<times> 'f tables)" where
  "create_group env name now s =
     (let i = desktop_compatible_id_base name @ ''_'' @ int_str now
      in if map_of (tb_groups s) i \<noteq> None then Inl (se_unique (ce_store env))
         else
           let s1 = s\<lparr>tb_groups := tb_groups s @ [(i, new_groups_row (ce_store env) now (new_group_dto name now))]\<rparr>
           in then_do (first_topic env (TopicKey ''group'' i (''group_topic_'' @ int_str now)) MAIN_GROUP_TOPIC now s1) (\<lambda>s2.
                then_do (bubble_group_hash env i s2) (\<lambda>s3. Inr (i, s3))))"

text \<open>The configuration of a group, less its topics and its colour, is its transfer object; members whose
  tombstone is known are left out. The result is what is cached.\<close>

definition internal_write_group_config ::
  "'f chat_env \<Rightarrow> string \<Rightarrow> group_dto \<Rightarrow> int \<Rightarrow> 'f tables \<Rightarrow> string + (group_dto \<times> 'f tables)" where
  "internal_write_group_config env i config now s =
     (if (case map_of (tb_groups s) i of None \<Rightarrow> False | Some r \<Rightarrow> gr_deleted_at r \<noteq> None)
      then Inl (''Group '' @ i @ '' has been deleted'')
      else
        let c = canonical_dto s config;
            t = fst (sql_upsert i (new_groups_row (ce_store env) now c) (\<lambda>r. True) (set_groups_row (ce_store env) now c) (tb_groups s))
        in then_do
             (insert_members (ce_store env) i now 0 (gd_members c) (sql_delete (\<lambda>((g, m), r). g = i) (tb_members s)))
             (\<lambda>members. Inr (c, s\<lparr>tb_groups := t, tb_members := members\<rparr>)))"

section \<open>Avatars\<close>

definition MAX_AVATAR_BYTES :: nat where "MAX_AVATAR_BYTES = 20971520"

text \<open>\<open>bytes\<close>: the image as text.\<close>

definition save_avatar_data ::
  "'f chat_env \<Rightarrow> string \<Rightarrow> string \<Rightarrow> string \<Rightarrow> string \<Rightarrow> int \<Rightarrow> 'f tables \<Rightarrow> string + (string \<times> 'f tables)" where
  "save_avatar_data env ot oi mime bytes now s =
     (if \<not> is_valid_avatar_owner ot oi then Inl (''Invalid avatar owner '' @ ot @ ''/'' @ oi)
      else if bytes = [] then Inl ''Avatar image must not be empty''
      else if take 6 mime \<noteq> ''image/'' then Inl (''Invalid avatar MIME type '' @ mime)
      else if MAX_AVATAR_BYTES < length bytes
      then Inl (''Avatar image exceeds the '' @ nat_str MAX_AVATAR_BYTES @ ''-byte limit'')
      else if \<not> parent_is_live ot oi s then Inl (''Avatar owner '' @ ot @ ''/'' @ oi @ '' is missing or deleted'')
      else (case sql_upsert (ot, oi) (new_avatars_row (ce_store env) now mime bytes) (\<lambda>r. vr_deleted_at r = None)
            (set_avatars_row (ce_store env) now mime bytes) (tb_avatars s) of
          (t, saved) \<Rightarrow>
            if saved \<noteq> 1 then Inl (''Avatar '' @ ot @ ''/'' @ oi @ '' is tombstoned and cannot be overwritten'')
            else Inr (se_sha (ce_store env) bytes, s\<lparr>tb_avatars := t\<rparr>)))"

definition store_dominant_color ::
  "string \<Rightarrow> string \<Rightarrow> string \<Rightarrow> string \<Rightarrow> 'f tables \<Rightarrow> string + (bool \<times> 'f tables)" where
  "store_dominant_color ot oi color expected_hash s =
     (if \<not> is_valid_avatar_owner ot oi then Inl (''Invalid avatar owner '' @ ot @ ''/'' @ oi)
      else (case sql_update (ot, oi)
            (\<lambda>r. vr_hash r = expected_hash \<and> vr_dominant_color r = None \<and> vr_deleted_at r = None)
            (\<lambda>r. r\<lparr>vr_dominant_color := Some color\<rparr>) (tb_avatars s) of
          (t, updated) \<Rightarrow> Inr (updated \<noteq> 0, s\<lparr>tb_avatars := t\<rparr>)))"

section \<open>The end of a synchronisation\<close>

definition finalize_topic :: "'f chat_env \<Rightarrow> topic_key \<Rightarrow> 'f tables \<Rightarrow> string + 'f tables" where
  "finalize_topic env key s =
     then_do (refresh_topic_content_hash env key s) (\<lambda>(activity, s1).
       if tk_owner_type key = ''agent'' \<or> tk_owner_type key = ''group'' then Inr s1
       else Inl (''unsupported owner_type '' @ tk_owner_type key))"

definition owners_of :: "string \<Rightarrow> topic_key list \<Rightarrow> string list" where
  "owners_of ot keys = remdups (map tk_owner_id (filter (\<lambda>key. tk_owner_type key = ot) keys))"

text \<open>\<open>modified\<close> is a set, given as a list without repetition, and \<open>walk\<close> the order in which a set of owners is
  gone through. The texts of the errors, which are Chinese, are abbreviated.\<close>

definition finalize_modified_topics ::
  "'f chat_env \<Rightarrow> (string list \<Rightarrow> string list) \<Rightarrow> topic_key list \<Rightarrow> 'f tables \<Rightarrow> string + 'f tables" where
  "finalize_modified_topics env walk modified s =
     (if list_ex (\<lambda>key. \<not> live_row tr_deleted_at (tb_topics s) key) modified
      then Inl ''missing live topic metadata''
      else then_do (each_do (finalize_topic env) (sort modified) s) (\<lambda>s1.
        then_do (each_do (bubble_agent_hash env) (walk (owners_of ''agent'' modified)) s1)
          (each_do (bubble_group_hash env) (walk (owners_of ''group'' modified)))))"

end
