(* ===== verification/Chat_Owners_Laws.thy ===== *)
theory Chat_Owners_Laws
  imports Chat_Deletes_Laws Chat_Owners
begin

text \<open>
  New topics, changes of topics, new and changed agents, groups and avatars keep the database sound and
  fresh; the end of a synchronisation makes fresh what it left stale.
\<close>

section \<open>Topics\<close>

lemma inv_bubble_new:
  assumes "bubble_from_topic env key s = Inr (activity, s')"
    "db_inv env (X \<union> agents_of key) (Y \<union> groups_of key) (insert key Z) s"
  shows "db_inv env X Y Z s'"
proof -
  obtain s1 where b: "bubble_topic_hash env key s = Inr (activity, s1)" "bubble_owner_hash env key s1 s'"
    using assms(1) by (auto simp: bubble_from_topic_success)
  have "db_inv env (X \<union> agents_of key) (Y \<union> groups_of key) Z s1"
    using inv_bubble_topic[OF b(1) assms(2)] by (simp add: sup.assoc)
  with b(2) show ?thesis by (rule inv_bubble_owner)
qed

lemma inv_create_topic:
  assumes "create_topic env ot oi name now s = Inr (topic, s')" "db_inv env X Y Z s"
  shows "db_inv env X Y Z s'"
proof -
  from assms(1) obtain key s1 activity where i: "insert_topic env key (fresh_topics_row name now now) s = Inr s1"
    and b: "bubble_from_topic env key s1 = Inr (activity, s')"
    by (auto simp: create_topic_def Let_def then_do_Inr split: sum.splits)
  have "tb_agents s1 = tb_agents s" "tb_groups s1 = tb_groups s" using i by (auto simp: insert_topic_def split: if_splits)
  then have "owner_live s1 = owner_live s" by (intro ext) (simp add: owner_live_def parent_is_live_def)
  then have "owner_live s (tk_owner_type key) (tk_owner_id key)" using bubble_from_topic_live(1)[OF b] by simp
  then have "db_inv env (X \<union> agents_of key) (Y \<union> groups_of key) (insert key Z) s1"
    by (rule inv_insert_topic[OF assms(2) _ _ i]) (simp add: fresh_topics_row_def)
  with b show ?thesis by (rule inv_bubble_new)
qed

lemma inv_change_topic:
  assumes "change_topic env row_key bubbled differs set_row now s = Inr (out, s')" "db_inv env X Y Z s"
    "\<And>r. tr_deleted_at (set_row r) = tr_deleted_at r" "\<And>r. topic_hashes (set_row r) = topic_hashes r"
    "\<And>r. tr_config_hash (set_row r) = tr_config_hash r"
  shows "db_inv env X Y Z s'"
proof -
  let ?s1 = "s\<lparr>tb_topics := fst (sql_update row_key (\<lambda>r. tr_deleted_at r = None \<and> differs r) set_row (tb_topics s))\<rparr>"
  have "db_inv env X Y Z ?s1" by (rule inv_topic_update[OF assms(2-5)])
  then have "db_inv env X Y (insert bubbled Z) ?s1" by (auto elim: db_inv_mono)
  then show ?thesis using assms(1,2)
    by (auto simp: change_topic_def then_do_Inr intro: inv_bubble_from_topic split: prod.splits if_splits)
qed

lemma inv_topic_title:
  "update_topic_title env key title expected now s = Inr (out, s') \<Longrightarrow> db_inv env X Y Z s \<Longrightarrow> db_inv env X Y Z s'"
  by (auto simp: update_topic_title_def topic_hashes_def elim!: inv_change_topic)

lemma inv_topic_lock:
  "toggle_topic_lock env key locked now s = Inr (out, s') \<Longrightarrow> db_inv env X Y Z s \<Longrightarrow> db_inv env X Y Z s'"
  by (auto simp: toggle_topic_lock_def topic_hashes_def elim!: inv_change_topic)

lemma inv_topic_unread:
  assumes "set_topic_unread_in_db env key unread now s = Inr (out, s')" "db_inv env X Y Z s"
  shows "db_inv env X Y Z s'"
proof -
  have "db_inv env X Y Z (s\<lparr>tb_topics := fst (sql_update key (\<lambda>r. tr_deleted_at r = None \<and> tr_unread_count r \<noteq> 0)
      (\<lambda>r. r\<lparr>tr_unread_count := 0\<rparr>) (tb_topics s))\<rparr>)"
    by (rule inv_topic_update[OF assms(2)]) (simp_all add: topic_hashes_def)
  then show ?thesis using assms
    by (auto simp: set_topic_unread_in_db_def then_do_Inr Let_def topic_hashes_def elim!: inv_change_topic split: if_splits)
qed

lemma inv_topic_unread_count:
  assumes "increment_topic_unread_count env key now s = Inr (out, s')" "db_inv env X Y Z s"
  shows "db_inv env X Y Z s'"
proof -
  let ?s1 = "s\<lparr>tb_topics := fst (sql_update key (\<lambda>r. tr_deleted_at r = None)
      (\<lambda>r. r\<lparr>tr_unread_count := tr_unread_count r + 1\<rparr>) (tb_topics s))\<rparr>"
  have one: "db_inv env X Y Z ?s1"
    by (rule inv_topic_update[OF assms(2)]) (simp_all add: topic_hashes_def)
  obtain o1 where "change_topic env key key (\<lambda>r. \<not> tr_unread r) (\<lambda>r. r\<lparr>tr_unread := True, tr_updated_at := now\<rparr>) now ?s1 = Inr (o1, s')"
    using assms(1) by (auto simp: increment_topic_unread_count_def then_do_Inr split: prod.splits if_splits option.splits)
  then show ?thesis by (rule inv_change_topic[OF _ one]) (simp_all add: topic_hashes_def)
qed

section \<open>Agents and groups\<close>

lemma db_inv_owner_rows:
  assumes "db_inv env X Y Z s" "store_sound s'" "roots_fresh (ce_store env) X Y s'" "tb_topics s' = tb_topics s"
    "tb_messages s' = tb_messages s" "tb_fts s' = tb_fts s" "tb_active s' = tb_active s"
  shows "db_inv env X Y Z s'"
proof -
  have "index_sound s'" by (rule index_other[OF assms(5-7)]) (use assms(1) in \<open>simp add: db_inv_def\<close>)
  moreover have "contents_fresh env Z s'" by (rule contents_other[OF assms(4,5)]) (use assms(1) in \<open>simp add: db_inv_def\<close>)
  ultimately show ?thesis using assms(2,3) by (simp add: db_inv_def)
qed

lemma inv_agent_row:
  assumes "db_inv env X Y Z s" "writable ar_deleted_at (tb_agents s) i" "ar_deleted_at n = None" "ar_content_hash n = []"
    "\<And>r. ar_deleted_at (g r) = ar_deleted_at r" "\<And>r. ar_content_hash (g r) = ar_content_hash r"
  shows "db_inv env X Y Z (s\<lparr>tb_agents := fst (sql_upsert i n (\<lambda>r. ar_deleted_at r = None) g (tb_agents s))\<rparr>)"
proof (rule db_inv_owner_rows[OF assms(1)])
  have sound: "store_sound s" using assms(1) by (simp add: db_inv_def)
  have "i \<notin> row_keys (tb_agents s) \<Longrightarrow> owner_root (ce_store env) s ''agent'' i = []"
    by (rule owner_root_unknown[OF sound]) (auto simp: parent_is_live_def dest: live_row_key)
  then show "roots_fresh (ce_store env) X Y (s\<lparr>tb_agents := fst (sql_upsert i n (\<lambda>r. ar_deleted_at r = None) g (tb_agents s))\<rparr>)"
    using assms by (auto simp: db_inv_def roots_fresh_def intro!: fresh_upsert)
  show "store_sound (s\<lparr>tb_agents := fst (sql_upsert i n (\<lambda>r. ar_deleted_at r = None) g (tb_agents s))\<rparr>)"
    by (rule sound_agent_row[OF sound assms(2,3,5)])
qed simp_all

lemma inv_group_rows:
  assumes "db_inv env X Y Z s" "writable gr_deleted_at (tb_groups s) i" "gr_deleted_at n = None" "gr_content_hash n = []"
    "\<And>r. gr_deleted_at (f r) = gr_deleted_at r" "\<And>r. gr_content_hash (f r) = gr_content_hash r"
    "\<forall>m\<in>set ms. \<not> tombstoned_agent s m"
    "insert_members env' i now 0 ms (sql_delete (\<lambda>((g, m), r). g = i) (tb_members s)) = Inr members"
  shows "db_inv env X Y Z (s\<lparr>tb_groups := fst (sql_upsert i n (\<lambda>r. gr_deleted_at r = None) f (tb_groups s)), tb_members := members\<rparr>)"
proof (rule db_inv_owner_rows[OF assms(1)])
  have sound: "store_sound s" using assms(1) by (simp add: db_inv_def)
  have "i \<notin> row_keys (tb_groups s) \<Longrightarrow> owner_root (ce_store env) s ''group'' i = []"
    by (rule owner_root_unknown[OF sound]) (auto simp: parent_is_live_def dest: live_row_key)
  then show "roots_fresh (ce_store env) X Y
      (s\<lparr>tb_groups := fst (sql_upsert i n (\<lambda>r. gr_deleted_at r = None) f (tb_groups s)), tb_members := members\<rparr>)"
    using assms(1,4-6) by (auto simp: db_inv_def roots_fresh_def intro!: fresh_upsert)
  show "store_sound (s\<lparr>tb_groups := fst (sql_upsert i n (\<lambda>r. gr_deleted_at r = None) f (tb_groups s)), tb_members := members\<rparr>)"
    by (rule sound_group_rows[OF sound assms(2,3,5,7,8)])
qed simp_all

lemma upsert_over_live: "writable del t k \<Longrightarrow> fst (sql_upsert k n (\<lambda>r. True) g t) = fst (sql_upsert k n (\<lambda>r. del r = None) g t)"
  by (auto simp: sql_upsert_def writable_def split: option.splits)

lemma agent_row_simps [simp]:
  "ar_deleted_at (agent_row_of env now c) = None" "ar_content_hash (agent_row_of env now c) = []"
  "ar_deleted_at (set_agent_config n r) = ar_deleted_at r" "ar_content_hash (set_agent_config n r) = ar_content_hash r"
  by (simp_all add: agent_row_of_def set_agent_config_def)

lemma inv_write_agent:
  assumes "internal_write_agent_config env cached i config now s = Inr (out, s')" "db_inv env X Y Z s"
  shows "db_inv env X Y Z s'"
proof -
  have w: "writable ar_deleted_at (tb_agents s) i"
    using assms(1) by (auto simp: internal_write_agent_config_def Let_def writable_def tombstoned_agent_def split: if_splits option.splits)
  show ?thesis using assms(1) inv_agent_row[OF assms(2) w]
    by (auto simp: internal_write_agent_config_def Let_def upsert_over_live[OF w] split: if_splits)
qed

lemma inv_write_group:
  assumes "internal_write_group_config env i config now s = Inr (out, s')" "db_inv env X Y Z s"
  shows "db_inv env X Y Z s'"
proof -
  have w: "writable gr_deleted_at (tb_groups s) i"
    using assms(1) by (auto simp: internal_write_group_config_def writable_def split: if_splits option.splits)
  obtain members where m: "insert_members (ce_store env) i now 0 (gd_members (canonical_dto s config))
      (sql_delete (\<lambda>((g, m), r). g = i) (tb_members s)) = Inr members"
    and s': "s' = s\<lparr>tb_groups := fst (sql_upsert i (new_groups_row (ce_store env) now (canonical_dto s config)) (\<lambda>r. gr_deleted_at r = None)
      (set_groups_row (ce_store env) now (canonical_dto s config)) (tb_groups s)), tb_members := members\<rparr>"
    using assms(1) by (auto simp: internal_write_group_config_def Let_def then_do_Inr upsert_over_live[OF w] split: if_splits)
  show ?thesis unfolding s'
    by (rule inv_group_rows[OF assms(2) w _ _ _ _ _ m]) (auto simp: canonical_dto_def)
qed

text \<open>A new owner with its first topic.\<close>

lemma inv_first_topic:
  assumes "first_topic env key title now s = Inr s'" "db_inv env X Y Z s" "owner_live s (tk_owner_type key) (tk_owner_id key)"
  shows "db_inv env (X \<union> agents_of key) (Y \<union> groups_of key) Z s'"
proof -
  from assms(1) obtain s1 activity where i: "insert_topic env key (fresh_topics_row title now now) s = Inr s1"
    and b: "bubble_topic_hash env key s1 = Inr (activity, s')"
    by (auto simp: first_topic_def then_do_Inr)
  have "db_inv env (X \<union> agents_of key) (Y \<union> groups_of key) (insert key Z) s1"
    by (rule inv_insert_topic[OF assms(2,3) _ i]) (simp add: fresh_topics_row_def)
  from inv_bubble_topic[OF b this] show ?thesis by (simp add: sup.assoc)
qed

lemma inv_create_agent:
  assumes "create_agent env name now s = Inr (out, s')" "db_inv env X Y Z s"
  shows "db_inv env X Y Z s'"
proof -
  define i where "i = desktop_compatible_id_base name @ ''_'' @ int_str now"
  define r where "r = agent_row_of env now (new_agent_config env name)"
  define s1 where "s1 = s\<lparr>tb_agents := tb_agents s @ [(i, r)]\<rparr>"
  define key where "key = TopicKey ''agent'' i (''topic_'' @ int_str now)"
  from assms(1) obtain s2 where none: "map_of (tb_agents s) i = None"
    and f: "first_topic env key MAIN_AGENT_TOPIC now s1 = Inr s2" and b: "bubble_agent_hash env i s2 = Inr s'"
    unfolding create_agent_def Let_def i_def[symmetric] r_def[symmetric] s1_def[symmetric] key_def[symmetric]
    by (auto simp: then_do_Inr split: if_splits)
  have u: "s1 = s\<lparr>tb_agents := fst (sql_upsert i r (\<lambda>r. ar_deleted_at r = None) (\<lambda>r. r) (tb_agents s))\<rparr>"
    by (simp add: s1_def sql_upsert_def none)
  have "db_inv env X Y Z s1" unfolding u
    by (rule inv_agent_row[OF assms(2)]) (simp_all add: writable_def none r_def)
  moreover have "owner_live s1 (tk_owner_type key) (tk_owner_id key)"
    using none by (simp add: key_def owner_live_def parent_is_live_def s1_def live_row_iff r_def map_add_def)
  ultimately have "db_inv env (X \<union> agents_of key) (Y \<union> groups_of key) Z s2" by (rule inv_first_topic[OF f])
  then show ?thesis by (intro inv_bubble_agent[OF b]) (simp add: agents_of_def groups_of_def key_def)
qed

lemma inv_create_group:
  assumes "create_group env name now s = Inr (out, s')" "db_inv env X Y Z s"
  shows "db_inv env X Y Z s'"
proof -
  define i where "i = desktop_compatible_id_base name @ ''_'' @ int_str now"
  define r where "r = new_groups_row (ce_store env) now (new_group_dto name now)"
  define s1 where "s1 = s\<lparr>tb_groups := tb_groups s @ [(i, r)]\<rparr>"
  define key where "key = TopicKey ''group'' i (''group_topic_'' @ int_str now)"
  from assms(1) obtain s2 where none: "map_of (tb_groups s) i = None"
    and f: "first_topic env key MAIN_GROUP_TOPIC now s1 = Inr s2" and b: "bubble_group_hash env i s2 = Inr s'"
    unfolding create_group_def Let_def i_def[symmetric] r_def[symmetric] s1_def[symmetric] key_def[symmetric]
    by (auto simp: then_do_Inr split: if_splits)
  have sound: "store_sound s" using assms(2) by (simp add: db_inv_def)
  have "live_row gr_deleted_at (tb_groups s) g" if "(g, m) \<in> row_keys (tb_members s)" for g m
    using sound that unfolding store_sound_def owners_sound_iff by blast
  then have "(i, m) \<notin> row_keys (tb_members s)" for m by (metis live_row_iff none option.distinct(1))
  then have "sql_delete (\<lambda>((g, m), r). g = i) (tb_members s) = tb_members s"
    by (force simp: sql_delete_def filter_id_conv row_keys_def)
  then have m: "insert_members (ce_store env) i now 0 [] (sql_delete (\<lambda>((g, m), r). g = i) (tb_members s)) = Inr (tb_members s)"
    by simp
  have u: "s1 = s\<lparr>tb_groups := fst (sql_upsert i r (\<lambda>r. gr_deleted_at r = None) (\<lambda>r. r) (tb_groups s)), tb_members := tb_members s\<rparr>"
    by (simp add: s1_def sql_upsert_def none)
  have "db_inv env X Y Z s1" unfolding u
    by (rule inv_group_rows[OF assms(2) _ _ _ _ _ _ m]) (simp_all add: writable_def none r_def)
  moreover have "owner_live s1 (tk_owner_type key) (tk_owner_id key)"
    using none by (simp add: key_def owner_live_def parent_is_live_def s1_def live_row_iff r_def map_add_def)
  ultimately have "db_inv env (X \<union> agents_of key) (Y \<union> groups_of key) Z s2" by (rule inv_first_topic[OF f])
  then show ?thesis by (intro inv_bubble_group[OF b]) (simp add: agents_of_def groups_of_def key_def)
qed

section \<open>Avatars\<close>

lemma inv_save_avatar:
  assumes "save_avatar_data env ot oi mime bytes now s = Inr (out, s')" "db_inv env X Y Z s"
  shows "db_inv env X Y Z s'"
proof -
  have w: "writable vr_deleted_at (tb_avatars s) (ot, oi)" "parent_is_live ot oi s"
    and s': "s' = s\<lparr>tb_avatars := fst (sql_upsert (ot, oi) (new_avatars_row (ce_store env) now mime bytes)
      (\<lambda>r. vr_deleted_at r = None) (set_avatars_row (ce_store env) now mime bytes) (tb_avatars s))\<rparr>"
    using assms(1) by (auto simp: save_avatar_data_def sql_upsert_def writable_def split: if_splits option.splits)
  have "store_sound s'" unfolding s'
    by (rule sound_avatar_row) (use assms(2) w in \<open>simp_all add: db_inv_def\<close>)
  then show ?thesis
    by (rule db_inv_owner_rows[OF assms(2)]) (use assms(2) in \<open>auto simp: s' db_inv_def intro: roots_other\<close>)
qed

lemma inv_dominant_color:
  assumes "store_dominant_color ot oi color hash s = Inr (out, s')" "db_inv env X Y Z s"
  shows "db_inv env X Y Z s'"
proof -
  let ?t = "fst (sql_update (ot, oi) (\<lambda>r. vr_hash r = hash \<and> vr_dominant_color r = None \<and> vr_deleted_at r = None)
      (\<lambda>r. r\<lparr>vr_dominant_color := Some color\<rparr>) (tb_avatars s))"
  have s': "s' = s\<lparr>tb_avatars := ?t\<rparr>"
    using assms(1) by (auto simp: store_dominant_color_def split: prod.splits if_splits)
  have "store_sound s" using assms(2) by (simp add: db_inv_def)
  moreover have "owners_sound (s\<lparr>tb_avatars := ?t\<rparr>)"
    by (rule owners_sound_grow[of s])
      (use calculation in \<open>auto simp: store_sound_def live_update tombstoned_agent_iff\<close>)
  ultimately have "store_sound s'"
    by (simp add: s' store_sound_def keys_unique_def distinct_sql_update messages_sound_def message_refs_def)
  then show ?thesis
    by (rule db_inv_owner_rows[OF assms(2)]) (use assms(2) in \<open>auto simp: s' db_inv_def intro: roots_other\<close>)
qed

section \<open>The end of a synchronisation\<close>

lemma inv_finalize_topics:
  assumes "each_do (finalize_topic env) keys s = Inr s'" "db_inv env X Y (Z \<union> set keys) s"
  shows "db_inv env (X \<union> \<Union> (agents_of ` set keys)) (Y \<union> \<Union> (groups_of ` set keys)) Z s'"
  using assms
proof (induction keys arbitrary: X Y s)
  case (Cons key keys)
  from Cons.prems(1) obtain s1 where f: "finalize_topic env key s = Inr s1"
    and e: "each_do (finalize_topic env) keys s1 = Inr s'" by (auto simp: then_do_Inr)
  from f obtain activity where r: "refresh_topic_content_hash env key s = Inr (activity, s1)"
    by (cases "refresh_topic_content_hash env key s") (auto simp: finalize_topic_def then_do_def split: if_splits)
  have "db_inv env (X \<union> agents_of key) (Y \<union> groups_of key) (Z \<union> set keys) s1"
    by (rule inv_refresh_topic[OF r]) (use Cons.prems(2) in simp)
  from Cons.IH[OF e this] show ?case by (simp add: sup.assoc)
qed simp

lemma inv_bubble_agents:
  "each_do (bubble_agent_hash env) is s = Inr s' \<Longrightarrow> db_inv env (X \<union> set is) Y Z s \<Longrightarrow> db_inv env X Y Z s'"
proof (induction "is" arbitrary: s)
  case (Cons i "is")
  from Cons.prems(1) obtain s1 where b: "bubble_agent_hash env i s = Inr s1" and e: "each_do (bubble_agent_hash env) is s1 = Inr s'"
    by (auto simp: then_do_Inr)
  show ?case by (rule Cons.IH[OF e], rule inv_bubble_agent[OF b]) (use Cons.prems(2) in simp)
qed simp

lemma inv_bubble_groups:
  "each_do (bubble_group_hash env) is s = Inr s' \<Longrightarrow> db_inv env X (Y \<union> set is) Z s \<Longrightarrow> db_inv env X Y Z s'"
proof (induction "is" arbitrary: s)
  case (Cons i "is")
  from Cons.prems(1) obtain s1 where b: "bubble_group_hash env i s = Inr s1" and e: "each_do (bubble_group_hash env) is s1 = Inr s'"
    by (auto simp: then_do_Inr)
  show ?case by (rule Cons.IH[OF e], rule inv_bubble_group[OF b]) (use Cons.prems(2) in simp)
qed simp

lemma owners_of_sets: "set (owners_of ''agent'' keys) = \<Union> (agents_of ` set keys)" "set (owners_of ''group'' keys) = \<Union> (groups_of ` set keys)"
  by (auto simp: owners_of_def agents_of_def groups_of_def)

text \<open>\<open>walk\<close> goes through each owner once, in some order.\<close>

lemma inv_finalize_modified:
  assumes "finalize_modified_topics env walk modified s = Inr s'" "db_inv env X Y (Z \<union> set modified) s"
    "set (walk (owners_of ''agent'' modified)) = set (owners_of ''agent'' modified)"
    "set (walk (owners_of ''group'' modified)) = set (owners_of ''group'' modified)"
  shows "db_inv env X Y Z s'"
proof -
  from assms(1) obtain s1 s2 where e: "each_do (finalize_topic env) (sort modified) s = Inr s1"
    "each_do (bubble_agent_hash env) (walk (owners_of ''agent'' modified)) s1 = Inr s2"
    "each_do (bubble_group_hash env) (walk (owners_of ''group'' modified)) s2 = Inr s'"
    by (auto simp: finalize_modified_topics_def then_do_Inr split: if_splits)
  have "db_inv env (X \<union> \<Union> (agents_of ` set modified)) (Y \<union> \<Union> (groups_of ` set modified)) Z s1"
    using inv_finalize_topics[OF e(1), of X Y Z] assms(2) by simp
  then have "db_inv env X (Y \<union> \<Union> (groups_of ` set modified)) Z s2"
    by (intro inv_bubble_agents[OF e(2)]) (simp add: assms(3) owners_of_sets)
  then show ?thesis by (intro inv_bubble_groups[OF e(3)]) (simp add: assms(4) owners_of_sets)
qed

end
