(* ===== verification/Chat_History.thy ===== *)
theory Chat_History
  imports Chat_Messages_Laws Chat_Owners_Laws
begin

text \<open>
  What no statement undoes: a row once written stays, a deleted one stays deleted and its time does not go
  back, and no generation begins for a message that is already there.
\<close>

section \<open>Rows that stay\<close>

definition lasting :: "('r \<Rightarrow> int option) \<Rightarrow> 'r option \<Rightarrow> 'r option \<Rightarrow> bool" where
  "lasting del old new_row \<longleftrightarrow>
     (case old of
        None \<Rightarrow> True
      | Some r \<Rightarrow>
          (case new_row of
             None \<Rightarrow> False
           | Some r' \<Rightarrow>
               (case del r of
                  None \<Rightarrow> True
                | Some d \<Rightarrow> (case del r' of None \<Rightarrow> False | Some d' \<Rightarrow> d \<le> d'))))"

definition rows_last :: "('r \<Rightarrow> int option) \<Rightarrow> ('k \<times> 'r) list \<Rightarrow> ('k \<times> 'r) list \<Rightarrow> bool" where
  "rows_last del t t' \<longleftrightarrow> (\<forall>k\<in>row_keys t. lasting del (map_of t k) (map_of t' k))"

lemma lasting_simps [simp]: "lasting del None x" "lasting del x x"
  by (auto simp: lasting_def split: option.splits)

lemma lasting_trans: "lasting del a b \<Longrightarrow> lasting del b c \<Longrightarrow> lasting del a c"
  by (auto simp: lasting_def split: option.splits)

lemma rows_last_iff: "rows_last del t t' \<longleftrightarrow> (\<forall>k. lasting del (map_of t k) (map_of t' k))"
proof -
  have "lasting del (map_of t k) (map_of t' k)" if "k \<notin> row_keys t" for k using that by (simp add: row_keys_map_of)
  then show ?thesis unfolding rows_last_def by blast
qed

lemma rows_last_refl [simp]: "rows_last del t t"
  by (simp add: rows_last_iff)

lemma rows_last_trans: "rows_last del a b \<Longrightarrow> rows_last del b c \<Longrightarrow> rows_last del a c"
  unfolding rows_last_iff by (blast intro: lasting_trans)

lemma rows_last_append: "map_of t k = None \<Longrightarrow> rows_last del t (t @ [(k, n)])"
  unfolding rows_last_iff by (auto simp: map_add_def split: option.splits)

lemma rows_last_upsert:
  assumes "\<And>r. l r \<Longrightarrow> lasting del (Some r) (Some (g r))"
  shows "rows_last del t (fst (sql_upsert k n l g t))"
  unfolding rows_last_iff
proof
  fix i show "lasting del (map_of t i) (map_of (fst (sql_upsert k n l g t)) i)"
    using assms by (cases "map_of t i") (auto simp: map_of_upsert)
qed

lemma rows_last_update:
  assumes "\<And>r. l r \<Longrightarrow> lasting del (Some r) (Some (g r))"
  shows "rows_last del t (fst (sql_update k l g t))"
  unfolding rows_last_iff
proof
  fix i show "lasting del (map_of t i) (map_of (fst (sql_update k l g t)) i)"
    using assms by (cases "map_of t i") (auto simp: map_of_update)
qed

lemma rows_last_update_all:
  assumes "\<And>k r. hit k r \<Longrightarrow> lasting del (Some r) (Some (g r))"
  shows "rows_last del t (sql_update_all hit g t)"
  unfolding rows_last_iff
proof
  fix i show "lasting del (map_of t i) (map_of (sql_update_all hit g t) i)"
    using assms by (cases "map_of t i") (auto simp: map_of_update_all)
qed

lemma lasting_live: "del r = None \<Longrightarrow> lasting del (Some r) (Some r')"
  by (simp add: lasting_def)

lemma lasting_same: "del r' = del r \<Longrightarrow> lasting del (Some r) (Some r')"
  by (auto simp: lasting_def split: option.splits)

lemma rows_kept_last: "rows_kept del t t' \<Longrightarrow> rows_last del t t'"
  unfolding rows_kept_iff rows_last_iff
  by (auto simp: row_kept_def lasting_def split: option.splits) (metis option.distinct(1) option.inject order_refl)+

section \<open>The history of the database\<close>

definition history :: "'f tables \<Rightarrow> 'f tables \<Rightarrow> bool" where
  "history s s' \<longleftrightarrow>
     rows_last ar_deleted_at (tb_agents s) (tb_agents s') \<and>
     rows_last gr_deleted_at (tb_groups s) (tb_groups s') \<and>
     rows_last vr_deleted_at (tb_avatars s) (tb_avatars s') \<and>
     rows_last tr_deleted_at (tb_topics s) (tb_topics s') \<and>
     rows_last mr_deleted_at (tb_messages s) (tb_messages s') \<and>
     row_keys (tb_active s') \<inter> row_keys (tb_messages s) \<subseteq> row_keys (tb_active s)"

lemma history_refl [simp]: "history s s"
  by (simp add: history_def)

lemma rows_last_keys: "rows_last del t t' \<Longrightarrow> row_keys t \<subseteq> row_keys t'"
  unfolding rows_last_iff row_keys_map_of[abs_def] by (auto simp: row_keys_map_of lasting_def split: option.splits) (metis not_None_eq option.simps(5))

lemma history_trans:
  assumes "history a b" "history b c"
  shows "history a c"
proof -
  have "row_keys (tb_messages a) \<subseteq> row_keys (tb_messages b)"
    using assms(1) unfolding history_def by (blast dest: rows_last_keys)
  moreover have "row_keys (tb_active b) \<inter> row_keys (tb_messages a) \<subseteq> row_keys (tb_active a)"
    "row_keys (tb_active c) \<inter> row_keys (tb_messages b) \<subseteq> row_keys (tb_active b)"
    using assms by (simp_all add: history_def)
  ultimately have "row_keys (tb_active c) \<inter> row_keys (tb_messages a) \<subseteq> row_keys (tb_active a)" by blast
  then show ?thesis using assms unfolding history_def by (blast intro: rows_last_trans)
qed

lemma history_active: "row_keys (tb_active s') \<subseteq> row_keys (tb_active s) \<Longrightarrow>
    tb_agents s' = tb_agents s \<Longrightarrow> tb_groups s' = tb_groups s \<Longrightarrow> tb_avatars s' = tb_avatars s \<Longrightarrow>
    tb_topics s' = tb_topics s \<Longrightarrow> tb_messages s' = tb_messages s \<Longrightarrow> history s s'"
  by (auto simp: history_def)

lemma each_history: "each_do f xs s = Inr s' \<Longrightarrow> (\<And>x a b. x \<in> set xs \<Longrightarrow> f x a = Inr b \<Longrightarrow> history a b) \<Longrightarrow> history s s'"
  by (erule each_do_rule[where P = "history s"]) (auto intro: history_trans)

section \<open>Hashes\<close>

lemma history_update_topic:
  "(\<And>r. tr_deleted_at (g r) = tr_deleted_at r) \<Longrightarrow> history s (s\<lparr>tb_topics := fst (sql_update k l g (tb_topics s))\<rparr>)"
  by (auto simp: history_def intro!: rows_last_update lasting_same)

lemma history_topic_hashes:
  "update_topic_hashes env key g s = Inr (activity, s') \<Longrightarrow> (\<And>r. tr_deleted_at (g r) = tr_deleted_at r) \<Longrightarrow> history s s'"
  by (auto simp: update_topic_hashes_success intro: history_update_topic)

lemma history_bubble_topic: "bubble_topic_hash env key s = Inr (activity, s') \<Longrightarrow> history s s'"
  by (auto simp: bubble_topic_hash_success elim!: history_topic_hashes)

lemma history_refresh_topic: "refresh_topic_content_hash env key s = Inr (activity, s') \<Longrightarrow> history s s'"
  by (auto simp: refresh_topic_success elim!: history_topic_hashes)

lemma history_bubble_agent: "bubble_agent_hash env i s = Inr s' \<Longrightarrow> history s s'"
  by (auto simp: bubble_agent_hash_eq bubble_agent_success history_def intro!: rows_last_update lasting_same)

lemma history_bubble_group: "bubble_group_hash env i s = Inr s' \<Longrightarrow> history s s'"
  by (auto simp: bubble_group_hash_eq bubble_group_success history_def intro!: rows_last_update lasting_same)

lemma history_bubble_owner: "bubble_owner_hash env key s s' \<Longrightarrow> history s s'"
  by (auto simp: bubble_owner_hash_def intro: history_bubble_agent history_bubble_group)

lemma history_bubble: "bubble_from_topic env key s = Inr (activity, s') \<Longrightarrow> history s s'"
  by (auto simp: bubble_from_topic_success intro: history_trans history_bubble_topic history_bubble_owner)

lemma history_recompute: "recompute_group_config_hash env now i s = Inr s' \<Longrightarrow> history s s'"
  by (auto simp: recompute_group_success rehashed_group_def history_def intro!: rows_last_update lasting_same)

section \<open>Deletions\<close>

lemma history_delete_children: "history s (delete_children doomed s)"
  by (rule history_active) (auto simp: delete_children_fields row_keys_def)

lemma history_hide: "history s (fst (hide_messages hit now s))"
  by (auto simp: history_def hide_messages_fields intro!: rows_last_update_all lasting_live)

lemma history_delete_owned: "history s (delete_owned ot oi now s)"
proof -
  have "row_keys (tb_active (delete_owned ot oi now s)) \<subseteq> row_keys (tb_active s)"
    by (auto simp: delete_owned_def Let_def delete_active_def sql_delete_def row_keys_def delete_avatar_row_def
        delete_render_def delete_message_attachments_def hide_messages_def delete_topics_def)
  then show ?thesis
    by (auto simp: history_def intro!: rows_last_update_all rows_last_update lasting_live)
qed

lemma history_delete_agent_rows: "delete_agent_rows env now clock i b s = Inr (out, s') \<Longrightarrow> history s s'"
proof -
  assume a: "delete_agent_rows env now clock i b s = Inr (out, s')"
  then obtain s1 where s1: "s1 = s \<or> s1 = s\<lparr>tb_agents := fst (sql_update i (\<lambda>r. ar_deleted_at r = None)
      (\<lambda>r. r\<lparr>ar_deleted_at := Some now\<rparr>) (tb_agents s))\<rparr>"
    and e: "each_do (recompute_group_config_hash env clock) (affected_group_ids i s)
      ((delete_owned ''agent'' i now s1)\<lparr>tb_members := sql_delete (\<lambda>((g, m), r). m = i) (tb_members s1)\<rparr>) = Inr s'"
    by (cases b) (fastforce simp: delete_agent_rows_def then_do_Inr Let_def split: prod.splits if_splits)+
  have "history s s1" using s1 by (auto simp: history_def intro!: rows_last_update lasting_live)
  moreover have "history s1 ((delete_owned ''agent'' i now s1)\<lparr>tb_members := sql_delete (\<lambda>((g, m), r). m = i) (tb_members s1)\<rparr>)"
    using history_delete_owned[of s1 "''agent''" i now] by (simp add: history_def)
  moreover have "history ((delete_owned ''agent'' i now s1)\<lparr>tb_members := sql_delete (\<lambda>((g, m), r). m = i) (tb_members s1)\<rparr>) s'"
    using e by (rule each_history) (rule history_recompute)
  ultimately show "history s s'" by (blast intro: history_trans)
qed

lemma history_delete_agent: "delete_agent_internal env requested clock clock2 i s = Inr (out, s') \<Longrightarrow> history s s'"
proof -
  assume a: "delete_agent_internal env requested clock clock2 i s = Inr (out, s')"
  have "history s (s\<lparr>tb_agents := tb_agents s @ [(i, r)]\<rparr>)" if "map_of (tb_agents s) i = None" for r
    using that by (simp add: history_def rows_last_append)
  then show ?thesis using a
    by (auto simp: delete_agent_internal_def Let_def dest!: history_delete_agent_rows intro: history_trans split: if_splits option.splits)
qed

lemma history_delete_group_rows: "delete_group_rows now i b s = Inr (out, s') \<Longrightarrow> history s s'"
proof -
  assume a: "delete_group_rows now i b s = Inr (out, s')"
  then obtain s1 where s1: "s1 = s \<or> s1 = s\<lparr>tb_groups := fst (sql_update i (\<lambda>r. gr_deleted_at r = None)
      (\<lambda>r. r\<lparr>gr_deleted_at := Some now\<rparr>) (tb_groups s))\<rparr>"
    and e: "s' = (delete_owned ''group'' i now s1)\<lparr>tb_members := sql_delete (\<lambda>((g, m), r). g = i) (tb_members s1)\<rparr>"
    by (cases b) (fastforce simp: delete_group_rows_def then_do_Inr Let_def split: prod.splits if_splits)+
  have "history s s1" using s1 by (auto simp: history_def intro!: rows_last_update lasting_live)
  moreover have "history s1 s'" using history_delete_owned[of s1 "''group''" i now] by (simp add: e history_def)
  ultimately show "history s s'" by (blast intro: history_trans)
qed

lemma history_delete_group: "delete_group_internal requested clock i s = Inr (out, s') \<Longrightarrow> history s s'"
proof -
  assume a: "delete_group_internal requested clock i s = Inr (out, s')"
  have "history s (s\<lparr>tb_groups := tb_groups s @ [(i, r)]\<rparr>)" if "map_of (tb_groups s) i = None" for r
    using that by (simp add: history_def rows_last_append)
  then show ?thesis using a
    by (auto simp: delete_group_internal_def Let_def dest!: history_delete_group_rows intro: history_trans split: if_splits option.splits)
qed

lemma history_insert_topic: "insert_topic env key r s = Inr s' \<Longrightarrow> history s s'"
  by (auto simp: insert_topic_def history_def intro: rows_last_append split: if_splits)

lemma history_replacement: "add_replacement env replacement s = Inr s' \<Longrightarrow> history s s'"
  by (auto simp: add_replacement_def then_do_Inr intro: history_trans history_insert_topic history_bubble_topic
      split: option.splits)

lemma history_delete_live_topic: "delete_live_topic env key now candidate s = Inr (out, s') \<Longrightarrow> history s s'"
proof -
  assume a: "delete_live_topic env key now candidate s = Inr (out, s')"
  let ?s1 = "s\<lparr>tb_topics := fst (sql_update key (\<lambda>r. tr_deleted_at r = None) (\<lambda>r. r\<lparr>tr_deleted_at := Some now\<rparr>) (tb_topics s))\<rparr>"
  let ?s3 = "delete_children (of_topic key) (fst (hide_messages (\<lambda>mk r. of_topic key mk) now ?s1))"
  from a obtain replacement s4 where add: "add_replacement env replacement ?s3 = Inr s4" and b: "bubble_owner_hash env key s4 s'"
    by (auto simp: delete_live_topic_def Let_def then_do_Inr bubble_owner_hash_def split: prod.splits if_splits)
  have "history s ?s1" by (auto simp: history_def intro!: rows_last_update lasting_live)
  then have "history s ?s3" by (blast intro: history_trans history_hide history_delete_children)
  then show ?thesis using history_replacement[OF add] history_bubble_owner[OF b] by (blast intro: history_trans)
qed

lemma history_delete_topic_data:
  assumes "delete_topic_data_inner env key now candidate s = Inr (out, s')"
  shows "history s s'"
proof (cases "map_of (tb_topics s) key")
  case None
  then show ?thesis using assms
    by (auto simp: delete_topic_data_inner_def Let_def history_def rows_last_append split: if_splits)
next
  case (Some r)
  show ?thesis
  proof (cases "tr_deleted_at r")
    case None
    then show ?thesis using assms Some
      by (auto simp: delete_topic_data_inner_def Let_def then_do_Inr dest!: history_delete_live_topic split: if_splits)
  next
    case (Some stored)
    let ?t = "fst (sql_update key (\<lambda>r. True) (\<lambda>r. r\<lparr>tr_deleted_at := Some now, tr_updated_at := max (tr_updated_at r) now,
        tr_config_hash := SYNC_TOMBSTONE_HASH, tr_content_hash := SYNC_TOMBSTONE_HASH\<rparr>) (tb_topics s))"
    have "rows_last tr_deleted_at (tb_topics s) ?t" if "stored < now"
      unfolding rows_last_iff
    proof
      fix k show "lasting tr_deleted_at (map_of (tb_topics s) k) (map_of ?t k)"
        using that Some \<open>map_of (tb_topics s) key = Some r\<close> by (cases "k = key") (auto simp: map_of_update lasting_def)
    qed
    then show ?thesis using assms Some \<open>map_of (tb_topics s) key = Some r\<close>
      by (auto simp: delete_topic_data_inner_def Let_def history_def split: if_splits)
  qed
qed

lemma history_delete_topic: "delete_topic env key now s = Inr (out, s') \<Longrightarrow> history s s'"
  by (auto simp: delete_topic_def Let_def then_do_Inr dest!: history_delete_topic_data split: option.splits)

lemma lasting_later: "lasting mr_deleted_at (Some r) (Some (set_message_tombstone d r))"
  "lasting vr_deleted_at (Some v) (Some (set_avatar_tombstone d v))"
  by (auto simp: lasting_def set_message_tombstone_def set_avatar_tombstone_def later_deletion_def split: option.splits)

lemma history_tombstone: "history s (tombstone_message key tomb s)"
  by (auto simp: tombstone_message_def Let_def history_def intro!: rows_last_upsert lasting_later)

lemma history_tombstones: "history s (fold (tombstone_message key) tombs s)"
  by (induction tombs arbitrary: s) (auto intro: history_trans history_tombstone)

lemma history_tombstone_chunk: "history s (snd (tombstone_chunk key chunk (ids, s)))"
  by (auto simp: tombstone_chunk_def Let_def intro: history_trans history_tombstones history_delete_children)

lemma history_tombstone_chunks: "history s (snd (fold (tombstone_chunk key) tombs (ids, s)))"
proof (induction tombs arbitrary: ids s)
  case (Cons c cs)
  obtain ids1 s1 where s1: "tombstone_chunk key c (ids, s) = (ids1, s1)" by fastforce
  then have "history s s1" using history_tombstone_chunk[of s key c ids] by simp
  then show ?case using Cons.IH[of s1 ids1] s1 by (auto intro: history_trans)
qed simp

lemma history_soft_delete_messages: "soft_delete_messages key tombstones s = Inr (ids, s') \<Longrightarrow> history s s'"
  using history_tombstone_chunks[of s key "chunks_of 400 tombstones" "[]"]
  by (auto simp: soft_delete_messages_def apply_sync_message_tombstones_def split: if_splits)

lemma history_delete_messages: "delete_messages env key ids now s = Inr (out, s') \<Longrightarrow> history s s'"
proof (cases "ids = []")
  case False
  assume "delete_messages env key ids now s = Inr (out, s')"
  then obtain activity where "bubble_from_topic env key
      (delete_children (one_of key ids) (fst (hide_messages (\<lambda>mk r. one_of key ids mk) now s))) = Inr (activity, s')"
    using False by (auto simp: delete_messages_def Let_def then_do_Inr split: prod.splits if_splits)
  then show ?thesis by (blast intro: history_trans history_hide history_delete_children history_bubble)
qed (auto simp: delete_messages_def then_do_Inr)

lemma history_truncate: "truncate_history_after_message env key anchor now s = Inr (out, s') \<Longrightarrow> history s s'"
proof -
  assume a: "truncate_history_after_message env key anchor now s = Inr (out, s')"
  then obtain doomed later activity where "bubble_from_topic env key
      (fst (hide_messages later now (delete_children doomed s))) = Inr (activity, s')"
    by (fastforce simp: truncate_history_after_message_def Let_def then_do_Inr split_def split: if_splits option.splits)
  then show ?thesis by (blast intro: history_trans history_hide history_delete_children history_bubble)
qed

lemma history_soft_delete_avatar: "soft_delete_avatar ot oi deleted_at s = Inr s' \<Longrightarrow> history s s'"
  by (auto simp: soft_delete_avatar_def history_def intro!: rows_last_upsert lasting_later split: if_splits)

lemma history_cleanup: "history s (cleanup_old_deleted_records now days s)"
  by (auto simp: cleanup_old_deleted_records_def Let_def delete_render_def history_def
      intro!: rows_last_update_all lasting_same)

section \<open>Messages and generations\<close>

lemma history_attachments: "attachments_step mk s s' \<Longrightarrow> history s s'"
  by (rule history_active) (auto simp: attachments_step_def)

lemma history_upsert_message:
  assumes "upsert_message env now key msg render skip_bubble s = Inr (out, s')"
  shows "history s s'"
proof -
  obtain existing new_row s4 where st: "message_stored env now key msg skip_bubble existing new_row s s4 out s'"
    using upsert_message_success[OF assms] by blast
  then obtain s3 where w: "message_written (MessageKey key (cm_id msg)) new_row existing s s3"
      "attachments_step (MessageKey key (cm_id msg)) s3 s4"
    and b: "s' = s4 \<or> (\<exists>activity. bubble_from_topic env key s4 = Inr (activity, s'))"
    unfolding message_stored_def by (auto split: if_splits)
  have "history s s3" using w(1)
    by (auto simp: message_written_def history_def intro!: rows_last_upsert lasting_same)
  then have "history s s4" using history_attachments[OF w(2)] by (blast intro: history_trans)
  then show ?thesis using b by (auto intro: history_trans history_bubble)
qed

lemma history_append_message: "append_single_message env resolve now key blocks msg s = Inr (out, s') \<Longrightarrow> history s s'"
  by (auto simp: append_single_message_def dest!: write_one_message_success intro: history_upsert_message)

lemma history_patch_message: "patch_single_message env resolve now key blocks msg skip_bubble s = Inr (out, s') \<Longrightarrow> history s s'"
  by (auto simp: patch_single_message_def dest!: write_one_message_success intro: history_upsert_message)

lemma history_begin_stream: "begin_stream_message env mk agent_id agent_name now s = Inr s' \<Longrightarrow> history s s'"
proof -
  assume "begin_stream_message env mk agent_id agent_name now s = Inr s'"
  from begin_stream_success[OF this] obtain row render activity where
    b: "bubble_from_topic env (mk_topic mk) (stream_begun mk row render now s) = Inr (activity, s')"
    and none: "map_of (tb_messages s) mk = None" by blast
  have "mk \<notin> row_keys (tb_messages s)" using none by (simp add: row_keys_map_of)
  then have "history s (stream_begun mk row render now s)"
    using none by (auto simp: stream_begun_def history_def rows_last_append row_keys_def)
  then show ?thesis using history_bubble[OF b] by (rule history_trans)
qed

lemma history_commit_stream:
  "commit_stream_message env mk content final_ts reason agent_id agent_name s = Inr (out, s') \<Longrightarrow> history s s'"
proof -
  assume "commit_stream_message env mk content final_ts reason agent_id agent_name s = Inr (out, s')"
  from commit_stream_success[OF this] obtain hash render activity where
    b: "bubble_from_topic env (mk_topic mk)
      (stream_committed mk (ended_row (mk_topic mk) content reason hash final_ts) render content s) = Inr (activity, s')"
    by blast
  have "history s (stream_committed mk (ended_row (mk_topic mk) content reason hash final_ts) render content s)"
    by (auto simp: stream_committed_def history_def sql_delete_def row_keys_def ended_row_def intro!: rows_last_update lasting_same)
  then show ?thesis using history_bubble[OF b] by (rule history_trans)
qed

lemma history_finalize_stream:
  "finalize_stream_message env mk full ab reason agent_id now s_read s s_after = (result, told, s') \<Longrightarrow> history s s'"
  by (auto simp: finalize_stream_message_def Let_def intro: history_commit_stream split: if_splits sum.splits)

lemma history_render: "history s (s\<lparr>tb_render := t\<rparr>)"
  by (simp add: history_def)

lemma history_write_render_cache: "write_render_cache_cas mk hash render now s = (out, s') \<Longrightarrow> history s s'"
  by (auto simp: write_render_cache_cas_def Let_def history_render split: prod.splits if_splits)

lemma history_update_render_cache: "update_render_cache_if_current mk hash render now s = (out, s') \<Longrightarrow> history s s'"
  by (auto simp: update_render_cache_if_current_def history_render split: prod.splits)

lemma history_delete_attachment:
  assumes "delete_message_attachment_in_db env mk position hash now s = Inr (activity, s')"
  shows "history s s'"
  using delete_attachment_success[OF assms]
proof (elim disjE exE conjE)
  fix r new_hash updated_at
  let ?s1 = "s\<lparr>tb_relations := sql_delete (\<lambda>(k, r). k = (mk, position) \<and> rl_hash r = hash) (tb_relations s),
         tb_messages := fst (sql_update mk (\<lambda>r. mr_deleted_at r = None)
           (\<lambda>r. r\<lparr>mr_content_hash := new_hash, mr_updated_at := updated_at\<rparr>) (tb_messages s))\<rparr>"
  assume "bubble_from_topic env (mk_topic mk) ?s1 = Inr (activity, s')"
  moreover have "history s ?s1" by (auto simp: history_def intro!: rows_last_update lasting_same)
  ultimately show ?thesis by (blast intro: history_trans history_bubble)
qed simp

section \<open>Owners\<close>

lemma history_change_topic:
  assumes "change_topic env row_key bubbled differs set_row now s = Inr (out, s')"
    "\<And>r. tr_deleted_at (set_row r) = tr_deleted_at r"
  shows "history s s'"
  using assms(1) history_update_topic[of set_row s row_key "\<lambda>r. tr_deleted_at r = None \<and> differs r"] assms(2)
  by (auto simp: change_topic_def then_do_Inr intro: history_trans history_bubble split: prod.splits if_splits)

lemma history_create_topic: "create_topic env ot oi name now s = Inr (topic, s') \<Longrightarrow> history s s'"
  by (auto simp: create_topic_def Let_def then_do_Inr intro: history_trans history_insert_topic history_bubble split: sum.splits)

lemma history_topic_title: "update_topic_title env key title expected now s = Inr (out, s') \<Longrightarrow> history s s'"
  by (auto simp: update_topic_title_def elim!: history_change_topic)

lemma history_topic_lock: "toggle_topic_lock env key locked now s = Inr (out, s') \<Longrightarrow> history s s'"
  by (auto simp: toggle_topic_lock_def elim!: history_change_topic)

lemma history_topic_unread: "set_topic_unread_in_db env key unread now s = Inr (out, s') \<Longrightarrow> history s s'"
proof -
  assume a: "set_topic_unread_in_db env key unread now s = Inr (out, s')"
  have "history s (s\<lparr>tb_topics := fst (sql_update key (\<lambda>r. tr_deleted_at r = None \<and> tr_unread_count r \<noteq> 0)
      (\<lambda>r. r\<lparr>tr_unread_count := 0\<rparr>) (tb_topics s))\<rparr>)" by (rule history_update_topic) simp
  then show ?thesis using a
    by (auto simp: set_topic_unread_in_db_def then_do_Inr Let_def dest!: history_change_topic intro: history_trans split: if_splits)
qed

lemma history_topic_unread_count: "increment_topic_unread_count env key now s = Inr (out, s') \<Longrightarrow> history s s'"
proof -
  assume a: "increment_topic_unread_count env key now s = Inr (out, s')"
  let ?s1 = "s\<lparr>tb_topics := fst (sql_update key (\<lambda>r. tr_deleted_at r = None)
      (\<lambda>r. r\<lparr>tr_unread_count := tr_unread_count r + 1\<rparr>) (tb_topics s))\<rparr>"
  obtain o1 where "change_topic env key key (\<lambda>r. \<not> tr_unread r) (\<lambda>r. r\<lparr>tr_unread := True, tr_updated_at := now\<rparr>) now ?s1 = Inr (o1, s')"
    using a by (auto simp: increment_topic_unread_count_def then_do_Inr split: prod.splits if_splits option.splits)
  then have "history ?s1 s'" by (rule history_change_topic) simp
  moreover have "history s ?s1" by (rule history_update_topic) simp
  ultimately show ?thesis by (blast intro: history_trans)
qed

lemma history_write_agent: "internal_write_agent_config env cached i config now s = Inr (out, s') \<Longrightarrow> history s s'"
  by (auto simp: internal_write_agent_config_def Let_def history_def intro!: rows_last_upsert lasting_same split: if_splits)

lemma history_write_group: "internal_write_group_config env i config now s = Inr (out, s') \<Longrightarrow> history s s'"
  by (auto simp: internal_write_group_config_def Let_def then_do_Inr history_def intro!: rows_last_upsert lasting_same split: if_splits)

lemma history_first_topic: "first_topic env key title now s = Inr s' \<Longrightarrow> history s s'"
  by (auto simp: first_topic_def then_do_Inr intro: history_trans history_insert_topic history_bubble_topic)

lemma history_create_agent: "create_agent env name now s = Inr (out, s') \<Longrightarrow> history s s'"
proof -
  assume a: "create_agent env name now s = Inr (out, s')"
  have new: "history s (s\<lparr>tb_agents := tb_agents s @ [(i, r)]\<rparr>)" if "map_of (tb_agents s) i = None" for i r
    using that by (simp add: history_def rows_last_append)
  show ?thesis using a
    by (auto simp: create_agent_def Let_def then_do_Inr dest!: history_first_topic history_bubble_agent
        intro: history_trans[OF new] history_trans split: if_splits)
qed

lemma history_create_group: "create_group env name now s = Inr (out, s') \<Longrightarrow> history s s'"
proof -
  assume a: "create_group env name now s = Inr (out, s')"
  have new: "history s (s\<lparr>tb_groups := tb_groups s @ [(i, r)]\<rparr>)" if "map_of (tb_groups s) i = None" for i r
    using that by (simp add: history_def rows_last_append)
  show ?thesis using a
    by (auto simp: create_group_def Let_def then_do_Inr dest!: history_first_topic history_bubble_group
        intro: history_trans[OF new] history_trans split: if_splits)
qed

lemma history_save_avatar: "save_avatar_data env ot oi mime bytes now s = Inr (out, s') \<Longrightarrow> history s s'"
proof -
  assume a: "save_avatar_data env ot oi mime bytes now s = Inr (out, s')"
  then obtain l n g where "s' = s\<lparr>tb_avatars := fst (sql_upsert (ot, oi) n l g (tb_avatars s))\<rparr>"
    "l = (\<lambda>r. vr_deleted_at r = None)" by (auto simp: save_avatar_data_def split_def split: if_splits)
  then show ?thesis by (auto simp: history_def intro!: rows_last_upsert lasting_live)
qed

lemma history_dominant_color: "store_dominant_color ot oi color hash s = Inr (out, s') \<Longrightarrow> history s s'"
  by (auto simp: store_dominant_color_def split_def history_def intro!: rows_last_update lasting_same split: if_splits)

lemma history_finalize_topic: "finalize_topic env key s = Inr s' \<Longrightarrow> history s s'"
  by (cases "refresh_topic_content_hash env key s")
    (auto simp: finalize_topic_def then_do_def intro: history_refresh_topic split: if_splits)

lemma history_finalize_modified: "finalize_modified_topics env walk modified s = Inr s' \<Longrightarrow> history s s'"
proof -
  assume a: "finalize_modified_topics env walk modified s = Inr s'"
  then obtain s1 s2 where e: "each_do (finalize_topic env) (sort modified) s = Inr s1"
    "each_do (bubble_agent_hash env) (walk (owners_of ''agent'' modified)) s1 = Inr s2"
    "each_do (bubble_group_hash env) (walk (owners_of ''group'' modified)) s2 = Inr s'"
    by (auto simp: finalize_modified_topics_def then_do_Inr split: if_splits)
  have "history s s1" by (rule each_history[OF e(1)]) (rule history_finalize_topic)
  moreover have "history s1 s2" by (rule each_history[OF e(2)]) (rule history_bubble_agent)
  moreover have "history s2 s'" by (rule each_history[OF e(3)]) (rule history_bubble_group)
  ultimately show ?thesis by (blast intro: history_trans)
qed

end
