(* ===== verification/Write_Queue.thy ===== *)
theory Write_Queue
  imports Sync_Upserts
begin

text \<open>
  The write queue of the synchronisation (\<open>persistence/db_write_queue.rs\<close>): one worker collects the
  tasks of the channel into batches, coalesces neighbouring message tasks of one topic and runs each
  batch in one transaction; a flush answers with what went wrong since the last answer that was heard.
  The channel is the list of what the worker receives, with \<open>EvQuiet\<close> where a batch window elapses; its
  end is the closed channel. The SQL statements and the faults of a transaction are \<open>queue_env\<close>.
\<close>

section \<open>Tasks\<close>

datatype 'f write_task =
    WAgent string "'f agent_dto"
  | WGroup string group_dto
  | WAvatar string string string string
  | WAgentTopics "(topic_key \<times> agent_topic_dto) list"
  | WGroupTopics "(topic_key \<times> group_topic_dto) list"
  | WMessages topic_key "message_write list"

text \<open>A flush has a number; \<open>heard\<close>: its caller still waits when the answer is sent.\<close>

datatype 'f queue_event = EvTask "'f write_task" | EvFlush nat bool | EvQuiet

definition MAX_TASKS_PER_TRANSACTION :: nat where "MAX_TASKS_PER_TRANSACTION = 32"

definition MAX_MESSAGES_PER_TRANSACTION :: nat where "MAX_MESSAGES_PER_TRANSACTION = 500"

fun task_message_count :: "'f write_task \<Rightarrow> nat" where
  "task_message_count (WMessages key writes) = length writes"
| "task_message_count other = 0"

section \<open>Batches\<close>

record 'f collected =
  cb_tasks :: "'f write_task list"
  cb_flush :: "(nat \<times> bool) option"
  cb_carried :: "'f write_task option"
  cb_rest :: "'f queue_event list"

definition closed_batch ::
  "'f write_task list \<Rightarrow> (nat \<times> bool) option \<Rightarrow> 'f write_task option \<Rightarrow>
     'f queue_event list \<Rightarrow> 'f collected" where
  "closed_batch tasks flush carried rest =
     \<lparr>cb_tasks = tasks, cb_flush = flush, cb_carried = carried, cb_rest = rest\<rparr>"

definition does_not_fit :: "nat \<Rightarrow> nat \<Rightarrow> bool" where
  "does_not_fit so_far next_count \<longleftrightarrow>
     0 < next_count \<and> 0 < so_far \<and> MAX_MESSAGES_PER_TRANSACTION < so_far + next_count"

fun collect_from ::
  "'f write_task list \<Rightarrow> nat \<Rightarrow> 'f queue_event list \<Rightarrow> 'f collected" where
  "collect_from tasks msg_count [] = closed_batch tasks None None []"
| "collect_from tasks msg_count (e # es) =
     (if length tasks < MAX_TASKS_PER_TRANSACTION \<and> msg_count < MAX_MESSAGES_PER_TRANSACTION
      then (case e of
          EvQuiet \<Rightarrow> closed_batch tasks None None es
        | EvFlush i heard \<Rightarrow> closed_batch tasks (Some (i, heard)) None es
        | EvTask t \<Rightarrow>
            (let n = task_message_count t
             in if does_not_fit msg_count n then closed_batch tasks None (Some t) es
                else collect_from (tasks @ [t]) (msg_count + n) es))
      else closed_batch tasks None None (e # es))"

definition collect_batch ::
  "'f write_task \<Rightarrow> 'f queue_event list \<Rightarrow> 'f collected" where
  "collect_batch first es = collect_from [first] (task_message_count first) es"

section \<open>Coalescing\<close>

definition ids_disjoint :: "message_write list \<Rightarrow> message_write list \<Rightarrow> bool" where
  "ids_disjoint previous writes \<longleftrightarrow> (\<forall>w\<in>set writes. cm_id (mw_message w) \<notin> (\<lambda>p. cm_id (mw_message p)) ` set previous)"

fun merge_tasks :: "'f write_task \<Rightarrow> 'f write_task \<Rightarrow> 'f write_task option" where
  "merge_tasks (WMessages k previous) (WMessages key writes) =
     (if k = key \<and> length previous + length writes \<le> MAX_MESSAGES_PER_TRANSACTION \<and> ids_disjoint previous writes
      then Some (WMessages k (previous @ writes)) else None)"
| "merge_tasks previous task = None"

text \<open>\<open>done_tasks\<close> is the vector built so far.\<close>

fun coalesce_onto :: "'f write_task list \<Rightarrow> 'f write_task list \<Rightarrow> 'f write_task list" where
  "coalesce_onto done_tasks [] = done_tasks"
| "coalesce_onto done_tasks (t # ts) =
     (case (if done_tasks = [] then None else merge_tasks (last done_tasks) t) of
        Some merged \<Rightarrow> coalesce_onto (butlast done_tasks @ [merged]) ts
      | None \<Rightarrow> coalesce_onto (done_tasks @ [t]) ts)"

definition coalesce_adjacent_topic_message_tasks ::
  "'f write_task list \<Rightarrow> 'f write_task list" where
  "coalesce_adjacent_topic_message_tasks tasks = coalesce_onto [] tasks"

section \<open>One transaction\<close>

text \<open>What can go wrong in a transaction beside the contracts of its statements: the connection, the
  engine in BEGIN or in a statement, COMMIT, or a panic. Each rolls everything back.\<close>

record faults =
  ft_open :: "string option"
  ft_engine :: "string option"
  ft_commit :: "string option"
  ft_panic :: "string option"

text \<open>\<open>qe_now\<close> and \<open>qe_metadata\<close>: the clock and the file system during a transaction, by its number.\<close>

record 'f queue_env =
  qe_store :: "'f store_env"
  qe_now :: "nat \<Rightarrow> nat \<Rightarrow> int"
  qe_metadata :: "nat \<Rightarrow> nat \<Rightarrow> string \<Rightarrow> string \<Rightarrow> file_answer"
  qe_debug :: "string list \<Rightarrow> string"
  qe_poison :: string
  qe_faults :: "nat \<Rightarrow> faults"

definition transaction_env :: "'f queue_env \<Rightarrow> nat \<Rightarrow> 'f store_env" where
  "transaction_env env n = (qe_store env)\<lparr>se_now := qe_now env n, se_metadata := qe_metadata env n\<rparr>"

fun run_task :: "'f store_env \<Rightarrow> nat \<Rightarrow> 'f write_task \<Rightarrow> 'f tables \<Rightarrow> string + 'f tables" where
  "run_task env k (WAgent i dto) s = rusqlite_upsert_agent env k i dto s"
| "run_task env k (WGroup i dto) s = rusqlite_upsert_group env k i dto s"
| "run_task env k (WAvatar ot oi mime bytes) s = rusqlite_upsert_avatar env k ot oi mime bytes s"
| "run_task env k (WAgentTopics topics) s = each_do (\<lambda>(key, dto). rusqlite_upsert_agent_topic key dto) topics s"
| "run_task env k (WGroupTopics topics) s = each_do (\<lambda>(key, dto). rusqlite_upsert_group_topic key dto) topics s"
| "run_task env k (WMessages key writes) s = rusqlite_upsert_messages_batch env k key writes s"

fun run_tasks :: "'f store_env \<Rightarrow> nat \<Rightarrow> 'f write_task list \<Rightarrow> 'f tables \<Rightarrow> string + 'f tables" where
  "run_tasks env k [] s = Inr s"
| "run_tasks env k (t # ts) s = then_do (run_task env k t s) (run_tasks env (Suc k) ts)"

text \<open>The owners whose root hashes are refreshed, once each, in order.\<close>

fun affected_agents :: "'f write_task \<Rightarrow> string list" where
  "affected_agents (WAgentTopics topics) = map (\<lambda>(key, dto). tk_owner_id key) topics"
| "affected_agents other = []"

fun affected_groups :: "'f write_task \<Rightarrow> string list" where
  "affected_groups (WGroupTopics topics) = map (\<lambda>(key, dto). tk_owner_id key) topics"
| "affected_groups other = []"

definition requested_owners :: "string list \<Rightarrow> string list" where
  "requested_owners owners = sort (remdups owners)"

definition live_ids :: "('r \<Rightarrow> int option) \<Rightarrow> (string \<times> 'r) list \<Rightarrow> string list \<Rightarrow> string list" where
  "live_ids deleted_at t chunk = map fst (filter (\<lambda>(i, r). i \<in> set chunk \<and> deleted_at r = None) t)"

definition refresh_owners ::
  "(string list \<Rightarrow> string) \<Rightarrow> string \<Rightarrow> (string list \<Rightarrow> string list) \<Rightarrow>
     (string \<Rightarrow> 'f tables \<Rightarrow> string + 'f tables) \<Rightarrow> string list \<Rightarrow> 'f tables \<Rightarrow> string + 'f tables" where
  "refresh_owners debug message live bubble owners s =
     (if owners = [] then Inr s
      else
        let requested = requested_owners owners;
            valid = concat (map live (chunks_of 400 requested))
        in if set valid \<noteq> set requested
           then Inl (message @ debug (filter (\<lambda>i. i \<notin> set valid) requested))
           else each_do bubble requested s)"

definition refresh_agents ::
  "'f queue_env \<Rightarrow> 'f write_task list \<Rightarrow> 'f tables \<Rightarrow> string + 'f tables" where
  "refresh_agents env tasks s =
     refresh_owners (qe_debug env) ''Agent hash bubble is missing live owners ''
       (live_ids ar_deleted_at (tb_agents s)) (rusqlite_bubble_agent_hash (qe_store env))
       (concat (map affected_agents tasks)) s"

definition refresh_groups ::
  "'f queue_env \<Rightarrow> 'f write_task list \<Rightarrow> 'f tables \<Rightarrow> string + 'f tables" where
  "refresh_groups env tasks s =
     refresh_owners (qe_debug env) ''Group hash bubble is missing live owners ''
       (live_ids gr_deleted_at (tb_groups s)) (rusqlite_bubble_group_hash (qe_store env))
       (concat (map affected_groups tasks)) s"

text \<open>The statements between BEGIN and COMMIT of the transaction with number \<open>n\<close>.\<close>

definition run_statements ::
  "'f queue_env \<Rightarrow> nat \<Rightarrow> 'f write_task list \<Rightarrow> 'f tables \<Rightarrow> string + 'f tables" where
  "run_statements env n tasks s =
     then_do (run_tasks (transaction_env env n) 0 tasks s)
       (\<lambda>s1. then_do (refresh_agents env tasks s1) (refresh_groups env tasks))"

record 'f worker =
  wk_db :: "'f tables"
  wk_connected :: bool
  wk_poisoned :: bool
  wk_transactions :: nat
  wk_success :: u32
  wk_errors :: u32
  wk_pending :: "string list"

definition new_worker :: "'f tables \<Rightarrow> 'f worker" where
  "new_worker db = \<lparr>wk_db = db, wk_connected = False, wk_poisoned = False, wk_transactions = 0,
     wk_success = 0, wk_errors = 0, wk_pending = []\<rparr>"

text \<open>The result of a transaction; a panic poisons the lock of the connection. An error before COMMIT
  rolls back.\<close>

definition run_transaction ::
  "'f queue_env \<Rightarrow> 'f write_task list \<Rightarrow> 'f worker \<Rightarrow> 'f worker \<times> (string + unit)" where
  "run_transaction env tasks w =
     (let ft = qe_faults env (wk_transactions w);
          w0 = w\<lparr>wk_transactions := wk_transactions w + 1\<rparr>;
          failed = (\<lambda>w' e. (w', Inl (''rusqlite execution error: '' @ e)));
          panicked = (\<lambda>w' e. (w'\<lparr>wk_poisoned := True\<rparr>, Inl (''write worker join error: '' @ e)))
      in if wk_poisoned w then panicked w0 (qe_poison env)
         else case (if wk_connected w then None else ft_open ft) of
           Some e \<Rightarrow> failed w0 e
         | None \<Rightarrow>
             let w1 = w0\<lparr>wk_connected := True\<rparr>
             in case ft_engine ft of
                  Some e \<Rightarrow> failed w1 e
                | None \<Rightarrow>
                    (case ft_panic ft of
                       Some e \<Rightarrow> panicked w1 e
                     | None \<Rightarrow>
                         (case run_statements env (wk_transactions w) tasks (wk_db w) of
                            Inl e \<Rightarrow> failed w1 e
                          | Inr db \<Rightarrow>
                              (case ft_commit ft of
                                 Some e \<Rightarrow> failed w1 e
                               | None \<Rightarrow> (w1\<lparr>wk_db := db\<rparr>, Inr ())))))"

section \<open>The worker\<close>

definition pending_errors_result :: "string list \<Rightarrow> string + unit" where
  "pending_errors_result errors = (if errors = [] then Inr () else Inl (str_join '' | '' errors))"

text \<open>What the worker did: the batches it ran, before coalescing, and the flushes it answered.\<close>

datatype 'f queue_log =
    LogBatch "'f write_task list" "string + unit"
  | LogAnswer nat bool "string + unit"

definition deliver_flush_ack ::
  "nat \<times> bool \<Rightarrow> 'f worker \<Rightarrow> 'f worker \<times> 'f queue_log" where
  "deliver_flush_ack flush w =
     (case flush of (i, heard) \<Rightarrow>
        (if heard then w\<lparr>wk_pending := []\<rparr> else w, LogAnswer i heard (pending_errors_result (wk_pending w))))"

definition count_result :: "string + unit \<Rightarrow> 'f worker \<Rightarrow> 'f worker" where
  "count_result r w =
     (case r of
        Inr _ \<Rightarrow> w\<lparr>wk_success := wk_success w + 1\<rparr>
      | Inl e \<Rightarrow> w\<lparr>wk_errors := wk_errors w + 1, wk_pending := wk_pending w @ [e]\<rparr>)"

text \<open>One batch, with the flush that closed it.\<close>

definition work_batch ::
  "'f queue_env \<Rightarrow> 'f collected \<Rightarrow> 'f worker \<Rightarrow> 'f worker \<times> 'f queue_log list" where
  "work_batch env batch w =
     (case run_transaction env (coalesce_adjacent_topic_message_tasks (cb_tasks batch)) w of
        (w1, r) \<Rightarrow>
          let w2 = count_result r w1
          in case cb_flush batch of
               None \<Rightarrow> (w2, [LogBatch (cb_tasks batch) r])
             | Some flush \<Rightarrow>
                 (case deliver_flush_ack flush w2 of (w3, answer) \<Rightarrow> (w3, [LogBatch (cb_tasks batch) r, answer])))"

definition carried_weight :: "'a option \<Rightarrow> nat" where
  "carried_weight carried = (if carried = None then 0 else 1)"

lemma carried_weight_simps [simp]: "carried_weight None = 0" "carried_weight (Some t) = 1"
  by (simp_all add: carried_weight_def)

lemma collect_from_weight:
  "2 * length (cb_rest (collect_from tasks n es)) + carried_weight (cb_carried (collect_from tasks n es)) \<le> 2 * length es"
proof (induction tasks n es rule: collect_from.induct)
  case (2 tasks msg_count e es)
  show ?case
  proof (cases e)
    case (EvTask t)
    then show ?thesis using "2.IH"[OF _ EvTask refl]
      by (cases "does_not_fit msg_count (task_message_count t)") (auto simp: closed_batch_def Let_def)
  qed (simp_all add: closed_batch_def)
qed (simp add: closed_batch_def)

function worker_run ::
  "'f queue_env \<Rightarrow> 'f write_task option \<Rightarrow> 'f queue_event list \<Rightarrow> 'f worker \<Rightarrow>
     'f worker \<times> 'f queue_log list" where
  "worker_run env (Some t) es w =
     (let batch = collect_batch t es
      in case work_batch env batch w of
           (w1, logs) \<Rightarrow> (case worker_run env (cb_carried batch) (cb_rest batch) w1 of (w2, logs2) \<Rightarrow> (w2, logs @ logs2)))"
| "worker_run env None [] w = (w, [])"
| "worker_run env None (EvQuiet # es) w = worker_run env None es w"
| "worker_run env None (EvFlush i heard # es) w =
     (case deliver_flush_ack (i, heard) w of
        (w1, answer) \<Rightarrow> (case worker_run env None es w1 of (w2, logs2) \<Rightarrow> (w2, answer # logs2)))"
| "worker_run env None (EvTask t # es) w = worker_run env (Some t) es w"
  by pat_completeness auto
termination
  by (relation "measure (\<lambda>(env, carried, es, w). 2 * length es + carried_weight carried)")
    (auto simp: collect_batch_def intro: le_less_trans[OF collect_from_weight])

end
