(* ===== verification/Write_Queue_Laws.thy ===== *)
theory Write_Queue_Laws
  imports Write_Queue Sync_Store_Laws
begin

text \<open>
  The write queue runs every task once and in order, in transactions within their bounds; a flush is a
  barrier, and every failure is told by exactly the first flush after it that is heard.
\<close>

section \<open>Batches\<close>

text \<open>The tasks and flushes of the channel, in order.\<close>

type_synonym 'f trace = "('f write_task + nat \<times> bool) list"

fun event_trace :: "'f queue_event list \<Rightarrow> 'f trace" where
  "event_trace [] = []"
| "event_trace (EvTask t # es) = Inl t # event_trace es"
| "event_trace (EvFlush i heard # es) = Inr (i, heard) # event_trace es"
| "event_trace (EvQuiet # es) = event_trace es"

fun option_list :: "'a option \<Rightarrow> 'a list" where
  "option_list None = []"
| "option_list (Some x) = [x]"

definition small_batch :: "'f write_task list \<Rightarrow> bool" where
  "small_batch tasks \<longleftrightarrow>
     tasks \<noteq> [] \<and> length tasks \<le> MAX_TASKS_PER_TRANSACTION \<and>
     (sum_list (map task_message_count tasks) \<le> MAX_MESSAGES_PER_TRANSACTION \<or>
      (\<exists>t\<in>set tasks. sum_list (map task_message_count tasks) = task_message_count t))"

text \<open>What a batch leaves are the events after those it took.\<close>

definition batch_trace :: "'f collected \<Rightarrow> 'f trace" where
  "batch_trace c = map Inl (cb_tasks c) @ map Inr (option_list (cb_flush c))"

lemma collect_from_takes:
  "map Inl tasks @ event_trace es =
     batch_trace (collect_from tasks n es) @ map Inl (option_list (cb_carried (collect_from tasks n es))) @
     event_trace (cb_rest (collect_from tasks n es))"
proof (induction tasks n es rule: collect_from.induct)
  case (2 tasks msg_count e es)
  show ?case
  proof (cases e)
    case (EvTask t)
    then show ?thesis using "2.IH"[OF _ EvTask refl]
      by (cases "does_not_fit msg_count (task_message_count t)") (auto simp: closed_batch_def batch_trace_def Let_def)
  qed (simp_all add: closed_batch_def batch_trace_def)
qed (simp add: closed_batch_def batch_trace_def)

lemma collect_from_small:
  "small_batch tasks \<Longrightarrow> n = sum_list (map task_message_count tasks) \<Longrightarrow>
     small_batch (cb_tasks (collect_from tasks n es))"
proof (induction tasks n es rule: collect_from.induct)
  case (2 tasks msg_count e es)
  show ?case
  proof (cases e)
    case (EvTask t)
    have "small_batch (tasks @ [t])"
      if "length tasks < MAX_TASKS_PER_TRANSACTION" "\<not> does_not_fit msg_count (task_message_count t)"
        "msg_count < MAX_MESSAGES_PER_TRANSACTION"
      using that "2.prems" by (auto simp: small_batch_def does_not_fit_def)
    then show ?thesis using "2.IH"[OF _ EvTask refl] EvTask "2.prems"
      by (cases "does_not_fit msg_count (task_message_count t)") (auto simp: closed_batch_def Let_def)
  qed (use "2.prems" in \<open>simp_all add: closed_batch_def\<close>)
qed (simp add: closed_batch_def)

lemma collect_batch_small: "small_batch (cb_tasks (collect_batch t es))"
  unfolding collect_batch_def
  by (rule collect_from_small) (auto simp: small_batch_def MAX_TASKS_PER_TRANSACTION_def)

section \<open>Coalescing\<close>

text \<open>A batch as the sequence of its writes.\<close>

fun flat_task :: "'f write_task \<Rightarrow> ('f write_task + topic_key \<times> message_write) list" where
  "flat_task (WMessages key writes) = map (\<lambda>w. Inr (key, w)) writes"
| "flat_task t = [Inl t]"

lemma merge_tasks_flat:
  "merge_tasks a b = Some c \<Longrightarrow> flat_task c = flat_task a @ flat_task b \<and>
     task_message_count c = task_message_count a + task_message_count b \<and>
     task_message_count c \<le> MAX_MESSAGES_PER_TRANSACTION"
  by (cases "(a, b)" rule: merge_tasks.cases) (auto split: if_splits)

lemma coalesce_onto_flat:
  "concat (map flat_task (coalesce_onto ds ts)) = concat (map flat_task ds) @ concat (map flat_task ts) \<and>
   sum_list (map task_message_count (coalesce_onto ds ts)) =
     sum_list (map task_message_count ds) + sum_list (map task_message_count ts) \<and>
   length (coalesce_onto ds ts) \<le> length ds + length ts"
proof (induction ds ts rule: coalesce_onto.induct)
  case (2 ds t ts)
  show ?case
  proof (cases "if ds = [] then None else merge_tasks (last ds) t")
    case None
    then show ?thesis using "2.IH"(1)[OF None] by (simp add: add.assoc)
  next
    case (Some c)
    then have ne: "ds \<noteq> []" and m: "merge_tasks (last ds) t = Some c" by (auto split: if_splits)
    obtain before d where ds: "ds = before @ [d]" using ne by (cases ds rule: rev_cases) auto
    then have "merge_tasks d t = Some c" using m by simp
    from merge_tasks_flat[OF this] show ?thesis using "2.IH"(2)[OF Some] Some by (simp add: ds add.assoc)
  qed
qed simp

section \<open>The worker\<close>

fun log_trace :: "'f queue_log \<Rightarrow> 'f trace" where
  "log_trace (LogBatch ts r) = map Inl ts"
| "log_trace (LogAnswer i heard r) = [Inr (i, heard)]"

lemma work_batch_trace: "concat (map log_trace (snd (work_batch env batch w))) = batch_trace batch"
  by (auto simp: work_batch_def batch_trace_def deliver_flush_ack_def Let_def split: prod.splits option.splits)

lemma worker_trace:
  "concat (map log_trace (snd (worker_run env carried es w))) = map Inl (option_list carried) @ event_trace es"
proof (induction env carried es w rule: worker_run.induct)
  case (1 env t es w)
  show ?case
    using "1.IH" collect_from_takes[of "[t]" es "task_message_count t"]
      work_batch_trace[of env "collect_batch t es" w]
    by (auto simp: Let_def collect_batch_def split: prod.splits)
qed (auto simp: deliver_flush_ack_def split: prod.splits)

text \<open>A batch of the log is within the bounds, and what runs is the same writes in the same order.\<close>

fun log_small :: "'f queue_log \<Rightarrow> bool" where
  "log_small (LogBatch ts r) \<longleftrightarrow>
     small_batch ts \<and>
     concat (map flat_task (coalesce_adjacent_topic_message_tasks ts)) = concat (map flat_task ts) \<and>
     length (coalesce_adjacent_topic_message_tasks ts) \<le> MAX_TASKS_PER_TRANSACTION"
| "log_small (LogAnswer i heard r) \<longleftrightarrow> True"

lemma small_batch_coalesced:
  "small_batch ts \<Longrightarrow> log_small (LogBatch ts r)"
  using coalesce_onto_flat[of "[]" ts] by (auto simp: coalesce_adjacent_topic_message_tasks_def small_batch_def)

lemma work_batch_small:
  "small_batch (cb_tasks batch) \<Longrightarrow> list_all log_small (snd (work_batch env batch w))"
  by (auto simp: work_batch_def deliver_flush_ack_def Let_def simp del: log_small.simps(1)
      intro: small_batch_coalesced split: prod.splits option.splits)

lemma worker_small: "list_all log_small (snd (worker_run env carried es w))"
proof (induction env carried es w rule: worker_run.induct)
  case (1 env t es w)
  show ?case
    using "1.IH" work_batch_small[OF collect_batch_small, of env t es w]
    by (auto simp: Let_def simp del: log_small.simps split: prod.splits)
qed (auto simp: deliver_flush_ack_def split: prod.splits)

text \<open>The answers: what failed since the last answer that was heard, and the database only has what
  committed.\<close>

fun honest ::
  "'f queue_env \<Rightarrow> nat \<Rightarrow> string list \<Rightarrow> 'f tables \<Rightarrow> 'f queue_log list \<Rightarrow> nat \<Rightarrow> string list \<Rightarrow> 'f tables \<Rightarrow> bool" where
  "honest env n pending db [] n' pending' db' \<longleftrightarrow> n' = n \<and> pending' = pending \<and> db' = db"
| "honest env n pending db (LogBatch ts (Inl e) # ls) n' pending' db' \<longleftrightarrow>
     honest env (n + 1) (pending @ [e]) db ls n' pending' db'"
| "honest env n pending db (LogBatch ts (Inr u) # ls) n' pending' db' \<longleftrightarrow>
     (\<exists>db1. run_statements env n (coalesce_adjacent_topic_message_tasks ts) db = Inr db1 \<and>
        honest env (n + 1) pending db1 ls n' pending' db')"
| "honest env n pending db (LogAnswer i heard r # ls) n' pending' db' \<longleftrightarrow>
     r = pending_errors_result pending \<and> honest env n (if heard then [] else pending) db ls n' pending' db'"

lemma honest_append:
  "honest env n p db (ls @ ls2) n2 p2 db2 \<longleftrightarrow>
     (\<exists>n1 p1 db1. honest env n p db ls n1 p1 db1 \<and> honest env n1 p1 db1 ls2 n2 p2 db2)"
  by (induction env n p db ls n2 p2 db2 rule: honest.induct) auto

text \<open>Between two workers.\<close>

definition honest_step ::
  "'f queue_env \<Rightarrow> 'f worker \<Rightarrow> 'f queue_log list \<Rightarrow> 'f worker \<Rightarrow> bool" where
  "honest_step env w ls w' \<longleftrightarrow>
     honest env (wk_transactions w) (wk_pending w) (wk_db w) ls (wk_transactions w') (wk_pending w') (wk_db w')"

lemma honest_step_append:
  "honest_step env w ls w1 \<Longrightarrow> honest_step env w1 ls2 w2 \<Longrightarrow> honest_step env w (ls @ ls2) w2"
  unfolding honest_step_def honest_append by blast

lemma run_transaction_honest:
  assumes "run_transaction env ts w = (w1, r)"
  shows "wk_pending w1 = wk_pending w \<and> wk_transactions w1 = wk_transactions w + 1 \<and>
    (case r of Inl e \<Rightarrow> wk_db w1 = wk_db w
     | Inr _ \<Rightarrow> run_statements env (wk_transactions w) ts (wk_db w) = Inr (wk_db w1))"
  using assms by (auto simp: run_transaction_def Let_def split: if_splits option.splits sum.splits)

lemma deliver_honest: "deliver_flush_ack flush w = (w1, answer) \<Longrightarrow> honest_step env w [answer] w1"
  by (auto simp: deliver_flush_ack_def honest_step_def split: prod.splits)

lemma work_batch_honest:
  assumes "work_batch env batch w = (w', logs)"
  shows "honest_step env w logs w'"
proof -
  obtain w1 r where t: "run_transaction env (coalesce_adjacent_topic_message_tasks (cb_tasks batch)) w = (w1, r)"
    by fastforce
  have one: "honest_step env w [LogBatch (cb_tasks batch) r] (count_result r w1)"
    using run_transaction_honest[OF t] by (cases r) (auto simp: count_result_def honest_step_def)
  show ?thesis
  proof (cases "cb_flush batch")
    case None
    then show ?thesis using assms t one by (auto simp: work_batch_def Let_def)
  next
    case (Some flush)
    obtain w3 answer where d: "deliver_flush_ack flush (count_result r w1) = (w3, answer)" by fastforce
    then have parts: "logs = [LogBatch (cb_tasks batch) r] @ [answer]" "w' = w3"
      using assms t Some by (auto simp: work_batch_def Let_def)
    show ?thesis unfolding parts by (rule honest_step_append[OF one deliver_honest[OF d]])
  qed
qed

lemma worker_honest: "worker_run env carried es w = (w', logs) \<Longrightarrow> honest_step env w logs w'"
proof (induction env carried es w arbitrary: w' logs rule: worker_run.induct)
  case (1 env t es w)
  obtain w1 l1 where b: "work_batch env (collect_batch t es) w = (w1, l1)" by fastforce
  obtain w2 l2 where r: "worker_run env (cb_carried (collect_batch t es)) (cb_rest (collect_batch t es)) w1 = (w2, l2)"
    by fastforce
  have parts: "w' = w2" "logs = l1 @ l2" using "1.prems" b r by (auto simp: Let_def)
  show ?case unfolding parts
    by (rule honest_step_append[OF work_batch_honest[OF b] "1.IH"[OF refl b[symmetric] r]])
next
  case (4 env i heard es w)
  obtain w1 answer where d: "deliver_flush_ack (i, heard) w = (w1, answer)" by fastforce
  obtain w2 l2 where r: "worker_run env None es w1 = (w2, l2)" by fastforce
  have parts: "w' = w2" "logs = [answer] @ l2" using "4.prems" d r by auto
  show ?case unfolding parts
    by (rule honest_step_append[OF deliver_honest[OF d] "4.IH"[OF d[symmetric] r]])
qed (auto simp: honest_step_def)

section \<open>The worker and the store\<close>

text \<open>What the transactions do, the worker does.\<close>

lemma honest_rule:
  assumes "honest env n p db ls n' p' db'" "list_all (\<lambda>l. case l of LogBatch ts r \<Rightarrow> fine ts | LogAnswer i h r \<Rightarrow> True) ls"
    and "\<And>s. R s s" and tr: "\<And>a b c. R a b \<Longrightarrow> R b c \<Longrightarrow> R a c"
    and step: "\<And>n ts a b. fine ts \<Longrightarrow>
      run_statements env n (coalesce_adjacent_topic_message_tasks ts) a = Inr b \<Longrightarrow> R a b"
  shows "R db db'"
  using assms(1,2) step
proof (induction env n p db ls n' p' db' rule: honest.induct)
  case (3 env n p db ts u ls n' p' db')
  from "3.prems" obtain db1 where db1: "run_statements env n (coalesce_adjacent_topic_message_tasks ts) db = Inr db1"
    "honest env (n + 1) p db1 ls n' p' db'" "fine ts" by auto
  have "R db1 db'" using "3.IH"[OF db1(2) _ "3.prems"(3)] "3.prems"(2) by simp
  then show ?case by (rule tr[OF "3.prems"(3)[OF db1(3,1)]])
qed (use assms(3) in auto)

lemma coalesce_all:
  assumes "\<And>a b c. fine a \<Longrightarrow> fine b \<Longrightarrow> merge_tasks a b = Some c \<Longrightarrow> fine c"
  shows "list_all fine ds \<Longrightarrow> list_all fine ts \<Longrightarrow> list_all fine (coalesce_onto ds ts)"
proof (induction ds ts rule: coalesce_onto.induct)
  case (2 ds t ts)
  show ?case
  proof (cases "if ds = [] then None else merge_tasks (last ds) t")
    case None
    then show ?thesis using "2.IH"(1)[OF None] "2.prems" by simp
  next
    case (Some c)
    then have ne: "ds \<noteq> []" and m: "merge_tasks (last ds) t = Some c" by (auto split: if_splits)
    have "fine (last ds)" using ne "2.prems"(1) by (simp add: list_all_iff)
    then have "fine c" using assms[OF _ _ m] "2.prems"(2) by simp
    moreover have "list_all fine (butlast ds)" using "2.prems"(1) by (auto simp: list_all_iff dest: in_set_butlastD)
    ultimately show ?thesis using "2.IH"(2)[OF Some] "2.prems"(2) Some by simp
  qed
qed simp

fun task_messages :: "'f write_task \<Rightarrow> message_write list" where
  "task_messages (WMessages key ws) = ws"
| "task_messages other = []"

fun is_messages :: "'f write_task \<Rightarrow> bool" where
  "is_messages (WMessages key ws) = True"
| "is_messages other = False"

definition task_ok :: "(message_write list \<Rightarrow> bool) \<Rightarrow> 'f write_task \<Rightarrow> bool" where
  "task_ok ok t \<longleftrightarrow> (is_messages t \<longrightarrow> ok (task_messages t))"

fun event_ok :: "(message_write list \<Rightarrow> bool) \<Rightarrow> 'f queue_event \<Rightarrow> bool" where
  "event_ok ok (EvTask t) \<longleftrightarrow> task_ok ok t"
| "event_ok ok e \<longleftrightarrow> True"

lemma trace_ok: "list_all (event_ok ok) es \<Longrightarrow> Inl t \<in> set (event_trace es) \<Longrightarrow> task_ok ok t"
  by (induction es rule: event_trace.induct) auto

lemma batches_ok:
  assumes "list_all (event_ok ok) es"
  shows "list_all (\<lambda>l. case l of LogBatch ts r \<Rightarrow> list_all (task_ok ok) ts | LogAnswer i h r \<Rightarrow> True)
    (snd (worker_run env None es w))"
proof -
  have t: "concat (map log_trace (snd (worker_run env None es w))) = event_trace es" by (simp add: worker_trace)
  have "task_ok ok t" if "LogBatch ts r \<in> set (snd (worker_run env None es w))" "t \<in> set ts" for ts r t
  proof -
    have "Inl t \<in> set (concat (map log_trace (snd (worker_run env None es w))))" using that by force
    then show ?thesis unfolding t by (rule trace_ok[OF assms])
  qed
  then show ?thesis by (auto simp: list_all_iff split: queue_log.splits)
qed

lemma worker_rule:
  assumes ok: "list_all (event_ok ok) es"
    and "\<And>s. R s s" "\<And>a b c. R a b \<Longrightarrow> R b c \<Longrightarrow> R a c"
    and "\<And>n ts a b. list_all (task_ok ok) ts \<Longrightarrow>
      run_statements env n (coalesce_adjacent_topic_message_tasks ts) a = Inr b \<Longrightarrow> R a b"
  shows "R db (wk_db (fst (worker_run env None es (new_worker db))))"
proof -
  have "honest_step env (new_worker db) (snd (worker_run env None es (new_worker db)))
      (fst (worker_run env None es (new_worker db)))"
    by (rule worker_honest) simp
  then have "honest env 0 [] db (snd (worker_run env None es (new_worker db)))
      (wk_transactions (fst (worker_run env None es (new_worker db))))
      (wk_pending (fst (worker_run env None es (new_worker db)))) (wk_db (fst (worker_run env None es (new_worker db))))"
    by (simp add: honest_step_def new_worker_def)
  then show ?thesis
    by (rule honest_rule[where fine = "list_all (task_ok ok)"]) (use assms(2-4) batches_ok[OF ok] in blast)+
qed

lemma event_ok_True: "list_all (event_ok (\<lambda>ws. True)) es"
proof -
  have "event_ok (\<lambda>ws. True) e" for e :: "'a queue_event" by (cases e) (simp_all add: task_ok_def)
  then show ?thesis by (simp add: list_all_iff)
qed

context store_steps
begin

lemma run_task: "task_ok ok t \<Longrightarrow> run_task env k t s = Inr s' \<Longrightarrow> R s s'"
proof (cases t)
  case (WAgentTopics topics)
  assume "run_task env k t s = Inr s'"
  then show ?thesis unfolding WAgentTopics run_task.simps
    by (rule each) (auto intro: agent_topic split: prod.splits)
next
  case (WGroupTopics topics)
  assume "run_task env k t s = Inr s'"
  then show ?thesis unfolding WGroupTopics run_task.simps
    by (rule each) (auto intro: group_topic split: prod.splits)
qed (auto simp: task_ok_def intro: agent group avatar messages)

lemma run_tasks: "list_all (task_ok ok) ts \<Longrightarrow> run_tasks env k ts s = Inr s' \<Longrightarrow> R s s'"
  by (induction env k ts s rule: run_tasks.induct) (auto simp: refl then_do_Inr intro: trans run_task)

lemma refresh: "(\<And>i a b. bubble i a = Inr b \<Longrightarrow> R a b) \<Longrightarrow>
    refresh_owners debug message live bubble owners s = Inr s' \<Longrightarrow> R s s'"
  by (auto simp: refresh_owners_def Let_def refl split: if_splits elim: each)

lemma run_statements:
  assumes "list_all (task_ok ok) ts" "run_statements env n ts s = Inr s'"
  shows "R s s'"
proof -
  from assms(2) obtain a b where 1: "run_tasks (transaction_env env n) 0 ts s = Inr a"
    and 2: "refresh_agents env ts a = Inr b" and 3: "refresh_groups env ts b = Inr s'"
    by (auto simp: run_statements_def then_do_Inr)
  have "R a b" using 2 unfolding refresh_agents_def by (rule refresh[rotated]) (rule bubble_agent)
  moreover have "R b s'" using 3 unfolding refresh_groups_def by (rule refresh[rotated]) (rule bubble_group)
  ultimately show ?thesis using run_tasks[OF assms(1) 1] trans by blast
qed

lemma merge_ok: "task_ok ok a \<Longrightarrow> task_ok ok b \<Longrightarrow> merge_tasks a b = Some c \<Longrightarrow> task_ok ok c"
  by (cases "(a, b)" rule: merge_tasks.cases)
    (auto simp: task_ok_def ids_disjoint_def intro!: ok_append split: if_splits)

lemma coalesced: "list_all (task_ok ok) ts \<Longrightarrow> list_all (task_ok ok) (coalesce_adjacent_topic_message_tasks ts)"
  unfolding coalesce_adjacent_topic_message_tasks_def
  by (rule coalesce_all[of "task_ok ok"]) (auto intro: merge_ok)

lemma worker: "list_all (event_ok ok) es \<Longrightarrow> R db (wk_db (fst (worker_run env None es (new_worker db))))"
  by (erule worker_rule) (blast intro: refl trans run_statements coalesced)+

end

section \<open>Root hashes\<close>

lemma run_task_sound: "run_task env k t s = Inr s' \<Longrightarrow> store_sound s \<Longrightarrow> store_sound s'"
  using soundness.run_task[of t env k s s'] by (simp add: task_ok_def)

lemma roots_agent_topics:
  "each_do (\<lambda>(key, dto). rusqlite_upsert_agent_topic key dto) topics s = Inr s' \<Longrightarrow> roots_fresh e X Y s \<Longrightarrow>
     roots_fresh e (X \<union> (\<lambda>(key, dto). tk_owner_id key) ` set topics) Y s'"
proof (induction topics arbitrary: s X)
  case (Cons topic topics)
  obtain key dto where t: "topic = (key, dto)" by fastforce
  from Cons.prems(1) obtain s1 where s1: "rusqlite_upsert_agent_topic key dto s = Inr s1"
    "each_do (\<lambda>(key, dto). rusqlite_upsert_agent_topic key dto) topics s1 = Inr s'"
    by (auto simp: t then_do_Inr)
  show ?case using Cons.IH[OF s1(2) roots_agent_topic[OF s1(1) Cons.prems(2)]] by (simp add: t)
qed simp

lemma roots_group_topics:
  "each_do (\<lambda>(key, dto). rusqlite_upsert_group_topic key dto) topics s = Inr s' \<Longrightarrow> roots_fresh e X Y s \<Longrightarrow>
     roots_fresh e X (Y \<union> (\<lambda>(key, dto). tk_owner_id key) ` set topics) s'"
proof (induction topics arbitrary: s Y)
  case (Cons topic topics)
  obtain key dto where t: "topic = (key, dto)" by fastforce
  from Cons.prems(1) obtain s1 where s1: "rusqlite_upsert_group_topic key dto s = Inr s1"
    "each_do (\<lambda>(key, dto). rusqlite_upsert_group_topic key dto) topics s1 = Inr s'"
    by (auto simp: t then_do_Inr)
  show ?case using Cons.IH[OF s1(2) roots_group_topic[OF s1(1) Cons.prems(2)]] by (simp add: t)
qed simp

lemma roots_task:
  assumes "run_task env k t s = Inr s'" "store_sound s" "roots_fresh e X Y s"
  shows "roots_fresh e (X \<union> set (affected_agents t)) (Y \<union> set (affected_groups t)) s'"
  using assms
  by (cases t) (auto intro: roots_agent roots_group roots_avatar roots_messages dest: roots_agent_topics roots_group_topics)

lemma roots_tasks:
  "run_tasks env k ts s = Inr s' \<Longrightarrow> store_sound s \<Longrightarrow> roots_fresh e X Y s \<Longrightarrow>
     roots_fresh e (X \<union> set (concat (map affected_agents ts))) (Y \<union> set (concat (map affected_groups ts))) s'"
proof (induction env k ts s arbitrary: X Y rule: run_tasks.induct)
  case (2 env k t ts s)
  from "2.prems"(1) obtain s1 where s1: "run_task env k t s = Inr s1" "run_tasks env (Suc k) ts s1 = Inr s'"
    by (auto simp: then_do_Inr)
  show ?case
    using "2.IH"[OF s1(2) run_task_sound[OF s1(1) "2.prems"(2)] roots_task[OF s1(1) "2.prems"(2,3)]]
    by (simp add: Un_assoc)
qed simp

lemma roots_bubble_agents:
  "each_do (rusqlite_bubble_agent_hash env) is s = Inr s' \<Longrightarrow> roots_fresh env (set is \<union> X) Y s \<Longrightarrow>
     roots_fresh env X Y s'"
proof (induction "is" arbitrary: s)
  case (Cons i "is")
  from Cons.prems(1) obtain s1 where s1: "rusqlite_bubble_agent_hash env i s = Inr s1"
    "each_do (rusqlite_bubble_agent_hash env) is s1 = Inr s'" by (auto simp: then_do_Inr)
  have "roots_fresh env (set is \<union> X) Y s1" by (rule roots_bubble_agent[OF s1(1)]) (use Cons.prems(2) in simp)
  then show ?case by (rule Cons.IH[OF s1(2)])
qed simp

lemma roots_bubble_groups:
  "each_do (rusqlite_bubble_group_hash env) is s = Inr s' \<Longrightarrow> roots_fresh env X (set is \<union> Y) s \<Longrightarrow>
     roots_fresh env X Y s'"
proof (induction "is" arbitrary: s)
  case (Cons i "is")
  from Cons.prems(1) obtain s1 where s1: "rusqlite_bubble_group_hash env i s = Inr s1"
    "each_do (rusqlite_bubble_group_hash env) is s1 = Inr s'" by (auto simp: then_do_Inr)
  have "roots_fresh env X (set is \<union> Y) s1" by (rule roots_bubble_group[OF s1(1)]) (use Cons.prems(2) in simp)
  then show ?case by (rule Cons.IH[OF s1(2)])
qed simp

lemma refresh_owners_each:
  "refresh_owners debug message live bubble owners s = Inr s' \<Longrightarrow> each_do bubble (requested_owners owners) s = Inr s'"
  by (auto simp: refresh_owners_def requested_owners_def Let_def split: if_splits)

lemma set_requested_owners [simp]: "set (requested_owners owners) = set owners"
  by (simp add: requested_owners_def)

lemma roots_statements:
  assumes "run_statements env n ts s = Inr s'" "store_sound s" "roots_fresh (qe_store env) {} {} s"
  shows "roots_fresh (qe_store env) {} {} s'"
proof -
  from assms(1) obtain a b where 1: "run_tasks (transaction_env env n) 0 ts s = Inr a"
    and 2: "refresh_agents env ts a = Inr b" and 3: "refresh_groups env ts b = Inr s'"
    by (auto simp: run_statements_def then_do_Inr)
  from roots_tasks[OF 1 assms(2,3)] have "roots_fresh (qe_store env) (set (concat (map affected_agents ts)))
      (set (concat (map affected_groups ts))) a" by simp
  then have "roots_fresh (qe_store env) {} (set (concat (map affected_groups ts))) b"
    using roots_bubble_agents[OF 2[unfolded refresh_agents_def, THEN refresh_owners_each]] by simp
  then show ?thesis
    using roots_bubble_groups[OF 3[unfolded refresh_groups_def, THEN refresh_owners_each]] by simp
qed

lemma worker_roots:
  "store_sound db \<and> roots_fresh (qe_store env) {} {} db \<longrightarrow>
     store_sound (wk_db (fst (worker_run env None es (new_worker db)))) \<and>
     roots_fresh (qe_store env) {} {} (wk_db (fst (worker_run env None es (new_worker db))))"
  by (rule worker_rule[OF event_ok_True, where R = "\<lambda>a b. store_sound a \<and> roots_fresh (qe_store env) {} {} a \<longrightarrow>
        store_sound b \<and> roots_fresh (qe_store env) {} {} b"])
    (blast intro: roots_statements soundness.run_statements[rule_format] soundness.coalesced)+

section \<open>An example\<close>

definition demo_queue_env :: "unit queue_env" where
  "demo_queue_env = \<lparr>qe_store = demo_store_env, qe_now = (\<lambda>n k. 7), qe_metadata = (\<lambda>n k hash path. FileMissing),
     qe_debug = concat, qe_poison = ''poisoned'',
     qe_faults = (\<lambda>n. \<lparr>ft_open = None, ft_engine = None, ft_commit = None, ft_panic = None\<rparr>)\<rparr>"

definition demo_events :: "unit queue_event list" where
  "demo_events = [EvTask (WAgentTopics [(demo_key, demo_topic)]), EvTask (WMessages demo_key [demo_write]), EvFlush 0 True]"

section \<open>Properties\<close>

text \<open>C36. The worker runs every task it is sent once and answers every flush once, in the order of the
  channel: what stands before a flush has run when the flush is answered.\<close>

theorem queue_runs_everything_in_order:
  "concat (map log_trace (snd (worker_run env None es (new_worker db)))) = event_trace es"
  by (simp add: worker_trace)

text \<open>A transaction has at least one and at most 32 tasks and at most 500 messages, unless one task
  alone has more; coalescing keeps its writes and their order.\<close>

theorem transactions_bounded: "list_all log_small (snd (worker_run env None es (new_worker db)))"
  by (rule worker_small)

text \<open>C35. An answer to a flush says exactly what failed since the last answer that was heard, in order;
  what no heard answer has told is still pending at the end; and the database is what the batches with
  success made of it, one after the other, with nothing of a batch that failed.\<close>

theorem flush_tells_failures:
  "honest_step env (new_worker db) (snd (worker_run env None es (new_worker db)))
     (fst (worker_run env None es (new_worker db)))"
  using worker_honest[of env None es "new_worker db"] by (simp add: prod_eq_iff)

text \<open>C27. Whatever the worker is sent, no deleted row of any table changes or comes back, no live row is
  lost or deleted, and every new row is live.\<close>

theorem tombstones_are_final: "tombstones_kept db (wk_db (fst (worker_run env None es (new_worker db))))"
  by (rule tombs.worker[OF event_ok_True])

text \<open>C29. Whatever the worker is sent, the database stays well formed: keys are unique, every live topic,
  member and avatar has its live owner, every message its topic and every live one a live topic, every
  rendering, index row, relation and generation a live message, and every relation its attachment.\<close>

theorem store_stays_well_formed:
  assumes "store_sound db"
  shows "store_sound (wk_db (fst (worker_run env None es (new_worker db))))"
  using soundness.worker[OF event_ok_True] assms by blast

theorem store_stays_well_formed_witness:
  "store_sound (wk_db (fst (worker_run demo_queue_env None demo_events (new_worker demo_empty))))"
proof -
  have "store_sound demo_empty" by code_simp
  then show ?thesis by (rule store_stays_well_formed)
qed

text \<open>C28. Whatever the worker is sent, the root hash of every live agent and group stays the Merkle root of
  its live topics.\<close>

theorem roots_stay_fresh:
  assumes "store_sound db" "roots_fresh (qe_store env) {} {} db"
  shows "roots_fresh (qe_store env) {} {} (wk_db (fst (worker_run env None es (new_worker db))))"
  using worker_roots[of db env es] assms by blast

theorem roots_stay_fresh_witness:
  "roots_fresh (qe_store demo_queue_env) {} {}
     (wk_db (fst (worker_run demo_queue_env None demo_events (new_worker demo_empty))))"
proof -
  have "store_sound demo_empty" by code_simp
  moreover have "roots_fresh (qe_store demo_queue_env) {} {} demo_empty" by code_simp
  ultimately show ?thesis by (rule roots_stay_fresh)
qed

text \<open>If no task writes one message twice, the full-text index keeps having the content of each live
  message exactly once and nothing else, but that a message under generation may be missing.\<close>

theorem index_follows_messages:
  assumes "index_sound db" "list_all (event_ok distinct_ids) es"
  shows "index_sound (wk_db (fst (worker_run env None es (new_worker db))))"
  using index.worker[OF assms(2)] assms(1) by simp

theorem index_follows_messages_witness:
  "index_sound (wk_db (fst (worker_run demo_queue_env None demo_events (new_worker demo_empty))))"
proof -
  have "index_sound demo_empty" by code_simp
  moreover have "list_all (event_ok distinct_ids) demo_events"
    by (simp add: demo_events_def task_ok_def distinct_ids_def)
  ultimately show ?thesis by (rule index_follows_messages)
qed

end
