(* ===== verification/Chat_Laws.thy ===== *)
theory Chat_Laws
  imports Chat_History Write_Queue_Laws
begin

text \<open>
  Everything that writes the database, as the steps of one machine: the chat services, the deletions of the
  desktop, the transactions of the write queue and the end of a synchronisation. What holds after any
  sequence of them.
\<close>

section \<open>Transactions of the write queue\<close>

fun task_topics :: "'f write_task \<Rightarrow> topic_key list" where
  "task_topics (WAgentTopics topics) = map fst topics"
| "task_topics (WGroupTopics topics) = map fst topics"
| "task_topics (WMessages key writes) = [key]"
| "task_topics other = []"

lemma contents_topic_row:
  assumes "contents_fresh env Z s" "tb_messages s' = tb_messages s" "tb_topics s' = fst (sql_upsert key n l g (tb_topics s))"
  shows "contents_fresh env (insert key Z) s'"
  unfolding contents_fresh_iff
proof (intro allI impI)
  fix k r assume r: "fetch_live tr_deleted_at (tb_topics s') k = Some r"
  show "k \<in> insert key Z \<or> topic_aggregate env k s' = Inr (topic_hashes r)"
  proof (cases "k = key")
    case False
    then have "fetch_live tr_deleted_at (tb_topics s) k = Some r"
      using r by (simp add: assms(3) fetch_live_iff map_of_upsert)
    then show ?thesis using assms(1,2) unfolding contents_fresh_iff
      by (auto simp: topic_aggregate_def live_message_rows_def)
  qed simp
qed

lemma contents_agent_topics:
  "each_do (\<lambda>(key, dto). rusqlite_upsert_agent_topic key dto) topics s = Inr s' \<Longrightarrow> contents_fresh env Z s \<Longrightarrow>
     contents_fresh env (Z \<union> set (map fst topics)) s'"
proof (induction topics arbitrary: s Z)
  case (Cons topic topics)
  obtain key dto where t: "topic = (key, dto)" by fastforce
  from Cons.prems(1) obtain s1 where s1: "rusqlite_upsert_agent_topic key dto s = Inr s1"
    "each_do (\<lambda>(key, dto). rusqlite_upsert_agent_topic key dto) topics s1 = Inr s'"
    by (auto simp: t then_do_Inr)
  have "contents_fresh env (insert key Z) s1" using s1(1)
    by (auto simp: upsert_agent_topic_success intro!: contents_topic_row[OF Cons.prems(2)])
  from Cons.IH[OF s1(2) this] show ?case by (simp add: t)
qed simp

lemma contents_group_topics:
  "each_do (\<lambda>(key, dto). rusqlite_upsert_group_topic key dto) topics s = Inr s' \<Longrightarrow> contents_fresh env Z s \<Longrightarrow>
     contents_fresh env (Z \<union> set (map fst topics)) s'"
proof (induction topics arbitrary: s Z)
  case (Cons topic topics)
  obtain key dto where t: "topic = (key, dto)" by fastforce
  from Cons.prems(1) obtain s1 where s1: "rusqlite_upsert_group_topic key dto s = Inr s1"
    "each_do (\<lambda>(key, dto). rusqlite_upsert_group_topic key dto) topics s1 = Inr s'"
    by (auto simp: t then_do_Inr)
  have "contents_fresh env (insert key Z) s1" using s1(1)
    by (auto simp: upsert_group_topic_success intro!: contents_topic_row[OF Cons.prems(2)])
  from Cons.IH[OF s1(2) this] show ?case by (simp add: t)
qed simp

lemma contents_messages:
  assumes "rusqlite_upsert_messages_batch env' k key ws s = Inr s'" "contents_fresh env Z s"
  shows "contents_fresh env (insert key Z) s'"
proof -
  from upsert_messages_success[OF assms(1)] obtain rels where e: "batch_effect s key ws rels s'" by blast
  have fold: "filter (\<lambda>(mk, r). of_topic i mk \<and> mr_deleted_at r = None) (fold (upsert_message_row key) vs t) =
      filter (\<lambda>(mk, r). of_topic i mk \<and> mr_deleted_at r = None) t" if "i \<noteq> key" for i vs t
  proof (induction vs arbitrary: t)
    case (Cons v vs)
    have "filter (\<lambda>(mk, r). of_topic i mk \<and> mr_deleted_at r = None) (upsert_message_row key v t) =
        filter (\<lambda>(mk, r). of_topic i mk \<and> mr_deleted_at r = None) t"
      using that by (intro filter_upsert_other) (simp add: of_topic_def write_key_def)
    then show ?case using Cons.IH[of "upsert_message_row key v t"] by simp
  qed simp
  show ?thesis unfolding contents_fresh_iff
  proof (intro allI impI)
    fix i r assume r: "fetch_live tr_deleted_at (tb_topics s') i = Some r"
    then have "i \<in> Z \<or> topic_aggregate env i s = Inr (topic_hashes r)"
      using assms(2) by (auto simp: contents_fresh_iff batch_others(5)[OF e])
    moreover have "topic_aggregate env i s' = topic_aggregate env i s" if "i \<noteq> key"
      using fold[OF that] by (simp add: topic_aggregate_def live_message_rows_def batch_messages[OF e])
    ultimately show "i \<in> insert key Z \<or> topic_aggregate env i s' = Inr (topic_hashes r)" by auto
  qed
qed

lemma contents_task:
  assumes "run_task env' k t s = Inr s'" "contents_fresh env Z s"
  shows "contents_fresh env (Z \<union> set (task_topics t)) s'"
proof (cases t)
  case (WAgent i dto)
  then show ?thesis using assms by (auto simp: upsert_agent_success intro: contents_other)
next
  case (WGroup i dto)
  then show ?thesis using assms by (auto simp: upsert_group_success intro: contents_other)
next
  case (WAvatar ot oi mime bytes)
  then show ?thesis using assms by (auto simp: upsert_avatar_success intro: contents_other)
next
  case (WAgentTopics topics)
  then show ?thesis using contents_agent_topics assms by fastforce
next
  case (WGroupTopics topics)
  then show ?thesis using contents_group_topics assms by fastforce
next
  case (WMessages key ws)
  then show ?thesis using contents_messages assms by fastforce
qed

lemma contents_tasks:
  "run_tasks env' k ts s = Inr s' \<Longrightarrow> contents_fresh env Z s \<Longrightarrow>
     contents_fresh env (Z \<union> set (concat (map task_topics ts))) s'"
proof (induction env' k ts s arbitrary: Z rule: run_tasks.induct)
  case (2 env' k t ts s)
  from "2.prems"(1) obtain s1 where s1: "run_task env' k t s = Inr s1" "run_tasks env' (Suc k) ts s1 = Inr s'"
    by (auto simp: then_do_Inr)
  show ?case using "2.IH"[OF s1(2) contents_task[OF s1(1) "2.prems"(2)]] by (simp add: Un_assoc)
qed simp

text \<open>A refresh of roots changes neither topics nor messages.\<close>

lemma refresh_contents:
  assumes "refresh_owners debug message live bubble owners s = Inr s'" "contents_fresh env Z s"
    "\<And>i a b. bubble i a = Inr b \<Longrightarrow> tb_topics b = tb_topics a \<and> tb_messages b = tb_messages a"
  shows "contents_fresh env Z s'"
  by (rule each_do_rule[OF refresh_owners_each[OF assms(1)], where P = "contents_fresh env Z"])
    (use assms(2,3) in \<open>auto intro: contents_other\<close>)

lemma contents_statements:
  assumes "run_statements q n ts s = Inr s'" "contents_fresh env Z s"
  shows "contents_fresh env (Z \<union> set (concat (map task_topics ts))) s'"
proof -
  from assms(1) obtain a b where 1: "run_tasks (transaction_env q n) 0 ts s = Inr a"
    and 2: "refresh_agents q ts a = Inr b" and 3: "refresh_groups q ts b = Inr s'"
    by (auto simp: run_statements_def then_do_Inr)
  have "contents_fresh env (Z \<union> set (concat (map task_topics ts))) b"
    by (rule refresh_contents[OF 2[unfolded refresh_agents_def] contents_tasks[OF 1 assms(2)]])
      (auto simp: bubble_agent_success)
  then show ?thesis
    by (rule refresh_contents[OF 3[unfolded refresh_groups_def]]) (auto simp: bubble_group_success)
qed

interpretation active_same: store_steps "\<lambda>s s'. tb_active s' = tb_active s" "\<lambda>ws. True"
  by unfold_locales
    (auto simp: upsert_agent_success upsert_group_success upsert_avatar_success upsert_agent_topic_success
      upsert_group_topic_success bubble_agent_success bubble_group_success batch_others dest!: upsert_messages_success)

lemma every_task_ok: "list_all (task_ok (\<lambda>ws. True)) ts"
  by (simp add: list_all_iff task_ok_def)

lemma inv_statements:
  assumes "run_statements q n ts s = Inr s'" "db_inv env {} {} Z s" "qe_store q = ce_store env"
    "list_all (task_ok distinct_ids) ts"
  shows "db_inv env {} {} (Z \<union> set (concat (map task_topics ts))) s'"
  using soundness.run_statements[OF every_task_ok assms(1)] index.run_statements[OF assms(4,1)]
    roots_statements[OF assms(1)] contents_statements[OF assms(1)] assms(2,3)
  by (simp add: db_inv_def)

lemma history_statements:
  assumes "run_statements q n ts s = Inr s'"
  shows "history s s'"
  using tombs.run_statements[OF every_task_ok assms] active_same.run_statements[OF every_task_ok assms]
  by (auto simp: tombstones_kept_def history_def intro: rows_kept_last)

section \<open>The machine\<close>

datatype 'f chat_op =
    DeleteAgent "int option" int int string
  | DeleteGroup "int option" int string
  | SyncDeleteTopic topic_key int
  | DeleteTopic topic_key int
  | SyncDeleteMessages topic_key "(string \<times> int) list"
  | DeleteMessages topic_key "string list" int
  | TruncateHistory topic_key string int
  | DeleteAvatar string string int
  | CleanUp int int
  | AppendMessage "string \<Rightarrow> string + cas_file" int topic_key "string option" chat_message
  | PatchMessage "string \<Rightarrow> string + cas_file" int topic_key "string option" chat_message bool
  | BeginStream message_key "string option" "string option" int
  | CommitStream message_key string int string "string option" "string option"
  | WriteRenderCache message_key string string int
  | UpdateRenderCache message_key string string int
  | DeleteAttachment message_key nat string int
  | CreateTopic string string string int
  | SetTitle topic_key string "string option" int
  | SetLock topic_key bool int
  | SetUnread topic_key bool int
  | CountUnread topic_key int
  | CreateAgent string int
  | WriteAgent "string option" string "'f agent_config" int
  | CreateGroup string int
  | WriteGroup string group_dto int
  | SaveAvatar string string string string int
  | StoreColor string string string string
  | SyncTransaction "'f queue_env" nat "'f write_task list"
  | FinalizeSync "string list \<Rightarrow> string list" "topic_key list"

text \<open>The database after an operation; one that fails rolls back.\<close>

fun perform :: "'f chat_env \<Rightarrow> 'f chat_op \<Rightarrow> 'f tables \<Rightarrow> string + 'f tables" where
  "perform env (DeleteAgent requested clock clock2 i) s = map_sum id snd (delete_agent_internal env requested clock clock2 i s)"
| "perform env (DeleteGroup requested clock i) s = map_sum id snd (delete_group_internal requested clock i s)"
| "perform env (SyncDeleteTopic key now) s = map_sum id snd (delete_topic_data_inner env key now None s)"
| "perform env (DeleteTopic key now) s = map_sum id snd (delete_topic env key now s)"
| "perform env (SyncDeleteMessages key tombstones) s = map_sum id snd (soft_delete_messages key tombstones s)"
| "perform env (DeleteMessages key ids now) s = map_sum id snd (delete_messages env key ids now s)"
| "perform env (TruncateHistory key anchor now) s = map_sum id snd (truncate_history_after_message env key anchor now s)"
| "perform env (DeleteAvatar ot oi now) s = soft_delete_avatar ot oi now s"
| "perform env (CleanUp now days) s = Inr (cleanup_old_deleted_records now days s)"
| "perform env (AppendMessage resolve now key blocks msg) s = map_sum id snd (append_single_message env resolve now key blocks msg s)"
| "perform env (PatchMessage resolve now key blocks msg skip) s =
     map_sum id snd (patch_single_message env resolve now key blocks msg skip s)"
| "perform env (BeginStream mk agent_id agent_name now) s = begin_stream_message env mk agent_id agent_name now s"
| "perform env (CommitStream mk content now reason agent_id agent_name) s =
     map_sum id snd (commit_stream_message env mk content now reason agent_id agent_name s)"
| "perform env (WriteRenderCache mk hash render now) s = Inr (snd (write_render_cache_cas mk hash render now s))"
| "perform env (UpdateRenderCache mk hash render now) s = Inr (snd (update_render_cache_if_current mk hash render now s))"
| "perform env (DeleteAttachment mk position hash now) s =
     map_sum id snd (delete_message_attachment_in_db env mk position hash now s)"
| "perform env (CreateTopic ot oi name now) s = map_sum id snd (create_topic env ot oi name now s)"
| "perform env (SetTitle key title expected now) s = map_sum id snd (update_topic_title env key title expected now s)"
| "perform env (SetLock key locked now) s = map_sum id snd (toggle_topic_lock env key locked now s)"
| "perform env (SetUnread key unread now) s = map_sum id snd (set_topic_unread_in_db env key unread now s)"
| "perform env (CountUnread key now) s = map_sum id snd (increment_topic_unread_count env key now s)"
| "perform env (CreateAgent name now) s = map_sum id snd (create_agent env name now s)"
| "perform env (WriteAgent cached i config now) s = map_sum id snd (internal_write_agent_config env cached i config now s)"
| "perform env (CreateGroup name now) s = map_sum id snd (create_group env name now s)"
| "perform env (WriteGroup i config now) s = map_sum id snd (internal_write_group_config env i config now s)"
| "perform env (SaveAvatar ot oi mime bytes now) s = map_sum id snd (save_avatar_data env ot oi mime bytes now s)"
| "perform env (StoreColor ot oi color hash) s = map_sum id snd (store_dominant_color ot oi color hash s)"
| "perform env (SyncTransaction q n ts) s = run_statements q n ts s"
| "perform env (FinalizeSync walk modified) s = finalize_modified_topics env walk modified s"

text \<open>The topics whose hashes an operation leaves to the end of the synchronisation or to another bubble, and
  those it brings up to date.\<close>

fun left_stale :: "'f chat_op \<Rightarrow> topic_key list" where
  "left_stale (SyncDeleteMessages key tombstones) = [key]"
| "left_stale (PatchMessage resolve now key blocks msg skip) = (if skip then [key] else [])"
| "left_stale (SyncTransaction q n ts) = concat (map task_topics ts)"
| "left_stale other = []"

fun refreshed :: "'f chat_op \<Rightarrow> topic_key list" where
  "refreshed (FinalizeSync walk modified) = modified"
| "refreshed other = []"

text \<open>The queue writes with the hashes of the services, no task writes one message twice, and a walk through a
  set of owners goes through each.\<close>

fun op_ok :: "'f chat_env \<Rightarrow> 'f chat_op \<Rightarrow> bool" where
  "op_ok env (SyncTransaction q n ts) \<longleftrightarrow> qe_store q = ce_store env \<and> list_all (task_ok distinct_ids) ts"
| "op_ok env (FinalizeSync walk modified) \<longleftrightarrow>
     set (walk (owners_of ''agent'' modified)) = set (owners_of ''agent'' modified) \<and>
     set (walk (owners_of ''group'' modified)) = set (owners_of ''group'' modified)"
| "op_ok env other \<longleftrightarrow> True"

inductive chat_step :: "'f chat_env \<Rightarrow> topic_key set \<times> 'f tables \<Rightarrow> topic_key set \<times> 'f tables \<Rightarrow> bool" for env where
  performed: "op_ok env op \<Longrightarrow> perform env op s = Inr s' \<Longrightarrow> chat_step env (Z, s) ((Z - set (refreshed op)) \<union> set (left_stale op), s')"

inductive_cases chat_stepE: "chat_step env (Z, s) (Z', s')"

abbreviation chat_steps :: "'f chat_env \<Rightarrow> topic_key set \<times> 'f tables \<Rightarrow> topic_key set \<times> 'f tables \<Rightarrow> bool" where
  "chat_steps env \<equiv> (chat_step env)\<^sup>*\<^sup>*"

definition no_rows :: "'f tables" where
  "no_rows = \<lparr>tb_agents = [], tb_groups = [], tb_members = [], tb_avatars = [], tb_topics = [], tb_messages = [],
     tb_render = [], tb_fts = [], tb_relations = [], tb_attachments = [], tb_active = []\<rparr>"

section \<open>Invariants\<close>

lemma map_sum_Inr: "map_sum id snd x = Inr s' \<longleftrightarrow> (\<exists>out. x = Inr (out, s'))"
  by (cases x) auto

lemma inv_perform:
  assumes "perform env op s = Inr s'" "op_ok env op" "db_inv env {} {} Z s"
  shows "db_inv env {} {} ((Z - set (refreshed op)) \<union> set (left_stale op)) s'"
proof (cases op)
  case (FinalizeSync walk modified)
  have "db_inv env {} {} ((Z - set modified) \<union> set modified) s" using assms(3) by (auto elim: db_inv_mono)
  then show ?thesis using assms(1,2) inv_finalize_modified[of env walk modified s s' "{}" "{}" "Z - set modified"]
    by (simp add: FinalizeSync)
next
  case (SyncTransaction q n ts)
  then show ?thesis using assms inv_statements[of q n ts s s' env Z] by simp
next
  case (PatchMessage resolve now key blocks msg skip)
  then show ?thesis using assms inv_patch_message[of env resolve now key blocks msg skip s _ s' "{}" "{}" Z]
    by (cases skip) (auto simp: map_sum_Inr)
qed (use assms in \<open>auto simp: map_sum_Inr dest: inv_delete_agent inv_delete_group inv_delete_topic_data inv_delete_topic
    inv_soft_delete_messages inv_delete_messages inv_truncate_history inv_soft_delete_avatar inv_cleanup
    inv_append_message inv_begin_stream inv_commit_stream inv_delete_attachment
    inv_create_topic inv_topic_title inv_topic_lock inv_topic_unread inv_topic_unread_count inv_create_agent
    inv_write_agent inv_create_group inv_write_group inv_save_avatar inv_dominant_color
    intro: inv_write_render_cache[OF prod.collapse[symmetric]] inv_update_render_cache[OF prod.collapse[symmetric]]\<close>)

lemma history_perform: "perform env op s = Inr s' \<Longrightarrow> history s s'"
  by (cases op) (auto simp: map_sum_Inr dest: history_delete_agent history_delete_group history_delete_topic_data
    history_delete_topic history_soft_delete_messages history_delete_messages history_truncate
    history_soft_delete_avatar history_append_message history_patch_message
    history_begin_stream history_commit_stream history_delete_attachment history_create_topic history_topic_title
    history_topic_lock history_topic_unread history_topic_unread_count history_create_agent history_write_agent
    history_create_group history_write_group history_save_avatar history_dominant_color history_statements
    history_finalize_modified
    intro: history_cleanup history_write_render_cache[OF prod.collapse[symmetric]]
      history_update_render_cache[OF prod.collapse[symmetric]])

lemma steps_inv:
  assumes "chat_steps env a b" "db_inv env {} {} (fst a) (snd a)"
  shows "db_inv env {} {} (fst b) (snd b)"
  using assms
proof (induction rule: rtranclp_induct)
  case (step b c)
  from step.hyps(2) show ?case
  proof cases
    case (performed op s s' Z)
    then show ?thesis using inv_perform[OF performed(4,3), of Z] step.IH[OF step.prems] by simp
  qed
qed

lemma steps_history: "chat_steps env a b \<Longrightarrow> history (snd a) (snd b)"
proof (induction rule: rtranclp_induct)
  case (step b c)
  from step.hyps(2) show ?case
  proof cases
    case (performed op s s' Z)
    then show ?thesis using history_trans[OF step.IH] history_perform[OF performed(4)] by simp
  qed
qed simp

lemma no_rows_inv: "db_inv env {} {} {} no_rows"
proof -
  have "store_sound (no_rows :: 'a tables)"
    by (simp add: no_rows_def store_sound_def keys_unique_def owners_sound_def messages_sound_def message_refs_def row_keys_def)
  then show ?thesis
    by (simp add: db_inv_def no_rows_def index_sound_def roots_fresh_def fresh_def contents_fresh_def row_keys_def)
qed

end
