(* ===== verification/Chat_Properties.thy ===== *)
theory Chat_Properties
  imports Chat_Laws
begin

text \<open>
  The properties of the chat store: its invariant, deletion, generations, the end of a synchronisation, the
  times and hashes of what is written, and the cache of renderings.
\<close>

section \<open>The hash of a group follows its members\<close>

lemma recompute_fields:
  assumes "recompute_group_config_hash env now i s = Inr s'"
  shows "tb_agents s' = tb_agents s" "tb_members s' = tb_members s" "tb_avatars s' = tb_avatars s"
    "tb_topics s' = tb_topics s" "tb_messages s' = tb_messages s" "message_refs s' = message_refs s"
    "tb_active s' = tb_active s"
  using assms by (auto simp: recompute_group_success message_refs_def)

lemma load_group_other:
  assumes "recompute_group_config_hash env now i s = Inr s'" "g \<noteq> i"
  shows "load_group_dto env g s' = load_group_dto env g s" "map_of (tb_groups s') g = map_of (tb_groups s) g"
proof -
  show m: "map_of (tb_groups s') g = map_of (tb_groups s) g"
    using assms by (auto simp: recompute_group_success map_of_update)
  show "load_group_dto env g s' = load_group_dto env g s"
    by (simp only: load_group_dto_def fetch_live_def m load_group_members_def recompute_fields(2)[OF assms(1)])
qed

text \<open>The row of a group has the hash of its transfer object.\<close>

definition group_hash_right :: "'f chat_env \<Rightarrow> string \<Rightarrow> 'f tables \<Rightarrow> bool" where
  "group_hash_right env g s \<longleftrightarrow>
     (case (load_group_dto env g s, map_of (tb_groups s) g) of
        (Inr dto, Some r) \<Rightarrow> gr_config_hash r = compute_group_config_hash (ce_store env) dto
      | _ \<Rightarrow> False)"

lemma group_hash_recomputed:
  assumes "recompute_group_config_hash env now i s = Inr s'"
  shows "group_hash_right env i s'"
proof -
  from assms obtain dto where dto: "load_group_dto env i s = Inr dto"
    and s': "s' = s\<lparr>tb_groups := fst (sql_update i (\<lambda>r. gr_deleted_at r = None) (rehashed_group env now dto) (tb_groups s))\<rparr>"
    by (auto simp: recompute_group_success)
  from dto obtain r where r: "map_of (tb_groups s) i = Some r" "gr_deleted_at r = None"
    by (auto simp: load_group_dto_def fetch_live_iff split: option.splits)
  have row: "map_of (tb_groups s') i = Some (rehashed_group env now dto r)" by (simp add: s' map_of_update r)
  have "load_group_dto env i s' = Inr dto"
  proof -
    have "load_group_members i s' = load_group_members i s" by (simp add: load_group_members_def s')
    moreover have "fetch_live gr_deleted_at (tb_groups s') i = Some (rehashed_group env now dto r)"
      using r by (simp add: fetch_live_iff row rehashed_group_def)
    moreover have "fetch_live gr_deleted_at (tb_groups s) i = Some r" using r by (simp add: fetch_live_iff)
    ultimately show ?thesis using dto by (auto simp: load_group_dto_def rehashed_group_def split: sum.splits)
  qed
  then show ?thesis by (simp add: group_hash_right_def row rehashed_group_def)
qed

lemma group_hash_kept:
  "recompute_group_config_hash env now i s = Inr s' \<Longrightarrow> group_hash_right env g s \<Longrightarrow> group_hash_right env g s'"
  by (cases "g = i") (simp add: group_hash_recomputed, simp add: group_hash_right_def load_group_other)

lemma each_group_hash:
  "each_do (recompute_group_config_hash env now) is s = Inr s' \<Longrightarrow> g \<in> set is \<Longrightarrow> group_hash_right env g s'"
proof (induction "is" arbitrary: s)
  case (Cons i "is")
  from Cons.prems(1) obtain s1 where s1: "recompute_group_config_hash env now i s = Inr s1"
    "each_do (recompute_group_config_hash env now) is s1 = Inr s'" by (auto simp: then_do_Inr)
  show ?case
  proof (cases "g \<in> set is")
    case False
    then have "group_hash_right env g s1" using Cons.prems(2) group_hash_recomputed[OF s1(1)] by simp
    then show ?thesis by (rule each_do_rule[OF s1(2), where P = "group_hash_right env g"]) (blast intro: group_hash_kept)
  qed (rule Cons.IH[OF s1(2)])
qed simp

section \<open>What a deletion takes with it\<close>

definition same_but_groups :: "'f tables \<Rightarrow> 'f tables \<Rightarrow> bool" where
  "same_but_groups s s' \<longleftrightarrow>
     tb_agents s' = tb_agents s \<and> tb_members s' = tb_members s \<and> tb_avatars s' = tb_avatars s \<and>
     tb_topics s' = tb_topics s \<and> tb_messages s' = tb_messages s \<and> message_refs s' = message_refs s"

lemma each_recompute_fields:
  "each_do (recompute_group_config_hash env now) is s = Inr s' \<Longrightarrow> same_but_groups s s'"
  by (erule each_do_rule[where P = "same_but_groups s"]) (auto simp: same_but_groups_def dest: recompute_fields)

lemma delete_owned_refs:
  assumes "distinct (map fst (tb_messages s))" "\<And>k. k \<in> message_refs s \<Longrightarrow> live_row mr_deleted_at (tb_messages s) k"
  shows "message_refs (delete_owned ot oi now s) = {k \<in> message_refs s. \<not> of_owner ot oi k}"
proof -
  let ?w = "without_messages (of_owner ot oi) (tb_messages (fst (hide_messages (\<lambda>mk r. of_owner ot oi mk) now s))) s"
  have "delete_owned ot oi now s = ?w\<lparr>tb_topics := tb_topics (delete_owned ot oi now s), tb_avatars := tb_avatars (delete_owned ot oi now s)\<rparr>"
    using delete_owned_eq[OF assms, of ot oi now] by (simp add: delete_topics_def delete_avatar_row_def)
  then have "message_refs (delete_owned ot oi now s) =
      message_refs (?w\<lparr>tb_topics := tb_topics (delete_owned ot oi now s), tb_avatars := tb_avatars (delete_owned ot oi now s)\<rparr>)"
    by (rule arg_cong)
  also have "\<dots> = message_refs ?w" unfolding message_refs_def by simp
  finally show ?thesis by (simp only: without_messages_refs)
qed

text \<open>What is left when an owner is deleted.\<close>

definition owner_gone :: "string \<Rightarrow> string \<Rightarrow> 'f tables \<Rightarrow> 'f tables \<Rightarrow> bool" where
  "owner_gone ot oi s s' \<longleftrightarrow>
     live_rows tr_deleted_at (tb_topics s') =
       filter (\<lambda>(k, r). \<not> (tk_owner_type k = ot \<and> tk_owner_id k = oi)) (live_rows tr_deleted_at (tb_topics s)) \<and>
     live_rows mr_deleted_at (tb_messages s') =
       filter (\<lambda>(k, r). \<not> of_owner ot oi k) (live_rows mr_deleted_at (tb_messages s)) \<and>
     live_rows vr_deleted_at (tb_avatars s') = filter (\<lambda>(k, r). k \<noteq> (ot, oi)) (live_rows vr_deleted_at (tb_avatars s)) \<and>
     message_refs s' = {k \<in> message_refs s. \<not> of_owner ot oi k}"

lemma owner_gone_deleted:
  assumes "db_inv env X Y Z s" "tb_topics s1 = tb_topics s" "tb_messages s1 = tb_messages s" "tb_avatars s1 = tb_avatars s"
    "message_refs s1 = message_refs s"
  shows "owner_gone ot oi s (delete_owned ot oi now s1)"
proof -
  have sound: "store_sound s" using assms(1) by (simp add: db_inv_def)
  note d = sound_unique[OF sound]
  have refs: "message_refs (delete_owned ot oi now s1) = {k \<in> message_refs s. \<not> of_owner ot oi k}"
    using delete_owned_refs[of s1 ot oi now] d(6) sound by (simp add: assms store_sound_def messages_sound_def)
  have "live_rows tr_deleted_at (tb_topics (delete_owned ot oi now s1)) =
      filter (\<lambda>(k, r). k \<notin> {k. tk_owner_id k = oi \<and> tk_owner_type k = ot}) (live_rows tr_deleted_at (tb_topics s))"
    using hidden_rows[of tr_deleted_at "\<lambda>r. r\<lparr>tr_deleted_at := Some now\<rparr>" "\<lambda>k. tk_owner_id k = oi \<and> tk_owner_type k = ot"
        "{k. tk_owner_id k = oi \<and> tk_owner_type k = ot}" "tb_topics s"] by (simp add: assms(2))
  moreover have "live_rows mr_deleted_at (tb_messages (delete_owned ot oi now s1)) =
      filter (\<lambda>(k, r). k \<notin> {k. of_owner ot oi k}) (live_rows mr_deleted_at (tb_messages s))"
    using hidden_rows[of mr_deleted_at "\<lambda>r. r\<lparr>mr_deleted_at := Some now\<rparr>" "of_owner ot oi" "{k. of_owner ot oi k}" "tb_messages s"]
    by (simp add: assms(3))
  moreover have "live_rows vr_deleted_at (tb_avatars (delete_owned ot oi now s1)) =
      filter (\<lambda>(k, r). k \<noteq> (ot, oi)) (live_rows vr_deleted_at (tb_avatars s))"
    using live_rows_update_dead[OF d(4), of vr_deleted_at "\<lambda>r. r\<lparr>vr_deleted_at := Some now\<rparr>" "(ot, oi)"] by (simp add: assms(4))
  ultimately show ?thesis using refs by (simp add: owner_gone_def conj_commute)
qed

lemma filter_nothing: "(\<And>k r. (k, r) \<in> set t \<Longrightarrow> P k) \<Longrightarrow> filter (\<lambda>(k, r). P k) t = t"
  by (auto simp: filter_id_conv)

text \<open>A dead agent has nothing any more.\<close>

lemma owner_gone_already:
  assumes "db_inv env X Y Z s" "ot \<noteq> ''user''" "\<not> parent_is_live ot oi s"
  shows "owner_gone ot oi s s"
proof -
  have sound: "store_sound s" using assms(1) by (simp add: db_inv_def)
  note d = sound_unique[OF sound]
  have o: "owners_sound s" and m: "messages_sound s" using sound by (simp_all add: store_sound_def)
  have topics: "\<not> (tk_owner_type k = ot \<and> tk_owner_id k = oi)" if "live_row tr_deleted_at (tb_topics s) k" for k
    using o that assms(3) by (auto simp: owners_sound_iff owner_live_def)
  have messages: "\<not> of_owner ot oi k" if "live_row mr_deleted_at (tb_messages s) k" for k
    using m that topics[of "mk_topic k"] by (auto simp: messages_sound_def of_owner_def dest: live_row_key)
  have avatars: "k \<noteq> (ot, oi)" if "live_row vr_deleted_at (tb_avatars s) k" for k
    using o that assms(3) by (auto simp: owners_sound_iff)
  have "message_refs s = {k \<in> message_refs s. \<not> of_owner ot oi k}" using m messages by (auto simp: messages_sound_def)
  then show ?thesis unfolding owner_gone_def
    using topics messages avatars live_row_mem[OF d(5)] live_row_mem[OF d(6)] live_row_mem[OF d(4)]
    by (intro conjI) (rule filter_nothing[symmetric], blast)+
qed

lemma delete_agent_effect:
  assumes "delete_agent_internal env requested clock clock2 i s = Inr ((t, active), s')" "db_inv env X Y Z s"
  shows "tombstoned_agent s' i \<and> owner_gone ''agent'' i s s' \<and>
    tb_members s' = filter (\<lambda>((g, m), r). m \<noteq> i) (tb_members s) \<and>
    (\<forall>g. (g, i) \<in> row_keys (tb_members s) \<longrightarrow> group_hash_right env g s')"
proof -
  have sound: "store_sound s" using assms(2) by (simp add: db_inv_def)
  have d: "distinct (map fst (tb_agents s))" by (rule sound_unique(1)[OF sound])
  have member: "live_row gr_deleted_at (tb_groups s) g \<and> \<not> tombstoned_agent s i" if "(g, i) \<in> row_keys (tb_members s)" for g
    using sound that unfolding store_sound_def owners_sound_iff by blast
  show ?thesis
  proof (cases "tombstoned_agent s i")
    case True
    then obtain r where r: "map_of (tb_agents s) i = Some r" "ar_deleted_at r \<noteq> None" by (auto simp: tombstoned_agent_iff)
    then have s': "s' = s" using assms(1) by (auto simp: delete_agent_internal_def Let_def split: if_splits option.splits)
    have "\<not> parent_is_live ''agent'' i s" using r by (simp add: parent_is_live_def live_row_iff)
    then have "owner_gone ''agent'' i s s" by (intro owner_gone_already[OF assms(2)]) simp_all
    moreover have "m \<noteq> i" if "((g, m), r) \<in> set (tb_members s)" for g m r
      using sound that True by (force simp: store_sound_def owners_sound_iff row_keys_def)
    then have "filter (\<lambda>((g, m), r). m \<noteq> i) (tb_members s) = tb_members s" by (auto simp: filter_id_conv)
    moreover have "(g, i) \<notin> row_keys (tb_members s)" for g using member True by blast
    ultimately show ?thesis using True s' by simp
  next
    case False
    define now where "now = unwrap_or requested clock"
    obtain s1 where s1: "s1 = s\<lparr>tb_agents := tb_agents s1\<rparr>" "tombstoned_agent s1 i"
      and e: "each_do (recompute_group_config_hash env clock2) (affected_group_ids i s)
        ((delete_owned ''agent'' i now s1)\<lparr>tb_members := sql_delete (\<lambda>((g, m), r). m = i) (tb_members s1)\<rparr>) = Inr s'"
    proof (cases "map_of (tb_agents s) i")
      case None
      have "affected_group_ids i (s\<lparr>tb_agents := a\<rparr>) = affected_group_ids i s" for a by (simp add: affected_group_ids_def)
      then show ?thesis using assms(1) None
        by (intro that[of "s\<lparr>tb_agents := tb_agents s @ [(i, agent_tombstone env now)]\<rparr>"])
          (auto simp: delete_agent_internal_def delete_agent_rows_def then_do_Inr now_def[symmetric] Let_def
            tombstoned_agent_iff agent_tombstone_def map_add_def split: if_splits)
    next
      case (Some r)
      then have "ar_deleted_at r = None" using False by (auto simp: tombstoned_agent_iff)
      then show ?thesis using assms(1) Some
        by (intro that[of "s\<lparr>tb_agents := fst (sql_update i (\<lambda>r. ar_deleted_at r = None) (\<lambda>r. r\<lparr>ar_deleted_at := Some now\<rparr>) (tb_agents s))\<rparr>"])
          (auto simp: delete_agent_internal_def delete_agent_rows_def then_do_Inr now_def[symmetric] Let_def
            tombstoned_agent_iff map_of_update split: if_splits prod.splits)
    qed
    let ?s2 = "(delete_owned ''agent'' i now s1)\<lparr>tb_members := sql_delete (\<lambda>((g, m), r). m = i) (tb_members s1)\<rparr>"
    have fields: "tb_topics s1 = tb_topics s" "tb_messages s1 = tb_messages s" "tb_avatars s1 = tb_avatars s"
      "message_refs s1 = message_refs s" "tb_members s1 = tb_members s"
      by (subst s1(1), simp add: message_refs_def)+
    have "owner_gone ''agent'' i s (delete_owned ''agent'' i now s1)"
      by (rule owner_gone_deleted[OF assms(2) fields(1-4)])
    moreover have "same_but_groups ?s2 s'" by (rule each_recompute_fields[OF e])
    ultimately have "owner_gone ''agent'' i s s'" by (simp add: owner_gone_def same_but_groups_def message_refs_def)
    moreover have "tb_members s' = filter (\<lambda>((g, m), r). m \<noteq> i) (tb_members s)" "tombstoned_agent s' i"
      using \<open>same_but_groups ?s2 s'\<close> s1(2) by (simp_all add: same_but_groups_def fields sql_delete_def split_def tombstoned_agent_def)
    moreover have "group_hash_right env g s'" if "(g, i) \<in> row_keys (tb_members s)" for g
    proof (rule each_group_hash[OF e])
      show "g \<in> set (affected_group_ids i s)"
        using that member[OF that] by (force simp: affected_group_ids_def row_keys_def)
    qed
    ultimately show ?thesis by blast
  qed
qed

section \<open>The end of a synchronisation succeeds\<close>

lemma each_do_total:
  assumes "\<And>x s. x \<in> set xs \<Longrightarrow> P s \<Longrightarrow> \<exists>s'. f x s = Inr s' \<and> P s'" "P s"
  shows "\<exists>s'. each_do f xs s = Inr s' \<and> P s'"
  using assms
proof (induction xs arbitrary: s)
  case (Cons x xs)
  obtain s1 where "f x s = Inr s1" "P s1" using Cons.prems by fastforce
  then show ?case using Cons.IH[of s1] Cons.prems(1) by (simp add: then_do_Inr_eq)
qed simp

text \<open>What the refreshes leave alone.\<close>

definition same_rows :: "'f tables \<Rightarrow> 'f tables \<Rightarrow> bool" where
  "same_rows s s' \<longleftrightarrow>
     tb_messages s' = tb_messages s \<and>
     live_row tr_deleted_at (tb_topics s') = live_row tr_deleted_at (tb_topics s) \<and>
     live_row ar_deleted_at (tb_agents s') = live_row ar_deleted_at (tb_agents s) \<and>
     live_row gr_deleted_at (tb_groups s') = live_row gr_deleted_at (tb_groups s)"

lemma topic_update_total:
  assumes "live_row tr_deleted_at (tb_topics s) key" "\<And>r. tr_deleted_at (g r) = tr_deleted_at r"
  shows "\<exists>activity s'. update_topic_hashes env key g s = Inr (activity, s') \<and> same_rows s s'"
proof -
  let ?s = "s\<lparr>tb_topics := fst (sql_update key (\<lambda>r. tr_deleted_at r = None) g (tb_topics s))\<rparr>"
  have live: "live_row tr_deleted_at (tb_topics ?s) k = live_row tr_deleted_at (tb_topics s) k" for k
    using assms(2) by (simp add: live_update)
  have "\<not> (fetch_live tr_deleted_at (tb_topics ?s) key = None)" using live assms(1) by (simp add: fetch_live_None)
  then obtain activity where "load_topic_activity env key ?s = Inr activity" by (auto simp: load_topic_activity_def)
  then show ?thesis using assms(1) live by (auto simp: update_topic_hashes_success same_rows_def)
qed

lemma finalize_topic_total:
  assumes "live_row tr_deleted_at (tb_topics s) key" "int (length (live_message_rows s key)) < 2 ^ 31"
    "tk_owner_type key \<in> {''agent'', ''group''}"
  shows "\<exists>s'. finalize_topic env key s = Inr s' \<and> same_rows s s'"
proof -
  obtain root n latest where a: "topic_aggregate env key s = Inr (root, n, latest)"
    using assms(2) by (simp add: topic_aggregate_def compute_topic_content_aggregate_def)
  obtain activity s' where "update_topic_hashes env key (\<lambda>r. r\<lparr>tr_content_hash := root, tr_msg_count := n,
      tr_last_message_updated_at := latest\<rparr>) s = Inr (activity, s')" "same_rows s s'"
    using topic_update_total[OF assms(1), of "\<lambda>r. r\<lparr>tr_content_hash := root, tr_msg_count := n,
      tr_last_message_updated_at := latest\<rparr>" env] by auto
  then have "refresh_topic_content_hash env key s = Inr (activity, s')" using a by (simp add: refresh_topic_success)
  then show ?thesis using assms(3) \<open>same_rows s s'\<close> by (auto simp: finalize_topic_def then_do_Inr_eq)
qed

lemma bubble_agent_total: "live_row ar_deleted_at (tb_agents s) i \<Longrightarrow> \<exists>s'. bubble_agent_hash env i s = Inr s' \<and> same_rows s s'"
  by (auto simp: bubble_agent_hash_eq bubble_agent_success same_rows_def live_update fun_eq_iff)

lemma bubble_group_total: "live_row gr_deleted_at (tb_groups s) i \<Longrightarrow> \<exists>s'. bubble_group_hash env i s = Inr s' \<and> same_rows s s'"
  by (auto simp: bubble_group_hash_eq bubble_group_success same_rows_def live_update fun_eq_iff)

lemma same_rows_trans: "same_rows a b \<Longrightarrow> same_rows b c \<Longrightarrow> same_rows a c"
  by (simp add: same_rows_def)

lemma same_rows_refl: "same_rows s s"
  by (simp add: same_rows_def)

lemma finalize_total:
  assumes "store_sound s"
    "\<And>key. key \<in> set modified \<Longrightarrow> live_row tr_deleted_at (tb_topics s) key \<and> int (length (live_message_rows s key)) < 2 ^ 31"
    "set (walk (owners_of ''agent'' modified)) = set (owners_of ''agent'' modified)"
    "set (walk (owners_of ''group'' modified)) = set (owners_of ''group'' modified)"
  shows "\<exists>s'. finalize_modified_topics env walk modified s = Inr s'"
proof -
  have owner: "owner_live s (tk_owner_type key) (tk_owner_id key)" if "key \<in> set modified" for key
    using assms(1,2) that by (auto simp: store_sound_def owners_sound_iff)
  have types: "tk_owner_type key \<in> {''agent'', ''group''}" if "key \<in> set modified" for key
    using owner[OF that] unfolding owner_live_def parent_is_live_def by (metis insertI1 insertI2)
  have rows: "live_message_rows s' key = live_message_rows s key" if "same_rows s s'" for s' key
    using that by (simp add: same_rows_def live_message_rows_def)
  have "\<exists>s1. each_do (finalize_topic env) (sort modified) s = Inr s1 \<and> same_rows s s1"
  proof (rule each_do_total)
    fix key s' assume k: "key \<in> set (sort modified)" and same: "same_rows s s'"
    then have "live_row tr_deleted_at (tb_topics s') key" "int (length (live_message_rows s' key)) < 2 ^ 31"
      using assms(2)[of key] rows[OF same] by (simp_all add: same_rows_def)
    then obtain s2 where "finalize_topic env key s' = Inr s2" "same_rows s' s2"
      using finalize_topic_total[of s' key env] types[of key] k by auto
    then show "\<exists>s2. finalize_topic env key s' = Inr s2 \<and> same_rows s s2" using same same_rows_trans by blast
  qed (rule same_rows_refl)
  then obtain s1 where one: "each_do (finalize_topic env) (sort modified) s = Inr s1" "same_rows s s1" by blast
  have "\<exists>s2. each_do (bubble_agent_hash env) (walk (owners_of ''agent'' modified)) s1 = Inr s2 \<and> same_rows s s2"
  proof (rule each_do_total)
    fix i s' assume "i \<in> set (walk (owners_of ''agent'' modified))" and same: "same_rows s s'"
    then obtain key where "key \<in> set modified" "tk_owner_type key = ''agent''" "tk_owner_id key = i"
      using assms(3) by (auto simp: owners_of_def)
    then have "live_row ar_deleted_at (tb_agents s') i"
      using owner[of key] same by (simp add: owner_live_def parent_is_live_def same_rows_def)
    then show "\<exists>s2. bubble_agent_hash env i s' = Inr s2 \<and> same_rows s s2"
      using bubble_agent_total same same_rows_trans by blast
  qed (rule one(2))
  then obtain s2 where two: "each_do (bubble_agent_hash env) (walk (owners_of ''agent'' modified)) s1 = Inr s2" "same_rows s s2" by blast
  have "\<exists>s3. each_do (bubble_group_hash env) (walk (owners_of ''group'' modified)) s2 = Inr s3 \<and> same_rows s s3"
  proof (rule each_do_total)
    fix i s' assume "i \<in> set (walk (owners_of ''group'' modified))" and same: "same_rows s s'"
    then obtain key where "key \<in> set modified" "tk_owner_type key = ''group''" "tk_owner_id key = i"
      using assms(4) by (auto simp: owners_of_def)
    then have "live_row gr_deleted_at (tb_groups s') i"
      using owner[of key] same by (simp add: owner_live_def parent_is_live_def same_rows_def)
    then show "\<exists>s2. bubble_group_hash env i s' = Inr s2 \<and> same_rows s s2"
      using bubble_group_total same same_rows_trans by blast
  qed (rule two(2))
  then obtain s3 where "each_do (bubble_group_hash env) (walk (owners_of ''group'' modified)) s2 = Inr s3" by blast
  moreover have "\<not> list_ex (\<lambda>key. \<not> live_row tr_deleted_at (tb_topics s) key) modified"
    using assms(2) by (auto simp: list_ex_iff)
  ultimately show ?thesis using one(1) two(1) by (simp add: finalize_modified_topics_def then_do_Inr_eq)
qed

section \<open>The row of a stored message\<close>

lemma stored_message:
  assumes "upsert_message env now key msg render skip_bubble s = Inr (out, s')"
  shows "\<exists>r hash t. map_of (tb_messages s') (MessageKey key (cm_id msg)) = Some r \<and>
    r = (message_row_of msg hash t)\<lparr>mr_created_at := mr_created_at r\<rparr> \<and>
    (\<forall>k. k \<noteq> MessageKey key (cm_id msg) \<longrightarrow> map_of (tb_messages s') k = map_of (tb_messages s) k) \<and>
    resolve_message_updated_at (cm_updated_at msg) (cm_timestamp msg) hash
      (map_option (\<lambda>r. (mr_content_hash r, mr_updated_at r)) (map_of (tb_messages s) (MessageKey key (cm_id msg)))) now = Inr t"
proof -
  define mk where "mk = MessageKey key (cm_id msg)"
  obtain existing new_row s4 where st: "message_stored env now key msg skip_bubble existing new_row s s4 out s'"
    using upsert_message_success[OF assms] by blast
  from st obtain s3 hash t where ex: "existing = map_of (tb_messages s) mk" "\<And>r. existing = Some r \<Longrightarrow> mr_deleted_at r = None"
    and new: "new_row = message_row_of msg hash t"
    and time: "resolve_message_updated_at (cm_updated_at msg) (cm_timestamp msg) hash
          (map_option (\<lambda>r. (mr_content_hash r, mr_updated_at r)) existing) now = Inr t"
    and w: "message_written mk new_row existing s s3" "attachments_step mk s3 s4"
    and b: "s' = s4 \<or> (\<exists>activity. bubble_from_topic env key s4 = Inr (activity, s'))"
    unfolding message_stored_def mk_def[symmetric] by (auto split: if_splits)
  have m: "tb_messages s' = tb_messages s3"
  proof -
    have "tb_messages s4 = tb_messages s3" using w(2) by (simp add: attachments_step_def)
    then show ?thesis using b bubble_from_topic_others(3) by fastforce
  qed
  from w(1) obtain l g where u: "tb_messages s3 = fst (sql_upsert mk new_row l g (tb_messages s))"
    and l: "\<forall>r. existing = Some r \<longrightarrow> l r = core_changed new_row existing"
    and g: "g = (\<lambda>r. new_row\<lparr>mr_created_at := mr_created_at r, mr_deleted_at := mr_deleted_at r\<rparr>)"
    unfolding message_written_def by auto
  have "\<exists>r. map_of (tb_messages s') mk = Some r \<and> r = new_row\<lparr>mr_created_at := mr_created_at r\<rparr>"
  proof (cases existing)
    case None
    then show ?thesis using ex(1) by (simp add: m u map_of_upsert)
  next
    case (Some r)
    then have r: "map_of (tb_messages s) mk = Some r" "mr_deleted_at r = None" "mr_deleted_at new_row = None"
      using ex by (simp_all add: new message_row_of_def)
    show ?thesis
    proof (cases "core_changed new_row existing")
      case True
      then show ?thesis using r Some l by (auto simp: m u map_of_upsert g intro!: messages_row.equality)
    next
      case False
      then have "r = new_row\<lparr>mr_created_at := mr_created_at r\<rparr>"
        using r Some by (intro messages_row.equality) (auto simp: core_changed_def)
      then show ?thesis using False r Some l by (simp add: m u map_of_upsert)
    qed
  qed
  moreover have "\<forall>k. k \<noteq> mk \<longrightarrow> map_of (tb_messages s') k = map_of (tb_messages s) k" by (simp add: m u map_of_upsert)
  ultimately show ?thesis using time ex(1) new unfolding mk_def by blast
qed

section \<open>Two writers of a group\<close>

lemma insert_members_env:
  "se_unique env = se_unique env' \<Longrightarrow> insert_members env g now i ms t = insert_members env' g now i ms t"
  by (induction env g now i ms t rule: insert_members.induct) auto

text \<open>The store as the synchronisation has it when its clock says \<open>now\<close>.\<close>

definition at_time :: "'f store_env \<Rightarrow> int \<Rightarrow> 'f store_env" where
  "at_time env now = env\<lparr>se_now := (\<lambda>k. now)\<rparr>"

lemma at_time_hashes:
  "compute_group_config_hash (at_time env now) = compute_group_config_hash env"
  "serialize_member_tags (at_time env now) = serialize_member_tags env"
  by (intro ext; simp add: at_time_def serialize_member_tags_def compute_group_config_hash_def env_hash_def cong: option.case_cong)+

lemma at_time_rows [simp]:
  "new_groups_row (at_time env now) t dto = new_groups_row env t dto"
  "set_groups_row (at_time env now) t dto r = set_groups_row env t dto r"
  "se_now (at_time env now) k = now"
  by (simp_all only: new_groups_row_def set_groups_row_def at_time_hashes) (simp add: at_time_def)

lemma write_group_iff:
  "(\<exists>c. internal_write_group_config env i config now s = Inr (c, s')) \<longleftrightarrow>
     writable gr_deleted_at (tb_groups s) i \<and>
     (\<exists>members. insert_members (ce_store env) i now 0 (gd_members (canonical_dto s config))
          (sql_delete (\<lambda>((g, m), r). g = i) (tb_members s)) = Inr members \<and>
        s' = s\<lparr>tb_groups := fst (sql_upsert i (new_groups_row (ce_store env) now (canonical_dto s config))
            (\<lambda>r. gr_deleted_at r = None) (set_groups_row (ce_store env) now (canonical_dto s config)) (tb_groups s)),
          tb_members := members\<rparr>)"
proof (cases "writable gr_deleted_at (tb_groups s) i")
  case True
  then show ?thesis using upsert_over_live[OF True]
    by (auto simp: internal_write_group_config_def Let_def then_do_Inr writable_def split: option.splits)
next
  case False
  then show ?thesis by (auto simp: internal_write_group_config_def writable_def split: option.splits)
qed

section \<open>An example\<close>

definition demo_chat_env :: "unit chat_env" where
  "demo_chat_env = \<lparr>ce_store = demo_store_env, ce_parse_tags = (\<lambda>raw. Inr []), ce_compile = Inr, ce_serialize = Inr,
     ce_no_rows = ''no rows'', ce_default_temperature = (), ce_new_temperature = ()\<rparr>"

definition demo_generation :: message_key where "demo_generation = MessageKey demo_key ''g''"

definition outcome :: "string + 's \<Rightarrow> 's \<Rightarrow> 's" where
  "outcome r s = (case r of Inl e \<Rightarrow> s | Inr s' \<Rightarrow> s')"

lemma outcome: "\<not> isl r \<Longrightarrow> r = Inr (outcome r s)"
  by (cases r) (simp_all add: outcome_def)

abbreviation demo_sync :: "unit chat_op" where
  "demo_sync \<equiv> SyncTransaction demo_queue_env 0 [WAgent ''a'' demo_agent, WAgentTopics [(demo_key, demo_topic)]]"

abbreviation demo_begin :: "unit chat_op" where
  "demo_begin \<equiv> BeginStream demo_generation (Some ''a'') (Some ''A'') 2"

definition demo_synced :: "unit tables" where
  "demo_synced = outcome (perform demo_chat_env demo_sync no_rows) no_rows"

definition demo_begun :: "unit tables" where
  "demo_begun = outcome (perform demo_chat_env demo_begin demo_synced) no_rows"

lemma demo_synced: "perform demo_chat_env demo_sync no_rows = Inr demo_synced"
  unfolding demo_synced_def by (rule outcome) code_simp

lemma demo_begun: "perform demo_chat_env demo_begin demo_synced = Inr demo_begun"
  unfolding demo_begun_def by (rule outcome) code_simp

lemma demo_steps: "chat_steps demo_chat_env ({}, no_rows) ({demo_key}, demo_begun)"
proof -
  have "op_ok demo_chat_env demo_sync"
    by (simp add: demo_queue_env_def demo_chat_env_def task_ok_def)
  from chat_step.performed[OF this demo_synced, of "{}"]
  have "chat_step demo_chat_env ({}, no_rows) ({demo_key}, demo_synced)" by simp
  moreover from chat_step.performed[OF _ demo_begun, of "{demo_key}"]
  have "chat_step demo_chat_env ({demo_key}, demo_synced) ({demo_key}, demo_begun)" by simp
  ultimately show ?thesis by auto
qed

lemma demo_begun_inv: "db_inv demo_chat_env {} {} {demo_key} demo_begun"
  using steps_inv[OF demo_steps] by (simp add: no_rows_inv)

section \<open>Properties\<close>

text \<open>C1. Whatever sequence of operations the services, the synchronisation and the user make on a new
  database, it stays sound: keys are unique, references lead to live rows, the full-text index has the
  content of each live message once (a message under generation may be missing), and every hash of an owner or topic is that of its live topics or messages, but for the
  topics that a synchronisation under way has yet to refresh.\<close>

theorem database_stays_sound:
  assumes "chat_steps env ({}, no_rows) (Z, s)"
  shows "db_inv env {} {} Z s"
  using steps_inv[OF assms] by (simp add: no_rows_inv)

theorem database_stays_sound_witness: "db_inv demo_chat_env {} {} {demo_key} demo_begun"
  by (rule database_stays_sound[OF demo_steps])

text \<open>C3. No sequence of operations loses a row of an agent, group, avatar, topic or message, brings a deleted
  one back, or sets the time of a deletion back.\<close>

theorem deletions_are_final:
  assumes "chat_steps env (Z, s) (Z', s')"
  shows "rows_last ar_deleted_at (tb_agents s) (tb_agents s') \<and> rows_last gr_deleted_at (tb_groups s) (tb_groups s') \<and>
    rows_last vr_deleted_at (tb_avatars s) (tb_avatars s') \<and> rows_last tr_deleted_at (tb_topics s) (tb_topics s') \<and>
    rows_last mr_deleted_at (tb_messages s) (tb_messages s')"
  using steps_history[OF assms] by (simp add: history_def)

theorem deletions_are_final_witness: "rows_last tr_deleted_at (tb_topics (no_rows :: unit tables)) (tb_topics demo_begun)"
  using deletions_are_final[OF demo_steps] by blast

text \<open>C11. When every topic that a synchronisation modified is live and has less than \<open>2 ^ 31\<close> messages, its
  end succeeds, whatever the order of the owners, and then the hashes of all owners are right and no
  modified topic is stale.\<close>

theorem finalizing_refreshes:
  assumes "db_inv env {} {} Z s"
    "\<forall>key\<in>set modified. live_row tr_deleted_at (tb_topics s) key \<and> int (length (live_message_rows s key)) < 2 ^ 31"
    "set (walk (owners_of ''agent'' modified)) = set (owners_of ''agent'' modified)"
    "set (walk (owners_of ''group'' modified)) = set (owners_of ''group'' modified)"
  shows "\<exists>s'. finalize_modified_topics env walk modified s = Inr s' \<and>
    roots_fresh (ce_store env) {} {} s' \<and> contents_fresh env (Z - set modified) s'"
proof -
  have "store_sound s" using assms(1) by (simp add: db_inv_def)
  then obtain s' where s': "finalize_modified_topics env walk modified s = Inr s'"
    using finalize_total[of s modified walk env] assms(2-4) by blast
  have "db_inv env {} {} ((Z - set modified) \<union> set modified) s" using assms(1) by (auto elim: db_inv_mono)
  from inv_finalize_modified[OF s' this assms(3,4)] s' show ?thesis by (auto simp: db_inv_def)
qed

theorem finalizing_refreshes_witness:
  "\<exists>s'. finalize_modified_topics demo_chat_env id [demo_key] demo_begun = Inr s' \<and>
    roots_fresh (ce_store demo_chat_env) {} {} s' \<and> contents_fresh demo_chat_env {} s'"
proof -
  have "list_all (\<lambda>key. live_row tr_deleted_at (tb_topics demo_begun) key \<and>
      int (length (live_message_rows demo_begun key)) < 2 ^ 31) [demo_key]" by code_simp
  then have "\<forall>key\<in>set [demo_key]. live_row tr_deleted_at (tb_topics demo_begun) key \<and>
      int (length (live_message_rows demo_begun key)) < 2 ^ 31" by simp
  then show ?thesis using finalizing_refreshes[OF demo_begun_inv, of "[demo_key]" id] by simp
qed

text \<open>C12. A deletion of an agent that succeeds leaves the agent deleted and, of all live rows, exactly those
  that are not its own: its topics, messages and avatar are deleted, what hangs on its messages and its
  memberships are gone, and the configuration hash of each group it was in is that of the group without it.\<close>

theorem agent_deletion_cascades:
  assumes "delete_agent_internal env requested clock clock2 i s = Inr ((t, active), s')" "db_inv env X Y Z s"
  shows "tombstoned_agent s' i \<and> owner_gone ''agent'' i s s' \<and>
    tb_members s' = filter (\<lambda>((g, m), r). m \<noteq> i) (tb_members s) \<and>
    (\<forall>g. (g, i) \<in> row_keys (tb_members s) \<longrightarrow> group_hash_right env g s')"
  by (rule delete_agent_effect[OF assms])

definition demo_deletion :: "(int \<times> message_key list) \<times> unit tables" where
  "demo_deletion = outcome (delete_agent_internal demo_chat_env None 8 9 ''a'' demo_begun) ((0, []), no_rows)"

theorem agent_deletion_cascades_witness:
  "tombstoned_agent (snd demo_deletion) ''a'' \<and> owner_gone ''agent'' ''a'' demo_begun (snd demo_deletion)"
proof -
  have "delete_agent_internal demo_chat_env None 8 9 ''a'' demo_begun = Inr demo_deletion"
    unfolding demo_deletion_def by (rule outcome) code_simp
  then have "delete_agent_internal demo_chat_env None 8 9 ''a'' demo_begun =
      Inr ((fst (fst demo_deletion), snd (fst demo_deletion)), snd demo_deletion)" by simp
  from agent_deletion_cascades[OF this demo_begun_inv] show ?thesis by blast
qed

text \<open>C13. A generation commits only while it is pending, and once it has, no later commit of it succeeds,
  whatever operations come between.\<close>

theorem generation_commits_once:
  assumes "commit_stream_message env mk content now reason agent_id agent_name s = Inr (out, s1)"
    "chat_steps env (Z, s1) (Z', s2)"
  shows "pending_row mk s \<noteq> None \<and> pending_row mk s2 = None \<and>
    (\<exists>e. commit_stream_message env mk content' now' reason' agent_id' agent_name' s2 = Inl e)"
proof -
  obtain r hash render activity where p: "pending_row mk s = Some r"
    and b: "bubble_from_topic env (mk_topic mk)
      (stream_committed mk (ended_row (mk_topic mk) content reason hash now) render content s) = Inr (activity, s1)"
    using commit_stream_success[OF assms(1)] by blast
  have "mk \<notin> row_keys (tb_active s1)"
    using bubble_from_topic_others(4)[OF b] by (auto simp: stream_committed_def sql_delete_def row_keys_def)
  moreover have "mk \<in> row_keys (tb_messages s1)"
    using p bubble_from_topic_others(3)[OF b] by (simp add: stream_committed_def keys_update pending_iff row_keys_map_of)
  ultimately have "mk \<notin> row_keys (tb_active s2)" using steps_history[OF assms(2)] by (auto simp: history_def)
  then have none: "pending_row mk s2 = None" by (metis not_None_eq pending_iff)
  then have "\<nexists>x. commit_stream_message env mk content' now' reason' agent_id' agent_name' s2 = Inr x"
    using commit_stream_success[of env mk content' now' reason' agent_id' agent_name' s2] by fastforce
  then show ?thesis using p none by (metis obj_sumE option.distinct(1))
qed

definition demo_commit :: "(int \<times> int) \<times> unit tables" where
  "demo_commit = outcome (commit_stream_message demo_chat_env demo_generation ''hi'' 9 ''completed'' (Some ''a'') (Some ''A'')
     demo_begun) ((0, 0), no_rows)"

theorem generation_commits_once_witness:
  "pending_row demo_generation demo_begun \<noteq> None \<and> pending_row demo_generation (snd demo_commit) = None"
proof -
  have "commit_stream_message demo_chat_env demo_generation ''hi'' 9 ''completed'' (Some ''a'') (Some ''A'') demo_begun =
      Inr demo_commit"
    unfolding demo_commit_def by (rule outcome) code_simp
  then have "commit_stream_message demo_chat_env demo_generation ''hi'' 9 ''completed'' (Some ''a'') (Some ''A'') demo_begun =
      Inr (fst demo_commit, snd demo_commit)" by simp
  from generation_commits_once[OF this rtranclp.rtrancl_refl] show ?thesis by blast
qed




definition demo_user_message :: chat_message where
  "demo_user_message = (mw_message demo_write)\<lparr>cm_attachments := None\<rparr>"

definition demo_append :: "int \<times> unit tables" where
  "demo_append = outcome (append_single_message demo_chat_env (\<lambda>hash. Inl ''absent'') 4 demo_key None demo_user_message
     demo_synced) (0, no_rows)"


text \<open>C32. The user and the synchronisation write a group alike: the same configuration of a group, written
  at the same time, leaves the same database or fails.\<close>

theorem group_writers_agree:
  assumes "i \<noteq> []"
  shows "(\<exists>c. internal_write_group_config env i config now s = Inr (c, s')) \<longleftrightarrow>
    rusqlite_upsert_group (at_time (ce_store env) now) k i config s = Inr s'"
proof -
  have "se_unique (at_time (ce_store env) now) = se_unique (ce_store env)" by (simp add: at_time_def)
  then show ?thesis unfolding write_group_iff upsert_group_success at_time_rows
    using assms insert_members_env[of "at_time (ce_store env) now" "ce_store env"]
    by (simp add: at_time_rows[abs_def])
qed

definition demo_group :: group_dto where
  "demo_group = \<lparr>gd_name = ''G'', gd_members = [''a''], gd_mode = ''sequential'', gd_member_tags = None, gd_group_prompt = None,
     gd_invite_prompt = None, gd_use_unified_model = False, gd_unified_model = None, gd_tag_match_mode = None,
     gd_created_at = 1\<rparr>"

theorem group_writers_agree_witness:
  "\<exists>s'. rusqlite_upsert_group (at_time (ce_store demo_chat_env) 5) 0 ''g'' demo_group demo_begun = Inr s' \<and>
    row_keys (tb_members s') = {(''g'', ''a'')}"
proof -
  have rows: "map_of (tb_groups demo_begun) ''g'' = None" "tb_members demo_begun = []"
    "gd_members (canonical_dto demo_begun demo_group) = [''a'']" by code_simp+
  have free: "writable gr_deleted_at (tb_groups demo_begun) ''g''" by (simp add: writable_def rows)
  have members: "insert_members (ce_store demo_chat_env) ''g'' 5 0 (gd_members (canonical_dto demo_begun demo_group))
      (sql_delete (\<lambda>((g, m), r). g = ''g'') (tb_members demo_begun)) =
      Inr [((''g'', ''a''), \<lparr>mb_sort_order = 0, mb_updated_at = 5\<rparr>)]" by (simp add: rows sql_delete_def)
  obtain s' where "\<exists>c. internal_write_group_config demo_chat_env ''g'' demo_group 5 demo_begun = Inr (c, s')"
    "tb_members s' = [((''g'', ''a''), \<lparr>mb_sort_order = 0, mb_updated_at = 5\<rparr>)]"
    unfolding write_group_iff using free members by fastforce
  with group_writers_agree[of "''g''" demo_chat_env demo_group 5 demo_begun s' 0] show ?thesis
    by (auto simp: row_keys_def)
qed

text \<open>C34. A rendering is written to the cache exactly when the message is live and has the content it was made
  of; then it is what the cache answers, and no other row of the cache changes.\<close>

theorem renderings_match_content:
  "case write_render_cache_cas mk hash render now s of (written, s') \<Rightarrow>
     written = source_is_current mk hash s \<and>
     cache_hit mk s' = (if written then Some render else cache_hit mk s) \<and>
     s' = s\<lparr>tb_render := tb_render s'\<rparr> \<and>
     (\<lambda>k. if k = mk then None else map_of (tb_render s') k) = (\<lambda>k. if k = mk then None else map_of (tb_render s) k)"
proof (cases "source_is_current mk hash s")
  case True
  define row where "row = \<lparr>rr_content = render, rr_hash = hash, rr_schema_version = RENDERER_SCHEMA_VERSION, rr_updated_at = now\<rparr>"
  let ?u = "sql_upsert mk row (\<lambda>r. True) (\<lambda>r. row) (tb_render s)"
  have w: "write_render_cache_cas mk hash render now s = (snd ?u = 1, s\<lparr>tb_render := fst ?u\<rparr>)"
    using True by (simp add: write_render_cache_cas_def Let_def row_def split_def)
  have "snd ?u = 1" by (auto simp: sql_upsert_def split: option.splits)
  moreover obtain r where "map_of (tb_messages s) mk = Some r" "mr_content_hash r = hash"
    using True by (auto simp: source_is_current_def fetch_live_iff split: option.splits)
  moreover have "map_of (fst ?u) mk = Some row" by (auto simp: map_of_upsert split: option.splits)
  ultimately show ?thesis using True unfolding w by (auto simp: cache_hit_def row_def map_of_upsert fun_eq_iff)
qed (simp add: write_render_cache_cas_def)

end
