(* ===== verification/Spec2Isabelle.thy ===== *)
theory Spec2Isabelle
  imports Cli_Tasks Sync_Hash_Laws Sync_Decision_Laws Sync_Message_Laws Sync_Attempt_Laws
    Sync_Push Sync_Version Ast_Diff_Laws Stream_Blocks_Laws Aurora_Laws Stream_Request_Laws Chat_Properties
begin

text \<open>
  VCPMobile is a chat client whose core is the Rust backend under \<open>src-tauri/src\<close>. This development
  models its stateful logic and proves what makes it correct; paths below are relative to
  \<open>src-tauri/src/vcp_modules\<close>.

  \<^bold>\<open>The parts and how they interact.\<close> The CLI runtime (\<open>cli/\<close>) starts shell jobs on the device for
  the assistant: an owner holds the job ledger, every change of it is saved to disk before it is in
  force, and asynchronous tasks (monitors, cancellation, recovery) interleave their critical
  sections on it. The synchronisation (\<open>sync/\<close>) keeps the device's database equal to a desktop's:
  a version handshake, then an attempt of five phases, which exchange manifests of owners, topics
  and avatars, then message states, then messages in batches. The chat (\<open>chat/\<close>) turns the text a
  model streams into closed blocks and a growing tail, and renders both incrementally. Its
  services and the synchronisation write one database.

  \<^bold>\<open>Shared theories.\<close> \<open>Prelude\<close> has the machine integers and the list lemmas of the components;
  \<open>Rust_Str\<close> models \<open>str\<close> as UTF-8 bytes.

  \<^bold>\<open>CLI runtime.\<close> \<open>Job_Ledger\<close> and \<open>Ledger_Store\<close> (\<open>cli/ledger.rs\<close>): records, terminal intents,
  operation replay, eviction, loading, the atomic save with the answer of every system call an
  argument, and scoped recovery; the file system is a map from paths to contents. \<open>Ledger_Laws\<close>:
  loading, eviction, replay, counters in any order. \<open>Cli_Runtime\<close> (\<open>cli/runtime.rs\<close>): the owner and
  one function per critical section; \<open>Cli_Safety\<close>: under every interleaving a terminal job keeps its
  outcome, the first terminal intent wins, every intent in memory is on disk, and the limits on live
  jobs hold. \<open>Cli_Tasks\<close>: the tasks that string sections together, cancellation and the monitor.

  \<^bold>\<open>Synchronisation.\<close> \<open>Sync_Types\<close>, \<open>Sync_Errors\<close> and \<open>Sync_Version\<close>: identities, vocabularies,
  wire errors and the handshake. \<open>Sync_Hash\<close> and \<open>Sync_Hash_Laws\<close>: canonical JSON, message
  fingerprints and Merkle aggregates, and what equal hashes mean. \<open>Sync_Latches\<close>: the latches that
  accept one response each. \<open>Sync_Decisions\<close>, \<open>Sync_Messages\<close> and their laws: the checks and the
  effects of manifest decisions and of message batches. \<open>Sync_Pipeline\<close> and its laws: the states
  built from the rows of arbitrary query answers. \<open>Sync_Push\<close>: the topics pushed. \<open>Sync_Attempt\<close>: the
  loop of one attempt as a step relation over frames, commands, workers and watchdogs;
  \<open>Sync_Attempt_Laws\<close>: phases open once and in order, success means that everything completed.

  \<^bold>\<open>The database the synchronisation writes.\<close> \<open>Sync_Tables\<close>: the transfer objects and the rows of
  every table, an association list per table with its SQL key. \<open>Sync_Upserts\<close>
  (\<open>persistence/db_write_queue.rs\<close>): every write of a pulled owner, avatar, topic or message batch,
  statement by statement, triggers of the full text index included, and the recomputation of the
  owners' hashes. \<open>Sync_Upserts_Laws\<close>: what a successful write leaves. \<open>Sync_Store_Laws\<close>: the locale
  \<open>store_steps\<close>, a relation between stores that every write keeps, interpreted on four of them
  (deletion is final, the store is well formed, the index follows the messages, the register of
  generations stays). \<open>Write_Queue\<close>: the
  worker that batches the tasks into transactions and answers flushes; \<open>Write_Queue_Laws\<close>: what a
  run of the worker keeps, whatever the tasks and the failures, proved once in the context of that
  locale.

  \<^bold>\<open>The chat store.\<close> The services of agents, groups, topics, messages and avatars change the same
  tables, each operation in one transaction: a function from the tables to an error, with which it
  rolls back, or to its result and the new tables. \<open>Chat_Store\<close> (\<open>sync/sync_hash.rs\<close> and the schema):
  the hashes an operation refreshes and the statements they share. \<open>Chat_Deletes\<close>, \<open>Chat_Messages\<close> and
  \<open>Chat_Owners\<close> (\<open>agent/\<close>, \<open>group/\<close>, \<open>chat/topic_service.rs\<close>, \<open>chat/message_service.rs\<close>,
  \<open>persistence/message_repository.rs\<close>, \<open>sync/sync_executor/delete_executor.rs\<close>,
  \<open>sync/sync_finalize.rs\<close>): one function per operation. The invariant \<open>db_inv\<close> says that the store is
  well formed, the index follows the messages and the hashes of owners and topics are right but for
  given sets of them; \<open>Chat_Store_Laws\<close> has its parts, \<open>Chat_Rows_Laws\<close> the statements,
  \<open>Chat_Deletes_Laws\<close>, \<open>Chat_Messages_Laws\<close> and \<open>Chat_Owners_Laws\<close> each operation. \<open>Chat_History\<close>:
  what no operation undoes. \<open>Chat_Laws\<close>: the machine whose steps are all operations, the transactions
  of the write queue among them, with the topics a synchronisation has left to its finalizer.
  \<open>Chat_Properties\<close>: what holds of its runs and of single operations.

  \<^bold>\<open>Chat.\<close> \<open>Content_Parse\<close> (\<open>chat/content_parser.rs\<close>): the recognisers of special blocks.
  \<open>Stream_Blocks\<close> (\<open>chat/stream_block_parser.rs\<close>): the incremental block parser;
  \<open>Stream_Blocks_Laws\<close>: its cursors lose nothing and every call ends. \<open>Ast_Diff\<close>
  (\<open>chat/ast_diff.rs\<close>, \<open>chat/pre_renderer/markdown_ast.rs\<close>): syntax trees, their hashes and their
  difference; \<open>Ast_Diff_Laws\<close>: executing the difference on the old document gives the new one.
  \<open>Aurora\<close> (\<open>chat/aurora_pipeline.rs\<close>): the buffer between a model's tokens and the screen, its
  flushes and what it emits; \<open>Aurora_Laws\<close>: nothing is lost or reordered. \<open>Sse_Stream\<close> and
  \<open>Stream_Request\<close> (\<open>infra/vcp_client.rs\<close>): the decoder of the event stream and the loops of one
  streaming request, with their laws beside them.

  \<^bold>\<open>Conventions.\<close> Errors are the left values of sums, or \<open>None\<close>. Machine integers are words where
  they can wrap or saturate; lengths, offsets and counters bounded by memory are naturals. Code that
  is not in the repository is a parameter: SHA-256, float printing, string escaping, the regular
  expressions, serde's text format, the clock, the file system's answers, the rows of a query, the
  bridge to the shell. What is relied on of a parameter is a named hypothesis (\<open>scanner_ok\<close>,
  injectivity of a digest), and a witness shows that it can hold. Loops recurse on their data or
  carry a termination proof; \<open>parse_loop\<close> is a partial function whose termination is a theorem; the
  fuel of \<open>tool_end_from\<close> is one more than the length of the text, and every round of that loop moves
  its cursor past a nonempty match.

  \<^bold>\<open>Not modelled.\<close> The front end (TypeScript, Vue), the Android and iOS plugins, and the Rust parts
  that are queries, HTTP, file or window plumbing around a library; the manifest lists each with its
  reason. The chat store has the writes of the services, not their reads and caches in memory. Within the modelled files: the Markdown parser, syntax highlighting, the SQL text of
  queries, logging, and the futures machinery (a task is a sequence of critical sections).
\<close>

end
